(* ===== verification/Perun_Prelude.thy ===== *)
theory Perun_Prelude
  imports Main "HOL-Library.Word"
begin

text \<open>
  Shared vocabulary of the development.  It holds

  \<^item> the types of Go values that every component uses: byte strings, fixed-width
    integers, channel identifiers, the phases of a channel machine;
  \<^item> the outcome of a Go call, \<open>'a res\<close>: a value, a non-nil \<open>error\<close>, or a panic,
    and the combinators that sequence calls, with the rules that decompose them;
  \<^item> encoders (a call that appends bytes to a writer) and decoders (a call that
    consumes a prefix of a reader), and the predicate \<open>roundtrips\<close> with the rules
    by which the encoding of a structure is built from the encodings of its parts;
  \<^item> the collections of rewrite and introduction rules the component proofs use.
\<close>

section \<open>Collections\<close>

named_theorems res_simps \<open>evaluation of sequenced calls\<close>
named_theorems codec_intros \<open>how round trips compose\<close>
named_theorems machine_defs \<open>definitions of the channel machine operations\<close>

section \<open>Go values\<close>

type_synonym byte = "8 word"
type_synonym bytes = "8 word list"
type_synonym u16 = "16 word"
type_synonym u32 = "32 word"
type_synonym u64 = "64 word"

text \<open>A channel identifier is a \<open>[32]byte\<close>; the model keeps the bytes and states the length
  where it matters.\<close>

type_synonym ID = "bytes"

text \<open>\<open>channel.Index\<close> is \<open>uint16\<close>, \<open>Bal\<close> is \<open>*big.Int\<close> (never nil in the model).\<close>

type_synonym Index = "u16"
type_synonym Bal = "int"

definition str :: "string \<Rightarrow> bytes" where
  "str s = map of_char s"

text \<open>The phases of \<open>channel/machine.go\<close>.  A \<open>Phase\<close> is a \<open>uint8\<close>, and decoding may
  produce a number beyond the last named constant; \<open>UnknownPhase k\<close> is the number \<open>12 + k\<close>.\<close>

datatype Phase =
    InitActing | InitSigning | Funding | Acting | Signing | Final
  | Registering | Registered | Progressing | Progressed | Withdrawing | Withdrawn
  | UnknownPhase nat

fun phase_num :: "Phase \<Rightarrow> nat" where
  "phase_num InitActing = 0"
| "phase_num InitSigning = 1"
| "phase_num Funding = 2"
| "phase_num Acting = 3"
| "phase_num Signing = 4"
| "phase_num Final = 5"
| "phase_num Registering = 6"
| "phase_num Registered = 7"
| "phase_num Progressing = 8"
| "phase_num Progressed = 9"
| "phase_num Withdrawing = 10"
| "phase_num Withdrawn = 11"
| "phase_num (UnknownPhase k) = 12 + k"

definition phase_of_num :: "nat \<Rightarrow> Phase" where
  "phase_of_num n =
     (if n < 12
      then [InitActing, InitSigning, Funding, Acting, Signing, Final, Registering,
            Registered, Progressing, Progressed, Withdrawing, Withdrawn] ! n
      else UnknownPhase (n - 12))"

lemma phase_of_num_phase_num [simp]: "phase_of_num (phase_num p) = p"
  by (cases p) (simp_all add: phase_of_num_def)

lemma phase_num_inject [simp]: "phase_num p = phase_num q \<longleftrightarrow> p = q"
  by (metis phase_of_num_phase_num)

lemma phase_num_of_num [simp]: "phase_num (phase_of_num n) = n"
proof (cases "n < 12")
  case True
  then have "n \<in> {0, 1, 2, 3, 4, 5, 6, 7, 8, 9, 10, 11}"
    by (simp; arith)
  then show ?thesis
    by (auto simp: phase_of_num_def)
qed (simp add: phase_of_num_def)

text \<open>Phases are compared as the numbers they are.\<close>

instantiation Phase :: linorder
begin

definition less_eq_Phase :: "Phase \<Rightarrow> Phase \<Rightarrow> bool" where
  "less_eq_Phase p q \<longleftrightarrow> phase_num p \<le> phase_num q"

definition less_Phase :: "Phase \<Rightarrow> Phase \<Rightarrow> bool" where
  "less_Phase p q \<longleftrightarrow> phase_num p < phase_num q"

instance
  by standard (auto simp: less_eq_Phase_def less_Phase_def)

end

section \<open>Errors and outcomes of calls\<close>

text \<open>A Go \<open>error\<close> value.  Messages are the literal (format) strings of the source; the
  interpolated arguments are left out.  The typed errors of \<open>channel/errors.go\<close> and
  \<open>pkg/sortedkv\<close> keep the fields the program reads.\<close>

datatype goerr =
    ErrNew string
  | ErrWithMessage string goerr
  | ErrEOF
  | ErrUnexpectedEOF
  | StateTransitionError ID
  | ActionError ID
  | PhaseTransitionError ID Phase Phase Phase
  | ErrNotFound bytes
  | RequestTimedOutError
  | PeerRejectedError string bytes
  | FundingTimeoutError "(u16 \<times> u16 list) list"
  | AuthenticationError bytes bytes bytes
  | AssetFundingError u16 "u16 list"
  | TxTimedoutError string bytes
  | ChainNotReachableError
  | ContextCanceled
  | DeadlineExceeded
  | AccumulatedError "goerr list"

text \<open>\<open>errors.Cause\<close>: the innermost error.\<close>

primrec Cause :: "goerr \<Rightarrow> goerr" where
  "Cause (ErrNew s) = ErrNew s"
| "Cause (ErrWithMessage s e) = Cause e"
| "Cause ErrEOF = ErrEOF"
| "Cause ErrUnexpectedEOF = ErrUnexpectedEOF"
| "Cause (StateTransitionError i) = StateTransitionError i"
| "Cause (ActionError i) = ActionError i"
| "Cause (PhaseTransitionError i c f t) = PhaseTransitionError i c f t"
| "Cause (ErrNotFound k) = ErrNotFound k"
| "Cause RequestTimedOutError = RequestTimedOutError"
| "Cause (PeerRejectedError s r) = PeerRejectedError s r"
| "Cause (FundingTimeoutError es) = FundingTimeoutError es"
| "Cause (AuthenticationError s r own) = AuthenticationError s r own"
| "Cause (AssetFundingError a ps) = AssetFundingError a ps"
| "Cause (TxTimedoutError t i) = TxTimedoutError t i"
| "Cause ChainNotReachableError = ChainNotReachableError"
| "Cause ContextCanceled = ContextCanceled"
| "Cause DeadlineExceeded = DeadlineExceeded"
| "Cause (AccumulatedError es) = AccumulatedError es"

datatype 'a res = OK 'a | Err goerr | Panic string

primrec bindR :: "'a res \<Rightarrow> ('a \<Rightarrow> 'b res) \<Rightarrow> 'b res" where
  "bindR (OK x) f = f x"
| "bindR (Err e) f = Err e"
| "bindR (Panic s) f = Panic s"

primrec with_msg :: "string \<Rightarrow> 'a res \<Rightarrow> 'a res" where
  "with_msg s (OK x) = OK x"
| "with_msg s (Err e) = Err (ErrWithMessage s e)"
| "with_msg s (Panic p) = Panic p"

text \<open>A call whose error makes the caller panic.\<close>

primrec must :: "string \<Rightarrow> 'a res \<Rightarrow> 'a res" where
  "must s (OK x) = OK x"
| "must s (Err e) = Panic s"
| "must s (Panic p) = Panic p"

text \<open>An early return of an error when a condition holds.\<close>

definition err_if :: "bool \<Rightarrow> goerr \<Rightarrow> unit res" where
  "err_if b e = (if b then Err e else OK ())"

definition panic_if :: "bool \<Rightarrow> string \<Rightarrow> unit res" where
  "panic_if b s = (if b then Panic s else OK ())"

definition is_OK :: "'a res \<Rightarrow> bool" where
  "is_OK r = (case r of OK _ \<Rightarrow> True | _ \<Rightarrow> False)"

definition is_Panic :: "'a res \<Rightarrow> bool" where
  "is_Panic r = (case r of Panic _ \<Rightarrow> True | _ \<Rightarrow> False)"

text \<open>A slice access panics out of range.\<close>

definition index_at :: "'a list \<Rightarrow> nat \<Rightarrow> 'a res" where
  "index_at xs i = (if i < length xs then OK (xs ! i) else Panic ''index out of range'')"

definition deref :: "'a option \<Rightarrow> 'a res" where
  "deref p = (case p of Some x \<Rightarrow> OK x | None \<Rightarrow> Panic ''nil pointer dereference'')"

text \<open>A loop over a slice that stops at the first error or panic.\<close>

primrec forEach :: "('a \<Rightarrow> unit res) \<Rightarrow> 'a list \<Rightarrow> unit res" where
  "forEach f [] = OK ()"
| "forEach f (x # xs) = bindR (f x) (\<lambda>_. forEach f xs)"

primrec mapR :: "('a \<Rightarrow> 'b res) \<Rightarrow> 'a list \<Rightarrow> 'b list res" where
  "mapR f [] = OK []"
| "mapR f (x # xs) = bindR (f x) (\<lambda>y. bindR (mapR f xs) (\<lambda>ys. OK (y # ys)))"

primrec foldR :: "('a \<Rightarrow> 's \<Rightarrow> 's res) \<Rightarrow> 'a list \<Rightarrow> 's \<Rightarrow> 's res" where
  "foldR f [] s = OK s"
| "foldR f (x # xs) s = bindR (f x s) (foldR f xs)"

lemma bindR_OK_iff [res_simps]: "bindR m f = OK y \<longleftrightarrow> (\<exists>x. m = OK x \<and> f x = OK y)"
  by (cases m) auto

lemma bindR_Err_iff [res_simps]:
  "bindR m f = Err e \<longleftrightarrow> m = Err e \<or> (\<exists>x. m = OK x \<and> f x = Err e)"
  by (cases m) auto

lemma bindR_Panic_iff [res_simps]:
  "bindR m f = Panic s \<longleftrightarrow> m = Panic s \<or> (\<exists>x. m = OK x \<and> f x = Panic s)"
  by (cases m) auto

lemma with_msg_OK_iff [simp]: "with_msg s m = OK x \<longleftrightarrow> m = OK x"
  by (cases m) auto

lemma with_msg_Panic_iff [simp]: "with_msg s m = Panic p \<longleftrightarrow> m = Panic p"
  by (cases m) auto

lemma with_msg_Err_iff [res_simps]:
  "with_msg s m = Err e \<longleftrightarrow> (\<exists>e'. m = Err e' \<and> e = ErrWithMessage s e')"
  by (cases m) auto

lemma must_simps [simp]:
  "must s m = OK x \<longleftrightarrow> m = OK x"
  "must s m \<noteq> Err e"
  by (cases m; simp)+

lemma err_if_simps [simp]:
  "err_if True e = Err e"
  "err_if False e = OK ()"
  "err_if b e = OK u \<longleftrightarrow> \<not> b"
  "err_if b e = Err e' \<longleftrightarrow> b \<and> e' = e"
  "err_if b e \<noteq> Panic s"
  by (auto simp: err_if_def)

lemma panic_if_simps [simp]:
  "panic_if True s = Panic s"
  "panic_if False s = OK ()"
  "panic_if b s = OK u \<longleftrightarrow> \<not> b"
  "panic_if b s \<noteq> Err e"
  "panic_if b s = Panic s' \<longleftrightarrow> b \<and> s' = s"
  by (auto simp: panic_if_def)

lemma is_OK_simps [simp]:
  "is_OK (OK x)" "\<not> is_OK (Err e)" "\<not> is_OK (Panic s)"
  by (simp_all add: is_OK_def)

lemma is_OK_iff: "is_OK r \<longleftrightarrow> (\<exists>x. r = OK x)"
  by (cases r) auto

lemma is_OK_unit_iff: "is_OK r \<longleftrightarrow> r = OK ()"
  by (cases r) auto

lemma is_Panic_simps [simp]:
  "\<not> is_Panic (OK x)" "\<not> is_Panic (Err e)" "is_Panic (Panic s)"
  by (simp_all add: is_Panic_def)

lemma index_at_OK_iff [simp]: "index_at xs i = OK x \<longleftrightarrow> i < length xs \<and> xs ! i = x"
  by (auto simp: index_at_def)

lemma index_at_not_Err [simp]: "index_at xs i \<noteq> Err e"
  by (simp add: index_at_def)

lemma index_at_in_range [simp]: "i < length xs \<Longrightarrow> index_at xs i = OK (xs ! i)"
  by (simp add: index_at_def)

lemma deref_simps [simp]:
  "deref (Some x) = OK x"
  "deref p = OK x \<longleftrightarrow> p = Some x"
  "deref p \<noteq> Err e"
  by (auto simp: deref_def split: option.splits)

lemma forEach_OK_iff: "forEach f xs = OK u \<longleftrightarrow> (\<forall>x\<in>set xs. f x = OK ())"
  by (induction xs) (auto simp: res_simps)

lemma mapR_OK_iff:
  "mapR f xs = OK ys \<longleftrightarrow> list_all2 (\<lambda>x y. f x = OK y) xs ys"
  by (induction xs arbitrary: ys) (auto simp: res_simps list_all2_Cons1)

lemma mapR_total: "(\<And>x. x \<in> set xs \<Longrightarrow> f x = OK (g x)) \<Longrightarrow> mapR f xs = OK (map g xs)"
  by (induction xs) auto

lemma bindR_assoc [simp]: "bindR (bindR m f) g = bindR m (\<lambda>x. bindR (f x) g)"
  by (cases m) auto

section \<open>Encoders and decoders\<close>

text \<open>An encoder's result is the bytes it writes.  What was written before a failure is not
  part of the model.  A decoder consumes a prefix of the bytes that are left in the reader (a
  \<open>bytes.Buffer\<close>, so that a read of zero bytes succeeds at the end of the input).\<close>

type_synonym 'a decoder = "bytes \<Rightarrow> ('a \<times> bytes) res"

definition catE :: "bytes res \<Rightarrow> bytes res \<Rightarrow> bytes res" where
  "catE a b = bindR a (\<lambda>x. bindR b (\<lambda>y. OK (x @ y)))"

primrec concatE :: "bytes res list \<Rightarrow> bytes res" where
  "concatE [] = OK []"
| "concatE (e # es) = catE e (concatE es)"

definition returnD :: "'a \<Rightarrow> 'a decoder" where
  "returnD x r = OK (x, r)"

definition failD :: "goerr \<Rightarrow> 'a decoder" where
  "failD e r = Err e"

definition bindD :: "'a decoder \<Rightarrow> ('a \<Rightarrow> 'b decoder) \<Rightarrow> 'b decoder" where
  "bindD d f r = bindR (d r) (\<lambda>(x, r'). f x r')"

definition msgD :: "string \<Rightarrow> 'a decoder \<Rightarrow> 'a decoder" where
  "msgD s d r = with_msg s (d r)"

definition checkD :: "unit res \<Rightarrow> unit decoder" where
  "checkD c r = bindR c (\<lambda>_. OK ((), r))"

primrec repeatD :: "nat \<Rightarrow> 'a decoder \<Rightarrow> 'a list decoder" where
  "repeatD 0 d = returnD []"
| "repeatD (Suc n) d = bindD d (\<lambda>x. bindD (repeatD n d) (\<lambda>xs. returnD (x # xs)))"

definition roundtrips :: "bytes res \<Rightarrow> 'a decoder \<Rightarrow> 'a \<Rightarrow> bool" where
  "roundtrips e d x \<longleftrightarrow> (\<exists>bs. e = OK bs \<and> (\<forall>rest. d (bs @ rest) = OK (x, rest)))"

lemma roundtripsI: "e = OK bs \<Longrightarrow> (\<And>rest. d (bs @ rest) = OK (x, rest)) \<Longrightarrow> roundtrips e d x"
  by (auto simp: roundtrips_def)

lemma roundtrips_OK_I: "(\<And>rest. d (bs @ rest) = OK (x, rest)) \<Longrightarrow> roundtrips (OK bs) d x"
  by (auto simp: roundtrips_def)

lemma roundtripsE:
  assumes "roundtrips e d x"
  obtains bs where "e = OK bs" "\<And>rest. d (bs @ rest) = OK (x, rest)"
  using assms by (auto simp: roundtrips_def)

lemma roundtrips_unique: "roundtrips e d x \<Longrightarrow> roundtrips e d y \<Longrightarrow> x = y"
  by (auto simp: roundtrips_def)

lemma roundtrips_return [codec_intros]: "roundtrips (OK []) (returnD x) x"
  by (rule roundtripsI) (simp_all add: returnD_def)

lemma roundtrips_bind [codec_intros]:
  assumes "roundtrips e d x" and "roundtrips e' (f x) y"
  shows "roundtrips (catE e e') (bindD d f) y"
proof -
  from assms obtain bs bs' where
    "e = OK bs" "\<And>rest. d (bs @ rest) = OK (x, rest)"
    "e' = OK bs'" "\<And>rest. f x (bs' @ rest) = OK (y, rest)"
    by (auto simp: roundtrips_def)
  then show ?thesis
    by (intro roundtripsI [of _ "bs @ bs'"]) (simp_all add: catE_def bindD_def)
qed

lemma roundtrips_bind_last:
  assumes "roundtrips e d x" and "\<And>rest. f x rest = OK (y, rest)"
  shows "roundtrips e (bindD d f) y"
  using assms by (auto simp: roundtrips_def bindD_def)

lemma roundtrips_msgD [codec_intros]: "roundtrips e d x \<Longrightarrow> roundtrips e (msgD s d) x"
  by (auto simp: roundtrips_def msgD_def)

lemma roundtrips_with_msg [codec_intros]: "roundtrips e d x \<Longrightarrow> roundtrips (with_msg s e) d x"
  by (auto simp: roundtrips_def)

lemma roundtrips_concatE_Cons [codec_intros]:
  "roundtrips (catE e (concatE es)) d x \<Longrightarrow> roundtrips (concatE (e # es)) d x"
  by simp

lemma roundtrips_checkD [codec_intros]:
  assumes "c = OK ()" and "roundtrips e (f ()) y"
  shows "roundtrips e (bindD (checkD c) f) y"
  using assms by (auto simp: roundtrips_def bindD_def checkD_def)

lemma roundtrips_repeatD [codec_intros]:
  assumes "\<And>x. x \<in> set xs \<Longrightarrow> roundtrips (enc x) d x"
  shows "roundtrips (concatE (map enc xs)) (repeatD (length xs) d) xs"
  using assms
proof (induction xs)
  case Nil
  then show ?case by (simp add: roundtrips_return)
next
  case (Cons a xs)
  then have "roundtrips (enc a) d a" "roundtrips (concatE (map enc xs)) (repeatD (length xs) d) xs"
    by auto
  then have "roundtrips (catE (enc a) (concatE (map enc xs)))
      (bindD d (\<lambda>x. bindD (repeatD (length xs) d) (\<lambda>xs. returnD (x # xs)))) (a # xs)"
    by (intro roundtrips_bind [where x = a] roundtrips_bind_last [where x = xs])
      (simp_all add: returnD_def)
  then show ?case
    by simp
qed

lemma roundtrips_guarded:
  "c = OK () \<Longrightarrow> roundtrips e d x \<Longrightarrow> roundtrips (bindR c (\<lambda>_. e)) d x"
  by simp

lemma catE_OK_iff [res_simps]:
  "catE a b = OK z \<longleftrightarrow> (\<exists>x y. a = OK x \<and> b = OK y \<and> z = x @ y)"
  by (auto simp: catE_def res_simps)

lemma catE_not_Panic: "catE a b = Panic s \<longleftrightarrow> a = Panic s \<or> (\<exists>x. a = OK x \<and> b = Panic s)"
  by (auto simp: catE_def res_simps)

lemma concatE_OK_iff:
  "concatE es = OK z \<longleftrightarrow> (\<exists>bss. es = map OK bss \<and> z = concat bss)"
proof (induction es arbitrary: z)
  case (Cons e es)
  have "(\<exists>bss. e # es = map OK bss \<and> z = concat bss) \<longleftrightarrow>
        (\<exists>b bss. e = OK b \<and> es = map OK bss \<and> z = b @ concat bss)" (is "?l \<longleftrightarrow> ?r")
  proof
    assume ?l
    then obtain bss where "map OK bss = e # es" "z = concat bss"
      by metis
    then show ?r
      by (auto simp: map_eq_Cons_conv)
  next
    assume ?r
    then obtain b bss where "e # es = map OK (b # bss)" "z = concat (b # bss)"
      by auto
    then show ?l
      by (intro exI [of _ "b # bss"] conjI)
  qed
  then show ?case
    by (auto simp: res_simps Cons.IH)
qed auto

text \<open>The contract of a serialisable type: on well-formed values encoding succeeds and decoding
  gives the value back and leaves the rest of the stream untouched.\<close>

locale serializer =
  fixes enc :: "'a \<Rightarrow> bytes res"
    and dec :: "'a decoder"
    and wf :: "'a \<Rightarrow> bool"
  assumes roundtrip: "wf x \<Longrightarrow> roundtrips (enc x) dec x"
begin

lemma enc_total: "wf x \<Longrightarrow> \<exists>bs. enc x = OK bs"
  using roundtrip by (auto simp: roundtrips_def)

lemma dec_enc: "wf x \<Longrightarrow> enc x = OK bs \<Longrightarrow> dec (bs @ rest) = OK (x, rest)"
  using roundtrip [of x] by (auto simp: roundtrips_def)

lemma enc_inj: "wf x \<Longrightarrow> wf y \<Longrightarrow> enc x = enc y \<Longrightarrow> x = y"
  using roundtrip [of x] roundtrip [of y] by (auto simp: roundtrips_def)

lemma enc_prefix_free:
  assumes "wf x" "wf y" "enc x = OK bs" "enc y = OK (bs @ cs)"
  shows "x = y \<and> cs = []"
proof -
  have "dec (bs @ cs) = OK (x, cs)"
    using assms by (intro dec_enc)
  moreover have "dec ((bs @ cs) @ []) = OK (y, [])"
    using assms by (intro dec_enc)
  ultimately show ?thesis
    by simp
qed

lemma stream_roundtrip:
  "(\<And>x. x \<in> set xs \<Longrightarrow> wf x) \<Longrightarrow> roundtrips (concatE (map enc xs)) (repeatD (length xs) dec) xs"
  by (intro roundtrips_repeatD roundtrip)

end

end
