(* ===== verification/Perun_IO.thy ===== *)
theory Perun_IO
  imports Perun_Prelude
begin

text \<open>
  The serialisation package \<open>pkg/io\<close> and the vector sums of \<open>pkg/math/big\<close>.

  \<^item> \<open>Encode\<close> is the type switch of \<open>serialize.go\<close> over the dynamic type of its arguments, which
    the datatype \<open>val\<close> lists; \<open>decArg\<close> wraps the decoder of one argument of \<open>Decode\<close>.
  \<^item> \<open>BigInt_Encode\<close>, \<open>encodeString\<close> and \<open>ByteSlice_Encode\<close> with their decoders are the
    length-prefixed formats, with the panics and length errors of the source.
  \<^item> \<open>EqualEncoding\<close> compares two encoders that may be nil.
  \<^item> \<open>AddSums\<close> and \<open>EqualSum\<close> operate on per-asset totals.

  The lemmas show that every primitive value survives the trip through a stream and
  characterise the values whose encoding fails.
\<close>

section \<open>Numbers as bytes\<close>

primrec le_bytes :: "nat \<Rightarrow> nat \<Rightarrow> bytes" where
  "le_bytes 0 n = []"
| "le_bytes (Suc k) n = of_nat n # le_bytes k (n div 256)"

primrec le_nat :: "bytes \<Rightarrow> nat" where
  "le_nat [] = 0"
| "le_nat (b # bs) = unat b + 256 * le_nat bs"

text \<open>\<open>big.Int.Bytes\<close>: the absolute value in big-endian order without leading zeros, and
  \<open>SetBytes\<close>.\<close>

fun be_bytes :: "nat \<Rightarrow> bytes" where
  "be_bytes n = (if n = 0 then [] else be_bytes (n div 256) @ [of_nat n])"

declare be_bytes.simps [simp del]

definition be_nat :: "bytes \<Rightarrow> nat" where
  "be_nat bs = foldl (\<lambda>a b. 256 * a + unat b) 0 bs"

lemma unat_of_nat_byte [simp]: "unat (of_nat n :: byte) = n mod 256"
  by (simp add: unat_of_nat)

lemma length_le_bytes [simp]: "length (le_bytes k n) = k"
  by (induction k arbitrary: n) simp_all

lemma le_nat_le_bytes [simp]: "le_nat (le_bytes k n) = n mod 256 ^ k"
  by (induction k arbitrary: n) (simp_all add: mod_mult2_eq)

lemma be_nat_snoc [simp]: "be_nat (bs @ [b]) = 256 * be_nat bs + unat b"
  by (simp add: be_nat_def)

lemma be_nat_be_bytes [simp]: "be_nat (be_bytes n) = n"
proof (induction n rule: be_bytes.induct)
  case (1 n)
  then show ?case
    by (subst be_bytes.simps) (auto simp: be_nat_def)
qed

lemma length_be_bytes_le: "length (be_bytes n) \<le> k \<longleftrightarrow> n < 256 ^ k"
proof (induction k arbitrary: n)
  case 0
  show ?case
    by (subst be_bytes.simps) simp
next
  case (Suc k)
  show ?case
    by (subst be_bytes.simps) (auto simp: Suc.IH div_less_iff_less_mult)
qed

section \<open>Writing\<close>

text \<open>An \<open>Encoder\<close> is nil or is represented by what its \<open>Encode\<close> method does.\<close>

type_synonym encoder = "bytes res option"

definition MaxBigIntLength :: nat where
  "MaxBigIntLength = 128"

definition BigInt_Encode :: "int option \<Rightarrow> bytes res" where
  "BigInt_Encode b = (case b of
      None \<Rightarrow> Panic ''logic error: tried to encode nil big.Int''
    | Some i \<Rightarrow>
        if i < 0 then Panic ''encoding of negative big.Int not implemented''
        else let bs = be_bytes (nat i) in
          if length bs > MaxBigIntLength then Err (ErrNew ''big.Int too big to encode'')
          else if length bs = 0 then OK [of_nat (length bs)]
          else OK (of_nat (length bs) # bs))"

definition encodeString :: "bytes \<Rightarrow> bytes res" where
  "encodeString s =
     (let l = (of_nat (length s) :: u16) in
      if unat l \<noteq> length s then Err (ErrNew ''string length exceeded: %d'')
      else if l = 0 then OK (le_bytes 2 (unat l))
      else OK (le_bytes 2 (unat l) @ s))"

definition ByteSlice_Encode :: "bytes \<Rightarrow> bytes res" where
  "ByteSlice_Encode b = OK b"

text \<open>The dynamic types that the type switch of \<open>Encode\<close> distinguishes.  Signed integers and
  the nanoseconds of a \<open>time.Time\<close> are their two's complement bit patterns.\<close>

datatype val =
    VBool bool
  | VInt8 byte | VUint8 byte
  | VInt16 u16 | VUint16 u16
  | VInt32 u32 | VUint32 u32
  | VInt64 u64 | VUint64 u64
  | VTime u64
  | VBigInt "int option"
  | VBytes32 bytes
  | VByteSlice bytes
  | VString bytes
  | VEncoder encoder
  | VOther

definition Encode_value :: "val \<Rightarrow> bytes res" where
  "Encode_value v = (case v of
      VBool b \<Rightarrow> OK [if b then 1 else 0]
    | VInt8 w \<Rightarrow> OK (le_bytes 1 (unat w))
    | VUint8 w \<Rightarrow> OK (le_bytes 1 (unat w))
    | VInt16 w \<Rightarrow> OK (le_bytes 2 (unat w))
    | VUint16 w \<Rightarrow> OK (le_bytes 2 (unat w))
    | VInt32 w \<Rightarrow> OK (le_bytes 4 (unat w))
    | VUint32 w \<Rightarrow> OK (le_bytes 4 (unat w))
    | VInt64 w \<Rightarrow> OK (le_bytes 8 (unat w))
    | VUint64 w \<Rightarrow> OK (le_bytes 8 (unat w))
    | VTime t \<Rightarrow> OK (le_bytes 8 (unat t))
    | VBigInt i \<Rightarrow> BigInt_Encode i
    | VBytes32 b \<Rightarrow> OK b
    | VByteSlice b \<Rightarrow> ByteSlice_Encode b
    | VString s \<Rightarrow> encodeString s
    | VEncoder e \<Rightarrow> (case e of
          Some r \<Rightarrow> r
        | None \<Rightarrow> Panic ''perunio.Encode(): Invalid type %T'')
    | VOther \<Rightarrow> Panic ''perunio.Encode(): Invalid type %T'')"

definition encArg :: "val \<Rightarrow> bytes res" where
  "encArg v = with_msg ''failed to encode %dth value of type %T'' (Encode_value v)"

definition Encode :: "val list \<Rightarrow> bytes res" where
  "Encode vs = concatE (map encArg vs)"

section \<open>Reading\<close>

definition ReadFull :: "nat \<Rightarrow> bytes decoder" where
  "ReadFull n r =
     (if n \<le> length r then OK (take n r, drop n r)
      else if r = [] then Err ErrEOF else Err ErrUnexpectedEOF)"

text \<open>\<open>binary.Read\<close> of a fixed-size little-endian number.\<close>

definition readLE :: "nat \<Rightarrow> nat decoder" where
  "readLE k = bindD (ReadFull k) (\<lambda>bs. returnD (le_nat bs))"

definition decBool :: "bool decoder" where
  "decBool = bindD (ReadFull 1) (\<lambda>bs. returnD (hd bs \<noteq> 0))"

definition decUint8 :: "byte decoder" where
  "decUint8 = bindD (readLE 1) (\<lambda>n. returnD (of_nat n))"

definition decUint16 :: "u16 decoder" where
  "decUint16 = bindD (readLE 2) (\<lambda>n. returnD (of_nat n))"

definition decUint32 :: "u32 decoder" where
  "decUint32 = bindD (readLE 4) (\<lambda>n. returnD (of_nat n))"

definition decUint64 :: "u64 decoder" where
  "decUint64 = bindD (readLE 8) (\<lambda>n. returnD (of_nat n))"

definition decInt64 :: "u64 decoder" where
  "decInt64 = bindD (readLE 8) (\<lambda>n. returnD (of_nat n))"

definition decTime :: "u64 decoder" where
  "decTime = bindD (readLE 8) (\<lambda>nsec. returnD (of_nat nsec))"

definition decBytes32 :: "bytes decoder" where
  "decBytes32 = ReadFull 32"

text \<open>\<open>reader.Read\<close> into a one-byte slice.\<close>

definition readByte :: "byte decoder" where
  "readByte r = (case r of [] \<Rightarrow> Err ErrEOF | b # bs \<Rightarrow> OK (b, bs))"

definition BigInt_Decode :: "int decoder" where
  "BigInt_Decode =
     bindD (msgD ''failed to decode length of big.Int'' readByte) (\<lambda>len.
     bindD (checkD (err_if (unat len > MaxBigIntLength) (ErrNew ''big.Int too big to decode''))) (\<lambda>_.
     bindD (msgD ''failed to read bytes for big.Int, read %d/%d'' (ReadFull (unat len))) (\<lambda>bs.
     returnD (int (be_nat bs)))))"

definition decodeString :: "bytes decoder" where
  "decodeString =
     bindD (msgD ''failed to read string length'' decUint16) (\<lambda>l.
     msgD ''failed to read string'' (ReadFull (unat l)))"

text \<open>\<open>ByteSlice.Decode\<close> fills a slice of \<open>n\<close> bytes; a short read ends in \<open>io.EOF\<close>.\<close>

definition ByteSlice_Decode :: "nat \<Rightarrow> bytes decoder" where
  "ByteSlice_Decode n r =
     (if n \<le> length r then OK (take n r, drop n r)
      else Err (ErrWithMessage ''failed to read []byte'' ErrEOF))"

text \<open>One argument of a call of \<open>Decode\<close>; a call with several arguments runs them in order.\<close>

definition decArg :: "'a decoder \<Rightarrow> 'a decoder" where
  "decArg d = msgD ''failed to decode %dth value of type %T'' d"

section \<open>Comparing encodings\<close>

definition EqualEncoding :: "encoder \<Rightarrow> encoder \<Rightarrow> bool res" where
  "EqualEncoding a b =
     (if (a = None) \<noteq> (b = None) then Err (ErrNew ''only one argument was nil'')
      else case (a, b) of
        (Some ea, Some eb) \<Rightarrow>
          bindR (with_msg ''EqualEncoding encode error'' ea) (\<lambda>bufA.
          bindR (with_msg ''EqualEncoding encode error'' eb) (\<lambda>bufB.
          OK (bufA = bufB)))
      | _ \<Rightarrow> OK True)"

section \<open>Vector sums\<close>

text \<open>A \<open>Summer\<close> is represented by what its \<open>Sum\<close> method returns.\<close>

type_synonym summer = "Bal list res"

definition Sum_Sum :: "Bal list \<Rightarrow> Bal list" where
  "Sum_Sum s = s"

primrec addSums_loop :: "summer list \<Rightarrow> Bal list \<Rightarrow> Bal list res" where
  "addSums_loop [] acc = OK acc"
| "addSums_loop (s # ss) acc =
     bindR s (\<lambda>v.
       if length v \<noteq> length acc then Err (ErrNew ''dimension mismatch'')
       else addSums_loop ss (map2 (+) acc v))"

definition AddSums :: "summer list \<Rightarrow> Bal list res" where
  "AddSums ss = (case ss of [] \<Rightarrow> OK [] | s0 # ss' \<Rightarrow> bindR s0 (addSums_loop ss'))"

definition EqualSum :: "summer \<Rightarrow> summer \<Rightarrow> bool res" where
  "EqualSum b0 b1 =
     bindR b0 (\<lambda>s0. bindR b1 (\<lambda>s1.
       if length s0 \<noteq> length s1 then Err (ErrNew ''dimension mismatch'')
       else OK (list_all2 (=) s0 s1)))"

section \<open>Round trips of the primitive formats\<close>

lemma ReadFull_append [simp]: "length bs = n \<Longrightarrow> ReadFull n (bs @ rest) = OK (bs, rest)"
  by (simp add: ReadFull_def)

lemma readLE_le_bytes [simp]: "n < 256 ^ k \<Longrightarrow> readLE k (le_bytes k n @ rest) = OK (n, rest)"
  by (simp add: readLE_def bindD_def returnD_def)

lemma unat_byte_bound: "unat (w :: byte) < 256 ^ 1"
  using unsigned_less [of w] by simp

lemma unat_u16_bound: "unat (w :: u16) < 256 ^ 2"
  using unsigned_less [of w] by simp

lemma unat_u32_bound: "unat (w :: u32) < 256 ^ 4"
  using unsigned_less [of w] by simp

lemma unat_u64_bound: "unat (w :: u64) < 256 ^ 8"
  using unsigned_less [of w] by simp

lemma rt_bool [codec_intros]: "roundtrips (Encode_value (VBool b)) decBool b"
  unfolding Encode_value_def
  by (cases b) (auto intro!: roundtrips_OK_I simp: decBool_def ReadFull_def bindD_def returnD_def)

lemma rt_uint8 [codec_intros]: "roundtrips (Encode_value (VUint8 w)) decUint8 w"
  using unat_byte_bound [of w]
  by (auto intro!: roundtrips_OK_I simp: Encode_value_def decUint8_def bindD_def returnD_def
      simp del: le_bytes.simps)

lemma rt_uint16 [codec_intros]: "roundtrips (Encode_value (VUint16 w)) decUint16 w"
  using unat_u16_bound [of w]
  by (auto intro!: roundtrips_OK_I simp: Encode_value_def decUint16_def bindD_def returnD_def
      simp del: le_bytes.simps)

lemma rt_uint32 [codec_intros]: "roundtrips (Encode_value (VUint32 w)) decUint32 w"
  using unat_u32_bound [of w]
  by (auto intro!: roundtrips_OK_I simp: Encode_value_def decUint32_def bindD_def returnD_def
      simp del: le_bytes.simps)

lemma rt_uint64 [codec_intros]: "roundtrips (Encode_value (VUint64 w)) decUint64 w"
  using unat_u64_bound [of w]
  by (auto intro!: roundtrips_OK_I simp: Encode_value_def decUint64_def bindD_def returnD_def
      simp del: le_bytes.simps)

lemma rt_int64 [codec_intros]: "roundtrips (Encode_value (VInt64 w)) decInt64 w"
  using unat_u64_bound [of w]
  by (auto intro!: roundtrips_OK_I simp: Encode_value_def decInt64_def bindD_def returnD_def
      simp del: le_bytes.simps)

lemma rt_time [codec_intros]: "roundtrips (Encode_value (VTime w)) decTime w"
  using unat_u64_bound [of w]
  by (auto intro!: roundtrips_OK_I simp: Encode_value_def decTime_def bindD_def returnD_def
      simp del: le_bytes.simps)

lemma rt_bytes32 [codec_intros]:
  "length b = 32 \<Longrightarrow> roundtrips (Encode_value (VBytes32 b)) decBytes32 b"
  by (auto intro!: roundtrips_OK_I simp: Encode_value_def decBytes32_def)

lemma rt_byteslice [codec_intros]:
  "length b = n \<Longrightarrow> roundtrips (Encode_value (VByteSlice b)) (ByteSlice_Decode n) b"
  by (auto intro!: roundtrips_OK_I
      simp: Encode_value_def ByteSlice_Encode_def ByteSlice_Decode_def)

lemma BigInt_Encode_OK_iff:
  "BigInt_Encode (Some i) = OK bs \<longleftrightarrow>
     0 \<le> i \<and> i < 256 ^ 128 \<and> bs = of_nat (length (be_bytes (nat i))) # be_bytes (nat i)"
proof -
  have "length (be_bytes (nat i)) \<le> 128 \<longleftrightarrow> nat i < 256 ^ 128"
    by (rule length_be_bytes_le)
  also have "\<dots> \<longleftrightarrow> i < 256 ^ 128" if "0 \<le> i"
    using that by (simp add: nat_less_iff)
  finally have "length (be_bytes (nat i)) \<le> 128 \<longleftrightarrow> i < 256 ^ 128" if "0 \<le> i"
    using that .
  then show ?thesis
    by (auto simp: BigInt_Encode_def MaxBigIntLength_def Let_def not_less not_le)
qed

lemma BigInt_roundtrip:
  assumes "0 \<le> i" and "i < 256 ^ 128"
  shows "roundtrips (BigInt_Encode (Some i)) BigInt_Decode i"
proof (rule roundtripsI)
  let ?bs = "be_bytes (nat i)"
  have len: "length ?bs \<le> 128"
    using assms by (simp add: length_be_bytes_le nat_less_iff)
  then have "unat (of_nat (length ?bs) :: byte) = length ?bs"
    by simp
  then show "BigInt_Decode ((of_nat (length ?bs) # ?bs) @ rest) = OK (i, rest)" for rest
    using assms len
    by (simp add: BigInt_Decode_def bindD_def msgD_def readByte_def checkD_def returnD_def
        MaxBigIntLength_def)
  show "BigInt_Encode (Some i) = OK (of_nat (length ?bs) # ?bs)"
    using assms by (simp add: BigInt_Encode_OK_iff)
qed

lemma rt_bigint [codec_intros]:
  "0 \<le> i \<Longrightarrow> i < 256 ^ 128 \<Longrightarrow> roundtrips (Encode_value (VBigInt (Some i))) BigInt_Decode i"
  using BigInt_roundtrip by (simp add: Encode_value_def)

lemma rt_string [codec_intros]:
  assumes "length s < 2 ^ 16"
  shows "roundtrips (Encode_value (VString s)) decodeString s"
proof (rule roundtripsI)
  let ?l = "of_nat (length s) :: u16"
  have l: "unat ?l = length s"
    using assms by (simp add: unat_of_nat)
  have "roundtrips (Encode_value (VUint16 ?l)) decUint16 ?l"
    by (rule rt_uint16)
  then have *: "decUint16 (le_bytes 2 (length s) @ rest) = OK (?l, rest)" for rest
    using l by (auto simp: roundtrips_def Encode_value_def)
  show "Encode_value (VString s) = OK (le_bytes 2 (length s) @ s)"
  proof (cases "s = []")
    case False
    then have "?l \<noteq> 0"
      using l by auto
    then show ?thesis
      using l False by (simp add: Encode_value_def encodeString_def Let_def)
  qed (simp add: Encode_value_def encodeString_def)
  show "decodeString ((le_bytes 2 (length s) @ s) @ rest) = OK (s, rest)" for rest
    using l by (simp add: decodeString_def bindD_def msgD_def *)
qed

lemma encodeString_too_long:
  "2 ^ 16 \<le> length s \<Longrightarrow> encodeString s = Err (ErrNew ''string length exceeded: %d'')"
  using unat_u16_bound [of "of_nat (length s)"] by (auto simp: encodeString_def Let_def)

lemma rt_encoder [codec_intros]:
  "roundtrips e d x \<Longrightarrow> roundtrips (Encode_value (VEncoder (Some e))) d x"
  by (simp add: Encode_value_def)

lemma rt_encArg [codec_intros]:
  "roundtrips (Encode_value v) d x \<Longrightarrow> roundtrips (encArg v) (decArg d) x"
  unfolding encArg_def decArg_def by (intro roundtrips_with_msg roundtrips_msgD)

text \<open>A call of \<open>Encode\<close> against a chain of decoders, argument by argument.\<close>

lemma rt_Encode_Cons [codec_intros]:
  "roundtrips (encArg v) d x \<Longrightarrow> roundtrips (Encode vs) (f x) y \<Longrightarrow>
   roundtrips (Encode (v # vs)) (bindD d f) y"
  unfolding Encode_def by (simp add: roundtrips_bind)

lemma rt_Encode_single:
  "roundtrips (encArg v) d x \<Longrightarrow> roundtrips (Encode [v]) d x"
  by (auto simp: Encode_def roundtrips_def catE_def)

lemma rt_Encode_Nil [codec_intros]: "roundtrips (Encode []) (returnD x) x"
  by (simp add: Encode_def roundtrips_return)

lemma Encode_append: "Encode (vs @ ws) = catE (Encode vs) (Encode ws)"
proof (induction vs)
  case (Cons v vs)
  then show ?case
    unfolding Encode_def by (cases "encArg v") (simp_all add: catE_def)
next
  case Nil
  show ?case
    by (cases "concatE (map encArg ws)") (simp_all add: Encode_def catE_def)
qed

section \<open>Comparison and sums\<close>

lemma EqualEncoding_OK_iff:
  "EqualEncoding a b = OK r \<longleftrightarrow>
     (a = None \<and> b = None \<and> r) \<or> (\<exists>x y. a = Some (OK x) \<and> b = Some (OK y) \<and> r = (x = y))"
  by (auto simp: EqualEncoding_def res_simps split: option.splits)

lemma addSums_loop_OK:
  "(\<And>w. w \<in> set vs \<Longrightarrow> length w = length acc) \<Longrightarrow>
   addSums_loop (map OK vs) acc = OK (foldl (map2 (+)) acc vs)"
  by (induction vs arbitrary: acc) auto

lemma addSums_loop_mismatch:
  assumes "w \<in> set vs" and "length w \<noteq> length acc"
  shows "addSums_loop (map OK vs) acc = Err (ErrNew ''dimension mismatch'')"
  using assms by (induction vs arbitrary: acc) auto

lemma nth_foldl_map2_plus:
  fixes acc :: "int list"
  assumes "\<And>w. w \<in> set vs \<Longrightarrow> length w = length acc" and "i < length acc"
  shows "foldl (map2 (+)) acc vs ! i = acc ! i + (\<Sum>w\<leftarrow>vs. w ! i)"
  using assms by (induction vs arbitrary: acc) auto

lemma EqualSum_OK_iff:
  "EqualSum b0 b1 = OK r \<longleftrightarrow>
     (\<exists>s0 s1. b0 = OK s0 \<and> b1 = OK s1 \<and> length s0 = length s1 \<and> r = (s0 = s1))"
  by (auto simp: EqualSum_def res_simps list.rel_eq split: if_splits)

text \<open>Each primitive format is a serialisable type in the sense of the prelude's contract.\<close>

interpretation bigint_codec: serializer "\<lambda>i. BigInt_Encode (Some i)" BigInt_Decode
  "\<lambda>i. 0 \<le> i \<and> i < 256 ^ 128"
  by unfold_locales (simp add: BigInt_roundtrip)

interpretation string_codec: serializer "\<lambda>s. Encode_value (VString s)" decodeString
  "\<lambda>s. length s < 2 ^ 16"
  by unfold_locales (rule rt_string)

end
