(* ===== verification/Perun_Wallet.thy ===== *)
theory Perun_Wallet
  imports Perun_IO
begin

text \<open>
  The package \<open>wallet\<close>: addresses, signatures and their encodings.

  The wallet backend of \<open>wallet/backend.go\<close> is an interface that every blockchain implements; it
  is the record \<open>wallet_backend\<close>, an argument of the operations that call it.  An address is
  represented by its byte representation (\<open>Address.Bytes\<close>), by which addresses are compared; a
  signature is nil or a byte slice.

  The locale \<open>wallet_codec\<close> is what the package relies on: the backend's decoders invert the
  encoders.  Inside it the address lists, the map keys of addresses and the sparse signature lists
  (a bit mask followed by the signatures that are present) are shown to survive encoding.
\<close>

section \<open>Backend\<close>

definition opt_ok :: "('a \<Rightarrow> bool) \<Rightarrow> 'a option \<Rightarrow> bool" where
  "opt_ok P x \<longleftrightarrow> (case x of None \<Rightarrow> True | Some y \<Rightarrow> P y)"

type_synonym address = "bytes"
type_synonym sig = "bytes option"

record wallet_backend =
  wb_EncodeAddress :: "address \<Rightarrow> bytes res"
  wb_DecodeAddress :: "address decoder"
  wb_DecodeSig :: "bytes decoder"
  wb_VerifySignature :: "bytes \<Rightarrow> sig \<Rightarrow> address \<Rightarrow> bool res"

section \<open>Addresses\<close>

primrec indexOf_from :: "address list \<Rightarrow> address \<Rightarrow> nat \<Rightarrow> int" where
  "indexOf_from [] addr i = -1"
| "indexOf_from (a # as) addr i = (if addr = a then int i else indexOf_from as addr (Suc i))"

definition IndexOfAddr :: "address list \<Rightarrow> address \<Rightarrow> int" where
  "IndexOfAddr addrs addr = indexOf_from addrs addr 0"

definition Addresses_Encode :: "'m wallet_backend_scheme \<Rightarrow> address list \<Rightarrow> bytes res" where
  "Addresses_Encode B as =
     concatE (map (\<lambda>a. with_msg ''encoding %d-th address'' (wb_EncodeAddress B a)) as)"

definition AddressesWithLen_Encode :: "'m wallet_backend_scheme \<Rightarrow> address list \<Rightarrow> bytes res" where
  "AddressesWithLen_Encode B as =
     Encode [VUint16 (of_nat (length as)), VEncoder (Some (Addresses_Encode B as))]"

definition Addresses_Decode :: "'m wallet_backend_scheme \<Rightarrow> nat \<Rightarrow> address list decoder" where
  "Addresses_Decode B n = repeatD n (msgD ''decoding %d-th address'' (wb_DecodeAddress B))"

definition AddressesWithLen_Decode :: "'m wallet_backend_scheme \<Rightarrow> address list decoder" where
  "AddressesWithLen_Decode B =
     bindD (msgD ''decoding count'' (decArg decUint16)) (\<lambda>parts.
     Addresses_Decode B (unat parts))"

definition AddressDec_Decode :: "'m wallet_backend_scheme \<Rightarrow> address decoder" where
  "AddressDec_Decode B = wb_DecodeAddress B"

definition Key :: "'m wallet_backend_scheme \<Rightarrow> address \<Rightarrow> bytes res" where
  "Key B a = (case wb_EncodeAddress B a of
      OK k \<Rightarrow> OK k
    | Err _ \<Rightarrow> Panic ''Could not encode address in AddrKey''
    | Panic s \<Rightarrow> Panic s)"

definition FromKey :: "'m wallet_backend_scheme \<Rightarrow> bytes \<Rightarrow> address res" where
  "FromKey B k = (case wb_DecodeAddress B k of
      OK (a, _) \<Rightarrow> OK a
    | Err _ \<Rightarrow> Panic ''Could not decode address in FromKey''
    | Panic s \<Rightarrow> Panic s)"

definition AddrKey_Equals :: "'m wallet_backend_scheme \<Rightarrow> bytes \<Rightarrow> address \<Rightarrow> bool res" where
  "AddrKey_Equals B k a = bindR (Key B a) (\<lambda>k'. OK (k = k'))"

section \<open>Signatures\<close>

unbundle bit_operations_syntax

definition CloneSigs :: "sig list \<Rightarrow> sig list" where
  "CloneSigs sigs = map (\<lambda>s. case s of None \<Rightarrow> None | Some b \<Rightarrow> Some (concat (replicate 1 b))) sigs"

definition SigDec_Decode :: "'m wallet_backend_scheme \<Rightarrow> sig decoder" where
  "SigDec_Decode B = bindD (wb_DecodeSig B) (\<lambda>s. returnD (Some s))"

text \<open>\<open>int(math.Ceil(float64(n)/8.0))\<close>\<close>

definition mask_len :: "nat \<Rightarrow> nat" where
  "mask_len n = (n + 7) div 8"

definition set_mask :: "nat \<times> sig \<Rightarrow> bytes \<Rightarrow> bytes" where
  "set_mask p msk = (case p of (i, s) \<Rightarrow>
     if s \<noteq> None then msk[i div 8 := msk ! (i div 8) OR push_bit (i mod 8) 1] else msk)"

definition sig_mask :: "sig list \<Rightarrow> bytes" where
  "sig_mask sigs = fold set_mask (enumerate 0 sigs) (replicate (mask_len (length sigs)) 0)"

definition encSig :: "sig \<Rightarrow> bytes res" where
  "encSig s = (case s of
      None \<Rightarrow> OK []
    | Some b \<Rightarrow> with_msg ''encoding signature'' (Encode [VByteSlice b]))"

definition EncodeSparseSigs :: "sig list \<Rightarrow> bytes res" where
  "EncodeSparseSigs sigs =
     catE (with_msg ''encoding mask'' (Encode [VByteSlice (sig_mask sigs)]))
          (concatE (map encSig sigs))"

text \<open>The two nested loops of \<open>DecodeSparseSigs\<close>: over the bits of one mask byte, while there are
  signatures left, and over the mask bytes.\<close>

function decodeMaskByte :: "bytes decoder \<Rightarrow> byte \<Rightarrow> nat \<Rightarrow> nat \<Rightarrow> sig list decoder" where
  "decodeMaskByte d m bitIdx left =
     (if bitIdx < 8 \<and> 0 < left then
        bindD (if drop_bit bitIdx m mod 2 = 0 then returnD None
               else msgD ''decoding signature %d'' (bindD d (\<lambda>s. returnD (Some s)))) (\<lambda>s.
        bindD (decodeMaskByte d m (bitIdx + 1) (left - 1)) (\<lambda>ss.
        returnD (s # ss)))
      else returnD [])"
  by pat_completeness auto

termination
  by (relation "measure (\<lambda>(_, _, bitIdx, _). 8 - bitIdx)") auto

declare decodeMaskByte.simps [simp del]

primrec decodeMask :: "bytes decoder \<Rightarrow> bytes \<Rightarrow> nat \<Rightarrow> sig list decoder" where
  "decodeMask d [] left = returnD []"
| "decodeMask d (m # ms) left =
     bindD (decodeMaskByte d m 0 left) (\<lambda>ss.
     bindD (decodeMask d ms (left - length ss)) (\<lambda>ts.
     returnD (ss @ ts)))"

definition DecodeSparseSigs :: "'m wallet_backend_scheme \<Rightarrow> nat \<Rightarrow> sig list decoder" where
  "DecodeSparseSigs B n =
     bindD (msgD ''decoding mask'' (decArg (ByteSlice_Decode (mask_len n)))) (\<lambda>msk.
     decodeMask (wb_DecodeSig B) msk n)"

section \<open>Facts about addresses\<close>

lemma indexOf_from_cases:
  "indexOf_from as a k = -1 \<and> a \<notin> set as \<or>
   (\<exists>i < length as. indexOf_from as a k = int (k + i) \<and> as ! i = a \<and> a \<notin> set (take i as))"
proof (induction as arbitrary: k)
  case (Cons b as)
  show ?case
  proof (cases "a = b")
    case False
    from Cons [of "Suc k"] show ?thesis
    proof (elim disjE exE conjE)
      fix i
      assume "i < length as" "indexOf_from as a (Suc k) = int (Suc k + i)" "as ! i = a"
        "a \<notin> set (take i as)"
      with False show ?thesis
        by (intro disjI2 exI [of _ "Suc i"]) auto
    qed (use False in auto)
  qed auto
qed simp

lemma IndexOfAddr_nonneg_iff: "0 \<le> IndexOfAddr as a \<longleftrightarrow> a \<in> set as"
  using indexOf_from_cases [of as a 0] by (auto simp: IndexOfAddr_def)

lemma IndexOfAddr_first:
  assumes "a \<in> set as"
  obtains i where "IndexOfAddr as a = int i" "i < length as" "as ! i = a" "a \<notin> set (take i as)"
  using indexOf_from_cases [of as a 0] assms by (auto simp: IndexOfAddr_def)

lemma CloneSigs_id [simp]: "CloneSigs sigs = sigs"
  by (induction sigs) (auto simp: CloneSigs_def split: option.splits)

section \<open>The sparse signature mask\<close>

lemma length_set_mask [simp]: "length (set_mask p msk) = length msk"
  by (auto simp: set_mask_def split: prod.splits)

lemma length_fold_set_mask [simp]: "length (fold set_mask ps msk) = length msk"
  by (induction ps arbitrary: msk) simp_all

lemma length_sig_mask [simp]: "length (sig_mask sigs) = mask_len (length sigs)"
  by (simp add: sig_mask_def)

lemma bit_set_mask:
  assumes "i div 8 < length msk" "k < length msk" "j < 8"
  shows "bit (set_mask (i, s) msk ! k) j \<longleftrightarrow> bit (msk ! k) j \<or> (s \<noteq> None \<and> i = 8 * k + j)"
proof (cases "s \<noteq> None \<and> k = i div 8")
  case True
  then have "set_mask (i, s) msk ! k = msk ! k OR push_bit (i mod 8) 1"
    using assms by (simp add: set_mask_def)
  moreover have "bit (push_bit (i mod 8) 1 :: byte) j \<longleftrightarrow> j = i mod 8"
    using assms(3) by (auto simp: bit_exp_iff)
  moreover have "i = 8 * k + j \<longleftrightarrow> j = i mod 8"
    using True assms(3) by (simp, presburger)
  ultimately show ?thesis
    using True by (simp add: bit_or_iff)
next
  case False
  then have "set_mask (i, s) msk ! k = msk ! k"
    by (auto simp: set_mask_def)
  then show ?thesis
    using False assms(3) by auto
qed

lemma bit_fold_set_mask:
  assumes "\<forall>i < length sigs. (off + i) div 8 < length msk" "k < length msk" "j < 8"
  shows "bit (fold set_mask (enumerate off sigs) msk ! k) j \<longleftrightarrow>
     bit (msk ! k) j \<or> (\<exists>i < length sigs. sigs ! i \<noteq> None \<and> off + i = 8 * k + j)"
  using assms
proof (induction sigs arbitrary: off msk)
  case (Cons s sigs)
  have "\<forall>i < length sigs. (Suc off + i) div 8 < length (set_mask (off, s) msk)"
    using Cons.prems(1) by (auto dest: spec [of _ "Suc i" for i])
  then have "bit (fold set_mask (enumerate (Suc off) sigs) (set_mask (off, s) msk) ! k) j \<longleftrightarrow>
     bit (set_mask (off, s) msk ! k) j \<or>
     (\<exists>i < length sigs. sigs ! i \<noteq> None \<and> Suc off + i = 8 * k + j)"
    using Cons.prems by (intro Cons.IH) simp_all
  moreover have "off div 8 < length msk"
    using Cons.prems(1) by (auto dest: spec [of _ 0])
  then have "bit (set_mask (off, s) msk ! k) j \<longleftrightarrow> bit (msk ! k) j \<or> (s \<noteq> None \<and> off = 8 * k + j)"
    using Cons.prems by (intro bit_set_mask)
  ultimately show ?case
    by (simp add: Ex_less_Suc2 disj_assoc conj_commute)
qed simp

lemma bit_sig_mask:
  assumes "8 * k + j < length sigs" "j < 8"
  shows "bit (sig_mask sigs ! k) j \<longleftrightarrow> sigs ! (8 * k + j) \<noteq> None"
proof -
  let ?msk = "replicate (mask_len (length sigs)) 0 :: bytes"
  have "k < length ?msk" "\<forall>i < length sigs. (0 + i) div 8 < length ?msk"
    using assms by (auto simp: mask_len_def)
  then have "bit (sig_mask sigs ! k) j \<longleftrightarrow>
     bit (?msk ! k) j \<or> (\<exists>i < length sigs. sigs ! i \<noteq> None \<and> 0 + i = 8 * k + j)"
    unfolding sig_mask_def using assms by (intro bit_fold_set_mask)
  then show ?thesis
    using assms \<open>k < length ?msk\<close> by auto
qed

lemma concatE_append: "concatE (es @ fs) = catE (concatE es) (concatE fs)"
proof (induction es)
  case Nil
  show ?case by (cases "concatE fs") (simp_all add: catE_def)
next
  case (Cons e es)
  then show ?case by (cases e) (simp_all add: catE_def)
qed

lemma diff_min_eq: "(n :: nat) - min n k = n - k"
  by (simp add: min_def)

section \<open>What the package relies on\<close>

locale wallet_codec =
  fixes B :: "'m wallet_backend_scheme"
    and wf_addr :: "address \<Rightarrow> bool"
    and wf_sig :: "bytes \<Rightarrow> bool"
  assumes address_rt: "wf_addr a \<Longrightarrow> roundtrips (wb_EncodeAddress B a) (wb_DecodeAddress B) a"
    and sig_rt: "wf_sig s \<Longrightarrow> roundtrips (OK s) (wb_DecodeSig B) s"
begin

lemma AddressDec_rt: "wf_addr a \<Longrightarrow> roundtrips (wb_EncodeAddress B a) (AddressDec_Decode B) a"
  unfolding AddressDec_Decode_def by (rule address_rt)

lemma Addresses_rt:
  "list_all wf_addr as \<Longrightarrow> roundtrips (Addresses_Encode B as) (Addresses_Decode B (length as)) as"
  unfolding Addresses_Encode_def Addresses_Decode_def
  by (intro roundtrips_repeatD roundtrips_with_msg roundtrips_msgD address_rt)
    (simp add: list_all_iff)

lemma AddressesWithLen_rt:
  assumes "list_all wf_addr as" and "length as < 2 ^ 16"
  shows "roundtrips (AddressesWithLen_Encode B as) (AddressesWithLen_Decode B) as"
proof -
  have len: "unat (of_nat (length as) :: u16) = length as"
    using assms(2) by (simp add: unat_of_nat)
  have "roundtrips (Encode [VEncoder (Some (Addresses_Encode B as))])
      (Addresses_Decode B (unat (of_nat (length as) :: u16))) as"
    unfolding len Encode_def encArg_def using Addresses_rt [OF assms(1)]
    by (auto simp: roundtrips_def Encode_value_def catE_def)
  then show ?thesis
    unfolding AddressesWithLen_Encode_def AddressesWithLen_Decode_def
    by (intro rt_Encode_Cons [where x = "of_nat (length as)"] roundtrips_msgD rt_encArg rt_uint16)
qed

lemma FromKey_Key:
  assumes "wf_addr a"
  shows "bindR (Key B a) (FromKey B) = OK a"
proof -
  from address_rt [OF assms] obtain bs where
    "wb_EncodeAddress B a = OK bs" and d: "\<And>rest. wb_DecodeAddress B (bs @ rest) = OK (a, rest)"
    by (auto simp: roundtrips_def)
  moreover from d [of "[]"] have "wb_DecodeAddress B bs = OK (a, [])"
    by simp
  ultimately show ?thesis
    by (simp add: Key_def FromKey_def)
qed

lemma Key_inj: "wf_addr a \<Longrightarrow> wf_addr b \<Longrightarrow> Key B a = Key B b \<Longrightarrow> a = b"
  by (metis FromKey_Key res.inject(1))

lemma encSig_rt:
  "opt_ok wf_sig s \<Longrightarrow> roundtrips (encSig s)
     (if s = None then returnD None
      else msgD ''decoding signature %d'' (bindD (wb_DecodeSig B) (\<lambda>s. returnD (Some s)))) s"
proof (cases s)
  case None
  then show ?thesis
    by (simp add: encSig_def roundtrips_return)
next
  case (Some b)
  assume "opt_ok wf_sig s"
  with Some have "roundtrips (OK b) (wb_DecodeSig B) b"
    by (intro sig_rt) (simp add: opt_ok_def)
  then have "roundtrips (OK b) (bindD (wb_DecodeSig B) (\<lambda>s. returnD (Some s))) (Some b)"
    by (rule roundtrips_bind_last) (simp add: returnD_def)
  then show ?thesis
    using Some
    by (simp add: encSig_def roundtrips_msgD Encode_def encArg_def Encode_value_def
        ByteSlice_Encode_def catE_def)
qed

lemma decodeMaskByte_rt:
  assumes "list_all (opt_ok wf_sig) ss" and "length ss = min (8 - bitIdx) left"
    and "\<And>j. j < length ss \<Longrightarrow> bit m (bitIdx + j) \<longleftrightarrow> ss ! j \<noteq> None"
  shows "roundtrips (concatE (map encSig ss)) (decodeMaskByte (wb_DecodeSig B) m bitIdx left) ss"
  using assms
proof (induction ss arbitrary: bitIdx left)
  case Nil
  then have "\<not> (bitIdx < 8 \<and> 0 < left)"
    by auto
  then show ?case
    by (subst decodeMaskByte.simps) (auto intro: roundtrips_return)
next
  case (Cons s ss)
  have guard: "bitIdx < 8 \<and> 0 < left"
    using Cons.prems(2) by auto
  have "bit m bitIdx \<longleftrightarrow> s \<noteq> None"
    using Cons.prems(3) [of 0] by simp
  then have "drop_bit bitIdx m mod 2 = 0 \<longleftrightarrow> s = None"
    by (metis bit_iff_odd_drop_bit even_iff_mod_2_eq_zero)
  with Cons.prems(1) have head: "roundtrips (encSig s)
      (if drop_bit bitIdx m mod 2 = 0 then returnD None
       else msgD ''decoding signature %d'' (bindD (wb_DecodeSig B) (\<lambda>s. returnD (Some s)))) s"
    using encSig_rt [of s] by simp
  have "bit m (bitIdx + 1 + j) \<longleftrightarrow> ss ! j \<noteq> None" if "j < length ss" for j
    using Cons.prems(3) [of "Suc j"] that by simp
  moreover have "length ss = min (8 - (bitIdx + 1)) (left - 1)"
    using Cons.prems(2) guard by auto
  ultimately have "roundtrips (concatE (map encSig ss))
      (decodeMaskByte (wb_DecodeSig B) m (bitIdx + 1) (left - 1)) ss"
    using Cons.prems(1) by (intro Cons.IH) simp_all
  then have "roundtrips (concatE (map encSig ss))
      (bindD (decodeMaskByte (wb_DecodeSig B) m (bitIdx + 1) (left - 1))
        (\<lambda>ss. returnD (s # ss))) (s # ss)"
    by (rule roundtrips_bind_last) (simp add: returnD_def)
  with head have "roundtrips (catE (encSig s) (concatE (map encSig ss)))
      (decodeMaskByte (wb_DecodeSig B) m bitIdx left) (s # ss)"
    by (subst decodeMaskByte.simps) (simp only: guard if_True simp_thms, rule roundtrips_bind)
  then show ?case
    by simp
qed

lemma decodeMask_rt:
  assumes "list_all (opt_ok wf_sig) ss" and "length ms = mask_len (length ss)"
    and "\<And>k j. 8 * k + j < length ss \<Longrightarrow> j < 8 \<Longrightarrow> bit (ms ! k) j \<longleftrightarrow> ss ! (8 * k + j) \<noteq> None"
  shows "roundtrips (concatE (map encSig ss)) (decodeMask (wb_DecodeSig B) ms (length ss)) ss"
  using assms
proof (induction ms arbitrary: ss)
  case Nil
  then have "ss = []"
    by (cases ss) (auto simp: mask_len_def)
  then show ?case
    by (simp add: roundtrips_return)
next
  case (Cons m ms)
  let ?a = "take 8 ss" and ?b = "drop 8 ss"
  have "mask_len (length ss) > 0"
    using Cons.prems(2) by simp
  have "bit m (0 + j) \<longleftrightarrow> ?a ! j \<noteq> None" if "j < length ?a" for j
    using Cons.prems(3) [of 0 j] that by simp
  then have first: "roundtrips (concatE (map encSig ?a))
      (decodeMaskByte (wb_DecodeSig B) m 0 (length ss)) ?a"
    using Cons.prems(1)
    by (intro decodeMaskByte_rt) (auto simp: list_all_iff min_def dest: in_set_takeD)
  have wf_b: "list_all (opt_ok wf_sig) ?b"
    using Cons.prems(1) by (auto simp: list_all_iff dest: in_set_dropD)
  have "length ms = mask_len (length ?b)"
    using Cons.prems(2) by (auto simp: mask_len_def)
  moreover have "bit (ms ! k) j \<longleftrightarrow> ?b ! (8 * k + j) \<noteq> None"
    if "8 * k + j < length ?b" "j < 8" for k j
    using Cons.prems(3) [of "Suc k" j] that by (simp add: add.assoc)
  ultimately have "roundtrips (concatE (map encSig ?b))
      (decodeMask (wb_DecodeSig B) ms (length ss - length ?a)) ?b"
    using Cons.IH [OF wf_b] by (simp add: diff_min_eq)
  then have "roundtrips (concatE (map encSig ?b))
      (bindD (decodeMask (wb_DecodeSig B) ms (length ss - length ?a)) (\<lambda>ts. returnD (?a @ ts))) ss"
    by (rule roundtrips_bind_last) (simp add: returnD_def)
  with first have "roundtrips (catE (concatE (map encSig ?a)) (concatE (map encSig ?b)))
      (decodeMask (wb_DecodeSig B) (m # ms) (length ss)) ss"
    unfolding decodeMask.simps by (rule roundtrips_bind)
  moreover have "concatE (map encSig ss) = catE (concatE (map encSig ?a)) (concatE (map encSig ?b))"
    by (metis append_take_drop_id concatE_append map_append)
  ultimately show ?case
    by simp
qed

lemma SparseSigs_rt:
  assumes "list_all (opt_ok wf_sig) sigs"
  shows "roundtrips (EncodeSparseSigs sigs) (DecodeSparseSigs B (length sigs)) sigs"
  unfolding EncodeSparseSigs_def DecodeSparseSigs_def
  by (intro roundtrips_bind [where x = "sig_mask sigs"] roundtrips_with_msg roundtrips_msgD
      rt_Encode_single rt_encArg rt_byteslice decodeMask_rt assms)
    (simp_all add: bit_sig_mask)

end

end
