(* ===== verification/Perun_Allocation.thy ===== *)
theory Perun_Allocation
  imports Perun_Wallet
begin

text \<open>
  \<open>channel/allocation.go\<close>: the distribution of assets among the participants of a channel and its
  sub-channels.

  \<^item> \<open>Allocation\<close> and \<open>SubAlloc\<close> are the records of the source, \<open>Balances\<close> is the matrix of
    balances (one row per asset).  A nil slice and an empty one are the same list.
  \<^item> Each method is a definition with the error and panic branches of the source.  \<open>Equal\<close>
    methods are given for distinct pointers (the source returns early for identical ones).
  \<^item> The lemmas characterise \<open>Valid\<close>, compute \<open>Sum\<close>, relate \<open>Add\<close>/\<open>Sub\<close> with the comparisons,
    show what adding and removing a sub-allocation does to the funds held, and that valid
    allocations survive encoding.
\<close>

section \<open>Data\<close>

type_synonym asset = "encoder"
type_synonym Balances = "Bal list list"

record SubAlloc =
  sa_ID :: ID
  sa_Bals :: "Bal list"
  sa_IndexMap :: "Index list"

record Allocation =
  al_Assets :: "asset list"
  al_Balances :: Balances
  al_Locked :: "SubAlloc list"

record asset_backend = wallet_backend +
  ab_DecodeAsset :: "asset decoder"

definition MaxNumAssets :: nat where "MaxNumAssets = 1024"

definition MaxNumParts :: nat where "MaxNumParts = 1024"

definition MaxNumSubAllocations :: nat where "MaxNumSubAllocations = 1024"

lemmas max_defs = MaxNumAssets_def MaxNumParts_def MaxNumSubAllocations_def

text \<open>A method call on an asset dereferences the interface.\<close>

definition asset_Encode :: "asset \<Rightarrow> bytes res" where
  "asset_Encode a = bindR (deref a) (\<lambda>e. e)"

section \<open>Copying and counting\<close>

definition NumParts :: "Allocation \<Rightarrow> int" where
  "NumParts a = (if length (al_Balances a) = 0 then -1 else int (length (al_Balances a ! 0)))"

definition CloneBals :: "Bal list \<Rightarrow> Bal list" where
  "CloneBals orig = map (\<lambda>bal. 0 + bal) orig"

definition CloneIndexMap :: "Index list \<Rightarrow> Index list" where
  "CloneIndexMap orig = take (length orig) orig"

definition Balances_Clone :: "Balances \<Rightarrow> Balances" where
  "Balances_Clone b = map CloneBals b"

definition NewSubAlloc :: "ID \<Rightarrow> Bal list \<Rightarrow> Index list \<Rightarrow> SubAlloc" where
  "NewSubAlloc i bals indexMap = \<lparr>sa_ID = i, sa_Bals = bals, sa_IndexMap = indexMap\<rparr>"

definition Allocation_Clone :: "Allocation \<Rightarrow> Allocation" where
  "Allocation_Clone a =
     \<lparr>al_Assets = map (\<lambda>asset. asset) (al_Assets a),
      al_Balances = Balances_Clone (al_Balances a),
      al_Locked = map (\<lambda>sa. NewSubAlloc (sa_ID sa) (CloneBals (sa_Bals sa))
                                (CloneIndexMap (sa_IndexMap sa))) (al_Locked a)\<rparr>"

section \<open>Comparing and combining balances\<close>

definition rows_check :: "(Bal \<Rightarrow> Bal \<Rightarrow> bool) \<Rightarrow> string \<Rightarrow> Balances \<Rightarrow> Balances \<Rightarrow> unit res" where
  "rows_check bad msg b bals =
     forEach (\<lambda>(row, other).
       bindR (err_if (length other \<noteq> length row) (ErrNew ''inner length mismatch at index %d'')) (\<lambda>_.
       forEach (\<lambda>(x, y). err_if (bad x y) (ErrNew msg)) (zip row other))) (zip b bals)"

definition Balances_AssertEqual :: "Balances \<Rightarrow> Balances \<Rightarrow> unit res" where
  "Balances_AssertEqual b bals =
     bindR (err_if (length bals \<noteq> length b) (ErrNew ''outer length mismatch'')) (\<lambda>_.
     rows_check (\<lambda>x y. y \<noteq> x) ''value mismatch at position [%d, %d]'' b bals)"

definition Balances_Equal :: "Balances \<Rightarrow> Balances \<Rightarrow> bool" where
  "Balances_Equal b bals = is_OK (Balances_AssertEqual b bals)"

definition AssertGreaterOrEqual :: "Balances \<Rightarrow> Balances \<Rightarrow> unit res" where
  "AssertGreaterOrEqual b bals =
     bindR (err_if (length bals \<noteq> length b) (ErrNew ''outer length mismatch'')) (\<lambda>_.
     rows_check (\<lambda>x y. x < y) ''value not greater or equal at position [%d, %d]'' b bals)"

definition operate :: "Balances \<Rightarrow> Balances \<Rightarrow> (Bal \<Rightarrow> Bal \<Rightarrow> Bal) \<Rightarrow> Balances res" where
  "operate b a oper =
     bindR (panic_if (length a \<noteq> length b) ''outer length mismatch'') (\<lambda>_.
     mapR (\<lambda>(row, other).
       bindR (panic_if (length other \<noteq> length row) ''inner length mismatch at index %d'') (\<lambda>_.
       OK (map2 oper row other))) (zip b a))"

definition Balances_Add :: "Balances \<Rightarrow> Balances \<Rightarrow> Balances res" where
  "Balances_Add b a = operate b a (+)"

definition Balances_Sub :: "Balances \<Rightarrow> Balances \<Rightarrow> Balances res" where
  "Balances_Sub b a = operate b a (-)"

section \<open>Validity and totals\<close>

definition SubAlloc_Valid :: "SubAlloc \<Rightarrow> unit res" where
  "SubAlloc_Valid s =
     bindR (err_if (length (sa_Bals s) > MaxNumAssets) (ErrNew ''too many bals'')) (\<lambda>_.
     forEach (\<lambda>bal. err_if (bal < 0) (ErrNew ''suballoc[%d] of ID %d is negative: got %v''))
       (sa_Bals s))"

definition Allocation_Valid :: "Allocation \<Rightarrow> unit res" where
  "Allocation_Valid a =
     bindR (err_if (length (al_Assets a) = 0 \<or> length (al_Balances a) = 0)
       (ErrNew ''assets and participant balances must not be of length zero (or nil)'')) (\<lambda>_.
     bindR (err_if (length (al_Assets a) > MaxNumAssets \<or> length (al_Locked a) > MaxNumSubAllocations)
       (ErrNew ''too many assets or sub-allocations'')) (\<lambda>_.
     let n = length (al_Assets a) in
     bindR (err_if (length (al_Balances a) \<noteq> n)
       (ErrNew ''dimension mismatch: number of Assets: %d vs Balances: %d'')) (\<lambda>_.
     let numParts = length (al_Balances a ! 0) in
     bindR (err_if (numParts = 0 \<or> numParts > MaxNumParts)
       (ErrNew ''number of participants is zero or too large'')) (\<lambda>_.
     bindR (forEach (\<lambda>asset.
         bindR (err_if (length asset \<noteq> numParts)
           (ErrNew ''%d participants for asset %d, expected %d'')) (\<lambda>_.
         forEach (\<lambda>bal. err_if (bal < 0) (ErrNew ''balance[%d][%d] is negative: got %v'')) asset))
       (al_Balances a)) (\<lambda>_.
     forEach (\<lambda>l.
         bindR (with_msg ''invalid sub-allocation'' (SubAlloc_Valid l)) (\<lambda>_.
         err_if (length (sa_Bals l) \<noteq> n)
           (ErrNew ''dimension mismatch of app-channel balance vector (ID: %x): got %d, expected %d'')))
       (al_Locked a))))))"

definition Balances_Sum :: "Balances \<Rightarrow> Bal list" where
  "Balances_Sum b = map (\<lambda>asset. foldl (+) 0 asset) b"

fun addLocked :: "Bal list \<Rightarrow> Bal list \<Rightarrow> Bal list res" where
  "addLocked totals [] = OK totals"
| "addLocked [] (b # bs) = Panic ''index out of range''"
| "addLocked (t # ts) (b # bs) = bindR (addLocked ts bs) (\<lambda>r. OK ((t + b) # r))"

definition Allocation_Sum :: "Allocation \<Rightarrow> Bal list res" where
  "Allocation_Sum a =
     foldR (\<lambda>l totals. addLocked totals (sa_Bals l)) (al_Locked a) (Balances_Sum (al_Balances a))"

section \<open>Sub-allocations\<close>

definition BalancesEqual :: "SubAlloc \<Rightarrow> Bal list \<Rightarrow> bool" where
  "BalancesEqual s b =
     (if length (sa_Bals s) \<noteq> length b then False else list_all2 (=) (sa_Bals s) b)"

definition indexMapEqual :: "SubAlloc \<Rightarrow> Index list \<Rightarrow> bool" where
  "indexMapEqual s b =
     (if length (sa_IndexMap s) \<noteq> length b then False else list_all2 (=) (sa_IndexMap s) b)"

text \<open>The last comparison of \<open>SubAlloc.Equal\<close> passes the receiver's own index map.\<close>

definition SubAlloc_Equal :: "SubAlloc \<Rightarrow> SubAlloc \<Rightarrow> unit res" where
  "SubAlloc_Equal s t =
     (if sa_ID s \<noteq> sa_ID t then Err (ErrNew ''different ID'')
      else if \<not> BalancesEqual s (sa_Bals t) then Err (ErrNew ''balances unequal'')
      else if \<not> indexMapEqual s (sa_IndexMap s) then Err (ErrNew ''unequal index map'')
      else OK ())"

definition SubAllocsAssertEqual :: "SubAlloc list \<Rightarrow> SubAlloc list \<Rightarrow> unit res" where
  "SubAllocsAssertEqual a b =
     bindR (err_if (length a \<noteq> length b) (ErrNew ''length mismatch'')) (\<lambda>_.
     forEach (\<lambda>(x, y). err_if (\<not> is_OK (SubAlloc_Equal x y)) (ErrNew ''value mismatch at index %d''))
       (zip a b))"

definition SubAllocsEqual :: "SubAlloc list \<Rightarrow> SubAlloc list \<Rightarrow> bool" where
  "SubAllocsEqual a b = is_OK (SubAllocsAssertEqual a b)"

text \<open>The named result of \<open>Allocation.SubAlloc\<close> is the loop variable: when nothing is found it
  holds the last entry, and the zero value for an empty list.\<close>

definition zeroSubAlloc :: SubAlloc where
  "zeroSubAlloc = \<lparr>sa_ID = replicate 32 0, sa_Bals = [], sa_IndexMap = []\<rparr>"

primrec findSubAlloc :: "ID \<Rightarrow> SubAlloc list \<Rightarrow> SubAlloc \<Rightarrow> SubAlloc \<times> bool" where
  "findSubAlloc i [] cur = (cur, False)"
| "findSubAlloc i (s # ss) cur = (if sa_ID s = i then (s, True) else findSubAlloc i ss s)"

definition Allocation_SubAlloc :: "Allocation \<Rightarrow> ID \<Rightarrow> SubAlloc \<times> bool" where
  "Allocation_SubAlloc a subchannel = findSubAlloc subchannel (al_Locked a) zeroSubAlloc"

definition AddSubAlloc :: "Allocation \<Rightarrow> SubAlloc \<Rightarrow> Allocation" where
  "AddSubAlloc a s = a\<lparr>al_Locked := al_Locked a @ [s]\<rparr>"

primrec removeFirst :: "SubAlloc \<Rightarrow> SubAlloc list \<Rightarrow> SubAlloc list res" where
  "removeFirst s [] = Err (ErrNew ''not found'')"
| "removeFirst s (x # xs) =
     (if is_OK (SubAlloc_Equal s x) then OK xs
      else bindR (removeFirst s xs) (\<lambda>ys. OK (x # ys)))"

definition RemoveSubAlloc :: "Allocation \<Rightarrow> SubAlloc \<Rightarrow> Allocation res" where
  "RemoveSubAlloc a s = bindR (removeFirst s (al_Locked a)) (\<lambda>l. OK (a\<lparr>al_Locked := l\<rparr>))"

definition AssetsAssertEqual :: "asset list \<Rightarrow> asset list \<Rightarrow> unit res" where
  "AssetsAssertEqual a b =
     bindR (err_if (length a \<noteq> length b) (ErrNew ''length mismatch'')) (\<lambda>_.
     forEach (\<lambda>(x, y).
       bindR (with_msg ''comparing encoding at index %d'' (EqualEncoding x y)) (\<lambda>ok.
       err_if (\<not> ok) (ErrNew ''value mismatch at index %d''))) (zip a b))"

definition Allocation_Equal :: "Allocation \<Rightarrow> Allocation \<Rightarrow> unit res" where
  "Allocation_Equal a b =
     bindR (with_msg ''comparing assets'' (AssetsAssertEqual (al_Assets a) (al_Assets b))) (\<lambda>_.
     bindR (with_msg ''comparing balances'' (Balances_AssertEqual (al_Balances a) (al_Balances b))) (\<lambda>_.
     with_msg ''comparing sub-allocations'' (SubAllocsAssertEqual (al_Locked a) (al_Locked b))))"

section \<open>Encoding\<close>

definition Balances_Encode :: "Balances \<Rightarrow> bytes res" where
  "Balances_Encode b =
     (let numAssets = length b; numParts = (if numAssets > 0 then length (b ! 0) else 0) in
      if numAssets > MaxNumAssets then Err (ErrNew ''expected maximum number of assets %d, got %d'')
      else if numParts > MaxNumParts then Err (ErrNew ''expected maximum number of parts %d, got %d'')
      else catE
        (with_msg ''encoding dimensions'' (Encode [VUint16 (of_nat numAssets), VUint16 (of_nat numParts)]))
        (concatE (map (\<lambda>row. concatE (map (\<lambda>bal.
           with_msg ''encoding balance of asset %d of participant %d'' (Encode [VBigInt (Some bal)])) row)) b)))"

definition Balances_Decode :: "Balances decoder" where
  "Balances_Decode =
     bindD (msgD ''decoding dimensions'' (bindD (decArg decUint16) (\<lambda>a.
            bindD (decArg decUint16) (\<lambda>p. returnD (a, p))))) (\<lambda>(numAssets, numParts).
     bindD (checkD (err_if (unat numAssets > MaxNumAssets)
       (ErrNew ''expected maximum number of assets %d, got %d''))) (\<lambda>_.
     bindD (checkD (err_if (unat numParts > MaxNumParts)
       (ErrNew ''expected maximum number of parts %d, got %d''))) (\<lambda>_.
     repeatD (unat numAssets) (repeatD (unat numParts)
       (msgD ''decoding balance of asset %d of participant %d'' (decArg BigInt_Decode))))))"

definition SubAlloc_Encode :: "SubAlloc \<Rightarrow> bytes res" where
  "SubAlloc_Encode s =
     bindR (with_msg ''invalid sub-allocations cannot be encoded, got %v'' (SubAlloc_Valid s)) (\<lambda>_.
     catE (with_msg ''encoding sub-allocation ID or dimension, id %v''
        (Encode [VBytes32 (sa_ID s), VUint16 (of_nat (length (sa_Bals s)))]))
     (catE (concatE (map (\<lambda>bal. with_msg ''encoding balance of participant %d''
        (Encode [VBigInt (Some bal)])) (sa_Bals s)))
     (catE (with_msg ''encoding length of index map''
        (Encode [VUint16 (of_nat (length (sa_IndexMap s)))]))
     (concatE (map (\<lambda>x. with_msg ''encoding index map entry %d'' (Encode [VUint16 x]))
        (sa_IndexMap s))))))"

definition SubAlloc_Decode :: "SubAlloc decoder" where
  "SubAlloc_Decode =
     bindD (msgD ''decoding sub-allocation ID or dimension'' (bindD (decArg decBytes32) (\<lambda>i.
            bindD (decArg decUint16) (\<lambda>n. returnD (i, n))))) (\<lambda>(i, numAssets).
     bindD (checkD (err_if (unat numAssets > MaxNumAssets)
       (ErrNew ''numAssets too big, got: %d max: %d''))) (\<lambda>_.
     bindD (repeatD (unat numAssets) (msgD ''decoding participant balance %d'' (decArg BigInt_Decode))) (\<lambda>bals.
     bindD (msgD ''decoding index map length'' (decArg decUint16)) (\<lambda>l.
     bindD (repeatD (unat l) (msgD ''decoding index %d'' (decArg decUint16))) (\<lambda>im.
     let s = \<lparr>sa_ID = i, sa_Bals = bals, sa_IndexMap = im\<rparr> in
     bindD (checkD (SubAlloc_Valid s)) (\<lambda>_. returnD s))))))"

definition Allocation_Encode :: "Allocation \<Rightarrow> bytes res" where
  "Allocation_Encode a =
     bindR (with_msg ''invalid allocations cannot be encoded, got %v'' (Allocation_Valid a)) (\<lambda>_.
     catE (Encode [VUint16 (of_nat (length (al_Assets a))),
                   VUint16 (of_nat (length (al_Balances a ! 0))),
                   VUint16 (of_nat (length (al_Locked a)))])
     (catE (concatE (map (\<lambda>as. with_msg ''encoding asset %d'' (asset_Encode as)) (al_Assets a)))
     (catE (with_msg ''encoding balances'' (Balances_Encode (al_Balances a)))
     (concatE (map (\<lambda>s. with_msg ''encoding suballocation %d'' (SubAlloc_Encode s)) (al_Locked a))))))"

definition Allocation_Decode :: "'m asset_backend_scheme \<Rightarrow> Allocation decoder" where
  "Allocation_Decode B =
     bindD (msgD ''decoding numAssets, numParts or numLocked'' (bindD (decArg decUint16) (\<lambda>a.
            bindD (decArg decUint16) (\<lambda>p. bindD (decArg decUint16) (\<lambda>l. returnD (a, p, l))))))
       (\<lambda>(numAssets, numParts, numLocked).
     bindD (checkD (err_if (unat numAssets > MaxNumAssets \<or> unat numParts > MaxNumParts \<or>
                            unat numLocked > MaxNumSubAllocations)
       (ErrNew ''numAssets, numParts or numLocked too big''))) (\<lambda>_.
     bindD (repeatD (unat numAssets) (msgD ''decoding asset %d'' (ab_DecodeAsset B))) (\<lambda>assets.
     bindD (msgD ''decoding balances'' (decArg Balances_Decode)) (\<lambda>bals.
     bindD (repeatD (unat numLocked) (msgD ''decoding suballocation %d'' SubAlloc_Decode)) (\<lambda>locked.
     let a = \<lparr>al_Assets = assets, al_Balances = bals, al_Locked = locked\<rparr> in
     bindD (checkD (Allocation_Valid a)) (\<lambda>_. returnD a))))))"

section \<open>Facts about balances\<close>

definition same_shape :: "Balances \<Rightarrow> Balances \<Rightarrow> bool" where
  "same_shape b a \<longleftrightarrow> list_all2 (\<lambda>r s. length r = length s) b a"

definition balances_ge :: "Balances \<Rightarrow> Balances \<Rightarrow> bool" where
  "balances_ge b a \<longleftrightarrow> list_all2 (list_all2 (\<ge>)) b a"

lemma CloneBals_id [simp]: "CloneBals bs = bs"
  by (simp add: CloneBals_def)

lemma CloneIndexMap_id [simp]: "CloneIndexMap im = im"
  by (simp add: CloneIndexMap_def)

lemma Balances_Clone_id [simp]: "Balances_Clone b = b"
  by (induction b) (simp_all add: Balances_Clone_def)

lemma Allocation_Clone_id [simp]: "Allocation_Clone a = a"
proof -
  have "(\<lambda>sa. NewSubAlloc (sa_ID sa) (CloneBals (sa_Bals sa)) (CloneIndexMap (sa_IndexMap sa))) = (\<lambda>sa. sa)"
    by (simp add: fun_eq_iff NewSubAlloc_def)
  then show ?thesis
    by (simp add: Allocation_Clone_def)
qed

lemma rows_check_OK_iff:
  assumes "length b = length bals"
  shows "rows_check bad msg b bals = OK u \<longleftrightarrow> list_all2 (list_all2 (\<lambda>x y. \<not> bad x y)) b bals"
  using assms
proof (induction b bals rule: list_induct2)
  case (Cons r b s bals)
  have "bindR (err_if (length s \<noteq> length r) e) (\<lambda>_.
      forEach (\<lambda>(x, y). err_if (bad x y) (ErrNew msg)) (zip r s)) = OK () \<longleftrightarrow>
      list_all2 (\<lambda>x y. \<not> bad x y) r s" for e
    by (auto simp: res_simps forEach_OK_iff list_all2_iff)
  with Cons.IH show ?case
    by (simp add: rows_check_def bindR_OK_iff) blast
qed (simp add: rows_check_def)

lemma Balances_AssertEqual_OK_iff: "Balances_AssertEqual b bals = OK u \<longleftrightarrow> b = bals"
proof (cases "length bals = length b")
  case True
  have "(\<lambda>x y. \<not> (y :: Bal) \<noteq> x) = (=)"
    by auto
  then have "list_all2 (list_all2 (\<lambda>x y. \<not> (y :: Bal) \<noteq> x)) b bals \<longleftrightarrow> b = bals"
    by (simp only: list.rel_eq)
  with True show ?thesis
    by (simp add: Balances_AssertEqual_def rows_check_OK_iff del: not_not)
qed (auto simp: Balances_AssertEqual_def)

lemma AssertGreaterOrEqual_OK_iff: "AssertGreaterOrEqual b bals = OK u \<longleftrightarrow> balances_ge b bals"
proof (cases "length bals = length b")
  case True
  then show ?thesis
    by (simp add: AssertGreaterOrEqual_def rows_check_OK_iff balances_ge_def not_less)
qed (auto simp: AssertGreaterOrEqual_def balances_ge_def dest: list_all2_lengthD)

lemma operate_cases:
  shows operate_OK: "same_shape b a \<Longrightarrow> operate b a oper = OK (map2 (map2 oper) b a)"
    and operate_Panic: "\<not> same_shape b a \<Longrightarrow> is_Panic (operate b a oper)"
proof -
  show "same_shape b a \<Longrightarrow> operate b a oper = OK (map2 (map2 oper) b a)"
    unfolding same_shape_def
    by (induction b a rule: list_all2_induct) (auto simp: operate_def panic_if_def split: if_splits)
  assume bad: "\<not> same_shape b a"
  have "is_Panic (mapR (\<lambda>(row, other).
      bindR (panic_if (length other \<noteq> length row) ''inner length mismatch at index %d'') (\<lambda>_.
      OK (map2 oper row other))) (zip b a))" if "length b = length a"
    using that bad unfolding same_shape_def
    by (induction b a rule: list_induct2) (auto simp: panic_if_def is_Panic_def split: res.splits)
  then show "is_Panic (operate b a oper)"
    by (cases "length b = length a") (simp_all add: operate_def)
qed

lemma Balances_Sub_Add:
  assumes "same_shape b a" "Balances_Add b a = OK c"
  shows "Balances_Sub c a = OK b"
proof -
  have c: "c = map2 (map2 (+)) b a"
    using assms by (simp add: Balances_Add_def operate_OK)
  have row: "map2 (-) (map2 (+) r s) s = r" if "length r = length s" for r s :: "Bal list"
    using that by (induction r s rule: list_induct2) auto
  have "same_shape (map2 (map2 (+)) b a) a \<and> map2 (map2 (-)) (map2 (map2 (+)) b a) a = b"
    using assms(1) unfolding same_shape_def
    by (induction b a rule: list_all2_induct) (auto simp: row)
  then show ?thesis
    by (simp add: c Balances_Sub_def operate_OK)
qed

lemma foldl_plus_sum_list: "foldl (+) (z :: int) xs = z + sum_list xs"
  by (induction xs arbitrary: z) simp_all

lemma Balances_Sum_eq [simp]: "Balances_Sum b = map sum_list b"
  by (simp add: Balances_Sum_def foldl_plus_sum_list)

lemma sum_list_map2_plus:
  fixes r s :: "int list"
  shows "length r = length s \<Longrightarrow> sum_list (map2 (+) r s) = sum_list r + sum_list s"
  by (induction r s rule: list_induct2) auto

lemma sum_list_map2_minus:
  fixes r s :: "int list"
  shows "length r = length s \<Longrightarrow> sum_list (map2 (-) r s) = sum_list r - sum_list s"
  by (induction r s rule: list_induct2) auto

lemma Balances_Sum_Add:
  assumes "same_shape b a"
  shows "\<exists>c. Balances_Add b a = OK c \<and> Balances_Sum c = map2 (+) (Balances_Sum b) (Balances_Sum a)"
  using assms unfolding Balances_Add_def operate_OK [OF assms] same_shape_def
  by (simp, induction b a rule: list_all2_induct) (auto simp: sum_list_map2_plus)

lemma Balances_Sum_Sub:
  assumes "same_shape b a"
  shows "\<exists>c. Balances_Sub b a = OK c \<and> Balances_Sum c = map2 (-) (Balances_Sum b) (Balances_Sum a)"
  using assms unfolding Balances_Sub_def operate_OK [OF assms] same_shape_def
  by (simp, induction b a rule: list_all2_induct) (auto simp: sum_list_map2_minus)

lemma balances_ge_shape: "balances_ge b a \<Longrightarrow> same_shape b a"
  unfolding balances_ge_def same_shape_def by (erule list_all2_mono) (rule list_all2_lengthD)

lemma Balances_Sub_nonneg_iff:
  assumes "same_shape b a"
  shows "(\<forall>row\<in>set (map2 (map2 (-)) b a). \<forall>x\<in>set row. 0 \<le> x) \<longleftrightarrow> balances_ge b a"
proof -
  have row: "(\<forall>x\<in>set (map2 (-) r s). 0 \<le> x) \<longleftrightarrow> list_all2 (\<ge>) r s"
    if "length r = length s" for r s :: "Bal list"
    using that by (induction r s rule: list_induct2) auto
  show ?thesis
    using assms unfolding same_shape_def balances_ge_def
  proof (induction b a rule: list_all2_induct)
    case (Cons r b s a)
    then show ?case
      using row [of r s] by (simp del: set_map)
  qed simp
qed

section \<open>Validity and totals\<close>

text \<open>What \<open>Valid\<close> accepts, spelled out.\<close>

definition valid_suballoc :: "nat \<Rightarrow> SubAlloc \<Rightarrow> bool" where
  "valid_suballoc n s \<longleftrightarrow> length (sa_Bals s) = n \<and> (\<forall>b\<in>set (sa_Bals s). 0 \<le> b)"

definition valid_alloc :: "Allocation \<Rightarrow> bool" where
  "valid_alloc a \<longleftrightarrow>
     (let n = length (al_Assets a) in
      0 < n \<and> n \<le> 1024 \<and> length (al_Locked a) \<le> 1024 \<and> length (al_Balances a) = n \<and>
      0 < length (al_Balances a ! 0) \<and> length (al_Balances a ! 0) \<le> 1024 \<and>
      (\<forall>row\<in>set (al_Balances a). length (al_Balances a ! 0) = length row \<and> (\<forall>b\<in>set row. 0 \<le> b)) \<and>
      (\<forall>l\<in>set (al_Locked a). valid_suballoc n l))"

lemma SubAlloc_Valid_OK_iff:
  "SubAlloc_Valid s = OK u \<longleftrightarrow> length (sa_Bals s) \<le> 1024 \<and> (\<forall>b\<in>set (sa_Bals s). 0 \<le> b)"
  by (auto simp: SubAlloc_Valid_def res_simps forEach_OK_iff max_defs not_less)

lemma valid_rows_iff:
  "forEach (\<lambda>row. bindR (err_if (length row \<noteq> n) e) (\<lambda>_. forEach (\<lambda>bal. err_if (bal < 0) e') row)) rows
     = OK u \<longleftrightarrow> (\<forall>row\<in>set rows. n = length row \<and> (\<forall>b\<in>set row. (0 :: Bal) \<le> b))"
  by (auto simp: forEach_OK_iff bindR_OK_iff not_less)

lemma valid_locked_iff:
  assumes "n \<le> 1024"
  shows "forEach (\<lambda>l. bindR (with_msg m (SubAlloc_Valid l)) (\<lambda>_. err_if (length (sa_Bals l) \<noteq> n) e)) ls
     = OK u \<longleftrightarrow> (\<forall>l\<in>set ls. valid_suballoc n l)"
  using assms
  by (auto simp: forEach_OK_iff bindR_OK_iff SubAlloc_Valid_OK_iff valid_suballoc_def)

lemma Allocation_Valid_OK_iff: "Allocation_Valid a = OK u \<longleftrightarrow> valid_alloc a"
proof (cases "al_Assets a = [] \<or> al_Balances a = [] \<or> length (al_Assets a) > 1024 \<or>
    length (al_Locked a) > 1024 \<or> length (al_Balances a) \<noteq> length (al_Assets a) \<or>
    al_Balances a ! 0 = [] \<or> length (al_Balances a ! 0) > 1024")
  case True
  then have "\<not> valid_alloc a"
    by (auto simp: valid_alloc_def Let_def)
  moreover from True have "Allocation_Valid a \<noteq> OK u"
    unfolding Allocation_Valid_def Let_def by (auto simp: bindR_OK_iff max_defs)
  ultimately show ?thesis
    by blast
next
  case False
  let ?n = "length (al_Assets a)" and ?p = "length (al_Balances a ! 0)"
  have "Allocation_Valid a = OK u \<longleftrightarrow>
    (\<forall>row\<in>set (al_Balances a). ?p = length row \<and> (\<forall>b\<in>set row. 0 \<le> b)) \<and>
    (\<forall>l\<in>set (al_Locked a). valid_suballoc ?n l)"
    unfolding Allocation_Valid_def Let_def using False valid_locked_iff [of ?n]
    by (simp only: bindR_OK_iff err_if_simps valid_rows_iff max_defs not_less) auto
  with False show ?thesis
    by (simp add: valid_alloc_def Let_def not_less)
qed

lemma bindR_no_Panic: "\<not> is_Panic m \<Longrightarrow> (\<And>x. \<not> is_Panic (f x)) \<Longrightarrow> \<not> is_Panic (bindR m f)"
  by (cases m) auto

lemma forEach_no_Panic: "(\<And>x. \<not> is_Panic (f x)) \<Longrightarrow> \<not> is_Panic (forEach f xs)"
  by (induction xs) (simp_all add: bindR_no_Panic)

lemma with_msg_no_Panic [simp]: "is_Panic (with_msg s m) \<longleftrightarrow> is_Panic m"
  by (cases m) auto

lemma err_if_no_Panic [simp]: "\<not> is_Panic (err_if b e)"
  by (simp add: err_if_def)

lemma SubAlloc_Valid_no_Panic: "\<not> is_Panic (SubAlloc_Valid s)"
  unfolding SubAlloc_Valid_def by (intro bindR_no_Panic forEach_no_Panic) simp_all

lemma Allocation_Valid_no_Panic: "\<not> is_Panic (Allocation_Valid a)"
  unfolding Allocation_Valid_def Let_def
  by (intro bindR_no_Panic forEach_no_Panic) (simp_all add: SubAlloc_Valid_no_Panic)

text \<open>The funds of one asset that an allocation holds, and when \<open>Sum\<close> returns them.\<close>

definition asset_total :: "Allocation \<Rightarrow> nat \<Rightarrow> Bal" where
  "asset_total a i = sum_list (al_Balances a ! i) + (\<Sum>l\<leftarrow>al_Locked a. sa_Bals l ! i)"

definition dims_ok :: "Allocation \<Rightarrow> bool" where
  "dims_ok a \<longleftrightarrow> (\<forall>l\<in>set (al_Locked a). length (sa_Bals l) = length (al_Balances a))"

lemma valid_alloc_dims: "valid_alloc a \<Longrightarrow> dims_ok a"
  by (simp add: valid_alloc_def dims_ok_def valid_suballoc_def Let_def)

lemma addLocked_eq: "length bs = length ts \<Longrightarrow> addLocked ts bs = OK (map2 (+) ts bs)"
  by (induction ts bs rule: addLocked.induct) auto

lemma addLocked_Panic: "length ts < length bs \<Longrightarrow> is_Panic (addLocked ts bs)"
proof (induction ts bs rule: addLocked.induct)
  case (3 t ts b bs)
  then have "is_Panic (addLocked ts bs)"
    by simp
  then show ?case
    by (cases "addLocked ts bs") auto
qed simp_all

lemma foldR_append: "foldR f (xs @ ys) s = bindR (foldR f xs s) (foldR f ys)"
proof (induction xs arbitrary: s)
  case (Cons x xs)
  then show ?case
    by (cases "f x s") auto
qed simp

lemma sum_locked:
  assumes "\<And>l. l \<in> set ls \<Longrightarrow> length (sa_Bals l) = length ts"
  shows "foldR (\<lambda>l totals. addLocked totals (sa_Bals l)) ls ts =
    OK (map (\<lambda>i. ts ! i + (\<Sum>l\<leftarrow>ls. sa_Bals l ! i)) [0..<length ts])"
  using assms
proof (induction ls arbitrary: ts)
  case Nil
  show ?case
    by (simp add: map_nth)
next
  case (Cons l ls)
  have len: "length (sa_Bals l) = length ts"
    using Cons.prems by simp
  have "foldR (\<lambda>l totals. addLocked totals (sa_Bals l)) ls (map2 (+) ts (sa_Bals l)) =
    OK (map (\<lambda>i. map2 (+) ts (sa_Bals l) ! i + (\<Sum>l\<leftarrow>ls. sa_Bals l ! i)) [0..<length ts])"
    using Cons.IH [of "map2 (+) ts (sa_Bals l)"] Cons.prems by simp
  with len show ?case
    by (simp add: addLocked_eq)
qed

lemma Allocation_Sum_eq:
  assumes "dims_ok a"
  shows "Allocation_Sum a = OK (map (asset_total a) [0..<length (al_Balances a)])"
  using assms sum_locked [of "al_Locked a" "Balances_Sum (al_Balances a)"]
  by (simp add: Allocation_Sum_def asset_total_def dims_ok_def)

lemma Allocation_Sum_AddSubAlloc:
  "Allocation_Sum (AddSubAlloc a s) = bindR (Allocation_Sum a) (\<lambda>t. addLocked t (sa_Bals s))"
proof -
  have "foldR (\<lambda>l totals. addLocked totals (sa_Bals l)) [s] = (\<lambda>t. addLocked t (sa_Bals s))"
  proof
    show "foldR (\<lambda>l totals. addLocked totals (sa_Bals l)) [s] t = addLocked t (sa_Bals s)" for t
      by (cases "addLocked t (sa_Bals s)") simp_all
  qed
  then show ?thesis
    by (simp add: Allocation_Sum_def AddSubAlloc_def foldR_append)
qed

section \<open>Sub-allocations\<close>

lemma SubAlloc_Equal_OK_iff:
  "SubAlloc_Equal s t = OK u \<longleftrightarrow> sa_ID s = sa_ID t \<and> sa_Bals s = sa_Bals t"
  by (auto simp: SubAlloc_Equal_def BalancesEqual_def indexMapEqual_def list.rel_eq)

lemma SubAllocsAssertEqual_OK_iff:
  "SubAllocsAssertEqual a b = OK u \<longleftrightarrow>
     list_all2 (\<lambda>s t. sa_ID s = sa_ID t \<and> sa_Bals s = sa_Bals t) a b"
  by (auto simp: SubAllocsAssertEqual_def res_simps forEach_OK_iff list_all2_iff is_OK_unit_iff
      SubAlloc_Equal_OK_iff)

lemma findSubAlloc_found_iff:
  "snd (findSubAlloc i ss cur) \<longleftrightarrow> i \<in> sa_ID ` set ss"
  by (induction ss arbitrary: cur) auto

lemma findSubAlloc_first:
  assumes "findSubAlloc i ss cur = (s, True)"
  obtains xs ys where "ss = xs @ s # ys" "sa_ID s = i" "i \<notin> sa_ID ` set xs"
proof -
  have "\<exists>xs ys. ss = xs @ s # ys \<and> sa_ID s = i \<and> i \<notin> sa_ID ` set xs"
    using assms
  proof (induction ss arbitrary: cur)
    case (Cons x ss)
    show ?case
    proof (cases "sa_ID x = i")
      case True
      with Cons.prems show ?thesis
        by (intro exI [of _ "[]"] exI [of _ ss]) auto
    next
      case False
      with Cons obtain xs ys where "ss = xs @ s # ys" "sa_ID s = i" "i \<notin> sa_ID ` set xs"
        by fastforce
      with False show ?thesis
        by (intro exI [of _ "x # xs"] exI [of _ ys]) auto
    qed
  qed simp
  with that show thesis
    by blast
qed

lemma removeFirst_OK:
  assumes "removeFirst s xs = OK ys"
  obtains us t vs where "xs = us @ t # vs" "ys = us @ vs" "sa_ID t = sa_ID s" "sa_Bals t = sa_Bals s"
    "\<forall>u\<in>set us. \<not> (sa_ID u = sa_ID s \<and> sa_Bals u = sa_Bals s)"
proof -
  have "\<exists>us t vs. xs = us @ t # vs \<and> ys = us @ vs \<and> sa_ID t = sa_ID s \<and> sa_Bals t = sa_Bals s \<and>
    (\<forall>u\<in>set us. \<not> (sa_ID u = sa_ID s \<and> sa_Bals u = sa_Bals s))"
    using assms
  proof (induction xs arbitrary: ys)
    case (Cons x xs)
    show ?case
    proof (cases "is_OK (SubAlloc_Equal s x)")
      case True
      with Cons.prems show ?thesis
        by (intro exI [of _ "[]"] exI [of _ x] exI [of _ xs]) (auto simp: is_OK_unit_iff SubAlloc_Equal_OK_iff)
    next
      case False
      with Cons.prems obtain zs where "removeFirst s xs = OK zs" "ys = x # zs"
        by (auto simp: res_simps)
      with Cons.IH obtain us t vs where "xs = us @ t # vs" "zs = us @ vs" "sa_ID t = sa_ID s"
        "sa_Bals t = sa_Bals s" "\<forall>u\<in>set us. \<not> (sa_ID u = sa_ID s \<and> sa_Bals u = sa_Bals s)"
        by blast
      with False \<open>ys = x # zs\<close> show ?thesis
        by (intro exI [of _ "x # us"] exI [of _ t] exI [of _ vs])
          (auto simp: is_OK_unit_iff SubAlloc_Equal_OK_iff)
    qed
  qed simp
  with that show thesis
    by blast
qed

lemma removeFirst_not_found:
  "\<not> is_OK (removeFirst s xs) \<longleftrightarrow> (\<forall>x\<in>set xs. \<not> (sa_ID x = sa_ID s \<and> sa_Bals x = sa_Bals s))"
proof (induction xs)
  case (Cons x xs)
  then show ?case
    by (cases "removeFirst s xs") (auto simp: is_OK_unit_iff SubAlloc_Equal_OK_iff)
qed simp

lemma RemoveSubAlloc_OK:
  assumes "RemoveSubAlloc a s = OK b"
  obtains us t vs where "al_Locked a = us @ t # vs" "b = a\<lparr>al_Locked := us @ vs\<rparr>"
    "sa_ID t = sa_ID s" "sa_Bals t = sa_Bals s"
  using assms by (auto simp: RemoveSubAlloc_def res_simps elim!: removeFirst_OK)

lemma RemoveSubAlloc_total:
  assumes "RemoveSubAlloc a s = OK b"
  shows "asset_total b i = asset_total a i - sa_Bals s ! i"
  using assms by (elim RemoveSubAlloc_OK) (simp add: asset_total_def)

lemma AddSubAlloc_total: "asset_total (AddSubAlloc a s) i = asset_total a i + sa_Bals s ! i"
  by (simp add: AddSubAlloc_def asset_total_def)

section \<open>Encoding\<close>

definition bal_ok :: "Bal \<Rightarrow> bool" where
  "bal_ok b \<longleftrightarrow> 0 \<le> b \<and> b < 256 ^ 128"

definition balances_ok :: "Balances \<Rightarrow> bool" where
  "balances_ok b \<longleftrightarrow> length b \<le> 1024 \<and> (\<forall>row\<in>set b. length row \<le> 1024 \<and>
     length (b ! 0) = length row \<and> list_all bal_ok row)"

definition suballoc_ok :: "SubAlloc \<Rightarrow> bool" where
  "suballoc_ok s \<longleftrightarrow> length (sa_ID s) = 32 \<and> length (sa_Bals s) \<le> 1024 \<and>
     list_all bal_ok (sa_Bals s) \<and> length (sa_IndexMap s) < 2 ^ 16"

definition alloc_ok :: "(asset \<Rightarrow> bool) \<Rightarrow> Allocation \<Rightarrow> bool" where
  "alloc_ok wf_asset a \<longleftrightarrow> valid_alloc a \<and> list_all wf_asset (al_Assets a) \<and>
     balances_ok (al_Balances a) \<and> list_all suballoc_ok (al_Locked a)"

lemma unat_of_nat_u16: "n < 2 ^ 16 \<Longrightarrow> unat (of_nat n :: u16) = n"
  by (simp add: unat_of_nat)

lemma rt_bal: "bal_ok b \<Longrightarrow> roundtrips (Encode [VBigInt (Some b)]) (decArg BigInt_Decode) b"
  unfolding bal_ok_def by (intro rt_Encode_single rt_encArg rt_bigint) simp_all

lemma rt_index: "roundtrips (Encode [VUint16 x]) (decArg decUint16) x"
  by (intro rt_Encode_single rt_encArg rt_uint16)

lemma Balances_rt:
  assumes "balances_ok b"
  shows "roundtrips (Balances_Encode b) Balances_Decode b"
proof -
  define np where "np = (if length b > 0 then length (b ! 0) else 0)"
  let ?enc = "\<lambda>bal. with_msg ''encoding balance of asset %d of participant %d'' (Encode [VBigInt (Some bal)])"
  let ?dec = "msgD ''decoding balance of asset %d of participant %d'' (decArg BigInt_Decode)"
  have np: "np \<le> 1024" and len: "length b \<le> 1024"
    and rows: "\<And>row. row \<in> set b \<Longrightarrow> length row = np \<and> list_all bal_ok row"
    using assms by (auto simp: balances_ok_def np_def dest: nth_mem [of 0 b])
  have unat: "unat (of_nat np :: u16) = np" "unat (of_nat (length b) :: u16) = length b"
    using np len by (simp_all add: unat_of_nat_u16)
  have "roundtrips (concatE (map ?enc row)) (repeatD np ?dec) row" if "row \<in> set b" for row
    using rows [OF that]
    by (auto simp: list_all_iff intro!: roundtrips_repeatD roundtrips_with_msg roundtrips_msgD rt_bal)
  then have "roundtrips (concatE (map (\<lambda>row. concatE (map ?enc row)) b))
      (repeatD (length b) (repeatD np ?dec)) b"
    by (rule roundtrips_repeatD)
  moreover have "roundtrips
      (with_msg ''encoding dimensions'' (Encode [VUint16 (of_nat (length b)), VUint16 (of_nat np)]))
      (msgD ''decoding dimensions'' (bindD (decArg decUint16) (\<lambda>a.
         bindD (decArg decUint16) (\<lambda>p. returnD (a, p))))) (of_nat (length b), of_nat np)"
    by (rule codec_intros)+
  moreover have "Balances_Encode b = catE
      (with_msg ''encoding dimensions'' (Encode [VUint16 (of_nat (length b)), VUint16 (of_nat np)]))
      (concatE (map (\<lambda>row. concatE (map ?enc row)) b))"
    using np len by (simp add: Balances_Encode_def np_def Let_def max_defs)
  ultimately show ?thesis
    unfolding Balances_Decode_def using np len
    by (auto intro!: roundtrips_bind roundtrips_checkD simp: unat max_defs)
qed

lemma SubAlloc_rt:
  assumes "suballoc_ok s"
  shows "roundtrips (SubAlloc_Encode s) SubAlloc_Decode s"
proof -
  have valid: "SubAlloc_Valid s = OK ()"
    using assms by (auto simp: SubAlloc_Valid_OK_iff suballoc_ok_def list_all_iff bal_ok_def)
  have len: "length (sa_ID s) = 32" "length (sa_Bals s) \<le> 1024" "length (sa_IndexMap s) < 2 ^ 16"
    and bals: "\<And>b. b \<in> set (sa_Bals s) \<Longrightarrow> bal_ok b"
    using assms by (auto simp: suballoc_ok_def list_all_iff)
  have unat: "unat (of_nat (length (sa_Bals s)) :: u16) = length (sa_Bals s)"
    "unat (of_nat (length (sa_IndexMap s)) :: u16) = length (sa_IndexMap s)"
    using len by (simp_all add: unat_of_nat_u16)
  have hd: "roundtrips (with_msg m (Encode [VBytes32 (sa_ID s), VUint16 (of_nat (length (sa_Bals s)))]))
      (msgD m' (bindD (decArg decBytes32) (\<lambda>i. bindD (decArg decUint16) (\<lambda>n. returnD (i, n)))))
      (sa_ID s, of_nat (length (sa_Bals s)))" for m m'
    by (rule codec_intros len(1))+
  have bs: "roundtrips (concatE (map (\<lambda>bal. with_msg m (Encode [VBigInt (Some bal)])) (sa_Bals s)))
      (repeatD (length (sa_Bals s)) (msgD m' (decArg BigInt_Decode))) (sa_Bals s)" for m m'
    by (intro roundtrips_repeatD roundtrips_with_msg roundtrips_msgD rt_bal bals)
  have il: "roundtrips (with_msg m (Encode [VUint16 x])) (msgD m' (decArg decUint16)) x" for m m' x
    by (intro roundtrips_with_msg roundtrips_msgD rt_index)
  have im: "roundtrips (concatE (map (\<lambda>x. with_msg m (Encode [VUint16 x])) (sa_IndexMap s)))
      (repeatD (length (sa_IndexMap s)) (msgD m' (decArg decUint16))) (sa_IndexMap s)" for m m'
    by (intro roundtrips_repeatD il)
  have eta: "\<lparr>sa_ID = sa_ID s, sa_Bals = sa_Bals s, sa_IndexMap = sa_IndexMap s\<rparr> = s"
    by simp
  show ?thesis
    unfolding SubAlloc_Encode_def SubAlloc_Decode_def
    using len
    by (auto intro!: roundtrips_guarded roundtrips_bind [OF hd] roundtrips_checkD roundtrips_bind [OF bs]
        roundtrips_bind [OF il] roundtrips_bind_last [OF im]
        simp: valid unat eta max_defs bindD_def checkD_def returnD_def Let_def)
qed

interpretation balances_codec: serializer Balances_Encode Balances_Decode balances_ok
  by unfold_locales (rule Balances_rt)

interpretation suballoc_codec: serializer SubAlloc_Encode SubAlloc_Decode suballoc_ok
  by unfold_locales (rule SubAlloc_rt)

locale asset_codec = wallet_codec B wf_addr wf_sig
  for B :: "'m asset_backend_scheme" and wf_addr :: "address \<Rightarrow> bool" and wf_sig :: "bytes \<Rightarrow> bool" +
  fixes wf_asset :: "asset \<Rightarrow> bool"
  assumes asset_rt: "wf_asset as \<Longrightarrow> roundtrips (asset_Encode as) (ab_DecodeAsset B) as"
begin

lemma Allocation_rt:
  assumes "alloc_ok wf_asset a"
  shows "roundtrips (Allocation_Encode a) (Allocation_Decode B) a"
proof -
  let ?na = "length (al_Assets a)" and ?np = "length (al_Balances a ! 0)" and ?nl = "length (al_Locked a)"
  have valid: "Allocation_Valid a = OK ()"
    using assms by (simp add: alloc_ok_def Allocation_Valid_OK_iff)
  have dims: "?na \<le> 1024" "?np \<le> 1024" "?nl \<le> 1024"
    using assms by (auto simp: alloc_ok_def valid_alloc_def Let_def)
  then have unat: "unat (of_nat ?na :: u16) = ?na" "unat (of_nat ?np :: u16) = ?np"
    "unat (of_nat ?nl :: u16) = ?nl"
    by (simp_all add: unat_of_nat_u16)
  have hd: "roundtrips (Encode [VUint16 (of_nat ?na), VUint16 (of_nat ?np), VUint16 (of_nat ?nl)])
      (msgD m (bindD (decArg decUint16) (\<lambda>a. bindD (decArg decUint16) (\<lambda>p.
         bindD (decArg decUint16) (\<lambda>l. returnD (a, p, l))))))
      (of_nat ?na, of_nat ?np, of_nat ?nl)" for m
    by (rule codec_intros)+
  have as: "roundtrips (concatE (map (\<lambda>as. with_msg m (asset_Encode as)) (al_Assets a)))
      (repeatD ?na (msgD m' (ab_DecodeAsset B))) (al_Assets a)" for m m'
    using assms
    by (auto simp: alloc_ok_def list_all_iff
        intro!: roundtrips_repeatD roundtrips_with_msg roundtrips_msgD asset_rt)
  have bs: "roundtrips (with_msg m (Balances_Encode (al_Balances a)))
      (msgD m' (decArg Balances_Decode)) (al_Balances a)" for m m'
    using assms unfolding decArg_def alloc_ok_def
    by (intro roundtrips_with_msg roundtrips_msgD Balances_rt) simp
  have ls: "roundtrips (concatE (map (\<lambda>s. with_msg m (SubAlloc_Encode s)) (al_Locked a)))
      (repeatD ?nl (msgD m' SubAlloc_Decode)) (al_Locked a)" for m m'
    using assms
    by (auto simp: alloc_ok_def list_all_iff
        intro!: roundtrips_repeatD roundtrips_with_msg roundtrips_msgD SubAlloc_rt)
  have eta: "\<lparr>al_Assets = al_Assets a, al_Balances = al_Balances a, al_Locked = al_Locked a\<rparr> = a"
    by simp
  show ?thesis
    unfolding Allocation_Encode_def Allocation_Decode_def
    using dims
    by (auto intro!: roundtrips_guarded roundtrips_bind [OF hd] roundtrips_checkD
        roundtrips_bind [OF as] roundtrips_bind [OF bs] roundtrips_bind_last [OF ls]
        simp: valid unat eta max_defs bindD_def checkD_def returnD_def Let_def)
qed

end

sublocale asset_codec \<subseteq> alloc_codec: serializer Allocation_Encode "Allocation_Decode B" "alloc_ok wf_asset"
  by unfold_locales (rule Allocation_rt)

end
