(* ===== verification/Perun_Channel.thy ===== *)
theory Perun_Channel
  imports Perun_Allocation
begin

text \<open>
  The data of a channel: applications (\<open>channel/app.go\<close>, \<open>noapp.go\<close>, \<open>mock_app.go\<close>,
  \<open>appregistry.go\<close> and \<open>apps/payment\<close>), states (\<open>state.go\<close>), parameters (\<open>params.go\<close>),
  transactions (\<open>transaction.go\<close>) and the typed errors of \<open>errors.go\<close>.

  An \<open>App\<close> or \<open>Data\<close> interface value is nil, one of the implementations of the repository, or
  one supplied by a user of the library; the methods of the latter, like those of the channel
  backend (\<open>channel/backend.go\<close>), are fields of the record \<open>channel_backend\<close>, together with the
  global application registry.

  The lemmas show that states, parameters and transactions survive encoding, that \<open>Clone\<close>
  preserves values, what \<open>Equal\<close> means, and how the registry resolves definitions.
\<close>

section \<open>Data\<close>

datatype App = NilApp | NoApp | PaymentApp address | MockApp address | UserApp address

datatype Data = NilData | NoData | MockOp u64 | UserData bytes

datatype Action = NilAction | MockAction u64 | UserAction bytes

type_synonym account = "address"
type_synonym Nonce = "int option"

record State =
  st_ID :: ID
  st_Version :: u64
  st_App :: App
  st_Alloc :: Allocation
  st_Data :: Data
  st_IsFinal :: bool

record Params =
  p_id :: ID
  p_ChallengeDuration :: u64
  p_Parts :: "address list"
  p_App :: App
  p_Nonce :: Nonce
  p_LedgerChannel :: bool
  p_VirtualChannel :: bool

record Transaction =
  tx_State :: "State option"
  tx_Sigs :: "sig list"

type_synonym resolver = "address \<Rightarrow> App res"

record appReg =
  ar_resolvers :: "((address \<Rightarrow> bool) \<times> resolver) list"
  ar_singles :: "bytes \<Rightarrow> App option"
  ar_default :: "resolver option"

text \<open>The methods of applications that are not part of the repository.\<close>

record user_app =
  ua_IsStateApp :: bool
  ua_IsActionApp :: bool
  ua_DecodeData :: "Data decoder"
  ua_ValidTransition :: "Params \<Rightarrow> State \<Rightarrow> State \<Rightarrow> Index \<Rightarrow> unit res"
  ua_ValidInit :: "Params \<Rightarrow> State \<Rightarrow> unit res"
  ua_ValidAction :: "Params \<Rightarrow> State option \<Rightarrow> Index \<Rightarrow> Action \<Rightarrow> unit res"
  ua_ApplyActions :: "Params \<Rightarrow> State option \<Rightarrow> Action list \<Rightarrow> State res"
  ua_InitState :: "Params \<Rightarrow> Action list \<Rightarrow> (Allocation \<times> Data) res"
  ua_DecodeAction :: "Action decoder"

record channel_backend = asset_backend +
  cb_CalcID :: "Params \<Rightarrow> ID res"
  cb_Sign :: "account \<Rightarrow> Params \<Rightarrow> State \<Rightarrow> sig res"
  cb_Verify :: "address \<Rightarrow> Params \<Rightarrow> State \<Rightarrow> sig \<Rightarrow> bool res"
  cb_registry :: appReg
  cb_userApp :: "address \<Rightarrow> user_app"

definition Zero :: ID where "Zero = replicate 32 0"

definition zeroTransaction :: Transaction where
  "zeroTransaction = \<lparr>tx_State = None, tx_Sigs = []\<rparr>"

section \<open>Typed errors\<close>

definition NewStateTransitionError :: "ID \<Rightarrow> string \<Rightarrow> goerr" where
  "NewStateTransitionError i msg = ErrWithMessage msg (StateTransitionError i)"

definition NewActionError :: "ID \<Rightarrow> string \<Rightarrow> goerr" where
  "NewActionError i msg = ErrWithMessage msg (ActionError i)"

definition newPhaseTransitionErrorf :: "ID \<Rightarrow> Phase \<Rightarrow> Phase \<times> Phase \<Rightarrow> string \<Rightarrow> goerr" where
  "newPhaseTransitionErrorf i current expected msg =
     ErrWithMessage msg (PhaseTransitionError i current (fst expected) (snd expected))"

definition IsStateTransitionError :: "goerr \<Rightarrow> bool" where
  "IsStateTransitionError e = (case Cause e of StateTransitionError _ \<Rightarrow> True | _ \<Rightarrow> False)"

definition IsActionError :: "goerr \<Rightarrow> bool" where
  "IsActionError e = (case Cause e of ActionError _ \<Rightarrow> True | _ \<Rightarrow> False)"

definition IsPhaseTransitionError :: "goerr \<Rightarrow> bool" where
  "IsPhaseTransitionError e = (case Cause e of PhaseTransitionError _ _ _ _ \<Rightarrow> True | _ \<Rightarrow> False)"

section \<open>Applications\<close>

definition IsNoApp :: "App \<Rightarrow> bool" where
  "IsNoApp a = (case a of NoApp \<Rightarrow> True | _ \<Rightarrow> False)"

definition IsNoData :: "Data \<Rightarrow> bool" where
  "IsNoData d = (case d of NoData \<Rightarrow> True | _ \<Rightarrow> False)"

definition app_Def :: "App \<Rightarrow> address res" where
  "app_Def a = (case a of
      NilApp \<Rightarrow> Panic ''nil pointer dereference''
    | NoApp \<Rightarrow> Panic ''must not call Def() on NoApp''
    | PaymentApp addr \<Rightarrow> OK addr
    | MockApp addr \<Rightarrow> OK addr
    | UserApp addr \<Rightarrow> OK addr)"

definition IsStateApp :: "'m channel_backend_scheme \<Rightarrow> App \<Rightarrow> bool" where
  "IsStateApp B a = (case a of
      NilApp \<Rightarrow> False | NoApp \<Rightarrow> True | PaymentApp _ \<Rightarrow> True | MockApp _ \<Rightarrow> True
    | UserApp addr \<Rightarrow> ua_IsStateApp (cb_userApp B addr))"

definition IsActionApp :: "'m channel_backend_scheme \<Rightarrow> App \<Rightarrow> bool" where
  "IsActionApp B a = (case a of
      NilApp \<Rightarrow> False | NoApp \<Rightarrow> False | PaymentApp _ \<Rightarrow> False | MockApp _ \<Rightarrow> True
    | UserApp addr \<Rightarrow> ua_IsActionApp (cb_userApp B addr))"

definition MockOp_Encode :: "u64 \<Rightarrow> bytes res" where
  "MockOp_Encode o' = Encode [VUint64 o']"

definition MockOp_Decode :: "u64 decoder" where
  "MockOp_Decode = decArg decUint64"

text \<open>A \<open>Data\<close> value as an argument of \<open>perunio.Encode\<close>.\<close>

definition data_encoder :: "Data \<Rightarrow> encoder" where
  "data_encoder d = (case d of
      NilData \<Rightarrow> None
    | NoData \<Rightarrow> Some (OK [])
    | MockOp o' \<Rightarrow> Some (MockOp_Encode o')
    | UserData b \<Rightarrow> Some (OK b))"

definition data_Clone :: "Data \<Rightarrow> Data res" where
  "data_Clone d = (case d of
      NilData \<Rightarrow> Panic ''nil pointer dereference''
    | NoData \<Rightarrow> OK NoData
    | MockOp o' \<Rightarrow> OK (MockOp o')
    | UserData b \<Rightarrow> OK (UserData b))"

definition app_DecodeData :: "'m channel_backend_scheme \<Rightarrow> App \<Rightarrow> Data decoder" where
  "app_DecodeData B a = (case a of
      NilApp \<Rightarrow> (\<lambda>r. Panic ''nil pointer dereference'')
    | NoApp \<Rightarrow> returnD NoData
    | PaymentApp _ \<Rightarrow> returnD NoData
    | MockApp _ \<Rightarrow> bindD MockOp_Decode (\<lambda>o'. returnD (MockOp o'))
    | UserApp addr \<Rightarrow> ua_DecodeData (cb_userApp B addr))"

definition AppShouldEqual :: "App \<Rightarrow> App \<Rightarrow> unit res" where
  "AppShouldEqual expected actual =
     (if IsNoApp expected \<and> IsNoApp actual then OK ()
      else if \<not> IsNoApp expected \<and> IsNoApp actual \<or> IsNoApp expected \<and> \<not> IsNoApp actual
      then Err (ErrNew ''(non-)nil App definitions'')
      else bindR (app_Def expected) (\<lambda>e. bindR (app_Def actual) (\<lambda>a.
        err_if (e \<noteq> a) (ErrNew ''different App definitions''))))"

section \<open>The application registry\<close>

definition Resolve :: "'m channel_backend_scheme \<Rightarrow> appReg \<Rightarrow> address option \<Rightarrow> App res" where
  "Resolve B reg def = (case def of
      None \<Rightarrow> Panic ''resolving nil address''
    | Some d \<Rightarrow> bindR (Key B d) (\<lambda>k.
        case ar_singles reg k of
          Some app \<Rightarrow> OK app
        | None \<Rightarrow> (case find (\<lambda>e. fst e d) (ar_resolvers reg) of
              Some e \<Rightarrow> snd e d
            | None \<Rightarrow> (case ar_default reg of
                  None \<Rightarrow> Err (ErrNew ''def %v could not be resolved and no default resolver set'')
                | Some res \<Rightarrow> res d))))"

definition RegisterAppResolver ::
    "appReg \<Rightarrow> (address \<Rightarrow> bool) option \<Rightarrow> resolver option \<Rightarrow> appReg res" where
  "RegisterAppResolver reg pred appRes = (case (pred, appRes) of
      (Some p, Some r) \<Rightarrow> OK (reg\<lparr>ar_resolvers := ar_resolvers reg @ [(p, r)]\<rparr>)
    | _ \<Rightarrow> Panic ''nil AddressPredicate or AppResolver'')"

definition RegisterApp :: "'m channel_backend_scheme \<Rightarrow> appReg \<Rightarrow> App \<Rightarrow> appReg res" where
  "RegisterApp B reg app =
     (if app = NilApp then Panic ''nil Address or App''
      else bindR (app_Def app) (\<lambda>d. bindR (Key B d) (\<lambda>k.
        OK (reg\<lparr>ar_singles := (ar_singles reg)(k \<mapsto> app)\<rparr>))))"

definition RegisterDefaultApp :: "appReg \<Rightarrow> resolver option \<Rightarrow> appReg res" where
  "RegisterDefaultApp reg appRes = (case appRes of
      None \<Rightarrow> Panic ''nil AppResolver''
    | Some r \<Rightarrow> if ar_default reg \<noteq> None then Panic ''default resolver already set''
               else OK (reg\<lparr>ar_default := Some r\<rparr>))"

definition payment_Resolve :: resolver where
  "payment_Resolve def = OK (PaymentApp def)"

definition mock_Resolve :: resolver where
  "mock_Resolve addr = OK (MockApp addr)"

definition OptAppEnc_Encode :: "'m channel_backend_scheme \<Rightarrow> App \<Rightarrow> bytes res" where
  "OptAppEnc_Encode B app =
     (if IsNoApp app then Encode [VBool False]
      else bindR (app_Def app) (\<lambda>d. Encode [VBool True, VEncoder (Some (wb_EncodeAddress B d))]))"

definition OptAppDec_Decode :: "'m channel_backend_scheme \<Rightarrow> App decoder" where
  "OptAppDec_Decode B =
     bindD (decArg decBool) (\<lambda>hasApp.
     if \<not> hasApp then returnD NoApp
     else bindD (msgD ''decode app address'' (wb_DecodeAddress B)) (\<lambda>appDef.
       (\<lambda>r. bindR (with_msg ''resolve app'' (Resolve B (cb_registry B) (Some appDef)))
              (\<lambda>app. OK (app, r)))))"

section \<open>States\<close>

definition newState :: "Params \<Rightarrow> Allocation \<Rightarrow> Data \<Rightarrow> State res" where
  "newState params initBals initData =
     bindR (forEach (\<lambda>asset. err_if (length (p_Parts params) \<noteq> length asset)
       (ErrNew ''number of participants in parameters and initial balances don't match''))
       (al_Balances initBals)) (\<lambda>_.
     bindR (Allocation_Valid initBals) (\<lambda>_.
     OK \<lparr>st_ID = p_id params, st_Version = 0, st_App = p_App params, st_Alloc = initBals,
         st_Data = initData, st_IsFinal = False\<rparr>))"

definition State_Clone :: "State option \<Rightarrow> State option res" where
  "State_Clone s = (case s of
      None \<Rightarrow> OK None
    | Some s \<Rightarrow> bindR (data_Clone (st_Data s)) (\<lambda>d.
        OK (Some (s\<lparr>st_Alloc := Allocation_Clone (st_Alloc s), st_Data := d, st_App := st_App s\<rparr>))))"

definition State_Encode :: "'m channel_backend_scheme \<Rightarrow> State \<Rightarrow> bytes res" where
  "State_Encode B s = with_msg ''state encode''
     (Encode [VBytes32 (st_ID s), VUint64 (st_Version s),
              VEncoder (Some (Allocation_Encode (st_Alloc s))), VBool (st_IsFinal s),
              VEncoder (Some (OptAppEnc_Encode B (st_App s))), VEncoder (data_encoder (st_Data s))])"

definition State_Decode :: "'m channel_backend_scheme \<Rightarrow> State decoder" where
  "State_Decode B =
     bindD (msgD ''id or version decode''
       (bindD (decArg decBytes32) (\<lambda>i. bindD (decArg decUint64) (\<lambda>v.
        bindD (decArg (Allocation_Decode B)) (\<lambda>a. bindD (decArg decBool) (\<lambda>f.
        bindD (decArg (OptAppDec_Decode B)) (\<lambda>app. returnD (i, v, a, f, app)))))))) (\<lambda>(i, v, a, f, app).
     bindD (msgD ''app decode data'' (app_DecodeData B app)) (\<lambda>d.
     returnD \<lparr>st_ID = i, st_Version = v, st_App = app, st_Alloc = a, st_Data = d, st_IsFinal = f\<rparr>))"

definition State_Equal :: "State \<Rightarrow> State \<Rightarrow> unit res" where
  "State_Equal s t =
     bindR (err_if (st_ID s \<noteq> st_ID t) (ErrNew ''different IDs'')) (\<lambda>_.
     bindR (err_if (st_Version s \<noteq> st_Version t) (ErrNew ''different Versions'')) (\<lambda>_.
     bindR (AppShouldEqual (st_App s) (st_App t)) (\<lambda>_.
     bindR (with_msg ''different Allocations'' (Allocation_Equal (st_Alloc s) (st_Alloc t))) (\<lambda>_.
     bindR (with_msg ''comparing App data encoding''
       (EqualEncoding (data_encoder (st_Data s)) (data_encoder (st_Data t)))) (\<lambda>ok.
     bindR (err_if (\<not> ok) (ErrNew ''different App data'')) (\<lambda>_.
     err_if (st_IsFinal s \<noteq> st_IsFinal t) (ErrNew ''different IsFinal flags'')))))))"

definition ToSubAlloc :: "State \<Rightarrow> SubAlloc res" where
  "ToSubAlloc s = bindR (Allocation_Sum (st_Alloc s)) (\<lambda>sums. OK (NewSubAlloc (st_ID s) sums []))"

section \<open>Parameters\<close>

definition MaxNonceLen :: nat where "MaxNonceLen = 32"

definition NonceFromBytes :: "bytes \<Rightarrow> Nonce res" where
  "NonceFromBytes b =
     (if length b > MaxNonceLen then Panic ''NonceFromBytes: longer than MaxNonceLen (%d/%d)''
      else OK (Some (int (be_nat b))))"

definition ValidateProposalParameters ::
    "'m channel_backend_scheme \<Rightarrow> u64 \<Rightarrow> nat \<Rightarrow> App \<Rightarrow> unit res" where
  "ValidateProposalParameters B challengeDuration numParts app =
     (if challengeDuration = 0 then Err (ErrNew ''challengeDuration must be != 0'')
      else if numParts < 2 then Err (ErrNew ''need at least two participants'')
      else if numParts > MaxNumParts then Err (ErrNew ''too many participants, got: %d max: %d'')
      else if app = NilApp then Err (ErrNew ''app must not be nil'')
      else if \<not> IsStateApp B app \<and> \<not> IsActionApp B app
      then Err (ErrNew ''app must be either an Action- or StateApp'')
      else OK ())"

definition ValidateParameters ::
    "'m channel_backend_scheme \<Rightarrow> u64 \<Rightarrow> nat \<Rightarrow> App \<Rightarrow> Nonce \<Rightarrow> unit res" where
  "ValidateParameters B challengeDuration numParts app nonce =
     bindR (ValidateProposalParameters B challengeDuration numParts app) (\<lambda>_.
     case nonce of
       None \<Rightarrow> Err (ErrNew ''nonce must not be nil'')
     | Some n \<Rightarrow> err_if (length (be_bytes (nat (abs n))) > MaxNonceLen)
                 (ErrNew ''nonce too long (%d > %d)''))"

definition NewParamsUnsafe ::
    "'m channel_backend_scheme \<Rightarrow> u64 \<Rightarrow> address list \<Rightarrow> App \<Rightarrow> Nonce \<Rightarrow> bool \<Rightarrow> bool \<Rightarrow> Params res" where
  "NewParamsUnsafe B challengeDuration parts app nonce ledger virtual =
     (let p = \<lparr>p_id = Zero, p_ChallengeDuration = challengeDuration, p_Parts = parts, p_App = app,
               p_Nonce = nonce, p_LedgerChannel = ledger, p_VirtualChannel = virtual\<rparr>
      in bindR (cb_CalcID B p) (\<lambda>i. OK (p\<lparr>p_id := i\<rparr>)))"

definition NewParams ::
    "'m channel_backend_scheme \<Rightarrow> u64 \<Rightarrow> address list \<Rightarrow> App \<Rightarrow> Nonce \<Rightarrow> bool \<Rightarrow> bool \<Rightarrow> Params res" where
  "NewParams B challengeDuration parts app nonce ledger virtual =
     bindR (with_msg ''invalid parameter for NewParams''
       (ValidateParameters B challengeDuration (length parts) app nonce)) (\<lambda>_.
     NewParamsUnsafe B challengeDuration parts app nonce ledger virtual)"

definition clonePart :: "'m channel_backend_scheme \<Rightarrow> address \<Rightarrow> address res" where
  "clonePart B v = (case wb_EncodeAddress B v of
      OK buff \<Rightarrow> (case wb_DecodeAddress B buff of
          OK (addr, _) \<Rightarrow> OK addr
        | Err _ \<Rightarrow> Panic ''Could not clone params' addresses''
        | Panic s \<Rightarrow> Panic s)
    | Err _ \<Rightarrow> Panic ''Could not encode part''
    | Panic s \<Rightarrow> Panic s)"

definition Params_Clone :: "'m channel_backend_scheme \<Rightarrow> Params \<Rightarrow> Params res" where
  "Params_Clone B p =
     bindR (mapR (clonePart B) (p_Parts p)) (\<lambda>clonedParts.
     bindR (deref (p_Nonce p)) (\<lambda>n.
     OK (p\<lparr>p_Parts := clonedParts, p_Nonce := Some (0 + n)\<rparr>)))"

definition Params_Encode :: "'m channel_backend_scheme \<Rightarrow> Params \<Rightarrow> bytes res" where
  "Params_Encode B p =
     Encode [VUint64 (p_ChallengeDuration p),
             VEncoder (Some (AddressesWithLen_Encode B (p_Parts p))),
             VEncoder (Some (OptAppEnc_Encode B (p_App p))),
             VBigInt (p_Nonce p), VBool (p_LedgerChannel p), VBool (p_VirtualChannel p)]"

definition Params_Decode :: "'m channel_backend_scheme \<Rightarrow> Params decoder" where
  "Params_Decode B =
     bindD (decArg decUint64) (\<lambda>challengeDuration.
     bindD (decArg (AddressesWithLen_Decode B)) (\<lambda>parts.
     bindD (decArg (OptAppDec_Decode B)) (\<lambda>app.
     bindD (decArg BigInt_Decode) (\<lambda>nonce.
     bindD (decArg decBool) (\<lambda>ledger.
     bindD (decArg decBool) (\<lambda>virtual.
     (\<lambda>r. bindR (NewParams B challengeDuration parts app (Some nonce) ledger virtual)
            (\<lambda>p. OK (p, r)))))))))"

section \<open>Transactions\<close>

definition Transaction_Clone :: "Transaction \<Rightarrow> Transaction res" where
  "Transaction_Clone t = bindR (State_Clone (tx_State t)) (\<lambda>s.
     OK \<lparr>tx_State = s, tx_Sigs = CloneSigs (tx_Sigs t)\<rparr>)"

definition Transaction_Encode :: "'m channel_backend_scheme \<Rightarrow> Transaction \<Rightarrow> bytes res" where
  "Transaction_Encode B t = (case tx_State t of
      None \<Rightarrow> Encode [VUint8 0]
    | Some s \<Rightarrow> catE (with_msg ''encoding stateSet bit and State''
                       (Encode [VUint8 1, VEncoder (Some (State_Encode B s))]))
                     (EncodeSparseSigs (tx_Sigs t)))"

definition Transaction_Decode :: "'m channel_backend_scheme \<Rightarrow> Transaction decoder" where
  "Transaction_Decode B =
     bindD (msgD ''decoding stateSet bit'' (decArg decUint8)) (\<lambda>stateSet.
     if stateSet mod 2 = 0 then returnD zeroTransaction
     else bindD (msgD ''decoding state'' (decArg (State_Decode B))) (\<lambda>s.
       bindD (checkD (panic_if (NumParts (st_Alloc s) < 0) ''makeslice: len out of range'')) (\<lambda>_.
       bindD (DecodeSparseSigs B (nat (NumParts (st_Alloc s)))) (\<lambda>sigs.
       returnD \<lparr>tx_State = Some s, tx_Sigs = sigs\<rparr>))))"

section \<open>Copies and comparisons\<close>

lemma data_Clone_OK_iff: "data_Clone d = OK d' \<longleftrightarrow> d \<noteq> NilData \<and> d' = d"
  by (cases d) (auto simp: data_Clone_def)

lemma State_Clone_OK_iff:
  "State_Clone s = OK c \<longleftrightarrow> c = s \<and> (\<forall>t. s = Some t \<longrightarrow> st_Data t \<noteq> NilData)"
  by (auto simp: State_Clone_def res_simps data_Clone_OK_iff split: option.splits)

lemma Transaction_Clone_OK_iff:
  "Transaction_Clone t = OK c \<longleftrightarrow> c = t \<and> (\<forall>s. tx_State t = Some s \<longrightarrow> st_Data s \<noteq> NilData)"
  by (auto simp: Transaction_Clone_def res_simps State_Clone_OK_iff)

lemma AppShouldEqual_OK_iff:
  "AppShouldEqual a b = OK u \<longleftrightarrow> (IsNoApp a \<and> IsNoApp b) \<or> (\<exists>d. app_Def a = OK d \<and> app_Def b = OK d)"
  by (cases a; cases b) (auto simp: AppShouldEqual_def IsNoApp_def app_Def_def)

lemma AssetsAssertEqual_OK_iff:
  "AssetsAssertEqual a b = OK u \<longleftrightarrow> list_all2 (\<lambda>x y. EqualEncoding x y = OK True) a b"
  by (fastforce simp: AssetsAssertEqual_def res_simps forEach_OK_iff list_all2_iff)

lemma Allocation_Equal_OK_iff:
  "Allocation_Equal a b = OK u \<longleftrightarrow>
     list_all2 (\<lambda>x y. EqualEncoding x y = OK True) (al_Assets a) (al_Assets b) \<and>
     al_Balances a = al_Balances b \<and>
     list_all2 (\<lambda>s t. sa_ID s = sa_ID t \<and> sa_Bals s = sa_Bals t) (al_Locked a) (al_Locked b)"
  by (auto simp: Allocation_Equal_def res_simps AssetsAssertEqual_OK_iff Balances_AssertEqual_OK_iff
      SubAllocsAssertEqual_OK_iff)

lemma State_Equal_OK_iff:
  "State_Equal s t = OK u \<longleftrightarrow>
     st_ID s = st_ID t \<and> st_Version s = st_Version t \<and>
     AppShouldEqual (st_App s) (st_App t) = OK () \<and>
     Allocation_Equal (st_Alloc s) (st_Alloc t) = OK () \<and>
     EqualEncoding (data_encoder (st_Data s)) (data_encoder (st_Data t)) = OK True \<and>
     st_IsFinal s = st_IsFinal t"
  by (auto simp: State_Equal_def res_simps)

lemma newState_OK_iff:
  "newState p a d = OK s \<longleftrightarrow>
     (\<forall>row\<in>set (al_Balances a). length row = length (p_Parts p)) \<and> valid_alloc a \<and>
     s = \<lparr>st_ID = p_id p, st_Version = 0, st_App = p_App p, st_Alloc = a, st_Data = d, st_IsFinal = False\<rparr>"
  by (auto simp: newState_def res_simps forEach_OK_iff Allocation_Valid_OK_iff)

lemma ToSubAlloc_OK:
  "dims_ok (st_Alloc s) \<Longrightarrow>
   ToSubAlloc s = OK \<lparr>sa_ID = st_ID s,
     sa_Bals = map (asset_total (st_Alloc s)) [0..<length (al_Balances (st_Alloc s))], sa_IndexMap = []\<rparr>"
  by (simp add: ToSubAlloc_def Allocation_Sum_eq NewSubAlloc_def)

section \<open>The registry\<close>

lemma Resolve_registered:
  assumes "RegisterApp B reg app = OK reg'"
  shows "\<exists>d. app_Def app = OK d \<and> Resolve B reg' (Some d) = OK app"
  using assms by (auto simp: RegisterApp_def Resolve_def res_simps split: if_splits)

lemma Resolve_other:
  assumes "RegisterApp B reg app = OK reg'" "app_Def app = OK d" "Key B d \<noteq> Key B e"
  shows "Resolve B reg' (Some e) = Resolve B reg (Some e)"
  using assms
  by (cases "Key B e")
    (auto simp: RegisterApp_def Resolve_def res_simps split: if_splits option.splits)

section \<open>What is decoded is well-formed\<close>

lemma bindD_OK_iff: "bindD d f r = OK (y, rest) \<longleftrightarrow> (\<exists>x r'. d r = OK (x, r') \<and> f x r' = OK (y, rest))"
  by (auto simp: bindD_def res_simps)

lemma Allocation_Decode_valid: "Allocation_Decode B r = OK (a, rest) \<Longrightarrow> valid_alloc a"
  by (auto simp: Allocation_Decode_def bindD_OK_iff Let_def checkD_def returnD_def res_simps Allocation_Valid_OK_iff)

lemma State_Decode_wf:
  assumes "State_Decode B r = OK (s, rest)"
  shows "length (st_ID s) = 32 \<and> valid_alloc (st_Alloc s)"
  using assms by (auto simp: State_Decode_def bindD_OK_iff msgD_def decArg_def decBytes32_def returnD_def res_simps
      ReadFull_def dest: Allocation_Decode_valid split: if_splits)

lemma NewParams_OK_iff:
  "NewParams B cd parts app nonce ledger virtual = OK p \<longleftrightarrow>
     ValidateParameters B cd (length parts) app nonce = OK () \<and>
     (\<exists>i. cb_CalcID B \<lparr>p_id = Zero, p_ChallengeDuration = cd, p_Parts = parts, p_App = app, p_Nonce = nonce,
          p_LedgerChannel = ledger, p_VirtualChannel = virtual\<rparr> = OK i \<and>
        p = \<lparr>p_id = i, p_ChallengeDuration = cd, p_Parts = parts, p_App = app, p_Nonce = nonce,
          p_LedgerChannel = ledger, p_VirtualChannel = virtual\<rparr>)"
  by (auto simp: NewParams_def NewParamsUnsafe_def Let_def res_simps)

lemma Params_Decode_wf:
  assumes "Params_Decode B r = OK (p, rest)"
  shows "ValidateParameters B (p_ChallengeDuration p) (length (p_Parts p)) (p_App p) (p_Nonce p) = OK () \<and>
     cb_CalcID B (p\<lparr>p_id := Zero\<rparr>) = OK (p_id p)"
  using assms by (auto simp: Params_Decode_def bindD_OK_iff res_simps NewParams_OK_iff)

section \<open>Encoding\<close>

definition app_ok :: "'m channel_backend_scheme \<Rightarrow> (address \<Rightarrow> bool) \<Rightarrow> App \<Rightarrow> bool" where
  "app_ok B wf_addr app \<longleftrightarrow> app = NoApp \<or>
     (\<exists>d. app_Def app = OK d \<and> wf_addr d \<and> Resolve B (cb_registry B) (Some d) = OK app)"

text \<open>The data that the given application can decode; for an application of a user this is what
  its decoder has to satisfy.\<close>

definition data_ok :: "'m channel_backend_scheme \<Rightarrow> App \<Rightarrow> Data \<Rightarrow> bool" where
  "data_ok B app d \<longleftrightarrow> (case app of
      NilApp \<Rightarrow> False
    | NoApp \<Rightarrow> d = NoData
    | PaymentApp _ \<Rightarrow> d = NoData
    | MockApp _ \<Rightarrow> (\<exists>o'. d = MockOp o')
    | UserApp a \<Rightarrow> (\<exists>b. d = UserData b \<and> roundtrips (OK b) (ua_DecodeData (cb_userApp B a)) d))"

definition state_ok ::
    "'m channel_backend_scheme \<Rightarrow> (address \<Rightarrow> bool) \<Rightarrow> (asset \<Rightarrow> bool) \<Rightarrow> State \<Rightarrow> bool" where
  "state_ok B wf_addr wf_asset s \<longleftrightarrow> length (st_ID s) = 32 \<and> alloc_ok wf_asset (st_Alloc s) \<and>
     app_ok B wf_addr (st_App s) \<and> data_ok B (st_App s) (st_Data s)"

definition params_ok :: "'m channel_backend_scheme \<Rightarrow> (address \<Rightarrow> bool) \<Rightarrow> Params \<Rightarrow> bool" where
  "params_ok B wf_addr p \<longleftrightarrow> list_all wf_addr (p_Parts p) \<and> app_ok B wf_addr (p_App p) \<and>
     ValidateParameters B (p_ChallengeDuration p) (length (p_Parts p)) (p_App p) (p_Nonce p) = OK () \<and>
     (\<forall>n. p_Nonce p = Some n \<longrightarrow> 0 \<le> n) \<and>
     cb_CalcID B (p\<lparr>p_id := Zero\<rparr>) = OK (p_id p)"

definition tx_ok ::
    "'m channel_backend_scheme \<Rightarrow> (address \<Rightarrow> bool) \<Rightarrow> (bytes \<Rightarrow> bool) \<Rightarrow> (asset \<Rightarrow> bool) \<Rightarrow> Transaction \<Rightarrow> bool" where
  "tx_ok B wf_addr wf_sig wf_asset t \<longleftrightarrow> (case tx_State t of
      None \<Rightarrow> tx_Sigs t = []
    | Some s \<Rightarrow> state_ok B wf_addr wf_asset s \<and> list_all (opt_ok wf_sig) (tx_Sigs t) \<and>
               int (length (tx_Sigs t)) = NumParts (st_Alloc s))"

lemma rt_decArg_enc:
  "roundtrips e d x \<Longrightarrow> roundtrips (encArg (VEncoder (Some e))) (decArg d) x"
  by (intro rt_encArg rt_encoder)

lemma rt_data:
  assumes "data_ok B app d"
  shows "roundtrips (encArg (VEncoder (data_encoder d))) (app_DecodeData B app) d"
proof (cases app)
  case (MockApp a)
  with assms obtain o' where d: "d = MockOp o'"
    by (auto simp: data_ok_def)
  have "roundtrips (MockOp_Encode o') MockOp_Decode o'"
    unfolding MockOp_Encode_def MockOp_Decode_def by (rule rt_Encode_single rt_encArg rt_uint64)+
  then have "roundtrips (MockOp_Encode o') (app_DecodeData B app) d"
    unfolding app_DecodeData_def MockApp d by (auto intro: roundtrips_bind_last simp: returnD_def)
  then show ?thesis
    unfolding encArg_def d by (simp add: data_encoder_def Encode_value_def roundtrips_with_msg)
next
  case (UserApp a)
  with assms obtain b where "d = UserData b" "roundtrips (OK b) (ua_DecodeData (cb_userApp B a)) d"
    by (auto simp: data_ok_def)
  with UserApp show ?thesis
    by (simp add: encArg_def data_encoder_def Encode_value_def app_DecodeData_def)
qed (use assms in \<open>auto simp: data_ok_def encArg_def data_encoder_def Encode_value_def
      app_DecodeData_def intro: roundtrips_return\<close>)

locale channel_codec = asset_codec B wf_addr wf_sig wf_asset
  for B :: "'m channel_backend_scheme" and wf_addr :: "address \<Rightarrow> bool"
    and wf_sig :: "bytes \<Rightarrow> bool" and wf_asset :: "asset \<Rightarrow> bool"
begin

lemma OptApp_rt:
  assumes "app_ok B wf_addr app"
  shows "roundtrips (OptAppEnc_Encode B app) (OptAppDec_Decode B) app"
proof (cases "app = NoApp")
  case True
  then show ?thesis
    unfolding OptAppEnc_Encode_def OptAppDec_Decode_def IsNoApp_def
    by (auto intro!: rt_Encode_Cons [OF rt_encArg [OF rt_bool]] rt_Encode_Nil)
next
  case False
  with assms obtain d where d: "app_Def app = OK d" "wf_addr d"
    "Resolve B (cb_registry B) (Some d) = OK app"
    by (auto simp: app_ok_def)
  have noapp: "\<not> IsNoApp app"
    using False by (cases app) (simp_all add: IsNoApp_def)
  have "roundtrips (Encode [VEncoder (Some (wb_EncodeAddress B d))])
      (msgD ''decode app address'' (wb_DecodeAddress B)) d"
    using address_rt [OF d(2)]
    by (auto simp: Encode_def encArg_def Encode_value_def roundtrips_def catE_def msgD_def)
  then have "roundtrips (Encode [VEncoder (Some (wb_EncodeAddress B d))])
      (bindD (msgD ''decode app address'' (wb_DecodeAddress B)) (\<lambda>appDef.
        (\<lambda>r. bindR (with_msg ''resolve app'' (Resolve B (cb_registry B) (Some appDef)))
              (\<lambda>app. OK (app, r))))) app"
    by (rule roundtrips_bind_last) (simp add: d)
  with noapp d show ?thesis
    unfolding OptAppEnc_Encode_def OptAppDec_Decode_def
    by (auto intro!: rt_Encode_Cons [OF rt_encArg [OF rt_bool]])
qed

lemma State_rt:
  assumes "state_ok B wf_addr wf_asset s"
  shows "roundtrips (State_Encode B s) (State_Decode B) s"
proof -
  let ?vs = "[VBytes32 (st_ID s), VUint64 (st_Version s),
              VEncoder (Some (Allocation_Encode (st_Alloc s))), VBool (st_IsFinal s),
              VEncoder (Some (OptAppEnc_Encode B (st_App s)))]"
  have ok: "length (st_ID s) = 32" "alloc_ok wf_asset (st_Alloc s)" "app_ok B wf_addr (st_App s)"
    "data_ok B (st_App s) (st_Data s)"
    using assms by (simp_all add: state_ok_def)
  have head: "roundtrips (Encode ?vs) (msgD ''id or version decode''
       (bindD (decArg decBytes32) (\<lambda>i. bindD (decArg decUint64) (\<lambda>v.
        bindD (decArg (Allocation_Decode B)) (\<lambda>a. bindD (decArg decBool) (\<lambda>f.
        bindD (decArg (OptAppDec_Decode B)) (\<lambda>app. returnD (i, v, a, f, app))))))))
      (st_ID s, st_Version s, st_Alloc s, st_IsFinal s, st_App s)"
    by (rule codec_intros ok Allocation_rt OptApp_rt)+
  have "roundtrips (Encode [VEncoder (data_encoder (st_Data s))])
      (msgD ''app decode data'' (app_DecodeData B (st_App s))) (st_Data s)"
    by (intro roundtrips_msgD rt_Encode_single rt_data ok)
  then have "roundtrips (Encode [VEncoder (data_encoder (st_Data s))])
      (bindD (msgD ''app decode data'' (app_DecodeData B (st_App s))) (\<lambda>d.
        returnD \<lparr>st_ID = st_ID s, st_Version = st_Version s, st_App = st_App s,
          st_Alloc = st_Alloc s, st_Data = d, st_IsFinal = st_IsFinal s\<rparr>)) s"
    by (rule roundtrips_bind_last) (simp add: returnD_def)
  then have "roundtrips (catE (Encode ?vs) (Encode [VEncoder (data_encoder (st_Data s))])) (State_Decode B) s"
    unfolding State_Decode_def by (intro roundtrips_bind [OF head]) simp
  then show ?thesis
    unfolding State_Encode_def Encode_append [symmetric] by (intro roundtrips_with_msg) simp
qed

lemma Params_rt:
  assumes "params_ok B wf_addr p"
  shows "roundtrips (Params_Encode B p) (Params_Decode B) p"
proof -
  have ok: "list_all wf_addr (p_Parts p)" "app_ok B wf_addr (p_App p)"
    and val: "ValidateParameters B (p_ChallengeDuration p) (length (p_Parts p)) (p_App p) (p_Nonce p) = OK ()"
    and calc: "cb_CalcID B (p\<lparr>p_id := Zero\<rparr>) = OK (p_id p)"
    using assms by (simp_all add: params_ok_def)
  from val obtain n where n: "p_Nonce p = Some n" "length (be_bytes (nat (abs n))) \<le> 32"
    by (auto simp: ValidateParameters_def res_simps MaxNonceLen_def split: option.splits)
  have "0 \<le> n"
    using assms n by (simp add: params_ok_def)
  moreover have "n < 256 ^ 32"
    using n(2) \<open>0 \<le> n\<close> by (simp add: length_be_bytes_le nat_less_iff)
  then have "n < 256 ^ 128"
    by (rule less_le_trans) simp
  ultimately have nonce: "0 \<le> n" "n < 256 ^ 128"
    by simp_all
  have len: "length (p_Parts p) < 2 ^ 16"
    using val by (auto simp: ValidateParameters_def ValidateProposalParameters_def res_simps max_defs
        split: if_splits)
  have "NewParams B (p_ChallengeDuration p) (p_Parts p) (p_App p) (Some n) (p_LedgerChannel p)
      (p_VirtualChannel p) = OK p"
    using val calc n by (cases p) (simp add: NewParams_def NewParamsUnsafe_def)
  then have new: "roundtrips (Encode []) (\<lambda>r. bindR (NewParams B (p_ChallengeDuration p) (p_Parts p)
      (p_App p) (Some n) (p_LedgerChannel p) (p_VirtualChannel p)) (\<lambda>p. OK (p, r))) p"
    by (simp add: Encode_def roundtrips_def)
  show ?thesis
    unfolding Params_Encode_def Params_Decode_def n
    by (rule new codec_intros AddressesWithLen_rt OptApp_rt nonce ok len)+
qed

lemma Transaction_rt:
  assumes "tx_ok B wf_addr wf_sig wf_asset t"
  shows "roundtrips (Transaction_Encode B t) (Transaction_Decode B) t"
proof (cases "tx_State t")
  case None
  with assms have t: "t = zeroTransaction"
    by (simp add: tx_ok_def zeroTransaction_def)
  have "roundtrips (Encode [VUint8 0]) (bindD (msgD ''decoding stateSet bit'' (decArg decUint8)) f) t"
    if "f 0 = returnD t" for f
    using that by (intro rt_Encode_Cons [OF roundtrips_msgD [OF rt_encArg [OF rt_uint8]]])
      (simp add: rt_Encode_Nil)
  then show ?thesis
    unfolding Transaction_Encode_def Transaction_Decode_def by (simp add: t zeroTransaction_def)
next
  case (Some s)
  let ?n = "nat (NumParts (st_Alloc s))"
  have ok: "state_ok B wf_addr wf_asset s" "list_all (opt_ok wf_sig) (tx_Sigs t)"
    "length (tx_Sigs t) = ?n" "\<not> NumParts (st_Alloc s) < 0"
    using assms Some by (auto simp: tx_ok_def)
  have sigs: "roundtrips (EncodeSparseSigs (tx_Sigs t)) (DecodeSparseSigs B ?n) (tx_Sigs t)"
    using SparseSigs_rt [OF ok(2)] ok(3) by simp
  have st: "roundtrips (Encode [VEncoder (Some (State_Encode B s))])
      (msgD ''decoding state'' (decArg (State_Decode B))) s"
    by (intro roundtrips_msgD rt_Encode_single rt_decArg_enc State_rt ok)
  let ?rest = "\<lambda>s. bindD (checkD (panic_if (NumParts (st_Alloc s) < 0) ''makeslice: len out of range'')) (\<lambda>_.
       bindD (DecodeSparseSigs B (nat (NumParts (st_Alloc s)))) (\<lambda>sigs.
       returnD \<lparr>tx_State = Some s, tx_Sigs = sigs\<rparr>))"
  have eta: "\<lparr>tx_State = Some s, tx_Sigs = tx_Sigs t\<rparr> = t"
    using Some by (metis (full_types) Transaction.surjective old.unit.exhaust)
  have "roundtrips (EncodeSparseSigs (tx_Sigs t)) (?rest s) t"
    using ok(4) eta
    by (intro roundtrips_checkD roundtrips_bind_last [OF sigs]) (simp_all add: returnD_def)
  with st have "roundtrips (catE (Encode [VEncoder (Some (State_Encode B s))]) (EncodeSparseSigs (tx_Sigs t)))
      (bindD (msgD ''decoding state'' (decArg (State_Decode B))) ?rest) t"
    by (rule roundtrips_bind)
  moreover have "roundtrips (Encode [VUint8 1]) (msgD ''decoding stateSet bit'' (decArg decUint8)) 1"
    by (rule codec_intros rt_Encode_single)+
  ultimately have "roundtrips (catE (Encode [VUint8 1])
      (catE (Encode [VEncoder (Some (State_Encode B s))]) (EncodeSparseSigs (tx_Sigs t)))) (Transaction_Decode B) t"
    unfolding Transaction_Decode_def by (auto intro: roundtrips_bind)
  moreover have "catE (with_msg m (Encode [VUint8 1, VEncoder (Some (State_Encode B s))])) e = OK bs \<longleftrightarrow>
      catE (Encode [VUint8 1]) (catE (Encode [VEncoder (Some (State_Encode B s))]) e) = OK bs" for m e bs
    using Encode_append [of "[VUint8 1]" "[VEncoder (Some (State_Encode B s))]"]
    by (auto simp: catE_OK_iff)
  ultimately show ?thesis
    using Some by (simp add: Transaction_Encode_def roundtrips_def)
qed

lemma Params_Clone_id:
  assumes "list_all wf_addr (p_Parts p)" "p_Nonce p \<noteq> None"
  shows "Params_Clone B p = OK p"
proof -
  have "clonePart B v = OK v" if "wf_addr v" for v
  proof -
    from address_rt [OF that] obtain bs where
      "wb_EncodeAddress B v = OK bs" and d: "\<And>rest. wb_DecodeAddress B (bs @ rest) = OK (v, rest)"
      by (auto simp: roundtrips_def)
    moreover from d [of "[]"] have "wb_DecodeAddress B bs = OK (v, [])"
      by simp
    ultimately show ?thesis
      by (simp add: clonePart_def)
  qed
  with assms(1) have "mapR (clonePart B) (p_Parts p) = OK (map (\<lambda>v. v) (p_Parts p))"
    by (intro mapR_total) (simp add: list_all_iff)
  with assms(2) show ?thesis
    by (auto simp: Params_Clone_def)
qed

end

sublocale channel_codec \<subseteq> state_codec: serializer "State_Encode B" "State_Decode B" "state_ok B wf_addr wf_asset"
  by unfold_locales (rule State_rt)

sublocale channel_codec \<subseteq> params_codec: serializer "Params_Encode B" "Params_Decode B" "params_ok B wf_addr"
  by unfold_locales (rule Params_rt)

sublocale channel_codec \<subseteq> tx_codec: serializer "Transaction_Encode B" "Transaction_Decode B"
  "tx_ok B wf_addr wf_sig wf_asset"
  by unfold_locales (rule Transaction_rt)

context channel_codec
begin

lemmas State_prefix_free = state_codec.enc_prefix_free
lemmas Transaction_prefix_free = tx_codec.enc_prefix_free
lemmas Params_prefix_free = params_codec.enc_prefix_free

end

end
