(* ===== verification/Perun_Machine.thy ===== *)
theory Perun_Machine
  imports Perun_Channel
begin

text \<open>
  The channel machines: the pushdown automaton of \<open>channel/machine.go\<close> and the two machines built
  on it, \<open>channel/statemachine.go\<close> and \<open>channel/actionmachine.go\<close>, with the application-specific
  checks of \<open>apps/payment\<close>, \<open>noapp.go\<close> and \<open>mock_app.go\<close>.

  The struct \<open>machine\<close> is a record; the machines that embed it are extensions of that record, so
  that the operations of the embedded machine apply to them as in the source.  An operation that
  fails leaves the machine unchanged, so an operation is a function to \<open>'m machine_scheme res\<close>.

  The lemmas of this theory give the exact conditions under which each operation succeeds and the
  state it produces.  The theory of reachable machines builds on them.
\<close>

section \<open>Data\<close>

record machine =
  m_phase :: Phase
  m_acc :: account
  m_idx :: Index
  m_params :: Params
  m_stagingTX :: Transaction
  m_currentTX :: Transaction
  m_prevTXs :: "Transaction list"

record StateMachine = machine +
  sm_app :: App

record ActionMachine = machine +
  am_app :: App
  am_stagingActions :: "Action list"

text \<open>A \<open>Source\<close> of channel data, from which machines are restored.\<close>

record Source =
  src_Idx :: Index
  src_Params :: Params
  src_StagingTX :: Transaction
  src_CurrentTX :: Transaction
  src_Phase :: Phase

record AdjudicatorReq =
  ar_Params :: Params
  ar_Acc :: account
  ar_Tx :: Transaction
  ar_Idx :: Index
  ar_Secondary :: bool

definition signingPhases :: "Phase list" where
  "signingPhases = [InitSigning, Signing, Progressing]"

definition actionPhases :: "Phase list" where
  "actionPhases = [InitActing, Acting]"

definition validPhaseTransitions :: "(Phase \<times> Phase) list" where
  "validPhaseTransitions =
     [(InitActing, InitSigning), (InitSigning, Funding), (Funding, Acting), (Acting, Signing),
      (Signing, Acting), (Signing, Final),
      (Funding, Registering), (Acting, Registering), (Signing, Registering), (Final, Registering),
      (Funding, Registered), (Acting, Registered), (Signing, Registered), (Final, Registered),
      (Registering, Registered), (Registered, Withdrawing), (Registered, Progressed),
      (Progressing, Progressed), (Progressed, Withdrawing), (Withdrawing, Withdrawn)]"

definition Phase_Encode :: "Phase \<Rightarrow> bytes res" where
  "Phase_Encode p = Encode [VUint8 (of_nat (phase_num p))]"

definition Phase_Decode :: "Phase decoder" where
  "Phase_Decode = bindD (decArg decUint8) (\<lambda>b. returnD (phase_of_num (unat b)))"

primrec inPhase :: "Phase \<Rightarrow> Phase list \<Rightarrow> bool" where
  "inPhase phase [] = False"
| "inPhase phase (p # ps) = (if p = phase then True else inPhase phase ps)"

section \<open>The machine\<close>

definition newMachine :: "account \<Rightarrow> Params \<Rightarrow> machine res" where
  "newMachine acc params =
     (let idx = IndexOfAddr (p_Parts params) acc in
      if idx < 0 then Err (ErrNew ''account not part of participant set'')
      else OK \<lparr>m_phase = InitActing, m_acc = acc, m_idx = of_int idx, m_params = params,
               m_stagingTX = zeroTransaction, m_currentTX = zeroTransaction, m_prevTXs = []\<rparr>)"

definition restoreMachine :: "account \<Rightarrow> Source \<Rightarrow> machine res" where
  "restoreMachine acc source =
     bindR (newMachine acc (src_Params source)) (\<lambda>m.
     OK (m\<lparr>m_phase := src_Phase source, m_stagingTX := src_StagingTX source,
           m_currentTX := src_CurrentTX source\<rparr>))"

definition machine_ID :: "'m machine_scheme \<Rightarrow> ID" where
  "machine_ID m = p_id (m_params m)"

definition machine_N :: "'m machine_scheme \<Rightarrow> Index" where
  "machine_N m = of_nat (length (p_Parts (m_params m)))"

definition setPhase :: "'m machine_scheme \<Rightarrow> Phase \<Rightarrow> 'm machine_scheme" where
  "setPhase m p = m\<lparr>m_phase := p\<rparr>"

definition selfTransition :: "'m machine_scheme \<Rightarrow> Phase \<times> Phase" where
  "selfTransition m = (m_phase m, m_phase m)"

definition phaseErrorf :: "'m machine_scheme \<Rightarrow> Phase \<times> Phase \<Rightarrow> string \<Rightarrow> goerr" where
  "phaseErrorf m expected fmt = newPhaseTransitionErrorf (p_id (m_params m)) (m_phase m) expected fmt"

definition expect :: "'m machine_scheme \<Rightarrow> Phase \<times> Phase \<Rightarrow> unit res" where
  "expect m tr =
     (if m_phase m \<noteq> fst tr then Err (phaseErrorf m tr ''not in correct phase'')
      else if (m_phase m, snd tr) \<notin> set validPhaseTransitions
      then Err (phaseErrorf m tr ''forbidden phase transition'')
      else OK ())"

definition newTransaction :: "'m machine_scheme \<Rightarrow> State option \<Rightarrow> Transaction" where
  "newTransaction m s = \<lparr>tx_State = s, tx_Sigs = replicate (unat (machine_N m)) None\<rparr>"

definition addTx :: "'m machine_scheme \<Rightarrow> Transaction \<Rightarrow> 'm machine_scheme" where
  "addTx m tx = m\<lparr>m_prevTXs := m_prevTXs m @ [m_currentTX m], m_currentTX := tx,
                  m_stagingTX := zeroTransaction\<rparr>"

definition forceState :: "'m machine_scheme \<Rightarrow> Phase \<Rightarrow> State option \<Rightarrow> 'm machine_scheme" where
  "forceState m p s = (let m' = setPhase m p in addTx m' (newTransaction m' s))"

definition Sig :: "'b channel_backend_scheme \<Rightarrow> 'm machine_scheme \<Rightarrow> (sig \<times> 'm machine_scheme) res" where
  "Sig B m =
     (if \<not> inPhase (m_phase m) signingPhases
      then Err (phaseErrorf m (selfTransition m) ''can only create own signature in a signing phase'')
      else bindR (index_at (tx_Sigs (m_stagingTX m)) (unat (m_idx m))) (\<lambda>sig.
        if sig = None then
          bindR (deref (tx_State (m_stagingTX m))) (\<lambda>s.
          bindR (cb_Sign B (m_acc m) (m_params m) s) (\<lambda>sig.
          OK (sig, m\<lparr>m_stagingTX := (m_stagingTX m)
                \<lparr>tx_Sigs := (tx_Sigs (m_stagingTX m))[unat (m_idx m) := sig]\<rparr>\<rparr>)))
        else OK (sig, m)))"

definition machine_AdjudicatorReq :: "'m machine_scheme \<Rightarrow> AdjudicatorReq" where
  "machine_AdjudicatorReq m =
     \<lparr>ar_Params = m_params m, ar_Acc = m_acc m, ar_Tx = m_currentTX m, ar_Idx = m_idx m,
      ar_Secondary = False\<rparr>"

definition AddSig ::
    "'b channel_backend_scheme \<Rightarrow> 'm machine_scheme \<Rightarrow> Index \<Rightarrow> sig \<Rightarrow> 'm machine_scheme res" where
  "AddSig B m idx sig =
     (if \<not> inPhase (m_phase m) signingPhases
      then Err (phaseErrorf m (selfTransition m) ''can only add signature in a signing phase'')
      else bindR (index_at (tx_Sigs (m_stagingTX m)) (unat idx)) (\<lambda>old.
        if old \<noteq> None then Err (ErrNew ''signature for idx %d already present (ID: %x)'')
        else bindR (index_at (p_Parts (m_params m)) (unat idx)) (\<lambda>part.
          bindR (deref (tx_State (m_stagingTX m))) (\<lambda>s.
          bindR (cb_Verify B part (m_params m) s sig) (\<lambda>ok.
          if \<not> ok then Err (ErrNew ''invalid signature for idx %d (ID: %x)'')
          else OK (m\<lparr>m_stagingTX := (m_stagingTX m)
                \<lparr>tx_Sigs := (tx_Sigs (m_stagingTX m))[unat idx := sig]\<rparr>\<rparr>))))))"

definition setStaging :: "'m machine_scheme \<Rightarrow> Phase \<Rightarrow> State option \<Rightarrow> 'm machine_scheme" where
  "setStaging m phase state = setPhase (m\<lparr>m_stagingTX := newTransaction m state\<rparr>) phase"

definition DiscardUpdate :: "'m machine_scheme \<Rightarrow> 'm machine_scheme res" where
  "DiscardUpdate m =
     bindR (expect m (Signing, Acting)) (\<lambda>_.
     OK (setPhase (m\<lparr>m_stagingTX := zeroTransaction\<rparr>) Acting))"

definition enableStaged :: "'m machine_scheme \<Rightarrow> Phase \<times> Phase \<Rightarrow> 'm machine_scheme res" where
  "enableStaged m expected =
     bindR (with_msg ''no staging phase'' (expect m expected)) (\<lambda>_.
     bindR (deref (tx_State (m_stagingTX m))) (\<lambda>s.
     bindR (err_if ((snd expected = Final) \<noteq> st_IsFinal s)
       (phaseErrorf m expected ''State.IsFinal and target phase don't match'')) (\<lambda>_.
     bindR (forEach (\<lambda>sig. err_if (sig = None)
       (phaseErrorf m expected ''signature %d missing from staging TX'')) (tx_Sigs (m_stagingTX m))) (\<lambda>_.
     let m' = setPhase m (snd expected) in OK (addTx m' (m_stagingTX m'))))))"

definition EnableInit :: "'m machine_scheme \<Rightarrow> 'm machine_scheme res" where
  "EnableInit m = enableStaged m (InitSigning, Funding)"

definition EnableUpdate :: "'m machine_scheme \<Rightarrow> 'm machine_scheme res" where
  "EnableUpdate m = enableStaged m (Signing, Acting)"

definition EnableFinal :: "'m machine_scheme \<Rightarrow> 'm machine_scheme res" where
  "EnableFinal m = enableStaged m (Signing, Final)"

definition simplePhaseTransition :: "'m machine_scheme \<Rightarrow> Phase \<Rightarrow> Phase \<Rightarrow> 'm machine_scheme res" where
  "simplePhaseTransition m from to =
     bindR (expect m (from, to)) (\<lambda>_. OK (setPhase m to))"

definition SetFunded :: "'m machine_scheme \<Rightarrow> 'm machine_scheme res" where
  "SetFunded m = simplePhaseTransition m Funding Acting"

definition SetRegistering :: "'m machine_scheme \<Rightarrow> 'm machine_scheme res" where
  "SetRegistering m =
     (if m_phase m < Funding
      then Err (phaseErrorf m (selfTransition m) ''can only register after init phases'')
      else OK (setPhase m Registering))"

definition SetRegistered :: "'m machine_scheme \<Rightarrow> 'm machine_scheme res" where
  "SetRegistered m =
     (if m_phase m < Funding
      then Err (phaseErrorf m (selfTransition m) ''can only register after init phases'')
      else OK (setPhase m Registered))"

definition SetProgressing :: "'m machine_scheme \<Rightarrow> State option \<Rightarrow> 'm machine_scheme res" where
  "SetProgressing m state =
     (if \<not> inPhase (m_phase m) [Registered, Progressed]
      then Err (phaseErrorf m (selfTransition m) ''can only progress when registered or progressed'')
      else OK (setStaging m Progressing state))"

text \<open>The argument is the state of the \<open>ProgressedEvent\<close>.\<close>

definition SetProgressed :: "'m machine_scheme \<Rightarrow> State option \<Rightarrow> 'm machine_scheme res" where
  "SetProgressed m e_State = OK (forceState m Progressed e_State)"

definition SetWithdrawing :: "'m machine_scheme \<Rightarrow> 'm machine_scheme res" where
  "SetWithdrawing m =
     (if \<not> inPhase (m_phase m) [Final, Registered, Progressed, Withdrawing]
      then Err (phaseErrorf m (selfTransition m) ''can only withdraw after registering'')
      else OK (setPhase m Withdrawing))"

definition SetWithdrawn :: "'m machine_scheme \<Rightarrow> 'm machine_scheme res" where
  "SetWithdrawn m = simplePhaseTransition m Withdrawing Withdrawn"

definition IsRegistered :: "'m machine_scheme \<Rightarrow> bool" where
  "IsRegistered m \<longleftrightarrow> m_phase m \<ge> Registered"

text \<open>Errors of the sub-checks are turned into a \<open>StateTransitionError\<close> by formatting them.\<close>

primrec as_transition_error :: "ID \<Rightarrow> string \<Rightarrow> 'a res \<Rightarrow> 'a res" where
  "as_transition_error i msg (OK x) = OK x"
| "as_transition_error i msg (Err e) = Err (NewStateTransitionError i msg)"
| "as_transition_error i msg (Panic s) = Panic s"

definition machine_validTransition :: "'m machine_scheme \<Rightarrow> State \<Rightarrow> unit res" where
  "machine_validTransition m to =
     (let i = p_id (m_params m) in
      if st_ID to \<noteq> i then Err (ErrNew ''new state's ID doesn't match'')
      else bindR (as_transition_error i ''new state's App doesn't match: %v''
             (AppShouldEqual (p_App (m_params m)) (st_App to))) (\<lambda>_.
        bindR (deref (tx_State (m_currentTX m))) (\<lambda>cur.
        if st_IsFinal cur then Err (NewStateTransitionError i ''cannot advance final state'')
        else if st_Version cur + 1 \<noteq> st_Version to
        then Err (NewStateTransitionError i ''expected version %d, got version %d'')
        else bindR (as_transition_error i ''invalid allocation: %v'' (Allocation_Valid (st_Alloc to))) (\<lambda>_.
          bindR (as_transition_error i ''allocation: %v''
            (EqualSum (Allocation_Sum (st_Alloc cur)) (Allocation_Sum (st_Alloc to)))) (\<lambda>eq.
          err_if (\<not> eq) (NewStateTransitionError i ''allocations must be preserved''))))))"

definition machine_Clone ::
    "'b channel_backend_scheme \<Rightarrow> 'm machine_scheme \<Rightarrow> 'm machine_scheme res" where
  "machine_Clone B m =
     bindR (mapR Transaction_Clone (m_prevTXs m)) (\<lambda>prevTXs.
     bindR (Params_Clone B (m_params m)) (\<lambda>params.
     bindR (Transaction_Clone (m_stagingTX m)) (\<lambda>stagingTX.
     bindR (Transaction_Clone (m_currentTX m)) (\<lambda>currentTX.
     OK (m\<lparr>m_params := params, m_stagingTX := stagingTX, m_currentTX := currentTX,
           m_prevTXs := prevTXs\<rparr>)))))"

section \<open>Application checks\<close>

definition OpValid :: u64 where "OpValid = 0"
definition OpErr :: u64 where "OpErr = 1"
definition OpTransitionErr :: u64 where "OpTransitionErr = 2"
definition OpActionErr :: u64 where "OpActionErr = 3"
definition OpPanic :: u64 where "OpPanic = 4"

definition execMockOp :: "u64 \<Rightarrow> unit res" where
  "execMockOp o' =
     (if o' = OpErr then Err (ErrNew ''MockOp: runtime error'')
      else if o' = OpTransitionErr then Err (NewStateTransitionError Zero ''MockOp: state transition error'')
      else if o' = OpActionErr then Err (NewActionError Zero ''MockOp: action error'')
      else if o' = OpPanic then Panic ''MockOp: panic''
      else if o' = OpValid then OK ()
      else Panic ''MockOp: unhandled switch case'')"

definition mockOf :: "Data \<Rightarrow> u64 res" where
  "mockOf d = (case d of MockOp o' \<Rightarrow> OK o' | _ \<Rightarrow> Panic ''interface conversion'')"

definition mockOfAction :: "Action \<Rightarrow> u64 res" where
  "mockOfAction a = (case a of MockAction o' \<Rightarrow> OK o' | _ \<Rightarrow> Panic ''interface conversion'')"

definition assertNoData :: "State \<Rightarrow> unit res" where
  "assertNoData s = panic_if (\<not> IsNoData (st_Data s)) ''payment app data must be NoData, is %T''"

definition payment_ValidTransition :: "State \<Rightarrow> State \<Rightarrow> Index \<Rightarrow> unit res" where
  "payment_ValidTransition from to actor =
     bindR (assertNoData to) (\<lambda>_.
     forEach (\<lambda>(i, asset). forEach (\<lambda>(j, bal).
         bindR (index_at (al_Balances (st_Alloc to)) i) (\<lambda>row.
         bindR (index_at row j) (\<lambda>toBal.
         if unat actor = j \<and> bal < toBal
         then Err (ErrNew ''payer[%d] steals asset %d, so %d < %d'')
         else if unat actor \<noteq> j \<and> bal > toBal
         then Err (ErrNew ''payer[%d] reduces participant[%d]'s asset %d'')
         else OK ())))
       (enumerate 0 asset)) (enumerate 0 (al_Balances (st_Alloc from))))"

definition payment_ValidInit :: "State \<Rightarrow> unit res" where
  "payment_ValidInit s = assertNoData s"

definition noApp_ValidInit :: "State \<Rightarrow> unit res" where
  "noApp_ValidInit s = err_if (\<not> IsNoData (st_Data s)) (ErrNew ''State must have NoData, has %T'')"

definition app_ValidTransition ::
    "'b channel_backend_scheme \<Rightarrow> App \<Rightarrow> Params \<Rightarrow> State \<Rightarrow> State \<Rightarrow> Index \<Rightarrow> unit res" where
  "app_ValidTransition B app params from to actor = (case app of
      NilApp \<Rightarrow> Panic ''nil pointer dereference''
    | NoApp \<Rightarrow> OK ()
    | PaymentApp _ \<Rightarrow> payment_ValidTransition from to actor
    | MockApp _ \<Rightarrow> bindR (mockOf (st_Data from)) execMockOp
    | UserApp a \<Rightarrow> ua_ValidTransition (cb_userApp B a) params from to actor)"

definition app_ValidInit :: "'b channel_backend_scheme \<Rightarrow> App \<Rightarrow> Params \<Rightarrow> State \<Rightarrow> unit res" where
  "app_ValidInit B app params s = (case app of
      NilApp \<Rightarrow> Panic ''nil pointer dereference''
    | NoApp \<Rightarrow> noApp_ValidInit s
    | PaymentApp _ \<Rightarrow> payment_ValidInit s
    | MockApp _ \<Rightarrow> bindR (mockOf (st_Data s)) execMockOp
    | UserApp a \<Rightarrow> ua_ValidInit (cb_userApp B a) params s)"

definition app_ValidAction ::
    "'b channel_backend_scheme \<Rightarrow> App \<Rightarrow> Params \<Rightarrow> State option \<Rightarrow> Index \<Rightarrow> Action \<Rightarrow> unit res" where
  "app_ValidAction B app params s part act = (case app of
      MockApp _ \<Rightarrow> bindR (mockOfAction act) execMockOp
    | UserApp a \<Rightarrow> ua_ValidAction (cb_userApp B a) params s part act
    | _ \<Rightarrow> Panic ''nil pointer dereference'')"

definition app_ApplyActions ::
    "'b channel_backend_scheme \<Rightarrow> App \<Rightarrow> Params \<Rightarrow> State option \<Rightarrow> Action list \<Rightarrow> State res" where
  "app_ApplyActions B app params s acts = (case app of
      MockApp _ \<Rightarrow> bindR (State_Clone s) (\<lambda>c. bindR (deref c) (\<lambda>ret.
        let ret' = ret\<lparr>st_Version := st_Version ret + 1\<rparr> in
        bindR (index_at acts 0) (\<lambda>act. bindR (mockOfAction act) (\<lambda>o'. bindR (execMockOp o') (\<lambda>_. OK ret')))))
    | UserApp a \<Rightarrow> ua_ApplyActions (cb_userApp B a) params s acts
    | _ \<Rightarrow> Panic ''nil pointer dereference'')"

definition app_InitState ::
    "'b channel_backend_scheme \<Rightarrow> App \<Rightarrow> Params \<Rightarrow> Action list \<Rightarrow> (Allocation \<times> Data) res" where
  "app_InitState B app params acts = (case app of
      MockApp _ \<Rightarrow> bindR (index_at acts 0) (\<lambda>act. bindR (mockOfAction act) (\<lambda>o'.
        bindR (execMockOp o') (\<lambda>_.
        OK (\<lparr>al_Assets = [], al_Balances = [], al_Locked = []\<rparr>, NilData))))
    | UserApp a \<Rightarrow> ua_InitState (cb_userApp B a) params acts
    | _ \<Rightarrow> Panic ''nil pointer dereference'')"

definition app_DecodeAction :: "'b channel_backend_scheme \<Rightarrow> App \<Rightarrow> Action decoder" where
  "app_DecodeAction B app = (case app of
      MockApp _ \<Rightarrow> bindD MockOp_Decode (\<lambda>o'. returnD (MockAction o'))
    | UserApp a \<Rightarrow> ua_DecodeAction (cb_userApp B a)
    | _ \<Rightarrow> (\<lambda>r. Panic ''nil pointer dereference''))"

section \<open>State machines\<close>

definition NewStateMachine :: "'b channel_backend_scheme \<Rightarrow> account \<Rightarrow> Params \<Rightarrow> StateMachine res" where
  "NewStateMachine B acc params =
     (if \<not> IsStateApp B (p_App params) then Err (ErrNew ''app must be StateApp'')
      else bindR (newMachine acc params) (\<lambda>m.
        OK (machine.extend m (StateMachine.fields (p_App params)))))"

definition RestoreStateMachine :: "'b channel_backend_scheme \<Rightarrow> account \<Rightarrow> Source \<Rightarrow> StateMachine res" where
  "RestoreStateMachine B acc source =
     (if \<not> IsStateApp B (p_App (src_Params source)) then Err (ErrNew ''app must be StateApp'')
      else bindR (restoreMachine acc source) (\<lambda>m.
        OK (machine.extend m (StateMachine.fields (p_App (src_Params source))))))"

definition Init ::
    "'b channel_backend_scheme \<Rightarrow> StateMachine \<Rightarrow> Allocation \<Rightarrow> Data \<Rightarrow> StateMachine res" where
  "Init B m initBals initData =
     bindR (expect m (InitActing, InitSigning)) (\<lambda>_.
     bindR (newState (m_params m) initBals initData) (\<lambda>initState.
     bindR (app_ValidInit B (sm_app m) (m_params m) initState) (\<lambda>_.
     OK (setStaging m InitSigning (Some initState)))))"

definition validTransition ::
    "'b channel_backend_scheme \<Rightarrow> StateMachine \<Rightarrow> State \<Rightarrow> Index \<Rightarrow> unit res" where
  "validTransition B m to actor =
     (if actor \<ge> machine_N m then Err (ErrNew ''actor index is out of range'')
      else bindR (machine_validTransition m to) (\<lambda>_.
        bindR (deref (tx_State (m_currentTX m))) (\<lambda>cur.
        case app_ValidTransition B (sm_app m) (m_params m) cur to actor of
          OK _ \<Rightarrow> OK ()
        | Err e \<Rightarrow> if IsStateTransitionError e then Err e
                   else Err (ErrWithMessage ''runtime error in application's ValidTransition()'' e)
        | Panic s \<Rightarrow> Panic s)))"

definition Update ::
    "'b channel_backend_scheme \<Rightarrow> StateMachine \<Rightarrow> State \<Rightarrow> Index \<Rightarrow> StateMachine res" where
  "Update B m stagingState actor =
     bindR (expect m (Acting, Signing)) (\<lambda>_.
     bindR (validTransition B m stagingState actor) (\<lambda>_.
     OK (setStaging m Signing (Some stagingState))))"

definition ForceUpdate :: "StateMachine \<Rightarrow> State option \<Rightarrow> Index \<Rightarrow> StateMachine res" where
  "ForceUpdate m stagingState actor = OK (setStaging m Signing stagingState)"

definition CheckUpdate ::
    "'b channel_backend_scheme \<Rightarrow> StateMachine \<Rightarrow> State \<Rightarrow> Index \<Rightarrow> sig \<Rightarrow> Index \<Rightarrow> unit res" where
  "CheckUpdate B m state actor sig sigIdx =
     bindR (validTransition B m state actor) (\<lambda>_.
     bindR (index_at (p_Parts (m_params m)) (unat sigIdx)) (\<lambda>part.
     bindR (with_msg ''verifying signature[%d]'' (cb_Verify B part (m_params m) state sig)) (\<lambda>ok.
     err_if (\<not> ok) (ErrNew ''invalid signature[%d]''))))"

definition StateMachine_Clone :: "'b channel_backend_scheme \<Rightarrow> StateMachine \<Rightarrow> StateMachine res" where
  "StateMachine_Clone B m = machine_Clone B m"

section \<open>Action machines\<close>

definition NewActionMachine :: "'b channel_backend_scheme \<Rightarrow> account \<Rightarrow> Params \<Rightarrow> ActionMachine res" where
  "NewActionMachine B acc params =
     (if \<not> IsActionApp B (p_App params) then Err (ErrNew ''app must be ActionApp'')
      else bindR (newMachine acc params) (\<lambda>m.
        OK (machine.extend m (ActionMachine.fields (p_App params)
              (replicate (unat (machine_N m)) NilAction)))))"

definition AddAction ::
    "'b channel_backend_scheme \<Rightarrow> ActionMachine \<Rightarrow> Index \<Rightarrow> Action \<Rightarrow> ActionMachine res" where
  "AddAction B m idx a =
     (if \<not> inPhase (m_phase m) actionPhases
      then Err (phaseErrorf m (selfTransition m) ''can only set action in an action phase'')
      else bindR (index_at (am_stagingActions m) (unat idx)) (\<lambda>old.
        if old \<noteq> NilAction then Err (ErrNew ''action for idx %d already set (ID: %x)'')
        else case app_ValidAction B (am_app m) (m_params m) (tx_State (m_currentTX m)) idx a of
            OK _ \<Rightarrow> OK (m\<lparr>am_stagingActions := (am_stagingActions m)[unat idx := a]\<rparr>)
          | Err e \<Rightarrow> if IsActionError e then Err e
                     else Err (ErrWithMessage ''runtime error in application's ValidAction() (ID: %x)'' e)
          | Panic s \<Rightarrow> Panic s))"

definition action_setStaging :: "ActionMachine \<Rightarrow> Phase \<Rightarrow> State option \<Rightarrow> ActionMachine" where
  "action_setStaging m phase state =
     setStaging (m\<lparr>am_stagingActions := replicate (unat (machine_N m)) NilAction\<rparr>) phase state"

definition action_Init :: "'b channel_backend_scheme \<Rightarrow> ActionMachine \<Rightarrow> ActionMachine res" where
  "action_Init B m =
     bindR (expect m (InitActing, InitSigning)) (\<lambda>_.
     bindR (app_InitState B (am_app m) (m_params m) (am_stagingActions m)) (\<lambda>(initBals, initData).
     bindR (newState (m_params m) initBals initData) (\<lambda>initState.
     OK (action_setStaging m InitSigning (Some initState)))))"

definition action_Update :: "'b channel_backend_scheme \<Rightarrow> ActionMachine \<Rightarrow> ActionMachine res" where
  "action_Update B m =
     bindR (expect m (Acting, Signing)) (\<lambda>_.
     bindR (app_ApplyActions B (am_app m) (m_params m) (tx_State (m_currentTX m)) (am_stagingActions m)) (\<lambda>s.
     OK (action_setStaging m Signing (Some s))))"

definition action_Encode :: "Action \<Rightarrow> bytes res" where
  "action_Encode a = (case a of
      NilAction \<Rightarrow> Panic ''nil pointer dereference''
    | MockAction o' \<Rightarrow> MockOp_Encode o'
    | UserAction b \<Rightarrow> OK b)"

definition cloneAction :: "'b channel_backend_scheme \<Rightarrow> App \<Rightarrow> Action \<Rightarrow> Action res" where
  "cloneAction B app a = (case action_Encode a of
      OK buff \<Rightarrow> (case app_DecodeAction B app buff of
          OK (c, _) \<Rightarrow> OK c
        | Err _ \<Rightarrow> Panic ''App could not decode Action: %v''
        | Panic s \<Rightarrow> Panic s)
    | Err _ \<Rightarrow> Panic ''Could not encode action: %v''
    | Panic s \<Rightarrow> Panic s)"

definition ActionMachine_Clone :: "'b channel_backend_scheme \<Rightarrow> ActionMachine \<Rightarrow> ActionMachine res" where
  "ActionMachine_Clone B m =
     bindR (foldR (\<lambda>(i, action) clonedActions.
         if action \<noteq> NilAction then
           bindR (cloneAction B (am_app m) action) (\<lambda>c.
           if i < length clonedActions then OK (clonedActions[i := c])
           else Panic ''index out of range'')
         else OK clonedActions)
       (enumerate 0 (am_stagingActions m)) (replicate (unat (machine_N m)) NilAction)) (\<lambda>acts.
     bindR (machine_Clone B m) (\<lambda>c. OK (c\<lparr>am_stagingActions := acts\<rparr>)))"

section \<open>Success of the operations\<close>

lemma inPhase_iff [simp]: "inPhase p ps \<longleftrightarrow> p \<in> set ps"
  by (induction ps) auto

lemma phase_less_Funding: "p < Funding \<longleftrightarrow> p = InitActing \<or> p = InitSigning"
  by (cases p) (simp_all add: less_Phase_def)

lemma Funding_le: "Funding \<le> p \<longleftrightarrow> p \<noteq> InitActing \<and> p \<noteq> InitSigning"
  by (cases p) (simp_all add: less_eq_Phase_def)

lemma expect_OK_iff:
  "expect m tr = OK u \<longleftrightarrow> m_phase m = fst tr \<and> tr \<in> set validPhaseTransitions"
  by (cases tr) (auto simp: expect_def)

lemma expect_not_Panic [simp]: "expect m tr \<noteq> Panic s"
  by (simp add: expect_def)

lemma Phase_rt: "phase_num p < 256 \<Longrightarrow> roundtrips (Phase_Encode p) Phase_Decode p"
  unfolding Phase_Encode_def Phase_Decode_def
  by (rule roundtrips_bind_last [where x = "of_nat (phase_num p)"])
    (simp_all add: rt_Encode_single rt_encArg rt_uint8 returnD_def)

lemma newMachine_OK_iff:
  "newMachine acc p = OK m \<longleftrightarrow> acc \<in> set (p_Parts p) \<and>
     m = \<lparr>m_phase = InitActing, m_acc = acc, m_idx = of_int (IndexOfAddr (p_Parts p) acc), m_params = p,
          m_stagingTX = zeroTransaction, m_currentTX = zeroTransaction, m_prevTXs = []\<rparr>"
  using IndexOfAddr_nonneg_iff [of "p_Parts p" acc] by (auto simp: newMachine_def Let_def not_le)

lemma NewStateMachine_OK_iff:
  "NewStateMachine B acc p = OK m \<longleftrightarrow> IsStateApp B (p_App p) \<and> acc \<in> set (p_Parts p) \<and>
     m = \<lparr>m_phase = InitActing, m_acc = acc, m_idx = of_int (IndexOfAddr (p_Parts p) acc), m_params = p,
          m_stagingTX = zeroTransaction, m_currentTX = zeroTransaction, m_prevTXs = [], sm_app = p_App p\<rparr>"
  by (auto simp: NewStateMachine_def res_simps newMachine_OK_iff machine.defs StateMachine.defs)

lemma RestoreStateMachine_OK_iff:
  "RestoreStateMachine B acc src = OK m \<longleftrightarrow>
     IsStateApp B (p_App (src_Params src)) \<and> acc \<in> set (p_Parts (src_Params src)) \<and>
     m = \<lparr>m_phase = src_Phase src, m_acc = acc,
          m_idx = of_int (IndexOfAddr (p_Parts (src_Params src)) acc), m_params = src_Params src,
          m_stagingTX = src_StagingTX src, m_currentTX = src_CurrentTX src, m_prevTXs = [],
          sm_app = p_App (src_Params src)\<rparr>"
  by (auto simp: RestoreStateMachine_def restoreMachine_def res_simps newMachine_OK_iff machine.defs
      StateMachine.defs)

lemma as_transition_error_OK_iff [simp]: "as_transition_error i msg r = OK x \<longleftrightarrow> r = OK x"
  by (cases r) auto

lemma AddSig_OK_iff:
  "AddSig B m idx sig = OK m' \<longleftrightarrow>
     m_phase m \<in> set signingPhases \<and> unat idx < length (tx_Sigs (m_stagingTX m)) \<and>
     tx_Sigs (m_stagingTX m) ! unat idx = None \<and> unat idx < length (p_Parts (m_params m)) \<and>
     (\<exists>s. tx_State (m_stagingTX m) = Some s \<and>
          cb_Verify B (p_Parts (m_params m) ! unat idx) (m_params m) s sig = OK True) \<and>
     m' = m\<lparr>m_stagingTX := (m_stagingTX m)
            \<lparr>tx_Sigs := (tx_Sigs (m_stagingTX m))[unat idx := sig]\<rparr>\<rparr>"
  by (auto simp: AddSig_def res_simps split: if_splits)

lemma Sig_OK_iff:
  "Sig B m = OK (sig, m') \<longleftrightarrow>
     m_phase m \<in> set signingPhases \<and> unat (m_idx m) < length (tx_Sigs (m_stagingTX m)) \<and>
     (let old = tx_Sigs (m_stagingTX m) ! unat (m_idx m) in
      if old = None
      then (\<exists>s. tx_State (m_stagingTX m) = Some s \<and> cb_Sign B (m_acc m) (m_params m) s = OK sig) \<and>
           m' = m\<lparr>m_stagingTX := (m_stagingTX m)
                \<lparr>tx_Sigs := (tx_Sigs (m_stagingTX m))[unat (m_idx m) := sig]\<rparr>\<rparr>
      else sig = old \<and> m' = m)"
  by (auto simp: Sig_def res_simps Let_def split: if_splits)

lemma enableStaged_OK_iff:
  "enableStaged m tr = OK m' \<longleftrightarrow>
     m_phase m = fst tr \<and> tr \<in> set validPhaseTransitions \<and>
     (\<exists>s. tx_State (m_stagingTX m) = Some s \<and> st_IsFinal s = (snd tr = Final)) \<and>
     None \<notin> set (tx_Sigs (m_stagingTX m)) \<and>
     m' = m\<lparr>m_phase := snd tr, m_prevTXs := m_prevTXs m @ [m_currentTX m],
            m_currentTX := m_stagingTX m, m_stagingTX := zeroTransaction\<rparr>"
proof -
  have "(\<forall>x\<in>set xs. \<not> x = None) \<longleftrightarrow> None \<notin> set xs" for xs :: "sig list"
    by metis
  then show ?thesis
    by (auto simp: enableStaged_def res_simps expect_OK_iff forEach_OK_iff setPhase_def addTx_def Let_def
        simp del: not_None_eq)
qed

lemma machine_validTransition_OK_iff:
  "machine_validTransition m to = OK u \<longleftrightarrow>
     st_ID to = p_id (m_params m) \<and> AppShouldEqual (p_App (m_params m)) (st_App to) = OK () \<and>
     (\<exists>cur. tx_State (m_currentTX m) = Some cur \<and> \<not> st_IsFinal cur \<and>
        st_Version to = st_Version cur + 1 \<and> valid_alloc (st_Alloc to) \<and>
        Allocation_Sum (st_Alloc cur) = Allocation_Sum (st_Alloc to))"
proof -
  have "EqualSum (Allocation_Sum a) (Allocation_Sum b) = OK True \<longleftrightarrow> Allocation_Sum a = Allocation_Sum b"
    if "valid_alloc b" for a b
    using Allocation_Sum_eq [OF valid_alloc_dims [OF that]] by (auto simp: EqualSum_OK_iff)
  then show ?thesis
    by (cases "tx_State (m_currentTX m)")
      (auto simp: machine_validTransition_def Let_def res_simps Allocation_Valid_OK_iff deref_def)
qed

lemma validTransition_OK_iff:
  "validTransition B m to actor = OK u \<longleftrightarrow>
     actor < machine_N m \<and> machine_validTransition m to = OK () \<and>
     (\<exists>cur. tx_State (m_currentTX m) = Some cur \<and>
        app_ValidTransition B (sm_app m) (m_params m) cur to actor = OK ())"
proof (cases "tx_State (m_currentTX m)")
  case (Some cur)
  show ?thesis
    by (cases "app_ValidTransition B (sm_app m) (m_params m) cur to actor")
      (auto simp: validTransition_def res_simps Some not_le split: if_splits)
qed (auto simp: validTransition_def res_simps)

lemma validTransition_valid: "validTransition B m s i = OK u \<Longrightarrow> valid_alloc (st_Alloc s)"
  by (auto simp: validTransition_OK_iff machine_validTransition_OK_iff)

lemma Update_OK_iff:
  "Update B m s actor = OK m' \<longleftrightarrow>
     m_phase m = Acting \<and> validTransition B m s actor = OK () \<and>
     m' = m\<lparr>m_phase := Signing, m_stagingTX := newTransaction m (Some s)\<rparr>"
  by (auto simp: Update_def res_simps expect_OK_iff setStaging_def setPhase_def validPhaseTransitions_def)

lemma Init_OK_iff:
  "Init B m a d = OK m' \<longleftrightarrow>
     m_phase m = InitActing \<and> (\<exists>s. newState (m_params m) a d = OK s \<and>
        app_ValidInit B (sm_app m) (m_params m) s = OK () \<and>
        m' = m\<lparr>m_phase := InitSigning, m_stagingTX := newTransaction m (Some s)\<rparr>)"
  by (auto simp: Init_def res_simps expect_OK_iff setStaging_def setPhase_def validPhaseTransitions_def)

lemma CheckUpdate_OK_iff:
  "CheckUpdate B m s actor sig i = OK u \<longleftrightarrow>
     validTransition B m s actor = OK () \<and> unat i < length (p_Parts (m_params m)) \<and>
     cb_Verify B (p_Parts (m_params m) ! unat i) (m_params m) s sig = OK True"
  by (auto simp: CheckUpdate_def res_simps)

lemma DiscardUpdate_OK_iff:
  "DiscardUpdate m = OK m' \<longleftrightarrow>
     m_phase m = Signing \<and> m' = m\<lparr>m_stagingTX := zeroTransaction, m_phase := Acting\<rparr>"
  by (auto simp: DiscardUpdate_def res_simps expect_OK_iff setPhase_def validPhaseTransitions_def)

lemma set_phase_OK_iffs:
  "SetFunded m = OK m' \<longleftrightarrow> m_phase m = Funding \<and> m' = m\<lparr>m_phase := Acting\<rparr>"
  "SetRegistering m = OK m' \<longleftrightarrow> Funding \<le> m_phase m \<and> m' = m\<lparr>m_phase := Registering\<rparr>"
  "SetRegistered m = OK m' \<longleftrightarrow> Funding \<le> m_phase m \<and> m' = m\<lparr>m_phase := Registered\<rparr>"
  "SetWithdrawing m = OK m' \<longleftrightarrow> m_phase m \<in> {Final, Registered, Progressed, Withdrawing} \<and>
     m' = m\<lparr>m_phase := Withdrawing\<rparr>"
  "SetWithdrawn m = OK m' \<longleftrightarrow> m_phase m = Withdrawing \<and> m' = m\<lparr>m_phase := Withdrawn\<rparr>"
  "SetProgressing m so = OK m' \<longleftrightarrow> m_phase m \<in> {Registered, Progressed} \<and>
     m' = m\<lparr>m_phase := Progressing, m_stagingTX := newTransaction m so\<rparr>"
  by (auto simp: SetFunded_def simplePhaseTransition_def SetRegistering_def SetRegistered_def
      SetWithdrawing_def SetWithdrawn_def SetProgressing_def setStaging_def res_simps expect_OK_iff
      setPhase_def validPhaseTransitions_def not_less)

lemmas machine_OK_iffs = AddSig_OK_iff enableStaged_OK_iff Update_OK_iff Init_OK_iff
  DiscardUpdate_OK_iff set_phase_OK_iffs

section \<open>The payment application\<close>

text \<open>Under what condition a payment transition is accepted: the actor's balances do not grow and
  the other participants' balances do not shrink.\<close>

lemma payment_ValidTransition_OK_iff:
  assumes "same_shape (al_Balances (st_Alloc from)) (al_Balances (st_Alloc to))"
  shows "payment_ValidTransition from to actor = OK u \<longleftrightarrow> st_Data to = NoData \<and>
     (\<forall>i < length (al_Balances (st_Alloc from)). \<forall>j < length (al_Balances (st_Alloc from) ! i).
        let old = al_Balances (st_Alloc from) ! i ! j; new = al_Balances (st_Alloc to) ! i ! j
        in if unat actor = j then new \<le> old else old \<le> new)"
proof -
  let ?f = "al_Balances (st_Alloc from)" and ?t = "al_Balances (st_Alloc to)"
  have len: "length ?t = length ?f" "\<And>i. i < length ?f \<Longrightarrow> length (?t ! i) = length (?f ! i)"
    using assms by (auto simp: same_shape_def list_all2_conv_all_nth)
  have nodata: "assertNoData to = OK u \<longleftrightarrow> st_Data to = NoData" for u
    by (cases "st_Data to") (auto simp: assertNoData_def IsNoData_def)
  have enum: "(\<forall>x\<in>set (enumerate 0 xs). P x) \<longleftrightarrow> (\<forall>i < length xs. P (i, xs ! i))" for xs :: "'x list" and P
    by (auto simp: in_set_enumerate_eq)
  have cell: "bindR (index_at ?t i) (\<lambda>row. bindR (index_at row j) (\<lambda>toBal.
         if unat actor = j \<and> ?f ! i ! j < toBal then Err e
         else if unat actor \<noteq> j \<and> ?f ! i ! j > toBal then Err e' else OK ())) = OK () \<longleftrightarrow>
      (if unat actor = j then ?t ! i ! j \<le> ?f ! i ! j else ?f ! i ! j \<le> ?t ! i ! j)"
    if "i < length ?f" "j < length (?f ! i)" for i j e e'
    using that by (simp add: len not_less)
  show ?thesis
    unfolding payment_ValidTransition_def bindR_OK_iff [of "assertNoData to"] nodata forEach_OK_iff enum
      prod.case Let_def
    by (simp add: cell)
qed

end
