(* ===== verification/Perun_Reach.thy ===== *)
theory Perun_Reach
  imports Perun_Machine
begin

text \<open>
  The state machine as a transition system.  The operations a client performs on a
  \<open>StateMachine\<close> are the labels \<open>sm_op\<close>, \<open>exec_op\<close> is the method call, and \<open>reach\<close> holds of the
  machines obtained from \<open>NewStateMachine\<close> by any sequence of successful calls (a failed call
  leaves the machine as it is).  Two methods are left out because they install a state without
  any check: \<open>ForceUpdate\<close>, and \<open>SetProgressed\<close>, which adopts a state from the blockchain.

  The invariant \<open>machine_inv\<close> describes the machine phase by phase; it is preserved by every
  operation, provided that the backend verifies the signatures it creates (locale
  \<open>signing_backend\<close>).  It yields the safety properties of a channel: from the funding phase on the
  current transaction carries a valid signature of every participant, the accepted states form a
  chain of versions \<open>0, 1, 2, \<dots>\<close> with constant total funds, and only the last can be final.
\<close>

section \<open>Transition system\<close>

datatype sm_op =
    OpInit Allocation Data
  | OpUpdate State Index
  | OpSig
  | OpAddSig Index sig
  | OpDiscardUpdate
  | OpEnableInit
  | OpEnableUpdate
  | OpEnableFinal
  | OpSetFunded
  | OpSetRegistering
  | OpSetRegistered
  | OpSetProgressing "State option"
  | OpSetWithdrawing
  | OpSetWithdrawn

fun exec_op :: "'b channel_backend_scheme \<Rightarrow> StateMachine \<Rightarrow> sm_op \<Rightarrow> StateMachine res" where
  "exec_op B m (OpInit a d) = Init B m a d"
| "exec_op B m (OpUpdate s i) = Update B m s i"
| "exec_op B m OpSig = bindR (Sig B m) (\<lambda>(_, m'). OK m')"
| "exec_op B m (OpAddSig i s) = AddSig B m i s"
| "exec_op B m OpDiscardUpdate = DiscardUpdate m"
| "exec_op B m OpEnableInit = EnableInit m"
| "exec_op B m OpEnableUpdate = EnableUpdate m"
| "exec_op B m OpEnableFinal = EnableFinal m"
| "exec_op B m OpSetFunded = SetFunded m"
| "exec_op B m OpSetRegistering = SetRegistering m"
| "exec_op B m OpSetRegistered = SetRegistered m"
| "exec_op B m (OpSetProgressing s) = SetProgressing m s"
| "exec_op B m OpSetWithdrawing = SetWithdrawing m"
| "exec_op B m OpSetWithdrawn = SetWithdrawn m"

primrec exec_ops :: "'b channel_backend_scheme \<Rightarrow> StateMachine \<Rightarrow> sm_op list \<Rightarrow> StateMachine res" where
  "exec_ops B m [] = OK m"
| "exec_ops B m (x # xs) = bindR (exec_op B m x) (\<lambda>m'. exec_ops B m' xs)"

inductive reach :: "'b channel_backend_scheme \<Rightarrow> account \<Rightarrow> Params \<Rightarrow> StateMachine \<Rightarrow> bool"
  for B acc p where
  new: "NewStateMachine B acc p = OK m \<Longrightarrow> reach B acc p m"
| step: "reach B acc p m \<Longrightarrow> exec_op B m x = OK m' \<Longrightarrow> reach B acc p m'"

lemma reach_exec_ops: "reach B acc p m \<Longrightarrow> exec_ops B m xs = OK m' \<Longrightarrow> reach B acc p m'"
  by (induction xs arbitrary: m) (auto simp: res_simps intro: reach.step)

section \<open>Invariant\<close>

text \<open>A state of the channel, the initial state, and an admissible successor.\<close>

definition chan_state :: "Params \<Rightarrow> State \<Rightarrow> bool" where
  "chan_state p s \<longleftrightarrow> st_ID s = p_id p \<and> valid_alloc (st_Alloc s) \<and>
     (st_App s = p_App p \<or> AppShouldEqual (p_App p) (st_App s) = OK ())"

definition init_state :: "Params \<Rightarrow> State \<Rightarrow> bool" where
  "init_state p s \<longleftrightarrow> chan_state p s \<and> st_Version s = 0 \<and>
     (\<forall>row\<in>set (al_Balances (st_Alloc s)). length row = length (p_Parts p))"

definition succ_state :: "Params \<Rightarrow> State \<Rightarrow> State \<Rightarrow> bool" where
  "succ_state p s s' \<longleftrightarrow> chan_state p s' \<and> \<not> st_IsFinal s \<and> st_Version s' = st_Version s + 1 \<and>
     Allocation_Sum (st_Alloc s') = Allocation_Sum (st_Alloc s)"

definition good_history :: "Params \<Rightarrow> State list \<Rightarrow> bool" where
  "good_history p ss \<longleftrightarrow> ss \<noteq> [] \<and> init_state p (hd ss) \<and> successively (succ_state p) ss"

text \<open>A transaction all of whose signatures that are present verify, and a complete one.\<close>

definition sigs_verify :: "'b channel_backend_scheme \<Rightarrow> Params \<Rightarrow> Transaction \<Rightarrow> State \<Rightarrow> bool" where
  "sigs_verify B p t s \<longleftrightarrow> tx_State t = Some s \<and> length (tx_Sigs t) = length (p_Parts p) \<and>
     (\<forall>i < length (p_Parts p). tx_Sigs t ! i \<noteq> None \<longrightarrow>
        cb_Verify B (p_Parts p ! i) p s (tx_Sigs t ! i) = OK True)"

definition tx_signed :: "'b channel_backend_scheme \<Rightarrow> Params \<Rightarrow> Transaction \<Rightarrow> State \<Rightarrow> bool" where
  "tx_signed B p t s \<longleftrightarrow> tx_State t = Some s \<and> length (tx_Sigs t) = length (p_Parts p) \<and>
     (\<forall>i < length (p_Parts p). tx_Sigs t ! i \<noteq> None \<and>
        cb_Verify B (p_Parts p ! i) p s (tx_Sigs t ! i) = OK True)"

definition running :: "'b channel_backend_scheme \<Rightarrow> Params \<Rightarrow> StateMachine \<Rightarrow> State list \<Rightarrow> bool" where
  "running B p m ss \<longleftrightarrow> good_history p ss \<and>
     (\<exists>txs. m_prevTXs m @ [m_currentTX m] = zeroTransaction # txs \<and> list_all2 (tx_signed B p) txs ss)"

definition phase_inv :: "'b channel_backend_scheme \<Rightarrow> Params \<Rightarrow> StateMachine \<Rightarrow> bool" where
  "phase_inv B p m \<longleftrightarrow> (case m_phase m of
      InitActing \<Rightarrow> m_currentTX m = zeroTransaction \<and> m_prevTXs m = []
    | InitSigning \<Rightarrow> m_currentTX m = zeroTransaction \<and> m_prevTXs m = [] \<and>
        (\<exists>s. sigs_verify B p (m_stagingTX m) s \<and> init_state p s)
    | Signing \<Rightarrow> (\<exists>ss s. running B p m ss \<and> sigs_verify B p (m_stagingTX m) s \<and> succ_state p (last ss) s)
    | Funding \<Rightarrow> (\<exists>ss. running B p m ss \<and> \<not> st_IsFinal (last ss))
    | Acting \<Rightarrow> (\<exists>ss. running B p m ss \<and> \<not> st_IsFinal (last ss))
    | Final \<Rightarrow> (\<exists>ss. running B p m ss \<and> st_IsFinal (last ss))
    | _ \<Rightarrow> (\<exists>ss. running B p m ss))"

definition machine_inv :: "'b channel_backend_scheme \<Rightarrow> account \<Rightarrow> Params \<Rightarrow> StateMachine \<Rightarrow> bool" where
  "machine_inv B acc p m \<longleftrightarrow> m_params m = p \<and> m_acc m = acc \<and> sm_app m = p_App p \<and>
     unat (m_idx m) < length (p_Parts p) \<and> p_Parts p ! unat (m_idx m) = acc \<and> phase_inv B p m"

section \<open>Histories\<close>

lemma good_history_snoc:
  "good_history p ss \<Longrightarrow> succ_state p (last ss) s \<Longrightarrow> good_history p (ss @ [s])"
  by (auto simp: good_history_def successively_append_iff)

lemma good_history_single: "init_state p s \<Longrightarrow> good_history p [s]"
  by (simp add: good_history_def)

lemma good_history_nth_Suc:
  assumes "good_history p ss" "Suc i < length ss"
  shows "succ_state p (ss ! i) (ss ! Suc i)"
  using assms by (auto simp: good_history_def successively_conv_nth)

lemma good_history_version:
  assumes "good_history p ss"
  shows "i < length ss \<Longrightarrow> st_Version (ss ! i) = of_nat i"
proof (induction i)
  case 0
  then show ?case
    using assms by (auto simp: good_history_def init_state_def hd_conv_nth)
next
  case (Suc i)
  then show ?case
    using good_history_nth_Suc [OF assms, of i] by (simp add: succ_state_def)
qed

lemma good_history_sum:
  assumes "good_history p ss"
  shows "i < length ss \<Longrightarrow> Allocation_Sum (st_Alloc (ss ! i)) = Allocation_Sum (st_Alloc (hd ss))"
proof (induction i)
  case 0
  then show ?case
    using assms by (auto simp: good_history_def hd_conv_nth)
next
  case (Suc i)
  then show ?case
    using good_history_nth_Suc [OF assms, of i] by (simp add: succ_state_def)
qed

lemma good_history_chan:
  assumes "good_history p ss" "s \<in> set ss"
  shows "chan_state p s"
proof -
  obtain i where i: "i < length ss" "s = ss ! i"
    using assms(2) by (auto simp: in_set_conv_nth)
  show ?thesis
  proof (cases i)
    case 0
    then show ?thesis
      using assms(1) i by (auto simp: good_history_def init_state_def hd_conv_nth)
  next
    case (Suc j)
    then show ?thesis
      using good_history_nth_Suc [OF assms(1), of j] i by (simp add: succ_state_def)
  qed
qed

lemma good_history_final:
  assumes "good_history p ss" "i < length ss" "st_IsFinal (ss ! i)"
  shows "i = length ss - 1"
proof (rule ccontr)
  assume "i \<noteq> length ss - 1"
  with assms(2) have "Suc i < length ss"
    by simp
  with good_history_nth_Suc [OF assms(1)] assms(3) show False
    by (auto simp: succ_state_def)
qed

section \<open>Preservation\<close>

lemma sigs_verify_complete:
  "sigs_verify B p t s \<Longrightarrow> None \<notin> set (tx_Sigs t) \<Longrightarrow> tx_signed B p t s"
  by (auto simp: sigs_verify_def tx_signed_def in_set_conv_nth)

lemma sigs_verify_new:
  assumes "length (p_Parts (m_params m)) < 2 ^ 16"
  shows "sigs_verify B (m_params m) (newTransaction m (Some s)) s"
  using assms by (simp add: sigs_verify_def newTransaction_def machine_N_def unat_of_nat)

lemma sigs_verify_update:
  assumes "sigs_verify B p t s" "i < length (p_Parts p)"
    "sg \<noteq> None \<Longrightarrow> cb_Verify B (p_Parts p ! i) p s sg = OK True"
  shows "sigs_verify B p (t\<lparr>tx_Sigs := (tx_Sigs t)[i := sg]\<rparr>) s"
  using assms by (auto simp: sigs_verify_def nth_list_update)

lemma running_promote:
  assumes "running B p m ss" "tx_signed B p t s" "succ_state p (last ss) s"
  shows "running B p (m\<lparr>m_phase := ph, m_prevTXs := m_prevTXs m @ [m_currentTX m], m_currentTX := t,
                      m_stagingTX := u\<rparr>) (ss @ [s])"
proof -
  from assms(1) obtain txs where "m_prevTXs m @ [m_currentTX m] = zeroTransaction # txs"
    "list_all2 (tx_signed B p) txs ss" "good_history p ss"
    by (auto simp: running_def)
  with assms(2,3) show ?thesis
    unfolding running_def
    by (intro conjI good_history_snoc exI [of _ "txs @ [t]"]) (auto intro: list_all2_appendI)
qed

lemma running_init:
  assumes "m_prevTXs m = []" "m_currentTX m = zeroTransaction" "tx_signed B p t s" "init_state p s"
  shows "running B p (m\<lparr>m_phase := ph, m_prevTXs := m_prevTXs m @ [m_currentTX m], m_currentTX := t,
                      m_stagingTX := u\<rparr>) [s]"
  using assms unfolding running_def by (auto intro: good_history_single)

lemma running_cong [simp]:
  "running B p (m\<lparr>m_phase := ph\<rparr>) = running B p m"
  "running B p (m\<lparr>m_stagingTX := t\<rparr>) = running B p m"
  by (simp_all add: running_def fun_eq_iff)

lemma phase_inv_running:
  assumes "phase_inv B p m" "Funding \<le> m_phase m"
  shows "\<exists>ss. running B p m ss"
  using assms by (auto simp: phase_inv_def Funding_le split: Phase.splits)

lemma running_last:
  assumes "running B p m ss" "tx_State (m_currentTX m) = Some s"
  shows "last ss = s"
proof -
  from assms(1) obtain txs where txs: "m_prevTXs m @ [m_currentTX m] = zeroTransaction # txs"
    "list_all2 (tx_signed B p) txs ss" "ss \<noteq> []"
    by (auto simp: running_def good_history_def)
  then have "txs \<noteq> []"
    by auto
  with txs(1) have "last txs = m_currentTX m"
    by (metis last.simps last_snoc)
  moreover have "tx_signed B p (last txs) (last ss)"
    using txs(2,3) \<open>txs \<noteq> []\<close>
    by (metis list_all2_conv_all_nth last_conv_nth list_all2_lengthD diff_less length_greater_0_conv zero_less_one)
  ultimately show ?thesis
    using assms(2) by (simp add: tx_signed_def)
qed

locale signing_backend =
  fixes B :: "'b channel_backend_scheme"
  assumes sign_verify: "cb_Sign B a p s = OK sg \<Longrightarrow> valid_alloc (st_Alloc s) \<Longrightarrow> cb_Verify B a p s sg = OK True"
begin

lemma Sig_keeps_verify:
  assumes "machine_inv B acc p m" "Sig B m = OK (sg, m')" "sigs_verify B p (m_stagingTX m) s"
    "valid_alloc (st_Alloc s)"
  shows "sigs_verify B p (m_stagingTX m') s"
proof (cases "tx_Sigs (m_stagingTX m) ! unat (m_idx m) = None")
  case True
  with assms(2) obtain s' where s': "tx_State (m_stagingTX m) = Some s'"
    "cb_Sign B (m_acc m) (m_params m) s' = OK sg"
    "m' = m\<lparr>m_stagingTX := (m_stagingTX m)\<lparr>tx_Sigs := (tx_Sigs (m_stagingTX m))[unat (m_idx m) := sg]\<rparr>\<rparr>"
    by (auto simp: Sig_OK_iff Let_def)
  with assms(3) have "s' = s"
    by (simp add: sigs_verify_def)
  with s' sign_verify [OF s'(2)] assms show ?thesis
    by (auto simp: machine_inv_def intro: sigs_verify_update)
qed (use assms in \<open>auto simp: Sig_OK_iff Let_def\<close>)

lemma Sig_frame:
  assumes "Sig B m = OK (sg, m')"
  shows "m' = m\<lparr>m_stagingTX := m_stagingTX m'\<rparr>" "m_phase m \<in> set signingPhases"
  using assms by (auto simp: Sig_OK_iff Let_def split: if_splits)

lemma AddSig_keeps_verify:
  assumes "machine_inv B acc p m" "AddSig B m i sg = OK m'" "sigs_verify B p (m_stagingTX m) s"
  shows "sigs_verify B p (m_stagingTX m') s"
  using assms by (auto simp: AddSig_OK_iff machine_inv_def sigs_verify_def nth_list_update)

lemma staging_only:
  assumes "machine_inv B acc p m" "m' = m\<lparr>m_stagingTX := m_stagingTX m'\<rparr>"
    "m_phase m \<in> set signingPhases"
    "\<And>s. sigs_verify B p (m_stagingTX m) s \<Longrightarrow> valid_alloc (st_Alloc s) \<Longrightarrow> sigs_verify B p (m_stagingTX m') s"
  shows "machine_inv B acc p m'"
proof -
  obtain t where m': "m' = m\<lparr>m_stagingTX := t\<rparr>"
    using assms(2) by blast
  show ?thesis
    using assms(1,3,4) unfolding m'
    by (fastforce simp: machine_inv_def phase_inv_def signingPhases_def init_state_def succ_state_def chan_state_def)
qed

lemma Init_inv:
  assumes "machine_inv B acc p m" "Init B m a d = OK m'" "length (p_Parts p) < 2 ^ 16"
  shows "machine_inv B acc p m'"
proof -
  from assms(2) obtain s where s: "m_phase m = InitActing" "newState (m_params m) a d = OK s"
    "m' = m\<lparr>m_phase := InitSigning, m_stagingTX := newTransaction m (Some s)\<rparr>"
    by (auto simp: Init_OK_iff)
  have "init_state p s"
    using s(2) assms(1) by (auto simp: newState_OK_iff init_state_def chan_state_def machine_inv_def)
  moreover have "sigs_verify B p (newTransaction m (Some s)) s"
    using sigs_verify_new [of m B s] assms(1,3) by (simp add: machine_inv_def)
  ultimately show ?thesis
    using assms(1) s(1) by (auto simp: s(3) machine_inv_def phase_inv_def)
qed

lemma Update_inv:
  assumes "machine_inv B acc p m" "Update B m s i = OK m'" "length (p_Parts p) < 2 ^ 16"
  shows "machine_inv B acc p m'"
proof -
  from assms(2) obtain cur where u: "m_phase m = Acting" "machine_validTransition m s = OK ()"
    "tx_State (m_currentTX m) = Some cur"
    "m' = m\<lparr>m_phase := Signing, m_stagingTX := newTransaction m (Some s)\<rparr>"
    by (auto simp: Update_OK_iff validTransition_OK_iff)
  from assms(1) u(1) obtain ss where ss: "running B p m ss"
    by (auto simp: machine_inv_def phase_inv_def)
  have "succ_state p cur s"
    using u(2,3) assms(1)
    by (auto simp: machine_validTransition_OK_iff succ_state_def chan_state_def machine_inv_def)
  then have "succ_state p (last ss) s"
    using running_last [OF ss u(3)] by simp
  moreover have "sigs_verify B p (newTransaction m (Some s)) s"
    using sigs_verify_new [of m B s] assms(1,3) by (simp add: machine_inv_def)
  ultimately show ?thesis
    using assms(1) ss by (auto simp: u(4) machine_inv_def phase_inv_def)
qed

lemma enableStaged_inv:
  assumes "machine_inv B acc p m" "enableStaged m tr = OK m'"
    "tr \<in> {(InitSigning, Funding), (Signing, Acting), (Signing, Final)}"
  shows "machine_inv B acc p m'"
proof -
  from assms(2) obtain s where e: "m_phase m = fst tr" "tx_State (m_stagingTX m) = Some s"
    "st_IsFinal s = (snd tr = Final)" "None \<notin> set (tx_Sigs (m_stagingTX m))"
    and m': "m' = m\<lparr>m_phase := snd tr, m_prevTXs := m_prevTXs m @ [m_currentTX m],
            m_currentTX := m_stagingTX m, m_stagingTX := zeroTransaction\<rparr>"
    by (auto simp: enableStaged_OK_iff)
  have signed: "tx_signed B p (m_stagingTX m) s" if "sigs_verify B p (m_stagingTX m) s'" for s'
    using sigs_verify_complete [OF that e(4)] e(2) that by (simp add: sigs_verify_def)
  show ?thesis
  proof (cases "fst tr = InitSigning")
    case True
    with assms(1) e(1,2) have "sigs_verify B p (m_stagingTX m) s" "init_state p s"
      "m_prevTXs m = []" "m_currentTX m = zeroTransaction"
      by (auto simp: machine_inv_def phase_inv_def sigs_verify_def)
    with signed have "running B p m' [s]"
      unfolding m' by (intro running_init) auto
    moreover have "snd tr = Funding"
      using True assms(3) by auto
    ultimately have "\<exists>ss. running B p m' ss \<and> \<not> st_IsFinal (last ss)" "m_phase m' = Funding"
      using e(3) by (auto simp: m' intro!: exI [of _ "[s]"])
    with assms(1) show ?thesis
      by (simp add: machine_inv_def phase_inv_def m')
  next
    case False
    with assms(1,3) e(1,2) obtain ss where "running B p m ss" "sigs_verify B p (m_stagingTX m) s"
      "succ_state p (last ss) s"
      by (auto simp: machine_inv_def phase_inv_def sigs_verify_def)
    with signed have "running B p m' (ss @ [s])"
      unfolding m' by (intro running_promote) auto
    then have "\<exists>ss. running B p m' ss \<and> st_IsFinal (last ss) = (snd tr = Final)"
      using e(3) by (intro exI [of _ "ss @ [s]"]) simp
    moreover have "m_phase m' = Acting \<or> m_phase m' = Final" "m_phase m' = snd tr"
      using False assms(3) by (auto simp: m')
    ultimately have "phase_inv B p m'"
      by (auto simp: phase_inv_def)
    with assms(1) show ?thesis
      by (simp add: machine_inv_def m')
  qed
qed

lemma phase_change_inv:
  assumes "machine_inv B acc p m" "Funding \<le> m_phase m"
    "ph \<in> {Registering, Registered, Withdrawing, Withdrawn}"
  shows "machine_inv B acc p (m\<lparr>m_phase := ph\<rparr>)"
  using assms phase_inv_running [of B p m] by (auto simp: machine_inv_def phase_inv_def)

theorem exec_op_inv:
  assumes inv: "machine_inv B acc p m" and ex: "exec_op B m x = OK m'"
    and len: "length (p_Parts p) < 2 ^ 16"
  shows "machine_inv B acc p m'"
proof (cases x)
  case (OpInit a d)
  with ex show ?thesis by (simp add: Init_inv [OF inv _ len])
next
  case (OpUpdate s i)
  with ex show ?thesis by (simp add: Update_inv [OF inv _ len])
next
  case OpSig
  with ex obtain sg where sig: "Sig B m = OK (sg, m')"
    by (auto simp: res_simps)
  show ?thesis
    using staging_only [OF inv Sig_frame [OF sig]] Sig_keeps_verify [OF inv sig] by blast
next
  case (OpAddSig i s)
  with ex have a: "AddSig B m i s = OK m'"
    by simp
  then have "m' = m\<lparr>m_stagingTX := m_stagingTX m'\<rparr>" "m_phase m \<in> set signingPhases"
    by (auto simp: AddSig_OK_iff)
  then show ?thesis
    using staging_only [OF inv] AddSig_keeps_verify [OF inv a] by blast
next
  case OpDiscardUpdate
  with ex have d: "m_phase m = Signing" "m' = m\<lparr>m_stagingTX := zeroTransaction, m_phase := Acting\<rparr>"
    by (simp_all add: DiscardUpdate_OK_iff)
  with inv show ?thesis
    by (auto simp: machine_inv_def phase_inv_def succ_state_def)
next
  case OpEnableInit
  with ex show ?thesis by (simp add: EnableInit_def enableStaged_inv [OF inv])
next
  case OpEnableUpdate
  with ex show ?thesis by (simp add: EnableUpdate_def enableStaged_inv [OF inv])
next
  case OpEnableFinal
  with ex show ?thesis by (simp add: EnableFinal_def enableStaged_inv [OF inv])
next
  case OpSetFunded
  with ex inv show ?thesis
    by (auto simp: set_phase_OK_iffs machine_inv_def phase_inv_def)
next
  case (OpSetProgressing s)
  with ex have pr: "m_phase m \<in> {Registered, Progressed}"
    "m' = m\<lparr>m_phase := Progressing, m_stagingTX := newTransaction m s\<rparr>"
    by (auto simp: set_phase_OK_iffs)
  with inv show ?thesis
    by (auto simp: machine_inv_def phase_inv_def)
qed (use ex inv phase_change_inv [OF inv] in \<open>auto simp: set_phase_OK_iffs Funding_le\<close>)

theorem reach_inv:
  assumes "reach B acc p m" "length (p_Parts p) < 2 ^ 16"
  shows "machine_inv B acc p m"
  using assms
proof (induction rule: reach.induct)
  case (new m)
  from new(1) have acc: "acc \<in> set (p_Parts p)"
    by (simp add: NewStateMachine_OK_iff)
  obtain i where i: "IndexOfAddr (p_Parts p) acc = int i" "i < length (p_Parts p)" "p_Parts p ! i = acc"
    using IndexOfAddr_first [OF acc] by metis
  moreover have "unat (of_nat i :: u16) = i"
    using i(2) new(2) by (simp add: unat_of_nat)
  ultimately show ?case
    using new(1) by (auto simp: NewStateMachine_OK_iff machine_inv_def phase_inv_def)
next
  case (step m x m')
  then show ?case
    using exec_op_inv by blast
qed

lemma reach_running:
  assumes "reach B acc p m" "length (p_Parts p) < 2 ^ 16" "Funding \<le> m_phase m"
  shows "\<exists>ss. running B p m ss"
  using reach_inv [OF assms(1,2)] assms(3) phase_inv_running by (auto simp: machine_inv_def)

lemma reach_current_signed:
  assumes "reach B acc p m" "length (p_Parts p) < 2 ^ 16" "Funding \<le> m_phase m"
  shows "\<exists>s. tx_signed B p (m_currentTX m) s \<and> chan_state p s"
proof -
  from reach_running [OF assms] obtain ss txs where r: "m_prevTXs m @ [m_currentTX m] = zeroTransaction # txs"
    "list_all2 (tx_signed B p) txs ss" "good_history p ss"
    by (auto simp: running_def)
  from r(2,3) have "txs \<noteq> []"
    by (auto simp: good_history_def)
  with r(1) have "m_currentTX m \<in> set txs"
    by (metis append_butlast_last_id in_set_conv_decomp last.simps last_snoc)
  with r(2) obtain s where "s \<in> set ss" "tx_signed B p (m_currentTX m) s"
    by (metis in_set_conv_nth list_all2_conv_all_nth)
  with good_history_chan [OF r(3)] show ?thesis
    by blast
qed

end

end
