(* ===== verification/Perun_Sim.thy ===== *)
theory Perun_Sim
  imports Perun_Reach
begin

text \<open>
  The simulated blockchain backend \<open>backend/sim\<close>: addresses are points of the curve P-256, encoded
  as two 32-byte coordinates; signatures are the two 32-byte numbers of an ECDSA signature over the
  SHA-256 digest of the encoded state; assets are \<open>int64\<close> numbers.

  The cryptographic primitives of the Go standard library are not executed by the model.  They are
  the type \<open>ecdsa\<close> of signature schemes that satisfy the two documented laws of \<open>crypto/ecdsa\<close> on
  this curve: the numbers of a signature fit in 32 bytes, and a signature made by an account
  verifies under its address.

  The backend is an instance of the contracts of the library (\<open>channel_codec\<close>, \<open>signing_backend\<close>).
  The wallet of \<open>backend/sim/wallet/wallet.go\<close> keeps usage counts of accounts.
\<close>

section \<open>Cryptographic primitives\<close>

record ecdsa_ops =
  ec_sha256 :: "bytes \<Rightarrow> bytes"
  ec_sign :: "account \<Rightarrow> bytes \<Rightarrow> (nat \<times> nat) res"
  ec_verify :: "nat \<times> nat \<Rightarrow> bytes \<Rightarrow> nat \<Rightarrow> nat \<Rightarrow> bool"

text \<open>The coordinates of an address, and the laws.\<close>

definition coords :: "address \<Rightarrow> nat \<times> nat" where
  "coords a = (be_nat (take 32 a), be_nat (drop 32 a))"

definition ecdsa_law :: "ecdsa_ops \<Rightarrow> bool" where
  "ecdsa_law C \<longleftrightarrow> (\<forall>m. length (ec_sha256 C m) = 32) \<and>
     (\<forall>a d r s. ec_sign C a d = OK (r, s) \<longrightarrow>
        r < 256 ^ 32 \<and> s < 256 ^ 32 \<and> ec_verify C (coords a) d r s)"

text \<open>A scheme that satisfies the laws, for use in examples: the digest is a padded prefix of the
  message and a signature names the digest and the signer.\<close>

definition pad_to :: "nat \<Rightarrow> bytes \<Rightarrow> bytes" where
  "pad_to n b = replicate (n - length b) 0 @ b"

definition example_scheme :: ecdsa_ops where
  "example_scheme =
     \<lparr>ec_sha256 = (\<lambda>m. pad_to 32 (take 32 m)),
      ec_sign = (\<lambda>a d. OK (be_nat d mod 256 ^ 32, fst (coords a) mod 256 ^ 32)),
      ec_verify = (\<lambda>pk d r s. r = be_nat d mod 256 ^ 32 \<and> s = fst pk mod 256 ^ 32)\<rparr>"

lemma length_pad_to [simp]: "length (pad_to n b) = max n (length b)"
  by (simp add: pad_to_def)

lemma example_scheme_law: "ecdsa_law example_scheme"
  by (auto simp: ecdsa_law_def example_scheme_def)

typedef ecdsa = "{C. ecdsa_law C}"
  using example_scheme_law by blast

definition sha256 :: "ecdsa \<Rightarrow> bytes \<Rightarrow> bytes" where
  "sha256 C = ec_sha256 (Rep_ecdsa C)"

definition ecdsa_Sign :: "ecdsa \<Rightarrow> account \<Rightarrow> bytes \<Rightarrow> (nat \<times> nat) res" where
  "ecdsa_Sign C = ec_sign (Rep_ecdsa C)"

definition ecdsa_Verify :: "ecdsa \<Rightarrow> nat \<times> nat \<Rightarrow> bytes \<Rightarrow> nat \<Rightarrow> nat \<Rightarrow> bool" where
  "ecdsa_Verify C = ec_verify (Rep_ecdsa C)"

definition example_ecdsa :: ecdsa where
  "example_ecdsa = Abs_ecdsa example_scheme"

lemma Rep_example_ecdsa: "Rep_ecdsa example_ecdsa = example_scheme"
  by (simp add: example_ecdsa_def Abs_ecdsa_inverse example_scheme_law)

lemma sha256_length: "length (sha256 C m) = 32"
  using Rep_ecdsa [of C] by (simp add: sha256_def ecdsa_law_def)

lemma ecdsa_Sign_Verify:
  "ecdsa_Sign C a d = OK (r, s) \<Longrightarrow> r < 256 ^ 32 \<and> s < 256 ^ 32 \<and> ecdsa_Verify C (coords a) d r s"
  using Rep_ecdsa [of C] by (simp add: ecdsa_Sign_def ecdsa_Verify_def ecdsa_law_def)

section \<open>Addresses, accounts and signatures\<close>

text \<open>\<open>copy(data[32-len(xb):32], xb)\<close> left-pads a coordinate; it panics when it does not fit.\<close>

definition coordBytes :: "nat \<Rightarrow> bytes res" where
  "coordBytes x =
     (if length (be_bytes x) > 32 then Panic ''slice bounds out of range'' else OK (pad_to 32 (be_bytes x)))"

definition sim_ByteArray :: "nat \<times> nat \<Rightarrow> bytes res" where
  "sim_ByteArray xy = catE (coordBytes (fst xy)) (coordBytes (snd xy))"

definition sim_EncodeAddress :: "address \<Rightarrow> bytes res" where
  "sim_EncodeAddress a = bindR (sim_ByteArray (coords a)) (\<lambda>data. Encode [VByteSlice data])"

definition sim_Address_Decode :: "(nat \<times> nat) decoder" where
  "sim_Address_Decode =
     bindD (msgD ''decoding address'' (decArg (ByteSlice_Decode 64))) (\<lambda>data.
     returnD (be_nat (take 32 data), be_nat (drop 32 data)))"

definition sim_DecodeAddress :: "address decoder" where
  "sim_DecodeAddress =
     bindD sim_Address_Decode (\<lambda>xy. (\<lambda>r. bindR (sim_ByteArray xy) (\<lambda>a. OK (a, r))))"

definition sim_DecodeSig :: "bytes decoder" where
  "sim_DecodeSig = decArg (ByteSlice_Decode 64)"

text \<open>Both numbers are left-padded to 32 bytes; a longer one makes \<open>make\<close> panic.\<close>

definition serializeSignature :: "nat \<Rightarrow> nat \<Rightarrow> bytes res" where
  "serializeSignature r s =
     (if length (be_bytes r) > 32 \<or> length (be_bytes s) > 32 then Panic ''makeslice: len out of range''
      else OK (pad_to 32 (be_bytes r) @ pad_to 32 (be_bytes s)))"

definition deserializeSignature :: "sig \<Rightarrow> (nat \<times> nat) res" where
  "deserializeSignature sg =
     (let b = (case sg of None \<Rightarrow> [] | Some b \<Rightarrow> b) in
      if length b \<noteq> 64 then Err (ErrNew ''expected %d bytes for a signature but got: %d'')
      else OK (be_nat (take 32 b), be_nat (drop 32 b)))"

definition SignData :: "ecdsa \<Rightarrow> bool \<Rightarrow> account \<Rightarrow> bytes \<Rightarrow> sig res" where
  "SignData C locked acc data =
     (if locked then Err (ErrNew ''account locked'')
      else bindR (with_msg ''account could not sign data'' (ecdsa_Sign C acc (sha256 C data))) (\<lambda>(r, s).
        bindR (serializeSignature r s) (\<lambda>b. OK (Some b))))"

definition sim_VerifySignature :: "ecdsa \<Rightarrow> bytes \<Rightarrow> sig \<Rightarrow> address \<Rightarrow> bool res" where
  "sim_VerifySignature C msg sg a =
     bindR (with_msg ''could not deserialize signature'' (deserializeSignature sg)) (\<lambda>(r, s).
     OK (ecdsa_Verify C (coords a) (sha256 C msg) r s))"

section \<open>The channel backend\<close>

definition Asset_Encode :: "u64 \<Rightarrow> bytes res" where
  "Asset_Encode i = Encode [VInt64 i]"

definition Asset_Decode :: "u64 decoder" where
  "Asset_Decode = decArg decInt64"

definition sim_DecodeAsset :: "asset decoder" where
  "sim_DecodeAsset = bindD Asset_Decode (\<lambda>i. returnD (Some (Asset_Encode i)))"

definition sim_wallet :: "ecdsa \<Rightarrow> wallet_backend" where
  "sim_wallet C = \<lparr>wb_EncodeAddress = sim_EncodeAddress, wb_DecodeAddress = sim_DecodeAddress,
     wb_DecodeSig = sim_DecodeSig, wb_VerifySignature = sim_VerifySignature C\<rparr>"

text \<open>The operations of \<open>backend/sim/channel/backend.go\<close> encode applications and states, for which
  they use the global registry: it is part of the backend they are given.  A failing write to the
  hash makes \<open>CalcID\<close> panic.\<close>

definition sim_CalcID :: "ecdsa \<Rightarrow> 'm channel_backend_scheme \<Rightarrow> Params \<Rightarrow> ID res" where
  "sim_CalcID C B p =
     (case catE (concatE (map (wb_EncodeAddress B) (p_Parts p)))
            (Encode [VBigInt (p_Nonce p), VUint64 (p_ChallengeDuration p),
                     VEncoder (Some (OptAppEnc_Encode B (p_App p))),
                     VBool (p_LedgerChannel p), VBool (p_VirtualChannel p)]) of
        OK w \<Rightarrow> OK (sha256 C w)
      | Err _ \<Rightarrow> Panic ''Could not write to sha256 hasher''
      | Panic s \<Rightarrow> Panic s)"

definition sim_Sign ::
    "ecdsa \<Rightarrow> (account \<Rightarrow> bool) \<Rightarrow> 'm channel_backend_scheme \<Rightarrow> account \<Rightarrow> Params \<Rightarrow> State \<Rightarrow> sig res" where
  "sim_Sign C locked B acc params state =
     bindR (with_msg ''pack state'' (State_Encode B state)) (\<lambda>buff. SignData C (locked acc) acc buff)"

definition sim_Verify ::
    "ecdsa \<Rightarrow> 'm channel_backend_scheme \<Rightarrow> address \<Rightarrow> Params \<Rightarrow> State \<Rightarrow> sig \<Rightarrow> bool res" where
  "sim_Verify C B addr params state sg =
     bindR (with_msg ''verifying invalid state'' (Allocation_Valid (st_Alloc state))) (\<lambda>_.
     bindR (with_msg ''pack state'' (State_Encode B state)) (\<lambda>buff.
     sim_VerifySignature C buff sg addr))"

text \<open>The backend record as the package initialisers set it.  The encoders only use the address
  functions of the record, which are in place before the channel functions are.\<close>

definition sim_base ::
    "ecdsa \<Rightarrow> appReg \<Rightarrow> (address \<Rightarrow> user_app) \<Rightarrow> channel_backend" where
  "sim_base C reg ua = \<lparr>wb_EncodeAddress = sim_EncodeAddress, wb_DecodeAddress = sim_DecodeAddress,
     wb_DecodeSig = sim_DecodeSig, wb_VerifySignature = sim_VerifySignature C,
     ab_DecodeAsset = sim_DecodeAsset,
     cb_CalcID = (\<lambda>_. OK Zero), cb_Sign = (\<lambda>_ _ _. OK None), cb_Verify = (\<lambda>_ _ _ _. OK False),
     cb_registry = reg, cb_userApp = ua\<rparr>"

definition sim_backend ::
    "ecdsa \<Rightarrow> (account \<Rightarrow> bool) \<Rightarrow> appReg \<Rightarrow> (address \<Rightarrow> user_app) \<Rightarrow> channel_backend" where
  "sim_backend C locked reg ua =
     (let B = sim_base C reg ua in
      B\<lparr>cb_CalcID := sim_CalcID C B, cb_Sign := sim_Sign C locked B, cb_Verify := sim_Verify C B\<rparr>)"

section \<open>The contracts of the library\<close>

lemma length_be_bytes_coord: "x < 256 ^ 32 \<Longrightarrow> length (be_bytes x) \<le> 32"
  by (simp add: length_be_bytes_le)

lemma be_nat_append: "be_nat (xs @ ys) = be_nat xs * 256 ^ length ys + be_nat ys"
proof (induction ys rule: rev_induct)
  case (snoc y ys)
  have "be_nat (xs @ ys @ [y]) = 256 * be_nat (xs @ ys) + unat y"
    using be_nat_snoc [of "xs @ ys" y] by simp
  then show ?case
    by (simp add: snoc algebra_simps)
qed (simp add: be_nat_def)

lemma be_nat_replicate_0 [simp]: "be_nat (replicate n 0) = 0"
proof (induction n)
  case (Suc n)
  have "be_nat (replicate n 0 @ [0]) = 0"
    by (simp add: Suc)
  then show ?case
    by (simp add: replicate_append_same [symmetric])
qed (simp add: be_nat_def)

lemma be_nat_pad_to [simp]: "be_nat (pad_to n b) = be_nat b"
  by (simp add: pad_to_def be_nat_append)

lemma be_nat_less: "be_nat b < 256 ^ length b"
proof (induction b rule: rev_induct)
  case (snoc y ys)
  have "unat y < 256"
    using unat_byte_bound [of y] by simp
  with snoc show ?case
    by simp
qed (simp add: be_nat_def)

lemma be_nat_inject:
  assumes "length a = length b" "be_nat a = be_nat b"
  shows "a = b"
  using assms
proof (induction a arbitrary: b rule: rev_induct)
  case (snoc x xs)
  then obtain y ys where b: "b = ys @ [y]"
    by (metis append_butlast_last_id length_0_conv snoc_eq_iff_butlast)
  have "unat x < 256" "unat y < 256"
    using unat_byte_bound [of x] unat_byte_bound [of y] by simp_all
  then have dm: "(256 * be_nat xs + unat x) div 256 = be_nat xs" "(256 * be_nat xs + unat x) mod 256 = unat x"
    "(256 * be_nat ys + unat y) div 256 = be_nat ys" "(256 * be_nat ys + unat y) mod 256 = unat y"
    by simp_all
  have "256 * be_nat xs + unat x = 256 * be_nat ys + unat y"
    using snoc.prems b by simp
  with dm have "be_nat xs = be_nat ys" "unat x = unat y"
    by metis+
  moreover have "length xs = length ys"
    using snoc.prems(1) b by simp
  ultimately show ?case
    using snoc.IH [of ys] b by (simp add: word_unat_eq_iff)
qed simp

lemma pad_be_bytes:
  assumes "length b = 32"
  shows "pad_to 32 (be_bytes (be_nat b)) = b"
proof (rule be_nat_inject)
  have "length (be_bytes (be_nat b)) \<le> 32"
    using be_nat_less [of b] assms by (simp add: length_be_bytes_le)
  with assms show "length (pad_to 32 (be_bytes (be_nat b))) = length b"
    by simp
qed simp

lemma sim_ByteArray_coords:
  assumes "length a = 64"
  shows "sim_ByteArray (coords a) = OK a"
proof -
  have len: "length (take 32 a) = 32" "length (drop 32 a) = 32"
    using assms by simp_all
  have "length (be_bytes (be_nat b)) \<le> 32" if "length b = 32" for b
    using be_nat_less [of b] that by (simp add: length_be_bytes_le)
  with len show ?thesis
    by (simp add: sim_ByteArray_def coordBytes_def coords_def catE_def pad_be_bytes not_less)
qed

lemma sim_address_rt: "length a = 64 \<Longrightarrow> roundtrips (sim_EncodeAddress a) sim_DecodeAddress a"
proof -
  assume a: "length a = 64"
  have "roundtrips (Encode [VByteSlice a]) (msgD ''decoding address'' (decArg (ByteSlice_Decode 64))) a"
    using a by (intro roundtrips_msgD rt_Encode_single rt_encArg rt_byteslice)
  then have "roundtrips (Encode [VByteSlice a]) sim_Address_Decode (coords a)"
    unfolding sim_Address_Decode_def
    by (rule roundtrips_bind_last) (simp add: returnD_def coords_def)
  then have "roundtrips (Encode [VByteSlice a]) sim_DecodeAddress a"
    unfolding sim_DecodeAddress_def
    by (rule roundtrips_bind_last) (simp add: sim_ByteArray_coords a)
  then show ?thesis
    by (simp add: sim_EncodeAddress_def sim_ByteArray_coords a)
qed

lemma sim_sig_rt: "length s = 64 \<Longrightarrow> roundtrips (OK s) sim_DecodeSig s"
  unfolding sim_DecodeSig_def decArg_def
  by (intro roundtrips_msgD roundtrips_OK_I) (simp add: ByteSlice_Decode_def)

definition sim_asset_ok :: "asset \<Rightarrow> bool" where
  "sim_asset_ok a \<longleftrightarrow> (\<exists>i. a = Some (Asset_Encode i))"

lemma sim_asset_rt: "sim_asset_ok a \<Longrightarrow> roundtrips (asset_Encode a) sim_DecodeAsset a"
proof -
  assume "sim_asset_ok a"
  then obtain i where a: "a = Some (Asset_Encode i)"
    by (auto simp: sim_asset_ok_def)
  have "roundtrips (Asset_Encode i) Asset_Decode i"
    unfolding Asset_Encode_def Asset_Decode_def by (intro rt_Encode_single rt_encArg rt_int64)
  then show ?thesis
    unfolding a asset_Encode_def sim_DecodeAsset_def
    by (auto intro: roundtrips_bind_last simp: returnD_def)
qed

abbreviation addr64 :: "bytes \<Rightarrow> bool" where
  "addr64 a \<equiv> length a = 64"

lemma sim_backend_simps [simp]:
  "wb_EncodeAddress (sim_backend C lk reg ua) = sim_EncodeAddress"
  "wb_DecodeAddress (sim_backend C lk reg ua) = sim_DecodeAddress"
  "wb_DecodeSig (sim_backend C lk reg ua) = sim_DecodeSig"
  "ab_DecodeAsset (sim_backend C lk reg ua) = sim_DecodeAsset"
  "cb_registry (sim_backend C lk reg ua) = reg"
  "cb_userApp (sim_backend C lk reg ua) = ua"
  "cb_CalcID (sim_backend C lk reg ua) = sim_CalcID C (sim_base C reg ua)"
  "cb_Sign (sim_backend C lk reg ua) = sim_Sign C lk (sim_base C reg ua)"
  "cb_Verify (sim_backend C lk reg ua) = sim_Verify C (sim_base C reg ua)"
  by (simp_all add: sim_backend_def sim_base_def Let_def)

interpretation sim_codec: channel_codec "sim_backend C lk reg ua" addr64 addr64 sim_asset_ok
  for C lk reg ua
  by unfold_locales (simp_all add: sim_address_rt sim_sig_rt sim_asset_rt)

lemma deserialize_serialize:
  "serializeSignature r s = OK b \<Longrightarrow> length b = 64 \<and> deserializeSignature (Some b) = OK (r, s)"
  by (auto simp: serializeSignature_def deserializeSignature_def Let_def not_less split: if_splits)

lemma State_Encode_valid:
  assumes "State_Encode B s = OK b"
  shows "Allocation_Valid (st_Alloc s) = OK ()"
  using assms
  by (auto simp: State_Encode_def Encode_def encArg_def Encode_value_def Allocation_Encode_def
      catE_OK_iff res_simps)

lemma sim_Sign_Verify:
  assumes "sim_Sign C lk B a p s = OK sg"
  shows "sim_Verify C B a p s sg = OK True"
proof -
  from assms obtain buff r t b where
    enc: "State_Encode B s = OK buff" and sign: "ecdsa_Sign C a (sha256 C buff) = OK (r, t)"
    and ser: "serializeSignature r t = OK b" and sg: "sg = Some b"
    by (auto simp: sim_Sign_def SignData_def res_simps split: if_splits prod.splits)
  show ?thesis
    using enc ecdsa_Sign_Verify [OF sign] deserialize_serialize [OF ser]
    by (simp add: sim_Verify_def State_Encode_valid [OF enc] sim_VerifySignature_def sg)
qed

interpretation sim_signing: signing_backend "sim_backend C lk reg ua"
  for C lk reg ua
  by unfold_locales (simp add: sim_Sign_Verify)

text \<open>An unlocked account always obtains a signature on a state that can be encoded, if the
  primitive does not fail.\<close>

lemma sim_Sign_total:
  assumes "State_Encode B s = OK buff" "ecdsa_Sign C a (sha256 C buff) = OK rs" "\<not> lk a"
  shows "\<exists>b. sim_Sign C lk B a p s = OK (Some b) \<and> length b = 64"
proof -
  obtain r t where rs: "rs = (r, t)"
    by (cases rs)
  have "length (be_bytes r) \<le> 32" "length (be_bytes t) \<le> 32"
    using ecdsa_Sign_Verify [of C a _ r t] assms(2) by (auto simp: rs length_be_bytes_coord)
  with assms show ?thesis
    by (simp add: sim_Sign_def SignData_def rs serializeSignature_def not_less)
qed

section \<open>The wallet\<close>

text \<open>An account of the wallet: its lock flag and its usage count, an \<open>int32\<close>.  The wallet maps the
  keys of addresses to accounts.\<close>

record sim_account =
  sac_address :: address
  sac_locked :: bool
  sac_references :: u32

type_synonym sim_wallet_state = "bytes \<Rightarrow> sim_account option"

definition NewWallet :: sim_wallet_state where
  "NewWallet = Map.empty"

definition sim_Key :: "address \<Rightarrow> bytes res" where
  "sim_Key a = (case sim_EncodeAddress a of
      OK k \<Rightarrow> OK k
    | Err _ \<Rightarrow> Panic ''Could not encode address in AddrKey''
    | Panic s \<Rightarrow> Panic s)"

definition AddAccount :: "sim_wallet_state \<Rightarrow> sim_account \<Rightarrow> sim_wallet_state res" where
  "AddAccount w acc = bindR (sim_Key (sac_address acc)) (\<lambda>key.
     if w key \<noteq> None then Err (ErrNew ''duplicate insertion'') else OK (w(key \<mapsto> acc)))"

definition NewRestoredWallet :: "sim_account list \<Rightarrow> sim_wallet_state res" where
  "NewRestoredWallet accounts =
     foldR (\<lambda>acc w. case AddAccount w (acc\<lparr>sac_locked := True\<rparr>) of
         OK w' \<Rightarrow> OK w'
       | Err _ \<Rightarrow> Panic ''Could not add account to wallet''
       | Panic s \<Rightarrow> Panic s) accounts NewWallet"

definition HasAccount :: "sim_wallet_state \<Rightarrow> address \<Rightarrow> bool res" where
  "HasAccount w a = bindR (sim_Key a) (\<lambda>key. OK (w key \<noteq> None))"

definition Unlock :: "sim_wallet_state \<Rightarrow> address \<Rightarrow> (sim_account \<times> sim_wallet_state) res" where
  "Unlock w a = bindR (sim_Key a) (\<lambda>key. case w key of
      None \<Rightarrow> Err (ErrNew ''unlock unknown address: %v'')
    | Some acc \<Rightarrow> let acc' = acc\<lparr>sac_locked := False\<rparr> in OK (acc', w(key \<mapsto> acc')))"

definition LockAll :: "sim_wallet_state \<Rightarrow> sim_wallet_state" where
  "LockAll w = (\<lambda>key. map_option (\<lambda>acc. acc\<lparr>sac_locked := True\<rparr>) (w key))"

definition IncrementUsage :: "sim_wallet_state \<Rightarrow> address \<Rightarrow> sim_wallet_state res" where
  "IncrementUsage w a = bindR (sim_Key a) (\<lambda>key. case w key of
      None \<Rightarrow> Panic ''invalid address''
    | Some acc \<Rightarrow> OK (w(key \<mapsto> acc\<lparr>sac_references := sac_references acc + 1\<rparr>)))"

definition DecrementUsage :: "sim_wallet_state \<Rightarrow> address \<Rightarrow> sim_wallet_state res" where
  "DecrementUsage w a = bindR (sim_Key a) (\<lambda>key. case w key of
      None \<Rightarrow> Panic ''invalid address''
    | Some acc \<Rightarrow>
        let newCount = sac_references acc - 1 in
        if sint newCount < 0 then Panic ''unmatched DecrementUsage call''
        else if newCount = 0 then OK (w(key := None))
        else OK (w(key \<mapsto> acc\<lparr>sac_references := newCount\<rparr>)))"

definition UsageCount :: "sim_wallet_state \<Rightarrow> address \<Rightarrow> int res" where
  "UsageCount w a = bindR (sim_Key a) (\<lambda>key. case w key of
      None \<Rightarrow> Panic ''invalid address''
    | Some acc \<Rightarrow> OK (sint (sac_references acc)))"

primrec repeatOp :: "nat \<Rightarrow> ('s \<Rightarrow> 's res) \<Rightarrow> 's \<Rightarrow> 's res" where
  "repeatOp 0 f s = OK s"
| "repeatOp (Suc n) f s = bindR (f s) (repeatOp n f)"

lemma sim_Key_addr64: "addr64 a \<Longrightarrow> sim_Key a = OK a"
  by (simp add: sim_Key_def sim_EncodeAddress_def sim_ByteArray_coords Encode_def encArg_def
      Encode_value_def ByteSlice_Encode_def catE_def)

lemma sint_of_nat_u32: "n < 2 ^ 31 \<Longrightarrow> sint (of_nat n :: u32) = int n"
  by (simp add: signed_of_nat signed_take_bit_int_eq_self)

lemma increments:
  assumes "addr64 a" "w a = Some acc"
  shows "repeatOp n (\<lambda>w. IncrementUsage w a) w =
     OK (w(a \<mapsto> acc\<lparr>sac_references := sac_references acc + of_nat n\<rparr>))"
  using assms(2)
proof (induction n arbitrary: w acc)
  case (Suc n)
  let ?acc = "acc\<lparr>sac_references := sac_references acc + 1\<rparr>"
  have "IncrementUsage w a = OK (w(a \<mapsto> ?acc))"
    using Suc.prems by (simp add: IncrementUsage_def sim_Key_addr64 assms(1))
  moreover have "repeatOp n (\<lambda>w. IncrementUsage w a) (w(a \<mapsto> ?acc)) =
      OK (w(a \<mapsto> acc\<lparr>sac_references := sac_references acc + of_nat (Suc n)\<rparr>))"
  proof -
    define w' where "w' = w(a \<mapsto> ?acc)"
    have "w' a = Some ?acc"
      by (simp add: w'_def)
    from Suc.IH [of w', OF this] have "repeatOp n (\<lambda>w. IncrementUsage w a) w' =
        OK (w'(a \<mapsto> acc\<lparr>sac_references := sac_references acc + of_nat (Suc n)\<rparr>))"
      by (simp add: algebra_simps fun_upd_def)
    then show ?thesis
      by (simp add: w'_def)
  qed
  ultimately show ?case
    by (simp add: fun_upd_def)
qed (simp add: fun_upd_idem)

lemma decrements:
  assumes "addr64 a" "w a = Some acc" "sac_references acc = of_nat (n + k)" "n + k < 2 ^ 31" "0 < k"
  shows "repeatOp n (\<lambda>w. DecrementUsage w a) w = OK (w(a \<mapsto> acc\<lparr>sac_references := of_nat k\<rparr>))"
  using assms(2-)
proof (induction n arbitrary: w acc)
  case (Suc n)
  let ?acc = "acc\<lparr>sac_references := of_nat (n + k)\<rparr>"
  have sub: "sac_references acc - 1 = of_nat (n + k)"
    using Suc.prems(2) by simp
  have "sint (of_nat (n + k) :: u32) = int (n + k)"
    using Suc.prems(3) by (intro sint_of_nat_u32) simp
  then have "\<not> sint (of_nat (n + k) :: u32) < 0" "(of_nat (n + k) :: u32) \<noteq> 0"
    using \<open>0 < k\<close> by (simp, metis add_gr_0 less_irrefl of_nat_0_eq_iff sint_0)
  then have "DecrementUsage w a = OK (w(a \<mapsto> ?acc))"
    using Suc.prems(1) sub by (simp add: DecrementUsage_def sim_Key_addr64 assms(1) Let_def)
  moreover have "repeatOp n (\<lambda>w. DecrementUsage w a) (w(a \<mapsto> ?acc)) =
      OK (w(a \<mapsto> acc\<lparr>sac_references := of_nat k\<rparr>))"
  proof -
    define w' where "w' = w(a \<mapsto> ?acc)"
    have "w' a = Some ?acc"
      by (simp add: w'_def)
    from Suc.IH [of w', OF this] Suc.prems have "repeatOp n (\<lambda>w. DecrementUsage w a) w' =
        OK (w'(a \<mapsto> acc\<lparr>sac_references := of_nat k\<rparr>))"
      by (simp add: fun_upd_def)
    then show ?thesis
      by (simp add: w'_def)
  qed
  ultimately show ?case
    by (simp add: fun_upd_def)
qed (simp add: fun_upd_idem)

lemma last_decrement:
  assumes "addr64 a" "w a = Some acc" "sac_references acc = 1"
  shows "DecrementUsage w a = OK (w(a := None))"
  using assms by (simp add: DecrementUsage_def sim_Key_addr64)

end
