(* ===== verification/Perun_KV.thy ===== *)
theory Perun_KV
  imports Perun_IO "HOL-Library.AList" "HOL-Library.List_Lexorder" "HOL-Library.Sublist"
begin

text \<open>
  The sorted key-value stores of \<open>pkg/sortedkv\<close>: the in-memory database with its batches and
  iterators (\<open>memorydb\<close>), tables that prefix every key (\<open>table.go\<close>, \<open>tablebatch.go\<close>,
  \<open>tableiterator.go\<close>) and the key helpers (\<open>key/key.go\<close>).

  Go strings are byte strings, compared lexicographically.  A Go map is an association list with
  distinct keys whose order is the (arbitrary) iteration order; a database that has been closed
  has the nil map.  Operations on a batch never fail; applying one can fail half-way, so it returns
  the database together with the outcome.

  The locale \<open>kv_store\<close> is the contract of \<open>Reader\<close> and \<open>Writer\<close> over an abstract map, with the
  observations of a sequence of operations; the in-memory database and its tables are instances.  Further lemmas: what an iterator enumerates and
  in which order, that \<open>IncPrefix\<close> bounds exactly the keys with a prefix, that tables with
  incomparable prefixes do not interfere, and what a batch does.
\<close>

section \<open>Keys\<close>

definition key_Next :: "bytes \<Rightarrow> bytes" where
  "key_Next key = key @ [0]"

text \<open>\<open>IncPrefix\<close> walks from the last byte to the first: a byte that overflows is cut off, the first
  that does not is the last of the result.\<close>

fun incRev :: "bytes \<Rightarrow> bytes" where
  "incRev [] = []"
| "incRev (b # bs) = (if b + 1 > 0 then (b + 1) # bs else if bs = [] then [] else incRev bs)"

definition IncPrefix :: "bytes \<Rightarrow> bytes" where
  "IncPrefix key = rev (incRev (rev key))"

section \<open>The in-memory database\<close>

type_synonym amap = "(bytes \<times> bytes) list"

record memdb =
  mdb_data :: amap
  mdb_nil :: bool

definition NewDatabase :: memdb where
  "NewDatabase = \<lparr>mdb_data = [], mdb_nil = False\<rparr>"

definition FromData :: "amap \<Rightarrow> memdb" where
  "FromData data = \<lparr>mdb_data = data, mdb_nil = False\<rparr>"

definition db_Has :: "memdb \<Rightarrow> bytes \<Rightarrow> bool res" where
  "db_Has d key = OK (map_of (mdb_data d) key \<noteq> None)"

definition db_Get :: "memdb \<Rightarrow> bytes \<Rightarrow> bytes res" where
  "db_Get d key = (case map_of (mdb_data d) key of
      None \<Rightarrow> Err (ErrNotFound key)
    | Some v \<Rightarrow> OK v)"

definition db_GetBytes :: "memdb \<Rightarrow> bytes \<Rightarrow> bytes res" where
  "db_GetBytes d key = db_Get d key"

definition db_Put :: "memdb \<Rightarrow> bytes \<Rightarrow> bytes \<Rightarrow> memdb res" where
  "db_Put d key v =
     (if mdb_nil d then Panic ''assignment to entry in nil map''
      else OK (d\<lparr>mdb_data := AList.update key v (mdb_data d)\<rparr>))"

definition db_PutBytes :: "memdb \<Rightarrow> bytes \<Rightarrow> bytes \<Rightarrow> memdb res" where
  "db_PutBytes d key v = db_Put d key v"

definition db_Delete :: "memdb \<Rightarrow> bytes \<Rightarrow> memdb res" where
  "db_Delete d key =
     (if map_of (mdb_data d) key = None then Err (ErrNotFound key)
      else OK (d\<lparr>mdb_data := AList.delete key (mdb_data d)\<rparr>))"

definition db_Close :: "memdb \<Rightarrow> memdb" where
  "db_Close d = \<lparr>mdb_data = [], mdb_nil = True\<rparr>"

section \<open>Iterators\<close>

record iterator =
  it_next :: nat
  it_keys :: "bytes list"
  it_values :: "bytes list"

definition it_Next :: "iterator \<Rightarrow> bool \<times> iterator" where
  "it_Next i = (let i' = i\<lparr>it_next := it_next i + 1\<rparr> in (it_next i' \<le> length (it_keys i'), i'))"

definition it_Key :: "iterator \<Rightarrow> bytes res" where
  "it_Key i =
     (if it_next i = 0 then Panic ''Iterator.Key() accessed before Next() or after Close().''
      else if it_next i > length (it_keys i) then OK []
      else index_at (it_keys i) (it_next i - 1))"

definition it_Value :: "iterator \<Rightarrow> bytes res" where
  "it_Value i =
     (if it_next i = 0 then Panic ''Iterator.Value() accessed before Next() or after Close().''
      else if it_next i > length (it_keys i) then OK []
      else index_at (it_values i) (it_next i - 1))"

definition it_ValueBytes :: "iterator \<Rightarrow> bytes res" where
  "it_ValueBytes i = it_Value i"

definition it_Close :: "iterator \<Rightarrow> iterator" where
  "it_Close i = \<lparr>it_next = 0, it_keys = [], it_values = []\<rparr>"

definition readValues :: "memdb \<Rightarrow> bytes list \<Rightarrow> bytes list" where
  "readValues d keys =
     map (\<lambda>k. case map_of (mdb_data d) k of Some v \<Rightarrow> v | None \<Rightarrow> []) keys"

definition mkIterator :: "memdb \<Rightarrow> bytes list \<Rightarrow> iterator" where
  "mkIterator d ks = (let keys = sort ks in
     \<lparr>it_next = 0, it_keys = keys, it_values = readValues d keys\<rparr>)"

definition NewIterator :: "memdb \<Rightarrow> iterator" where
  "NewIterator d = mkIterator d (map fst (mdb_data d))"

definition NewIteratorWithRange :: "memdb \<Rightarrow> bytes \<Rightarrow> bytes \<Rightarrow> iterator" where
  "NewIteratorWithRange d start end' = mkIterator d
     (if end' = [] then filter (\<lambda>k. k \<ge> start) (map fst (mdb_data d))
      else filter (\<lambda>k. k \<ge> start \<and> k < end') (map fst (mdb_data d)))"

definition NewIteratorWithPrefix :: "memdb \<Rightarrow> bytes \<Rightarrow> iterator" where
  "NewIteratorWithPrefix d p = mkIterator d (filter (prefix p) (map fst (mdb_data d)))"

section \<open>Batches\<close>

record batch =
  b_writes :: amap
  b_deletes :: "bytes list"

definition batch_Reset :: batch where
  "batch_Reset = \<lparr>b_writes = [], b_deletes = []\<rparr>"

definition NewBatch :: "memdb \<Rightarrow> batch" where
  "NewBatch d = batch_Reset"

definition batch_Put :: "batch \<Rightarrow> bytes \<Rightarrow> bytes \<Rightarrow> batch" where
  "batch_Put b key v = b\<lparr>b_deletes := removeAll key (b_deletes b),
                         b_writes := AList.update key v (b_writes b)\<rparr>"

definition batch_Delete :: "batch \<Rightarrow> bytes \<Rightarrow> batch" where
  "batch_Delete b key = b\<lparr>b_writes := AList.delete key (b_writes b),
                          b_deletes := List.insert key (b_deletes b)\<rparr>"

primrec apply_writes :: "amap \<Rightarrow> memdb \<Rightarrow> memdb \<times> unit res" where
  "apply_writes [] d = (d, OK ())"
| "apply_writes (kv # kvs) d = (case with_msg ''failed to put entry'' (db_Put d (fst kv) (snd kv)) of
      OK d' \<Rightarrow> apply_writes kvs d'
    | Err e \<Rightarrow> (d, Err e)
    | Panic s \<Rightarrow> (d, Panic s))"

primrec apply_deletes :: "bytes list \<Rightarrow> memdb \<Rightarrow> memdb \<times> unit res" where
  "apply_deletes [] d = (d, OK ())"
| "apply_deletes (k # ks) d = (case with_msg ''failed to delete entry'' (db_Delete d k) of
      OK d' \<Rightarrow> apply_deletes ks d'
    | Err e \<Rightarrow> (d, Err e)
    | Panic s \<Rightarrow> (d, Panic s))"

definition batch_Apply :: "batch \<Rightarrow> memdb \<Rightarrow> memdb \<times> unit res" where
  "batch_Apply b d = (case apply_writes (b_writes b) d of
      (d', OK _) \<Rightarrow> apply_deletes (b_deletes b) d'
    | (d', r) \<Rightarrow> (d', r))"

section \<open>Tables\<close>

definition pkey :: "bytes \<Rightarrow> bytes \<Rightarrow> bytes" where
  "pkey p key = p @ key"

definition table_Has :: "bytes \<Rightarrow> memdb \<Rightarrow> bytes \<Rightarrow> bool res" where
  "table_Has p d key = db_Has d (pkey p key)"

definition table_Get :: "bytes \<Rightarrow> memdb \<Rightarrow> bytes \<Rightarrow> bytes res" where
  "table_Get p d key = db_Get d (pkey p key)"

definition table_GetBytes :: "bytes \<Rightarrow> memdb \<Rightarrow> bytes \<Rightarrow> bytes res" where
  "table_GetBytes p d key = db_GetBytes d (pkey p key)"

definition table_Put :: "bytes \<Rightarrow> memdb \<Rightarrow> bytes \<Rightarrow> bytes \<Rightarrow> memdb res" where
  "table_Put p d key v = db_Put d (pkey p key) v"

definition table_PutBytes :: "bytes \<Rightarrow> memdb \<Rightarrow> bytes \<Rightarrow> bytes \<Rightarrow> memdb res" where
  "table_PutBytes p d key v = db_PutBytes d (pkey p key) v"

definition table_Delete :: "bytes \<Rightarrow> memdb \<Rightarrow> bytes \<Rightarrow> memdb res" where
  "table_Delete p d key = db_Delete d (pkey p key)"

definition tableBatch_Put :: "bytes \<Rightarrow> batch \<Rightarrow> bytes \<Rightarrow> bytes \<Rightarrow> batch" where
  "tableBatch_Put p b key v = batch_Put b (pkey p key) v"

definition tableBatch_Delete :: "bytes \<Rightarrow> batch \<Rightarrow> bytes \<Rightarrow> batch" where
  "tableBatch_Delete p b key = batch_Delete b (pkey p key)"

definition table_NewIterator :: "bytes \<Rightarrow> memdb \<Rightarrow> iterator" where
  "table_NewIterator p d = NewIteratorWithPrefix d p"

definition table_NewIteratorWithRange :: "bytes \<Rightarrow> memdb \<Rightarrow> bytes \<Rightarrow> bytes \<Rightarrow> iterator" where
  "table_NewIteratorWithRange p d start end' =
     (let start' = pkey p start; end'' = (if end' = [] then IncPrefix p else pkey p end')
      in NewIteratorWithRange d start' end'')"

definition table_NewIteratorWithPrefix :: "bytes \<Rightarrow> memdb \<Rightarrow> bytes \<Rightarrow> iterator" where
  "table_NewIteratorWithPrefix p d q = NewIteratorWithPrefix d (pkey p q)"

text \<open>The key of a table iterator is the underlying key without the prefix; slicing a shorter key
  panics.\<close>

definition tableIterator_Key :: "bytes \<Rightarrow> iterator \<Rightarrow> bytes res" where
  "tableIterator_Key p i = bindR (it_Key i) (\<lambda>k.
     if length k < length p then Panic ''slice bounds out of range'' else OK (drop (length p) k))"

section \<open>The contract of a store\<close>

text \<open>What a caller observes of a sequence of operations; a failed operation leaves the store as it was.\<close>

datatype kv_op = KGet bytes | KHas bytes | KPut bytes bytes | KDelete bytes

datatype kv_obs = Got bytes | Known bool | Done | Failed | Crashed

primrec observe :: "('a \<Rightarrow> kv_obs) \<Rightarrow> 'a res \<Rightarrow> kv_obs" where
  "observe f (OK x) = f x"
| "observe f (Err e) = Failed"
| "observe f (Panic m) = Crashed"

definition kv_write :: "'s \<Rightarrow> 's res \<Rightarrow> 's \<times> kv_obs" where
  "kv_write s r = (case r of OK s' \<Rightarrow> s' | _ \<Rightarrow> s, observe (\<lambda>_. Done) r)"

primrec kv_do ::
    "('s \<Rightarrow> bytes \<Rightarrow> bytes res) \<Rightarrow> ('s \<Rightarrow> bytes \<Rightarrow> bool res) \<Rightarrow> ('s \<Rightarrow> bytes \<Rightarrow> bytes \<Rightarrow> 's res) \<Rightarrow> ('s \<Rightarrow> bytes \<Rightarrow> 's res) \<Rightarrow>
     kv_op \<Rightarrow> 's \<Rightarrow> 's \<times> kv_obs" where
  "kv_do get has put del (KGet k) s = (s, observe Got (get s k))"
| "kv_do get has put del (KHas k) s = (s, observe Known (has s k))"
| "kv_do get has put del (KPut k v) s = kv_write s (put s k v)"
| "kv_do get has put del (KDelete k) s = kv_write s (del s k)"

primrec kv_run ::
    "('s \<Rightarrow> bytes \<Rightarrow> bytes res) \<Rightarrow> ('s \<Rightarrow> bytes \<Rightarrow> bool res) \<Rightarrow> ('s \<Rightarrow> bytes \<Rightarrow> bytes \<Rightarrow> 's res) \<Rightarrow> ('s \<Rightarrow> bytes \<Rightarrow> 's res) \<Rightarrow>
     kv_op list \<Rightarrow> 's \<Rightarrow> kv_obs list" where
  "kv_run get has put del [] s = []"
| "kv_run get has put del (x # xs) s = (case kv_do get has put del x s of (s', y) \<Rightarrow> y # kv_run get has put del xs s')"

text \<open>The same on a map: the specification of a store.\<close>

primrec spec_do :: "kv_op \<Rightarrow> (bytes \<Rightarrow> bytes option) \<Rightarrow> (bytes \<Rightarrow> bytes option) \<times> kv_obs" where
  "spec_do (KGet k) m = (m, case m k of Some v \<Rightarrow> Got v | None \<Rightarrow> Failed)"
| "spec_do (KHas k) m = (m, Known (m k \<noteq> None))"
| "spec_do (KPut k v) m = (m(k \<mapsto> v), Done)"
| "spec_do (KDelete k) m = (m(k := None), if m k = None then Failed else Done)"

primrec spec_run :: "kv_op list \<Rightarrow> (bytes \<Rightarrow> bytes option) \<Rightarrow> kv_obs list" where
  "spec_run [] m = []"
| "spec_run (x # xs) m = (case spec_do x m of (m', y) \<Rightarrow> y # spec_run xs m')"

text \<open>The store implements a map: reads return its entries, \<open>Put\<close> overwrites, \<open>Delete\<close> removes and
  fails on an absent key.\<close>

locale kv_store =
  fixes get :: "'s \<Rightarrow> bytes \<Rightarrow> bytes res"
    and has :: "'s \<Rightarrow> bytes \<Rightarrow> bool res"
    and put :: "'s \<Rightarrow> bytes \<Rightarrow> bytes \<Rightarrow> 's res"
    and del :: "'s \<Rightarrow> bytes \<Rightarrow> 's res"
    and inv :: "'s \<Rightarrow> bool"
    and abs :: "'s \<Rightarrow> bytes \<Rightarrow> bytes option"
  assumes get_Some: "inv s \<Longrightarrow> abs s k = Some v \<Longrightarrow> get s k = OK v"
    and get_None: "inv s \<Longrightarrow> abs s k = None \<Longrightarrow> \<exists>e. get s k = Err e"
    and has_abs: "inv s \<Longrightarrow> has s k = OK (abs s k \<noteq> None)"
    and put_abs: "inv s \<Longrightarrow> \<exists>s'. put s k v = OK s' \<and> inv s' \<and> abs s' = (abs s)(k \<mapsto> v)"
    and del_None: "inv s \<Longrightarrow> abs s k = None \<Longrightarrow> \<exists>e. del s k = Err e"
    and del_Some: "inv s \<Longrightarrow> abs s k = Some v \<Longrightarrow> \<exists>s'. del s k = OK s' \<and> inv s' \<and> abs s' = (abs s)(k := None)"
begin

lemma get_OK_iff: "inv s \<Longrightarrow> get s k = OK v \<longleftrightarrow> abs s k = Some v"
  using get_Some [of s k] get_None [of s k] by (cases "abs s k") auto

lemma put_get:
  assumes "inv s" "put s k v = OK s'"
  shows "get s' k' = (if k' = k then OK v else get s' k')" "get s' k = OK v"
    "k' \<noteq> k \<Longrightarrow> (get s' k' = OK w) = (get s k' = OK w)"
  using put_abs [OF assms(1), of k v] assms by (auto simp: get_OK_iff)

lemma del_has:
  assumes "inv s" "del s k = OK s'"
  shows "has s' k' = OK (k' \<noteq> k \<and> abs s k' \<noteq> None)"
proof (cases "abs s k")
  case (Some v)
  with del_Some [OF assms(1), of k v] assms(2) show ?thesis
    by (auto simp: has_abs)
next
  case None
  with del_None [OF assms(1) None] assms(2) show ?thesis
    by auto
qed

text \<open>The store refines its specification.\<close>

lemma do_refines:
  assumes "inv s"
  shows "\<exists>s' y. kv_do get has put del x s = (s', y) \<and> inv s' \<and> spec_do x (abs s) = (abs s', y)"
proof (cases x)
  case (KGet k)
  with get_Some [OF assms, of k] get_None [OF assms, of k] assms show ?thesis
    by (cases "abs s k") auto
next
  case (KHas k)
  with has_abs [OF assms, of k] assms show ?thesis
    by simp
next
  case (KPut k v)
  with put_abs [OF assms, of k v] show ?thesis
    by (auto simp: kv_write_def)
next
  case (KDelete k)
  with del_None [OF assms, of k] del_Some [OF assms, of k] assms show ?thesis
    by (cases "abs s k") (fastforce simp: kv_write_def fun_upd_idem)+
qed

lemma run_refines: "inv s \<Longrightarrow> kv_run get has put del xs s = spec_run xs (abs s)"
proof (induction xs arbitrary: s)
  case (Cons x xs)
  then show ?case
    using do_refines [OF Cons.prems, of x] by (auto simp del: kv_do.simps spec_do.simps)
qed simp

lemma put_put:
  assumes "inv s" "put s k v = OK s1" "put s1 k w = OK s2" "put s k w = OK s3"
  shows "abs s2 = abs s3"
  using put_abs [OF assms(1), of k v] put_abs [OF assms(1), of k w] put_abs [of s1 k w] assms(2-)
  by auto

lemma put_del:
  assumes "inv s" "put s k v = OK s1" "abs s k = None"
  shows "\<exists>s2. del s1 k = OK s2 \<and> abs s2 = abs s"
proof -
  from put_abs [OF assms(1), of k v] assms(2) have s1: "inv s1" "abs s1 = (abs s)(k \<mapsto> v)"
    by auto
  with del_Some [of s1 k v] obtain s2 where "del s1 k = OK s2" "abs s2 = (abs s1)(k := None)"
    by auto
  with s1 assms(3) show ?thesis
    by (auto simp: fun_upd_idem)
qed

end

definition db_inv :: "memdb \<Rightarrow> bool" where
  "db_inv d \<longleftrightarrow> \<not> mdb_nil d \<and> distinct (map fst (mdb_data d))"

definition db_map :: "memdb \<Rightarrow> bytes \<Rightarrow> bytes option" where
  "db_map d = map_of (mdb_data d)"

definition table_map :: "bytes \<Rightarrow> memdb \<Rightarrow> bytes \<Rightarrow> bytes option" where
  "table_map p d k = db_map d (pkey p k)"

lemma db_Put_map:
  assumes "db_inv d"
  shows "\<exists>d'. db_Put d k v = OK d' \<and> db_inv d' \<and> db_map d' = (db_map d)(k \<mapsto> v)"
  using assms by (auto simp: db_Put_def db_inv_def db_map_def update_conv' distinct_update)

lemma db_Delete_map:
  assumes "db_inv d" "db_map d k = Some v"
  shows "\<exists>d'. db_Delete d k = OK d' \<and> db_inv d' \<and> db_map d' = (db_map d)(k := None)"
  using assms
  by (auto simp: db_Delete_def db_inv_def db_map_def AList.delete_conv' intro: AList.distinct_delete)

interpretation memdb_store: kv_store db_Get db_Has db_Put db_Delete db_inv db_map
proof unfold_locales
  show "\<exists>s'. db_Put s k v = OK s' \<and> db_inv s' \<and> db_map s' = (db_map s)(k \<mapsto> v)" if "db_inv s" for s k v
    using that by (rule db_Put_map)
  show "\<exists>s'. db_Delete s k = OK s' \<and> db_inv s' \<and> db_map s' = (db_map s)(k := None)"
    if "db_inv s" "db_map s k = Some v" for s k v
    using that by (rule db_Delete_map)
qed (auto simp: db_Get_def db_Has_def db_Delete_def db_map_def)

lemma table_map_update:
  "(\<lambda>j. ((db_map d)(pkey p k := x)) (pkey p j)) = (table_map p d)(k := x)"
  by (auto simp: table_map_def pkey_def fun_eq_iff)

interpretation table_store: kv_store "table_Get p" "table_Has p" "table_Put p" "table_Delete p" db_inv "table_map p"
  for p
proof unfold_locales
  show "\<exists>s'. table_Put p s k v = OK s' \<and> db_inv s' \<and> table_map p s' = (table_map p s)(k \<mapsto> v)"
    if "db_inv s" for s k v
    using db_Put_map [OF that, of "pkey p k" v]
    by (auto simp: table_Put_def table_map_def [of p] fun_eq_iff table_map_update [symmetric])
  show "\<exists>s'. table_Delete p s k = OK s' \<and> db_inv s' \<and> table_map p s' = (table_map p s)(k := None)"
    if "db_inv s" "table_map p s k = Some v" for s k v
    using db_Delete_map [OF that(1), of "pkey p k" v] that(2)
    by (auto simp: table_Delete_def table_map_def [of p] fun_eq_iff table_map_update [symmetric])
qed (auto simp: table_Get_def table_Has_def table_Delete_def table_map_def db_Get_def db_Has_def
    db_Delete_def db_map_def)

text \<open>Tables with incomparable prefixes share no key, so a write to one does not show in another.\<close>

lemma pkey_disjoint: "\<not> prefix p q \<Longrightarrow> \<not> prefix q p \<Longrightarrow> pkey p j \<noteq> pkey q k"
  unfolding pkey_def by (metis prefix_same_cases prefixI)

lemma table_Put_other:
  assumes "db_inv d" "\<not> prefix p q" "\<not> prefix q p" "table_Put p d k v = OK d'"
  shows "table_map q d' = table_map q d"
  using db_Put_map [OF assms(1), of "pkey p k" v] pkey_disjoint [OF assms(3,2)] assms(4)
  by (auto simp: table_Put_def table_map_def fun_eq_iff)

section \<open>The bound of a prefix\<close>

lemma replicate_max_prefix:
  fixes k :: bytes
  shows "replicate n (- 1) \<le> k \<Longrightarrow> prefix (replicate n (- 1)) k"
proof (induction n arbitrary: k)
  case (Suc n)
  then obtain c cs where k: "k = c # cs"
    by (cases k) auto
  have "\<not> (- 1 :: byte) < c"
    by (simp add: not_less word_order.extremum)
  with Suc.prems k have "c = - 1" "replicate n (- 1) \<le> cs"
    by auto
  with Suc.IH [of cs] k show ?case
    by simp
qed simp

lemma append_ge: "p \<le> p @ (r :: bytes)"
  by (induction p) auto

lemma prefix_le: "prefix p (k :: bytes) \<Longrightarrow> p \<le> k"
  by (auto simp: prefix_def append_ge)

lemma append_le_less_cases:
  fixes k :: bytes
  assumes "q @ x # xs \<le> k" "k < q @ [y]"
  shows "\<exists>c cs. k = q @ c # cs \<and> x # xs \<le> c # cs \<and> c < y"
  using assms
proof (induction q arbitrary: k)
  case Nil
  then show ?case
    by (cases k) auto
next
  case (Cons a q)
  then obtain c cs where k: "k = c # cs"
    by (cases k) auto
  with Cons.prems have "a = c" "q @ x # xs \<le> cs" "cs < q @ [y]"
    by auto
  with Cons.IH [of cs] k show ?case
    by auto
qed

lemma incRev_cases:
  "(\<exists>n. p = replicate n (- 1) \<and> incRev p = []) \<or>
   (\<exists>n b q. p = replicate n (- 1) @ b # q \<and> b \<noteq> - 1 \<and> incRev p = (b + 1) # q)"
proof (induction p)
  case (Cons b p)
  show ?case
  proof (cases "b = - 1")
    case True
    from Cons.IH show ?thesis
    proof (elim disjE exE conjE)
      fix n
      assume "p = replicate n (- 1)" "incRev p = []"
      with True show ?thesis
        by (intro disjI1 exI [of _ "Suc n"]) simp
    next
      fix n c q
      assume "p = replicate n (- 1) @ c # q" "c \<noteq> - 1" "incRev p = (c + 1) # q"
      with True show ?thesis
        by (intro disjI2 exI [of _ "Suc n"] exI [of _ c] exI [of _ q]) auto
    qed
  next
    case False
    then have "b + 1 > 0"
      by (metis add_eq_0_iff2 word_gt_0)
    with False show ?thesis
      by (intro disjI2 exI [of _ 0] exI [of _ b] exI [of _ p]) simp
  qed
qed (intro disjI1 exI [of _ 0], simp)

lemma IncPrefix_cases:
  obtains (all) n where "p = replicate n (- 1)" "IncPrefix p = []"
  | (some) q b n where "p = q @ b # replicate n (- 1)" "b \<noteq> - 1" "IncPrefix p = q @ [b + 1]"
proof -
  from incRev_cases [of "rev p"] show thesis
  proof (elim disjE exE conjE)
    fix n
    assume "rev p = replicate n (- 1)" "incRev (rev p) = []"
    then show thesis
      by (intro all [of n]) (simp_all add: IncPrefix_def rev_swap)
  next
    fix n b q
    assume "rev p = replicate n (- 1) @ b # q" "b \<noteq> - 1" "incRev (rev p) = (b + 1) # q"
    then show thesis
      by (intro some [of "rev q" b n]) (simp_all add: IncPrefix_def rev_swap)
  qed
qed

lemma byte_less_inc:
  assumes "b \<noteq> (- 1 :: byte)"
  shows "c < b + 1 \<longleftrightarrow> c \<le> b"
proof -
  have "1 + b \<noteq> 0"
    using assms by (metis add.commute eq_neg_iff_add_eq_0)
  then have "unat (b + 1) = Suc (unat b)"
    using unatSuc [of b] by (simp add: add.commute)
  then show ?thesis
    by (simp add: word_less_nat_alt word_le_nat_alt less_Suc_eq_le)
qed

lemma append_less_inc: "b \<noteq> - 1 \<Longrightarrow> q @ b # r < q @ [b + 1 :: byte]"
  by (induction q) (auto simp: byte_less_inc)

lemma IncPrefix_range:
  "prefix p k \<longleftrightarrow> p \<le> k \<and> (IncPrefix p = [] \<or> k < IncPrefix p)"
proof (cases p rule: IncPrefix_cases)
  case (all n)
  then show ?thesis
    using replicate_max_prefix [of n k] prefix_le [of p k] by auto
next
  case (some q b n)
  show ?thesis
  proof
    assume "prefix p k"
    then obtain r where "k = q @ b # replicate n (- 1) @ r"
      using some(1) by (auto simp: prefix_def)
    then have "k < IncPrefix p"
      using some(2,3) append_less_inc [of b q] by simp
    with prefix_le [OF \<open>prefix p k\<close>] show "p \<le> k \<and> (IncPrefix p = [] \<or> k < IncPrefix p)"
      by blast
  next
    assume "p \<le> k \<and> (IncPrefix p = [] \<or> k < IncPrefix p)"
    then have "p \<le> k" "k < q @ [b + 1]"
      using some(3) by auto
    then obtain c cs where k: "k = q @ c # cs" "b # replicate n (- 1) \<le> c # cs" "c < b + 1"
      using append_le_less_cases [of q b "replicate n (- 1)" k "b + 1"] some(1) by auto
    then have "c \<le> b"
      using some(2) by (simp add: byte_less_inc)
    with k(2) have "c = b" "replicate n (- 1) \<le> cs"
      by auto
    with k(1) some(1) replicate_max_prefix [of n cs] show "prefix p k"
      by simp
  qed
qed

section \<open>What iterators enumerate\<close>

text \<open>The loop \<open>for it.Next() { it.Key(); it.Value() }\<close>.\<close>

function it_drain :: "iterator \<Rightarrow> (bytes \<times> bytes) list res" where
  "it_drain i = (case it_Next i of (found, i') \<Rightarrow>
     if found then bindR (it_Key i') (\<lambda>k. bindR (it_Value i') (\<lambda>v.
       bindR (it_drain i') (\<lambda>rest. OK ((k, v) # rest))))
     else OK [])"
  by pat_completeness auto

termination
  by (relation "measure (\<lambda>i. length (it_keys i) - it_next i)") (auto simp: it_Next_def Let_def)

declare it_drain.simps [simp del]

lemma it_drain_eq:
  assumes "length ks = length vs" "n \<le> length ks"
  shows "it_drain \<lparr>it_next = n, it_keys = ks, it_values = vs\<rparr> = OK (drop n (zip ks vs))"
  using assms(2)
proof (induction "length ks - n" arbitrary: n)
  case 0
  then show ?case
    using assms(1) by (subst it_drain.simps) (simp add: it_Next_def)
next
  case (Suc x)
  then have n: "n < length ks" "n < length vs"
    using assms(1) by auto
  have "it_drain \<lparr>it_next = Suc n, it_keys = ks, it_values = vs\<rparr> = OK (drop (Suc n) (zip ks vs))"
    using Suc by (intro Suc.hyps(1)) auto
  moreover have "drop n (zip ks vs) = (ks ! n, vs ! n) # drop (Suc n) (zip ks vs)"
    using n by (simp add: Cons_nth_drop_Suc [symmetric])
  ultimately show ?case
    using n by (subst it_drain.simps) (simp add: it_Next_def it_Key_def it_Value_def)
qed

lemma drain_mkIterator:
  "it_drain (mkIterator d ks) = OK (map (\<lambda>k. (k, case db_map d k of Some v \<Rightarrow> v | None \<Rightarrow> [])) (sort ks))"
proof -
  have "it_drain (mkIterator d ks) = OK (drop 0 (zip (sort ks) (readValues d (sort ks))))"
    unfolding mkIterator_def Let_def by (rule it_drain_eq) (simp_all add: readValues_def)
  then show ?thesis
    by (simp add: readValues_def db_map_def zip_map2 zip_same_conv_map)
qed

definition enumerates :: "memdb \<Rightarrow> (bytes \<Rightarrow> bool) \<Rightarrow> (bytes \<times> bytes) list \<Rightarrow> bool" where
  "enumerates d P kvs \<longleftrightarrow> sorted (map fst kvs) \<and> distinct (map fst kvs) \<and>
     set kvs = {(k, v). db_map d k = Some v \<and> P k}"

lemma drain_enumerates:
  assumes "db_inv d"
  shows "\<exists>kvs. it_drain (mkIterator d (filter P (map fst (mdb_data d)))) = OK kvs \<and> enumerates d P kvs"
proof -
  let ?ks = "filter P (map fst (mdb_data d))"
  let ?kvs = "map (\<lambda>k. (k, case db_map d k of Some v \<Rightarrow> v | None \<Rightarrow> [])) (sort ?ks)"
  have fst: "map fst ?kvs = sort ?ks"
    by (simp add: o_def)
  have "set ?kvs = {(k, v). db_map d k = Some v \<and> P k}"
    using assms by (force simp: db_map_def db_inv_def dest: map_of_SomeD)
  moreover have "distinct (map fst ?kvs)"
    unfolding fst using assms by (simp add: db_inv_def distinct_map)
  ultimately have "enumerates d P ?kvs"
    unfolding enumerates_def fst by simp
  with drain_mkIterator show ?thesis
    by blast
qed

lemma filter_True_id: "filter (\<lambda>_. True) xs = xs"
  by (induction xs) simp_all

lemma NewIterator_enumerates:
  "db_inv d \<Longrightarrow> \<exists>kvs. it_drain (NewIterator d) = OK kvs \<and> enumerates d (\<lambda>_. True) kvs"
  using drain_enumerates [of d "\<lambda>_. True"] by (simp add: NewIterator_def filter_True_id)

lemma NewIteratorWithRange_enumerates:
  "db_inv d \<Longrightarrow> \<exists>kvs. it_drain (NewIteratorWithRange d s e) = OK kvs \<and>
     enumerates d (\<lambda>k. s \<le> k \<and> (e = [] \<or> k < e)) kvs"
  using drain_enumerates [of d "\<lambda>k. s \<le> k \<and> (e = [] \<or> k < e)"]
  by (cases "e = []") (simp_all add: NewIteratorWithRange_def)

lemma NewIteratorWithPrefix_enumerates:
  "db_inv d \<Longrightarrow> \<exists>kvs. it_drain (NewIteratorWithPrefix d p) = OK kvs \<and> enumerates d (prefix p) kvs"
  using drain_enumerates [of d "prefix p"] by (simp add: NewIteratorWithPrefix_def)

text \<open>The range iterator of a table without an upper end is its full iterator.\<close>

lemma table_range_full:
  "table_NewIteratorWithRange p d [] [] = table_NewIterator p d"
proof -
  have "NewIteratorWithRange d p (IncPrefix p) = NewIteratorWithPrefix d p"
    unfolding NewIteratorWithRange_def NewIteratorWithPrefix_def
    by (cases "IncPrefix p = []") (simp_all add: IncPrefix_range [of p, abs_def])
  then show ?thesis
    by (simp add: table_NewIteratorWithRange_def table_NewIterator_def pkey_def)
qed

section \<open>What batches do\<close>

definition batch_inv :: "batch \<Rightarrow> bool" where
  "batch_inv b \<longleftrightarrow> distinct (map fst (b_writes b)) \<and> distinct (b_deletes b) \<and>
     set (b_deletes b) \<inter> fst ` set (b_writes b) = {}"

lemma batch_inv_Reset: "batch_inv batch_Reset"
  by (simp add: batch_inv_def batch_Reset_def)

lemma batch_inv_Put: "batch_inv b \<Longrightarrow> batch_inv (batch_Put b k v)"
  by (auto simp: batch_inv_def batch_Put_def distinct_update dom_update distinct_removeAll)

lemma batch_inv_Delete: "batch_inv b \<Longrightarrow> batch_inv (batch_Delete b k)"
  using AList.delete_keys [of k "b_writes b"]
  by (auto simp: batch_inv_def batch_Delete_def AList.distinct_delete AList.delete_eq
      distinct_removeAll)

text \<open>The effect of a batch on the map that a database stores.\<close>

definition batch_effect :: "batch \<Rightarrow> (bytes \<Rightarrow> bytes option) \<Rightarrow> bytes \<Rightarrow> bytes option" where
  "batch_effect b m k = (if k \<in> set (b_deletes b) then None else (m ++ map_of (b_writes b)) k)"

lemma apply_writes_eq:
  assumes "db_inv d" "distinct (map fst kvs)"
  shows "\<exists>d'. apply_writes kvs d = (d', OK ()) \<and> db_inv d' \<and> db_map d' = db_map d ++ map_of kvs"
  using assms
proof (induction kvs arbitrary: d)
  case (Cons kv kvs)
  obtain k v where kv: "kv = (k, v)"
    by (cases kv)
  from db_Put_map [OF Cons.prems(1), of k v] obtain d1 where
    d1: "db_Put d k v = OK d1" "db_inv d1" "db_map d1 = (db_map d)(k \<mapsto> v)"
    by blast
  from Cons.IH [OF d1(2)] Cons.prems(2) obtain d' where
    d': "apply_writes kvs d1 = (d', OK ())" "db_inv d'" "db_map d' = db_map d1 ++ map_of kvs"
    by auto
  have "map_of kvs k = None"
    using Cons.prems(2) kv by (simp add: map_of_eq_None_iff)
  then have "db_map d' = db_map d ++ map_of (kv # kvs)"
    using d1(3) d'(3) by (auto simp: kv fun_eq_iff map_add_def split: option.splits)
  with d1(1) d'(1,2) show ?case
    by (simp add: kv del: map_of.simps)
qed simp

lemma apply_deletes_eq:
  assumes "db_inv d" "distinct ks" "\<And>k. k \<in> set ks \<Longrightarrow> db_map d k \<noteq> None"
  shows "\<exists>d'. apply_deletes ks d = (d', OK ()) \<and> db_inv d' \<and>
     db_map d' = (\<lambda>k. if k \<in> set ks then None else db_map d k)"
  using assms
proof (induction ks arbitrary: d)
  case (Cons k ks)
  then obtain v where "db_map d k = Some v"
    by fastforce
  from db_Delete_map [OF Cons.prems(1) this] obtain d1 where
    d1: "db_Delete d k = OK d1" "db_inv d1" "db_map d1 = (db_map d)(k := None)"
    by blast
  have "db_map d1 j \<noteq> None" if "j \<in> set ks" for j
    using Cons.prems(2) Cons.prems(3) [of j] that d1(3) by auto
  with Cons.IH [OF d1(2)] Cons.prems(2) obtain d' where
    "apply_deletes ks d1 = (d', OK ())" "db_inv d'" "db_map d' = (\<lambda>k. if k \<in> set ks then None else db_map d1 k)"
    by auto
  with d1 show ?case
    by (auto simp: fun_eq_iff)
qed simp

lemma apply_deletes_missing:
  assumes "db_inv d" "k \<in> set ks" "db_map d k = None"
  shows "\<exists>d' e. apply_deletes ks d = (d', Err e)"
  using assms
proof (induction ks arbitrary: d)
  case (Cons j ks)
  show ?case
  proof (cases "db_map d j")
    case None
    then show ?thesis
      by (simp add: db_Delete_def db_map_def)
  next
    case (Some v)
    from db_Delete_map [OF Cons.prems(1) Some] obtain d1 where
      "db_Delete d j = OK d1" "db_inv d1" "db_map d1 = (db_map d)(j := None)"
      by blast
    with Cons Some show ?thesis
      by fastforce
  qed
qed simp

lemma batch_Apply_OK:
  assumes "db_inv d" "batch_inv b" "\<And>k. k \<in> set (b_deletes b) \<Longrightarrow> db_map d k \<noteq> None"
  shows "\<exists>d'. batch_Apply b d = (d', OK ()) \<and> db_inv d' \<and> db_map d' = batch_effect b (db_map d)"
proof -
  have "distinct (map fst (b_writes b))"
    using assms(2) by (simp add: batch_inv_def)
  from apply_writes_eq [OF assms(1) this] obtain d1 where
    d1: "apply_writes (b_writes b) d = (d1, OK ())" "db_inv d1" "db_map d1 = db_map d ++ map_of (b_writes b)"
    by blast
  have "db_map d1 k \<noteq> None" if "k \<in> set (b_deletes b)" for k
    using assms(3) [OF that] d1(3) by auto
  moreover have "distinct (b_deletes b)"
    using assms(2) by (simp add: batch_inv_def)
  ultimately obtain d' where
    "apply_deletes (b_deletes b) d1 = (d', OK ())" "db_inv d'"
    "db_map d' = (\<lambda>k. if k \<in> set (b_deletes b) then None else db_map d1 k)"
    using apply_deletes_eq [OF d1(2), of "b_deletes b"] by blast
  with d1 show ?thesis
    by (auto simp: batch_Apply_def batch_effect_def fun_eq_iff)
qed

lemma batch_Apply_missing:
  assumes "db_inv d" "batch_inv b" "k \<in> set (b_deletes b)" "db_map d k = None"
  shows "\<exists>d' e. batch_Apply b d = (d', Err e)"
proof -
  have "distinct (map fst (b_writes b))"
    using assms(2) by (simp add: batch_inv_def)
  from apply_writes_eq [OF assms(1) this] obtain d1 where
    d1: "apply_writes (b_writes b) d = (d1, OK ())" "db_inv d1" "db_map d1 = db_map d ++ map_of (b_writes b)"
    by blast
  have "map_of (b_writes b) k = None"
    using assms(2,3) by (auto simp: batch_inv_def map_of_eq_None_iff)
  with d1(3) assms(4) have "db_map d1 k = None"
    by (simp add: map_add_def)
  from apply_deletes_missing [OF d1(2) assms(3) this] d1(1) show ?thesis
    by (auto simp: batch_Apply_def)
qed

text \<open>Buffering a sequence of writes and deletions has the effect of performing them one by one.\<close>

datatype batch_op = BPut bytes bytes | BDelete bytes

fun batch_do :: "batch_op \<Rightarrow> batch \<Rightarrow> batch" where
  "batch_do (BPut k v) b = batch_Put b k v"
| "batch_do (BDelete k) b = batch_Delete b k"

fun map_do :: "batch_op \<Rightarrow> (bytes \<Rightarrow> bytes option) \<Rightarrow> bytes \<Rightarrow> bytes option" where
  "map_do (BPut k v) m = m(k \<mapsto> v)"
| "map_do (BDelete k) m = m(k := None)"

lemma batch_effect_do: "batch_inv b \<Longrightarrow> batch_effect (batch_do x b) m = map_do x (batch_effect b m)"
  by (cases x)
    (auto simp: batch_effect_def batch_Put_def batch_Delete_def fun_eq_iff map_add_def update_conv'
      AList.delete_conv' split: option.splits)

lemma batch_inv_do: "batch_inv b \<Longrightarrow> batch_inv (batch_do x b)"
  by (cases x) (auto intro: batch_inv_Put batch_inv_Delete)

lemma batch_effect_fold:
  "batch_inv b \<Longrightarrow> batch_effect (fold batch_do xs b) m = fold map_do xs (batch_effect b m) \<and>
     batch_inv (fold batch_do xs b)"
  by (induction xs arbitrary: b) (simp_all add: batch_effect_do batch_inv_do)

lemma batch_effect_Reset [simp]: "batch_effect batch_Reset m = m"
  by (simp add: batch_effect_def batch_Reset_def fun_eq_iff)

end
