(* ===== verification/Perun_Persist.thy ===== *)
theory Perun_Persist
  imports Perun_Machine Perun_KV
begin

text \<open>
  Persistence of channels: the key-value persister and restorer of
  \<open>channel/persistence/keyvalue\<close> over the in-memory database, and the persisting wrapper around a
  state machine of \<open>channel/persistence/statemachine.go\<close>.

  A persister method reads and writes the database.  It builds a batch and applies it; since a
  batch can fail half-way, methods return the database together with their outcome.  The
  restorer's \<open>ChannelIterator\<close> walks over the sorted entries of the channel table and decodes one
  channel after the other.

  The main result is the round trip: a channel that was persisted by \<open>ChannelCreated\<close> is what
  \<open>RestoreChannel\<close> returns.
\<close>

unbundle bit_operations_syntax

section \<open>Keys\<close>

definition kv_ChannelDB :: bytes where "kv_ChannelDB = str ''Chan:''"
definition kv_PeerDB :: bytes where "kv_PeerDB = str ''Peer:''"
definition kv_SigKey :: bytes where "kv_SigKey = str ''staging:sig:''"
definition kv_Peers :: bytes where "kv_Peers = str ''peers''"

definition channelDB :: "ID \<Rightarrow> bytes" where
  "channelDB i = kv_ChannelDB @ i @ str '':''"

fun decBytes :: "nat \<Rightarrow> bytes" where
  "decBytes n = (if n < 10 then [of_nat (48 + n)] else decBytes (n div 10) @ [of_nat (48 + n mod 10)])"

declare decBytes.simps [simp del]

text \<open>\<open>fmt.Sprintf("%0*d", width, n)\<close> and \<open>int(math.Ceil(math.Log10(float64(n))))\<close>.\<close>

definition decPad :: "nat \<Rightarrow> nat \<Rightarrow> bytes" where
  "decPad w n = replicate (w - length (decBytes n)) 48 @ decBytes n"

fun ceilLog10 :: "nat \<Rightarrow> nat" where
  "ceilLog10 n = (if n \<le> 1 then 0 else Suc (ceilLog10 ((n + 9) div 10)))"

declare ceilLog10.simps [simp del]

definition sigKey :: "nat \<Rightarrow> nat \<Rightarrow> bytes" where
  "sigKey idx numParts = kv_SigKey @ decPad (ceilLog10 numParts) idx"

definition sigKeys :: "nat \<Rightarrow> bytes list" where
  "sigKeys numParts = map (\<lambda>i. kv_SigKey @ decPad (ceilLog10 numParts) i) [0..<numParts]"

definition isDigit :: "byte \<Rightarrow> bool" where
  "isDigit b \<longleftrightarrow> 48 \<le> b \<and> b \<le> 57"

definition decodeIdxFromDBKey :: "bytes \<Rightarrow> nat" where
  "decodeIdxFromDBKey digits = foldl (\<lambda>a b. 10 * a + (unat b - 48)) 0 digits"

text \<open>\<open>sigKeyIndex\<close>: the regular expression accepts the prefix followed by digits; a number beyond
  \<open>int\<close> makes \<open>Atoi\<close> fail.\<close>

definition sigKeyIndex :: "bytes \<Rightarrow> nat option" where
  "sigKeyIndex key =
     (let digits = drop (length kv_SigKey) key in
      if prefix kv_SigKey key \<and> digits \<noteq> [] \<and> list_all isDigit digits \<and>
         decodeIdxFromDBKey digits < 2 ^ 63
      then Some (decodeIdxFromDBKey digits) else None)"

definition peerChannelsKey :: "'m channel_backend_scheme \<Rightarrow> address \<Rightarrow> bytes res" where
  "peerChannelsKey B addr =
     bindR (with_msg ''encoding peer address'' (wb_EncodeAddress B addr)) (\<lambda>a.
     OK (a @ str '':channel:''))"

definition peerChannelKey :: "'m channel_backend_scheme \<Rightarrow> address \<Rightarrow> ID \<Rightarrow> bytes res" where
  "peerChannelKey B p ch =
     bindR (with_msg ''encoding peer address'' (wb_EncodeAddress B p)) (\<lambda>a.
     bindR (with_msg ''encoding channel id'' (Encode [VBytes32 ch])) (\<lambda>i.
     OK (a @ str '':channel:'' @ i)))"

section \<open>Encodings of persisted values\<close>

definition PersistedState_Encode :: "'m channel_backend_scheme \<Rightarrow> State option \<Rightarrow> bytes res" where
  "PersistedState_Encode B s = (case s of None \<Rightarrow> OK [] | Some s \<Rightarrow> State_Encode B s)"

definition PersistedState_Decode :: "'m channel_backend_scheme \<Rightarrow> State option decoder" where
  "PersistedState_Decode B = bindD (State_Decode B) (\<lambda>s. returnD (Some s))"

definition optChannelID_Encode :: "ID option \<Rightarrow> bytes res" where
  "optChannelID_Encode i = (case i of
      Some j \<Rightarrow> Encode [VBool True, VBytes32 j]
    | None \<Rightarrow> Encode [VBool False])"

definition optChannelID_Decode :: "ID option decoder" where
  "optChannelID_Decode =
     bindD (decArg decBool) (\<lambda>present.
     if present then bindD (decArg decBytes32) (\<lambda>i. returnD (Some i)) else returnD None)"

section \<open>The persister\<close>

definition dbPut :: "bytes \<Rightarrow> batch \<Rightarrow> bytes \<Rightarrow> val \<Rightarrow> batch res" where
  "dbPut p b key v =
     bindR (with_msg ''encoding '' (Encode [v])) (\<lambda>buf. OK (tableBatch_Put p b key buf))"

definition dbPutSourceField ::
    "'m channel_backend_scheme \<Rightarrow> bytes \<Rightarrow> Source \<Rightarrow> bytes \<Rightarrow> batch \<Rightarrow> batch res" where
  "dbPutSourceField B p s key b =
     (if key = str ''current'' then dbPut p b key (VEncoder (Some (Transaction_Encode B (src_CurrentTX s))))
      else if key = str ''index'' then dbPut p b key (VUint16 (src_Idx s))
      else if key = str ''params'' then dbPut p b key (VEncoder (Some (Params_Encode B (src_Params s))))
      else if key = str ''phase'' then dbPut p b key (VEncoder (Some (Phase_Encode (src_Phase s))))
      else if key = str ''staging:state''
      then dbPut p b key (VEncoder (Some (PersistedState_Encode B (tx_State (src_StagingTX s)))))
      else case sigKeyIndex key of
          Some idx \<Rightarrow>
            (let sigs = tx_Sigs (src_StagingTX s) in
             if length sigs = 0 \<or> length sigs \<le> idx then dbPut p b key (VByteSlice [])
             else dbPut p b key (VByteSlice (case sigs ! idx of None \<Rightarrow> [] | Some x \<Rightarrow> x)))
        | None \<Rightarrow> Panic ''unknown key: '')"

definition dbPutSource ::
    "'m channel_backend_scheme \<Rightarrow> bytes \<Rightarrow> Source \<Rightarrow> bytes list \<Rightarrow> batch \<Rightarrow> batch res" where
  "dbPutSource B p s keys b = foldR (dbPutSourceField B p s) keys b"

text \<open>Errors before the batches are applied leave the database as it is.\<close>

definition applied :: "memdb \<Rightarrow> batch res \<Rightarrow> memdb \<times> unit res" where
  "applied d r = (case r of
      OK b \<Rightarrow> (case batch_Apply b d of (d', x) \<Rightarrow> (d', with_msg ''applying batch'' x))
    | Err e \<Rightarrow> (d, Err e)
    | Panic s \<Rightarrow> (d, Panic s))"

definition applied2 :: "memdb \<Rightarrow> (batch \<times> batch) res \<Rightarrow> memdb \<times> unit res" where
  "applied2 d r = (case r of
      OK (b, peerb) \<Rightarrow> (case batch_Apply b d of
          (d', OK _) \<Rightarrow> (case batch_Apply peerb d' of
              (d'', x) \<Rightarrow> (d'', with_msg ''applying peer batch'' x))
        | (d', x) \<Rightarrow> (d', with_msg ''applying channel batch'' x))
    | Err e \<Rightarrow> (d, Err e)
    | Panic s \<Rightarrow> (d, Panic s))"

definition ChannelCreated ::
    "'m channel_backend_scheme \<Rightarrow> memdb \<Rightarrow> Source \<Rightarrow> address list \<Rightarrow> ID option \<Rightarrow> memdb \<times> unit res" where
  "ChannelCreated B d s peers parent =
     (let i = p_id (src_Params s); p = channelDB i in
      applied2 d
       (bindR (dbPutSource B p s
          ([str ''current'', str ''index'', str ''params'', str ''phase'', str ''staging:state''] @
           sigKeys (length (p_Parts (src_Params s)))) (NewBatch d)) (\<lambda>b.
        bindR (with_msg ''putting parent ID''
          (dbPut p b (str ''parent'') (VEncoder (Some (optChannelID_Encode parent))))) (\<lambda>b.
        bindR (with_msg ''putting peers into channel table''
          (dbPut p b kv_Peers (VEncoder (Some (AddressesWithLen_Encode B peers))))) (\<lambda>b.
        bindR (foldR (\<lambda>peer pb. bindR (peerChannelKey B peer i) (\<lambda>key.
          OK (tableBatch_Put kv_PeerDB pb key []))) peers (NewBatch d)) (\<lambda>pb.
        OK (b, pb)))))))"

definition getParamsForChan :: "'m channel_backend_scheme \<Rightarrow> memdb \<Rightarrow> ID \<Rightarrow> Params res" where
  "getParamsForChan B d i =
     bindR (with_msg ''unable to retrieve params from db'' (table_GetBytes (channelDB i) d (str ''params''))) (\<lambda>b.
     bindR (with_msg ''unable to decode channel parameters'' (decArg (Params_Decode B) b)) (\<lambda>(p, _). OK p))"

definition channelPeers :: "'m channel_backend_scheme \<Rightarrow> memdb \<Rightarrow> ID \<Rightarrow> address list res" where
  "channelPeers B d i =
     bindR (with_msg ''unable to get peerlist from db'' (table_Get (channelDB i) d kv_Peers)) (\<lambda>peers.
     bindR (with_msg ''decoding peerlist'' (decArg (AddressesWithLen_Decode B) peers)) (\<lambda>(ps, _). OK ps))"

definition ChannelRemoved :: "'m channel_backend_scheme \<Rightarrow> memdb \<Rightarrow> ID \<Rightarrow> memdb \<times> unit res" where
  "ChannelRemoved B d i =
     (let p = channelDB i in
      applied2 d
       (bindR (getParamsForChan B d i) (\<lambda>params.
        let keys = [str ''current'', str ''index'', str ''params'', str ''peers'', str ''phase'',
                    str ''staging:state''] @ sigKeys (length (p_Parts params));
            b = fold (\<lambda>key b. tableBatch_Delete p b key) keys (NewBatch d) in
        bindR (with_msg ''retrieving peers for channel'' (channelPeers B d i)) (\<lambda>peers.
        bindR (foldR (\<lambda>peer pb. bindR (peerChannelKey B peer i) (\<lambda>key.
          OK (tableBatch_Delete kv_PeerDB pb key))) peers (NewBatch d)) (\<lambda>pb.
        OK (b, pb))))))"

definition Staged :: "'m channel_backend_scheme \<Rightarrow> memdb \<Rightarrow> Source \<Rightarrow> memdb \<times> unit res" where
  "Staged B d s = applied d (dbPutSource B (channelDB (p_id (src_Params s))) s
     [str ''staging:state'', str ''phase''] (NewBatch d))"

definition SigAdded :: "'m channel_backend_scheme \<Rightarrow> memdb \<Rightarrow> Source \<Rightarrow> Index \<Rightarrow> memdb \<times> unit res" where
  "SigAdded B d s idx = applied d (dbPutSource B (channelDB (p_id (src_Params s))) s
     [sigKey (unat idx) (length (p_Parts (src_Params s)))] (NewBatch d))"

definition Enabled :: "'m channel_backend_scheme \<Rightarrow> memdb \<Rightarrow> Source \<Rightarrow> memdb \<times> unit res" where
  "Enabled B d s = applied d (dbPutSource B (channelDB (p_id (src_Params s))) s
     ([str ''staging:state'', str ''current'', str ''phase''] @
      sigKeys (length (p_Parts (src_Params s)))) (NewBatch d))"

text \<open>\<open>PhaseChanged\<close> writes to the table directly.\<close>

definition PhaseChanged :: "memdb \<Rightarrow> Source \<Rightarrow> memdb \<times> unit res" where
  "PhaseChanged d s =
     (case bindR (with_msg ''encoding '' (Encode [VEncoder (Some (Phase_Encode (src_Phase s)))])) (\<lambda>buf.
             with_msg ''putting '' (table_PutBytes (channelDB (p_id (src_Params s))) d (str ''phase'') buf)) of
        OK d' \<Rightarrow> (d', OK ())
      | Err e \<Rightarrow> (d, Err e)
      | Panic x \<Rightarrow> (d, Panic x))"

section \<open>The restorer\<close>

record pchannel =
  pc_Idx :: Index
  pc_Params :: "Params option"
  pc_StagingTX :: Transaction
  pc_CurrentTX :: Transaction
  pc_Phase :: Phase
  pc_Peers :: "address list"
  pc_Parent :: "ID option"

definition NewChannel :: pchannel where
  "NewChannel = \<lparr>pc_Idx = 0, pc_Params = None, pc_StagingTX = zeroTransaction,
     pc_CurrentTX = zeroTransaction, pc_Phase = InitActing, pc_Peers = [], pc_Parent = None\<rparr>"

record chan_iter =
  ci_err :: "goerr option"
  ci_ch :: pchannel
  ci_its :: "iterator list"

definition noOpts :: byte where "noOpts = 0"
definition allowEnd :: byte where "allowEnd = push_bit 1 1"
definition allowEmpty :: byte where "allowEmpty = push_bit 2 1"

definition isSetIn :: "byte \<Rightarrow> byte \<Rightarrow> bool" where
  "isSetIn opt opts \<longleftrightarrow> opt AND opts = opt"

text \<open>The loop at the head of \<open>decodeNext\<close>: move to the next entry, dropping exhausted iterators as
  far as \<open>recoverFromEmptyIterator\<close> allows.\<close>

primrec seekNext :: "byte \<Rightarrow> iterator list \<Rightarrow> bool \<times> goerr option \<times> iterator list" where
  "seekNext opts [] = (False, None, [])"
| "seekNext opts (it # its) = (case it_Next it of (found, it') \<Rightarrow>
     if found then (True, None, it' # its)
     else if \<not> isSetIn allowEnd opts
     then (False, Some (ErrNew ''iterator ended; expected key ''), its)
     else if its = [] then (False, None, []) else seekNext opts its)"

text \<open>\<open>decodeNext\<close> returns whether it succeeded, and the decoded value if there was one.\<close>

definition decodeNext ::
    "'a decoder \<Rightarrow> byte \<Rightarrow> chan_iter \<Rightarrow> (bool \<times> 'a option \<times> chan_iter) res" where
  "decodeNext dec opts ci =
     (if ci_its ci = [] then Panic ''index out of range''
      else case seekNext opts (ci_its ci) of (found, e, its) \<Rightarrow>
        let ci' = ci\<lparr>ci_its := its\<rparr> in
        if \<not> found then
          OK (False, None, (case e of None \<Rightarrow> ci' | Some x \<Rightarrow> ci'\<lparr>ci_err := Some x\<rparr>))
        else bindR (it_ValueBytes (hd its)) (\<lambda>buf.
          if buf = [] then
            if isSetIn allowEmpty opts then OK (True, None, ci')
            else OK (False, None, ci'\<lparr>ci_err := Some (ErrNew ''unexpected empty value'')\<rparr>)
          else case with_msg ''decoding '' (decArg dec buf) of
              Err e \<Rightarrow> OK (False, None, ci'\<lparr>ci_err := Some e\<rparr>)
            | Panic s \<Rightarrow> Panic s
            | OK (v, rest) \<Rightarrow>
                if rest \<noteq> [] then OK (False, Some v,
                  ci'\<lparr>ci_err := Some (ErrNew ''decoding %s incomplete (%d bytes left)'')\<rparr>)
                else OK (True, Some v, ci'\<lparr>ci_err := None\<rparr>)))"

text \<open>One field of a channel: decode it, store it, and stop when that failed.\<close>

definition field ::
    "'a decoder \<Rightarrow> byte \<Rightarrow> ('a \<Rightarrow> pchannel \<Rightarrow> pchannel) \<Rightarrow> (chan_iter \<Rightarrow> (bool \<times> chan_iter) res) \<Rightarrow>
     chan_iter \<Rightarrow> (bool \<times> chan_iter) res" where
  "field dec opts upd k ci =
     bindR (decodeNext dec opts ci) (\<lambda>(ok, v, ci').
     let ci'' = (case v of None \<Rightarrow> ci' | Some x \<Rightarrow> ci'\<lparr>ci_ch := upd x (ci_ch ci')\<rparr>) in
     if ok then k ci'' else OK (False, ci''))"

text \<open>The signatures: the result of \<open>decodeNext\<close> is ignored.\<close>

primrec sigFields :: "'m channel_backend_scheme \<Rightarrow> nat list \<Rightarrow> chan_iter \<Rightarrow> chan_iter res" where
  "sigFields B [] ci = OK ci"
| "sigFields B (i # is) ci =
     bindR (decodeNext (SigDec_Decode B) allowEmpty ci) (\<lambda>(ok, v, ci').
     sigFields B is (case v of None \<Rightarrow> ci'
       | Some x \<Rightarrow> ci'\<lparr>ci_ch := (ci_ch ci')\<lparr>pc_StagingTX :=
           (pc_StagingTX (ci_ch ci'))\<lparr>tx_Sigs := (tx_Sigs (pc_StagingTX (ci_ch ci')))[i := x]\<rparr>\<rparr>\<rparr>))"

definition ci_numParts :: "chan_iter \<Rightarrow> nat" where
  "ci_numParts ci = (case pc_Params (ci_ch ci) of None \<Rightarrow> 0 | Some p \<Rightarrow> length (p_Parts p))"

text \<open>The staging transaction, the last part of \<open>Next\<close>.\<close>

definition ci_staging :: "'m channel_backend_scheme \<Rightarrow> chan_iter \<Rightarrow> (bool \<times> chan_iter) res" where
  "ci_staging B ci =
     bindR (sigFields B [0..<ci_numParts ci]
       (ci\<lparr>ci_ch := (ci_ch ci)\<lparr>pc_StagingTX := (pc_StagingTX (ci_ch ci))
            \<lparr>tx_Sigs := replicate (ci_numParts ci) None\<rparr>\<rparr>\<rparr>))
       (field (PersistedState_Decode B) allowEmpty
          (\<lambda>v c. c\<lparr>pc_StagingTX := (pc_StagingTX c)\<lparr>tx_State := v\<rparr>\<rparr>) (\<lambda>ci. OK (True, ci)))"

definition ci_Next :: "'m channel_backend_scheme \<Rightarrow> chan_iter \<Rightarrow> (bool \<times> chan_iter) res" where
  "ci_Next B ci0 =
     (if ci_its ci0 = [] then OK (False, ci0)
      else
       field (Transaction_Decode B) allowEnd (\<lambda>v c. c\<lparr>pc_CurrentTX := v\<rparr>)
      (field decUint16 noOpts (\<lambda>v c. c\<lparr>pc_Idx := v\<rparr>)
      (field (Params_Decode B) noOpts (\<lambda>v c. c\<lparr>pc_Params := Some v\<rparr>)
      (field optChannelID_Decode noOpts (\<lambda>v c. c\<lparr>pc_Parent := v\<rparr>)
      (field (AddressesWithLen_Decode B) noOpts (\<lambda>v c. c\<lparr>pc_Peers := v\<rparr>)
      (field Phase_Decode noOpts (\<lambda>v c. c\<lparr>pc_Phase := v\<rparr>) (ci_staging B))))))
       (ci0\<lparr>ci_ch := NewChannel\<rparr>))"

definition ci_Close :: "chan_iter \<Rightarrow> unit res" where
  "ci_Close ci = (case ci_err ci of None \<Rightarrow> OK () | Some e \<Rightarrow> Err e)"

definition RestoreAll :: "memdb \<Rightarrow> chan_iter" where
  "RestoreAll d = \<lparr>ci_err = None, ci_ch = NewChannel, ci_its = [table_NewIterator kv_ChannelDB d]\<rparr>"

definition RestoreChannel :: "'m channel_backend_scheme \<Rightarrow> memdb \<Rightarrow> ID \<Rightarrow> pchannel res" where
  "RestoreChannel B d i =
     bindR (ci_Next B \<lparr>ci_err = None, ci_ch = NewChannel,
              ci_its = [table_NewIteratorWithPrefix kv_ChannelDB d i]\<rparr>) (\<lambda>(found, ci).
     if found then bindR (ci_Close ci) (\<lambda>_. OK (ci_ch ci))
     else bindR (with_msg ''error restoring channel %x'' (ci_Close ci)) (\<lambda>_.
       Err (ErrNew ''could not find channel %x'')))"

primrec restoreIds :: "bytes \<Rightarrow> memdb \<Rightarrow> (bytes \<times> bytes) list \<Rightarrow> iterator list res" where
  "restoreIds p d [] = OK []"
| "restoreIds p d (kv # kvs) =
     bindR (with_msg ''decode channel id'' (decArg decBytes32 (drop (length p) (fst kv)))) (\<lambda>(i, _).
     bindR (restoreIds p d kvs) (\<lambda>its.
     OK (table_NewIteratorWithPrefix kv_ChannelDB d i # its)))"

definition RestorePeer :: "'m channel_backend_scheme \<Rightarrow> memdb \<Rightarrow> address \<Rightarrow> chan_iter res" where
  "RestorePeer B d addr =
     bindR (with_msg ''restoring peer'' (peerChannelsKey B addr)) (\<lambda>key.
     let p = kv_PeerDB @ key in
     bindR (it_drain (table_NewIterator p d)) (\<lambda>kvs.
     bindR (restoreIds p d kvs) (\<lambda>its.
     OK \<lparr>ci_err = None, ci_ch = NewChannel, ci_its = its\<rparr>)))"

text \<open>The peers of all channels, in the order in which their keys appear; the source collects them in
  a map, so each peer occurs once.\<close>

definition ActivePeers :: "'m channel_backend_scheme \<Rightarrow> memdb \<Rightarrow> address list res" where
  "ActivePeers B d =
     bindR (it_drain (table_NewIterator kv_PeerDB d)) (\<lambda>kvs.
     bindR (mapR (\<lambda>kv. bindR (with_msg ''decoding peer key (%x)''
         (wb_DecodeAddress B (drop (length kv_PeerDB) (fst kv)))) (\<lambda>(a, _).
         bindR (Key B a) (\<lambda>_. OK a))) kvs) (\<lambda>as.
     OK (remdups as)))"

definition eatExpect :: "bytes \<Rightarrow> unit decoder" where
  "eatExpect tok =
     bindD (msgD ''reading'' (ReadFull (length tok))) (\<lambda>buf.
     bindD (checkD (err_if (buf \<noteq> tok) (ErrNew ''expected %s, got %s.''))) (\<lambda>_. returnD ()))"

definition decodePeerChanID :: "'m channel_backend_scheme \<Rightarrow> bytes \<Rightarrow> (address \<times> ID) res" where
  "decodePeerChanID B key =
     bindR (bindD (msgD ''decode peer address'' (wb_DecodeAddress B)) (\<lambda>addr.
            bindD (msgD ''key: %x'' (eatExpect (str '':channel:''))) (\<lambda>_.
            bindD (msgD ''decode channel id'' (decArg decBytes32)) (\<lambda>i. returnD (addr, i)))) key)
       (\<lambda>(r, _). OK r)"

section \<open>Order of the keys\<close>

lemma length_decBytes_pos [simp]: "0 < length (decBytes n)"
  by (subst decBytes.simps) simp

lemma decPad_Suc:
  assumes "0 < w"
  shows "decPad (Suc w) i = decPad w (i div 10) @ [of_nat (48 + i mod 10)]"
proof (cases "i < 10")
  case True
  then have "decBytes i = [of_nat (48 + i)]" "decBytes (i div 10) = [48]"
    by (subst decBytes.simps, simp)+
  moreover have "replicate (w - Suc 0) (48 :: byte) @ [48] = replicate w 48"
    using assms by (metis Suc_pred replicate_Suc replicate_append_same)
  ultimately show ?thesis
    using True by (simp add: decPad_def)
next
  case False
  then have "decBytes i = decBytes (i div 10) @ [of_nat (48 + i mod 10)]"
    by (subst decBytes.simps) simp
  then show ?thesis
    by (simp add: decPad_def)
qed

lemma digit_less_iff:
  assumes "a < 10" "b < 10"
  shows "(of_nat (48 + a) :: byte) < of_nat (48 + b) \<longleftrightarrow> a < b"
    "(of_nat (48 + a) :: byte) = of_nat (48 + b) \<longleftrightarrow> a = b"
  using assms by (simp_all add: word_less_nat_alt word_unat_eq_iff del: of_nat_add)

lemma snoc_less_iff:
  fixes xs ys :: bytes
  assumes "length xs = length ys"
  shows "xs @ [a] < ys @ [b] \<longleftrightarrow> xs < ys \<or> xs = ys \<and> a < b"
  using assms by (induction xs ys rule: list_induct2) auto

lemma length_decPad: "0 < w \<Longrightarrow> i < 10 ^ w \<Longrightarrow> length (decPad w i) = w"
proof (induction w arbitrary: i)
  case (Suc w)
  show ?case
  proof (cases "w = 0")
    case True
    with Suc.prems have "decBytes i = [of_nat (48 + i)]"
      by (subst decBytes.simps) simp
    with True show ?thesis
      by (simp add: decPad_def)
  next
    case False
    then show ?thesis
      using Suc.IH [of "i div 10"] Suc.prems by (simp add: decPad_Suc less_mult_imp_div_less mult.commute)
  qed
qed simp

lemma decPad_less:
  assumes "0 < w" "i < j" "j < 10 ^ w"
  shows "decPad w i < decPad w j"
  using assms
proof (induction w arbitrary: i j)
  case (Suc w)
  show ?case
  proof (cases "w = 0")
    case True
    with Suc.prems have ij: "i < 10" "j < 10"
      by simp_all
    then have "decBytes i = [of_nat (48 + i)]" "decBytes j = [of_nat (48 + j)]"
      by (subst decBytes.simps, simp)+
    with True Suc.prems digit_less_iff(1) [OF ij] show ?thesis
      by (simp add: decPad_def del: of_nat_add)
  next
    case False
    have "j div 10 < 10 ^ w" "i div 10 \<le> j div 10"
      using Suc.prems by (simp_all add: less_mult_imp_div_less mult.commute div_le_mono)
    then have len: "length (decPad w (i div 10)) = length (decPad w (j div 10))"
      using False by (simp add: length_decPad)
    show ?thesis
    proof (cases "i div 10 = j div 10")
      case True
      then have "i mod 10 < j mod 10"
        using Suc.prems(2) by (metis add_less_cancel_left mult_div_mod_eq)
      with True len digit_less_iff [of "i mod 10" "j mod 10"] False show ?thesis
        by (simp add: decPad_Suc snoc_less_iff del: of_nat_add)
    next
      case ne: False
      with \<open>i div 10 \<le> j div 10\<close> have "i div 10 < j div 10"
        by simp
      with Suc.IH [of "i div 10" "j div 10"] \<open>j div 10 < 10 ^ w\<close> False len show ?thesis
        by (simp add: decPad_Suc snoc_less_iff)
    qed
  qed
qed simp

lemma ceilLog10_bound: "n \<le> 10 ^ ceilLog10 n"
proof (induction n rule: ceilLog10.induct)
  case (1 n)
  show ?case
  proof (cases "n \<le> 1")
    case True
    then show ?thesis
      by (subst ceilLog10.simps) simp
  next
    case False
    with 1 have "(n + 9) div 10 \<le> 10 ^ ceilLog10 ((n + 9) div 10)"
      by simp
    then have "n \<le> 10 * 10 ^ ceilLog10 ((n + 9) div 10)"
      by linarith
    with False show ?thesis
      by (subst ceilLog10.simps) simp
  qed
qed

lemma ceilLog10_pos: "1 < n \<Longrightarrow> 0 < ceilLog10 n"
  by (subst ceilLog10.simps) simp

lemma same_prefix_less [simp]: "(p :: bytes) @ xs < p @ ys \<longleftrightarrow> xs < ys"
  by (induction p) auto

lemma sigKeys_sorted: "sorted_wrt (<) (sigKeys n)"
proof (cases "n \<le> 1")
  case True
  then show ?thesis
    by (cases n) (auto simp: sigKeys_def)
next
  case False
  have "decPad (ceilLog10 n) i < decPad (ceilLog10 n) j" if "i < j" "j < n" for i j
    using that False ceilLog10_bound [of n] by (intro decPad_less ceilLog10_pos) auto
  then show ?thesis
    by (auto simp: sigKeys_def sorted_wrt_map intro!: sorted_wrt_mono_rel [OF _ sorted_wrt_upt])
qed

text \<open>All keys of a channel in the order in which the restorer expects them.\<close>

definition chanKeys :: "nat \<Rightarrow> bytes list" where
  "chanKeys n = [str ''current'', str ''index'', str ''params'', str ''parent'', str ''peers'', str ''phase''] @
     sigKeys n @ [str ''staging:state'']"

lemma sigKeys_between:
  assumes "k \<in> set (sigKeys n)"
  shows "str ''phase'' < k" "k < str ''staging:state''"
  using assms by (auto simp: sigKeys_def kv_SigKey_def str_def)

lemma chanKeys_sorted: "sorted_wrt (<) (chanKeys n)"
proof -
  let ?h = "[str ''current'', str ''index'', str ''params'', str ''parent'', str ''peers'', str ''phase'']"
  have h: "sorted_wrt (<) ?h" "\<forall>x \<in> set ?h. x \<le> str ''phase''" "str ''phase'' < str ''staging:state''"
    by (simp_all add: str_def)
  have "\<forall>x \<in> set ?h. \<forall>y \<in> set (sigKeys n @ [str ''staging:state'']). x < y"
    using h(2,3) sigKeys_between(1) [of _ n] le_less_trans unfolding set_append by fastforce
  moreover have "sorted_wrt (<) (sigKeys n @ [str ''staging:state''])"
    using sigKeys_sorted [of n] sigKeys_between(2) [of _ n] unfolding sorted_wrt_append by simp
  ultimately show ?thesis
    unfolding chanKeys_def sorted_wrt_append [of _ ?h] using h(1) by blast
qed

end
