(* ===== verification/Perun_Restore.thy ===== *)
theory Perun_Restore
  imports Perun_Persist
begin

text \<open>
  What the key-value persister stores is what its restorer reads.  \<open>persisted\<close> says that the
  database holds exactly the entries of a channel source; the persister's methods establish and
  keep it, and under it \<open>RestoreChannel\<close> returns the source.
\<close>

section \<open>The stored values\<close>

text \<open>The value that the persister writes at a key.\<close>

definition fieldValue :: "'m channel_backend_scheme \<Rightarrow> Source \<Rightarrow> bytes \<Rightarrow> bytes res" where
  "fieldValue B s key =
     (if key = str ''current'' then Encode [VEncoder (Some (Transaction_Encode B (src_CurrentTX s)))]
      else if key = str ''index'' then Encode [VUint16 (src_Idx s)]
      else if key = str ''params'' then Encode [VEncoder (Some (Params_Encode B (src_Params s)))]
      else if key = str ''phase'' then Encode [VEncoder (Some (Phase_Encode (src_Phase s)))]
      else if key = str ''staging:state''
      then Encode [VEncoder (Some (PersistedState_Encode B (tx_State (src_StagingTX s))))]
      else case sigKeyIndex key of
          Some idx \<Rightarrow> Encode [VByteSlice
            (let sigs = tx_Sigs (src_StagingTX s) in
             if idx < length sigs then case sigs ! idx of None \<Rightarrow> [] | Some x \<Rightarrow> x else [])]
        | None \<Rightarrow> Panic ''unknown key: '')"

definition chanValue ::
    "'m channel_backend_scheme \<Rightarrow> Source \<Rightarrow> address list \<Rightarrow> ID option \<Rightarrow> bytes \<Rightarrow> bytes res" where
  "chanValue B s peers parent key =
     (if key = str ''parent'' then Encode [VEncoder (Some (optChannelID_Encode parent))]
      else if key = str ''peers'' then Encode [VEncoder (Some (AddressesWithLen_Encode B peers))]
      else fieldValue B s key)"

lemma dbPutSourceField_OK:
  "fieldValue B s key = OK v \<Longrightarrow> dbPutSourceField B p s key b = OK (tableBatch_Put p b key v)"
  by (auto simp: fieldValue_def dbPutSourceField_def dbPut_def Let_def
      split: if_splits option.splits)

lemma dbPutSource_OK:
  assumes "\<And>key. key \<in> set keys \<Longrightarrow> fieldValue B s key = OK (v key)"
  shows "dbPutSource B p s keys b = OK (fold batch_do (map (\<lambda>key. BPut (p @ key) (v key)) keys) b)"
  using assms unfolding dbPutSource_def
  by (induction keys arbitrary: b) (simp_all add: dbPutSourceField_OK tableBatch_Put_def pkey_def)

lemma fold_map_do_puts:
  "fold map_do (map (\<lambda>key. BPut (p @ key) (v key)) keys) m k =
     (if \<exists>key \<in> set keys. k = p @ key then Some (v (drop (length p) k)) else m k)"
  by (induction keys arbitrary: m) auto

lemma batch_deletes_puts:
  "b_deletes b = [] \<Longrightarrow> b_deletes (fold batch_do (map (\<lambda>key. BPut (f key) (v key)) keys) b) = []"
  by (induction keys arbitrary: b) (simp_all add: batch_Put_def)

lemma foldR_cong: "(\<And>x b. x \<in> set xs \<Longrightarrow> f x b = g x b) \<Longrightarrow> foldR f xs b = foldR g xs b"
proof (induction xs arbitrary: b)
  case (Cons x xs)
  then show ?case
    by (cases "f x b") (metis bindR.simps foldR.simps(2) list.set_intros)+
qed simp

text \<open>Applying a batch of writes.\<close>

lemma apply_puts:
  assumes "db_inv d"
  shows "\<exists>d'. batch_Apply (fold batch_do (map (\<lambda>key. BPut (p @ key) (v key)) keys) batch_Reset) d = (d', OK ()) \<and>
     db_inv d' \<and> (\<forall>k. db_map d' k =
       (if \<exists>key \<in> set keys. k = p @ key then Some (v (drop (length p) k)) else db_map d k))"
proof -
  let ?ops = "map (\<lambda>key. BPut (p @ key) (v key)) keys"
  have "b_deletes (fold batch_do ?ops batch_Reset) = []"
    by (rule batch_deletes_puts) (simp add: batch_Reset_def)
  with batch_Apply_OK [OF assms, of "fold batch_do ?ops batch_Reset"]
    batch_effect_fold [OF batch_inv_Reset, of ?ops "db_map d"]
  show ?thesis
    by (auto simp: fold_map_do_puts)
qed

section \<open>Stored channels\<close>

definition persisted ::
    "'m channel_backend_scheme \<Rightarrow> memdb \<Rightarrow> Source \<Rightarrow> address list \<Rightarrow> ID option \<Rightarrow> bool" where
  "persisted B d s peers parent \<longleftrightarrow> db_inv d \<and>
     (let i = p_id (src_Params s); keys = chanKeys (length (p_Parts (src_Params s))) in
      (\<forall>key \<in> set keys. \<exists>v. chanValue B s peers parent key = OK v \<and>
         db_map d (channelDB i @ key) = Some v) \<and>
      (\<forall>k. prefix (kv_ChannelDB @ i) k \<and> db_map d k \<noteq> None \<longrightarrow> (\<exists>key \<in> set keys. k = channelDB i @ key)))"

text \<open>Writing the fields in which a source has changed.\<close>

lemma persisted_update:
  assumes "persisted B d s peers parent" "src_Params s' = src_Params s"
    and keys: "set keys \<subseteq> set (chanKeys (length (p_Parts (src_Params s)))) - {str ''parent'', str ''peers''}"
    and vals: "\<And>key. key \<in> set keys \<Longrightarrow> \<exists>v. fieldValue B s' key = OK v"
    and same: "\<And>key. key \<in> set (chanKeys (length (p_Parts (src_Params s)))) - set keys \<Longrightarrow>
      chanValue B s' peers parent key = chanValue B s peers parent key"
  shows "\<exists>d'. applied d (dbPutSource B (channelDB (p_id (src_Params s'))) s' keys (NewBatch d)) = (d', OK ()) \<and>
     persisted B d' s' peers parent \<and>
     (\<forall>k. \<not> prefix (channelDB (p_id (src_Params s))) k \<longrightarrow> db_map d' k = db_map d k)"
proof -
  let ?p = "channelDB (p_id (src_Params s))" and ?ks = "chanKeys (length (p_Parts (src_Params s)))"
  define v where "v = (\<lambda>key. case fieldValue B s' key of OK x \<Rightarrow> x | _ \<Rightarrow> [])"
  have v: "fieldValue B s' key = OK (v key)" if "key \<in> set keys" for key
    using vals [OF that] by (auto simp: v_def)
  have inv: "db_inv d"
    using assms(1) by (simp add: persisted_def)
  obtain d' where d': "batch_Apply (fold batch_do (map (\<lambda>key. BPut (?p @ key) (v key)) keys) batch_Reset) d = (d', OK ())"
    "db_inv d'" "\<And>k. db_map d' k = (if \<exists>key \<in> set keys. k = ?p @ key then Some (v (drop (length ?p) k)) else db_map d k)"
    using apply_puts [OF inv, of ?p v keys] by blast
  have "applied d (dbPutSource B ?p s' keys (NewBatch d)) = (d', OK ())"
    using d'(1) by (simp add: dbPutSource_OK [of keys B s' v, OF v] applied_def NewBatch_def)
  moreover have "chanValue B s' peers parent key = OK (v key)" if "key \<in> set keys" for key
    using v [OF that] keys that by (auto simp: chanValue_def)
  then have "persisted B d' s' peers parent"
    using assms(1,2) keys same d'(2,3) unfolding persisted_def Let_def by auto
  moreover have "db_map d' k = db_map d k" if "\<not> prefix ?p k" for k
    using that d'(3) [of k] by (auto split: if_splits)
  ultimately show ?thesis
    using assms(2) by auto
qed

section \<open>The keys of signatures\<close>

lemma decodeIdx_append:
  "decodeIdxFromDBKey (xs @ [b]) = 10 * decodeIdxFromDBKey xs + (unat b - 48)"
  by (simp add: decodeIdxFromDBKey_def)

lemma digit_byte: "m < 10 \<Longrightarrow> unat (of_nat (48 + m) :: byte) = 48 + m"
  by (simp add: unat_of_nat del: of_nat_add)

lemma decBytes_digits: "list_all isDigit (decBytes n) \<and> decodeIdxFromDBKey (decBytes n) = n"
proof (induction n rule: decBytes.induct)
  case (1 n)
  have dig: "isDigit (of_nat (48 + m))" if "m < 10" for m
    using digit_byte [OF that] that by (simp add: isDigit_def word_le_nat_alt del: of_nat_add)
  show ?case
  proof (cases "n < 10")
    case True
    with dig [of n] digit_byte [of n] show ?thesis
      by (subst (1 2) decBytes.simps) (simp add: decodeIdxFromDBKey_def del: of_nat_add)
  next
    case False
    with 1 dig [of "n mod 10"] digit_byte [of "n mod 10"] show ?thesis
      by (subst (1 2) decBytes.simps) (simp add: decodeIdx_append del: of_nat_add)
  qed
qed

lemma decodeIdx_pad: "decodeIdxFromDBKey (replicate k 48 @ xs) = decodeIdxFromDBKey xs"
  by (induction k) (simp_all add: decodeIdxFromDBKey_def)

lemma sigKeyIndex_sigKey:
  assumes "i < 2 ^ 63"
  shows "sigKeyIndex (sigKey i n) = Some i"
proof -
  have "decPad (ceilLog10 n) i \<noteq> []"
    using length_decBytes_pos [of i] by (auto simp: decPad_def)
  moreover have "list_all isDigit (decPad (ceilLog10 n) i)"
    using decBytes_digits [of i] by (auto simp: decPad_def isDigit_def list_all_iff)
  moreover have "decodeIdxFromDBKey (decPad (ceilLog10 n) i) = i"
    using decBytes_digits [of i] by (simp add: decPad_def decodeIdx_pad)
  ultimately show ?thesis
    using assms by (simp add: sigKeyIndex_def sigKey_def)
qed

lemma sigKeys_eq: "sigKeys n = map (\<lambda>i. sigKey i n) [0..<n]"
  by (simp add: sigKeys_def sigKey_def)

lemma sigKey_in: "i < n \<Longrightarrow> sigKey i n \<in> set (sigKeys n)"
  by (simp add: sigKeys_eq)

text \<open>The keys of a channel are pairwise different.\<close>

lemma key_neqs:
  "str ''index'' \<noteq> str ''current''" "str ''params'' \<noteq> str ''current''" "str ''params'' \<noteq> str ''index''"
  "str ''phase'' \<noteq> str ''current''" "str ''phase'' \<noteq> str ''index''" "str ''phase'' \<noteq> str ''params''"
  "str ''staging:state'' \<noteq> str ''current''" "str ''staging:state'' \<noteq> str ''index''"
  "str ''staging:state'' \<noteq> str ''params''" "str ''staging:state'' \<noteq> str ''phase''"
  "str ''current'' \<noteq> str ''parent''" "str ''current'' \<noteq> str ''peers''" "str ''index'' \<noteq> str ''parent''"
  "str ''index'' \<noteq> str ''peers''" "str ''params'' \<noteq> str ''parent''" "str ''params'' \<noteq> str ''peers''"
  "str ''phase'' \<noteq> str ''parent''" "str ''phase'' \<noteq> str ''peers''" "str ''staging:state'' \<noteq> str ''parent''"
  "str ''staging:state'' \<noteq> str ''peers''" "str ''peers'' \<noteq> str ''parent''"
  by (simp_all add: str_def)

lemma sigKey_neqs:
  "sigKey i n \<noteq> str ''current''" "sigKey i n \<noteq> str ''index''" "sigKey i n \<noteq> str ''params''"
  "sigKey i n \<noteq> str ''phase''" "sigKey i n \<noteq> str ''parent''" "sigKey i n \<noteq> str ''peers''"
  "sigKey i n \<noteq> str ''staging:state''"
  by (simp_all add: sigKey_def kv_SigKey_def str_def)

definition sigBytes :: "Transaction \<Rightarrow> nat \<Rightarrow> bytes" where
  "sigBytes tx i = (if i < length (tx_Sigs tx) then case tx_Sigs tx ! i of None \<Rightarrow> [] | Some x \<Rightarrow> x else [])"

text \<open>The values at the keys.\<close>

lemma chanValue_at:
  "chanValue B s peers parent (str ''current'') = Encode [VEncoder (Some (Transaction_Encode B (src_CurrentTX s)))]"
  "chanValue B s peers parent (str ''index'') = Encode [VUint16 (src_Idx s)]"
  "chanValue B s peers parent (str ''params'') = Encode [VEncoder (Some (Params_Encode B (src_Params s)))]"
  "chanValue B s peers parent (str ''parent'') = Encode [VEncoder (Some (optChannelID_Encode parent))]"
  "chanValue B s peers parent (str ''peers'') = Encode [VEncoder (Some (AddressesWithLen_Encode B peers))]"
  "chanValue B s peers parent (str ''phase'') = Encode [VEncoder (Some (Phase_Encode (src_Phase s)))]"
  "chanValue B s peers parent (str ''staging:state'') =
     Encode [VEncoder (Some (PersistedState_Encode B (tx_State (src_StagingTX s))))]"
  unfolding chanValue_def fieldValue_def by (simp_all only: key_neqs key_neqs [symmetric] if_True if_False refl)

lemma fieldValue_sig:
  "i < 2 ^ 63 \<Longrightarrow> fieldValue B s (sigKey i n) = Encode [VByteSlice (sigBytes (src_StagingTX s) i)]"
  unfolding fieldValue_def sigBytes_def
  by (simp only: sigKey_neqs if_False sigKeyIndex_sigKey option.case Let_def)

lemma chanValue_sig:
  "i < 2 ^ 63 \<Longrightarrow> chanValue B s peers parent (sigKey i n) = Encode [VByteSlice (sigBytes (src_StagingTX s) i)]"
  unfolding chanValue_def by (simp only: sigKey_neqs if_False fieldValue_sig)

lemma fieldValue_eq_chanValue:
  "key \<noteq> str ''parent'' \<Longrightarrow> key \<noteq> str ''peers'' \<Longrightarrow> fieldValue B s key = chanValue B s peers parent key"
  by (simp add: chanValue_def)

section \<open>Walking over the entries\<close>

definition ci_at :: "pchannel \<Rightarrow> bytes list \<Rightarrow> bytes list \<Rightarrow> nat \<Rightarrow> chan_iter" where
  "ci_at ch ks vs j = \<lparr>ci_err = None, ci_ch = ch, ci_its = [\<lparr>it_next = j, it_keys = ks, it_values = vs\<rparr>]\<rparr>"

lemma decodeNext_at:
  assumes "length ks = length vs" "j < length vs" "vs ! j \<noteq> []" "decArg dec (vs ! j) = OK (x, [])"
  shows "decodeNext dec opts (ci_at ch ks vs j) = OK (True, Some x, ci_at ch ks vs (Suc j))"
  using assms by (simp add: decodeNext_def ci_at_def it_Next_def it_ValueBytes_def it_Value_def)

lemma decodeNext_empty:
  assumes "length ks = length vs" "j < length vs" "vs ! j = []"
  shows "decodeNext dec allowEmpty (ci_at ch ks vs j) = OK (True, None, ci_at ch ks vs (Suc j))"
  using assms
  by (simp add: decodeNext_def ci_at_def it_Next_def it_ValueBytes_def it_Value_def isSetIn_def)

lemma field_at:
  assumes "length ks = length vs" "j < length vs" "vs ! j \<noteq> []" "decArg dec (vs ! j) = OK (x, [])"
  shows "field dec opts upd k (ci_at ch ks vs j) = k (ci_at (upd x ch) ks vs (Suc j))"
  using assms by (simp add: field_def decodeNext_at) (simp add: ci_at_def)

lemma field_empty:
  assumes "length ks = length vs" "j < length vs" "vs ! j = []"
  shows "field dec allowEmpty upd k (ci_at ch ks vs j) = k (ci_at ch ks vs (Suc j))"
  using assms by (simp add: field_def decodeNext_empty)

text \<open>A stored value decodes to what was encoded.\<close>

lemma stored_dec:
  assumes "roundtrips (Encode_value v) dec x" "Encode [v] = OK bs" "\<And>y. dec [] \<noteq> OK (y, [])"
  shows "bs \<noteq> []" "decArg dec bs = OK (x, [])"
proof -
  have "roundtrips (Encode [v]) (decArg dec) x"
    by (intro rt_Encode_single rt_encArg assms)
  with assms(2) have "decArg dec (bs @ rest) = OK (x, rest)" for rest
    by (auto simp: roundtrips_def)
  from this [of "[]"] show dec: "decArg dec bs = OK (x, [])"
    by simp
  with assms(3) show "bs \<noteq> []"
    by (auto simp: decArg_def msgD_def)
qed

text \<open>The signatures of a transaction, padded with nil to the number of participants.\<close>

definition padSigs :: "nat \<Rightarrow> Transaction \<Rightarrow> sig list" where
  "padSigs n tx = map (\<lambda>i. if i < length (tx_Sigs tx) then tx_Sigs tx ! i else None) [0..<n]"

text \<open>The channel that is read back.\<close>

definition restored :: "Source \<Rightarrow> address list \<Rightarrow> ID option \<Rightarrow> pchannel" where
  "restored s peers parent =
     \<lparr>pc_Idx = src_Idx s, pc_Params = Some (src_Params s),
      pc_StagingTX = \<lparr>tx_State = tx_State (src_StagingTX s),
        tx_Sigs = padSigs (length (p_Parts (src_Params s))) (src_StagingTX s)\<rparr>,
      pc_CurrentTX = src_CurrentTX s, pc_Phase = src_Phase s, pc_Peers = peers, pc_Parent = parent\<rparr>"

definition source_ok ::
    "'m channel_backend_scheme \<Rightarrow> (address \<Rightarrow> bool) \<Rightarrow> (bytes \<Rightarrow> bool) \<Rightarrow> (asset \<Rightarrow> bool) \<Rightarrow> Source \<Rightarrow> bool" where
  "source_ok B wf_addr wf_sig wf_asset s \<longleftrightarrow>
     params_ok B wf_addr (src_Params s) \<and> length (p_id (src_Params s)) = 32 \<and>
     tx_ok B wf_addr wf_sig wf_asset (src_CurrentTX s) \<and>
     (case tx_State (src_StagingTX s) of None \<Rightarrow> True | Some st \<Rightarrow> state_ok B wf_addr wf_asset st) \<and>
     list_all (opt_ok wf_sig) (tx_Sigs (src_StagingTX s)) \<and> Some [] \<notin> set (tx_Sigs (src_StagingTX s)) \<and>
     phase_num (src_Phase s) < 256"

lemma Encode_encoder_OK_iff [simp]: "Encode [VEncoder (Some e)] = OK bs \<longleftrightarrow> e = OK bs"
  by (auto simp: Encode_def encArg_def Encode_value_def catE_OK_iff)

lemma Encode_bytes [simp]: "Encode [VByteSlice b] = OK b"
  by (simp add: Encode_def encArg_def Encode_value_def ByteSlice_Encode_def catE_def)

lemma Encode_uint16 [simp]: "\<exists>bs. Encode [VUint16 w] = OK bs"
  by (simp add: Encode_def encArg_def Encode_value_def catE_def)

lemma params_ok_numParts:
  "params_ok B wf_addr p \<Longrightarrow> length (p_Parts p) \<le> 1024"
  by (auto simp: params_ok_def ValidateParameters_def ValidateProposalParameters_def res_simps max_defs
      split: if_splits)

lemma roundtrips_OK: "roundtrips e d x \<Longrightarrow> \<exists>bs. e = OK bs"
  by (auto simp: roundtrips_def)

text \<open>No decoder of a channel's field succeeds on an empty value.\<close>

lemma dec_Nil:
  "decUint16 [] \<noteq> OK (w, [])"
  "Transaction_Decode B [] \<noteq> OK (t, [])"
  "Params_Decode B [] \<noteq> OK (p, [])"
  "optChannelID_Decode [] \<noteq> OK (i, [])"
  "AddressesWithLen_Decode B [] \<noteq> OK (as, [])"
  "Phase_Decode [] \<noteq> OK (ph, [])"
  "State_Decode B [] \<noteq> OK (s, [])"
  by (simp_all add: decUint16_def Transaction_Decode_def Params_Decode_def optChannelID_Decode_def
      AddressesWithLen_Decode_def Phase_Decode_def State_Decode_def decArg_def msgD_def bindD_def
      decUint8_def decUint64_def decBool_def decBytes32_def readLE_def ReadFull_def)

lemma optChannelID_rt:
  "(case parent of None \<Rightarrow> True | Some j \<Rightarrow> length j = 32) \<Longrightarrow>
   roundtrips (optChannelID_Encode parent) optChannelID_Decode parent"
  unfolding optChannelID_Encode_def optChannelID_Decode_def
  by (cases parent) (auto intro!: rt_Encode_Cons rt_encArg rt_bool rt_bytes32 rt_Encode_Nil)

context channel_codec
begin

lemma sigFields_at:
  assumes len: "length ks = length vs" "6 + n \<le> length vs" "m \<le> n"
    and vs: "\<And>i. i < n \<Longrightarrow> vs ! (6 + i) = sigBytes tx i"
    and sigs: "list_all (opt_ok wf_sig) (tx_Sigs tx)" "Some [] \<notin> set (tx_Sigs tx)"
  shows "sigFields B [m..<n] (ci_at (ch\<lparr>pc_StagingTX := t\<lparr>tx_Sigs := take m (padSigs n tx) @ replicate (n - m) None\<rparr>\<rparr>) ks vs (6 + m)) =
     OK (ci_at (ch\<lparr>pc_StagingTX := t\<lparr>tx_Sigs := padSigs n tx\<rparr>\<rparr>) ks vs (6 + n))"
  using len(3)
proof (induction "n - m" arbitrary: m)
  case 0
  then show ?case
    by (simp add: padSigs_def)
next
  case (Suc k)
  let ?S = "\<lambda>m. take m (padSigs n tx) @ replicate (n - m) None"
  let ?ci = "\<lambda>m j. ci_at (ch\<lparr>pc_StagingTX := t\<lparr>tx_Sigs := ?S m\<rparr>\<rparr>) ks vs j"
  from Suc have m: "m < n" "[m..<n] = m # [Suc m..<n]" "6 + m < length vs"
    using len(2) by (auto simp: upt_conv_Cons)
  have IH: "sigFields B [Suc m..<n] (?ci (Suc m) (6 + Suc m)) =
      OK (ci_at (ch\<lparr>pc_StagingTX := t\<lparr>tx_Sigs := padSigs n tx\<rparr>\<rparr>) ks vs (6 + n))"
    using Suc by (intro Suc.hyps(1)) auto
  have rep: "replicate (n - m) None = None # replicate (n - Suc m) None"
    using m(1) by (metis Suc_diff_Suc replicate_Suc)
  have S: "?S (Suc m) = (?S m)[m := padSigs n tx ! m]"
    using m(1) by (simp add: rep list_update_append take_Suc_conv_app_nth padSigs_def)
  show ?case
  proof (cases "padSigs n tx ! m")
    case None
    then have "vs ! (6 + m) = []" "?S (Suc m) = ?S m"
      using vs [OF m(1)] m(1) S rep
      by (auto simp: padSigs_def sigBytes_def nth_append split: if_splits intro!: list_update_same_conv [THEN iffD2])
    then show ?thesis
      using IH m(3) len(1) by (simp add: m(2) decodeNext_empty)
  next
    case (Some x)
    then have x: "m < length (tx_Sigs tx)" "tx_Sigs tx ! m = Some x"
      using m(1) by (auto simp: padSigs_def split: if_splits)
    then have "x \<noteq> []" "wf_sig x" "vs ! (6 + m) = x"
      using sigs vs [OF m(1)] by (auto simp: list_all_length opt_ok_def sigBytes_def in_set_conv_nth split: option.splits)
    moreover have "roundtrips (OK x) (SigDec_Decode B) (Some x)"
      using sig_rt [OF \<open>wf_sig x\<close>] unfolding SigDec_Decode_def
      by (rule roundtrips_bind_last) (simp add: returnD_def)
    then have "SigDec_Decode B (x @ rest) = OK (Some x, rest)" for rest
      by (simp add: roundtrips_def)
    from this [of "[]"] have "decArg (SigDec_Decode B) x = OK (Some x, [])"
      by (simp add: decArg_def msgD_def)
    ultimately show ?thesis
      using IH m(3) len(1) S Some by (simp add: m(2) decodeNext_at) (simp add: ci_at_def)
  qed
qed

end

definition stored_values ::
    "'m channel_backend_scheme \<Rightarrow> Source \<Rightarrow> address list \<Rightarrow> ID option \<Rightarrow> bytes list \<Rightarrow> bool" where
  "stored_values B s peers parent vs \<longleftrightarrow>
     list_all2 (\<lambda>key v. chanValue B s peers parent key = OK v) (chanKeys (length (p_Parts (src_Params s)))) vs"

lemma length_chanKeys [simp]: "length (chanKeys n) = 7 + n"
  by (simp add: chanKeys_def sigKeys_def)

lemma chanKeys_nth:
  "i < n \<Longrightarrow> chanKeys n ! (6 + i) = sigKey i n" "chanKeys n ! (6 + n) = str ''staging:state''"
  by (simp_all add: chanKeys_def sigKeys_eq nth_append)

lemma stored_values_nth:
  assumes "stored_values B s peers parent vs" "n = length (p_Parts (src_Params s))"
  shows "length vs = 7 + n" "\<And>j. j < 7 + n \<Longrightarrow> chanValue B s peers parent (chanKeys n ! j) = OK (vs ! j)"
  using assms by (auto simp: stored_values_def dest: list_all2_lengthD list_all2_nthD)

context channel_codec
begin

lemma stored_fields:
  assumes "source_ok B wf_addr wf_sig wf_asset s" "list_all wf_addr peers" "length peers < 2 ^ 16"
      "case parent of None \<Rightarrow> True | Some j \<Rightarrow> length j = 32"
    and vs: "stored_values B s peers parent vs"
  shows "vs ! 0 \<noteq> []" "decArg (Transaction_Decode B) (vs ! 0) = OK (src_CurrentTX s, [])"
      "vs ! 1 \<noteq> []" "decArg decUint16 (vs ! 1) = OK (src_Idx s, [])"
      "vs ! 2 \<noteq> []" "decArg (Params_Decode B) (vs ! 2) = OK (src_Params s, [])"
      "vs ! 3 \<noteq> []" "decArg optChannelID_Decode (vs ! 3) = OK (parent, [])"
      "vs ! 4 \<noteq> []" "decArg (AddressesWithLen_Decode B) (vs ! 4) = OK (peers, [])"
      "vs ! 5 \<noteq> []" "decArg Phase_Decode (vs ! 5) = OK (src_Phase s, [])"
proof -
  note val = stored_values_nth(2) [OF vs refl]
  show "vs ! 0 \<noteq> []" "decArg (Transaction_Decode B) (vs ! 0) = OK (src_CurrentTX s, [])"
    using stored_dec [OF rt_encoder [OF Transaction_rt [of "src_CurrentTX s"]], of "vs ! 0"] val [of 0] assms(1)
    by (simp_all add: source_ok_def chanKeys_def chanValue_at dec_Nil)
  show "vs ! 1 \<noteq> []" "decArg decUint16 (vs ! 1) = OK (src_Idx s, [])"
    using stored_dec [OF rt_uint16 [of "src_Idx s"], of "vs ! 1"] val [of 1]
    by (simp_all add: chanKeys_def chanValue_at dec_Nil)
  show "vs ! 2 \<noteq> []" "decArg (Params_Decode B) (vs ! 2) = OK (src_Params s, [])"
    using stored_dec [OF rt_encoder [OF Params_rt [of "src_Params s"]], of "vs ! 2"] val [of 2] assms(1)
    by (simp_all add: source_ok_def chanKeys_def chanValue_at dec_Nil)
  show "vs ! 3 \<noteq> []" "decArg optChannelID_Decode (vs ! 3) = OK (parent, [])"
    using stored_dec [OF rt_encoder [OF optChannelID_rt [OF assms(4)]], of "vs ! 3"] val [of 3]
    by (simp_all add: chanKeys_def chanValue_at dec_Nil)
  show "vs ! 4 \<noteq> []" "decArg (AddressesWithLen_Decode B) (vs ! 4) = OK (peers, [])"
    using stored_dec [OF rt_encoder [OF AddressesWithLen_rt [OF assms(2,3)]], of "vs ! 4"] val [of 4]
    by (simp_all add: chanKeys_def chanValue_at dec_Nil)
  show "vs ! 5 \<noteq> []" "decArg Phase_Decode (vs ! 5) = OK (src_Phase s, [])"
    using stored_dec [OF rt_encoder [OF Phase_rt [of "src_Phase s"]], of "vs ! 5"] val [of 5] assms(1)
    by (simp_all add: source_ok_def chanKeys_def chanValue_at dec_Nil)
qed

lemma stored_staging:
  assumes "source_ok B wf_addr wf_sig wf_asset s" "stored_values B s peers parent vs"
    and n: "n = length (p_Parts (src_Params s))"
  shows "tx_State (src_StagingTX s) = None \<Longrightarrow> vs ! (6 + n) = []"
    "tx_State (src_StagingTX s) = Some st \<Longrightarrow>
       vs ! (6 + n) \<noteq> [] \<and> decArg (PersistedState_Decode B) (vs ! (6 + n)) = OK (Some st, [])"
proof -
  have val: "PersistedState_Encode B (tx_State (src_StagingTX s)) = OK (vs ! (6 + n))"
    using stored_values_nth(2) [OF assms(2) n, of "6 + n"] chanKeys_nth(2) [of n] by (simp add: chanValue_at)
  then show "tx_State (src_StagingTX s) = None \<Longrightarrow> vs ! (6 + n) = []"
    by (simp add: PersistedState_Encode_def)
  assume st: "tx_State (src_StagingTX s) = Some st"
  have "roundtrips (State_Encode B st) (PersistedState_Decode B) (Some st)"
    using assms(1) st unfolding PersistedState_Decode_def
    by (intro roundtrips_bind_last [OF State_rt]) (simp_all add: source_ok_def returnD_def)
  moreover have "PersistedState_Decode B [] \<noteq> OK (y, [])" for y
    using dec_Nil(7) [of B] by (auto simp: PersistedState_Decode_def bindD_def returnD_def res_simps)
  ultimately show "vs ! (6 + n) \<noteq> [] \<and> decArg (PersistedState_Decode B) (vs ! (6 + n)) = OK (Some st, [])"
    using stored_dec [OF rt_encoder, of "State_Encode B st" "PersistedState_Decode B" "Some st" "vs ! (6 + n)"]
      val st by (simp add: PersistedState_Encode_def)
qed

text \<open>\<open>Next\<close> on the values of a channel.\<close>

lemma ci_staging_at:
  assumes ok: "source_ok B wf_addr wf_sig wf_asset s" and vs: "stored_values B s peers parent vs"
    and n: "n = length (p_Parts (src_Params s))" "length ks = length vs"
    and c: "pc_Params c = Some (src_Params s)" "pc_StagingTX c = zeroTransaction"
  shows "ci_staging B (ci_at c ks vs 6) = OK (True, ci_at (c\<lparr>pc_StagingTX :=
     \<lparr>tx_State = tx_State (src_StagingTX s), tx_Sigs = padSigs n (src_StagingTX s)\<rparr>\<rparr>) ks vs (7 + n))"
proof -
  note len = stored_values_nth(1) [OF vs n(1)]
  have "n \<le> 1024"
    using params_ok_numParts ok n by (auto simp: source_ok_def)
  then have sigs: "vs ! (6 + i) = sigBytes (src_StagingTX s) i" if "i < n" for i
    using stored_values_nth(2) [OF vs n(1), of "6 + i"] that chanKeys_nth(1) [OF that] by (simp add: chanValue_sig)
  let ?d = "c\<lparr>pc_StagingTX := zeroTransaction\<lparr>tx_Sigs := padSigs n (src_StagingTX s)\<rparr>\<rparr>"
  let ?k = "field (PersistedState_Decode B) allowEmpty
        (\<lambda>v c. c\<lparr>pc_StagingTX := (pc_StagingTX c)\<lparr>tx_State := v\<rparr>\<rparr>) (\<lambda>ci. OK (True, ci))"
  have "sigFields B [0..<n] (ci_at (c\<lparr>pc_StagingTX := zeroTransaction\<lparr>tx_Sigs := replicate n None\<rparr>\<rparr>) ks vs 6) =
      OK (ci_at ?d ks vs (6 + n))"
    using sigFields_at [where m = 0 and n = n and tx = "src_StagingTX s" and ch = c and t = zeroTransaction] len n sigs ok by (simp add: source_ok_def)
  moreover have "ci_numParts (ci_at c ks vs 6) = n"
    using n c by (simp add: ci_numParts_def ci_at_def)
  moreover have "(ci_at c ks vs 6)\<lparr>ci_ch := (ci_ch (ci_at c ks vs 6))\<lparr>pc_StagingTX :=
      (pc_StagingTX (ci_ch (ci_at c ks vs 6)))\<lparr>tx_Sigs := r\<rparr>\<rparr>\<rparr> =
      ci_at (c\<lparr>pc_StagingTX := zeroTransaction\<lparr>tx_Sigs := r\<rparr>\<rparr>) ks vs 6" for r
    using c by (simp add: ci_at_def)
  ultimately have "ci_staging B (ci_at c ks vs 6) = ?k (ci_at ?d ks vs (6 + n))"
    unfolding ci_staging_def by simp
  also have "\<dots> = OK (True, ci_at (c\<lparr>pc_StagingTX :=
     \<lparr>tx_State = tx_State (src_StagingTX s), tx_Sigs = padSigs n (src_StagingTX s)\<rparr>\<rparr>) ks vs (7 + n))"
    using stored_staging [OF ok vs n(1)] len n(2)
    by (cases "tx_State (src_StagingTX s)") (simp_all add: field_empty field_at zeroTransaction_def)
  finally show ?thesis .
qed

lemma ci_Next_at:
  assumes ok: "source_ok B wf_addr wf_sig wf_asset s" "list_all wf_addr peers" "length peers < 2 ^ 16"
      "case parent of None \<Rightarrow> True | Some j \<Rightarrow> length j = 32"
    and vs: "stored_values B s peers parent vs" "length ks = length vs"
    and n: "n = length (p_Parts (src_Params s))"
  shows "ci_Next B (ci_at ch ks vs 0) = OK (True, ci_at (restored s peers parent) ks vs (7 + n))"
proof -
  let ?c = "\<lparr>pc_Idx = src_Idx s, pc_Params = Some (src_Params s), pc_StagingTX = zeroTransaction,
     pc_CurrentTX = src_CurrentTX s, pc_Phase = src_Phase s, pc_Peers = peers, pc_Parent = parent\<rparr>"
  note v = stored_fields [OF ok vs(1)] and len = stored_values_nth(1) [OF vs(1) n]
  have "(ci_at ch ks vs 0)\<lparr>ci_ch := NewChannel\<rparr> = ci_at NewChannel ks vs 0" "ci_its (ci_at ch ks vs 0) \<noteq> []"
    by (simp_all add: ci_at_def)
  then have "ci_Next B (ci_at ch ks vs 0) = ci_staging B (ci_at ?c ks vs 6)"
    unfolding ci_Next_def using v len vs(2)
    by (simp add: field_at NewChannel_def numeral_eq_Suc)
  with ci_staging_at [OF ok(1) vs(1) n vs(2), of ?c] show ?thesis
    by (simp add: restored_def n)
qed

text \<open>A stored channel is restored.\<close>

lemma persisted_RestoreChannel:
  assumes ok: "source_ok B wf_addr wf_sig wf_asset s" "list_all wf_addr peers" "length peers < 2 ^ 16"
      "case parent of None \<Rightarrow> True | Some j \<Rightarrow> length j = 32"
    and p: "persisted B d s peers parent"
  shows "RestoreChannel B d (p_id (src_Params s)) = OK (restored s peers parent)"
proof -
  let ?i = "p_id (src_Params s)" and ?n = "length (p_Parts (src_Params s))"
  let ?ks = "map ((@) (channelDB ?i)) (chanKeys ?n)"
  let ?q = "pkey kv_ChannelDB ?i"
  have inv: "db_inv d"
    and vals: "\<And>key. key \<in> set (chanKeys ?n) \<Longrightarrow> \<exists>v. chanValue B s peers parent key = OK v \<and>
        db_map d (channelDB ?i @ key) = Some v"
    and only: "\<And>k. prefix ?q k \<Longrightarrow> db_map d k \<noteq> None \<Longrightarrow> k \<in> set ?ks"
    using p by (auto simp: persisted_def Let_def pkey_def)
  have "sort (filter (prefix ?q) (map fst (mdb_data d))) = ?ks"
  proof (rule sorted_distinct_set_unique)
    have "sorted_wrt (<) ?ks"
      using chanKeys_sorted [of ?n] by (simp add: sorted_wrt_map)
    then show "sorted ?ks" "distinct ?ks"
      by (simp_all add: strict_sorted_iff)
    have "k \<in> fst ` set (mdb_data d) \<longleftrightarrow> db_map d k \<noteq> None" for k
      by (simp add: db_map_def map_of_eq_None_iff)
    moreover have "prefix ?q (channelDB ?i @ key)" for key
      by (simp add: channelDB_def pkey_def)
    ultimately show "set (sort (filter (prefix ?q) (map fst (mdb_data d)))) = set ?ks"
      using only vals by fastforce
    show "distinct (sort (filter (prefix ?q) (map fst (mdb_data d))))"
      using inv by (simp add: db_inv_def)
  qed simp
  then have it: "table_NewIteratorWithPrefix kv_ChannelDB d ?i =
      \<lparr>it_next = 0, it_keys = ?ks, it_values = readValues d ?ks\<rparr>"
    by (simp add: table_NewIteratorWithPrefix_def NewIteratorWithPrefix_def mkIterator_def Let_def)
  have "stored_values B s peers parent (readValues d ?ks)"
    unfolding stored_values_def readValues_def list_all2_map2
    using vals by (fastforce simp: list_all2_same db_map_def)
  from ci_Next_at [OF ok this _ refl, of ?ks NewChannel]
  have "ci_Next B (ci_at NewChannel ?ks (readValues d ?ks) 0) =
      OK (True, ci_at (restored s peers parent) ?ks (readValues d ?ks) (7 + ?n))"
    by (simp add: readValues_def)
  then show ?thesis
    unfolding RestoreChannel_def it by (simp add: ci_at_def ci_Close_def)
qed

text \<open>All values of a well-formed source can be stored.\<close>

lemma chanValue_total:
  assumes ok: "source_ok B wf_addr wf_sig wf_asset s" "list_all wf_addr peers" "length peers < 2 ^ 16"
      "case parent of None \<Rightarrow> True | Some j \<Rightarrow> length j = 32"
    and key: "key \<in> set (chanKeys (length (p_Parts (src_Params s))))"
  shows "\<exists>v. chanValue B s peers parent key = OK v"
proof -
  have ps: "params_ok B wf_addr (src_Params s)" and tx: "tx_ok B wf_addr wf_sig wf_asset (src_CurrentTX s)"
    and ph: "phase_num (src_Phase s) < 256"
    and st: "\<And>st. tx_State (src_StagingTX s) = Some st \<Longrightarrow> state_ok B wf_addr wf_asset st"
    using ok(1) by (auto simp: source_ok_def)
  from key consider "key = str ''current''" | "key = str ''index''" | "key = str ''params''"
    | "key = str ''parent''" | "key = str ''peers''" | "key = str ''phase''" | "key = str ''staging:state''"
    | i where "i < length (p_Parts (src_Params s))" "key = sigKey i (length (p_Parts (src_Params s)))"
    unfolding chanKeys_def sigKeys_eq by auto
  then show ?thesis
  proof cases
    case 7
    have "\<exists>v. PersistedState_Encode B (tx_State (src_StagingTX s)) = OK v"
      using st State_rt [THEN roundtrips_OK]
      by (cases "tx_State (src_StagingTX s)") (simp_all add: PersistedState_Encode_def)
    with 7 show ?thesis
      by (simp add: chanValue_at)
  next
    case (8 i)
    with params_ok_numParts [OF ps] show ?thesis
      by (simp add: chanValue_sig)
  qed (use Transaction_rt [OF tx, THEN roundtrips_OK] Params_rt [OF ps, THEN roundtrips_OK]
      optChannelID_rt [OF ok(4), THEN roundtrips_OK] AddressesWithLen_rt [OF ok(2,3), THEN roundtrips_OK]
      Phase_rt [OF ph, THEN roundtrips_OK] in \<open>simp_all add: chanValue_at\<close>)
qed

lemma peerChannelKey_total:
  "wf_addr a \<Longrightarrow> \<exists>key. peerChannelKey B a i = OK key"
  using address_rt [THEN roundtrips_OK, of a]
  by (auto simp: peerChannelKey_def Encode_def encArg_def Encode_value_def catE_def)

end

text \<open>The batches of \<open>ChannelCreated\<close>.\<close>

definition createdKeys :: "nat \<Rightarrow> bytes list" where
  "createdKeys n = [str ''current'', str ''index'', str ''params'', str ''phase'', str ''staging:state''] @ sigKeys n"

lemma createdKeys_set: "set (createdKeys n @ [str ''parent'', str ''peers'']) = set (chanKeys n)"
  unfolding createdKeys_def chanKeys_def by auto

lemma createdKeys_neq: "key \<in> set (createdKeys n) \<Longrightarrow> key \<noteq> str ''parent'' \<and> key \<noteq> str ''peers''"
  using key_neqs sigKey_neqs unfolding createdKeys_def sigKeys_eq by auto

definition puts :: "bytes \<Rightarrow> (bytes \<Rightarrow> bytes) \<Rightarrow> bytes list \<Rightarrow> batch" where
  "puts p v keys = fold batch_do (map (\<lambda>key. BPut (p @ key) (v key)) keys) batch_Reset"

lemma dbPut_OK: "Encode [v] = OK bs \<Longrightarrow> dbPut p b key v = OK (tableBatch_Put p b key bs)"
  by (simp add: dbPut_def)

lemma foldR_peer_puts:
  assumes "\<And>a. a \<in> set peers \<Longrightarrow> peerChannelKey B a i = OK (pk a)"
  shows "foldR (\<lambda>peer pb. bindR (peerChannelKey B peer i) (\<lambda>key. OK (tableBatch_Put kv_PeerDB pb key []))) peers b =
     OK (fold batch_do (map (\<lambda>key. BPut (kv_PeerDB @ key) []) (map pk peers)) b)"
  using assms by (induction peers arbitrary: b) (simp_all add: tableBatch_Put_def pkey_def)

lemma ChannelCreated_batches:
  assumes vals: "\<And>key. key \<in> set (chanKeys (length (p_Parts (src_Params s)))) \<Longrightarrow>
      chanValue B s peers parent key = OK (v key)"
    and pk: "\<And>a. a \<in> set peers \<Longrightarrow> peerChannelKey B a (p_id (src_Params s)) = OK (pk a)"
  shows "ChannelCreated B d s peers parent = applied2 d
     (OK (puts (channelDB (p_id (src_Params s))) v
            (createdKeys (length (p_Parts (src_Params s))) @ [str ''parent'', str ''peers'']),
          puts kv_PeerDB (\<lambda>_. []) (map pk peers)))"
proof -
  let ?n = "length (p_Parts (src_Params s))" and ?p = "channelDB (p_id (src_Params s))"
  have in_keys: "key \<in> set (chanKeys ?n)" if "key \<in> set (createdKeys ?n @ [str ''parent'', str ''peers''])" for key
    using that createdKeys_set by blast
  have fields: "dbPutSource B ?p s (createdKeys ?n) batch_Reset = OK (puts ?p v (createdKeys ?n))"
    unfolding puts_def
    by (rule dbPutSource_OK)
      (use vals in_keys createdKeys_neq in \<open>simp add: fieldValue_eq_chanValue [where peers = peers and parent = parent]\<close>)
  have "Encode [VEncoder (Some (optChannelID_Encode parent))] = OK (v (str ''parent''))"
    "Encode [VEncoder (Some (AddressesWithLen_Encode B peers))] = OK (v (str ''peers''))"
    using vals [OF in_keys, of "str ''parent''"] vals [OF in_keys, of "str ''peers''"]
    by (simp_all only: chanValue_at set_append list.set insert_iff Un_iff simp_thms)
  note puts2 = this [THEN dbPut_OK]
  have "tableBatch_Put ?p (tableBatch_Put ?p (puts ?p v (createdKeys ?n)) (str ''parent'') (v (str ''parent'')))
      (str ''peers'') (v (str ''peers'')) = puts ?p v (createdKeys ?n @ [str ''parent'', str ''peers''])"
    by (simp add: tableBatch_Put_def pkey_def puts_def)
  then show ?thesis
    unfolding ChannelCreated_def Let_def NewBatch_def createdKeys_def [symmetric] kv_Peers_def
    using foldR_peer_puts [where B = B and peers = peers and pk = pk and b = batch_Reset, OF pk]
    by (simp add: fields puts2 puts_def [of kv_PeerDB])
qed

lemma peerTable_other: "prefix kv_ChannelDB k \<Longrightarrow> k \<noteq> kv_PeerDB @ key"
  by (auto simp: kv_ChannelDB_def kv_PeerDB_def str_def prefix_def)

context channel_codec
begin

lemma ChannelCreated_persisted:
  assumes ok: "source_ok B wf_addr wf_sig wf_asset s" "list_all wf_addr peers" "length peers < 2 ^ 16"
      "case parent of None \<Rightarrow> True | Some j \<Rightarrow> length j = 32"
    and inv: "db_inv d" and fresh: "\<And>k. prefix (kv_ChannelDB @ p_id (src_Params s)) k \<Longrightarrow> db_map d k = None"
  shows "\<exists>d'. ChannelCreated B d s peers parent = (d', OK ()) \<and> persisted B d' s peers parent \<and>
     (\<forall>k. prefix kv_ChannelDB k \<and> \<not> prefix (channelDB (p_id (src_Params s))) k \<longrightarrow> db_map d' k = db_map d k) \<and>
     (\<forall>a \<in> set peers. \<forall>key. peerChannelKey B a (p_id (src_Params s)) = OK key \<longrightarrow> db_map d' (kv_PeerDB @ key) = Some [])"
proof -
  let ?i = "p_id (src_Params s)" and ?n = "length (p_Parts (src_Params s))"
  let ?p = "channelDB ?i"
  let ?keys = "createdKeys ?n @ [str ''parent'', str ''peers'']"
  define v where "v = (\<lambda>key. case chanValue B s peers parent key of OK x \<Rightarrow> x | _ \<Rightarrow> [])"
  define pk where "pk = (\<lambda>a. case peerChannelKey B a ?i of OK x \<Rightarrow> x | _ \<Rightarrow> [])"
  have v: "chanValue B s peers parent key = OK (v key)" if "key \<in> set (chanKeys ?n)" for key
    using chanValue_total [OF ok that] by (auto simp: v_def)
  have pk: "peerChannelKey B a ?i = OK (pk a)" if "a \<in> set peers" for a
    using peerChannelKey_total [of a ?i] ok(2) that by (auto simp: pk_def list_all_iff)
  from apply_puts [OF inv, of ?p v ?keys, folded puts_def] obtain d1 where
    d1: "batch_Apply (puts ?p v ?keys) d = (d1, OK ())" "db_inv d1"
      "\<And>k. db_map d1 k = (if \<exists>key \<in> set (chanKeys ?n). k = ?p @ key then Some (v (drop (length ?p) k)) else db_map d k)"
    unfolding createdKeys_set by blast
  from apply_puts [OF d1(2), of kv_PeerDB "\<lambda>_. []" "map pk peers", folded puts_def] obtain d2 where
    d2: "batch_Apply (puts kv_PeerDB (\<lambda>_. []) (map pk peers)) d1 = (d2, OK ())" "db_inv d2"
      "\<And>k. db_map d2 k = (if \<exists>key \<in> set (map pk peers). k = kv_PeerDB @ key then Some [] else db_map d1 k)"
    by blast
  have d21: "db_map d2 k = db_map d1 k" if "prefix kv_ChannelDB k" for k
    using peerTable_other [OF that] d2(3) [of k] by auto
  have "ChannelCreated B d s peers parent = (d2, OK ())"
    using ChannelCreated_batches [OF v pk] d1(1) d2(1) by (simp add: applied2_def)
  moreover have d2': "db_map d2 k = (if \<exists>key \<in> set (chanKeys ?n). k = ?p @ key
      then Some (v (drop (length ?p) k)) else None)" if "prefix (kv_ChannelDB @ ?i) k" for k
    using d1(3) d21 fresh [OF that] that append_prefixD by metis
  have pre: "prefix (kv_ChannelDB @ ?i) (?p @ key)" for key
    by (simp add: channelDB_def)
  have "persisted B d2 s peers parent"
    unfolding persisted_def Let_def
  proof (intro conjI ballI allI impI)
    show "\<exists>x. chanValue B s peers parent key = OK x \<and> db_map d2 (?p @ key) = Some x"
      if "key \<in> set (chanKeys ?n)" for key
      using v [OF that] d2' [OF pre] that by auto
    show "\<exists>key \<in> set (chanKeys ?n). k = ?p @ key" if "prefix (kv_ChannelDB @ ?i) k \<and> db_map d2 k \<noteq> None" for k
      using d2' [of k] that by (auto split: if_splits)
  qed (rule d2(2))
  moreover have "db_map d2 k = db_map d k" if "prefix kv_ChannelDB k" "\<not> prefix ?p k" for k
    using that d1(3) d21 by auto
  moreover have "db_map d2 (kv_PeerDB @ key) = Some []" if "a \<in> set peers" "peerChannelKey B a ?i = OK key" for a key
    using pk [OF that(1)] that d2(3) [of "kv_PeerDB @ key"] by auto
  ultimately show ?thesis
    by blast
qed

end

section \<open>Keeping a stored channel up to date\<close>

text \<open>Two sources that agree on a field have the same value at its key.\<close>

lemma chanValue_same:
  assumes "src_Params s' = src_Params s" "src_Idx s' = src_Idx s"
    and key: "key \<in> set (chanKeys (length (p_Parts (src_Params s))))" "length (p_Parts (src_Params s)) \<le> 1024"
    and "key = str ''current'' \<Longrightarrow> src_CurrentTX s' = src_CurrentTX s"
      "key = str ''phase'' \<Longrightarrow> src_Phase s' = src_Phase s"
      "key = str ''staging:state'' \<Longrightarrow> tx_State (src_StagingTX s') = tx_State (src_StagingTX s)"
      "\<And>i. i < length (p_Parts (src_Params s)) \<Longrightarrow> key = sigKey i (length (p_Parts (src_Params s))) \<Longrightarrow>
         sigBytes (src_StagingTX s') i = sigBytes (src_StagingTX s) i"
  shows "chanValue B s' peers parent key = chanValue B s peers parent key"
proof -
  from key(1) consider "key = str ''current''" | "key = str ''index''" | "key = str ''params''"
    | "key = str ''parent''" | "key = str ''peers''" | "key = str ''phase''" | "key = str ''staging:state''"
    | i where "i < length (p_Parts (src_Params s))" "key = sigKey i (length (p_Parts (src_Params s)))"
    unfolding chanKeys_def sigKeys_eq by auto
  then show ?thesis
    using assms by cases (simp_all add: chanValue_at chanValue_sig)
qed

context channel_codec
begin

lemma fieldValue_total:
  assumes "source_ok B wf_addr wf_sig wf_asset s"
    and "key \<in> set (chanKeys (length (p_Parts (src_Params s)))) - {str ''parent'', str ''peers''}"
  shows "\<exists>v. fieldValue B s key = OK v"
  using chanValue_total [OF assms(1), of "[]" None key] assms(2)
  by (simp add: fieldValue_eq_chanValue [where peers = "[]" and parent = None])

lemma field_update:
  assumes ok: "source_ok B wf_addr wf_sig wf_asset s'" and p: "persisted B d s peers parent"
    and same: "src_Params s' = src_Params s" "src_Idx s' = src_Idx s"
    and keys: "set keys \<subseteq> set (createdKeys (length (p_Parts (src_Params s))))"
      "str ''current'' \<notin> set keys \<Longrightarrow> src_CurrentTX s' = src_CurrentTX s"
      "str ''phase'' \<notin> set keys \<Longrightarrow> src_Phase s' = src_Phase s"
      "str ''staging:state'' \<notin> set keys \<Longrightarrow> tx_State (src_StagingTX s') = tx_State (src_StagingTX s)"
      "\<And>i. i < length (p_Parts (src_Params s)) \<Longrightarrow> sigKey i (length (p_Parts (src_Params s))) \<notin> set keys \<Longrightarrow>
         sigBytes (src_StagingTX s') i = sigBytes (src_StagingTX s) i"
  shows "\<exists>d'. applied d (dbPutSource B (channelDB (p_id (src_Params s'))) s' keys (NewBatch d)) = (d', OK ()) \<and>
     persisted B d' s' peers parent \<and>
     (\<forall>k. \<not> prefix (channelDB (p_id (src_Params s))) k \<longrightarrow> db_map d' k = db_map d k)"
proof (rule persisted_update [OF p same(1)])
  show sub: "set keys \<subseteq> set (chanKeys (length (p_Parts (src_Params s)))) - {str ''parent'', str ''peers''}"
    using keys(1) createdKeys_set createdKeys_neq by fastforce
  show "\<exists>v. fieldValue B s' key = OK v" if "key \<in> set keys" for key
    using fieldValue_total [OF ok, of key] sub that same(1) by auto
  have "length (p_Parts (src_Params s)) \<le> 1024"
    using ok same(1) params_ok_numParts by (auto simp: source_ok_def)
  then show "chanValue B s' peers parent key = chanValue B s peers parent key"
    if "key \<in> set (chanKeys (length (p_Parts (src_Params s)))) - set keys" for key
    using that keys(2-) by (intro chanValue_same same) auto
qed

lemma Staged_persisted:
  assumes "source_ok B wf_addr wf_sig wf_asset s'" "persisted B d s peers parent"
    and "src_Params s' = src_Params s" "src_Idx s' = src_Idx s" "src_CurrentTX s' = src_CurrentTX s"
    and "\<And>i. i < length (p_Parts (src_Params s)) \<Longrightarrow> sigBytes (src_StagingTX s') i = sigBytes (src_StagingTX s) i"
  shows "\<exists>d'. Staged B d s' = (d', OK ()) \<and> persisted B d' s' peers parent"
  using field_update [OF assms(1-4), of "[str ''staging:state'', str ''phase'']"] assms(5-)
  unfolding Staged_def createdKeys_def by auto

lemma SigAdded_persisted:
  assumes "source_ok B wf_addr wf_sig wf_asset s'" "persisted B d s peers parent"
    and "src_Params s' = src_Params s" "src_Idx s' = src_Idx s" "src_CurrentTX s' = src_CurrentTX s"
      "src_Phase s' = src_Phase s" "tx_State (src_StagingTX s') = tx_State (src_StagingTX s)"
    and idx: "unat idx < length (p_Parts (src_Params s))"
      "\<And>i. i < length (p_Parts (src_Params s)) \<Longrightarrow> i \<noteq> unat idx \<Longrightarrow>
         sigBytes (src_StagingTX s') i = sigBytes (src_StagingTX s) i"
  shows "\<exists>d'. SigAdded B d s' idx = (d', OK ()) \<and> persisted B d' s' peers parent"
  using field_update [OF assms(1-4), of "[sigKey (unat idx) (length (p_Parts (src_Params s)))]"]
    assms(3,5-) sigKey_in [OF idx(1)]
  unfolding SigAdded_def createdKeys_def by auto

lemma Enabled_persisted:
  assumes "source_ok B wf_addr wf_sig wf_asset s'" "persisted B d s peers parent"
    and "src_Params s' = src_Params s" "src_Idx s' = src_Idx s"
  shows "\<exists>d'. Enabled B d s' = (d', OK ()) \<and> persisted B d' s' peers parent"
  using field_update [OF assms, of "[str ''staging:state'', str ''current'', str ''phase''] @
      sigKeys (length (p_Parts (src_Params s)))"] assms(3) sigKey_in
  unfolding Enabled_def createdKeys_def by auto

lemma PhaseChanged_persisted:
  assumes ok: "source_ok B wf_addr wf_sig wf_asset s'" and p: "persisted B d s peers parent"
    and same: "src_Params s' = src_Params s" "src_Idx s' = src_Idx s" "src_CurrentTX s' = src_CurrentTX s"
      "src_StagingTX s' = src_StagingTX s"
  shows "\<exists>d'. PhaseChanged d s' = (d', OK ()) \<and> persisted B d' s' peers parent"
proof -
  let ?n = "length (p_Parts (src_Params s))" and ?k = "channelDB (p_id (src_Params s)) @ str ''phase''"
  obtain v where v: "Phase_Encode (src_Phase s') = OK v"
    using ok Phase_rt [THEN roundtrips_OK] by (auto simp: source_ok_def)
  have "db_inv d"
    using p by (simp add: persisted_def)
  from db_Put_map [OF this, of ?k v] obtain d' where
    d': "db_Put d ?k v = OK d'" "db_inv d'" "db_map d' = (db_map d)(?k \<mapsto> v)"
    by blast
  have "PhaseChanged d s' = (d', OK ())"
    using v d'(1) same(1) unfolding PhaseChanged_def table_PutBytes_def db_PutBytes_def pkey_def
    by (simp add: Encode_def encArg_def Encode_value_def catE_def)
  moreover have "?n \<le> 1024"
    using ok same(1) params_ok_numParts by (auto simp: source_ok_def)
  then have "chanValue B s' peers parent key = chanValue B s peers parent key"
    if "key \<in> set (chanKeys ?n)" "key \<noteq> str ''phase''" for key
    using that same by (intro chanValue_same) auto
  moreover have "chanValue B s' peers parent (str ''phase'') = OK v" "str ''phase'' \<in> set (chanKeys ?n)"
    using v by (simp_all add: chanValue_at chanKeys_def)
  ultimately show ?thesis
    using p same(1) d'(2,3) unfolding persisted_def Let_def by (auto simp del: append_assoc)
qed

text \<open>\<open>Staged\<close> stores the staged state and the phase, and leaves the signatures in the database
  as they are: what is stored afterwards are the new state and the old signatures.\<close>

lemma Staged_keeps_sigs:
  assumes "source_ok B wf_addr wf_sig wf_asset s" "source_ok B wf_addr wf_sig wf_asset s'"
    and p: "persisted B d s peers parent"
    and "src_Params s' = src_Params s" "src_Idx s' = src_Idx s" "src_CurrentTX s' = src_CurrentTX s"
  defines "t \<equiv> s'\<lparr>src_StagingTX := \<lparr>tx_State = tx_State (src_StagingTX s'), tx_Sigs = tx_Sigs (src_StagingTX s)\<rparr>\<rparr>"
  shows "\<exists>d'. Staged B d s' = (d', OK ()) \<and> persisted B d' t peers parent \<and> source_ok B wf_addr wf_sig wf_asset t"
proof -
  have ok: "source_ok B wf_addr wf_sig wf_asset t"
    using assms(1,2) by (simp add: source_ok_def t_def)
  have "sigBytes (src_StagingTX t) i = sigBytes (src_StagingTX s) i" for i
    by (simp add: sigBytes_def t_def)
  then obtain d' where d': "Staged B d t = (d', OK ())" "persisted B d' t peers parent"
    using Staged_persisted [OF ok p] assms by auto
  have "dbPutSourceField B q t key b = dbPutSourceField B q s' key b"
    if "key \<in> set [str ''staging:state'', str ''phase'']" for key b q
    using that key_neqs by (auto simp: dbPutSourceField_def t_def)
  then have "dbPutSource B q t [str ''staging:state'', str ''phase''] b =
      dbPutSource B q s' [str ''staging:state'', str ''phase''] b" for q b
    unfolding dbPutSource_def by (rule foldR_cong)
  moreover have "src_Params t = src_Params s'"
    by (simp add: t_def)
  ultimately have "Staged B d t = Staged B d s'"
    by (simp add: Staged_def)
  with d' ok show ?thesis
    by auto
qed

end

section \<open>Removing a channel\<close>

definition dels :: "bytes \<Rightarrow> bytes list \<Rightarrow> batch" where
  "dels p keys = fold batch_do (map (\<lambda>key. BDelete (p @ key)) keys) batch_Reset"

lemma fold_map_do_dels:
  "fold map_do (map (\<lambda>key. BDelete (p @ key)) keys) m k = (if \<exists>key \<in> set keys. k = p @ key then None else m k)"
  by (induction keys arbitrary: m) auto

lemma b_deletes_dels:
  "set (b_deletes (fold batch_do (map (\<lambda>key. BDelete (p @ key)) keys) b)) = set (b_deletes b) \<union> (@) p ` set keys"
  by (induction keys arbitrary: b) (auto simp: batch_Delete_def)

lemma apply_dels:
  assumes "db_inv d" "\<And>key. key \<in> set keys \<Longrightarrow> db_map d (p @ key) \<noteq> None"
  shows "\<exists>d'. batch_Apply (dels p keys) d = (d', OK ()) \<and> db_inv d' \<and>
     (\<forall>k. db_map d' k = (if \<exists>key \<in> set keys. k = p @ key then None else db_map d k))"
proof -
  let ?ops = "map (\<lambda>key. BDelete (p @ key)) keys"
  have "set (b_deletes (dels p keys)) = (@) p ` set keys"
    by (simp add: dels_def b_deletes_dels) (simp add: batch_Reset_def)
  with assms(2) have "\<And>k. k \<in> set (b_deletes (dels p keys)) \<Longrightarrow> db_map d k \<noteq> None"
    by auto
  with batch_Apply_OK [OF assms(1), of "dels p keys"] batch_effect_fold [OF batch_inv_Reset, of ?ops "db_map d"]
  show ?thesis
    by (auto simp: dels_def fold_map_do_dels)
qed

definition removedKeys :: "nat \<Rightarrow> bytes list" where
  "removedKeys n = [str ''current'', str ''index'', str ''params'', str ''peers'', str ''phase'',
     str ''staging:state''] @ sigKeys n"

lemma removedKeys_set: "set (removedKeys n) = set (chanKeys n) - {str ''parent''}"
  using key_neqs sigKey_neqs unfolding removedKeys_def chanKeys_def sigKeys_eq by auto

lemma foldR_peer_dels:
  assumes "\<And>a. a \<in> set peers \<Longrightarrow> peerChannelKey B a i = OK (pk a)"
  shows "foldR (\<lambda>peer pb. bindR (peerChannelKey B peer i) (\<lambda>key. OK (tableBatch_Delete kv_PeerDB pb key))) peers b =
     OK (fold batch_do (map (\<lambda>key. BDelete (kv_PeerDB @ key)) (map pk peers)) b)"
  using assms by (induction peers arbitrary: b) (simp_all add: tableBatch_Delete_def pkey_def)

lemma fold_tableBatch_Delete:
  "fold (\<lambda>key b. tableBatch_Delete p b key) keys b = fold batch_do (map (\<lambda>key. BDelete (p @ key)) keys) b"
  by (induction keys arbitrary: b) (simp_all add: tableBatch_Delete_def pkey_def)

context channel_codec
begin

lemma persisted_reads:
  assumes ok: "source_ok B wf_addr wf_sig wf_asset s" "list_all wf_addr peers" "length peers < 2 ^ 16"
    and p: "persisted B d s peers parent"
  shows "getParamsForChan B d (p_id (src_Params s)) = OK (src_Params s)"
    "channelPeers B d (p_id (src_Params s)) = OK peers"
proof -
  have keys: "str ''params'' \<in> set (chanKeys n)" "str ''peers'' \<in> set (chanKeys n)" for n
    by (simp_all add: chanKeys_def)
  obtain v w where
    v: "Encode [VEncoder (Some (Params_Encode B (src_Params s)))] = OK v"
      "db_map d (channelDB (p_id (src_Params s)) @ str ''params'') = Some v"
    and w: "Encode [VEncoder (Some (AddressesWithLen_Encode B peers))] = OK w"
      "db_map d (channelDB (p_id (src_Params s)) @ str ''peers'') = Some w"
    using p keys unfolding persisted_def Let_def by (metis chanValue_at(3,5))
  have "decArg (Params_Decode B) v = OK (src_Params s, [])"
    using stored_dec [OF rt_encoder [OF Params_rt] v(1) dec_Nil(3)] ok(1) by (simp add: source_ok_def)
  moreover have "decArg (AddressesWithLen_Decode B) w = OK (peers, [])"
    using stored_dec [OF rt_encoder [OF AddressesWithLen_rt [OF ok(2,3)]] w(1) dec_Nil(5)] by simp
  ultimately show "getParamsForChan B d (p_id (src_Params s)) = OK (src_Params s)"
    "channelPeers B d (p_id (src_Params s)) = OK peers"
    using v(2) w(2) by (simp_all add: getParamsForChan_def channelPeers_def table_GetBytes_def
        table_Get_def db_GetBytes_def db_Get_def pkey_def db_map_def kv_Peers_def)
qed

text \<open>Of the entries of the channel, \<open>ChannelRemoved\<close> deletes all but the parent's.\<close>

lemma ChannelRemoved_OK:
  assumes ok: "source_ok B wf_addr wf_sig wf_asset s" "list_all wf_addr peers" "length peers < 2 ^ 16"
    and p: "persisted B d s peers parent"
    and idx: "\<And>a key. a \<in> set peers \<Longrightarrow> peerChannelKey B a (p_id (src_Params s)) = OK key \<Longrightarrow>
      db_map d (kv_PeerDB @ key) \<noteq> None"
  shows "\<exists>d'. ChannelRemoved B d (p_id (src_Params s)) = (d', OK ()) \<and> db_inv d' \<and>
     (\<forall>key. db_map d' (channelDB (p_id (src_Params s)) @ key) =
        (if key = str ''parent'' then db_map d (channelDB (p_id (src_Params s)) @ key) else None)) \<and>
     (\<forall>k. db_map d' k \<noteq> db_map d k \<longrightarrow> prefix (channelDB (p_id (src_Params s))) k \<or>
        (\<exists>a key. peerChannelKey B a (p_id (src_Params s)) = OK key \<and> k = kv_PeerDB @ key))"
proof -
  let ?i = "p_id (src_Params s)" and ?n = "length (p_Parts (src_Params s))"
  let ?p = "channelDB ?i"
  define pk where "pk = (\<lambda>a. case peerChannelKey B a ?i of OK x \<Rightarrow> x | _ \<Rightarrow> [])"
  have pk: "peerChannelKey B a ?i = OK (pk a)" if "a \<in> set peers" for a
    using peerChannelKey_total [of a ?i] ok(2) that by (auto simp: pk_def list_all_iff)
  have inv: "db_inv d"
    using p by (simp add: persisted_def)
  have there: "db_map d (?p @ key) \<noteq> None" if "key \<in> set (removedKeys ?n)" for key
    using p that unfolding persisted_def Let_def removedKeys_set by auto
  have "prefix (kv_ChannelDB @ ?i) (?p @ key)" for key
    by (simp add: channelDB_def)
  then have only: "key \<in> set (chanKeys ?n)" if "db_map d (?p @ key) \<noteq> None" for key
    using p that unfolding persisted_def Let_def by (metis same_append_eq)
  from apply_dels [OF inv there] obtain d1 where
    d1: "batch_Apply (dels ?p (removedKeys ?n)) d = (d1, OK ())" "db_inv d1"
      "\<And>k. db_map d1 k = (if \<exists>key \<in> set (removedKeys ?n). k = ?p @ key then None else db_map d k)"
    by blast
  have peer: "?p @ k \<noteq> kv_PeerDB @ key" for k key
    by (rule peerTable_other) (simp add: channelDB_def)
  then have "db_map d1 (kv_PeerDB @ key) \<noteq> None" if "key \<in> set (map pk peers)" for key
    using that idx pk peer [symmetric] by (auto simp: d1(3))
  from apply_dels [OF d1(2) this] obtain d2 where
    d2: "batch_Apply (dels kv_PeerDB (map pk peers)) d1 = (d2, OK ())" "db_inv d2"
      and d2': "\<And>k. db_map d2 k = (if \<exists>key \<in> set (map pk peers). k = kv_PeerDB @ key then None else db_map d1 k)"
    by blast
  have d2p: "db_map d2 (?p @ k) = db_map d1 (?p @ k)" for k
    using peer by (auto simp: d2')
  have "ChannelRemoved B d ?i = (d2, OK ())"
    unfolding ChannelRemoved_def Let_def NewBatch_def removedKeys_def [symmetric] fold_tableBatch_Delete
      dels_def [symmetric]
    using d1(1) d2(1) foldR_peer_dels [where B = B and peers = peers and pk = pk and b = batch_Reset, OF pk]
    by (simp add: persisted_reads [OF ok p] applied2_def dels_def [of kv_PeerDB])
  moreover have "db_map d2 (?p @ key) = (if key = str ''parent'' then db_map d (?p @ key) else None)" for key
    using d1(3) [of "?p @ key"] only [of key] unfolding d2p removedKeys_set
    by (cases "db_map d (?p @ key)") (auto split: if_splits)
  moreover have "prefix ?p k \<or> (\<exists>a key. peerChannelKey B a ?i = OK key \<and> k = kv_PeerDB @ key)" if "db_map d2 k \<noteq> db_map d k" for k
  proof (cases "\<exists>key \<in> set (map pk peers). k = kv_PeerDB @ key")
    case True
    then show ?thesis
      using pk by auto
  next
    case False
    with that have "db_map d1 k \<noteq> db_map d k"
      by (simp add: d2')
    then show ?thesis
      by (auto simp: d1(3) split: if_splits)
  qed
  ultimately show ?thesis
    using d2(2) by blast
qed

end

end
