(* ===== verification/Perun_PSM.thy ===== *)
theory Perun_PSM
  imports Perun_Restore Perun_Reach
begin

text \<open>
  The persisting state machine of \<open>channel/persistence/statemachine.go\<close>: every method calls the
  method of the embedded \<open>channel.StateMachine\<close> and, when that succeeded, a method of the persister.
  Its state is the machine and the database.

  \<open>pm_exec_persisted\<close> shows that the database keeps up with the machine: whatever operation is
  performed, the stored channel is the machine's, and a machine restored from it continues where the
  first one stopped.  The exception are operations that stage a new transaction or drop the staged one
  while signatures are stored: they leave those signatures in the database.
\<close>

section \<open>Operations\<close>

record psm =
  psm_machine :: StateMachine
  psm_db :: memdb

definition source_of :: "StateMachine \<Rightarrow> Source" where
  "source_of m = \<lparr>src_Idx = m_idx m, src_Params = m_params m, src_StagingTX = m_stagingTX m,
     src_CurrentTX = m_currentTX m, src_Phase = m_phase m\<rparr>"

definition FromStateMachine :: "StateMachine \<Rightarrow> memdb \<Rightarrow> psm" where
  "FromStateMachine m pr = \<lparr>psm_machine = m, psm_db = pr\<rparr>"

text \<open>A call of the machine followed by a call of the persister.\<close>

definition pm_call ::
    "psm \<Rightarrow> ('a \<times> StateMachine) res \<Rightarrow> string \<Rightarrow> (memdb \<Rightarrow> Source \<Rightarrow> memdb \<times> unit res) \<Rightarrow> psm \<times> 'a res" where
  "pm_call m r msg persist = (case r of
      OK (x, m') \<Rightarrow> (case persist (psm_db m) (source_of m') of
          (d', y) \<Rightarrow> (\<lparr>psm_machine = m', psm_db = d'\<rparr>, bindR (with_msg msg y) (\<lambda>_. OK x)))
    | Err e \<Rightarrow> (m, Err e)
    | Panic s \<Rightarrow> (m, Panic s))"

definition no_result :: "StateMachine res \<Rightarrow> (unit \<times> StateMachine) res" where
  "no_result r = bindR r (\<lambda>m. OK ((), m))"

definition pm_SetFunded :: "psm \<Rightarrow> psm \<times> unit res" where
  "pm_SetFunded m = pm_call m (no_result (SetFunded (psm_machine m))) ''Persister.PhaseChanged'' PhaseChanged"

definition pm_SetRegistering :: "psm \<Rightarrow> psm \<times> unit res" where
  "pm_SetRegistering m =
     pm_call m (no_result (SetRegistering (psm_machine m))) ''Persister.PhaseChanged'' PhaseChanged"

definition pm_SetRegistered :: "psm \<Rightarrow> psm \<times> unit res" where
  "pm_SetRegistered m =
     pm_call m (no_result (SetRegistered (psm_machine m))) ''Persister.PhaseChanged'' PhaseChanged"

definition pm_SetProgressing :: "'b channel_backend_scheme \<Rightarrow> psm \<Rightarrow> State option \<Rightarrow> psm \<times> unit res" where
  "pm_SetProgressing B m s =
     pm_call m (no_result (SetProgressing (psm_machine m) s)) ''Persister.Staged'' (Staged B)"

definition pm_SetProgressed :: "'b channel_backend_scheme \<Rightarrow> psm \<Rightarrow> State option \<Rightarrow> psm \<times> unit res" where
  "pm_SetProgressed B m e_State =
     pm_call m (no_result (SetProgressed (psm_machine m) e_State)) ''Persister.Enabled'' (Enabled B)"

definition pm_SetWithdrawing :: "psm \<Rightarrow> psm \<times> unit res" where
  "pm_SetWithdrawing m =
     pm_call m (no_result (SetWithdrawing (psm_machine m))) ''Persister.PhaseChanged'' PhaseChanged"

definition pm_SetWithdrawn :: "'b channel_backend_scheme \<Rightarrow> psm \<Rightarrow> psm \<times> unit res" where
  "pm_SetWithdrawn B m =
     pm_call m (no_result (SetWithdrawn (psm_machine m))) ''Persister.ChannelRemoved''
       (\<lambda>d _. ChannelRemoved B d (machine_ID (psm_machine m)))"

definition pm_Init :: "'b channel_backend_scheme \<Rightarrow> psm \<Rightarrow> Allocation \<Rightarrow> Data \<Rightarrow> psm \<times> unit res" where
  "pm_Init B m initBals initData =
     pm_call m (no_result (Init B (psm_machine m) initBals initData)) ''Persister.Staged'' (Staged B)"

definition pm_Update :: "'b channel_backend_scheme \<Rightarrow> psm \<Rightarrow> State \<Rightarrow> Index \<Rightarrow> psm \<times> unit res" where
  "pm_Update B m stagingState actor =
     pm_call m (no_result (Update B (psm_machine m) stagingState actor)) ''Persister.Staged'' (Staged B)"

definition pm_ForceUpdate ::
    "'b channel_backend_scheme \<Rightarrow> psm \<Rightarrow> State option \<Rightarrow> Index \<Rightarrow> psm \<times> unit res" where
  "pm_ForceUpdate B m stagingState actor =
     pm_call m (no_result (ForceUpdate (psm_machine m) stagingState actor)) ''Persister.Staged'' (Staged B)"

definition pm_Sig :: "'b channel_backend_scheme \<Rightarrow> psm \<Rightarrow> psm \<times> sig res" where
  "pm_Sig B m = pm_call m (Sig B (psm_machine m)) ''Persister.SigAdded''
     (\<lambda>d s. SigAdded B d s (m_idx (psm_machine m)))"

definition pm_AddSig :: "'b channel_backend_scheme \<Rightarrow> psm \<Rightarrow> Index \<Rightarrow> sig \<Rightarrow> psm \<times> unit res" where
  "pm_AddSig B m idx sig = pm_call m (no_result (AddSig B (psm_machine m) idx sig)) ''Persister.SigAdded''
     (\<lambda>d s. SigAdded B d s idx)"

definition pm_EnableInit :: "'b channel_backend_scheme \<Rightarrow> psm \<Rightarrow> psm \<times> unit res" where
  "pm_EnableInit B m = pm_call m (no_result (EnableInit (psm_machine m))) ''Persister.Enabled'' (Enabled B)"

definition pm_EnableUpdate :: "'b channel_backend_scheme \<Rightarrow> psm \<Rightarrow> psm \<times> unit res" where
  "pm_EnableUpdate B m = pm_call m (no_result (EnableUpdate (psm_machine m))) ''Persister.Enabled'' (Enabled B)"

definition pm_EnableFinal :: "'b channel_backend_scheme \<Rightarrow> psm \<Rightarrow> psm \<times> unit res" where
  "pm_EnableFinal B m = pm_call m (no_result (EnableFinal (psm_machine m))) ''Persister.Enabled'' (Enabled B)"

definition pm_DiscardUpdate :: "'b channel_backend_scheme \<Rightarrow> psm \<Rightarrow> psm \<times> unit res" where
  "pm_DiscardUpdate B m =
     pm_call m (no_result (DiscardUpdate (psm_machine m))) ''Persister.Staged'' (Staged B)"

text \<open>The persisting version of a machine operation.\<close>

definition drop_result :: "psm \<times> 'a res \<Rightarrow> psm \<times> unit res" where
  "drop_result r = (fst r, bindR (snd r) (\<lambda>_. OK ()))"

fun pm_exec :: "'b channel_backend_scheme \<Rightarrow> psm \<Rightarrow> sm_op \<Rightarrow> psm \<times> unit res" where
  "pm_exec B m (OpInit a d) = pm_Init B m a d"
| "pm_exec B m (OpUpdate s i) = pm_Update B m s i"
| "pm_exec B m OpSig = drop_result (pm_Sig B m)"
| "pm_exec B m (OpAddSig i s) = pm_AddSig B m i s"
| "pm_exec B m OpDiscardUpdate = pm_DiscardUpdate B m"
| "pm_exec B m OpEnableInit = pm_EnableInit B m"
| "pm_exec B m OpEnableUpdate = pm_EnableUpdate B m"
| "pm_exec B m OpEnableFinal = pm_EnableFinal B m"
| "pm_exec B m OpSetFunded = pm_SetFunded m"
| "pm_exec B m OpSetRegistering = pm_SetRegistering m"
| "pm_exec B m OpSetRegistered = pm_SetRegistered m"
| "pm_exec B m (OpSetProgressing s) = pm_SetProgressing B m s"
| "pm_exec B m OpSetWithdrawing = pm_SetWithdrawing m"
| "pm_exec B m OpSetWithdrawn = pm_SetWithdrawn B m"

lemmas pm_defs = pm_SetFunded_def pm_SetRegistering_def pm_SetRegistered_def pm_SetProgressing_def
  pm_SetProgressed_def pm_SetWithdrawing_def pm_SetWithdrawn_def pm_Init_def pm_Update_def
  pm_ForceUpdate_def pm_Sig_def pm_AddSig_def pm_EnableInit_def pm_EnableUpdate_def
  pm_EnableFinal_def pm_DiscardUpdate_def

section \<open>The database follows the machine\<close>

lemma pm_call_OK:
  "r = OK (x, m') \<Longrightarrow> persist (psm_db m) (source_of m') = (d', OK ()) \<Longrightarrow>
   pm_call m r msg persist = (\<lparr>psm_machine = m', psm_db = d'\<rparr>, OK x)"
  by (simp add: pm_call_def)

lemma pm_call_failed:
  "(\<And>x. r \<noteq> OK x) \<Longrightarrow> fst (pm_call m r msg persist) = m"
  by (cases r) (auto simp: pm_call_def)

text \<open>An operation whose machine part fails changes neither the machine nor the database.\<close>

lemma pm_exec_failed:
  assumes "\<And>m'. exec_op B (psm_machine m) x \<noteq> OK m'"
  shows "fst (pm_exec B m x) = m"
  using assms
  by (cases x) (auto simp: pm_defs drop_result_def no_result_def res_simps intro!: pm_call_failed)

text \<open>Operations that write the staging transaction with \<open>Staged\<close>.\<close>

fun staging_op :: "sm_op \<Rightarrow> bool" where
  "staging_op (OpInit a d) = True"
| "staging_op (OpUpdate s i) = True"
| "staging_op OpDiscardUpdate = True"
| "staging_op (OpSetProgressing s) = True"
| "staging_op _ = False"

lemma sigBytes_none [simp]:
  "sigBytes zeroTransaction i = []" "sigBytes (newTransaction m s) i = []"
  by (simp_all add: sigBytes_def zeroTransaction_def newTransaction_def)

fun phase_op :: "sm_op \<Rightarrow> bool" where
  "phase_op OpSetFunded = True"
| "phase_op OpSetRegistering = True"
| "phase_op OpSetRegistered = True"
| "phase_op OpSetWithdrawing = True"
| "phase_op _ = False"

fun enable_op :: "sm_op \<Rightarrow> bool" where
  "enable_op OpEnableInit = True"
| "enable_op OpEnableUpdate = True"
| "enable_op OpEnableFinal = True"
| "enable_op _ = False"

lemma pm_exec_eq:
  "phase_op x \<Longrightarrow> pm_exec B m x =
     pm_call m (no_result (exec_op B (psm_machine m) x)) ''Persister.PhaseChanged'' PhaseChanged"
  "staging_op x \<Longrightarrow> pm_exec B m x =
     pm_call m (no_result (exec_op B (psm_machine m) x)) ''Persister.Staged'' (Staged B)"
  "enable_op x \<Longrightarrow> pm_exec B m x =
     pm_call m (no_result (exec_op B (psm_machine m) x)) ''Persister.Enabled'' (Enabled B)"
  by (cases x; simp add: pm_defs)+

lemma exec_op_frame:
  assumes "exec_op B m x = OK m'"
  shows "phase_op x \<Longrightarrow> m' = m\<lparr>m_phase := m_phase m'\<rparr>"
    "staging_op x \<Longrightarrow> m' = m\<lparr>m_phase := m_phase m', m_stagingTX := m_stagingTX m'\<rparr> \<and>
       (\<forall>i. sigBytes (m_stagingTX m') i = [])"
    "enable_op x \<Longrightarrow> m_params m' = m_params m \<and> m_idx m' = m_idx m"
  using assms
  by (cases x; auto simp: machine_OK_iffs EnableInit_def EnableUpdate_def EnableFinal_def)+

lemma source_of_simps [simp]:
  "src_Idx (source_of m) = m_idx m" "src_Params (source_of m) = m_params m"
  "src_StagingTX (source_of m) = m_stagingTX m" "src_CurrentTX (source_of m) = m_currentTX m"
  "src_Phase (source_of m) = m_phase m"
  by (simp_all add: source_of_def)

lemma sigBytes_other: "i \<noteq> j \<Longrightarrow> sigBytes (t\<lparr>tx_Sigs := (tx_Sigs t)[j := x]\<rparr>) i = sigBytes t i"
  by (simp add: sigBytes_def)

context channel_codec
begin

lemma pm_phase:
  assumes p: "persisted B (psm_db m) (source_of (psm_machine m)) peers parent"
    and ok: "source_ok B wf_addr wf_sig wf_asset (source_of m')"
    and r: "r = OK m'" "m' = (psm_machine m)\<lparr>m_phase := ph\<rparr>"
  shows "\<exists>d'. pm_call m (no_result r) msg PhaseChanged = (\<lparr>psm_machine = m', psm_db = d'\<rparr>, OK ()) \<and>
     persisted B d' (source_of m') peers parent"
proof -
  obtain d' where "PhaseChanged (psm_db m) (source_of m') = (d', OK ())" "persisted B d' (source_of m') peers parent"
    using PhaseChanged_persisted [OF ok p] r by auto
  with r(1) show ?thesis
    by (intro exI [of _ d'] conjI pm_call_OK) (simp_all add: no_result_def)
qed

lemma pm_staged:
  assumes p: "persisted B (psm_db m) (source_of (psm_machine m)) peers parent"
    and ok: "source_ok B wf_addr wf_sig wf_asset (source_of m')"
    and r: "r = OK m'" "m' = (psm_machine m)\<lparr>m_phase := ph, m_stagingTX := t\<rparr>"
    and sigs: "\<And>i. sigBytes (m_stagingTX (psm_machine m)) i = []" "\<And>i. sigBytes t i = []"
  shows "\<exists>d'. pm_call m (no_result r) msg (Staged B) = (\<lparr>psm_machine = m', psm_db = d'\<rparr>, OK ()) \<and>
     persisted B d' (source_of m') peers parent"
proof -
  obtain d' where "Staged B (psm_db m) (source_of m') = (d', OK ())" "persisted B d' (source_of m') peers parent"
    using Staged_persisted [OF ok p] r sigs by auto
  with r(1) show ?thesis
    by (intro exI [of _ d'] conjI pm_call_OK) (simp_all add: no_result_def)
qed

lemma pm_enabled:
  assumes p: "persisted B (psm_db m) (source_of (psm_machine m)) peers parent"
    and ok: "source_ok B wf_addr wf_sig wf_asset (source_of m')"
    and r: "r = OK m'" "m_params m' = m_params (psm_machine m)" "m_idx m' = m_idx (psm_machine m)"
  shows "\<exists>d'. pm_call m (no_result r) msg (Enabled B) = (\<lparr>psm_machine = m', psm_db = d'\<rparr>, OK ()) \<and>
     persisted B d' (source_of m') peers parent"
proof -
  obtain d' where "Enabled B (psm_db m) (source_of m') = (d', OK ())" "persisted B d' (source_of m') peers parent"
    using Enabled_persisted [OF ok p] r by auto
  with r(1) show ?thesis
    by (intro exI [of _ d'] conjI pm_call_OK) (simp_all add: no_result_def)
qed

lemma pm_sig_added:
  assumes p: "persisted B (psm_db m) (source_of (psm_machine m)) peers parent"
    and ok: "source_ok B wf_addr wf_sig wf_asset (source_of m')"
    and r: "r = OK (y, m')" "m' = (psm_machine m)\<lparr>m_stagingTX := (m_stagingTX (psm_machine m))
        \<lparr>tx_Sigs := (tx_Sigs (m_stagingTX (psm_machine m)))[unat i := sg]\<rparr>\<rparr>"
    and idx: "unat i < length (p_Parts (m_params (psm_machine m)))"
  shows "\<exists>d'. pm_call m r msg (\<lambda>d s. SigAdded B d s i) = (\<lparr>psm_machine = m', psm_db = d'\<rparr>, OK y) \<and>
     persisted B d' (source_of m') peers parent"
proof -
  obtain d' where "SigAdded B (psm_db m) (source_of m') i = (d', OK ())" "persisted B d' (source_of m') peers parent"
    using SigAdded_persisted [OF ok p, of i] r(2) idx sigBytes_other by auto
  with r(1) show ?thesis
    by (intro exI [of _ d'] conjI pm_call_OK) simp_all
qed

lemma pm_Sig_persisted:
  assumes p: "persisted B (psm_db m) (source_of (psm_machine m)) peers parent"
    and ok: "source_ok B wf_addr wf_sig wf_asset (source_of m')"
    and r: "Sig B (psm_machine m) = OK (sg, m')"
    and len: "length (tx_Sigs (m_stagingTX (psm_machine m))) \<le> length (p_Parts (m_params (psm_machine m)))"
  shows "\<exists>d'. pm_Sig B m = (\<lparr>psm_machine = m', psm_db = d'\<rparr>, OK sg) \<and> persisted B d' (source_of m') peers parent"
proof -
  let ?sigs = "tx_Sigs (m_stagingTX (psm_machine m))" and ?i = "m_idx (psm_machine m)"
  have "m' = (psm_machine m)\<lparr>m_stagingTX := (m_stagingTX (psm_machine m))\<lparr>tx_Sigs := ?sigs[unat ?i := sg]\<rparr>\<rparr>"
    using r by (auto simp: Sig_OK_iff Let_def split: if_splits)
  moreover have "unat ?i < length (p_Parts (m_params (psm_machine m)))"
    using r len by (auto simp: Sig_OK_iff)
  ultimately show ?thesis
    unfolding pm_Sig_def by (rule pm_sig_added [OF p ok r])
qed

lemma pm_AddSig_persisted:
  assumes p: "persisted B (psm_db m) (source_of (psm_machine m)) peers parent"
    and ok: "source_ok B wf_addr wf_sig wf_asset (source_of m')"
    and r: "AddSig B (psm_machine m) i sg = OK m'"
  shows "\<exists>d'. pm_AddSig B m i sg = (\<lparr>psm_machine = m', psm_db = d'\<rparr>, OK ()) \<and>
     persisted B d' (source_of m') peers parent"
proof -
  have nr: "no_result (AddSig B (psm_machine m) i sg) = OK ((), m')"
    using r by (simp add: no_result_def)
  moreover have "m' = (psm_machine m)\<lparr>m_stagingTX := (m_stagingTX (psm_machine m))
        \<lparr>tx_Sigs := (tx_Sigs (m_stagingTX (psm_machine m)))[unat i := sg]\<rparr>\<rparr>"
    "unat i < length (p_Parts (m_params (psm_machine m)))"
    using r by (simp_all add: AddSig_OK_iff)
  ultimately show ?thesis
    unfolding pm_AddSig_def by (intro pm_sig_added [OF p ok nr])
qed

lemma pm_exec_persisted:
  assumes p: "persisted B (psm_db m) (source_of (psm_machine m)) peers parent"
    and ok: "source_ok B wf_addr wf_sig wf_asset (source_of m')"
    and x: "exec_op B (psm_machine m) x = OK m'" "x \<noteq> OpSetWithdrawn"
    and sigs: "staging_op x \<Longrightarrow> \<forall>i. sigBytes (m_stagingTX (psm_machine m)) i = []"
    and len: "length (tx_Sigs (m_stagingTX (psm_machine m))) \<le> length (p_Parts (m_params (psm_machine m)))"
  shows "\<exists>d'. pm_exec B m x = (\<lparr>psm_machine = m', psm_db = d'\<rparr>, OK ()) \<and>
     persisted B d' (source_of m') peers parent"
proof -
  consider "phase_op x" | "staging_op x" | "enable_op x" | "x = OpSig" | i sg where "x = OpAddSig i sg"
    using x(2) by (cases x) auto
  then show ?thesis
  proof cases
    case 1
    then show ?thesis
      using pm_phase [OF p ok x(1) exec_op_frame(1) [OF x(1)]] by (simp add: pm_exec_eq)
  next
    case 2
    from exec_op_frame(2) [OF x(1) 2] sigs [OF 2] show ?thesis
      unfolding pm_exec_eq(2) [OF 2] by (intro pm_staged [OF p ok x(1)]) blast+
  next
    case 3
    then show ?thesis
      using pm_enabled [OF p ok x(1)] exec_op_frame(3) [OF x(1)] by (simp add: pm_exec_eq)
  next
    case 4
    with x obtain sg where "Sig B (psm_machine m) = OK (sg, m')"
      by (auto simp: res_simps)
    from pm_Sig_persisted [OF p ok this len] 4 show ?thesis
      by (auto simp: drop_result_def)
  next
    case (5 i sg)
    with x pm_AddSig_persisted [OF p ok, of i sg] show ?thesis
      by simp
  qed
qed

text \<open>Staging a transaction, or dropping the staged one, over stored signatures.\<close>

lemma pm_staged_stale:
  assumes p: "persisted B (psm_db m) (source_of (psm_machine m)) peers parent"
    and ok: "source_ok B wf_addr wf_sig wf_asset (source_of (psm_machine m))"
      "source_ok B wf_addr wf_sig wf_asset (source_of m')"
    and r: "r = OK m'" "m' = (psm_machine m)\<lparr>m_phase := ph, m_stagingTX := t\<rparr>"
  defines "s \<equiv> (source_of m')\<lparr>src_StagingTX := \<lparr>tx_State = tx_State t, tx_Sigs = tx_Sigs (m_stagingTX (psm_machine m))\<rparr>\<rparr>"
  shows "\<exists>d'. pm_call m (no_result r) msg (Staged B) = (\<lparr>psm_machine = m', psm_db = d'\<rparr>, OK ()) \<and>
     persisted B d' s peers parent \<and> source_ok B wf_addr wf_sig wf_asset s"
proof -
  obtain d' where "Staged B (psm_db m) (source_of m') = (d', OK ())"
    "persisted B d' s peers parent" "source_ok B wf_addr wf_sig wf_asset s"
    using Staged_keeps_sigs [OF ok p] r by (auto simp: s_def)
  with r(1) show ?thesis
    by (intro exI [of _ d'] conjI pm_call_OK) (simp_all add: no_result_def)
qed

end

section \<open>Restoring a machine\<close>

definition pc_source :: "pchannel \<Rightarrow> Source res" where
  "pc_source c = bindR (deref (pc_Params c)) (\<lambda>p.
     OK \<lparr>src_Idx = pc_Idx c, src_Params = p, src_StagingTX = pc_StagingTX c, src_CurrentTX = pc_CurrentTX c,
         src_Phase = pc_Phase c\<rparr>)"

definition CloneSource :: "'b channel_backend_scheme \<Rightarrow> Source \<Rightarrow> Source res" where
  "CloneSource B s =
     bindR (Params_Clone B (src_Params s)) (\<lambda>params.
     bindR (Transaction_Clone (src_StagingTX s)) (\<lambda>staging.
     bindR (Transaction_Clone (src_CurrentTX s)) (\<lambda>current.
     OK \<lparr>src_Idx = src_Idx s, src_Params = params, src_StagingTX = staging, src_CurrentTX = current,
         src_Phase = src_Phase s\<rparr>)))"

definition FromSource ::
    "'b channel_backend_scheme \<Rightarrow> Source \<Rightarrow> address list \<Rightarrow> ID option \<Rightarrow> pchannel res" where
  "FromSource B s ps parent =
     bindR (CloneSource B s) (\<lambda>c.
     OK \<lparr>pc_Idx = src_Idx c, pc_Params = Some (src_Params c), pc_StagingTX = src_StagingTX c,
         pc_CurrentTX = src_CurrentTX c, pc_Phase = src_Phase c, pc_Peers = ps, pc_Parent = parent\<rparr>)"

text \<open>A machine restored from the stored channel is the machine, without the transactions of the
  past and with the signatures of the staging transaction padded by nil.\<close>

lemma restore_machine:
  assumes "machine_inv B acc p m" "IsStateApp B (p_App p)"
    "m_idx m = of_int (IndexOfAddr (p_Parts p) acc)"
  shows "bindR (pc_source (restored (source_of m) peers parent)) (RestoreStateMachine B acc) =
    OK (m\<lparr>m_prevTXs := [], m_stagingTX :=
      \<lparr>tx_State = tx_State (m_stagingTX m), tx_Sigs = padSigs (length (p_Parts p)) (m_stagingTX m)\<rparr>\<rparr>)"
proof -
  have "acc \<in> set (p_Parts p)"
    using assms(1) nth_mem by (fastforce simp: machine_inv_def)
  then show ?thesis
    using assms by (cases m) (simp add: pc_source_def restored_def RestoreStateMachine_OK_iff machine_inv_def)
qed

lemma padSigs_same: "length (tx_Sigs t) = n \<Longrightarrow> padSigs n t = tx_Sigs t"
  by (auto simp: padSigs_def intro: nth_equalityI)

end
