(* ===== verification/Perun_Examples.thy ===== *)
theory Perun_Examples
  imports Perun_Sim Perun_PSM
begin

text \<open>
  Concrete data on which the properties of the library are applied: two participants, a backend
  whose signature of an account is the address of the account, a ledger channel with the empty
  application, its initial state, and a channel machine that has been brought to the acting phase.
\<close>

definition ex_alice :: address where "ex_alice = replicate 64 1"

definition ex_bob :: address where "ex_bob = replicate 64 2"

definition ex_registry :: appReg where
  "ex_registry = \<lparr>ar_resolvers = [], ar_singles = Map.empty, ar_default = Some payment_Resolve\<rparr>"

definition ex_userApp :: user_app where
  "ex_userApp = \<lparr>ua_IsStateApp = False, ua_IsActionApp = False, ua_DecodeData = returnD NoData,
     ua_ValidTransition = (\<lambda>_ _ _ _. OK ()), ua_ValidInit = (\<lambda>_ _. OK ()),
     ua_ValidAction = (\<lambda>_ _ _ _. OK ()), ua_ApplyActions = (\<lambda>_ _ _. Err (ErrNew ''unused'')),
     ua_InitState = (\<lambda>_ _. Err (ErrNew ''unused'')), ua_DecodeAction = returnD NilAction\<rparr>"

definition ex_backend :: channel_backend where
  "ex_backend = \<lparr>wb_EncodeAddress = OK, wb_DecodeAddress = ReadFull 64, wb_DecodeSig = ReadFull 64,
     wb_VerifySignature = (\<lambda>_ sg a. OK (sg = Some a)), ab_DecodeAsset = sim_DecodeAsset,
     cb_CalcID = (\<lambda>_. OK Zero),
     cb_Sign = (\<lambda>a _ _. if length a = 64 then OK (Some a) else Err (ErrNew ''unknown account'')),
     cb_Verify = (\<lambda>a _ _ sg. OK (sg = Some a)),
     cb_registry = ex_registry, cb_userApp = (\<lambda>_. ex_userApp)\<rparr>"

definition ex_params :: Params where
  "ex_params = \<lparr>p_id = Zero, p_ChallengeDuration = 60, p_Parts = [ex_alice, ex_bob], p_App = NoApp,
     p_Nonce = Some 7, p_LedgerChannel = True, p_VirtualChannel = False\<rparr>"

definition ex_asset :: asset where "ex_asset = Some (Asset_Encode 1)"

definition ex_alloc :: Allocation where
  "ex_alloc = \<lparr>al_Assets = [ex_asset], al_Balances = [[5, 3]], al_Locked = []\<rparr>"

definition ex_alloc2 :: Allocation where
  "ex_alloc2 = \<lparr>al_Assets = [ex_asset], al_Balances = [[4, 4]], al_Locked = []\<rparr>"

definition ex_state :: State where
  "ex_state = \<lparr>st_ID = Zero, st_Version = 0, st_App = NoApp, st_Alloc = ex_alloc, st_Data = NoData,
     st_IsFinal = False\<rparr>"

definition ex_state2 :: State where
  "ex_state2 = \<lparr>st_ID = Zero, st_Version = 1, st_App = NoApp, st_Alloc = ex_alloc2, st_Data = NoData,
     st_IsFinal = False\<rparr>"

definition ex_tx :: Transaction where
  "ex_tx = \<lparr>tx_State = Some ex_state, tx_Sigs = [Some ex_alice, Some ex_bob]\<rparr>"

text \<open>Alice's machine after opening the channel, and while an update is being signed.\<close>

definition ex_machine :: StateMachine where
  "ex_machine = \<lparr>m_phase = Acting, m_acc = ex_alice, m_idx = 0, m_params = ex_params,
     m_stagingTX = zeroTransaction, m_currentTX = ex_tx, m_prevTXs = [zeroTransaction], sm_app = NoApp\<rparr>"

definition ex_signing :: StateMachine where
  "ex_signing = ex_machine\<lparr>m_phase := Signing,
     m_stagingTX := \<lparr>tx_State = Some ex_state2, tx_Sigs = [None, None]\<rparr>\<rparr>"

text \<open>\<open>ex_signing\<close> with Alice's signature.\<close>

definition ex_signed :: StateMachine where
  "ex_signed = ex_machine\<lparr>m_phase := Signing,
     m_stagingTX := \<lparr>tx_State = Some ex_state2, tx_Sigs = [Some ex_alice, None]\<rparr>\<rparr>"

lemmas ex_defs = ex_registry_def ex_backend_def ex_params_def ex_alloc_def ex_alloc2_def
  ex_state_def ex_state2_def ex_tx_def ex_machine_def ex_signing_def

lemma ex_addr_simps [simp]:
  "length ex_alice = 64" "length ex_bob = 64" "ex_alice \<noteq> ex_bob" "ex_bob \<noteq> ex_alice"
  by (simp_all add: ex_alice_def ex_bob_def)

lemma length_Zero [simp]: "length Zero = 32"
  by (simp add: Zero_def)

lemma ex_signing_backend: "signing_backend ex_backend"
  by unfold_locales (auto simp: ex_backend_def split: if_splits)

lemma ex_codec: "channel_codec ex_backend addr64 addr64 sim_asset_ok"
  by unfold_locales
    (auto simp: ex_backend_def intro!: roundtrips_OK_I sim_asset_rt)

lemma ex_wallet_codec: "wallet_codec ex_backend addr64 addr64"
  using ex_codec by (simp add: channel_codec_def asset_codec_def)

lemma ex_valid [simp]: "valid_alloc ex_alloc" "valid_alloc ex_alloc2"
  by (simp_all add: valid_alloc_def ex_alloc_def ex_alloc2_def)

lemma ex_asset_ok [simp]: "sim_asset_ok ex_asset"
  by (auto simp: sim_asset_ok_def ex_asset_def)

lemma ex_alloc_ok [simp]: "alloc_ok sim_asset_ok ex_alloc"
  by (simp add: alloc_ok_def) (simp add: ex_alloc_def balances_ok_def bal_ok_def)

lemma ex_state_ok [simp]: "state_ok ex_backend addr64 sim_asset_ok ex_state"
  by (simp add: state_ok_def app_ok_def data_ok_def ex_state_def)

lemma ex_open:
  "NewStateMachine ex_backend ex_alice ex_params =
     OK \<lparr>m_phase = InitActing, m_acc = ex_alice, m_idx = 0, m_params = ex_params,
        m_stagingTX = zeroTransaction, m_currentTX = zeroTransaction, m_prevTXs = [], sm_app = NoApp\<rparr>"
  by (simp add: NewStateMachine_OK_iff) (simp add: ex_params_def IsStateApp_def IndexOfAddr_def)

lemma ex_newState: "newState ex_params ex_alloc NoData = OK ex_state"
  by (simp add: newState_OK_iff) (simp add: ex_params_def ex_alloc_def ex_state_def)

lemma ex_newTransaction:
  "m_params m = ex_params \<Longrightarrow> newTransaction m s = \<lparr>tx_State = s, tx_Sigs = [None, None]\<rparr>"
proof -
  assume "m_params m = ex_params"
  then have "unat (machine_N m) = 2"
    by (simp add: machine_N_def ex_params_def)
  moreover have "replicate 2 (None :: sig) = [None, None]"
    by (simp add: numeral_2_eq_2)
  ultimately show ?thesis
    by (simp only: newTransaction_def)
qed

lemma ex_run:
  "bindR (NewStateMachine ex_backend ex_alice ex_params) (\<lambda>m. exec_ops ex_backend m
     [OpInit ex_alloc NoData, OpSig, OpAddSig 1 (Some ex_bob), OpEnableInit, OpSetFunded]) = OK ex_machine"
proof -
  let ?m = "\<lparr>m_phase = InitActing, m_acc = ex_alice, m_idx = 0, m_params = ex_params,
        m_stagingTX = zeroTransaction, m_currentTX = zeroTransaction, m_prevTXs = [], sm_app = NoApp\<rparr>"
  let ?t = "\<lambda>sigs. \<lparr>tx_State = Some ex_state, tx_Sigs = sigs\<rparr>"
  let ?s = "\<lambda>sigs. ?m\<lparr>m_phase := InitSigning, m_stagingTX := ?t sigs\<rparr>"
  have "Init ex_backend ?m ex_alloc NoData = OK (?s [None, None])"
    by (simp add: Init_OK_iff ex_newState ex_newTransaction)
      (simp add: app_ValidInit_def noApp_ValidInit_def IsNoData_def ex_state_def)
  moreover have "Sig ex_backend (?s [None, None]) = OK (Some ex_alice, ?s [Some ex_alice, None])"
    by (simp add: Sig_OK_iff signingPhases_def Let_def ex_backend_def)
  moreover have "AddSig ex_backend (?s [Some ex_alice, None]) 1 (Some ex_bob) =
      OK (?s [Some ex_alice, Some ex_bob])"
    by (simp add: AddSig_OK_iff signingPhases_def ex_backend_def ex_params_def)
  moreover have "EnableInit (?s [Some ex_alice, Some ex_bob]) =
      OK (?m\<lparr>m_phase := Funding, m_prevTXs := [zeroTransaction],
            m_currentTX := ?t [Some ex_alice, Some ex_bob]\<rparr>)"
    by (simp add: EnableInit_def enableStaged_OK_iff validPhaseTransitions_def ex_state_def)
  moreover have "SetFunded (?m\<lparr>m_phase := Funding, m_prevTXs := [zeroTransaction],
            m_currentTX := ?t [Some ex_alice, Some ex_bob]\<rparr>) = OK ex_machine"
    by (simp add: set_phase_OK_iffs ex_machine_def ex_tx_def)
  ultimately show ?thesis
    by (simp add: ex_open)
qed

lemma ex_reach: "reach ex_backend ex_alice ex_params ex_machine"
  using ex_run reach_exec_ops [OF reach.new] unfolding bindR_OK_iff by blast

lemma ex_small: "length (p_Parts ex_params) < 2 ^ 16"
  by (simp add: ex_params_def)

lemma ex_phase: "Funding \<le> m_phase ex_machine"
  by (simp add: ex_machine_def Funding_le)

section \<open>A stored channel\<close>

lemma ex_params_ok [simp]: "params_ok ex_backend addr64 ex_params"
proof -
  have "length (be_bytes 7) \<le> 32"
    by (simp add: length_be_bytes_le)
  then show ?thesis
    by (simp add: params_ok_def app_ok_def ValidateParameters_def ValidateProposalParameters_def
        IsStateApp_def max_defs MaxNonceLen_def ex_params_def) (simp add: ex_backend_def)
qed

lemma ex_alloc2_ok [simp]: "alloc_ok sim_asset_ok ex_alloc2"
  by (simp add: alloc_ok_def) (simp add: ex_alloc2_def balances_ok_def bal_ok_def)

lemma ex_state2_ok [simp]: "state_ok ex_backend addr64 sim_asset_ok ex_state2"
  by (simp add: state_ok_def app_ok_def data_ok_def ex_state2_def)

lemma ex_tx_ok [simp]: "tx_ok ex_backend addr64 addr64 sim_asset_ok ex_tx"
  by (simp add: tx_ok_def ex_tx_def opt_ok_def) (simp add: ex_state_def ex_alloc_def NumParts_def)

lemma ex_source_ok:
  "source_ok ex_backend addr64 addr64 sim_asset_ok (source_of ex_machine)"
  "source_ok ex_backend addr64 addr64 sim_asset_ok (source_of ex_signing)"
  "source_ok ex_backend addr64 addr64 sim_asset_ok (source_of ex_signed)"
  by (simp_all add: source_ok_def ex_machine_def ex_signing_def ex_signed_def zeroTransaction_def opt_ok_def)
    (simp_all add: ex_params_def ex_alice_def)

lemma NewDatabase_inv: "db_inv NewDatabase" "db_map NewDatabase k = None"
  by (simp_all add: db_inv_def NewDatabase_def db_map_def)

lemma ex_created:
  assumes "source_ok ex_backend addr64 addr64 sim_asset_ok s"
  shows "\<exists>d. ChannelCreated ex_backend NewDatabase s [ex_bob] None = (d, OK ()) \<and>
     persisted ex_backend d s [ex_bob] None \<and>
     (\<forall>a \<in> set [ex_bob]. \<forall>key. peerChannelKey ex_backend a (p_id (src_Params s)) = OK key \<longrightarrow>
        db_map d (kv_PeerDB @ key) = Some [])"
  using channel_codec.ChannelCreated_persisted [OF ex_codec assms, of "[ex_bob]" None NewDatabase]
  by (auto simp: NewDatabase_inv)

lemma ex_sign: "Sig ex_backend ex_signing = OK (Some ex_alice, ex_signed)"
  by (simp add: Sig_OK_iff Let_def ex_signing_def ex_signed_def signingPhases_def)
    (simp add: ex_machine_def ex_backend_def ex_alice_def)

lemma ex_pad:
  "padSigs (length (p_Parts ex_params)) (m_stagingTX ex_machine) = [None, None]"
  "padSigs (length (p_Parts ex_params)) (m_stagingTX ex_signed) = [Some ex_alice, None]"
  by (simp_all add: padSigs_def ex_params_def ex_machine_def ex_signed_def zeroTransaction_def)

end
