(* ===== verification/Perun_Messages.thy ===== *)
theory Perun_Messages
  imports Perun_Machine
begin

text \<open>
  The messages that clients exchange and their encodings: channel proposals and their answers
  (\<open>client/proposalmsgs.go\<close>, \<open>client/proposalopts.go\<close>), channel updates
  (\<open>client/updatemsgs.go\<close>), synchronisation messages (\<open>client/syncmsgs.go\<close>), slices with a length
  prefix (\<open>client/serialize.go\<close>), control and authentication messages and the envelope with the
  registry of decoders (\<open>wire/msg.go\<close>, \<open>wire/controlmsgs.go\<close>, \<open>wire/account.go\<close>).

  Embedded structs are record extensions.  The hash of proposals (SHA3 of an external package) is a
  parameter.  Lemmas: every well-formed message survives encoding in an envelope, and the decoders
  of all message types of the protocol can be registered.
\<close>

section \<open>Slices with length\<close>

definition channelIDsWithLen_Encode :: "ID list \<Rightarrow> bytes res" where
  "channelIDsWithLen_Encode a =
     catE (Encode [VUint16 (of_nat (length a))]) (concatE (map (\<lambda>i. Encode [VBytes32 i]) a))"

definition channelIDsWithLen_Decode :: "ID list decoder" where
  "channelIDsWithLen_Decode =
     bindD (msgD ''decoding length'' (decArg decUint16)) (\<lambda>l.
     repeatD (unat l) (msgD ''decoding item %d'' (decArg decBytes32)))"

definition indexMapWithLen_Encode :: "Index list \<Rightarrow> bytes res" where
  "indexMapWithLen_Encode a =
     catE (Encode [VUint16 (of_nat (length a))]) (concatE (map (\<lambda>b. Encode [VUint16 b]) a))"

definition indexMapWithLen_Decode :: "Index list decoder" where
  "indexMapWithLen_Decode =
     bindD (msgD ''decoding length'' (decArg decUint16)) (\<lambda>l.
     repeatD (unat l) (msgD ''decoding item %d'' (decArg decUint16)))"

definition indexMapsWithLen_Encode :: "Index list list \<Rightarrow> bytes res" where
  "indexMapsWithLen_Encode a =
     catE (Encode [VUint16 (of_nat (length a))])
       (concatE (map (\<lambda>m. Encode [VEncoder (Some (indexMapWithLen_Encode m))]) a))"

definition indexMapsWithLen_Decode :: "Index list list decoder" where
  "indexMapsWithLen_Decode =
     bindD (msgD ''decoding length'' (decArg decUint16)) (\<lambda>l.
     repeatD (unat l) (decArg indexMapWithLen_Decode))"

section \<open>Proposal options\<close>

record ProposalOpts =
  po_nonce :: "bytes option"
  po_app :: "App option"
  po_appData :: "Data option"
  po_fundingAgreement :: "Bal list list option"

definition noOptions :: ProposalOpts where
  "noOptions = \<lparr>po_nonce = None, po_app = None, po_appData = None, po_fundingAgreement = None\<rparr>"

definition WithFundingAgreement :: "Bal list list \<Rightarrow> ProposalOpts" where
  "WithFundingAgreement alloc = noOptions\<lparr>po_fundingAgreement := Some alloc\<rparr>"

definition WithNonce :: "bytes \<Rightarrow> ProposalOpts" where
  "WithNonce share = noOptions\<lparr>po_nonce := Some share\<rparr>"

definition WithApp :: "App \<Rightarrow> Data \<Rightarrow> ProposalOpts" where
  "WithApp app initData = noOptions\<lparr>po_app := Some app, po_appData := Some initData\<rparr>"

definition WithoutApp :: ProposalOpts where
  "WithoutApp = WithApp NoApp NoData"

definition opts_App :: "ProposalOpts \<Rightarrow> App" where
  "opts_App opt = (case po_app opt of
      Some a \<Rightarrow> if a = NilApp then NoApp else a
    | None \<Rightarrow> NoApp)"

definition SetsApp :: "ProposalOpts \<Rightarrow> bool" where
  "SetsApp opt \<longleftrightarrow> po_app opt \<noteq> None"

definition opts_AppData :: "ProposalOpts \<Rightarrow> Data" where
  "opts_AppData opt = (case po_appData opt of
      Some d \<Rightarrow> if d = NilData then NoData else d
    | None \<Rightarrow> NoData)"

definition isFundingAgreement :: "ProposalOpts \<Rightarrow> bool" where
  "isFundingAgreement opt \<longleftrightarrow> po_fundingAgreement opt \<noteq> None"

definition isNonce :: "ProposalOpts \<Rightarrow> bool" where
  "isNonce opt \<longleftrightarrow> po_nonce opt \<noteq> None"

text \<open>Without a configured nonce share a random one is used, here an argument.\<close>

definition opts_nonce :: "bytes \<Rightarrow> ProposalOpts \<Rightarrow> bytes" where
  "opts_nonce rnd opt = (case po_nonce opt of Some n \<Rightarrow> n | None \<Rightarrow> rnd)"

definition merge_opt :: "'a option \<Rightarrow> 'a option \<Rightarrow> 'a option res" where
  "merge_opt x y = (case (x, y) of
      (Some _, Some _) \<Rightarrow> Panic ''ProposalOpts: duplicate %s option''
    | (None, y) \<Rightarrow> OK y
    | (x, None) \<Rightarrow> OK x)"

definition opts_union :: "ProposalOpts list \<Rightarrow> ProposalOpts res" where
  "opts_union opts = foldR (\<lambda>opt ret.
     bindR (merge_opt (po_nonce ret) (po_nonce opt)) (\<lambda>n.
     bindR (merge_opt (po_app ret) (po_app opt)) (\<lambda>a.
     bindR (merge_opt (po_appData ret) (po_appData opt)) (\<lambda>d.
     bindR (merge_opt (po_fundingAgreement ret) (po_fundingAgreement opt)) (\<lambda>f.
     OK \<lparr>po_nonce = n, po_app = a, po_appData = d, po_fundingAgreement = f\<rparr>))))) opts noOptions"

section \<open>Channel proposals\<close>

record BaseChannelProposal =
  bp_ChallengeDuration :: u64
  bp_NonceShare :: bytes
  bp_App :: App
  bp_InitData :: Data
  bp_InitBals :: "Allocation option"
  bp_FundingAgreement :: "Bal list list"

record LedgerChannelProposal = BaseChannelProposal +
  lp_Participant :: "address option"
  lp_Peers :: "address list"

record SubChannelProposal = BaseChannelProposal +
  sp_Parent :: ID

record VirtualChannelProposal = BaseChannelProposal +
  vp_Proposer :: "address option"
  vp_Peers :: "address list"
  vp_Parents :: "ID list"
  vp_IndexMaps :: "Index list list"

definition makeBaseChannelProposal ::
    "bytes \<Rightarrow> u64 \<Rightarrow> Allocation \<Rightarrow> ProposalOpts list \<Rightarrow> BaseChannelProposal res" where
  "makeBaseChannelProposal rnd challengeDuration initBals opts =
     bindR (opts_union opts) (\<lambda>opt.
     bindR (case po_fundingAgreement opt of
         None \<Rightarrow> OK (al_Balances initBals)
       | Some fa \<Rightarrow>
           bindR (with_msg ''comparing FundingAgreement and initial balances sum''
             (EqualSum (OK (Balances_Sum (al_Balances initBals))) (OK (Balances_Sum fa)))) (\<lambda>equal.
           if \<not> equal then Err (ErrNew ''FundingAgreement and initial balances differ'') else OK fa)) (\<lambda>fundingAgreement.
     OK \<lparr>bp_ChallengeDuration = challengeDuration, bp_NonceShare = opts_nonce rnd opt, bp_App = opts_App opt,
         bp_InitData = opts_AppData opt, bp_InitBals = Some initBals, bp_FundingAgreement = fundingAgreement\<rparr>))"

definition NumPeers :: "'m BaseChannelProposal_scheme \<Rightarrow> nat res" where
  "NumPeers p = bindR (deref (bp_InitBals p)) (\<lambda>a. bindR (index_at (al_Balances a) 0) (\<lambda>row. OK (length row)))"

definition OptAppAndDataEnc_Encode :: "'b channel_backend_scheme \<Rightarrow> App \<Rightarrow> Data \<Rightarrow> bytes res" where
  "OptAppAndDataEnc_Encode B app data =
     Encode [VEncoder (Some (OptAppEnc_Encode B app)), VEncoder (data_encoder data)]"

definition OptAppAndDataDec_Decode :: "'b channel_backend_scheme \<Rightarrow> (App \<times> Data) decoder" where
  "OptAppAndDataDec_Decode B =
     bindD (decArg (OptAppDec_Decode B)) (\<lambda>app. bindD (app_DecodeData B app) (\<lambda>d. returnD (app, d)))"

definition BaseChannelProposal_Encode ::
    "'b channel_backend_scheme \<Rightarrow> 'm BaseChannelProposal_scheme \<Rightarrow> bytes res" where
  "BaseChannelProposal_Encode B p =
     Encode [VUint64 (bp_ChallengeDuration p), VBytes32 (bp_NonceShare p),
       VEncoder (Some (OptAppAndDataEnc_Encode B (bp_App p) (bp_InitData p))),
       VEncoder (Some (bindR (deref (bp_InitBals p)) Allocation_Encode)),
       VEncoder (Some (Balances_Encode (bp_FundingAgreement p)))]"

definition BaseChannelProposal_Decode :: "'b channel_backend_scheme \<Rightarrow> BaseChannelProposal decoder" where
  "BaseChannelProposal_Decode B =
     bindD (decArg decUint64) (\<lambda>cd.
     bindD (decArg decBytes32) (\<lambda>nonce.
     bindD (decArg (OptAppAndDataDec_Decode B)) (\<lambda>ad.
     bindD (decArg (Allocation_Decode B)) (\<lambda>bals.
     bindD (decArg Balances_Decode) (\<lambda>fa.
     returnD \<lparr>bp_ChallengeDuration = cd, bp_NonceShare = nonce, bp_App = fst ad, bp_InitData = snd ad,
       bp_InitBals = Some bals, bp_FundingAgreement = fa\<rparr>)))))"

definition BaseChannelProposal_Valid ::
    "'b channel_backend_scheme \<Rightarrow> 'm BaseChannelProposal_scheme \<Rightarrow> unit res" where
  "BaseChannelProposal_Valid B p = (case bp_InitBals p of
      None \<Rightarrow> Err (ErrNew ''invalid nil fields'')
    | Some bals \<Rightarrow>
        bindR (NumPeers p) (\<lambda>n.
        bindR (with_msg ''invalid channel parameters''
          (ValidateProposalParameters B (bp_ChallengeDuration p) n (bp_App p))) (\<lambda>_.
        bindR (Allocation_Valid bals) (\<lambda>_.
        err_if (length (al_Locked bals) \<noteq> 0) (ErrNew ''initial allocation cannot have locked funds'')))))"

text \<open>A proposal's identifier hashes an encoding; a failing encoding panics.\<close>

definition hashed :: "(bytes \<Rightarrow> bytes) \<Rightarrow> string \<Rightarrow> bytes res \<Rightarrow> bytes res" where
  "hashed H msg e = (case e of OK b \<Rightarrow> OK (H b) | Err _ \<Rightarrow> Panic msg | Panic s \<Rightarrow> Panic s)"

definition Base_ProposalID ::
    "(bytes \<Rightarrow> bytes) \<Rightarrow> 'b channel_backend_scheme \<Rightarrow> 'm BaseChannelProposal_scheme \<Rightarrow> bytes res" where
  "Base_ProposalID H B p = hashed H ''proposal ID base encoding: %v''
     (Encode [VEncoder (Some (BaseChannelProposal_Encode B p))])"

subsection \<open>Ledger channels\<close>

definition NewLedgerChannelProposal ::
    "bytes \<Rightarrow> u64 \<Rightarrow> address option \<Rightarrow> Allocation \<Rightarrow> address list \<Rightarrow> ProposalOpts list \<Rightarrow> LedgerChannelProposal res" where
  "NewLedgerChannelProposal rnd challengeDuration participant initBals peers opts =
     bindR (makeBaseChannelProposal rnd challengeDuration initBals opts) (\<lambda>base.
     OK (BaseChannelProposal.extend base (LedgerChannelProposal.fields participant peers)))"

definition Ledger_ProposalID ::
    "(bytes \<Rightarrow> bytes) \<Rightarrow> 'b channel_backend_scheme \<Rightarrow> LedgerChannelProposal \<Rightarrow> bytes res" where
  "Ledger_ProposalID H B p = hashed H ''proposal ID nonce encoding: %v''
     (Encode [VEncoder (Some (BaseChannelProposal_Encode B p)),
        VEncoder (map_option (wb_EncodeAddress B) (lp_Participant p)),
        VEncoder (Some (Addresses_Encode B (lp_Peers p)))])"

definition assertValidNumParts :: "LedgerChannelProposal \<Rightarrow> unit res" where
  "assertValidNumParts p = err_if (length (lp_Peers p) < 2 \<or> length (lp_Peers p) > MaxNumParts)
     (ErrNew ''expected 2-%d participants, got %d'')"

definition LedgerChannelProposal_Encode ::
    "'b channel_backend_scheme \<Rightarrow> LedgerChannelProposal \<Rightarrow> bytes res" where
  "LedgerChannelProposal_Encode B p =
     bindR (assertValidNumParts p) (\<lambda>_.
     Encode [VEncoder (Some (BaseChannelProposal_Encode B p)),
       VEncoder (map_option (wb_EncodeAddress B) (lp_Participant p)),
       VEncoder (Some (AddressesWithLen_Encode B (lp_Peers p)))])"

definition LedgerChannelProposal_Decode :: "'b channel_backend_scheme \<Rightarrow> LedgerChannelProposal decoder" where
  "LedgerChannelProposal_Decode B =
     bindD (decArg (BaseChannelProposal_Decode B)) (\<lambda>base.
     bindD (decArg (AddressDec_Decode B)) (\<lambda>part.
     bindD (decArg (AddressesWithLen_Decode B)) (\<lambda>peers.
     let p = BaseChannelProposal.extend base (LedgerChannelProposal.fields (Some part) peers) in
     bindD (checkD (assertValidNumParts p)) (\<lambda>_. returnD p))))"

definition LedgerChannelProposal_Valid ::
    "'b channel_backend_scheme \<Rightarrow> LedgerChannelProposal \<Rightarrow> unit res" where
  "LedgerChannelProposal_Valid B p =
     bindR (BaseChannelProposal_Valid B p) (\<lambda>_.
     err_if (lp_Participant p = None) (ErrNew ''invalid nil participant''))"

subsection \<open>Sub-channels\<close>

definition NewSubChannelProposal ::
    "bytes \<Rightarrow> ID \<Rightarrow> u64 \<Rightarrow> Allocation \<Rightarrow> ProposalOpts list \<Rightarrow> SubChannelProposal res" where
  "NewSubChannelProposal rnd parent challengeDuration initBals opts =
     bindR (opts_union opts) (\<lambda>u.
     if isFundingAgreement u then Err (ErrNew ''Sub-Channels currently do not support funding agreements'')
     else bindR (makeBaseChannelProposal rnd challengeDuration initBals opts) (\<lambda>base.
       OK (BaseChannelProposal.extend base (SubChannelProposal.fields parent))))"

definition Sub_ProposalID ::
    "(bytes \<Rightarrow> bytes) \<Rightarrow> 'b channel_backend_scheme \<Rightarrow> SubChannelProposal \<Rightarrow> bytes res" where
  "Sub_ProposalID H B p = hashed H ''proposal ID nonce encoding: %v''
     (Encode [VEncoder (Some (BaseChannelProposal_Encode B p)), VBytes32 (sp_Parent p)])"

definition SubChannelProposal_Encode :: "'b channel_backend_scheme \<Rightarrow> SubChannelProposal \<Rightarrow> bytes res" where
  "SubChannelProposal_Encode B p =
     Encode [VEncoder (Some (BaseChannelProposal_Encode B p)), VBytes32 (sp_Parent p)]"

definition SubChannelProposal_Decode :: "'b channel_backend_scheme \<Rightarrow> SubChannelProposal decoder" where
  "SubChannelProposal_Decode B =
     bindD (decArg (BaseChannelProposal_Decode B)) (\<lambda>base.
     bindD (decArg decBytes32) (\<lambda>parent.
     returnD (BaseChannelProposal.extend base (SubChannelProposal.fields parent))))"

subsection \<open>Virtual channels\<close>

definition NewVirtualChannelProposal ::
    "bytes \<Rightarrow> u64 \<Rightarrow> address option \<Rightarrow> Allocation \<Rightarrow> address list \<Rightarrow> ID list \<Rightarrow> Index list list \<Rightarrow>
     ProposalOpts list \<Rightarrow> VirtualChannelProposal res" where
  "NewVirtualChannelProposal rnd challengeDuration participant initBals peers parents indexMaps opts =
     bindR (makeBaseChannelProposal rnd challengeDuration initBals opts) (\<lambda>base.
     OK (BaseChannelProposal.extend base (VirtualChannelProposal.fields participant peers parents indexMaps)))"

definition VirtualChannelProposal_Encode ::
    "'b channel_backend_scheme \<Rightarrow> VirtualChannelProposal \<Rightarrow> bytes res" where
  "VirtualChannelProposal_Encode B p =
     Encode [VEncoder (Some (BaseChannelProposal_Encode B p)),
       VEncoder (map_option (wb_EncodeAddress B) (vp_Proposer p)),
       VEncoder (Some (AddressesWithLen_Encode B (vp_Peers p))),
       VEncoder (Some (channelIDsWithLen_Encode (vp_Parents p))),
       VEncoder (Some (indexMapsWithLen_Encode (vp_IndexMaps p)))]"

definition VirtualChannelProposal_Decode :: "'b channel_backend_scheme \<Rightarrow> VirtualChannelProposal decoder" where
  "VirtualChannelProposal_Decode B =
     bindD (decArg (BaseChannelProposal_Decode B)) (\<lambda>base.
     bindD (decArg (AddressDec_Decode B)) (\<lambda>proposer.
     bindD (decArg (AddressesWithLen_Decode B)) (\<lambda>peers.
     bindD (decArg channelIDsWithLen_Decode) (\<lambda>parents.
     bindD (decArg indexMapsWithLen_Decode) (\<lambda>maps.
     returnD (BaseChannelProposal.extend base
       (VirtualChannelProposal.fields (Some proposer) peers parents maps)))))))"

section \<open>Answers to proposals\<close>

record BaseChannelProposalAcc =
  ba_ProposalID :: bytes
  ba_NonceShare :: bytes

record LedgerChannelProposalAcc = BaseChannelProposalAcc +
  la_Participant :: "address option"

type_synonym SubChannelProposalAcc = BaseChannelProposalAcc

record VirtualChannelProposalAcc = BaseChannelProposalAcc +
  va_Responder :: "address option"

record ChannelProposalRej =
  cr_ProposalID :: bytes
  cr_Reason :: bytes

definition makeBaseChannelProposalAcc :: "bytes \<Rightarrow> bytes \<Rightarrow> BaseChannelProposalAcc" where
  "makeBaseChannelProposalAcc proposalID nonceShare = \<lparr>ba_ProposalID = proposalID, ba_NonceShare = nonceShare\<rparr>"

definition Ledger_Accept ::
    "bytes \<Rightarrow> (bytes \<Rightarrow> bytes) \<Rightarrow> 'b channel_backend_scheme \<Rightarrow> LedgerChannelProposal \<Rightarrow> address option \<Rightarrow>
     ProposalOpts \<Rightarrow> LedgerChannelProposalAcc res" where
  "Ledger_Accept rnd H B p participant nonceShare =
     (if \<not> isNonce nonceShare
      then bindR (Ledger_ProposalID H B p) (\<lambda>_.
        Panic ''LedgerChannelProposal.Accept: nonceShare has no configured nonce'')
      else bindR (Ledger_ProposalID H B p) (\<lambda>propID.
        OK (BaseChannelProposalAcc.extend (makeBaseChannelProposalAcc propID (opts_nonce rnd nonceShare))
              (LedgerChannelProposalAcc.fields participant))))"

definition Sub_Accept ::
    "bytes \<Rightarrow> (bytes \<Rightarrow> bytes) \<Rightarrow> 'b channel_backend_scheme \<Rightarrow> SubChannelProposal \<Rightarrow> ProposalOpts \<Rightarrow>
     SubChannelProposalAcc res" where
  "Sub_Accept rnd H B p nonceShare =
     bindR (Sub_ProposalID H B p) (\<lambda>propID.
     if \<not> isNonce nonceShare then Panic ''SubChannelProposal.Accept: nonceShare has no configured nonce''
     else OK (makeBaseChannelProposalAcc propID (opts_nonce rnd nonceShare)))"

text \<open>A virtual channel proposal has the identifier of its common part.\<close>

definition Virtual_Accept ::
    "bytes \<Rightarrow> (bytes \<Rightarrow> bytes) \<Rightarrow> 'b channel_backend_scheme \<Rightarrow> VirtualChannelProposal \<Rightarrow> address option \<Rightarrow>
     ProposalOpts list \<Rightarrow> VirtualChannelProposalAcc res" where
  "Virtual_Accept rnd H B p responder opts =
     bindR (Base_ProposalID H B p) (\<lambda>propID.
     bindR (opts_union opts) (\<lambda>opt.
     OK (BaseChannelProposalAcc.extend (makeBaseChannelProposalAcc propID (opts_nonce rnd opt))
           (VirtualChannelProposalAcc.fields responder))))"

definition BaseChannelProposalAcc_Encode :: "'m BaseChannelProposalAcc_scheme \<Rightarrow> bytes res" where
  "BaseChannelProposalAcc_Encode acc = Encode [VBytes32 (ba_ProposalID acc), VBytes32 (ba_NonceShare acc)]"

definition BaseChannelProposalAcc_Decode :: "BaseChannelProposalAcc decoder" where
  "BaseChannelProposalAcc_Decode =
     bindD (decArg decBytes32) (\<lambda>i. bindD (decArg decBytes32) (\<lambda>n.
     returnD \<lparr>ba_ProposalID = i, ba_NonceShare = n\<rparr>))"

definition LedgerChannelProposalAcc_Encode ::
    "'b channel_backend_scheme \<Rightarrow> LedgerChannelProposalAcc \<Rightarrow> bytes res" where
  "LedgerChannelProposalAcc_Encode B acc =
     Encode [VEncoder (Some (BaseChannelProposalAcc_Encode acc)),
       VEncoder (map_option (wb_EncodeAddress B) (la_Participant acc))]"

definition LedgerChannelProposalAcc_Decode :: "'b channel_backend_scheme \<Rightarrow> LedgerChannelProposalAcc decoder" where
  "LedgerChannelProposalAcc_Decode B =
     bindD (decArg BaseChannelProposalAcc_Decode) (\<lambda>base.
     bindD (decArg (AddressDec_Decode B)) (\<lambda>part.
     returnD (BaseChannelProposalAcc.extend base (LedgerChannelProposalAcc.fields (Some part)))))"

definition SubChannelProposalAcc_Encode :: "SubChannelProposalAcc \<Rightarrow> bytes res" where
  "SubChannelProposalAcc_Encode acc = Encode [VEncoder (Some (BaseChannelProposalAcc_Encode acc))]"

definition SubChannelProposalAcc_Decode :: "SubChannelProposalAcc decoder" where
  "SubChannelProposalAcc_Decode = decArg BaseChannelProposalAcc_Decode"

definition VirtualChannelProposalAcc_Encode ::
    "'b channel_backend_scheme \<Rightarrow> VirtualChannelProposalAcc \<Rightarrow> bytes res" where
  "VirtualChannelProposalAcc_Encode B acc =
     Encode [VEncoder (Some (BaseChannelProposalAcc_Encode acc)),
       VEncoder (map_option (wb_EncodeAddress B) (va_Responder acc))]"

definition VirtualChannelProposalAcc_Decode :: "'b channel_backend_scheme \<Rightarrow> VirtualChannelProposalAcc decoder" where
  "VirtualChannelProposalAcc_Decode B =
     bindD (decArg BaseChannelProposalAcc_Decode) (\<lambda>base.
     bindD (decArg (AddressDec_Decode B)) (\<lambda>part.
     returnD (BaseChannelProposalAcc.extend base (VirtualChannelProposalAcc.fields (Some part)))))"

definition ChannelProposalRej_Encode :: "ChannelProposalRej \<Rightarrow> bytes res" where
  "ChannelProposalRej_Encode rej = Encode [VBytes32 (cr_ProposalID rej), VString (cr_Reason rej)]"

definition ChannelProposalRej_Decode :: "ChannelProposalRej decoder" where
  "ChannelProposalRej_Decode =
     bindD (decArg decBytes32) (\<lambda>i. bindD (decArg decodeString) (\<lambda>s.
     returnD \<lparr>cr_ProposalID = i, cr_Reason = s\<rparr>))"

section \<open>Channel updates\<close>

record ChannelUpdate =
  cu_State :: State
  cu_ActorIdx :: Index

record msgChannelUpdate = ChannelUpdate +
  mu_Sig :: sig

record msgChannelUpdateAcc =
  ua_ChannelID :: ID
  ua_Version :: u64
  ua_Sig :: sig

record msgChannelUpdateRej =
  ur_ChannelID :: ID
  ur_Version :: u64
  ur_Reason :: bytes

record SignedState =
  ss_Params :: Params
  ss_State :: State
  ss_Sigs :: "sig list"

record virtualChannelFundingProposal = msgChannelUpdate +
  vf_Initial :: SignedState
  vf_IndexMap :: "Index list"

record virtualChannelSettlementProposal = msgChannelUpdate +
  vs_Final :: SignedState

definition sigSlice :: "sig \<Rightarrow> bytes" where
  "sigSlice s = (case s of None \<Rightarrow> [] | Some b \<Rightarrow> b)"

definition msgChannelUpdate_Encode :: "'b channel_backend_scheme \<Rightarrow> 'm msgChannelUpdate_scheme \<Rightarrow> bytes res" where
  "msgChannelUpdate_Encode B c =
     Encode [VEncoder (Some (State_Encode B (cu_State c))), VUint16 (cu_ActorIdx c), VByteSlice (sigSlice (mu_Sig c))]"

definition msgChannelUpdate_Decode :: "'b channel_backend_scheme \<Rightarrow> msgChannelUpdate decoder" where
  "msgChannelUpdate_Decode B =
     bindD (decArg (State_Decode B)) (\<lambda>s.
     bindD (decArg decUint16) (\<lambda>i.
     bindD (wb_DecodeSig B) (\<lambda>sig.
     returnD \<lparr>cu_State = s, cu_ActorIdx = i, mu_Sig = Some sig\<rparr>)))"

definition msgChannelUpdateAcc_Encode :: "msgChannelUpdateAcc \<Rightarrow> bytes res" where
  "msgChannelUpdateAcc_Encode c =
     Encode [VBytes32 (ua_ChannelID c), VUint64 (ua_Version c), VByteSlice (sigSlice (ua_Sig c))]"

definition msgChannelUpdateAcc_Decode :: "'b channel_backend_scheme \<Rightarrow> msgChannelUpdateAcc decoder" where
  "msgChannelUpdateAcc_Decode B =
     bindD (decArg decBytes32) (\<lambda>i.
     bindD (decArg decUint64) (\<lambda>v.
     bindD (wb_DecodeSig B) (\<lambda>sig.
     returnD \<lparr>ua_ChannelID = i, ua_Version = v, ua_Sig = Some sig\<rparr>)))"

definition msgChannelUpdateRej_Encode :: "msgChannelUpdateRej \<Rightarrow> bytes res" where
  "msgChannelUpdateRej_Encode c =
     Encode [VBytes32 (ur_ChannelID c), VUint64 (ur_Version c), VString (ur_Reason c)]"

definition msgChannelUpdateRej_Decode :: "msgChannelUpdateRej decoder" where
  "msgChannelUpdateRej_Decode =
     bindD (decArg decBytes32) (\<lambda>i. bindD (decArg decUint64) (\<lambda>v. bindD (decArg decodeString) (\<lambda>s.
     returnD \<lparr>ur_ChannelID = i, ur_Version = v, ur_Reason = s\<rparr>)))"

definition virtualChannelFundingProposal_Encode ::
    "'b channel_backend_scheme \<Rightarrow> virtualChannelFundingProposal \<Rightarrow> bytes res" where
  "virtualChannelFundingProposal_Encode B m =
     catE (Encode [VEncoder (Some (msgChannelUpdate_Encode B m)),
             VEncoder (Some (Params_Encode B (ss_Params (vf_Initial m)))),
             VEncoder (Some (State_Encode B (ss_State (vf_Initial m)))),
             VEncoder (Some (indexMapWithLen_Encode (vf_IndexMap m)))])
       (EncodeSparseSigs (ss_Sigs (vf_Initial m)))"

text \<open>The signatures of a signed state: as many as the state has participants.\<close>

definition decodeSigs :: "'b channel_backend_scheme \<Rightarrow> State \<Rightarrow> sig list decoder" where
  "decodeSigs B s =
     bindD (checkD (panic_if (NumParts (st_Alloc s) < 0) ''makeslice: len out of range'')) (\<lambda>_.
     DecodeSparseSigs B (nat (NumParts (st_Alloc s))))"

definition virtualChannelFundingProposal_Decode ::
    "'b channel_backend_scheme \<Rightarrow> virtualChannelFundingProposal decoder" where
  "virtualChannelFundingProposal_Decode B =
     bindD (decArg (msgChannelUpdate_Decode B)) (\<lambda>u.
     bindD (decArg (Params_Decode B)) (\<lambda>p.
     bindD (decArg (State_Decode B)) (\<lambda>s.
     bindD (decArg indexMapWithLen_Decode) (\<lambda>im.
     bindD (decodeSigs B s) (\<lambda>sigs.
     returnD (msgChannelUpdate.extend u (virtualChannelFundingProposal.fields
       \<lparr>ss_Params = p, ss_State = s, ss_Sigs = sigs\<rparr> im)))))))"

definition virtualChannelSettlementProposal_Encode ::
    "'b channel_backend_scheme \<Rightarrow> virtualChannelSettlementProposal \<Rightarrow> bytes res" where
  "virtualChannelSettlementProposal_Encode B m =
     catE (Encode [VEncoder (Some (msgChannelUpdate_Encode B m)),
             VEncoder (Some (Params_Encode B (ss_Params (vs_Final m)))),
             VEncoder (Some (State_Encode B (ss_State (vs_Final m))))])
       (EncodeSparseSigs (ss_Sigs (vs_Final m)))"

definition virtualChannelSettlementProposal_Decode ::
    "'b channel_backend_scheme \<Rightarrow> virtualChannelSettlementProposal decoder" where
  "virtualChannelSettlementProposal_Decode B =
     bindD (decArg (msgChannelUpdate_Decode B)) (\<lambda>u.
     bindD (decArg (Params_Decode B)) (\<lambda>p.
     bindD (decArg (State_Decode B)) (\<lambda>s.
     bindD (decodeSigs B s) (\<lambda>sigs.
     returnD (msgChannelUpdate.extend u (virtualChannelSettlementProposal.fields
       \<lparr>ss_Params = p, ss_State = s, ss_Sigs = sigs\<rparr>))))))"

section \<open>Synchronisation and control messages\<close>

record msgChannelSync =
  cs_Phase :: Phase
  cs_CurrentTX :: Transaction

definition newChannelSyncMsg :: "Source \<Rightarrow> msgChannelSync" where
  "newChannelSyncMsg s = \<lparr>cs_Phase = src_Phase s, cs_CurrentTX = src_CurrentTX s\<rparr>"

definition msgChannelSync_Encode :: "'b channel_backend_scheme \<Rightarrow> msgChannelSync \<Rightarrow> bytes res" where
  "msgChannelSync_Encode B m =
     Encode [VEncoder (Some (Phase_Encode (cs_Phase m))), VEncoder (Some (Transaction_Encode B (cs_CurrentTX m)))]"

definition msgChannelSync_Decode :: "'b channel_backend_scheme \<Rightarrow> msgChannelSync decoder" where
  "msgChannelSync_Decode B =
     bindD (decArg Phase_Decode) (\<lambda>p. bindD (decArg (Transaction_Decode B)) (\<lambda>t.
     returnD \<lparr>cs_Phase = p, cs_CurrentTX = t\<rparr>))"

definition msgChannelSync_ID :: "msgChannelSync \<Rightarrow> ID res" where
  "msgChannelSync_ID m = bindR (deref (tx_State (cs_CurrentTX m))) (\<lambda>s. OK (st_ID s))"

text \<open>A ping or pong message holds a time, in nanoseconds.\<close>

definition pingPongMsg_Encode :: "u64 \<Rightarrow> bytes res" where
  "pingPongMsg_Encode created = Encode [VTime created]"

definition pingPongMsg_Decode :: "u64 decoder" where
  "pingPongMsg_Decode = decArg decTime"

definition ShutdownMsg_Encode :: "bytes \<Rightarrow> bytes res" where
  "ShutdownMsg_Encode reason = Encode [VString reason]"

definition ShutdownMsg_Decode :: "bytes decoder" where
  "ShutdownMsg_Decode = decArg decodeString"

section \<open>Messages and envelopes\<close>

text \<open>External messages are those of users of the framework: a type and a payload.\<close>

datatype Msg =
    PingMsg u64
  | PongMsg u64
  | ShutdownMsg bytes
  | AuthResponseMsg
  | MLedgerProposal LedgerChannelProposal
  | MLedgerProposalAcc LedgerChannelProposalAcc
  | MSubProposal SubChannelProposal
  | MSubProposalAcc SubChannelProposalAcc
  | MVirtualProposal VirtualChannelProposal
  | MVirtualProposalAcc VirtualChannelProposalAcc
  | MProposalRej ChannelProposalRej
  | MUpdate msgChannelUpdate
  | MVirtualFunding virtualChannelFundingProposal
  | MVirtualSettlement virtualChannelSettlementProposal
  | MUpdateAcc msgChannelUpdateAcc
  | MUpdateRej msgChannelUpdateRej
  | MSync msgChannelSync
  | MExternal byte bytes

primrec msg_Type :: "Msg \<Rightarrow> byte" where
  "msg_Type (PingMsg _) = 0"
| "msg_Type (PongMsg _) = 1"
| "msg_Type (ShutdownMsg _) = 2"
| "msg_Type AuthResponseMsg = 3"
| "msg_Type (MLedgerProposal _) = 4"
| "msg_Type (MLedgerProposalAcc _) = 5"
| "msg_Type (MSubProposal _) = 6"
| "msg_Type (MSubProposalAcc _) = 7"
| "msg_Type (MVirtualProposal _) = 8"
| "msg_Type (MVirtualProposalAcc _) = 9"
| "msg_Type (MProposalRej _) = 10"
| "msg_Type (MUpdate _) = 11"
| "msg_Type (MVirtualFunding _) = 12"
| "msg_Type (MVirtualSettlement _) = 13"
| "msg_Type (MUpdateAcc _) = 14"
| "msg_Type (MUpdateRej _) = 15"
| "msg_Type (MSync _) = 16"
| "msg_Type (MExternal t _) = t"

definition LastType :: byte where "LastType = 17"

primrec msg_Encode :: "'b channel_backend_scheme \<Rightarrow> Msg \<Rightarrow> bytes res" where
  "msg_Encode B (PingMsg t) = pingPongMsg_Encode t"
| "msg_Encode B (PongMsg t) = pingPongMsg_Encode t"
| "msg_Encode B (ShutdownMsg r) = ShutdownMsg_Encode r"
| "msg_Encode B AuthResponseMsg = OK []"
| "msg_Encode B (MLedgerProposal p) = LedgerChannelProposal_Encode B p"
| "msg_Encode B (MLedgerProposalAcc a) = LedgerChannelProposalAcc_Encode B a"
| "msg_Encode B (MSubProposal p) = SubChannelProposal_Encode B p"
| "msg_Encode B (MSubProposalAcc a) = SubChannelProposalAcc_Encode a"
| "msg_Encode B (MVirtualProposal p) = VirtualChannelProposal_Encode B p"
| "msg_Encode B (MVirtualProposalAcc a) = VirtualChannelProposalAcc_Encode B a"
| "msg_Encode B (MProposalRej r) = ChannelProposalRej_Encode r"
| "msg_Encode B (MUpdate u) = msgChannelUpdate_Encode B u"
| "msg_Encode B (MVirtualFunding m) = virtualChannelFundingProposal_Encode B m"
| "msg_Encode B (MVirtualSettlement m) = virtualChannelSettlementProposal_Encode B m"
| "msg_Encode B (MUpdateAcc a) = msgChannelUpdateAcc_Encode a"
| "msg_Encode B (MUpdateRej r) = msgChannelUpdateRej_Encode r"
| "msg_Encode B (MSync m) = msgChannelSync_Encode B m"
| "msg_Encode B (MExternal t b) = OK b"

definition mapD :: "('a \<Rightarrow> 'b) \<Rightarrow> 'a decoder \<Rightarrow> 'b decoder" where
  "mapD f d = bindD d (\<lambda>x. returnD (f x))"

text \<open>The global map of decoders and its registration; the map after all initialisers have run.\<close>

type_synonym msg_decoders = "byte \<Rightarrow> Msg decoder option"

definition RegisterDecoder :: "byte \<Rightarrow> Msg decoder \<Rightarrow> msg_decoders \<Rightarrow> msg_decoders res" where
  "RegisterDecoder t d ds =
     (if ds t \<noteq> None then Panic ''wire: decoder for Type %v already set'' else OK (ds(t \<mapsto> d)))"

definition RegisterExternalDecoder ::
    "byte \<Rightarrow> Msg decoder \<Rightarrow> string \<Rightarrow> msg_decoders \<times> (byte \<rightharpoonup> string) \<Rightarrow> (msg_decoders \<times> (byte \<rightharpoonup> string)) res" where
  "RegisterExternalDecoder t d name reg =
     (if t < LastType then Panic ''external decoders can only be registered for alien types''
      else bindR (RegisterDecoder t d (fst reg)) (\<lambda>ds. OK (ds, (snd reg)(t \<mapsto> name))))"

definition init_decoders :: "'b channel_backend_scheme \<Rightarrow> (byte \<times> Msg decoder) list" where
  "init_decoders B =
     [(3, returnD AuthResponseMsg),
      (0, mapD PingMsg pingPongMsg_Decode), (1, mapD PongMsg pingPongMsg_Decode),
      (2, mapD ShutdownMsg ShutdownMsg_Decode),
      (4, mapD MLedgerProposal (LedgerChannelProposal_Decode B)),
      (5, mapD MLedgerProposalAcc (LedgerChannelProposalAcc_Decode B)),
      (6, mapD MSubProposal (SubChannelProposal_Decode B)),
      (7, mapD MSubProposalAcc SubChannelProposalAcc_Decode),
      (10, mapD MProposalRej ChannelProposalRej_Decode),
      (8, mapD MVirtualProposal (VirtualChannelProposal_Decode B)),
      (9, mapD MVirtualProposalAcc (VirtualChannelProposalAcc_Decode B)),
      (16, mapD MSync (msgChannelSync_Decode B)),
      (11, mapD MUpdate (msgChannelUpdate_Decode B)),
      (14, mapD MUpdateAcc (msgChannelUpdateAcc_Decode B)),
      (15, mapD MUpdateRej msgChannelUpdateRej_Decode),
      (12, mapD MVirtualFunding (virtualChannelFundingProposal_Decode B)),
      (13, mapD MVirtualSettlement (virtualChannelSettlementProposal_Decode B))]"

definition init_registry :: "'b channel_backend_scheme \<Rightarrow> msg_decoders res" where
  "init_registry B = foldR (\<lambda>(t, d) ds. RegisterDecoder t d ds) (init_decoders B) Map.empty"

definition Type_Valid :: "msg_decoders \<Rightarrow> byte \<Rightarrow> bool" where
  "Type_Valid ds t \<longleftrightarrow> ds t \<noteq> None"

definition wire_Encode :: "'b channel_backend_scheme \<Rightarrow> Msg \<Rightarrow> bytes res" where
  "wire_Encode B m = Encode [VUint8 (msg_Type m), VEncoder (Some (msg_Encode B m))]"

definition wire_Decode :: "msg_decoders \<Rightarrow> Msg decoder" where
  "wire_Decode ds =
     bindD (msgD ''failed to decode message Type'' (decArg decUint8)) (\<lambda>t.
     case ds t of
       None \<Rightarrow> failD (ErrNew ''wire: no decoder known for message Type): %v'')
     | Some d \<Rightarrow> d)"

record Envelope =
  env_Sender :: address
  env_Recipient :: address
  env_Msg :: Msg

definition Envelope_Encode :: "'b channel_backend_scheme \<Rightarrow> Envelope \<Rightarrow> bytes res" where
  "Envelope_Encode B env =
     catE (Encode [VEncoder (Some (wb_EncodeAddress B (env_Sender env))),
                   VEncoder (Some (wb_EncodeAddress B (env_Recipient env)))])
       (wire_Encode B (env_Msg env))"

definition Envelope_Decode :: "'b channel_backend_scheme \<Rightarrow> msg_decoders \<Rightarrow> Envelope decoder" where
  "Envelope_Decode B ds =
     bindD (wb_DecodeAddress B) (\<lambda>s.
     bindD (wb_DecodeAddress B) (\<lambda>r.
     bindD (wire_Decode ds) (\<lambda>m.
     returnD \<lparr>env_Sender = s, env_Recipient = r, env_Msg = m\<rparr>)))"

text \<open>Registration of decoders succeeds when no type occurs twice, and gives every type its decoder.\<close>

lemma register_all:
  assumes "distinct (map fst l)" "\<forall>t \<in> fst ` set l. ds t = None"
  shows "foldR (\<lambda>(t, d) ds. RegisterDecoder t d ds) l ds = OK (ds ++ map_of l)"
  using assms
proof (induction l arbitrary: ds)
  case (Cons x l)
  obtain t d where x: "x = (t, d)" by (cases x)
  have e: "ds ++ map_of (x # l) = ds(t \<mapsto> d) ++ map_of l"
    using Cons.prems(1) unfolding x by (simp add: map_add_upd_left dom_map_of_conv_image_fst)
  have "foldR (\<lambda>(t, d) ds. RegisterDecoder t d ds) l (ds(t \<mapsto> d)) = OK (ds(t \<mapsto> d) ++ map_of l)"
    by (rule Cons.IH) (use Cons.prems in \<open>auto simp: x\<close>)
  then show ?case
    unfolding e using Cons.prems(2) by (simp add: x RegisterDecoder_def)
qed simp

lemma init_registry_eq: "init_registry B = OK (map_of (init_decoders B))"
proof -
  have "distinct (map fst (init_decoders B))"
    by (simp add: init_decoders_def)
  then show ?thesis
    unfolding init_registry_def by (subst register_all) simp_all
qed

section \<open>Proposals\<close>

lemma NumPeers_OK_iff:
  "NumPeers p = OK n \<longleftrightarrow>
     (\<exists>a. bp_InitBals p = Some a \<and> al_Balances a \<noteq> [] \<and> n = length (hd (al_Balances a)))"
  by (auto simp: NumPeers_def res_simps hd_conv_nth)

lemma BaseChannelProposal_Valid_OK_iff:
  "BaseChannelProposal_Valid B p = OK u \<longleftrightarrow>
     (\<exists>a. bp_InitBals p = Some a \<and> valid_alloc a \<and> al_Locked a = [] \<and>
        ValidateProposalParameters B (bp_ChallengeDuration p) (length (hd (al_Balances a))) (bp_App p) = OK ())"
proof (cases "bp_InitBals p")
  case (Some a)
  have "al_Balances a \<noteq> []" if "valid_alloc a"
    using that by (auto simp: valid_alloc_def Let_def)
  then show ?thesis
    by (auto simp: BaseChannelProposal_Valid_def Some res_simps NumPeers_OK_iff Allocation_Valid_OK_iff)
qed (simp add: BaseChannelProposal_Valid_def)

lemma LedgerChannelProposal_Valid_OK_iff:
  "LedgerChannelProposal_Valid B p = OK u \<longleftrightarrow>
     BaseChannelProposal_Valid B p = OK () \<and> lp_Participant p \<noteq> None"
  by (auto simp: LedgerChannelProposal_Valid_def res_simps)

text \<open>The options of a proposal: at most one of each kind, otherwise the constructor panics.\<close>

lemma merge_opt_OK_iff: "merge_opt x y = OK z \<longleftrightarrow> (x = None \<or> y = None) \<and> z = (case x of None \<Rightarrow> y | _ \<Rightarrow> x)"
  by (auto simp: merge_opt_def split: option.splits)

lemma EqualSum_OK_def: "EqualSum (OK x) (OK y) = OK b \<longleftrightarrow> length x = length y \<and> b = (x = y)"
  by (auto simp: EqualSum_def Let_def list_all2_eq)

lemma makeBase_OK_iff:
  "makeBaseChannelProposal rnd cd a opts = OK p \<longleftrightarrow>
     (\<exists>opt. opts_union opts = OK opt \<and>
        (\<forall>fa. po_fundingAgreement opt = Some fa \<longrightarrow> Balances_Sum fa = Balances_Sum (al_Balances a)) \<and>
        p = \<lparr>bp_ChallengeDuration = cd, bp_NonceShare = opts_nonce rnd opt, bp_App = opts_App opt,
          bp_InitData = opts_AppData opt, bp_InitBals = Some a,
          bp_FundingAgreement = (case po_fundingAgreement opt of None \<Rightarrow> al_Balances a | Some fa \<Rightarrow> fa)\<rparr>)"
proof (cases "opts_union opts")
  case (OK opt)
  show ?thesis
  proof (cases "po_fundingAgreement opt")
    case None
    then show ?thesis
      by (auto simp: makeBaseChannelProposal_def OK)
  next
    case (Some fa)
    let ?eq = "EqualSum (OK (Balances_Sum (al_Balances a))) (OK (Balances_Sum fa))"
    consider "?eq = OK True" "Balances_Sum fa = Balances_Sum (al_Balances a)"
      | "?eq = OK False" "Balances_Sum fa \<noteq> Balances_Sum (al_Balances a)"
      | "\<And>x. ?eq \<noteq> OK x" "Balances_Sum fa \<noteq> Balances_Sum (al_Balances a)"
      unfolding EqualSum_OK_def by metis
    then show ?thesis
    proof cases
      case 3
      then show ?thesis
        by (cases ?eq) (auto simp: makeBaseChannelProposal_def OK Some simp del: Balances_Sum_eq)
    qed (auto simp: makeBaseChannelProposal_def OK Some)
  qed
qed (simp_all add: makeBaseChannelProposal_def)

text \<open>The identifier of a virtual channel proposal covers the common part only.\<close>

lemma Virtual_ProposalID_base:
  assumes "BaseChannelProposal.truncate p = BaseChannelProposal.truncate q"
  shows "Base_ProposalID H B p = Base_ProposalID H B q"
  using assms by (simp add: Base_ProposalID_def BaseChannelProposal_Encode_def BaseChannelProposal.defs)

section \<open>Round trips\<close>

lemma rt_return_eq: "x = y \<Longrightarrow> roundtrips (Encode []) (returnD x) y"
  by (simp add: rt_Encode_Nil)

text \<open>A call of \<open>Encode\<close> that is followed by another encoder.\<close>

lemma rt_Encode_Cons_cat:
  "roundtrips (encArg v) d x \<Longrightarrow> roundtrips (catE (Encode vs) e) (f x) y \<Longrightarrow>
   roundtrips (catE (Encode (v # vs)) e) (bindD d f) y"
proof -
  assume "roundtrips (encArg v) d x" "roundtrips (catE (Encode vs) e) (f x) y"
  moreover have "catE (Encode (v # vs)) e = catE (encArg v) (catE (Encode vs) e)"
    unfolding Encode_def by (cases "encArg v") (simp_all add: catE_def)
  ultimately show ?thesis
    by (simp add: roundtrips_bind)
qed

lemma rt_Encode_last_cat:
  "roundtrips e d x \<Longrightarrow> g x = y \<Longrightarrow> roundtrips (catE (Encode []) e) (bindD d (\<lambda>x. returnD (g x))) y"
  by (auto simp: roundtrips_def catE_def Encode_def bindD_def returnD_def)

lemma rt_encArg_enc: "roundtrips e d x \<Longrightarrow> roundtrips (encArg (VEncoder (Some e))) d x"
  unfolding encArg_def by (intro roundtrips_with_msg rt_encoder)

lemma mapD_rt: "roundtrips e d x \<Longrightarrow> roundtrips e (mapD f d) (f x)"
  by (auto simp: roundtrips_def mapD_def bindD_def returnD_def)

lemma pingPong_rt: "roundtrips (pingPongMsg_Encode t) pingPongMsg_Decode t"
  unfolding pingPongMsg_Encode_def pingPongMsg_Decode_def by (intro rt_Encode_single rt_encArg rt_time)

lemma Shutdown_rt: "length r < 2 ^ 16 \<Longrightarrow> roundtrips (ShutdownMsg_Encode r) ShutdownMsg_Decode r"
  unfolding ShutdownMsg_Encode_def ShutdownMsg_Decode_def by (intro rt_Encode_single rt_encArg rt_string)

lemma rt_len16: "roundtrips (Encode [VUint16 w]) (msgD s (decArg decUint16)) w"
  by (intro roundtrips_msgD rt_Encode_single rt_encArg rt_uint16)

text \<open>A slice is encoded as its length and its items.\<close>

lemma rt_slice:
  assumes "length xs < 2 ^ 16" "\<And>x. x \<in> set xs \<Longrightarrow> roundtrips (enc x) dec x"
  shows "roundtrips (catE (Encode [VUint16 (of_nat (length xs))]) (concatE (map enc xs)))
     (bindD (msgD s (decArg decUint16)) (\<lambda>l. repeatD (unat l) dec)) xs"
proof (rule roundtrips_bind [OF rt_len16])
  show "roundtrips (concatE (map enc xs)) (repeatD (unat (of_nat (length xs) :: u16)) dec) xs"
    unfolding unat_of_nat_u16 [OF assms(1)] by (rule roundtrips_repeatD) (rule assms(2))
qed

lemma channelIDsWithLen_rt:
  assumes "length a < 2 ^ 16" "list_all (\<lambda>i. length i = 32) a"
  shows "roundtrips (channelIDsWithLen_Encode a) channelIDsWithLen_Decode a"
  unfolding channelIDsWithLen_Encode_def channelIDsWithLen_Decode_def
  using assms by (intro rt_slice roundtrips_msgD rt_Encode_single rt_encArg rt_bytes32) (simp_all add: list_all_iff)

lemma indexMapWithLen_rt:
  "length a < 2 ^ 16 \<Longrightarrow> roundtrips (indexMapWithLen_Encode a) indexMapWithLen_Decode a"
  unfolding indexMapWithLen_Encode_def indexMapWithLen_Decode_def
  by (intro rt_slice roundtrips_msgD rt_Encode_single rt_encArg rt_uint16)

lemma indexMapsWithLen_rt:
  assumes "length a < 2 ^ 16" "list_all (\<lambda>m. length m < 2 ^ 16) a"
  shows "roundtrips (indexMapsWithLen_Encode a) indexMapsWithLen_Decode a"
  unfolding indexMapsWithLen_Encode_def indexMapsWithLen_Decode_def
  using assms by (intro rt_slice rt_Encode_single rt_decArg_enc indexMapWithLen_rt) (simp_all add: list_all_iff)

text \<open>Well-formed messages.\<close>

definition base_ok ::
    "'b channel_backend_scheme \<Rightarrow> (address \<Rightarrow> bool) \<Rightarrow> (asset \<Rightarrow> bool) \<Rightarrow> 'm BaseChannelProposal_scheme \<Rightarrow> bool" where
  "base_ok B wf_addr wf_asset p \<longleftrightarrow> length (bp_NonceShare p) = 32 \<and> app_ok B wf_addr (bp_App p) \<and>
     data_ok B (bp_App p) (bp_InitData p) \<and> balances_ok (bp_FundingAgreement p) \<and>
     (\<exists>a. bp_InitBals p = Some a \<and> alloc_ok wf_asset a)"

definition acc_ok :: "'m BaseChannelProposalAcc_scheme \<Rightarrow> bool" where
  "acc_ok a \<longleftrightarrow> length (ba_ProposalID a) = 32 \<and> length (ba_NonceShare a) = 32"

definition some_ok :: "('a \<Rightarrow> bool) \<Rightarrow> 'a option \<Rightarrow> bool" where
  "some_ok P x = (case x of None \<Rightarrow> False | Some y \<Rightarrow> P y)"

definition update_ok ::
    "'b channel_backend_scheme \<Rightarrow> (address \<Rightarrow> bool) \<Rightarrow> (bytes \<Rightarrow> bool) \<Rightarrow> (asset \<Rightarrow> bool) \<Rightarrow>
     'm msgChannelUpdate_scheme \<Rightarrow> bool" where
  "update_ok B wf_addr wf_sig wf_asset u \<longleftrightarrow> state_ok B wf_addr wf_asset (cu_State u) \<and> some_ok wf_sig (mu_Sig u)"

definition signed_ok ::
    "'b channel_backend_scheme \<Rightarrow> (address \<Rightarrow> bool) \<Rightarrow> (bytes \<Rightarrow> bool) \<Rightarrow> (asset \<Rightarrow> bool) \<Rightarrow> SignedState \<Rightarrow> bool" where
  "signed_ok B wf_addr wf_sig wf_asset s \<longleftrightarrow> params_ok B wf_addr (ss_Params s) \<and>
     tx_ok B wf_addr wf_sig wf_asset \<lparr>tx_State = Some (ss_State s), tx_Sigs = ss_Sigs s\<rparr>"

primrec msg_ok ::
    "'b channel_backend_scheme \<Rightarrow> (address \<Rightarrow> bool) \<Rightarrow> (bytes \<Rightarrow> bool) \<Rightarrow> (asset \<Rightarrow> bool) \<Rightarrow> Msg \<Rightarrow> bool" where
  "msg_ok B wa ws wt (PingMsg t) = True"
| "msg_ok B wa ws wt (PongMsg t) = True"
| "msg_ok B wa ws wt (ShutdownMsg r) = (length r < 2 ^ 16)"
| "msg_ok B wa ws wt AuthResponseMsg = True"
| "msg_ok B wa ws wt (MLedgerProposal p) = (base_ok B wa wt p \<and> some_ok wa (lp_Participant p) \<and>
     list_all wa (lp_Peers p) \<and> 2 \<le> length (lp_Peers p) \<and> length (lp_Peers p) \<le> 1024)"
| "msg_ok B wa ws wt (MLedgerProposalAcc a) = (acc_ok a \<and> some_ok wa (la_Participant a))"
| "msg_ok B wa ws wt (MSubProposal p) = (base_ok B wa wt p \<and> length (sp_Parent p) = 32)"
| "msg_ok B wa ws wt (MSubProposalAcc a) = acc_ok a"
| "msg_ok B wa ws wt (MVirtualProposal p) = (base_ok B wa wt p \<and> some_ok wa (vp_Proposer p) \<and>
     list_all wa (vp_Peers p) \<and> length (vp_Peers p) < 2 ^ 16 \<and>
     length (vp_Parents p) < 2 ^ 16 \<and> list_all (\<lambda>i. length i = 32) (vp_Parents p) \<and>
     length (vp_IndexMaps p) < 2 ^ 16 \<and> list_all (\<lambda>m. length m < 2 ^ 16) (vp_IndexMaps p))"
| "msg_ok B wa ws wt (MVirtualProposalAcc a) = (acc_ok a \<and> some_ok wa (va_Responder a))"
| "msg_ok B wa ws wt (MProposalRej r) = (length (cr_ProposalID r) = 32 \<and> length (cr_Reason r) < 2 ^ 16)"
| "msg_ok B wa ws wt (MUpdate u) = update_ok B wa ws wt u"
| "msg_ok B wa ws wt (MVirtualFunding m) = (update_ok B wa ws wt m \<and> signed_ok B wa ws wt (vf_Initial m) \<and>
     length (vf_IndexMap m) < 2 ^ 16)"
| "msg_ok B wa ws wt (MVirtualSettlement m) = (update_ok B wa ws wt m \<and> signed_ok B wa ws wt (vs_Final m))"
| "msg_ok B wa ws wt (MUpdateAcc a) = (length (ua_ChannelID a) = 32 \<and> some_ok ws (ua_Sig a))"
| "msg_ok B wa ws wt (MUpdateRej r) = (length (ur_ChannelID r) = 32 \<and> length (ur_Reason r) < 2 ^ 16)"
| "msg_ok B wa ws wt (MSync m) = (phase_num (cs_Phase m) < 256 \<and> tx_ok B wa ws wt (cs_CurrentTX m))"
| "msg_ok B wa ws wt (MExternal t b) = False"

context channel_codec
begin

lemma OptAppAndData_rt:
  assumes "app_ok B wf_addr app" "data_ok B app d"
  shows "roundtrips (OptAppAndDataEnc_Encode B app d) (OptAppAndDataDec_Decode B) (app, d)"
  unfolding OptAppAndDataEnc_Encode_def OptAppAndDataDec_Decode_def
  by (rule rt_Encode_Cons rt_decArg_enc OptApp_rt rt_data rt_Encode_Nil assms)+

lemma Base_rt:
  assumes "base_ok B wf_addr wf_asset p"
  shows "roundtrips (BaseChannelProposal_Encode B p) (BaseChannelProposal_Decode B) (BaseChannelProposal.truncate p)"
proof -
  obtain a where a: "bp_InitBals p = Some a" "alloc_ok wf_asset a"
    using assms by (auto simp: base_ok_def)
  have ok: "length (bp_NonceShare p) = 32" "app_ok B wf_addr (bp_App p)" "data_ok B (bp_App p) (bp_InitData p)"
    "balances_ok (bp_FundingAgreement p)"
    using assms by (simp_all add: base_ok_def)
  show ?thesis
    unfolding BaseChannelProposal_Encode_def BaseChannelProposal_Decode_def a(1) deref_simps bindR.simps
    by (rule rt_Encode_Cons rt_encArg rt_uint64 rt_bytes32 rt_encoder OptAppAndData_rt Allocation_rt Balances_rt ok a(2)
        rt_return_eq)+ (simp add: BaseChannelProposal.defs a(1))
qed

lemma addr_rt: "wf_addr a \<Longrightarrow> roundtrips (encArg (VEncoder (map_option (wb_EncodeAddress B) (Some a)))) (decArg (AddressDec_Decode B)) a"
  unfolding option.map by (intro rt_decArg_enc AddressDec_rt)

lemma Ledger_rt:
  assumes "msg_ok B wf_addr wf_sig wf_asset (MLedgerProposal p)"
  shows "roundtrips (LedgerChannelProposal_Encode B p) (LedgerChannelProposal_Decode B) p"
proof -
  obtain a where a: "lp_Participant p = Some a" "wf_addr a"
    using assms by (auto simp: some_ok_def split: option.splits)
  have ok: "base_ok B wf_addr wf_asset p" "list_all wf_addr (lp_Peers p)" "length (lp_Peers p) < 2 ^ 16"
    using assms by simp_all
  have eta: "BaseChannelProposal.extend (BaseChannelProposal.truncate p)
      (LedgerChannelProposal.fields (Some a) (lp_Peers p)) = p"
    using a(1) by (cases p) (simp add: BaseChannelProposal.defs LedgerChannelProposal.defs)
  have num: "assertValidNumParts p = OK ()"
    using assms by (simp add: assertValidNumParts_def MaxNumParts_def)
  have last: "roundtrips (Encode []) (let p = BaseChannelProposal.extend (BaseChannelProposal.truncate p)
      (LedgerChannelProposal.fields (Some a) (lp_Peers p)) in
      bindD (checkD (assertValidNumParts p)) (\<lambda>_. returnD p)) p"
    unfolding Let_def eta by (intro roundtrips_checkD num rt_Encode_Nil)
  show ?thesis
    unfolding LedgerChannelProposal_Encode_def LedgerChannelProposal_Decode_def num bindR.simps a(1)
    by (rule last rt_Encode_Cons addr_rt rt_decArg_enc Base_rt AddressesWithLen_rt ok a(2))+
qed

lemma Sub_rt:
  assumes "msg_ok B wf_addr wf_sig wf_asset (MSubProposal p)"
  shows "roundtrips (SubChannelProposal_Encode B p) (SubChannelProposal_Decode B) p"
proof -
  have ok: "base_ok B wf_addr wf_asset p" "length (sp_Parent p) = 32"
    using assms by simp_all
  have eta: "BaseChannelProposal.extend (BaseChannelProposal.truncate p) (SubChannelProposal.fields (sp_Parent p)) = p"
    by (cases p) (simp add: BaseChannelProposal.defs SubChannelProposal.defs)
  show ?thesis
    unfolding SubChannelProposal_Encode_def SubChannelProposal_Decode_def
    by (rule rt_Encode_Cons rt_encArg rt_encoder rt_bytes32 Base_rt ok rt_return_eq eta)+
qed

lemma Virtual_rt:
  assumes "msg_ok B wf_addr wf_sig wf_asset (MVirtualProposal p)"
  shows "roundtrips (VirtualChannelProposal_Encode B p) (VirtualChannelProposal_Decode B) p"
proof -
  obtain a where a: "vp_Proposer p = Some a" "wf_addr a"
    using assms by (auto simp: some_ok_def split: option.splits)
  have ok: "base_ok B wf_addr wf_asset p" "list_all wf_addr (vp_Peers p)" "length (vp_Peers p) < 2 ^ 16"
    "length (vp_Parents p) < 2 ^ 16" "list_all (\<lambda>i. length i = 32) (vp_Parents p)"
    "length (vp_IndexMaps p) < 2 ^ 16" "list_all (\<lambda>m. length m < 2 ^ 16) (vp_IndexMaps p)"
    using assms by simp_all
  have eta: "BaseChannelProposal.extend (BaseChannelProposal.truncate p)
      (VirtualChannelProposal.fields (Some a) (vp_Peers p) (vp_Parents p) (vp_IndexMaps p)) = p"
    using a(1) by (cases p) (simp add: BaseChannelProposal.defs VirtualChannelProposal.defs)
  show ?thesis
    unfolding VirtualChannelProposal_Encode_def VirtualChannelProposal_Decode_def a(1)
    by (rule rt_Encode_Cons addr_rt rt_decArg_enc Base_rt AddressesWithLen_rt channelIDsWithLen_rt
        indexMapsWithLen_rt ok a(2) rt_return_eq eta)+
qed

lemma BaseAcc_rt:
  assumes "acc_ok a"
  shows "roundtrips (BaseChannelProposalAcc_Encode a) BaseChannelProposalAcc_Decode (BaseChannelProposalAcc.truncate a)"
proof -
  have ok: "length (ba_ProposalID a) = 32" "length (ba_NonceShare a) = 32"
    using assms by (simp_all add: acc_ok_def)
  have eta: "\<lparr>ba_ProposalID = ba_ProposalID a, ba_NonceShare = ba_NonceShare a\<rparr> = BaseChannelProposalAcc.truncate a"
    by (simp add: BaseChannelProposalAcc.defs)
  show ?thesis
    unfolding BaseChannelProposalAcc_Encode_def BaseChannelProposalAcc_Decode_def
    by (rule rt_Encode_Cons rt_encArg rt_bytes32 ok rt_return_eq eta)+
qed

lemma LedgerAcc_rt:
  assumes "acc_ok a" "some_ok wf_addr (la_Participant a)"
  shows "roundtrips (LedgerChannelProposalAcc_Encode B a) (LedgerChannelProposalAcc_Decode B) a"
proof -
  obtain x where x: "la_Participant a = Some x" "wf_addr x"
    using assms(2) by (auto simp: some_ok_def split: option.splits)
  have eta: "BaseChannelProposalAcc.extend (BaseChannelProposalAcc.truncate a) (LedgerChannelProposalAcc.fields (Some x)) = a"
    using x(1) by (cases a) (simp add: BaseChannelProposalAcc.defs LedgerChannelProposalAcc.defs)
  show ?thesis
    unfolding LedgerChannelProposalAcc_Encode_def LedgerChannelProposalAcc_Decode_def x(1)
    by (rule rt_Encode_Cons addr_rt rt_decArg_enc BaseAcc_rt assms(1) x(2) rt_return_eq eta)+
qed

lemma VirtualAcc_rt:
  assumes "acc_ok a" "some_ok wf_addr (va_Responder a)"
  shows "roundtrips (VirtualChannelProposalAcc_Encode B a) (VirtualChannelProposalAcc_Decode B) a"
proof -
  obtain x where x: "va_Responder a = Some x" "wf_addr x"
    using assms(2) by (auto simp: some_ok_def split: option.splits)
  have eta: "BaseChannelProposalAcc.extend (BaseChannelProposalAcc.truncate a) (VirtualChannelProposalAcc.fields (Some x)) = a"
    using x(1) by (cases a) (simp add: BaseChannelProposalAcc.defs VirtualChannelProposalAcc.defs)
  show ?thesis
    unfolding VirtualChannelProposalAcc_Encode_def VirtualChannelProposalAcc_Decode_def x(1)
    by (rule rt_Encode_Cons addr_rt rt_decArg_enc BaseAcc_rt assms(1) x(2) rt_return_eq eta)+
qed

lemma SubAcc_rt:
  assumes "acc_ok a"
  shows "roundtrips (SubChannelProposalAcc_Encode a) SubChannelProposalAcc_Decode a"
proof -
  have eta: "BaseChannelProposalAcc.truncate a = a"
    by (cases a) (simp add: BaseChannelProposalAcc.defs)
  show ?thesis
    unfolding SubChannelProposalAcc_Encode_def SubChannelProposalAcc_Decode_def
    using BaseAcc_rt [OF assms] by (intro rt_Encode_single rt_decArg_enc) (simp add: eta)
qed

lemma Rej_rt:
  assumes "length (cr_ProposalID r) = 32" "length (cr_Reason r) < 2 ^ 16"
  shows "roundtrips (ChannelProposalRej_Encode r) ChannelProposalRej_Decode r"
  unfolding ChannelProposalRej_Encode_def ChannelProposalRej_Decode_def
  by (rule rt_Encode_Cons rt_encArg rt_bytes32 rt_string assms rt_return_eq)+ simp

lemma sig_slice_rt: "wf_sig x \<Longrightarrow> roundtrips (encArg (VByteSlice (sigSlice (Some x)))) (wb_DecodeSig B) x"
  using sig_rt [of x] by (simp add: encArg_def Encode_value_def ByteSlice_Encode_def sigSlice_def)

lemma Update_rt:
  assumes "update_ok B wf_addr wf_sig wf_asset u"
  shows "roundtrips (msgChannelUpdate_Encode B u) (msgChannelUpdate_Decode B) (msgChannelUpdate.truncate u)"
proof -
  obtain x where x: "mu_Sig u = Some x" "wf_sig x" and s: "state_ok B wf_addr wf_asset (cu_State u)"
    using assms by (auto simp: update_ok_def some_ok_def split: option.splits)
  have eta: "\<lparr>cu_State = cu_State u, cu_ActorIdx = cu_ActorIdx u, mu_Sig = Some x\<rparr> = msgChannelUpdate.truncate u"
    using x(1) by (simp add: msgChannelUpdate.defs)
  show ?thesis
    unfolding msgChannelUpdate_Encode_def msgChannelUpdate_Decode_def x(1)
    by (rule rt_Encode_Cons sig_slice_rt rt_decArg_enc rt_encArg rt_uint16 State_rt s x(2) rt_return_eq eta)+
qed

lemma plain_update_rt:
  "update_ok B wf_addr wf_sig wf_asset u \<Longrightarrow> roundtrips (msgChannelUpdate_Encode B u) (msgChannelUpdate_Decode B) u"
  using Update_rt [of u] by (cases u) (simp add: msgChannelUpdate.defs)

lemma UpdateAcc_rt:
  assumes "length (ua_ChannelID a) = 32" "some_ok wf_sig (ua_Sig a)"
  shows "roundtrips (msgChannelUpdateAcc_Encode a) (msgChannelUpdateAcc_Decode B) a"
proof -
  obtain x where x: "ua_Sig a = Some x" "wf_sig x"
    using assms(2) by (auto simp: some_ok_def split: option.splits)
  have eta: "\<lparr>ua_ChannelID = ua_ChannelID a, ua_Version = ua_Version a, ua_Sig = Some x\<rparr> = a"
    using x(1) by simp
  show ?thesis
    unfolding msgChannelUpdateAcc_Encode_def msgChannelUpdateAcc_Decode_def x(1)
    by (rule rt_Encode_Cons sig_slice_rt rt_encArg rt_bytes32 rt_uint64 assms(1) x(2) rt_return_eq eta)+
qed

lemma UpdateRej_rt:
  assumes "length (ur_ChannelID r) = 32" "length (ur_Reason r) < 2 ^ 16"
  shows "roundtrips (msgChannelUpdateRej_Encode r) msgChannelUpdateRej_Decode r"
  unfolding msgChannelUpdateRej_Encode_def msgChannelUpdateRej_Decode_def
  by (rule rt_Encode_Cons rt_encArg rt_bytes32 rt_uint64 rt_string assms rt_return_eq)+ simp

lemma decodeSigs_rt:
  assumes "tx_ok B wf_addr wf_sig wf_asset \<lparr>tx_State = Some s, tx_Sigs = sigs\<rparr>"
  shows "roundtrips (EncodeSparseSigs sigs) (decodeSigs B s) sigs"
proof -
  have n: "int (length sigs) = NumParts (st_Alloc s)" and ok: "list_all (opt_ok wf_sig) sigs"
    using assms by (simp_all add: tx_ok_def)
  then have "nat (NumParts (st_Alloc s)) = length sigs"
    by linarith
  then show ?thesis
    unfolding decodeSigs_def using SparseSigs_rt [OF ok] n by (intro roundtrips_checkD) simp_all
qed

lemma Funding_rt:
  assumes "msg_ok B wf_addr wf_sig wf_asset (MVirtualFunding m)"
  shows "roundtrips (virtualChannelFundingProposal_Encode B m) (virtualChannelFundingProposal_Decode B) m"
proof -
  have ok: "update_ok B wf_addr wf_sig wf_asset m" "params_ok B wf_addr (ss_Params (vf_Initial m))"
    "length (vf_IndexMap m) < 2 ^ 16" "state_ok B wf_addr wf_asset (ss_State (vf_Initial m))"
    and sig: "tx_ok B wf_addr wf_sig wf_asset \<lparr>tx_State = Some (ss_State (vf_Initial m)), tx_Sigs = ss_Sigs (vf_Initial m)\<rparr>"
    using assms by (simp_all add: signed_ok_def tx_ok_def)
  have eta: "msgChannelUpdate.extend (msgChannelUpdate.truncate m) (virtualChannelFundingProposal.fields
      \<lparr>ss_Params = ss_Params (vf_Initial m), ss_State = ss_State (vf_Initial m), ss_Sigs = ss_Sigs (vf_Initial m)\<rparr>
      (vf_IndexMap m)) = m"
    by (cases m) (simp add: msgChannelUpdate.defs virtualChannelFundingProposal.defs)
  show ?thesis
    unfolding virtualChannelFundingProposal_Encode_def virtualChannelFundingProposal_Decode_def
    by (rule rt_Encode_Cons_cat rt_Encode_last_cat decodeSigs_rt sig rt_decArg_enc Update_rt Params_rt State_rt
        indexMapWithLen_rt ok eta)+
qed

lemma Settlement_rt:
  assumes "msg_ok B wf_addr wf_sig wf_asset (MVirtualSettlement m)"
  shows "roundtrips (virtualChannelSettlementProposal_Encode B m) (virtualChannelSettlementProposal_Decode B) m"
proof -
  have ok: "update_ok B wf_addr wf_sig wf_asset m" "params_ok B wf_addr (ss_Params (vs_Final m))"
    "state_ok B wf_addr wf_asset (ss_State (vs_Final m))"
    and sig: "tx_ok B wf_addr wf_sig wf_asset \<lparr>tx_State = Some (ss_State (vs_Final m)), tx_Sigs = ss_Sigs (vs_Final m)\<rparr>"
    using assms by (simp_all add: signed_ok_def tx_ok_def)
  have eta: "msgChannelUpdate.extend (msgChannelUpdate.truncate m) (virtualChannelSettlementProposal.fields
      \<lparr>ss_Params = ss_Params (vs_Final m), ss_State = ss_State (vs_Final m), ss_Sigs = ss_Sigs (vs_Final m)\<rparr>) = m"
    by (cases m) (simp add: msgChannelUpdate.defs virtualChannelSettlementProposal.defs)
  show ?thesis
    unfolding virtualChannelSettlementProposal_Encode_def virtualChannelSettlementProposal_Decode_def
    by (rule rt_Encode_Cons_cat rt_Encode_last_cat decodeSigs_rt sig rt_decArg_enc Update_rt Params_rt State_rt
        ok eta)+
qed

lemma Sync_rt:
  assumes "phase_num (cs_Phase m) < 256" "tx_ok B wf_addr wf_sig wf_asset (cs_CurrentTX m)"
  shows "roundtrips (msgChannelSync_Encode B m) (msgChannelSync_Decode B) m"
  unfolding msgChannelSync_Encode_def msgChannelSync_Decode_def
  by (rule rt_Encode_Cons rt_decArg_enc Phase_rt Transaction_rt assms rt_return_eq)+ simp

lemma msg_codec:
  assumes "msg_ok B wf_addr wf_sig wf_asset m"
  shows "\<exists>d. map_of (init_decoders B) (msg_Type m) = Some d \<and> roundtrips (msg_Encode B m) d m"
proof (cases m)
  case AuthResponseMsg
  then show ?thesis by (simp add: init_decoders_def roundtrips_return)
next
  case (PingMsg t)
  then show ?thesis by (simp add: init_decoders_def mapD_rt pingPong_rt)
next
  case (PongMsg t)
  then show ?thesis by (simp add: init_decoders_def mapD_rt pingPong_rt)
qed (use assms in \<open>simp_all add: init_decoders_def mapD_rt Shutdown_rt Ledger_rt LedgerAcc_rt Sub_rt SubAcc_rt
    Virtual_rt VirtualAcc_rt Rej_rt plain_update_rt Funding_rt Settlement_rt UpdateAcc_rt UpdateRej_rt Sync_rt\<close>)

lemma wire_rt:
  assumes "msg_ok B wf_addr wf_sig wf_asset m" "ds = map_of (init_decoders B)"
  shows "roundtrips (wire_Encode B m) (wire_Decode ds) m"
proof -
  obtain d where d: "ds (msg_Type m) = Some d" "roundtrips (msg_Encode B m) d m"
    using msg_codec [OF assms(1)] assms(2) by blast
  have e: "roundtrips (Encode [VEncoder (Some (msg_Encode B m))])
      (case ds (msg_Type m) of None \<Rightarrow> failD (ErrNew ''wire: no decoder known for message Type): %v'') | Some d \<Rightarrow> d) m"
    unfolding d(1) option.case by (intro rt_Encode_single rt_encArg_enc d(2))
  show ?thesis
    unfolding wire_Encode_def wire_Decode_def
    by (rule rt_Encode_Cons [where x = "msg_Type m"]) (intro roundtrips_msgD rt_encArg rt_uint8, rule e)
qed

lemma Envelope_rt:
  assumes "wf_addr (env_Sender e)" "wf_addr (env_Recipient e)" "msg_ok B wf_addr wf_sig wf_asset (env_Msg e)"
    "ds = map_of (init_decoders B)"
  shows "roundtrips (Envelope_Encode B e) (Envelope_Decode B ds) e"
  unfolding Envelope_Encode_def Envelope_Decode_def
  by (rule rt_Encode_Cons_cat rt_Encode_last_cat rt_encArg_enc address_rt wire_rt assms)+ simp

end

end
