(* ===== verification/Perun_Client.thy ===== *)
theory Perun_Client
  imports Perun_Messages Perun_PSM
begin

text \<open>
  Clients and channel controllers: the state of a client (\<open>client/client.go\<close>,
  \<open>client/channel.go\<close>), the registry of channels (\<open>client/chanregistry.go\<close>), the connection of a
  channel (\<open>client/channelconn.go\<close>), and the update protocol from the proposer's and the responder's
  point of view (\<open>client/update.go\<close>).

  Channel objects are shared (a sub-channel holds a pointer to its parent), so a client has a heap of
  channels and a registry of references.  A method of a client or a channel is a call that changes the
  client and has an outcome.  A handler holds the lock of its channel while it runs, so each call is
  one step.  What other processes do while a handler is blocked is an argument: the outcome of
  publishing a message and the messages that arrive before the context ends.
\<close>

section \<open>Calls\<close>

type_synonym ('s, 'a) call = "'s \<Rightarrow> 's \<times> 'a res"

definition returnS :: "'a \<Rightarrow> ('s, 'a) call" where
  "returnS x s = (s, OK x)"

definition liftS :: "'a res \<Rightarrow> ('s, 'a) call" where
  "liftS r s = (s, r)"

definition getS :: "('s \<Rightarrow> 'a res) \<Rightarrow> ('s, 'a) call" where
  "getS f s = (s, f s)"

definition modifyS :: "('s \<Rightarrow> 's) \<Rightarrow> ('s, unit) call" where
  "modifyS f s = (f s, OK ())"

definition bindS :: "('s, 'a) call \<Rightarrow> ('a \<Rightarrow> ('s, 'b) call) \<Rightarrow> ('s, 'b) call" where
  "bindS c f s = (case c s of
      (s', OK x) \<Rightarrow> f x s'
    | (s', Err e) \<Rightarrow> (s', Err e)
    | (s', Panic p) \<Rightarrow> (s', Panic p))"

definition msgS :: "string \<Rightarrow> ('s, 'a) call \<Rightarrow> ('s, 'a) call" where
  "msgS msg c s = (case c s of (s', r) \<Rightarrow> (s', with_msg msg r))"

text \<open>A deferred function that runs when a call has failed.  \<open>h\<close> gets the error and returns the one to
  report.  A panic unwinds before the error is set, so nothing is done then.\<close>

definition deferS :: "('s, 'a) call \<Rightarrow> (goerr \<Rightarrow> ('s, goerr) call) \<Rightarrow> ('s, 'a) call" where
  "deferS c h s = (case c s of
      (s', Err e) \<Rightarrow> bindS (h e) (\<lambda>e'. liftS (Err e')) s'
    | r \<Rightarrow> r)"

text \<open>A call whose error is only logged.\<close>

definition ignoreS :: "('s, 'a) call \<Rightarrow> ('s, unit) call" where
  "ignoreS c s = (case c s of
      (s', OK _) \<Rightarrow> (s', OK ())
    | (s', Err _) \<Rightarrow> (s', OK ())
    | (s', Panic p) \<Rightarrow> (s', Panic p))"

primrec forEachS :: "('a \<Rightarrow> ('s, unit) call) \<Rightarrow> 'a list \<Rightarrow> ('s, unit) call" where
  "forEachS f [] = returnS ()"
| "forEachS f (x # xs) = bindS (f x) (\<lambda>_. forEachS f xs)"

section \<open>State\<close>

type_synonym cref = nat

text \<open>The update proposals a channel handles: plain ones, and those of virtual channels, which
  embed one.\<close>

datatype ChannelUpdateProposal =
    UpdateProposal msgChannelUpdate
  | FundingProposal virtualChannelFundingProposal
  | SettlementProposal virtualChannelSettlementProposal

primrec prop_Base :: "ChannelUpdateProposal \<Rightarrow> msgChannelUpdate" where
  "prop_Base (UpdateProposal m) = m"
| "prop_Base (FundingProposal m) = msgChannelUpdate.truncate m"
| "prop_Base (SettlementProposal m) = msgChannelUpdate.truncate m"

text \<open>The filters of update interceptors: a closure of \<open>registerSubChannelFunding\<close> or
  \<open>registerSubChannelSettlement\<close> with what it captures.\<close>

datatype updateFilter =
    FundingFilter ID "Bal list"
  | SettlementFilter ID "Bal list list"

type_synonym updateInterceptors = "(ID \<times> updateFilter) list"

record Channel =
  ch_machine :: StateMachine
  ch_peers :: "address list"
  ch_parent :: "cref option"
  ch_onUpdate :: bool
  ch_updates :: "(State option \<times> State option) list"
  ch_fundings :: updateInterceptors
  ch_withdrawals :: updateInterceptors
  ch_closed :: bool
  ch_onClose :: "ID list"

text \<open>What a handler answers an update request with.\<close>

record UpdateResponder =
  re_channel :: cref
  re_pidx :: Index
  re_req :: ChannelUpdateProposal
  re_called :: bool

text \<open>Requests to the adjudicator.\<close>

record ProgressReq = AdjudicatorReq +
  pr_NewState :: State
  pr_Sig :: sig

datatype ChainCall =
    CallRegister AdjudicatorReq "SignedState list"
  | CallWithdraw AdjudicatorReq "(ID \<times> State) list"
  | CallProgress ProgressReq

text \<open>\<open>ch_updates\<close> are the calls of the \<open>onUpdate\<close> callback, \<open>cl_new\<close> those of the handler for new
  channels and \<open>cl_sent\<close> the published messages.  \<open>cl_values\<close> is the map of the registry;
  \<open>ch_onClose\<close> are the entries that are deleted when the channel is closed.  \<open>cl_fundingW\<close> and
  \<open>cl_settlementW\<close> are the entries of the watchers that match the proposals of virtual channels,
  \<open>cl_usage\<close> counts how often the wallet was told that an account is in use, \<open>cl_chain\<close> are the
  requests to the adjudicator, and \<open>cl_next\<close> is the next unused reference.\<close>

record Client =
  cl_address :: address
  cl_db :: memdb
  cl_heap :: "cref \<Rightarrow> Channel option"
  cl_values :: "(ID \<times> cref) list"
  cl_handler :: bool
  cl_new :: "cref list"
  cl_enabled :: u64
  cl_cache :: "(address \<times> ChannelUpdateProposal) list"
  cl_sent :: "Envelope list"
  cl_usage :: "address \<Rightarrow> int"
  cl_next :: nat
  cl_closed :: bool
  cl_fundingW :: "(nat \<times> virtualChannelFundingProposal) list"
  cl_settlementW :: "(nat \<times> virtualChannelSettlementProposal \<times> UpdateResponder) list"
  cl_chain :: "ChainCall list"

record Net =
  net_Publish :: "Envelope list \<Rightarrow> Envelope \<Rightarrow> unit res"
  net_Incoming :: "Envelope list \<Rightarrow> Envelope list"
  net_Cached :: "cref \<Rightarrow> nat"

definition chan :: "cref \<Rightarrow> (Client, Channel) call" where
  "chan c = getS (\<lambda>cl. deref (cl_heap cl c))"

definition put_chan :: "cref \<Rightarrow> Channel \<Rightarrow> Client \<Rightarrow> Client" where
  "put_chan c ch cl = cl\<lparr>cl_heap := (cl_heap cl)(c := Some ch)\<rparr>"

definition update_chan :: "cref \<Rightarrow> (Channel \<Rightarrow> Channel) \<Rightarrow> (Client, unit) call" where
  "update_chan c f = bindS (chan c) (\<lambda>ch. modifyS (put_chan c (f ch)))"

text \<open>A method of the channel's persisting machine.\<close>

definition on_machine :: "cref \<Rightarrow> (psm \<Rightarrow> psm \<times> 'a res) \<Rightarrow> (Client, 'a) call" where
  "on_machine c f = bindS (chan c) (\<lambda>ch cl.
     case f \<lparr>psm_machine = ch_machine ch, psm_db = cl_db cl\<rparr> of
       (m, r) \<Rightarrow> ((put_chan c (ch\<lparr>ch_machine := psm_machine m\<rparr>) cl)\<lparr>cl_db := psm_db m\<rparr>, r))"

definition ch_State :: "Channel \<Rightarrow> State option" where
  "ch_State ch = tx_State (m_currentTX (ch_machine ch))"

definition ch_Idx :: "Channel \<Rightarrow> Index" where
  "ch_Idx ch = m_idx (ch_machine ch)"

definition ch_ID :: "Channel \<Rightarrow> ID" where
  "ch_ID ch = machine_ID (ch_machine ch)"

section \<open>The registry of channels\<close>

definition registry_Get :: "Client \<Rightarrow> ID \<Rightarrow> cref option" where
  "registry_Get cl i = map_of (cl_values cl) i"

definition registry_Has :: "Client \<Rightarrow> ID \<Rightarrow> bool" where
  "registry_Has cl i \<longleftrightarrow> registry_Get cl i \<noteq> None"

definition registry_Delete :: "ID \<Rightarrow> (Client, bool) call" where
  "registry_Delete i cl =
     (cl\<lparr>cl_values := filter (\<lambda>(j, _). j \<noteq> i) (cl_values cl)\<rparr>, OK (registry_Has cl i))"

definition registry_Put :: "ID \<Rightarrow> cref \<Rightarrow> (Client, bool) call" where
  "registry_Put i c cl =
     (if registry_Has cl i then (cl, OK False)
      else bindS (modifyS (\<lambda>cl. cl\<lparr>cl_values := (i, c) # cl_values cl\<rparr>)) (\<lambda>_.
        bindS (chan c) (\<lambda>ch.
        bindS (if ch_closed ch then bindS (registry_Delete i) (\<lambda>_. returnS ())
               else update_chan c (\<lambda>ch. ch\<lparr>ch_onClose := ch_onClose ch @ [i]\<rparr>)) (\<lambda>_.
        bindS (modifyS (\<lambda>cl'. if cl_handler cl then cl'\<lparr>cl_new := cl_new cl' @ [c]\<rparr> else cl')) (\<lambda>_.
        returnS True)))) cl)"

definition Channel_Close :: "Net \<Rightarrow> cref \<Rightarrow> (Client, unit) call" where
  "Channel_Close N c = bindS (chan c) (\<lambda>ch.
     if ch_closed ch then liftS (Err (ErrNew ''Closer already closed''))
     else bindS (update_chan c (\<lambda>ch. ch\<lparr>ch_closed := True\<rparr>)) (\<lambda>_.
       bindS (forEachS (\<lambda>i. bindS (registry_Delete i) (\<lambda>_. returnS ())) (ch_onClose ch)) (\<lambda>_.
       liftS (err_if (net_Cached N c \<noteq> 0) (ErrNew ''cache was not empty (%d)'')))))"

definition IsAlreadyClosedError :: "goerr \<Rightarrow> bool" where
  "IsAlreadyClosedError e \<longleftrightarrow> Cause e = ErrNew ''Closer already closed''"

text \<open>\<open>CloseAll\<close> closes every channel and reports the first error of another kind than closing twice.\<close>

primrec closeAll :: "Net \<Rightarrow> cref list \<Rightarrow> unit res \<Rightarrow> (Client, unit) call" where
  "closeAll N [] err cl = (cl, err)"
| "closeAll N (c # cs) err cl = (case Channel_Close N c cl of
      (cl', OK _) \<Rightarrow> closeAll N cs err cl'
    | (cl', Err e) \<Rightarrow> closeAll N cs (if err = OK () \<and> \<not> IsAlreadyClosedError e then Err e else err) cl'
    | (cl', Panic s) \<Rightarrow> (cl', Panic s))"

definition registry_CloseAll :: "Net \<Rightarrow> (Client, unit) call" where
  "registry_CloseAll N cl = closeAll N (map snd (cl_values cl)) (OK ()) (cl\<lparr>cl_values := []\<rparr>)"

definition Client_Channel :: "ID \<Rightarrow> (Client, cref) call" where
  "Client_Channel i = getS (\<lambda>cl. case registry_Get cl i of
      Some c \<Rightarrow> OK c
    | None \<Rightarrow> Err (ErrNew ''unknown channel ID''))"

section \<open>Connections\<close>

definition Publish :: "Net \<Rightarrow> Envelope \<Rightarrow> (Client, unit) call" where
  "Publish N e cl = (cl\<lparr>cl_sent := cl_sent cl @ [e]\<rparr>, net_Publish N (cl_sent cl) e)"

definition pubMsg :: "Net \<Rightarrow> Msg \<Rightarrow> address \<Rightarrow> (Client, unit) call" where
  "pubMsg N msg rec cl =
     Publish N \<lparr>env_Sender = cl_address cl, env_Recipient = rec, env_Msg = msg\<rparr> cl"

text \<open>An error group runs every publication and reports the first error.\<close>

primrec publishAll :: "Net \<Rightarrow> Envelope list \<Rightarrow> (Client, unit) call" where
  "publishAll N [] = returnS ()"
| "publishAll N (e # es) = (\<lambda>cl. case Publish N e cl of
      (cl', OK _) \<Rightarrow> publishAll N es cl'
    | (cl', r) \<Rightarrow> (fst (publishAll N es cl'), r))"

definition conn_Send :: "Net \<Rightarrow> cref \<Rightarrow> Msg \<Rightarrow> (Client, unit) call" where
  "conn_Send N c msg = bindS (chan c) (\<lambda>ch.
     let others = filter (\<lambda>(i, _). of_nat i \<noteq> ch_Idx ch) (enumerate 0 (ch_peers ch)) in
     bindS (liftS (mapR (\<lambda>(_, peer). bindR (index_at (ch_peers ch) (unat (ch_Idx ch))) (\<lambda>sender.
       OK \<lparr>env_Sender = sender, env_Recipient = peer, env_Msg = msg\<rparr>)) others)) (\<lambda>es.
     msgS ''publishing message'' (publishAll N es)))"

definition isUpdateRes :: "ID \<Rightarrow> u64 \<Rightarrow> Msg \<Rightarrow> bool" where
  "isUpdateRes i version m = (case m of
      MUpdateAcc a \<Rightarrow> ua_ChannelID a = i \<and> ua_Version a = version
    | MUpdateRej r \<Rightarrow> ur_ChannelID r = i \<and> ur_Version r = version
    | _ \<Rightarrow> False)"

text \<open>\<open>NewUpdateResRecv\<close> fails on a closed connection; \<open>Next\<close> returns the first message that the
  subscriptions let through, with the index of its sender.\<close>

definition NewUpdateResRecv :: "Channel \<Rightarrow> unit res" where
  "NewUpdateResRecv ch = with_msg ''subscribing update response receiver''
     (err_if (ch_closed ch) (ErrNew ''producer closed''))"

definition recv_Next :: "Net \<Rightarrow> cref \<Rightarrow> u64 \<Rightarrow> (Client, (Index \<times> Msg) option) call" where
  "recv_Next N c version = bindS (chan c) (\<lambda>ch. getS (\<lambda>cl.
     case find (\<lambda>e. isUpdateRes (ch_ID ch) version (env_Msg e)) (net_Incoming N (cl_sent cl)) of
       None \<Rightarrow> OK None
     | Some e \<Rightarrow> (let idx = IndexOfAddr (ch_peers ch) (env_Sender e) in
         if idx = -1 then Err (ErrNew ''channel connection received message from unexpected peer %v'')
         else OK (Some (of_int idx, env_Msg e)))))"

section \<open>Channel controllers\<close>

definition on_db :: "(memdb \<Rightarrow> memdb \<times> 'a res) \<Rightarrow> (Client, 'a) call" where
  "on_db f cl = (case f (cl_db cl) of (d, r) \<Rightarrow> (cl\<lparr>cl_db := d\<rparr>, r))"

definition new_ref :: "(Client, nat) call" where
  "new_ref cl = (cl\<lparr>cl_next := Suc (cl_next cl)\<rparr>, OK (cl_next cl))"

text \<open>A new controller is an object of its own; its connection subscribes to the client's relay.\<close>

definition channelFromMachine :: "StateMachine \<Rightarrow> cref option \<Rightarrow> address list \<Rightarrow> (Client, cref) call" where
  "channelFromMachine m parent peers =
     bindS (msgS ''setting up channel connection'' (msgS ''subscribing relay''
       (getS (\<lambda>cl. err_if (cl_closed cl) (ErrNew ''producer closed''))))) (\<lambda>_.
     bindS new_ref (\<lambda>c.
     bindS (modifyS (put_chan c \<lparr>ch_machine = m, ch_peers = peers, ch_parent = parent, ch_onUpdate = False,
       ch_updates = [], ch_fundings = [], ch_withdrawals = [], ch_closed = False, ch_onClose = []\<rparr>)) (\<lambda>_.
     returnS c)))"

definition newChannel ::
    "'b channel_backend_scheme \<Rightarrow> account \<Rightarrow> cref option \<Rightarrow> address list \<Rightarrow> Params \<Rightarrow> (Client, cref) call" where
  "newChannel B acc parent peers params =
     bindS (msgS ''creating state machine'' (liftS (NewStateMachine B acc params))) (\<lambda>machine.
     channelFromMachine machine parent peers)"

text \<open>\<open>unlock\<close> is the wallet's method.\<close>

definition channelFromSource ::
    "'b channel_backend_scheme \<Rightarrow> (address \<Rightarrow> account res) \<Rightarrow> Source \<Rightarrow> cref option \<Rightarrow> address list \<Rightarrow> (Client, cref) call" where
  "channelFromSource B unlock s parent peers =
     bindS (liftS (index_at (p_Parts (src_Params s)) (unat (src_Idx s)))) (\<lambda>part.
     bindS (msgS ''unlocking account for channel'' (liftS (unlock part))) (\<lambda>acc.
     bindS (msgS ''restoring state machine'' (liftS (RestoreStateMachine B acc s))) (\<lambda>machine.
     channelFromMachine machine parent peers)))"

definition hasLockedFunds :: "Channel \<Rightarrow> bool res" where
  "hasLockedFunds ch = bindR (deref (ch_State ch)) (\<lambda>s. OK (length (al_Locked (st_Alloc s)) > 0))"

definition OnUpdate :: "cref \<Rightarrow> (Client, unit) call" where
  "OnUpdate c = update_chan c (\<lambda>ch. ch\<lparr>ch_onUpdate := True\<rparr>)"

definition Channel_init ::
    "'b channel_backend_scheme \<Rightarrow> cref \<Rightarrow> Allocation \<Rightarrow> Data \<Rightarrow> (Client, unit) call" where
  "Channel_init B c initBals initData = on_machine c (\<lambda>m. pm_Init B m initBals initData)"

section \<open>The update protocol\<close>

definition makeChannelUpdate :: "State \<Rightarrow> Index \<Rightarrow> ChannelUpdate" where
  "makeChannelUpdate next actor = \<lparr>cu_State = next, cu_ActorIdx = actor\<rparr>"

text \<open>The actor is the signer, and the locked funds stay as they are.\<close>

definition validTwoPartyUpdate :: "Channel \<Rightarrow> 'u ChannelUpdate_scheme \<Rightarrow> Index \<Rightarrow> unit res" where
  "validTwoPartyUpdate ch up sigIdx =
     bindR (err_if (cu_ActorIdx up \<noteq> sigIdx)
       (ErrNew ''Currently, only update proposals with the proposing peer as actor are allowed.'')) (\<lambda>_.
     bindR (deref (ch_State ch)) (\<lambda>s.
     with_msg ''sub-allocation changed''
       (SubAllocsAssertEqual (al_Locked (st_Alloc s)) (al_Locked (st_Alloc (cu_State up))))))"

definition validTwoPartyUpdateState :: "Channel \<Rightarrow> State \<Rightarrow> unit res" where
  "validTwoPartyUpdateState ch next = validTwoPartyUpdate ch (makeChannelUpdate next (ch_Idx ch)) (ch_Idx ch)"

definition enableNotifyUpdate :: "'b channel_backend_scheme \<Rightarrow> cref \<Rightarrow> (Client, unit) call" where
  "enableNotifyUpdate B c = bindS (chan c) (\<lambda>ch.
     let from = ch_State ch; to = tx_State (m_stagingTX (ch_machine ch)) in
     bindS (liftS (deref to)) (\<lambda>s.
     bindS (msgS ''enabling update''
       (on_machine c (if st_IsFinal s then pm_EnableFinal B else pm_EnableUpdate B))) (\<lambda>_.
     if ch_onUpdate ch then update_chan c (\<lambda>ch. ch\<lparr>ch_updates := ch_updates ch @ [(from, to)]\<rparr>)
     else returnS ())))"

definition handleUpdateError :: "'b channel_backend_scheme \<Rightarrow> cref \<Rightarrow> goerr \<Rightarrow> (Client, goerr) call" where
  "handleUpdateError B c updateErr =
     bindS (ignoreS (on_machine c (pm_DiscardUpdate B))) (\<lambda>_. returnS updateErr)"

text \<open>The proposer's side: stage and sign the state, send it, wait for the answer, add the peer's
  signature and enable the state.  After the state has been staged every error discards it.\<close>

definition awaitUpdateRes :: "'b channel_backend_scheme \<Rightarrow> Net \<Rightarrow> cref \<Rightarrow> u64 \<Rightarrow> (Client, unit) call" where
  "awaitUpdateRes B N c version =
     bindS (msgS ''receiving update response'' (recv_Next N c version)) (\<lambda>res.
     case res of
       None \<Rightarrow> liftS (Err (ErrWithMessage ''context closed'' RequestTimedOutError))
     | Some (pidx, MUpdateRej rej) \<Rightarrow> liftS (Err (PeerRejectedError ''channel update'' (ur_Reason rej)))
     | Some (pidx, MUpdateAcc acc) \<Rightarrow>
         bindS (msgS ''adding peer signature'' (on_machine c (\<lambda>m. pm_AddSig B m pidx (ua_Sig acc)))) (\<lambda>_.
         enableNotifyUpdate B c)
     | Some _ \<Rightarrow> liftS (Panic ''interface conversion''))"

definition updateGeneric ::
    "'b channel_backend_scheme \<Rightarrow> Net \<Rightarrow> cref \<Rightarrow> State \<Rightarrow> (msgChannelUpdate \<Rightarrow> (Client, Msg) call) \<Rightarrow> (Client, unit) call" where
  "updateGeneric B N c next prepareMsg = bindS (chan c) (\<lambda>ch.
     let up = makeChannelUpdate next (ch_Idx ch) in
     bindS (msgS ''updating machine'' (on_machine c (\<lambda>m. pm_Update B m (cu_State up) (cu_ActorIdx up)))) (\<lambda>_.
     deferS
       (bindS (msgS ''signing update'' (on_machine c (pm_Sig B))) (\<lambda>sig.
        bindS (msgS ''creating update response receiver'' (liftS (NewUpdateResRecv ch))) (\<lambda>_.
        bindS (prepareMsg (ChannelUpdate.extend up (msgChannelUpdate.fields sig))) (\<lambda>msg.
        bindS (msgS ''sending update'' (conn_Send N c msg)) (\<lambda>_.
        awaitUpdateRes B N c (st_Version next))))))
       (handleUpdateError B c)))"

definition Channel_update :: "'b channel_backend_scheme \<Rightarrow> Net \<Rightarrow> cref \<Rightarrow> State \<Rightarrow> (Client, unit) call" where
  "Channel_update B N c next = updateGeneric B N c next (\<lambda>mcu. returnS (MUpdate mcu))"

definition Channel_Update :: "'b channel_backend_scheme \<Rightarrow> Net \<Rightarrow> cref \<Rightarrow> State \<Rightarrow> (Client, unit) call" where
  "Channel_Update B N c next = bindS (chan c) (\<lambda>ch.
     bindS (liftS (validTwoPartyUpdateState ch next)) (\<lambda>_. Channel_update B N c next))"

text \<open>\<open>updateBy\<close> applies a function to a copy of the current state and counts the version up.\<close>

definition Channel_updateBy ::
    "'b channel_backend_scheme \<Rightarrow> Net \<Rightarrow> cref \<Rightarrow> (State \<Rightarrow> State res) \<Rightarrow> (Client, unit) call" where
  "Channel_updateBy B N c update = bindS (chan c) (\<lambda>ch.
     bindS (liftS (bindR (State_Clone (ch_State ch)) deref)) (\<lambda>clone.
     bindS (liftS (update clone)) (\<lambda>state.
     Channel_update B N c (state\<lparr>st_Version := st_Version state + 1\<rparr>))))"

definition Channel_UpdateBy ::
    "'b channel_backend_scheme \<Rightarrow> Net \<Rightarrow> cref \<Rightarrow> (State \<Rightarrow> State res) \<Rightarrow> (Client, unit) call" where
  "Channel_UpdateBy B N c update = bindS (chan c) (\<lambda>ch.
     Channel_updateBy B N c (\<lambda>s. bindR (update s) (\<lambda>state.
       bindR (validTwoPartyUpdateState ch state) (\<lambda>_. OK state))))"

subsection \<open>The responder's side\<close>

definition equalParticipants :: "Channel \<Rightarrow> Channel \<Rightarrow> bool" where
  "equalParticipants c p = (if length (ch_peers c) \<noteq> length (ch_peers p) then False
     else list_all2 (=) (ch_peers c) (ch_peers p))"

text \<open>The parent of a channel, through its pointer.\<close>

definition chan_parent :: "Channel \<Rightarrow> (Client, Channel option) call" where
  "chan_parent ch = (case ch_parent ch of
      None \<Rightarrow> returnS None
    | Some p \<Rightarrow> bindS (chan p) (\<lambda>parent. returnS (Some parent)))"

definition IsLedgerChannel :: "Channel \<Rightarrow> bool" where
  "IsLedgerChannel ch \<longleftrightarrow> ch_parent ch = None"

definition IsSubChannel :: "Channel \<Rightarrow> (Client, bool) call" where
  "IsSubChannel ch = bindS (chan_parent ch) (\<lambda>p. returnS (case p of
      None \<Rightarrow> False
    | Some parent \<Rightarrow> equalParticipants ch parent))"

definition IsVirtualChannel :: "Channel \<Rightarrow> (Client, bool) call" where
  "IsVirtualChannel ch = bindS (chan_parent ch) (\<lambda>p. returnS (case p of
      None \<Rightarrow> False
    | Some parent \<Rightarrow> \<not> equalParticipants ch parent))"

definition interceptors_Register :: "ID \<Rightarrow> updateFilter \<Rightarrow> updateInterceptors \<Rightarrow> updateInterceptors" where
  "interceptors_Register i ui entries = (i, ui) # filter (\<lambda>(j, _). j \<noteq> i) entries"

definition interceptors_Get :: "updateInterceptors \<Rightarrow> ID \<Rightarrow> updateFilter option" where
  "interceptors_Get entries i = map_of entries i"

definition interceptors_Release :: "ID \<Rightarrow> updateInterceptors \<Rightarrow> updateInterceptors" where
  "interceptors_Release i entries = filter (\<lambda>(j, _). j \<noteq> i) entries"

definition registerSubChannelFunding :: "cref \<Rightarrow> ID \<Rightarrow> Bal list \<Rightarrow> (Client, unit) call" where
  "registerSubChannelFunding c i alloc =
     update_chan c (\<lambda>ch. ch\<lparr>ch_fundings := interceptors_Register i (FundingFilter i alloc) (ch_fundings ch)\<rparr>)"

definition registerSubChannelSettlement :: "cref \<Rightarrow> ID \<Rightarrow> Bal list list \<Rightarrow> (Client, unit) call" where
  "registerSubChannelSettlement c i bals =
     update_chan c (\<lambda>ch. ch\<lparr>ch_withdrawals := interceptors_Register i (SettlementFilter i bals) (ch_withdrawals ch)\<rparr>)"

text \<open>Accepting: stage the state, add the proposer's signature and the own one, send it and enable the
  state.  The settlement of a final sub-channel is announced to the parent channel.\<close>

definition acceptUpdate ::
    "'b channel_backend_scheme \<Rightarrow> Net \<Rightarrow> cref \<Rightarrow> Index \<Rightarrow> msgChannelUpdate \<Rightarrow> (Client, unit) call" where
  "acceptUpdate B N c pidx req =
     bindS (msgS ''adding peer signature'' (on_machine c (\<lambda>m. pm_AddSig B m pidx (mu_Sig req)))) (\<lambda>_.
     bindS (msgS ''signing updated state'' (on_machine c (pm_Sig B))) (\<lambda>sig.
     bindS (chan c) (\<lambda>ch.
     bindS (IsSubChannel ch) (\<lambda>sub.
     bindS (case ch_parent ch of
         Some p \<Rightarrow> if sub \<and> st_IsFinal (cu_State req)
           then registerSubChannelSettlement p (ch_ID ch) (al_Balances (st_Alloc (cu_State req)))
           else returnS ()
       | None \<Rightarrow> returnS ()) (\<lambda>_.
     bindS (msgS ''sending accept message'' (conn_Send N c (MUpdateAcc
       \<lparr>ua_ChannelID = ch_ID ch, ua_Version = st_Version (cu_State req), ua_Sig = sig\<rparr>))) (\<lambda>_.
     enableNotifyUpdate B c))))))"

text \<open>When discarding fails, that is the error that is returned.\<close>

definition discardAccepted :: "'b channel_backend_scheme \<Rightarrow> cref \<Rightarrow> goerr \<Rightarrow> (Client, goerr) call" where
  "discardAccepted B c err cl = (case on_machine c (pm_DiscardUpdate B) cl of
      (cl', OK _) \<Rightarrow> (cl', OK err)
    | (cl', Err derr) \<Rightarrow> (cl', OK (ErrWithMessage ''sending accept message failed: %v, then discarding update failed'' derr))
    | (cl', Panic s) \<Rightarrow> (cl', Panic s))"

definition handleUpdateAcc ::
    "'b channel_backend_scheme \<Rightarrow> Net \<Rightarrow> cref \<Rightarrow> Index \<Rightarrow> ChannelUpdateProposal \<Rightarrow> (Client, unit) call" where
  "handleUpdateAcc B N c pidx req =
     bindS (msgS ''updating machine''
       (on_machine c (\<lambda>m. pm_Update B m (cu_State (prop_Base req)) (cu_ActorIdx (prop_Base req))))) (\<lambda>_.
     deferS (acceptUpdate B N c pidx (prop_Base req)) (discardAccepted B c))"

definition handleUpdateRej ::
    "Net \<Rightarrow> cref \<Rightarrow> Index \<Rightarrow> ChannelUpdateProposal \<Rightarrow> bytes \<Rightarrow> (Client, unit) call" where
  "handleUpdateRej N c pidx req reason = bindS (chan c) (\<lambda>ch.
     msgS ''sending reject message'' (conn_Send N c (MUpdateRej
       \<lparr>ur_ChannelID = ch_ID ch, ur_Version = st_Version (cu_State (prop_Base req)), ur_Reason = reason\<rparr>)))"

text \<open>A responder answers once; a second answer panics.\<close>

definition responder_Accept :: "'b channel_backend_scheme \<Rightarrow> Net \<Rightarrow> UpdateResponder \<Rightarrow> (Client, unit) call" where
  "responder_Accept B N r =
     (if re_called r then liftS (Panic ''multiple calls on channel update responder'')
      else handleUpdateAcc B N (re_channel r) (re_pidx r) (re_req r))"

definition responder_Reject :: "Net \<Rightarrow> UpdateResponder \<Rightarrow> bytes \<Rightarrow> (Client, unit) call" where
  "responder_Reject N r reason =
     (if re_called r then liftS (Panic ''multiple calls on channel update responder'')
      else handleUpdateRej N (re_channel r) (re_pidx r) (re_req r) reason)"

end
