(* ===== verification/Perun_Virtual.thy ===== *)
theory Perun_Virtual
  imports Perun_Client
begin

text \<open>
  Channels that are funded by other channels: sub-channels (\<open>client/subchannel.go\<close>,
  \<open>client/updateinterception.go\<close>) and virtual channels (\<open>client/virtual_channel.go\<close>,
  \<open>client/virtual_channel_settlement.go\<close>, \<open>client/virtual_channel_util.go\<close>), and the dispatch of
  incoming update requests (\<open>client/update.go\<close>).

  Where a handler waits for another goroutine, what that one does is an argument: whether somebody
  awaits an intercepted update, and the call \<open>wait\<close> that stands for the time in which a watcher waits
  for a matching proposal.
\<close>

unbundle bit_operations_syntax

section \<open>Sub-channels\<close>

text \<open>Moves the initial balances of a sub-channel into a new locked allocation.\<close>

definition fundUpdate :: "ID \<Rightarrow> Allocation \<Rightarrow> State \<Rightarrow> State res" where
  "fundUpdate i alloc state =
     bindR (Balances_Sub (al_Balances (st_Alloc state)) (al_Balances alloc)) (\<lambda>bals.
     OK (state\<lparr>st_Alloc := AddSubAlloc ((st_Alloc state)\<lparr>al_Balances := bals\<rparr>)
           (NewSubAlloc i (Balances_Sum (al_Balances alloc)) [])\<rparr>))"

definition fundSubChannel ::
    "'b channel_backend_scheme \<Rightarrow> Net \<Rightarrow> cref \<Rightarrow> ID \<Rightarrow> Allocation \<Rightarrow> (Client, unit) call" where
  "fundSubChannel B N c i alloc = Channel_updateBy B N c (fundUpdate i alloc)"

text \<open>Adds the balances of the sub-channel to the parent's, cell by cell.\<close>

definition addCell :: "nat \<times> nat \<times> Bal \<Rightarrow> Balances \<Rightarrow> Balances res" where
  "addCell = (\<lambda>(a, u, x) bals.
     bindR (index_at bals a) (\<lambda>row. bindR (index_at row u) (\<lambda>y. OK (bals[a := row[u := y + x]]))))"

definition cells :: "Balances \<Rightarrow> (nat \<times> nat \<times> Bal) list" where
  "cells b = concat (map (\<lambda>(a, row). map (\<lambda>(u, x). (a, u, x)) (enumerate 0 row)) (enumerate 0 b))"

definition withdrawUpdate :: "ID \<Rightarrow> State option \<Rightarrow> State \<Rightarrow> State res" where
  "withdrawUpdate i subState parentState =
     (case Allocation_SubAlloc (st_Alloc parentState) i of (subAlloc, ok) \<Rightarrow>
      if \<not> ok then Panic ''sub-allocation %x not found''
      else bindR (deref subState) (\<lambda>sub.
        bindR (Allocation_Sum (st_Alloc sub)) (\<lambda>sums.
        if \<not> BalancesEqual subAlloc sums then Panic ''sub-allocation does not equal accumulated sub-channel outcome''
        else bindR (foldR addCell (cells (al_Balances (st_Alloc sub))) (al_Balances (st_Alloc parentState))) (\<lambda>bals.
          case RemoveSubAlloc ((st_Alloc parentState)\<lparr>al_Balances := bals\<rparr>) subAlloc of
            OK alloc \<Rightarrow> OK (parentState\<lparr>st_Alloc := alloc\<rparr>)
          | _ \<Rightarrow> Panic ''removing sub-allocation with id %x''))))"

definition withdrawSubChannel ::
    "'b channel_backend_scheme \<Rightarrow> Net \<Rightarrow> cref \<Rightarrow> Channel \<Rightarrow> (Client, unit) call" where
  "withdrawSubChannel B N c sub =
     msgS ''update parent channel'' (Channel_updateBy B N c (withdrawUpdate (ch_ID sub) (ch_State sub)))"

subsection \<open>Intercepted updates\<close>

definition runFilter :: "updateFilter \<Rightarrow> State option \<Rightarrow> 'u ChannelUpdate_scheme \<Rightarrow> bool res" where
  "runFilter f state cu = (case f of
      FundingFilter i alloc \<Rightarrow>
        bindR (deref state) (\<lambda>s.
        let expected = NewSubAlloc i alloc [];
            containedBefore = snd (Allocation_SubAlloc (st_Alloc s) i);
            (subAlloc, containedAfter) = Allocation_SubAlloc (st_Alloc (cu_State cu)) i
        in OK (\<not> containedBefore \<and> containedAfter \<and> SubAlloc_Equal expected subAlloc = OK ()))
    | SettlementFilter i bals \<Rightarrow>
        bindR (deref state) (\<lambda>s.
        let containedBefore = snd (Allocation_SubAlloc (st_Alloc s) i);
            containedAfter = snd (Allocation_SubAlloc (st_Alloc (cu_State cu)) i)
        in bindR (Balances_Add (al_Balances (st_Alloc s)) bals) (\<lambda>sum.
           OK (containedBefore \<and> \<not> containedAfter \<and> Balances_Equal sum (al_Balances (st_Alloc (cu_State cu)))))))"

text \<open>The first interceptor whose filter matches, in the order of the map's iteration.\<close>

primrec interceptors_Filter :: "updateInterceptors \<Rightarrow> State option \<Rightarrow> 'u ChannelUpdate_scheme \<Rightarrow> ID option res" where
  "interceptors_Filter [] state cu = OK None"
| "interceptors_Filter (e # es) state cu =
     bindR (runFilter (snd e) state cu) (\<lambda>match.
     if match then OK (Some (fst e)) else interceptors_Filter es state cu)"

datatype InterceptorKind = Fundings | Withdrawals

definition release :: "InterceptorKind \<Rightarrow> ID \<Rightarrow> Channel \<Rightarrow> Channel" where
  "release k i ch = (case k of
      Fundings \<Rightarrow> ch\<lparr>ch_fundings := interceptors_Release i (ch_fundings ch)\<rparr>
    | Withdrawals \<Rightarrow> ch\<lparr>ch_withdrawals := interceptors_Release i (ch_withdrawals ch)\<rparr>)"

text \<open>\<open>awaitSubChannelUpdate\<close>: \<open>u\<close> is the update that is intercepted before the context ends.  The
  interceptor is released in any case.\<close>

definition awaitSubChannelUpdate ::
    "'b channel_backend_scheme \<Rightarrow> Net \<Rightarrow> cref \<Rightarrow> InterceptorKind \<Rightarrow> ID \<Rightarrow> UpdateResponder option \<Rightarrow> (Client, unit) call" where
  "awaitSubChannelUpdate B N c k i u = bindS (chan c) (\<lambda>ch.
     case interceptors_Get (case k of Fundings \<Rightarrow> ch_fundings ch | Withdrawals \<Rightarrow> ch_withdrawals ch) i of
       None \<Rightarrow> liftS (Err (ErrNew ''not registered''))
     | Some _ \<Rightarrow> (\<lambda>cl.
         case (case u of Some r \<Rightarrow> responder_Accept B N r cl | None \<Rightarrow> (cl, Err (ErrNew ''context''))) of
           (cl', x) \<Rightarrow> (fst (update_chan c (release k i) cl'), with_msg ''accepting update'' x)))"

definition awaitSubChannelFunding ::
    "'b channel_backend_scheme \<Rightarrow> Net \<Rightarrow> cref \<Rightarrow> ID \<Rightarrow> UpdateResponder option \<Rightarrow> (Client, unit) call" where
  "awaitSubChannelFunding B N c i u = awaitSubChannelUpdate B N c Fundings i u"

definition awaitSubChannelWithdrawal ::
    "'b channel_backend_scheme \<Rightarrow> Net \<Rightarrow> cref \<Rightarrow> ID \<Rightarrow> UpdateResponder option \<Rightarrow> (Client, unit) call" where
  "awaitSubChannelWithdrawal B N c i u = awaitSubChannelUpdate B N c Withdrawals i u"

definition withdrawSubChannelIntoParent ::
    "'b channel_backend_scheme \<Rightarrow> Net \<Rightarrow> cref \<Rightarrow> UpdateResponder option \<Rightarrow> (Client, unit) call" where
  "withdrawSubChannelIntoParent B N c u = bindS (chan c) (\<lambda>ch.
     bindS (IsSubChannel ch) (\<lambda>sub.
     case ch_parent ch of
       None \<Rightarrow> liftS (Panic ''not a sub-channel'')
     | Some p \<Rightarrow>
         if \<not> sub then liftS (Panic ''not a sub-channel'')
         else bindS (liftS (deref (ch_State ch))) (\<lambda>s.
           if \<not> st_IsFinal s then liftS (Err (ErrNew ''not final''))
           else if ch_Idx ch = 0 then msgS ''updating parent channel'' (withdrawSubChannel B N p ch)
           else if ch_Idx ch = 1 then
             msgS ''awaiting parent channel update'' (awaitSubChannelWithdrawal B N p (ch_ID ch) u)
           else liftS (Panic ''invalid participant index''))))"

section \<open>Virtual channels\<close>

text \<open>The balances of a virtual channel in the columns of its parent.\<close>

definition transformRow :: "Bal list \<Rightarrow> nat \<Rightarrow> Index list \<Rightarrow> Bal list res" where
  "transformRow row n indexMap = foldR (\<lambda>(p, q) acc.
     bindR (index_at row p) (\<lambda>x. bindR (index_at acc (unat q)) (\<lambda>_. OK (acc[unat q := x]))))
     (enumerate 0 indexMap) (replicate n 0)"

definition transformBalances :: "Balances \<Rightarrow> int \<Rightarrow> Index list \<Rightarrow> Balances res" where
  "transformBalances b numParts indexMap = mapR (\<lambda>row.
     bindR (panic_if (numParts < 0) ''makeslice: len out of range'') (\<lambda>_.
     transformRow row (nat numParts) indexMap)) b"

definition translateBalances :: "Channel \<Rightarrow> Index list \<Rightarrow> Balances res" where
  "translateBalances ch indexMap = bindR (deref (ch_State ch)) (\<lambda>s.
     transformBalances (al_Balances (st_Alloc s)) (NumParts (st_Alloc s)) indexMap)"

definition proposeVirtualChannelFunding ::
    "'b channel_backend_scheme \<Rightarrow> Net \<Rightarrow> cref \<Rightarrow> Channel \<Rightarrow> Index list \<Rightarrow> (Client, unit) call" where
  "proposeVirtualChannelFunding B N c virtual indexMap = bindS (chan c) (\<lambda>ch.
     bindS (liftS (bindR (State_Clone (ch_State ch)) deref)) (\<lambda>clone.
     let state = clone\<lparr>st_Version := st_Version clone + 1\<rparr> in
     bindS (liftS (translateBalances virtual indexMap)) (\<lambda>balances.
     bindS (liftS (Balances_Sub (al_Balances (st_Alloc state)) balances)) (\<lambda>bals.
     let state' = state\<lparr>st_Alloc := AddSubAlloc ((st_Alloc state)\<lparr>al_Balances := bals\<rparr>)
           (NewSubAlloc (ch_ID virtual) (Balances_Sum balances) indexMap)\<rparr> in
     updateGeneric B N c state' (\<lambda>mcu.
       bindS (liftS (deref (ch_State virtual))) (\<lambda>s.
       returnS (MVirtualFunding (msgChannelUpdate.extend mcu (virtualChannelFundingProposal.fields
         \<lparr>ss_Params = m_params (ch_machine virtual), ss_State = s,
          ss_Sigs = tx_Sigs (m_currentTX (ch_machine virtual))\<rparr> indexMap)))))))))"

text \<open>Errors as the text that a rejection carries.\<close>

primrec goerr_Error :: "goerr \<Rightarrow> string" where
  "goerr_Error (ErrNew s) = s"
| "goerr_Error (ErrWithMessage s e) = s @ '': '' @ goerr_Error e"
| "goerr_Error ErrEOF = ''EOF''"
| "goerr_Error ErrUnexpectedEOF = ''unexpected EOF''"
| "goerr_Error (StateTransitionError i) = ''invalid state transition (ID: %x)''"
| "goerr_Error (ActionError i) = ''invalid action in channel (ID: %x)''"
| "goerr_Error (PhaseTransitionError i c f t) = ''current phase: %v, expected %v-%v transition (ID: %x)''"
| "goerr_Error (ErrNotFound k) = ''key not found''"
| "goerr_Error RequestTimedOutError = ''peer did not respond''"
| "goerr_Error (PeerRejectedError s r) = s @ '' rejected by peer''"
| "goerr_Error (FundingTimeoutError es) = ''did not fund channel in time''"
| "goerr_Error (AuthenticationError s r own) = ''failed authentication (Sender: %v, Receiver: %v, Own: %v)''"
| "goerr_Error (AssetFundingError a ps) = ''Funding Error on asset [%d] peers: did not fund channel in time''"
| "goerr_Error (TxTimedoutError t i) = ''timed out waiting for tx to be mined. txID: %s, TxType: %s''"
| "goerr_Error ChainNotReachableError = ''blockchain network not reachable''"
| "goerr_Error ContextCanceled = ''context canceled''"
| "goerr_Error DeadlineExceeded = ''context deadline exceeded''"
| "goerr_Error (AccumulatedError es) = concat (map goerr_Error es)"

definition rejectProposal :: "Net \<Rightarrow> UpdateResponder \<Rightarrow> goerr \<Rightarrow> (Client, unit) call" where
  "rejectProposal N r reason = ignoreS (responder_Reject N r (str (goerr_Error reason)))"

definition acceptProposal :: "'b channel_backend_scheme \<Rightarrow> Net \<Rightarrow> UpdateResponder \<Rightarrow> (Client, unit) call" where
  "acceptProposal B N r = ignoreS (responder_Accept B N r)"

text \<open>Every signature of a signed state verifies.\<close>

definition verifySigs :: "'b channel_backend_scheme \<Rightarrow> SignedState \<Rightarrow> unit res" where
  "verifySigs B s = forEach (\<lambda>(i, sig).
     bindR (index_at (p_Parts (ss_Params s)) i) (\<lambda>part.
     bindR (cb_Verify B part (ss_Params s) (ss_State s) sig) (\<lambda>ok.
     err_if (\<not> ok) (ErrNew ''invalid signature'')))) (enumerate 0 (ss_Sigs s))"

definition validateVirtualChannelFundingProposal ::
    "'b channel_backend_scheme \<Rightarrow> Channel \<Rightarrow> virtualChannelFundingProposal \<Rightarrow> unit res" where
  "validateVirtualChannelFundingProposal B ch prop =
     (let params = ss_Params (vf_Initial prop); state = ss_State (vf_Initial prop) in
      bindR (err_if (p_id params \<noteq> st_ID state) (ErrNew ''state does not match parameters'')) (\<lambda>_.
      bindR (err_if (\<not> p_VirtualChannel params) (ErrNew ''virtual channel flag not set'')) (\<lambda>_.
      bindR (err_if (length (al_Locked (st_Alloc state)) > 0) (ErrNew ''cannot have locked funds'')) (\<lambda>_.
      bindR (verifySigs B (vf_Initial prop)) (\<lambda>_.
      bindR (err_if (length (p_Parts params) \<noteq> length (vf_IndexMap prop)) (ErrNew ''index map: invalid length'')) (\<lambda>_.
      bindR (deref (ch_State ch)) (\<lambda>cur.
      bindR (err_if (snd (Allocation_SubAlloc (st_Alloc cur) (p_id params)))
        (ErrNew ''virtual channel already allocated'')) (\<lambda>_.
      bindR (Allocation_Sum (st_Alloc state)) (\<lambda>sums.
      let expected = NewSubAlloc (p_id params) sums (vf_IndexMap prop);
          (subAlloc, containedAfter) = Allocation_SubAlloc (st_Alloc (cu_State prop)) (sa_ID expected) in
      bindR (err_if (\<not> containedAfter \<or> \<not> is_OK (SubAlloc_Equal subAlloc expected))
        (ErrNew ''invalid allocation'')) (\<lambda>_.
      bindR (with_msg ''assets do not match''
        (AssetsAssertEqual (al_Assets (st_Alloc cur)) (al_Assets (st_Alloc state)))) (\<lambda>_.
      bindR (transformBalances (al_Balances (st_Alloc state)) (NumParts (st_Alloc cur)) (sa_IndexMap subAlloc)) (\<lambda>virtual.
      with_msg ''insufficient funds'' (AssertGreaterOrEqual (al_Balances (st_Alloc cur)) virtual)))))))))))))"

definition validateVirtualChannelSettlementProposal ::
    "'b channel_backend_scheme \<Rightarrow> Channel \<Rightarrow> virtualChannelSettlementProposal \<Rightarrow> unit res" where
  "validateVirtualChannelSettlementProposal B parent prop =
     (let params = ss_Params (vs_Final prop); state = ss_State (vs_Final prop) in
      bindR (err_if (p_id params \<noteq> st_ID state) (ErrNew ''invalid parameters'')) (\<lambda>_.
      bindR (verifySigs B (vs_Final prop)) (\<lambda>_.
      bindR (deref (ch_State parent)) (\<lambda>cur.
      bindR (with_msg ''assets do not match''
        (AssetsAssertEqual (al_Assets (st_Alloc cur)) (al_Assets (st_Alloc state)))) (\<lambda>_.
      let (subAlloc, containedBefore) = Allocation_SubAlloc (st_Alloc cur) (p_id params) in
      bindR (if \<not> containedBefore then OK False
             else bindR (Allocation_Sum (st_Alloc state)) (\<lambda>sums. OK (BalancesEqual subAlloc sums))) (\<lambda>ok.
      bindR (err_if (\<not> ok) (ErrNew ''virtual channel not allocated'')) (\<lambda>_.
      bindR (err_if (snd (Allocation_SubAlloc (st_Alloc (cu_State prop)) (p_id params)))
        (ErrNew ''virtual channel must not be de-allocated after update'')) (\<lambda>_.
      bindR (transformBalances (al_Balances (st_Alloc state)) (NumParts (st_Alloc cur)) (sa_IndexMap subAlloc)) (\<lambda>virtual.
      bindR (Balances_Add (al_Balances (st_Alloc cur)) virtual) (\<lambda>sum.
      err_if (\<not> Balances_Equal sum (al_Balances (st_Alloc (cu_State prop)))) (ErrNew ''invalid balances'')))))))))))"

text \<open>A channel whose signatures come from outside: by the hub of a virtual channel.\<close>

definition addSigs :: "'b channel_backend_scheme \<Rightarrow> cref \<Rightarrow> sig list \<Rightarrow> (Client, unit) call" where
  "addSigs B c sigs = forEachS (\<lambda>(i, sig). on_machine c (\<lambda>m. pm_AddSig B m (of_nat i) sig)) (enumerate 0 sigs)"

definition hubIndex :: Index where "hubIndex = 0"

definition persistVirtualChannel ::
    "'b channel_backend_scheme \<Rightarrow> cref \<Rightarrow> address list \<Rightarrow> Params \<Rightarrow> State \<Rightarrow> sig list \<Rightarrow> (Client, cref) call" where
  "persistVirtualChannel B parent peers params state sigs =
     bindS (getS (\<lambda>cl. err_if (registry_Has cl (p_id params)) (ErrNew ''channel already exists''))) (\<lambda>_.
     bindS (liftS (index_at (p_Parts params) (unat hubIndex))) (\<lambda>dummy.
     bindS (newChannel B dummy (Some parent) peers params) (\<lambda>c.
     bindS (Channel_init B c (st_Alloc state) (st_Data state)) (\<lambda>_.
     bindS (addSigs B c sigs) (\<lambda>_.
     bindS (on_machine c (pm_EnableInit B)) (\<lambda>_.
     bindS (on_machine c pm_SetFunded) (\<lambda>_.
     bindS (chan c) (\<lambda>ch.
     bindS (msgS ''persisting new channel''
       (on_db (\<lambda>d. ChannelCreated B d (source_of (ch_machine ch)) peers None))) (\<lambda>_.
     bindS (registry_Put (p_id params) c) (\<lambda>ok.
     if \<not> ok then liftS (Err (ErrNew ''failed to put channel into registry: %v'')) else returnS c))))))))))"

definition pushVirtualUpdate ::
    "'b channel_backend_scheme \<Rightarrow> cref \<Rightarrow> State \<Rightarrow> sig list \<Rightarrow> (Client, unit) call" where
  "pushVirtualUpdate B c state sigs =
     bindS (on_machine c (\<lambda>m. pm_ForceUpdate B m (Some state) hubIndex)) (\<lambda>_.
     bindS (addSigs B c sigs) (\<lambda>_.
     on_machine c (if st_IsFinal state then pm_EnableFinal B else pm_EnableUpdate B)))"

definition forceFinalState :: "'b channel_backend_scheme \<Rightarrow> cref \<Rightarrow> SignedState \<Rightarrow> (Client, unit) call" where
  "forceFinalState B c final =
     bindS (on_machine c (\<lambda>m. pm_ForceUpdate B m (Some (ss_State final)) hubIndex)) (\<lambda>_.
     bindS (addSigs B c (ss_Sigs final)) (\<lambda>_.
     on_machine c (pm_EnableFinal B)))"

definition gatherPeers :: "Channel list \<Rightarrow> address list res" where
  "gatherPeers = mapR (\<lambda>ch.
     bindR (panic_if (length (ch_peers ch) \<noteq> 2) ''unsupported number of participants'') (\<lambda>_.
     index_at (ch_peers ch) (unat (1 - ch_Idx ch))))"

text \<open>The positions of the index map that belong to the hub.\<close>

definition markIndices :: "Index \<Rightarrow> Index list \<Rightarrow> bool list \<Rightarrow> bool list res" where
  "markIndices idx indexMap indices = foldR (\<lambda>(j, q) acc.
     if q = idx then bindR (index_at acc j) (\<lambda>_. OK (acc[j := True])) else OK acc) (enumerate 0 indexMap) indices"

text \<open>A condition of a watcher: every error means that the proposals do not match.\<close>

definition conditionS :: "('s, 'a) call \<Rightarrow> ('s, bool) call" where
  "conditionS c s = (case c s of
      (s', OK _) \<Rightarrow> (s', OK True)
    | (s', Err _) \<Rightarrow> (s', OK False)
    | (s', Panic p) \<Rightarrow> (s', Panic p))"

definition matchFundingProposal ::
    "'b channel_backend_scheme \<Rightarrow> virtualChannelFundingProposal \<Rightarrow> virtualChannelFundingProposal \<Rightarrow> (Client, bool) call" where
  "matchFundingProposal B a b = conditionS (
     bindS (liftS (forEach (\<lambda>prop. State_Equal (ss_State (vf_Initial prop)) (ss_State (vf_Initial a))) [a, b])) (\<lambda>_.
     bindS (Client_Channel (st_ID (cu_State a))) (\<lambda>c0.
     bindS (Client_Channel (st_ID (cu_State b))) (\<lambda>c1.
     bindS (chan c0) (\<lambda>ch0.
     bindS (chan c1) (\<lambda>ch1.
     bindS (liftS (bindR (markIndices (ch_Idx ch0) (vf_IndexMap a) (replicate (length (vf_IndexMap a)) False))
       (markIndices (ch_Idx ch1) (vf_IndexMap b)))) (\<lambda>indices.
     bindS (liftS (forEach (\<lambda>ok. err_if (\<not> ok) (ErrNew ''checking index map %d'')) indices)) (\<lambda>_.
     bindS (liftS (gatherPeers [ch0, ch1])) (\<lambda>peers.
     persistVirtualChannel B c0 peers (ss_Params (vf_Initial a)) (ss_State (vf_Initial a)) (ss_Sigs (vf_Initial a))))))))))) "

definition matchSettlementProposal ::
    "'b channel_backend_scheme \<Rightarrow> Net \<Rightarrow> virtualChannelSettlementProposal \<times> UpdateResponder \<Rightarrow>
     virtualChannelSettlementProposal \<times> UpdateResponder \<Rightarrow> (Client, bool) call" where
  "matchSettlementProposal B N a b = conditionS (
     bindS (liftS (forEach (\<lambda>prop. State_Equal (ss_State (vs_Final prop)) (ss_State (vs_Final (fst a)))) [fst a, fst b])) (\<lambda>_.
     bindS (Client_Channel (st_ID (ss_State (vs_Final (fst a))))) (\<lambda>virtual.
     bindS (forceFinalState B virtual (vs_Final (fst a))) (\<lambda>_.
     bindS (forEachS (responder_Accept B N) [snd a, snd b]) (\<lambda>_.
     bindS (Channel_Close N virtual) (\<lambda>_.
     bindS (chan virtual) (\<lambda>ch.
     bindS (registry_Delete (ch_ID ch)) (\<lambda>_.
     ignoreS (on_machine virtual (pm_SetWithdrawn B))))))))))"

subsection \<open>Watchers\<close>

text \<open>Registration tries the conditions of the waiting entries in turn.\<close>

primrec tryMatch :: "('e \<Rightarrow> (Client, bool) call) \<Rightarrow> (nat \<times> 'e) list \<Rightarrow> (Client, nat option) call" where
  "tryMatch condition [] = returnS None"
| "tryMatch condition (e # es) = bindS (condition (snd e)) (\<lambda>match.
     if match then returnS (Some (fst e)) else tryMatch condition es)"

text \<open>\<open>wait\<close> is what happens until this entry is matched or the context ends.\<close>

definition Await ::
    "(Client \<Rightarrow> (nat \<times> 'e) list) \<Rightarrow> (((nat \<times> 'e) list \<Rightarrow> (nat \<times> 'e) list) \<Rightarrow> Client \<Rightarrow> Client) \<Rightarrow>
     ('e \<Rightarrow> 'e \<Rightarrow> (Client, bool) call) \<Rightarrow> (Client, unit) call \<Rightarrow> 'e \<Rightarrow> (Client, unit) call" where
  "Await entries change condition wait state =
     bindS (getS (\<lambda>cl. OK (entries cl))) (\<lambda>es.
     bindS (tryMatch (condition state) es) (\<lambda>match. case match of
       Some k \<Rightarrow> modifyS (change (filter (\<lambda>(j, _). j \<noteq> k)))
     | None \<Rightarrow>
         bindS new_ref (\<lambda>k.
         bindS (modifyS (change (\<lambda>es. (k, state) # es))) (\<lambda>_ cl.
         case wait cl of (cl', r) \<Rightarrow> (change (filter (\<lambda>(j, _). j \<noteq> k)) cl', r)))))"

definition fundingWatcher_Await ::
    "'b channel_backend_scheme \<Rightarrow> (Client, unit) call \<Rightarrow> virtualChannelFundingProposal \<Rightarrow> (Client, unit) call" where
  "fundingWatcher_Await B wait prop =
     Await cl_fundingW (\<lambda>f cl. cl\<lparr>cl_fundingW := f (cl_fundingW cl)\<rparr>) (matchFundingProposal B) wait prop"

definition settlementWatcher_Await ::
    "'b channel_backend_scheme \<Rightarrow> Net \<Rightarrow> (Client, unit) call \<Rightarrow> virtualChannelSettlementProposal \<times> UpdateResponder \<Rightarrow> (Client, unit) call" where
  "settlementWatcher_Await B N wait pr =
     Await cl_settlementW (\<lambda>f cl. cl\<lparr>cl_settlementW := f (cl_settlementW cl)\<rparr>) (matchSettlementProposal B N) wait pr"

text \<open>The handlers do not return after a rejection.\<close>

definition awaitAndAccept ::
    "'b channel_backend_scheme \<Rightarrow> Net \<Rightarrow> (Client, unit) call \<Rightarrow> virtualChannelFundingProposal \<Rightarrow> UpdateResponder \<Rightarrow> (Client, unit) call" where
  "awaitAndAccept B N wait prop responder cl = (case fundingWatcher_Await B wait prop cl of
      (cl', OK _) \<Rightarrow> acceptProposal B N responder cl'
    | (cl', Err err) \<Rightarrow> bindS (rejectProposal N responder err) (\<lambda>_.
        acceptProposal B N (responder\<lparr>re_called := True\<rparr>)) cl'
    | (cl', Panic s) \<Rightarrow> (cl', Panic s))"

definition handleVirtualChannelFundingProposal ::
    "'b channel_backend_scheme \<Rightarrow> Net \<Rightarrow> (Client, unit) call \<Rightarrow> Channel \<Rightarrow> virtualChannelFundingProposal \<Rightarrow> UpdateResponder \<Rightarrow>
     (Client, unit) call" where
  "handleVirtualChannelFundingProposal B N wait ch prop responder =
     (case validateVirtualChannelFundingProposal B ch prop of
        OK _ \<Rightarrow> awaitAndAccept B N wait prop responder
      | Err err \<Rightarrow> bindS (rejectProposal N responder err) (\<lambda>_.
          awaitAndAccept B N wait prop (responder\<lparr>re_called := True\<rparr>))
      | Panic s \<Rightarrow> liftS (Panic s))"

definition awaitSettlement ::
    "'b channel_backend_scheme \<Rightarrow> Net \<Rightarrow> (Client, unit) call \<Rightarrow> virtualChannelSettlementProposal \<Rightarrow> UpdateResponder \<Rightarrow> (Client, unit) call" where
  "awaitSettlement B N wait prop responder cl = (case settlementWatcher_Await B N wait (prop, responder) cl of
      (cl', Err err) \<Rightarrow> rejectProposal N responder err cl'
    | r \<Rightarrow> r)"

definition handleVirtualChannelSettlementProposal ::
    "'b channel_backend_scheme \<Rightarrow> Net \<Rightarrow> (Client, unit) call \<Rightarrow> Channel \<Rightarrow> virtualChannelSettlementProposal \<Rightarrow> UpdateResponder \<Rightarrow>
     (Client, unit) call" where
  "handleVirtualChannelSettlementProposal B N wait parent prop responder =
     (case validateVirtualChannelSettlementProposal B parent prop of
        OK _ \<Rightarrow> awaitSettlement B N wait prop responder
      | Err err \<Rightarrow> bindS (rejectProposal N responder err) (\<lambda>_.
          awaitSettlement B N wait prop (responder\<lparr>re_called := True\<rparr>))
      | Panic s \<Rightarrow> liftS (Panic s))"

text \<open>Returning the balances of a virtual channel to its parent.\<close>

definition virtualWithdrawUpdate :: "Channel \<Rightarrow> State \<Rightarrow> State res" where
  "virtualWithdrawUpdate virtual state =
     (case Allocation_SubAlloc (st_Alloc state) (ch_ID virtual) of (virtualAlloc, ok) \<Rightarrow>
      if \<not> ok then Panic ''sub-allocation %x not found''
      else bindR (deref (ch_State virtual)) (\<lambda>vs.
        bindR (Allocation_Sum (st_Alloc vs)) (\<lambda>sums.
        if \<not> BalancesEqual virtualAlloc sums then Panic ''sub-allocation does not equal accumulated sub-channel outcome''
        else bindR (translateBalances virtual (sa_IndexMap virtualAlloc)) (\<lambda>remapped.
          bindR (Balances_Add (al_Balances (st_Alloc state)) remapped) (\<lambda>bals.
          case RemoveSubAlloc ((st_Alloc state)\<lparr>al_Balances := bals\<rparr>) virtualAlloc of
            OK alloc \<Rightarrow> OK (state\<lparr>st_Alloc := alloc\<rparr>)
          | _ \<Rightarrow> Panic ''removing sub-allocation with id %x'')))))"

definition withdrawVirtualChannel ::
    "'b channel_backend_scheme \<Rightarrow> Net \<Rightarrow> cref \<Rightarrow> Channel \<Rightarrow> (Client, unit) call" where
  "withdrawVirtualChannel B N c virtual = bindS (chan c) (\<lambda>ch.
     bindS (liftS (bindR (State_Clone (ch_State ch)) deref)) (\<lambda>clone.
     bindS (liftS (virtualWithdrawUpdate virtual (clone\<lparr>st_Version := st_Version clone + 1\<rparr>))) (\<lambda>state.
     msgS ''update parent channel'' (updateGeneric B N c state (\<lambda>mcu.
       bindS (liftS (deref (ch_State virtual))) (\<lambda>s.
       returnS (MVirtualSettlement (msgChannelUpdate.extend mcu (virtualChannelSettlementProposal.fields
         \<lparr>ss_Params = m_params (ch_machine virtual), ss_State = s,
          ss_Sigs = tx_Sigs (m_currentTX (ch_machine virtual))\<rparr>)))))))))"

section \<open>Incoming update requests\<close>

datatype decision = UserAccept | UserReject bytes | UserSilent

text \<open>A handler can block for ever: when an update is intercepted that nobody awaits.\<close>

datatype outcome = Finished | Blocked

definition HandleUpdate :: "'b channel_backend_scheme \<Rightarrow> Net \<Rightarrow> UpdateResponder \<Rightarrow> decision \<Rightarrow> (Client, unit) call" where
  "HandleUpdate B N r d = (case d of
      UserAccept \<Rightarrow> ignoreS (responder_Accept B N r)
    | UserReject reason \<Rightarrow> ignoreS (responder_Reject N r reason)
    | UserSilent \<Rightarrow> returnS ())"

text \<open>\<open>uh\<close> is the user's handler, \<open>aw\<close> tells which intercepted updates are awaited.\<close>

definition handleUpdateReq ::
    "'b channel_backend_scheme \<Rightarrow> Net \<Rightarrow> (State option \<Rightarrow> msgChannelUpdate \<Rightarrow> decision) \<Rightarrow> (InterceptorKind \<Rightarrow> ID \<Rightarrow> bool) \<Rightarrow>
     (Client, unit) call \<Rightarrow> cref \<Rightarrow> Index \<Rightarrow> ChannelUpdateProposal \<Rightarrow> (Client, outcome) call" where
  "handleUpdateReq B N uh aw wait c pidx req = bindS (chan c) (\<lambda>ch.
     let up = prop_Base req;
         responder = \<lparr>re_channel = c, re_pidx = pidx, re_req = req, re_called = False\<rparr>;
         done = (\<lambda>call. bindS call (\<lambda>_. returnS Finished));
         intercepted = (\<lambda>k i. if aw k i
           then done (ignoreS (awaitSubChannelUpdate B N c k i (Some responder))) else returnS Blocked) in
     case CheckUpdate B (ch_machine ch) (cu_State up) (cu_ActorIdx up) (mu_Sig up) pidx of
       Err _ \<Rightarrow> returnS Finished
     | Panic s \<Rightarrow> liftS (Panic s)
     | OK _ \<Rightarrow> (case req of
         FundingProposal prop \<Rightarrow> done (handleVirtualChannelFundingProposal B N wait ch prop responder)
       | SettlementProposal prop \<Rightarrow> done (handleVirtualChannelSettlementProposal B N wait ch prop responder)
       | UpdateProposal _ \<Rightarrow>
           bindS (liftS (interceptors_Filter (ch_fundings ch) (ch_State ch) up)) (\<lambda>f. case f of
             Some i \<Rightarrow> intercepted Fundings i
           | None \<Rightarrow> bindS (liftS (interceptors_Filter (ch_withdrawals ch) (ch_State ch) up)) (\<lambda>w. case w of
               Some i \<Rightarrow> intercepted Withdrawals i
             | None \<Rightarrow> (case validTwoPartyUpdate ch up pidx of
                 Err _ \<Rightarrow> returnS Finished
               | Panic s \<Rightarrow> liftS (Panic s)
               | OK _ \<Rightarrow> done (HandleUpdate B N responder (uh (ch_State ch) up)))))))"

definition cacheVersion1Update :: "address \<Rightarrow> ChannelUpdateProposal \<Rightarrow> (Client, bool) call" where
  "cacheVersion1Update p m cl =
     (if \<not> (st_Version (cu_State (prop_Base m)) = 1 \<and> cl_enabled cl > 0) then (cl, OK False)
      else (cl\<lparr>cl_cache := cl_cache cl @ [(p, m)]\<rparr>, OK True))"

definition handleChannelUpdate ::
    "'b channel_backend_scheme \<Rightarrow> Net \<Rightarrow> (State option \<Rightarrow> msgChannelUpdate \<Rightarrow> decision) \<Rightarrow> (InterceptorKind \<Rightarrow> ID \<Rightarrow> bool) \<Rightarrow>
     (Client, unit) call \<Rightarrow> address \<Rightarrow> ChannelUpdateProposal \<Rightarrow> (Client, outcome) call" where
  "handleChannelUpdate B N uh aw wait p m =
     bindS (getS (\<lambda>cl. OK (registry_Get cl (st_ID (cu_State (prop_Base m)))))) (\<lambda>c. case c of
       None \<Rightarrow> bindS (cacheVersion1Update p m) (\<lambda>_. returnS Finished)
     | Some c \<Rightarrow> bindS (chan c) (\<lambda>ch. handleUpdateReq B N uh aw wait c (ch_Idx ch XOR 1) m))"

end
