(* ===== verification/Perun_Opening.thy ===== *)
theory Perun_Opening
  imports Perun_Virtual
begin

text \<open>
  Opening a channel: the two-party channel proposal protocol of \<open>client/proposal.go\<close> with the
  exchange of the first signatures (\<open>client/channel.go\<close>), the funding of the three kinds of channels
  and the requests of \<open>channel/funder.go\<close>.

  Parameters are the hash function, the wallet's \<open>Unlock\<close> and the funder's \<open>Fund\<close>.  What the two
  sides of a ledger proposal do together is shown in \<open>Perun_Agreement\<close>.
\<close>

unbundle bit_operations_syntax

section \<open>Proposals and answers\<close>

datatype ChannelProposal =
    LedgerProposal LedgerChannelProposal
  | SubProposal SubChannelProposal
  | VirtualProposal VirtualChannelProposal

datatype ChannelProposalAccept =
    LedgerAccept LedgerChannelProposalAcc
  | SubAccept SubChannelProposalAcc
  | VirtualAccept VirtualChannelProposalAcc

primrec proposal_Base :: "ChannelProposal \<Rightarrow> BaseChannelProposal" where
  "proposal_Base (LedgerProposal p) = BaseChannelProposal.truncate p"
| "proposal_Base (SubProposal p) = BaseChannelProposal.truncate p"
| "proposal_Base (VirtualProposal p) = BaseChannelProposal.truncate p"

primrec accept_Base :: "ChannelProposalAccept \<Rightarrow> BaseChannelProposalAcc" where
  "accept_Base (LedgerAccept a) = BaseChannelProposalAcc.truncate a"
| "accept_Base (SubAccept a) = a"
| "accept_Base (VirtualAccept a) = BaseChannelProposalAcc.truncate a"

primrec proposal_Msg :: "ChannelProposal \<Rightarrow> Msg" where
  "proposal_Msg (LedgerProposal p) = MLedgerProposal p"
| "proposal_Msg (SubProposal p) = MSubProposal p"
| "proposal_Msg (VirtualProposal p) = MVirtualProposal p"

primrec accept_Msg :: "ChannelProposalAccept \<Rightarrow> Msg" where
  "accept_Msg (LedgerAccept a) = MLedgerProposalAcc a"
| "accept_Msg (SubAccept a) = MSubProposalAcc a"
| "accept_Msg (VirtualAccept a) = MVirtualProposalAcc a"

fun Matches :: "ChannelProposal \<Rightarrow> ChannelProposalAccept \<Rightarrow> bool" where
  "Matches (LedgerProposal _) (LedgerAccept _) = True"
| "Matches (SubProposal _) (SubAccept _) = True"
| "Matches (VirtualProposal _) (VirtualAccept _) = True"
| "Matches _ _ = False"

primrec proposal_Valid :: "'b channel_backend_scheme \<Rightarrow> ChannelProposal \<Rightarrow> unit res" where
  "proposal_Valid B (LedgerProposal p) = LedgerChannelProposal_Valid B p"
| "proposal_Valid B (SubProposal p) = BaseChannelProposal_Valid B p"
| "proposal_Valid B (VirtualProposal p) = BaseChannelProposal_Valid B p"

primrec ProposalID :: "(bytes \<Rightarrow> bytes) \<Rightarrow> 'b channel_backend_scheme \<Rightarrow> ChannelProposal \<Rightarrow> bytes res" where
  "ProposalID H B (LedgerProposal p) = Ledger_ProposalID H B p"
| "ProposalID H B (SubProposal p) = Sub_ProposalID H B p"
| "ProposalID H B (VirtualProposal p) = Base_ProposalID H B p"

definition proposerIdx :: Index where "proposerIdx = 0"
definition proposeeIdx :: Index where "proposeeIdx = 1"

section \<open>Checks\<close>

primrec proposalPeers :: "ChannelProposal \<Rightarrow> (Client, address list) call" where
  "proposalPeers (LedgerProposal p) = returnS (lp_Peers p)"
| "proposalPeers (SubProposal p) = bindS (getS (\<lambda>cl. OK (registry_Get cl (sp_Parent p)))) (\<lambda>c. case c of
      None \<Rightarrow> liftS (Panic ''ProposalPeers: invalid parent channel'')
    | Some c \<Rightarrow> bindS (chan c) (\<lambda>ch. returnS (ch_peers ch)))"
| "proposalPeers (VirtualProposal p) = returnS (vp_Peers p)"

definition parentID :: "ChannelProposal \<Rightarrow> Index \<Rightarrow> ID option res" where
  "parentID prop partIdx = (case prop of
      LedgerProposal _ \<Rightarrow> OK None
    | SubProposal p \<Rightarrow> OK (Some (sp_Parent p))
    | VirtualProposal p \<Rightarrow> bindR (index_at (vp_Parents p) (unat partIdx)) (\<lambda>i. OK (Some i)))"

definition proposalParent :: "ChannelProposal \<Rightarrow> Index \<Rightarrow> (Client, ID option \<times> cref option) call" where
  "proposalParent prop partIdx =
     bindS (liftS (parentID prop partIdx)) (\<lambda>i. case i of
       None \<Rightarrow> returnS (None, None)
     | Some i \<Rightarrow> getS (\<lambda>cl. case registry_Get cl i of
         None \<Rightarrow> Err (ErrNew ''referenced parent channel not found'')
       | Some c \<Rightarrow> OK (Some i, Some c)))"

definition validSubChannelProposal :: "SubChannelProposal \<Rightarrow> (Client, unit) call" where
  "validSubChannelProposal proposal =
     bindS (getS (\<lambda>cl. OK (registry_Get cl (sp_Parent proposal)))) (\<lambda>c. case c of
       None \<Rightarrow> liftS (Err (ErrNew ''parent channel does not exist''))
     | Some c \<Rightarrow> bindS (chan c) (\<lambda>parent. liftS (
         bindR (deref (ch_State parent)) (\<lambda>parentState.
         bindR (deref (bp_InitBals proposal)) (\<lambda>initBals.
         bindR (with_msg ''parent channel and sub-channel assets do not match''
           (AssetsAssertEqual (al_Assets (st_Alloc parentState)) (al_Assets initBals))) (\<lambda>_.
         with_msg ''insufficient funds''
           (AssertGreaterOrEqual (al_Balances (st_Alloc parentState)) (al_Balances initBals))))))))"

text \<open>When the initial balances differ from the funding agreement, the code returns
  \<open>errors.WithMessage(err, \<dots>)\<close> of an \<open>err\<close> that is nil, which is nil: the proposal passes.\<close>

definition checkVirtualProposal :: "State \<Rightarrow> VirtualChannelProposal \<Rightarrow> Index \<Rightarrow> nat \<Rightarrow> unit res" where
  "checkVirtualProposal parentState prop ourIdx numPeers =
     bindR (deref (bp_InitBals prop)) (\<lambda>initBals.
     bindR (with_msg ''unequal assets''
       (AssetsAssertEqual (al_Assets (st_Alloc parentState)) (al_Assets initBals))) (\<lambda>_.
     if \<not> Balances_Equal (al_Balances initBals) (bp_FundingAgreement prop) then OK ()
     else
       bindR (err_if (length (vp_IndexMaps prop) \<noteq> numPeers) (ErrNew ''expected %d index maps, got %d'')) (\<lambda>_.
       bindR (index_at (vp_IndexMaps prop) (unat ourIdx)) (\<lambda>indexMap.
       bindR (forEach (\<lambda>p. err_if (unat p \<ge> numPeers) (ErrNew ''invalid index map entry %d: %d'')) indexMap) (\<lambda>_.
       bindR (transformBalances (al_Balances initBals) (NumParts (st_Alloc parentState)) indexMap) (\<lambda>virtualBals.
       with_msg ''insufficient funds'' (AssertGreaterOrEqual (al_Balances (st_Alloc parentState)) virtualBals)))))))"

definition validVirtualChannelProposal :: "VirtualChannelProposal \<Rightarrow> Index \<Rightarrow> (Client, unit) call" where
  "validVirtualChannelProposal prop ourIdx =
     bindS (liftS (NumPeers prop)) (\<lambda>numPeers.
     bindS (liftS (err_if (length (vp_Parents prop) \<noteq> numPeers) (ErrNew ''expected %d parent channels, got %d''))) (\<lambda>_.
     bindS (liftS (index_at (vp_Parents prop) (unat ourIdx))) (\<lambda>i.
     bindS (getS (\<lambda>cl. case registry_Get cl i of
         None \<Rightarrow> Err (ErrNew ''parent channel not found'')
       | Some c \<Rightarrow> OK c)) (\<lambda>c.
     bindS (chan c) (\<lambda>parent.
     bindS (liftS (deref (ch_State parent))) (\<lambda>parentState.
     liftS (checkVirtualProposal parentState prop ourIdx numPeers)))))))"

definition validTwoPartyProposal ::
    "'b channel_backend_scheme \<Rightarrow> ChannelProposal \<Rightarrow> Index \<Rightarrow> address \<Rightarrow> (Client, unit) call" where
  "validTwoPartyProposal B proposal ourIdx peerAddr =
     bindS (liftS (proposal_Valid B proposal)) (\<lambda>_.
     bindS (proposalPeers proposal) (\<lambda>peers.
     bindS (liftS (NumPeers (proposal_Base proposal))) (\<lambda>numPeers.
     bindS (liftS (err_if (numPeers \<noteq> length peers) (ErrNew ''participants (%d) and peers (%d) dimension mismatch''))) (\<lambda>_.
     bindS (liftS (err_if (length peers \<noteq> 2) (ErrNew ''expected 2 peers, got %d''))) (\<lambda>_.
     bindS (liftS (err_if (\<not> (ourIdx = proposerIdx \<or> ourIdx = proposeeIdx)) (ErrNew ''invalid index: %d''))) (\<lambda>_.
     bindS (liftS (err_if (peers ! unat (ourIdx XOR 1) \<noteq> peerAddr) (ErrNew ''remote peer doesn't have peer index %d''))) (\<lambda>_.
     bindS (getS (\<lambda>cl. err_if (peers ! unat ourIdx \<noteq> cl_address cl) (ErrNew ''we don't have peer index %d''))) (\<lambda>_.
     case proposal of
       LedgerProposal _ \<Rightarrow> returnS ()
     | SubProposal p \<Rightarrow> msgS ''validate subchannel proposal'' (validSubChannelProposal p)
     | VirtualProposal p \<Rightarrow> msgS ''validate subchannel proposal'' (validVirtualChannelProposal p ourIdx)))))))))"

definition validChannelProposalAcc ::
    "(bytes \<Rightarrow> bytes) \<Rightarrow> 'b channel_backend_scheme \<Rightarrow> ChannelProposal \<Rightarrow> ChannelProposalAccept \<Rightarrow> unit res" where
  "validChannelProposalAcc H B proposal response =
     bindR (err_if (\<not> Matches proposal response) (ErrNew ''Received invalid accept message %T to proposal %T'')) (\<lambda>_.
     bindR (ProposalID H B proposal) (\<lambda>propID.
     err_if (propID \<noteq> ba_ProposalID (accept_Base response)) (ErrNew ''mismatched proposal ID %b and accept ID %b'')))"

section \<open>Parameters of the new channel\<close>

definition participants :: "'a \<Rightarrow> 'a \<Rightarrow> 'a list" where
  "participants proposer proposee = [proposer, proposee]"

definition nonceShares :: "bytes \<Rightarrow> bytes \<Rightarrow> bytes list" where
  "nonceShares proposer proposee = [proposer, proposee]"

definition calcNonce :: "(bytes \<Rightarrow> bytes) \<Rightarrow> bytes list \<Rightarrow> Nonce res" where
  "calcNonce H shares =
     (case concatE (map (\<lambda>share. Encode [VBytes32 share]) shares) of
        OK b \<Rightarrow> NonceFromBytes (H b)
      | Err _ \<Rightarrow> Panic ''Failed to encode nonce share %d for hashing''
      | Panic s \<Rightarrow> Panic s)"

text \<open>A nil address as a participant would be dereferenced later; here it panics at once.\<close>

definition mpcppParts :: "ChannelProposal \<Rightarrow> ChannelProposalAccept \<Rightarrow> (Client, address list) call" where
  "mpcppParts prop acc = (case (prop, acc) of
      (LedgerProposal p, LedgerAccept a) \<Rightarrow> liftS (mapR deref (participants (lp_Participant p) (la_Participant a)))
    | (VirtualProposal p, VirtualAccept a) \<Rightarrow> liftS (mapR deref (participants (vp_Proposer p) (va_Responder a)))
    | (SubProposal p, _) \<Rightarrow> bindS (getS (\<lambda>cl. OK (registry_Get cl (sp_Parent p)))) (\<lambda>c. case c of
        None \<Rightarrow> liftS (Panic ''unknown parent channel ID'')
      | Some c \<Rightarrow> bindS (chan c) (\<lambda>ch. returnS (p_Parts (m_params (ch_machine ch)))))
    | _ \<Rightarrow> liftS (Panic ''interface conversion''))"

definition proposedParams ::
    "(bytes \<Rightarrow> bytes) \<Rightarrow> 'b channel_backend_scheme \<Rightarrow> ChannelProposal \<Rightarrow> ChannelProposalAccept \<Rightarrow> (Client, Params) call" where
  "proposedParams H B prop acc =
     bindS (mpcppParts prop acc) (\<lambda>parts.
     bindS (liftS (calcNonce H (nonceShares (bp_NonceShare (proposal_Base prop)) (ba_NonceShare (accept_Base acc))))) (\<lambda>nonce.
     liftS (NewParamsUnsafe B (bp_ChallengeDuration (proposal_Base prop)) parts (bp_App (proposal_Base prop)) nonce
       (msg_Type (proposal_Msg prop) = 4) (msg_Type (proposal_Msg prop) = 8))))"

section \<open>Funding requests\<close>

record FundingReq =
  fr_Params :: Params
  fr_State :: "State option"
  fr_Idx :: Index
  fr_Agreement :: Balances

definition NewFundingReq :: "Params \<Rightarrow> State option \<Rightarrow> Index \<Rightarrow> Balances \<Rightarrow> FundingReq" where
  "NewFundingReq params state idx agreement =
     \<lparr>fr_Params = params, fr_State = state, fr_Idx = idx, fr_Agreement = agreement\<rparr>"

definition NewFundingTimeoutError :: "(u16 \<times> u16 list) list \<Rightarrow> unit res" where
  "NewFundingTimeoutError fundingErrs = err_if (length fundingErrs \<noteq> 0) (FundingTimeoutError fundingErrs)"

definition IsFundingTimeoutError :: "goerr \<Rightarrow> bool" where
  "IsFundingTimeoutError e = (case Cause e of FundingTimeoutError _ \<Rightarrow> True | _ \<Rightarrow> False)"

text \<open>What opening a channel takes from outside: the hash, the wallet, the funder, and the update
  that is intercepted while the funding of a sub-channel is awaited.\<close>

record OpenEnv =
  oe_Hash :: "bytes \<Rightarrow> bytes"
  oe_Unlock :: "address \<Rightarrow> account res"
  oe_Fund :: "FundingReq \<Rightarrow> unit res"
  oe_Intercepted :: "UpdateResponder option"

section \<open>The opening protocol\<close>

text \<open>The own signature is sent while the peer's is awaited; the outcome of sending is reported last.\<close>

definition initExchangeSigsAndEnable :: "'b channel_backend_scheme \<Rightarrow> Net \<Rightarrow> cref \<Rightarrow> (Client, unit) call" where
  "initExchangeSigsAndEnable B N c =
     bindS (on_machine c (pm_Sig B)) (\<lambda>sig.
     bindS (chan c) (\<lambda>ch.
     bindS (msgS ''creating update response receiver'' (liftS (NewUpdateResRecv ch))) (\<lambda>_ cl.
     case conn_Send N c (MUpdateAcc \<lparr>ua_ChannelID = ch_ID ch, ua_Version = 0, ua_Sig = sig\<rparr>) cl of
       (cl', sent) \<Rightarrow>
         bindS (msgS ''receiving initial state sig'' (bindS (recv_Next N c 0) (\<lambda>r.
           liftS (case r of None \<Rightarrow> Err (ErrNew ''context closed'') | Some x \<Rightarrow> OK x)))) (\<lambda>(pidx, cm). case cm of
           MUpdateAcc acc \<Rightarrow>
             bindS (on_machine c (\<lambda>m. pm_AddSig B m pidx (ua_Sig acc))) (\<lambda>_.
             bindS (on_machine c (pm_EnableInit B)) (\<lambda>_.
             liftS (with_msg ''sending initial signature'' sent)))
         | _ \<Rightarrow> liftS (Err (ErrNew ''received unexpected message of type (%T) from peer[%d]: %v''))) cl')))"

definition completeCPP ::
    "'b channel_backend_scheme \<Rightarrow> Net \<Rightarrow> OpenEnv \<Rightarrow> ChannelProposal \<Rightarrow> ChannelProposalAccept \<Rightarrow> Index \<Rightarrow> (Client, cref) call" where
  "completeCPP B N E prop acc partIdx =
     bindS (proposedParams (oe_Hash E) B prop acc) (\<lambda>params.
     bindS (getS (\<lambda>cl. err_if (registry_Has cl (p_id params)) (ErrNew ''channel already exists''))) (\<lambda>_.
     bindS (liftS (index_at (p_Parts params) (unat partIdx))) (\<lambda>part.
     bindS (msgS ''unlocking account'' (liftS (oe_Unlock E part))) (\<lambda>account.
     bindS (proposalParent prop partIdx) (\<lambda>(parentChannelID, parent).
     bindS (proposalPeers prop) (\<lambda>peers.
     bindS (newChannel B account parent peers params) (\<lambda>c.
     bindS (liftS (deref (bp_InitBals (proposal_Base prop)))) (\<lambda>initBals.
     bindS (case (prop, parent) of
         (SubProposal _, Some p) \<Rightarrow> if partIdx = proposeeIdx
           then bindS (liftS (Allocation_Sum initBals)) (registerSubChannelFunding p (p_id params)) else returnS ()
       | _ \<Rightarrow> returnS ()) (\<lambda>_.
     bindS (chan c) (\<lambda>ch.
     bindS (msgS ''persisting new channel''
       (on_db (\<lambda>d. ChannelCreated B d (source_of (ch_machine ch)) peers parentChannelID))) (\<lambda>_.
     bindS (msgS ''setting initial bals and data'' (Channel_init B c initBals (bp_InitData (proposal_Base prop)))) (\<lambda>_.
     bindS (msgS ''exchanging initial sigs and enabling state'' (initExchangeSigsAndEnable B N c)) (\<lambda>_.
     returnS c)))))))))))))"

definition completeFunding :: "cref \<Rightarrow> (Client, unit) call" where
  "completeFunding c =
     bindS (msgS ''error in SetFunded()'' (on_machine c pm_SetFunded)) (\<lambda>_.
     bindS (chan c) (\<lambda>ch.
     bindS (registry_Put (ch_ID ch) c) (\<lambda>ok.
     if \<not> ok then liftS (Err (ErrNew ''channel already exists''))
     else bindS (liftS (index_at (p_Parts (m_params (ch_machine ch))) (unat (ch_Idx ch)))) (\<lambda>part.
       modifyS (\<lambda>cl. cl\<lparr>cl_usage := (cl_usage cl)(part := cl_usage cl part + 1)\<rparr>)))))"

definition fundLedgerChannel :: "OpenEnv \<Rightarrow> cref \<Rightarrow> Balances \<Rightarrow> (Client, unit) call" where
  "fundLedgerChannel E c agreement = bindS (chan c) (\<lambda>ch.
     bindS (liftS (case oe_Fund E (NewFundingReq (m_params (ch_machine ch)) (ch_State ch) (ch_Idx ch) agreement) of
         Err err \<Rightarrow> if IsFundingTimeoutError err then Err (ErrWithMessage ''waiting for peer funding'' err)
           else Err (ErrWithMessage ''error while funding channel'' err)
       | r \<Rightarrow> r)) (\<lambda>_.
     completeFunding c))"

definition fundSubchannel ::
    "'b channel_backend_scheme \<Rightarrow> Net \<Rightarrow> OpenEnv \<Rightarrow> SubChannelProposal \<Rightarrow> cref \<Rightarrow> (Client, unit) call" where
  "fundSubchannel B N E prop sub =
     bindS (getS (\<lambda>cl. case registry_Get cl (sp_Parent prop) of
         None \<Rightarrow> Err (ErrNew ''referenced parent channel not found'')
       | Some p \<Rightarrow> OK p)) (\<lambda>p.
     bindS (chan sub) (\<lambda>ch.
     bindS (if ch_Idx ch = proposerIdx then
              bindS (liftS (deref (bp_InitBals prop))) (\<lambda>initBals.
              msgS ''parent channel update failed'' (fundSubChannel B N p (ch_ID ch) initBals))
            else if ch_Idx ch = proposeeIdx then
              msgS ''await subchannel funding update'' (awaitSubChannelFunding B N p (ch_ID ch) (oe_Intercepted E))
            else liftS (Err (ErrNew ''invalid participant index''))) (\<lambda>_.
     completeFunding sub)))"

definition fundVirtualChannel ::
    "'b channel_backend_scheme \<Rightarrow> Net \<Rightarrow> cref \<Rightarrow> VirtualChannelProposal \<Rightarrow> (Client, unit) call" where
  "fundVirtualChannel B N virtual prop = bindS (chan virtual) (\<lambda>ch.
     bindS (liftS (index_at (vp_Parents prop) (unat (ch_Idx ch)))) (\<lambda>i.
     bindS (getS (\<lambda>cl. case registry_Get cl i of
         None \<Rightarrow> Err (ErrNew ''referenced parent channel not found'')
       | Some p \<Rightarrow> OK p)) (\<lambda>p.
     bindS (liftS (index_at (vp_IndexMaps prop) (unat (ch_Idx ch)))) (\<lambda>indexMap.
     bindS (msgS ''proposing channel funding'' (proposeVirtualChannelFunding B N p ch indexMap)) (\<lambda>_.
     completeFunding virtual)))))"

definition fundChannel ::
    "'b channel_backend_scheme \<Rightarrow> Net \<Rightarrow> OpenEnv \<Rightarrow> cref \<Rightarrow> ChannelProposal \<Rightarrow> (Client, unit) call" where
  "fundChannel B N E c prop = (case prop of
      LedgerProposal p \<Rightarrow> msgS ''funding ledger channel'' (fundLedgerChannel E c (bp_FundingAgreement p))
    | SubProposal p \<Rightarrow> msgS ''funding subchannel'' (fundSubchannel B N E p c)
    | VirtualProposal p \<Rightarrow> msgS ''funding virtual channel'' (fundVirtualChannel B N c p))"

text \<open>Updates to version 1 that arrive before the channel is registered are kept, and handled when
  the opening is over.\<close>

definition enableVer1Cache :: "(Client, unit) call" where
  "enableVer1Cache = modifyS (\<lambda>cl. cl\<lparr>cl_enabled := cl_enabled cl + 1\<rparr>)"

definition releaseVer1Cache :: "(address \<Rightarrow> ChannelUpdateProposal \<Rightarrow> (Client, outcome) call) \<Rightarrow> (Client, unit) call" where
  "releaseVer1Cache handle =
     bindS (getS (\<lambda>cl. OK (cl_cache cl))) (\<lambda>cached.
     bindS (modifyS (\<lambda>cl. cl\<lparr>cl_enabled := cl_enabled cl - 1, cl_cache := []\<rparr>)) (\<lambda>_.
     forEachS (\<lambda>(p, m). ignoreS (handle p m)) cached))"

text \<open>A deferred call runs whatever happened, and does not change the outcome unless it panics.\<close>

definition finallyS :: "('s, 'a) call \<Rightarrow> ('s, unit) call \<Rightarrow> ('s, 'a) call" where
  "finallyS c f s = (case c s of (s', r) \<Rightarrow> (case f s' of (s'', Panic p) \<Rightarrow> (s'', Panic p) | (s'', _) \<Rightarrow> (s'', r)))"

definition isProposalRes :: "bytes \<Rightarrow> Msg \<Rightarrow> bool" where
  "isProposalRes proposalID m = (case m of
      MLedgerProposalAcc a \<Rightarrow> ba_ProposalID a = proposalID
    | MSubProposalAcc a \<Rightarrow> ba_ProposalID a = proposalID
    | MVirtualProposalAcc a \<Rightarrow> ba_ProposalID a = proposalID
    | MProposalRej r \<Rightarrow> cr_ProposalID r = proposalID
    | _ \<Rightarrow> False)"

definition msg_Accept :: "Msg \<Rightarrow> ChannelProposalAccept res" where
  "msg_Accept m = (case m of
      MLedgerProposalAcc a \<Rightarrow> OK (LedgerAccept a)
    | MSubProposalAcc a \<Rightarrow> OK (SubAccept a)
    | MVirtualProposalAcc a \<Rightarrow> OK (VirtualAccept a)
    | _ \<Rightarrow> Panic ''interface conversion'')"

definition proposeTwoPartyChannel ::
    "'b channel_backend_scheme \<Rightarrow> Net \<Rightarrow> OpenEnv \<Rightarrow> ChannelProposal \<Rightarrow> (Client, cref) call" where
  "proposeTwoPartyChannel B N E proposal =
     bindS (proposalPeers proposal) (\<lambda>peers.
     bindS (liftS (index_at peers (unat proposeeIdx))) (\<lambda>peer.
     bindS (liftS (ProposalID (oe_Hash E) B proposal)) (\<lambda>proposalID.
     bindS (msgS ''subscribing proposal response recv''
       (getS (\<lambda>cl. err_if (cl_closed cl) (ErrNew ''producer closed'')))) (\<lambda>_.
     bindS (msgS ''publishing channel proposal'' (pubMsg N (proposal_Msg proposal) peer)) (\<lambda>_.
     bindS (getS (\<lambda>cl. case find (\<lambda>e. isProposalRes proposalID (env_Msg e)) (net_Incoming N (cl_sent cl)) of
         None \<Rightarrow> Err (ErrWithMessage ''context closed'' RequestTimedOutError)
       | Some e \<Rightarrow> (case env_Msg e of
           MProposalRej rej \<Rightarrow> Err (PeerRejectedError ''channel proposal'' (cr_Reason rej))
         | m \<Rightarrow> msg_Accept m))) (\<lambda>acc.
     bindS (msgS ''validating channel proposal acceptance''
       (liftS (validChannelProposalAcc (oe_Hash E) B proposal acc))) (\<lambda>_.
     completeCPP B N E proposal acc proposerIdx)))))))"

definition prepareChannelOpening :: "ChannelProposal \<Rightarrow> Index \<Rightarrow> (Client, unit) call" where
  "prepareChannelOpening prop ourIdx = bindS (proposalParent prop ourIdx) (\<lambda>_. returnS ())"

definition ProposeChannel ::
    "'b channel_backend_scheme \<Rightarrow> Net \<Rightarrow> OpenEnv \<Rightarrow> (address \<Rightarrow> ChannelUpdateProposal \<Rightarrow> (Client, outcome) call) \<Rightarrow>
     ChannelProposal \<Rightarrow> (Client, cref) call" where
  "ProposeChannel B N E handle prop =
     bindS (msgS ''preparing channel opening'' (prepareChannelOpening prop proposerIdx)) (\<lambda>_.
     bindS (proposalPeers prop) (\<lambda>peers.
     bindS (liftS (index_at peers (unat proposeeIdx))) (\<lambda>peer.
     bindS (msgS ''invalid channel proposal'' (validTwoPartyProposal B prop proposerIdx peer)) (\<lambda>_.
     bindS enableVer1Cache (\<lambda>_.
     finallyS
       (bindS (msgS ''channel proposal'' (proposeTwoPartyChannel B N E prop)) (\<lambda>c.
        bindS (fundChannel B N E c prop) (\<lambda>_. returnS c)))
       (releaseVer1Cache handle))))))"

definition acceptChannelProposal ::
    "'b channel_backend_scheme \<Rightarrow> Net \<Rightarrow> OpenEnv \<Rightarrow> ChannelProposal \<Rightarrow> address \<Rightarrow> ChannelProposalAccept \<Rightarrow> (Client, cref) call" where
  "acceptChannelProposal B N E prop p acc =
     bindS (msgS ''sending proposal acceptance'' (pubMsg N (accept_Msg acc) p)) (\<lambda>_.
     completeCPP B N E prop acc proposeeIdx)"

definition handleChannelProposalAcc ::
    "'b channel_backend_scheme \<Rightarrow> Net \<Rightarrow> OpenEnv \<Rightarrow> (address \<Rightarrow> ChannelUpdateProposal \<Rightarrow> (Client, outcome) call) \<Rightarrow>
     address \<Rightarrow> ChannelProposal \<Rightarrow> ChannelProposalAccept \<Rightarrow> (Client, cref) call" where
  "handleChannelProposalAcc B N E handle p prop acc =
     bindS (msgS ''validating channel proposal acceptance''
       (liftS (validChannelProposalAcc (oe_Hash E) B prop acc))) (\<lambda>_.
     bindS enableVer1Cache (\<lambda>_.
     finallyS
       (bindS (msgS ''accept channel proposal'' (acceptChannelProposal B N E prop p acc)) (\<lambda>c.
        bindS (fundChannel B N E c prop) (\<lambda>_. returnS c)))
       (releaseVer1Cache handle)))"

definition handleChannelProposalRej ::
    "'b channel_backend_scheme \<Rightarrow> Net \<Rightarrow> OpenEnv \<Rightarrow> address \<Rightarrow> ChannelProposal \<Rightarrow> bytes \<Rightarrow> (Client, unit) call" where
  "handleChannelProposalRej B N E p req reason =
     bindS (liftS (ProposalID (oe_Hash E) B req)) (\<lambda>i.
     pubMsg N (MProposalRej \<lparr>cr_ProposalID = i, cr_Reason = reason\<rparr>) p)"

text \<open>The user's handler for proposals accepts, rejects or does nothing.\<close>

datatype proposal_decision = ProposalAccept ChannelProposalAccept | ProposalReject bytes | ProposalSilent

definition handleChannelProposal ::
    "'b channel_backend_scheme \<Rightarrow> Net \<Rightarrow> OpenEnv \<Rightarrow> (address \<Rightarrow> ChannelUpdateProposal \<Rightarrow> (Client, outcome) call) \<Rightarrow>
     (ChannelProposal \<Rightarrow> proposal_decision) \<Rightarrow> address \<Rightarrow> ChannelProposal \<Rightarrow> (Client, unit) call" where
  "handleChannelProposal B N E handle ph p req = ignoreS (
     bindS (prepareChannelOpening req proposeeIdx) (\<lambda>_.
     bindS (validTwoPartyProposal B req proposeeIdx p) (\<lambda>_.
     case ph req of
       ProposalAccept acc \<Rightarrow> bindS (handleChannelProposalAcc B N E handle p req acc) (\<lambda>_. returnS ())
     | ProposalReject reason \<Rightarrow> handleChannelProposalRej B N E p req reason
     | ProposalSilent \<Rightarrow> returnS ())))"

section \<open>Responders\<close>

text \<open>A responder is called once: what it was called with is what the user's handler decided.  \<open>hasCtx\<close>: the
  context is not nil.  The results are the responder after the call, and the call.\<close>

record ProposalResponder =
  pr_peer :: address
  pr_req :: ChannelProposal
  pr_called :: bool

definition proposal_Accept ::
    "'b channel_backend_scheme \<Rightarrow> Net \<Rightarrow> OpenEnv \<Rightarrow> (address \<Rightarrow> ChannelUpdateProposal \<Rightarrow> (Client, outcome) call) \<Rightarrow>
     bool \<Rightarrow> ChannelProposalAccept \<Rightarrow> ProposalResponder \<Rightarrow> ProposalResponder \<times> (Client, cref) call" where
  "proposal_Accept B N E handle hasCtx acc r =
     (if \<not> hasCtx then (r, liftS (Err (ErrNew ''context must not be nil'')))
      else if pr_called r then (r, liftS (Panic ''multiple calls on proposal responder''))
      else (r\<lparr>pr_called := True\<rparr>, handleChannelProposalAcc B N E handle (pr_peer r) (pr_req r) acc))"

definition proposal_Reject ::
    "'b channel_backend_scheme \<Rightarrow> Net \<Rightarrow> OpenEnv \<Rightarrow> bytes \<Rightarrow> ProposalResponder \<Rightarrow> ProposalResponder \<times> (Client, unit) call" where
  "proposal_Reject B N E reason r =
     (if pr_called r then (r, liftS (Panic ''multiple calls on proposal responder''))
      else (r\<lparr>pr_called := True\<rparr>, handleChannelProposalRej B N E (pr_peer r) (pr_req r) reason))"

text \<open>The handler of proposals is the first call on a new responder.\<close>

lemma handleChannelProposal_responder:
  "handleChannelProposal B N E handle ph p req = ignoreS (
     bindS (prepareChannelOpening req proposeeIdx) (\<lambda>_.
     bindS (validTwoPartyProposal B req proposeeIdx p) (\<lambda>_.
     let r = \<lparr>pr_peer = p, pr_req = req, pr_called = False\<rparr> in
     case ph req of
       ProposalAccept acc \<Rightarrow> bindS (snd (proposal_Accept B N E handle True acc r)) (\<lambda>_. returnS ())
     | ProposalReject reason \<Rightarrow> snd (proposal_Reject B N E reason r)
     | ProposalSilent \<Rightarrow> returnS ())))"
  by (simp add: handleChannelProposal_def proposal_Accept_def proposal_Reject_def Let_def cong: proposal_decision.case_cong)

text \<open>After an answer every further answer panics and sends nothing; a call without a context answers nothing.\<close>

lemma proposal_answered_once:
  assumes "r' = fst (proposal_Accept B N E handle True acc r) \<or> r' = fst (proposal_Reject B N E reason r)"
  shows "snd (proposal_Accept B N E handle True acc' r') cl = (cl, Panic ''multiple calls on proposal responder'')"
    and "snd (proposal_Reject B N E reason' r') cl = (cl, Panic ''multiple calls on proposal responder'')"
    and "fst (proposal_Accept B N E handle False acc' r) = r"
  using assms by (auto simp: proposal_Accept_def proposal_Reject_def liftS_def split: if_splits)

end
