(* ===== verification/Perun_Sync.thy ===== *)
theory Perun_Sync
  imports Perun_Virtual
begin

text \<open>
  Synchronising and restoring channels: the exchange of the current transaction
  (\<open>client/sync.go\<close>) and the reconstruction of the channels of a database
  (\<open>client/restore.go\<close>).

  Channels are restored after their parents, by recursion through the parent identifiers; the loop
  over the stored channels of a peer ends because each round consumes entries of the database.
\<close>

section \<open>Synchronisation\<close>

definition handleSyncMsg :: "'b channel_backend_scheme \<Rightarrow> Net \<Rightarrow> address \<Rightarrow> msgChannelSync \<Rightarrow> (Client, unit) call" where
  "handleSyncMsg B N peer msg =
     bindS (liftS (msgChannelSync_ID msg)) (\<lambda>i.
     bindS (getS (\<lambda>cl. OK (registry_Get cl i))) (\<lambda>c. case c of
       None \<Rightarrow> returnS ()
     | Some c \<Rightarrow> bindS (chan c) (\<lambda>ch.
         bindS (liftS (CloneSource B (source_of (ch_machine ch)))) (\<lambda>s cl.
         case pubMsg N (MSync (newChannelSyncMsg s)) peer cl of
           (cl', OK _) \<Rightarrow>
             (if m_phase (ch_machine ch) = Signing then ignoreS (on_machine c (pm_DiscardUpdate B)) cl' else (cl', OK ()))
         | (cl', Err _) \<Rightarrow> (cl', OK ())
         | (cl', Panic s) \<Rightarrow> (cl', Panic s)))))"

definition validateMessage :: "'b channel_backend_scheme \<Rightarrow> pchannel \<Rightarrow> msgChannelSync \<Rightarrow> unit res" where
  "validateMessage B ch msg =
     bindR (deref (tx_State (pc_CurrentTX ch))) (\<lambda>own.
     bindR (deref (tx_State (cs_CurrentTX msg))) (\<lambda>other.
     bindR (deref (pc_Params ch)) (\<lambda>params.
     if st_ID other \<noteq> p_id params then Err (ErrNew ''channel ID mismatch'')
     else if st_Version other = st_Version own
     then with_msg ''different states for same version'' (State_Equal other own)
     else if st_Version other > st_Version own then
       bindR (err_if (length (tx_Sigs (cs_CurrentTX msg)) \<noteq> length (p_Parts params)) (ErrNew ''sigs length mismatch'')) (\<lambda>_.
       forEach (\<lambda>(part, sig).
         bindR (with_msg ''validating sig %d'' (cb_Verify B part params other sig)) (\<lambda>ok.
         err_if (\<not> ok) (ErrNew ''invalid sig %d''))) (zip (p_Parts params) (tx_Sigs (cs_CurrentTX msg))))
     else OK ())))"

text \<open>The last assignment is not in an else branch: a final channel ends up in the acting phase.\<close>

definition revisePhase :: "pchannel \<Rightarrow> pchannel \<times> unit res" where
  "revisePhase ch = (case tx_State (pc_CurrentTX ch) of
      None \<Rightarrow>
        (if pc_Phase ch \<le> Funding then (ch, Panic ''nil pointer dereference'')
         else if pc_Phase ch > Final \<and> pc_Phase ch < Withdrawn then (ch, Err (ErrNew ''settling channel restored''))
         else if pc_Phase ch = Withdrawn then (ch, OK ())
         else (ch, Panic ''nil pointer dereference''))
    | Some s \<Rightarrow>
        (if pc_Phase ch \<le> Funding \<and> st_Version s = 0
         then (ch, Err (ErrNew ''channel in Funding phase - funding during restore not implemented yet''))
         else if pc_Phase ch > Final \<and> pc_Phase ch < Withdrawn then (ch, Err (ErrNew ''settling channel restored''))
         else if pc_Phase ch = Withdrawn then (ch, OK ())
         else let ch' = (if st_IsFinal s then ch\<lparr>pc_Phase := Final\<rparr> else ch) in
           (ch'\<lparr>pc_Phase := Acting\<rparr>, OK ())))"

definition mergeSync :: "'b channel_backend_scheme \<Rightarrow> pchannel \<Rightarrow> msgChannelSync \<Rightarrow> pchannel \<times> unit res" where
  "mergeSync B ch msg = (case with_msg ''invalid message'' (validateMessage B ch msg) of
      OK _ \<Rightarrow> (let newer = (case (tx_State (cs_CurrentTX msg), tx_State (pc_CurrentTX ch)) of
                 (Some other, Some own) \<Rightarrow> st_Version other > st_Version own | _ \<Rightarrow> False)
              in revisePhase (if newer then ch\<lparr>pc_CurrentTX := cs_CurrentTX msg\<rparr> else ch))
    | Err e \<Rightarrow> (ch, Err e)
    | Panic s \<Rightarrow> (ch, Panic s))"

definition isSync :: "ID \<Rightarrow> Msg \<Rightarrow> bool" where
  "isSync i m = (case m of MSync s \<Rightarrow> msgChannelSync_ID s = OK i | _ \<Rightarrow> False)"

text \<open>The own message is sent while the peer's is awaited; its error is reported if nothing else
  failed.\<close>

definition syncChannel ::
    "'b channel_backend_scheme \<Rightarrow> Net \<Rightarrow> pchannel \<Rightarrow> address \<Rightarrow> Client \<Rightarrow> Client \<times> pchannel \<times> unit res" where
  "syncChannel B N ch p cl =
     (if cl_closed cl then (cl, ch, Err (ErrWithMessage ''subscribing on relay'' (ErrNew ''producer closed'')))
      else case bindR (pc_source ch) (CloneSource B) of
        Err e \<Rightarrow> (cl, ch, Err e)
      | Panic s \<Rightarrow> (cl, ch, Panic s)
      | OK src \<Rightarrow> (case pubMsg N (MSync (newChannelSyncMsg src)) p cl of (cl', sendErr) \<Rightarrow>
          (case (case find (\<lambda>e. isSync (p_id (src_Params src)) (env_Msg e)) (net_Incoming N (cl_sent cl')) of
              Some e \<Rightarrow> (case env_Msg e of MSync msg \<Rightarrow> mergeSync B ch msg | _ \<Rightarrow> (ch, Panic ''interface conversion''))
            | None \<Rightarrow> (ch, Err (ErrWithMessage ''receiving sync message'' (ErrNew ''context closed'')))) of
            (ch', OK _) \<Rightarrow> (cl', ch', with_msg ''sending sync message'' sendErr)
          | (ch', r) \<Rightarrow> (cl', ch', r))))"

section \<open>Restoring channels\<close>

text \<open>The number of entries that the iterators still have to deliver.\<close>

definition its_left :: "iterator list \<Rightarrow> nat" where
  "its_left its = sum_list (map (\<lambda>it. length (it_keys it) - it_next it) its)"

lemma seekNext_left:
  "seekNext opts its = (found, e, its') \<Longrightarrow> its_left its' \<le> its_left its \<and> (found \<longrightarrow> its_left its' < its_left its)"
proof (induction its)
  case (Cons it its)
  then show ?case
    by (auto simp: its_left_def it_Next_def Let_def split: if_splits)
qed (simp add: its_left_def)

lemma decodeNext_left:
  assumes "decodeNext dec opts ci = OK (ok, v, ci')"
  shows "its_left (ci_its ci') \<le> its_left (ci_its ci) \<and> (ok \<longrightarrow> its_left (ci_its ci') < its_left (ci_its ci))"
proof -
  obtain found e its where s: "seekNext opts (ci_its ci) = (found, e, its)"
    by (cases "seekNext opts (ci_its ci)") auto
  have "ci_its ci' = its \<and> (ok \<longrightarrow> found)"
    using assms by (auto simp: decodeNext_def s Let_def res_simps split: if_splits option.splits res.splits)
  with seekNext_left [OF s] show ?thesis by auto
qed

lemma field_left:
  assumes "field dec opts upd k ci = OK (b, ci')"
    and "\<And>ci b ci'. k ci = OK (b, ci') \<Longrightarrow> its_left (ci_its ci') \<le> its_left (ci_its ci)"
  shows "its_left (ci_its ci') \<le> its_left (ci_its ci) \<and> (b \<longrightarrow> its_left (ci_its ci') < its_left (ci_its ci))"
proof -
  obtain ok v c where d: "decodeNext dec opts ci = OK (ok, v, c)"
    and r: "(if ok then k (case v of None \<Rightarrow> c | Some x \<Rightarrow> c\<lparr>ci_ch := upd x (ci_ch c)\<rparr>)
      else OK (False, case v of None \<Rightarrow> c | Some x \<Rightarrow> c\<lparr>ci_ch := upd x (ci_ch c)\<rparr>)) = OK (b, ci')"
    using assms(1) by (auto simp: field_def res_simps Let_def)
  have its: "ci_its (case v of None \<Rightarrow> c | Some x \<Rightarrow> c\<lparr>ci_ch := upd x (ci_ch c)\<rparr>) = ci_its c"
    by (simp split: option.splits)
  show ?thesis
    using decodeNext_left [OF d] r assms(2) its by (auto split: if_splits dest!: assms(2))
qed

text \<open>A step of an iterator delivers entries and adds none.\<close>

definition shrinks :: "(chan_iter \<Rightarrow> (bool \<times> chan_iter) res) \<Rightarrow> bool" where
  "shrinks k \<longleftrightarrow> (\<forall>ci b ci'. k ci = OK (b, ci') \<longrightarrow> its_left (ci_its ci') \<le> its_left (ci_its ci))"

lemma shrinks_field: "shrinks k \<Longrightarrow> shrinks (field dec opts upd k)"
  unfolding shrinks_def using field_left [of dec opts upd k] by blast

lemma sigFields_left: "sigFields B is ci = OK ci' \<Longrightarrow> its_left (ci_its ci') \<le> its_left (ci_its ci)"
proof (induction "is" arbitrary: ci)
  case (Cons i "is")
  obtain ok v c where d: "decodeNext (SigDec_Decode B) allowEmpty ci = OK (ok, v, c)"
    and r: "sigFields B is (case v of None \<Rightarrow> c | Some x \<Rightarrow> c\<lparr>ci_ch := (ci_ch c)\<lparr>pc_StagingTX :=
           (pc_StagingTX (ci_ch c))\<lparr>tx_Sigs := (tx_Sigs (pc_StagingTX (ci_ch c)))[i := x]\<rparr>\<rparr>\<rparr>) = OK ci'"
    using Cons.prems by (auto simp: res_simps)
  from Cons.IH [OF r] decodeNext_left [OF d] show ?case
    by (auto split: option.splits)
qed simp

lemma shrinks_staging: "shrinks (ci_staging B)"
proof -
  have "shrinks (field (PersistedState_Decode B) allowEmpty
      (\<lambda>v c. c\<lparr>pc_StagingTX := (pc_StagingTX c)\<lparr>tx_State := v\<rparr>\<rparr>) (\<lambda>ci. OK (True, ci)))"
    by (rule shrinks_field) (simp add: shrinks_def)
  then show ?thesis
    unfolding shrinks_def ci_staging_def by (fastforce simp: res_simps dest!: sigFields_left)
qed

lemma ci_Next_left:
  assumes "ci_Next B ci = OK (True, ci')"
  shows "its_left (ci_its ci') < its_left (ci_its ci)"
proof -
  have "field (Transaction_Decode B) allowEnd (\<lambda>v c. c\<lparr>pc_CurrentTX := v\<rparr>)
      (field decUint16 noOpts (\<lambda>v c. c\<lparr>pc_Idx := v\<rparr>)
      (field (Params_Decode B) noOpts (\<lambda>v c. c\<lparr>pc_Params := Some v\<rparr>)
      (field optChannelID_Decode noOpts (\<lambda>v c. c\<lparr>pc_Parent := v\<rparr>)
      (field (AddressesWithLen_Decode B) noOpts (\<lambda>v c. c\<lparr>pc_Peers := v\<rparr>)
      (field Phase_Decode noOpts (\<lambda>v c. c\<lparr>pc_Phase := v\<rparr>) (ci_staging B))))))
       (ci\<lparr>ci_ch := NewChannel\<rparr>) = OK (True, ci')"
    using assms by (auto simp: ci_Next_def split: if_splits)
  moreover have "shrinks (field decUint16 noOpts (\<lambda>v c. c\<lparr>pc_Idx := v\<rparr>)
      (field (Params_Decode B) noOpts (\<lambda>v c. c\<lparr>pc_Params := Some v\<rparr>)
      (field optChannelID_Decode noOpts (\<lambda>v c. c\<lparr>pc_Parent := v\<rparr>)
      (field (AddressesWithLen_Decode B) noOpts (\<lambda>v c. c\<lparr>pc_Peers := v\<rparr>)
      (field Phase_Decode noOpts (\<lambda>v c. c\<lparr>pc_Phase := v\<rparr>) (ci_staging B))))))"
    by (intro shrinks_field shrinks_staging)
  ultimately show ?thesis
    unfolding shrinks_def by (fastforce dest: field_left)
qed

text \<open>The loop over the channels of an iterator.\<close>

function restoreLoop :: "'b channel_backend_scheme \<Rightarrow> chan_iter \<Rightarrow> (pchannel list \<times> chan_iter) res" where
  "restoreLoop B it = (case ci_Next B it of
      OK (found, it') \<Rightarrow>
        if found then bindR (restoreLoop B it') (\<lambda>(chs, last). OK (ci_ch it' # chs, last)) else OK ([], it')
    | Err e \<Rightarrow> Err e
    | Panic s \<Rightarrow> Panic s)"
  by pat_completeness auto

termination
  by (relation "measure (\<lambda>(_, it). its_left (ci_its it))") (auto dest: ci_Next_left)

declare restoreLoop.simps [simp del]

text \<open>\<open>db\<close> maps identifiers to the stored channels.  A channel refers to its parent, which is
  reconstructed first; the depth of this recursion is bounded by \<open>fuel\<close>, beyond which the program
  would run out of stack.\<close>

definition pc_ID :: "pchannel \<Rightarrow> ID res" where
  "pc_ID ch = bindR (deref (pc_Params ch)) (\<lambda>p. OK (p_id p))"

primrec reconstructChannel ::
    "nat \<Rightarrow> 'b channel_backend_scheme \<Rightarrow> (address \<Rightarrow> account res) \<Rightarrow> (ID \<times> pchannel) list \<Rightarrow> pchannel \<Rightarrow>
     (ID \<Rightarrow> cref option) \<Rightarrow> (Client, cref \<times> (ID \<Rightarrow> cref option)) call" where
  "reconstructChannel 0 B unlock db pch chans = liftS (Panic ''stack overflow'')"
| "reconstructChannel (Suc fuel) B unlock db pch chans =
     bindS (liftS (pc_ID pch)) (\<lambda>i. case chans i of
       Some c \<Rightarrow> returnS (c, chans)
     | None \<Rightarrow>
         bindS (case pc_Parent pch of
             None \<Rightarrow> returnS (None, chans)
           | Some j \<Rightarrow> bindS (liftS (deref (map_of db j))) (\<lambda>parent.
               bindS (reconstructChannel fuel B unlock db parent chans) (\<lambda>(c, chans'). returnS (Some c, chans')))) (\<lambda>(parent, chans').
         bindS (liftS (pc_source pch)) (\<lambda>s cl.
         case channelFromSource B unlock s parent (pc_Peers pch) cl of
           (cl', OK c) \<Rightarrow> (cl', OK (c, chans'(i \<mapsto> c)))
         | (cl', Err _) \<Rightarrow> (cl', Panic ''Reconstruct channel: %v'')
         | (cl', Panic s) \<Rightarrow> (cl', Panic s))))"

text \<open>Channels that are already registered are closed again.\<close>

definition registerRestored :: "Net \<Rightarrow> cref \<Rightarrow> (Client, unit) call" where
  "registerRestored N c = bindS (chan c) (\<lambda>ch.
     bindS (registry_Put (ch_ID ch) c) (\<lambda>ok.
     if ok then returnS () else ignoreS (Channel_Close N c)))"

primrec restoreAll ::
    "nat \<Rightarrow> 'b channel_backend_scheme \<Rightarrow> Net \<Rightarrow> (address \<Rightarrow> account res) \<Rightarrow> (ID \<times> pchannel) list \<Rightarrow> pchannel list \<Rightarrow>
     (ID \<Rightarrow> cref option) \<Rightarrow> (Client, unit) call" where
  "restoreAll fuel B N unlock db [] chans = returnS ()"
| "restoreAll fuel B N unlock db (pch # rest) chans =
     bindS (reconstructChannel fuel B unlock db pch chans) (\<lambda>(c, chans').
     bindS (registerRestored N c) (\<lambda>_. restoreAll fuel B N unlock db rest chans'))"

definition restoreChannelCollection ::
    "'b channel_backend_scheme \<Rightarrow> Net \<Rightarrow> (address \<Rightarrow> account res) \<Rightarrow> (ID \<times> pchannel) list \<Rightarrow> (Client, unit) call" where
  "restoreChannelCollection B N unlock db =
     restoreAll (Suc (length db)) B N unlock db (map snd db) Map.empty"

text \<open>The map of the stored channels: a later one with the same identifier replaces an earlier one.\<close>

definition collect :: "pchannel list \<Rightarrow> (ID \<times> pchannel) list res" where
  "collect chs = foldR (\<lambda>pch db. bindR (pc_ID pch) (\<lambda>i. OK ((i, pch) # filter (\<lambda>(j, _). j \<noteq> i) db))) chs []"

definition restorePeerChannels ::
    "'b channel_backend_scheme \<Rightarrow> Net \<Rightarrow> (address \<Rightarrow> account res) \<Rightarrow> address \<Rightarrow> (Client, unit) call" where
  "restorePeerChannels B N unlock p =
     bindS (getS (\<lambda>cl. with_msg ''restoring channels for peer: %v'' (RestorePeer B (cl_db cl) p))) (\<lambda>it.
     bindS (liftS (restoreLoop B it)) (\<lambda>(chs, last).
     bindS (liftS (ci_Close last)) (\<lambda>_.
     bindS (liftS (collect chs)) (\<lambda>db.
     restoreChannelCollection B N unlock db))))"

text \<open>An error group runs the peers in parallel and reports the first error.\<close>

primrec restorePeers ::
    "'b channel_backend_scheme \<Rightarrow> Net \<Rightarrow> (address \<Rightarrow> account res) \<Rightarrow> address list \<Rightarrow> (Client, unit) call" where
  "restorePeers B N unlock [] = returnS ()"
| "restorePeers B N unlock (p # ps) = (\<lambda>cl.
     if p = cl_address cl then restorePeers B N unlock ps cl
     else case restorePeerChannels B N unlock p cl of
       (cl', OK _) \<Rightarrow> restorePeers B N unlock ps cl'
     | (cl', Err e) \<Rightarrow> (case restorePeers B N unlock ps cl' of (cl'', Panic s) \<Rightarrow> (cl'', Panic s) | (cl'', _) \<Rightarrow> (cl'', Err e))
     | (cl', Panic s) \<Rightarrow> (cl', Panic s))"

definition Client_Restore ::
    "'b channel_backend_scheme \<Rightarrow> Net \<Rightarrow> (address \<Rightarrow> account res) \<Rightarrow> (Client, unit) call" where
  "Client_Restore B N unlock =
     bindS (getS (\<lambda>cl. with_msg ''restoring active peers'' (ActivePeers B (cl_db cl)))) (\<lambda>ps.
     restorePeers B N unlock ps)"

section \<open>The depth of the reconstruction\<close>

definition ancestor :: "(ID \<times> pchannel) list \<Rightarrow> pchannel \<Rightarrow> pchannel option" where
  "ancestor db pch = Option.bind (pc_Parent pch) (map_of db)"

text \<open>The \<open>n\<close>-th ancestor of a stored channel.\<close>

primrec ancestors :: "(ID \<times> pchannel) list \<Rightarrow> pchannel \<Rightarrow> nat \<Rightarrow> pchannel option" where
  "ancestors db pch 0 = Some pch"
| "ancestors db pch (Suc n) = Option.bind (ancestors db pch n) (ancestor db)"

lemma ancestors_add: "ancestors db pch (m + n) = Option.bind (ancestors db pch m) (\<lambda>p. ancestors db p n)"
  by (induction n) (cases "ancestors db pch m", simp_all)

lemma ancestors_none_mono: "ancestors db pch n = None \<Longrightarrow> n \<le> m \<Longrightarrow> ancestors db pch m = None"
  using ancestors_add [of db pch n "m - n"] by simp

lemma ancestors_stored: "ancestors db pch (Suc n) = Some p \<Longrightarrow> p \<in> ran (map_of db)"
  by (auto simp: ancestor_def bind_eq_Some_conv ran_def)

text \<open>A chain of parents that ends has at most as many members as there are stored channels.\<close>

lemma ancestors_bound:
  assumes "ancestors db pch n = None"
  shows "ancestors db pch (Suc (length db)) = None"
proof (rule ccontr)
  let ?k = "Suc (length db)"
  assume some: "ancestors db pch ?k \<noteq> None"
  have some_le: "ancestors db pch m \<noteq> None" if "m \<le> ?k" for m
    using ancestors_none_mono [of db pch m ?k] some that by blast
  let ?f = "\<lambda>m. the (ancestors db pch (Suc m))"
  have sub: "?f ` {..length db} \<subseteq> set (map snd db)"
  proof
    fix p assume "p \<in> ?f ` {..length db}"
    then obtain m where m: "m \<le> length db" "p = ?f m"
      by blast
    moreover obtain q where "ancestors db pch (Suc m) = Some q"
      using some_le [of "Suc m"] m(1) by auto
    ultimately have "p \<in> ran (map_of db)"
      using ancestors_stored [of db pch m] by simp
    then show "p \<in> set (map snd db)"
      using map_of_SomeD [of db] by (force simp: ran_def)
  qed
  have "card (?f ` {..length db}) \<le> card (set (map snd db))"
    by (rule card_mono [OF finite_set sub])
  also have "\<dots> \<le> length db"
    using card_length [of "map snd db"] by simp
  also have "\<dots> < card {..length db}"
    by simp
  finally have "card (?f ` {..length db}) < card {..length db}" .
  then have "\<not> inj_on ?f {..length db}"
    using pigeonhole by blast
  then obtain x y where xy: "x \<le> length db" "y \<le> length db" "?f x = ?f y" "x \<noteq> y"
    unfolding inj_on_def by blast
  define a b where "a = min x y" and "b = max x y"
  have ab: "a < b" "b \<le> length db" "?f a = ?f b"
    using xy by (auto simp: a_def b_def min_def max_def)
  have eq: "ancestors db pch (Suc a) = ancestors db pch (Suc b)"
    using ab some_le [of "Suc a"] some_le [of "Suc b"] by force
  define d where "d = b - a"
  have "ancestors db pch (Suc a + i * d) = ancestors db pch (Suc a)" for i
  proof (induction i)
    case (Suc i)
    have "ancestors db pch (Suc a + Suc i * d) = Option.bind (ancestors db pch (Suc a + i * d)) (\<lambda>p. ancestors db p d)"
      using ancestors_add [of db pch "Suc a + i * d" d] by (simp add: algebra_simps)
    also have "\<dots> = Option.bind (ancestors db pch (Suc a)) (\<lambda>p. ancestors db p d)"
      by (simp only: Suc.IH)
    also have "\<dots> = ancestors db pch (Suc b)"
      using ancestors_add [of db pch "Suc a" d] ab(1) by (simp add: d_def)
    finally show ?case
      by (simp only: eq)
  qed simp
  moreover have "ancestors db pch (Suc a + n * d) = None"
  proof (rule ancestors_none_mono [OF assms])
    show "n \<le> Suc a + n * d"
      using ab(1) by (cases d) (simp_all add: d_def)
  qed
  ultimately show False
    using some_le [of "Suc a"] ab by simp
qed

text \<open>Beyond the length of the chain the bound on the depth does not matter.\<close>

lemma reconstruct_fuel:
  assumes "ancestors db pch n = None" "n \<le> f" "n \<le> g"
  shows "reconstructChannel f B unlock db pch chans = reconstructChannel g B unlock db pch chans"
  using assms
proof (induction n arbitrary: pch f g chans)
  case (Suc n)
  obtain f' g' where fg: "f = Suc f'" "g = Suc g'" "n \<le> f'" "n \<le> g'"
    using Suc.prems(2,3) by (metis Suc_le_D Suc_le_mono)
  have "reconstructChannel f' B unlock db p chans = reconstructChannel g' B unlock db p chans"
    if "pc_Parent pch = Some j" "map_of db j = Some p" for j p
  proof (rule Suc.IH [OF _ fg(3,4)])
    have "ancestors db pch 1 = Some p"
      using that by (simp add: ancestor_def)
    with Suc.prems(1) ancestors_add [of db pch 1 n] show "ancestors db p n = None"
      by simp
  qed
  then have "bindS (liftS (deref (map_of db j))) (\<lambda>p. bindS (reconstructChannel f' B unlock db p chans) (\<lambda>(c, chans'). returnS (Some c, chans'))) =
      bindS (liftS (deref (map_of db j))) (\<lambda>p. bindS (reconstructChannel g' B unlock db p chans) (\<lambda>(c, chans'). returnS (Some c, chans')))"
    if "pc_Parent pch = Some j" for j
    using that by (cases "map_of db j") (simp_all add: bindS_def liftS_def deref_def fun_eq_iff)
  then have "(case pc_Parent pch of None \<Rightarrow> returnS (None, chans)
      | Some j \<Rightarrow> bindS (liftS (deref (map_of db j))) (\<lambda>p. bindS (reconstructChannel f' B unlock db p chans) (\<lambda>(c, chans'). returnS (Some c, chans')))) =
      (case pc_Parent pch of None \<Rightarrow> returnS (None, chans)
      | Some j \<Rightarrow> bindS (liftS (deref (map_of db j))) (\<lambda>p. bindS (reconstructChannel g' B unlock db p chans) (\<lambda>(c, chans'). returnS (Some c, chans'))))"
    by (simp split: option.split)
  then show ?case
    by (simp only: fg reconstructChannel.simps)
qed simp

lemma restoreAll_fuel:
  assumes "\<And>pch. pch \<in> set pchs \<Longrightarrow> \<exists>n. ancestors db pch n = None" "length db < f" "length db < g"
  shows "restoreAll f B N unlock db pchs chans = restoreAll g B N unlock db pchs chans"
  using assms(1)
proof (induction pchs arbitrary: chans)
  case (Cons pch pchs)
  obtain n where "ancestors db pch n = None"
    using Cons.prems [of pch] by auto
  then have "reconstructChannel f B unlock db pch chans = reconstructChannel g B unlock db pch chans"
    using assms(2,3) by (intro reconstruct_fuel [OF ancestors_bound]) simp_all
  with Cons show ?case
    by simp
qed simp

text \<open>A chain of parents that does not end: no depth is enough.\<close>

lemma reconstruct_cyclic:
  assumes "\<And>n. ancestors db pch n \<noteq> None"
  shows "is_Panic (snd (reconstructChannel f B unlock db pch Map.empty cl))"
  using assms
proof (induction f arbitrary: pch cl)
  case (Suc f)
  obtain p where "ancestors db pch 1 = Some p"
    using Suc.prems [of 1] by blast
  then obtain j where j: "pc_Parent pch = Some j" "map_of db j = Some p"
    by (auto simp: ancestor_def bind_eq_Some_conv)
  have "ancestors db p n \<noteq> None" for n
    using Suc.prems [of "1 + n"] ancestors_add [of db pch 1 n] \<open>ancestors db pch 1 = Some p\<close> by simp
  then have "is_Panic (snd (reconstructChannel f B unlock db p Map.empty cl))"
    by (rule Suc.IH)
  then show ?case
    using j by (cases "pc_Params pch"; cases "reconstructChannel f B unlock db p Map.empty cl")
      (auto simp: pc_ID_def bindS_def liftS_def deref_def is_Panic_def split: res.splits)
qed (simp add: liftS_def)

end
