(* ===== verification/Perun_Handle.thy ===== *)
theory Perun_Handle
  imports Perun_Opening Perun_Sync
begin

text \<open>
  The client as a whole (\<open>client/client.go\<close>, \<open>client/clientconn.go\<close>): its creation and its end, the
  messages that count as requests, and the loop \<open>Handle\<close> that passes each request to its handler.

  In the program every request is handled by a goroutine of its own.  The handlers of a channel hold
  its lock, so here they run one after the other, in the order of the requests.  A panic in a goroutine
  ends the program: the rest of the requests is not handled then.
\<close>

text \<open>What the user and the environment decide: the two handlers that are passed to \<open>Handle\<close>, the
  wallet and funder of the client, which intercepted updates are awaited, and what happens while a
  watcher waits.\<close>

record Handlers =
  hd_env :: OpenEnv
  hd_proposal :: "ChannelProposal \<Rightarrow> proposal_decision"
  hd_update :: "State option \<Rightarrow> msgChannelUpdate \<Rightarrow> decision"
  hd_awaited :: "InterceptorKind \<Rightarrow> ID \<Rightarrow> bool"
  hd_wait :: "(Client, unit) call"

text \<open>A new client with persistence enabled; \<open>subscribed\<close> is the outcome of subscribing on the bus.\<close>

definition New :: "address \<Rightarrow> memdb \<Rightarrow> unit res \<Rightarrow> Client res" where
  "New address db subscribed =
     bindR (with_msg ''setting up client connection'' (with_msg ''subscribing client on bus'' subscribed)) (\<lambda>_.
     OK \<lparr>cl_address = address, cl_db = db, cl_heap = Map.empty, cl_values = [], cl_handler = False, cl_new = [],
         cl_enabled = 0, cl_cache = [], cl_sent = [], cl_usage = (\<lambda>_. 0), cl_next = 0, cl_closed = False,
         cl_fundingW = [], cl_settlementW = [], cl_chain = []\<rparr>)"

definition OnNewChannel :: "(Client, unit) call" where
  "OnNewChannel = modifyS (\<lambda>cl. cl\<lparr>cl_handler := True\<rparr>)"

text \<open>\<open>cached\<close> is the number of messages in the cache of the client's relay, whose closing fails if
  there are any.\<close>

definition Client_Close :: "Net \<Rightarrow> nat \<Rightarrow> (Client, unit) call" where
  "Client_Close N cached =
     bindS (getS (\<lambda>cl. err_if (cl_closed cl) (ErrNew ''Closer already closed''))) (\<lambda>_.
     bindS (modifyS (\<lambda>cl. cl\<lparr>cl_closed := True\<rparr>)) (\<lambda>_ cl.
     case registry_CloseAll N cl of
       (cl', OK _) \<Rightarrow> (cl', with_msg ''closing channel connection''
         (err_if (cached \<noteq> 0) (ErrNew ''cache was not empty (%d)'')))
     | (cl', r) \<Rightarrow> (cl', with_msg ''closing channels'' r)))"

definition isReqMsg :: "Msg \<Rightarrow> bool" where
  "isReqMsg m \<longleftrightarrow> msg_Type m \<in> {4, 6, 8, 12, 13, 11, 16}"

definition dispatch :: "'b channel_backend_scheme \<Rightarrow> Net \<Rightarrow> Handlers \<Rightarrow> Envelope \<Rightarrow> (Client, outcome) call" where
  "dispatch B N H env =
     (let onUpdate = handleChannelUpdate B N (hd_update H) (hd_awaited H) (hd_wait H);
          onProposal = (\<lambda>req. bindS (handleChannelProposal B N (hd_env H) onUpdate (hd_proposal H) (env_Sender env) req)
            (\<lambda>_. returnS Finished))
      in case env_Msg env of
        MLedgerProposal msg \<Rightarrow> onProposal (LedgerProposal msg)
      | MSubProposal msg \<Rightarrow> onProposal (SubProposal msg)
      | MVirtualProposal msg \<Rightarrow> onProposal (VirtualProposal msg)
      | MUpdate msg \<Rightarrow> onUpdate (env_Sender env) (UpdateProposal msg)
      | MVirtualFunding msg \<Rightarrow> onUpdate (env_Sender env) (FundingProposal msg)
      | MVirtualSettlement msg \<Rightarrow> onUpdate (env_Sender env) (SettlementProposal msg)
      | MSync msg \<Rightarrow> bindS (handleSyncMsg B N (env_Sender env) msg) (\<lambda>_. returnS Finished)
      | _ \<Rightarrow> returnS Finished)"

definition Handle :: "'b channel_backend_scheme \<Rightarrow> Net \<Rightarrow> Handlers \<Rightarrow> Envelope list \<Rightarrow> (Client, unit) call" where
  "Handle B N H envs = forEachS (\<lambda>env. ignoreS (dispatch B N H env)) (filter (\<lambda>env. isReqMsg (env_Msg env)) envs)"

end
