(* ===== verification/Perun_Protocol.thy ===== *)
theory Perun_Protocol
  imports Perun_Handle
begin

text \<open>
  Two clients that update a channel: what the handlers of \<open>client/update.go\<close> do together.  The
  messages one side publishes are delivered to the other; an update that is accepted leaves both
  sides with the same fully signed transaction, one that is rejected leaves both as they were, and
  when the acceptance is lost the proposer keeps the old state while the other side has the new one.
\<close>

unbundle bit_operations_syntax

section \<open>Evaluation of calls\<close>

named_theorems call_simps \<open>evaluation of calls of the client\<close>

lemma bindS_simps [call_simps]:
  "bindS (returnS x) f s = f x s"
  "bindS (liftS (OK x)) f s = f x s"
  "bindS (liftS (Err e)) f s = (s, Err e)"
  "bindS (liftS (Panic p)) f s = (s, Panic p)"
  "bindS (getS g) f s = bindS (liftS (g s)) f s"
  by (auto simp: bindS_def returnS_def liftS_def getS_def split: res.splits)

lemma bindS_modify [call_simps]: "bindS (modifyS g) f s = f () (g s)"
  by (simp add: bindS_def modifyS_def)

lemma bindS_assoc [call_simps]: "bindS (bindS c f) h s = bindS c (\<lambda>x. bindS (f x) h) s"
  by (auto simp: bindS_def split: prod.splits res.splits)

lemma bindS_cases [call_simps]:
  "c s = (s', OK x) \<Longrightarrow> bindS c f s = f x s'"
  "c s = (s', Err e) \<Longrightarrow> bindS c f s = (s', Err e)"
  "c s = (s', Panic p) \<Longrightarrow> bindS c f s = (s', Panic p)"
  by (simp_all add: bindS_def)

lemma call_base [call_simps]:
  "returnS x s = (s, OK x)" "liftS r s = (s, r)" "getS g s = (s, g s)" "modifyS h s = (h s, OK ())"
  by (simp_all add: returnS_def liftS_def getS_def modifyS_def)

lemma msgS_simps [call_simps]:
  "c s = (s', r) \<Longrightarrow> msgS m c s = (s', with_msg m r)"
  by (simp add: msgS_def)

lemma deferS_simps [call_simps]:
  "c s = (s', OK x) \<Longrightarrow> deferS c h s = (s', OK x)"
  "c s = (s', Err e) \<Longrightarrow> deferS c h s = bindS (h e) (\<lambda>e'. liftS (Err e')) s'"
  "c s = (s', Panic p) \<Longrightarrow> deferS c h s = (s', Panic p)"
  by (simp_all add: deferS_def)

lemma deferS_bind: "c s = (s', OK x) \<Longrightarrow> deferS (bindS c f) h s = deferS (f x) h s'"
  by (simp add: deferS_def bindS_def)

lemma ignoreS_simps [call_simps]:
  "c s = (s', OK x) \<Longrightarrow> ignoreS c s = (s', OK ())"
  "c s = (s', Err e) \<Longrightarrow> ignoreS c s = (s', OK ())"
  "c s = (s', Panic p) \<Longrightarrow> ignoreS c s = (s', Panic p)"
  by (simp_all add: ignoreS_def)

text \<open>A client in which the channel \<open>c\<close> has the machine \<open>m\<close>, the database is \<open>d\<close> and the messages
  \<open>es\<close> have been published.\<close>

definition upd :: "cref \<Rightarrow> Channel \<Rightarrow> Client \<Rightarrow> StateMachine \<Rightarrow> memdb \<Rightarrow> Envelope list \<Rightarrow> Client" where
  "upd c ch cl m d es = cl\<lparr>cl_heap := (cl_heap cl)(c := Some (ch\<lparr>ch_machine := m\<rparr>)), cl_db := d,
     cl_sent := cl_sent cl @ es\<rparr>"

lemma upd_self: "cl_heap cl c = Some ch \<Longrightarrow> cl = upd c ch cl (ch_machine ch) (cl_db cl) []"
  by (simp add: upd_def fun_upd_idem)

lemma upd_simps [simp]:
  "cl_heap (upd c ch cl m d es) c = Some (ch\<lparr>ch_machine := m\<rparr>)"
  "cl_sent (upd c ch cl m d es) = cl_sent cl @ es" "cl_db (upd c ch cl m d es) = d"
  "cl_values (upd c ch cl m d es) = cl_values cl" "cl_address (upd c ch cl m d es) = cl_address cl"
  "cl_closed (upd c ch cl m d es) = cl_closed cl"
  by (simp_all add: upd_def)

lemma chan_upd [call_simps]: "chan c (upd c ch cl m d es) = (upd c ch cl m d es, OK (ch\<lparr>ch_machine := m\<rparr>))"
  by (simp add: chan_def call_simps)

lemma bind_chan_upd [call_simps]:
  "bindS (chan c) f (upd c ch cl m d es) = f (ch\<lparr>ch_machine := m\<rparr>) (upd c ch cl m d es)"
  by (simp add: bindS_def chan_def getS_def)

lemma on_machine_upd [call_simps]:
  "f \<lparr>psm_machine = m, psm_db = d\<rparr> = (\<lparr>psm_machine = m', psm_db = d'\<rparr>, r) \<Longrightarrow>
   on_machine c f (upd c ch cl m d es) = (upd c ch cl m' d' es, r)"
  by (simp add: on_machine_def bind_chan_upd put_chan_def) (simp add: upd_def)

lemma Publish_upd:
  "Publish N e (upd c ch cl m d es) = (upd c ch cl m d (es @ [e]), net_Publish N (cl_sent cl @ es) e)"
  by (simp add: Publish_def upd_def)

definition two_env :: "Channel \<Rightarrow> Index \<Rightarrow> Msg \<Rightarrow> Envelope" where
  "two_env ch idx msg = \<lparr>env_Sender = ch_peers ch ! unat idx, env_Recipient = ch_peers ch ! (1 - unat idx), env_Msg = msg\<rparr>"

lemma index_two: "i = 0 \<or> i = 1 \<Longrightarrow> unat (i :: Index) = 0 \<or> unat i = 1"
  by auto

lemma conn_Send_upd:
  assumes "length (ch_peers ch) = 2" "m_idx m = 0 \<or> m_idx m = 1"
  shows "conn_Send N c msg (upd c ch cl m d es) =
     (upd c ch cl m d (es @ [two_env ch (m_idx m) msg]),
      with_msg ''publishing message'' (net_Publish N (cl_sent cl @ es) (two_env ch (m_idx m) msg)))"
proof -
  obtain a b where p: "ch_peers ch = [a, b]"
    using assms(1) by (auto simp: numeral_2_eq_2 length_Suc_conv)
  show ?thesis
    using assms(2)
    by (cases "net_Publish N (cl_sent cl @ es) (two_env ch (m_idx m) msg)")
      (auto simp: conn_Send_def call_simps p ch_Idx_def Let_def two_env_def Publish_upd msgS_def)
qed

lemma IndexOfAddr_nth:
  assumes "distinct as" "i < length as"
  shows "IndexOfAddr as (as ! i) = int i"
proof -
  obtain k where "IndexOfAddr as (as ! i) = int k" "k < length as" "as ! k = as ! i"
    using IndexOfAddr_first [of "as ! i" as] assms(2) nth_mem by metis
  with assms show ?thesis
    by (simp add: nth_eq_iff_index_eq)
qed

lemma recv_Next_upd:
  "recv_Next N c v (upd c ch cl m d es) = (upd c ch cl m d es,
     case find (\<lambda>e. isUpdateRes (p_id (m_params m)) v (env_Msg e)) (net_Incoming N (cl_sent cl @ es)) of
       None \<Rightarrow> OK None
     | Some e \<Rightarrow> (let idx = IndexOfAddr (ch_peers ch) (env_Sender e) in
         if idx = -1 then Err (ErrNew ''channel connection received message from unexpected peer %v'')
         else OK (Some (of_int idx, env_Msg e))))"
  by (simp add: recv_Next_def bind_chan_upd getS_def ch_ID_def machine_ID_def cong: option.case_cong)

section \<open>Staging and signing\<close>

text \<open>A machine that collects signatures on a state, and the machine that has enabled it.\<close>

definition staged :: "StateMachine \<Rightarrow> State \<Rightarrow> sig list \<Rightarrow> StateMachine" where
  "staged m s sigs = m\<lparr>m_phase := Signing, m_stagingTX := \<lparr>tx_State = Some s, tx_Sigs = sigs\<rparr>\<rparr>"

definition enabled :: "StateMachine \<Rightarrow> State \<Rightarrow> sig list \<Rightarrow> StateMachine" where
  "enabled m s sigs = m\<lparr>m_phase := (if st_IsFinal s then Final else Acting),
     m_prevTXs := m_prevTXs m @ [m_currentTX m],
     m_currentTX := \<lparr>tx_State = Some s, tx_Sigs = sigs\<rparr>, m_stagingTX := zeroTransaction\<rparr>"

lemma staged_simps [simp]:
  "m_idx (staged m s sigs) = m_idx m" "m_params (staged m s sigs) = m_params m" "m_acc (staged m s sigs) = m_acc m"
  "m_stagingTX (staged m s sigs) = \<lparr>tx_State = Some s, tx_Sigs = sigs\<rparr>"
  "m_currentTX (staged m s sigs) = m_currentTX m" "m_phase (staged m s sigs) = Signing"
  by (simp_all add: staged_def)

text \<open>A machine that waits for an update: acting, with no staged state.\<close>

definition ready :: "StateMachine \<Rightarrow> bool" where
  "ready m \<longleftrightarrow> m_phase m = Acting \<and> m_stagingTX m = zeroTransaction \<and> length (p_Parts (m_params m)) < 2 ^ 16"

lemma Update_staged:
  assumes "ready m" "validTransition B m s actor = OK ()"
  shows "Update B m s actor = OK (staged m s (replicate (length (p_Parts (m_params m))) None))"
proof -
  have "unat (machine_N m) = length (p_Parts (m_params m))"
    using assms(1) by (simp add: machine_N_def ready_def unat_of_nat_u16)
  with assms show ?thesis
    by (simp add: Update_OK_iff staged_def newTransaction_def ready_def)
qed

lemma Sig_staged:
  assumes "unat (m_idx m) < length sigs" "sigs ! unat (m_idx m) = None"
    "cb_Sign B (m_acc m) (m_params m) s = OK sg"
  shows "Sig B (staged m s sigs) = OK (sg, staged m s (sigs[unat (m_idx m) := sg]))"
  using assms by (simp add: Sig_OK_iff signingPhases_def) (simp add: staged_def)

lemma AddSig_staged:
  assumes "unat i < length sigs" "sigs ! unat i = None" "unat i < length (p_Parts (m_params m))"
    "cb_Verify B (p_Parts (m_params m) ! unat i) (m_params m) s sg = OK True"
  shows "AddSig B (staged m s sigs) i sg = OK (staged m s (sigs[unat i := sg]))"
  using assms by (simp add: AddSig_OK_iff signingPhases_def) (simp add: staged_def)

lemma enable_staged:
  assumes "None \<notin> set sigs"
  shows "(if st_IsFinal s then EnableFinal (staged m s sigs) else EnableUpdate (staged m s sigs)) = OK (enabled m s sigs)"
  using assms
  by (auto simp: EnableFinal_def EnableUpdate_def enableStaged_OK_iff validPhaseTransitions_def)
    (simp_all add: staged_def enabled_def)

lemma Discard_staged: "ready m \<Longrightarrow> DiscardUpdate (staged m s sigs) = OK m"
  by (simp add: DiscardUpdate_OK_iff ready_def) (simp add: staged_def)

text \<open>The database holds the machine's channel.\<close>

definition stored :: "'b channel_backend_scheme \<Rightarrow> memdb \<Rightarrow> StateMachine \<Rightarrow> bool" where
  "stored B d m \<longleftrightarrow> (\<exists>ps parent. persisted B d (source_of m) ps parent)"

text \<open>One side of a two-party channel that waits for an update.\<close>

definition side_ready ::
    "'b channel_backend_scheme \<Rightarrow> (address \<Rightarrow> bool) \<Rightarrow> (bytes \<Rightarrow> bool) \<Rightarrow> (asset \<Rightarrow> bool) \<Rightarrow> Client \<Rightarrow> cref \<Rightarrow> Channel \<Rightarrow> bool" where
  "side_ready B wf_addr wf_sig wf_asset cl c ch \<longleftrightarrow> (let m = ch_machine ch in
     cl_heap cl c = Some ch \<and> \<not> ch_closed ch \<and> length (ch_peers ch) = 2 \<and>
     ready m \<and> stored B (cl_db cl) m \<and> source_ok B wf_addr wf_sig wf_asset (source_of m) \<and>
     length (p_Parts (m_params m)) = 2 \<and> (m_idx m = 0 \<or> m_idx m = 1) \<and> p_Parts (m_params m) ! unat (m_idx m) = m_acc m)"

text \<open>The callback of a channel after an update.\<close>

definition notified :: "Channel \<Rightarrow> State \<Rightarrow> Channel" where
  "notified ch s = (if ch_onUpdate ch
     then ch\<lparr>ch_updates := ch_updates ch @ [(ch_State ch, Some s)]\<rparr> else ch)"

text \<open>The signatures on a state, by the participants with the given index.\<close>

definition two_sigs :: "Index \<Rightarrow> sig \<Rightarrow> Index \<Rightarrow> sig \<Rightarrow> sig list" where
  "two_sigs i x j y = (replicate 2 None)[unat i := x, unat j := y]"

lemma two_sigs_swap: "unat i \<noteq> unat j \<Longrightarrow> two_sigs i x j y = two_sigs j y i x"
  by (simp add: two_sigs_def list_update_swap)

lemma other_index:
  assumes "i = 0 \<or> i = (1 :: Index)"
  shows "i XOR 1 = 0 \<or> i XOR 1 = 1" "unat (i XOR 1) = 1 - unat i" "unat (i XOR 1) \<noteq> unat i" "(i XOR 1) XOR 1 = i"
  using assms by auto

text \<open>What the update protocol relies on: the codec of the channel data, and signatures that verify
  and can be encoded.\<close>

locale client_backend = channel_codec B wf_addr wf_sig wf_asset + signing_backend B
  for B :: "'b channel_backend_scheme" and wf_addr :: "address \<Rightarrow> bool"
    and wf_sig :: "bytes \<Rightarrow> bool" and wf_asset :: "asset \<Rightarrow> bool" +
  assumes sign_wf: "cb_Sign B a p s = OK sg \<Longrightarrow> \<exists>x. sg = Some x \<and> wf_sig x \<and> x \<noteq> []"
begin

lemma stored_step:
  assumes "stored B d m" "source_ok B wf_addr wf_sig wf_asset (source_of m')" "exec_op B m x = OK m'"
    "x \<noteq> OpSetWithdrawn" "staging_op x \<Longrightarrow> m_stagingTX m = zeroTransaction"
    "length (tx_Sigs (m_stagingTX m)) \<le> length (p_Parts (m_params m))"
  shows "\<exists>d'. pm_exec B \<lparr>psm_machine = m, psm_db = d\<rparr> x = (\<lparr>psm_machine = m', psm_db = d'\<rparr>, OK ()) \<and> stored B d' m'"
  using pm_exec_persisted [of "\<lparr>psm_machine = m, psm_db = d\<rparr>" _ _ m' x] assms
  by (fastforce simp: stored_def simp del: pm_exec.simps)

text \<open>What is staged can be stored.\<close>

lemma staged_ok:
  assumes "source_ok B wf_addr wf_sig wf_asset (source_of m)" "state_ok B wf_addr wf_asset s"
    "list_all (opt_ok wf_sig) sigs" "Some [] \<notin> set sigs"
  shows "source_ok B wf_addr wf_sig wf_asset (source_of (staged m s sigs))"
  using assms by (simp add: source_ok_def)

lemma enabled_ok:
  assumes "source_ok B wf_addr wf_sig wf_asset (source_of m)" "state_ok B wf_addr wf_asset s"
    "list_all (opt_ok wf_sig) sigs" "int (length sigs) = NumParts (st_Alloc s)"
  shows "source_ok B wf_addr wf_sig wf_asset (source_of (enabled m s sigs))"
  using assms by (simp add: source_ok_def enabled_def tx_ok_def zeroTransaction_def)

text \<open>Signature lists of the protocol: nothing yet, or well-formed signatures.\<close>

definition sigs_ok :: "sig list \<Rightarrow> bool" where
  "sigs_ok sigs \<longleftrightarrow> list_all (opt_ok wf_sig) sigs \<and> Some [] \<notin> set sigs"

lemma sigs_ok_none: "sigs_ok (replicate n None)"
  by (simp add: sigs_ok_def opt_ok_def list_all_iff)

lemma sigs_ok_update:
  assumes "sigs_ok sigs" "wf_sig x" "x \<noteq> []"
  shows "sigs_ok (sigs[i := Some x])"
proof -
  have "set (sigs[i := Some x]) \<subseteq> insert (Some x) (set sigs)"
    by (rule set_update_subset_insert)
  with assms show ?thesis
    by (fastforce simp: sigs_ok_def list_all_iff opt_ok_def)
qed

lemma stage_Update:
  assumes "ready m" "validTransition B m s i = OK ()" "stored B d m"
    "source_ok B wf_addr wf_sig wf_asset (source_of m)" "state_ok B wf_addr wf_asset s"
  defines "m' \<equiv> staged m s (replicate (length (p_Parts (m_params m))) None)"
  shows "\<exists>d'. pm_Update B \<lparr>psm_machine = m, psm_db = d\<rparr> s i = (\<lparr>psm_machine = m', psm_db = d'\<rparr>, OK ()) \<and> stored B d' m'"
proof -
  have "source_ok B wf_addr wf_sig wf_asset (source_of m')"
    unfolding m'_def using assms(4,5) sigs_ok_none by (intro staged_ok) (simp_all add: sigs_ok_def)
  moreover have "exec_op B m (OpUpdate s i) = OK m'"
    using Update_staged [OF assms(1,2)] by (simp add: m'_def)
  ultimately show ?thesis
    using stored_step [OF assms(3), of m' "OpUpdate s i"] assms(1) by (simp add: ready_def zeroTransaction_def)
qed

lemma stage_sigs:
  assumes "stored B d (staged m s sigs)" "source_ok B wf_addr wf_sig wf_asset (source_of m)"
    "state_ok B wf_addr wf_asset s" "sigs_ok sigs" "length sigs = length (p_Parts (m_params m))"
    "unat i < length sigs" "sigs ! unat i = None" "wf_sig x" "x \<noteq> []"
  defines "m' \<equiv> staged m s (sigs[unat i := Some x])"
  shows stage_AddSig: "cb_Verify B (p_Parts (m_params m) ! unat i) (m_params m) s (Some x) = OK True \<Longrightarrow>
      \<exists>d'. pm_AddSig B \<lparr>psm_machine = staged m s sigs, psm_db = d\<rparr> i (Some x) =
        (\<lparr>psm_machine = m', psm_db = d'\<rparr>, OK ()) \<and> stored B d' m'"
    and stage_Sig: "i = m_idx m \<Longrightarrow> cb_Sign B (m_acc m) (m_params m) s = OK (Some x) \<Longrightarrow>
      \<exists>d'. pm_Sig B \<lparr>psm_machine = staged m s sigs, psm_db = d\<rparr> =
        (\<lparr>psm_machine = m', psm_db = d'\<rparr>, OK (Some x)) \<and> stored B d' m'"
proof -
  have ok: "source_ok B wf_addr wf_sig wf_asset (source_of m')"
    unfolding m'_def using assms(2,3) sigs_ok_update [OF assms(4,8,9)]
    by (intro staged_ok) (simp_all add: sigs_ok_def)
  obtain ps parent where p: "persisted B d (source_of (staged m s sigs)) ps parent"
    using assms(1) by (auto simp: stored_def)
  show "\<exists>d'. pm_AddSig B \<lparr>psm_machine = staged m s sigs, psm_db = d\<rparr> i (Some x) =
        (\<lparr>psm_machine = m', psm_db = d'\<rparr>, OK ()) \<and> stored B d' m'"
    if "cb_Verify B (p_Parts (m_params m) ! unat i) (m_params m) s (Some x) = OK True"
    using pm_AddSig_persisted [of "\<lparr>psm_machine = staged m s sigs, psm_db = d\<rparr>" ps parent m' i "Some x"]
      p ok AddSig_staged [of i sigs m B s "Some x"] that assms(5-7)
    by (auto simp: m'_def stored_def)
  show "\<exists>d'. pm_Sig B \<lparr>psm_machine = staged m s sigs, psm_db = d\<rparr> =
        (\<lparr>psm_machine = m', psm_db = d'\<rparr>, OK (Some x)) \<and> stored B d' m'"
    if "i = m_idx m" "cb_Sign B (m_acc m) (m_params m) s = OK (Some x)"
    using pm_Sig_persisted [of "\<lparr>psm_machine = staged m s sigs, psm_db = d\<rparr>" ps parent m' "Some x"]
      p ok Sig_staged [of m sigs B s "Some x"] that assms(5-7)
    by (auto simp: m'_def stored_def)
qed

lemma stage_enable:
  assumes "stored B d (staged m s sigs)" "source_ok B wf_addr wf_sig wf_asset (source_of m)"
    "state_ok B wf_addr wf_asset s" "sigs_ok sigs" "length sigs = length (p_Parts (m_params m))"
    "None \<notin> set sigs" "int (length sigs) = NumParts (st_Alloc s)"
  shows "\<exists>d'. (if st_IsFinal s then pm_EnableFinal B else pm_EnableUpdate B) \<lparr>psm_machine = staged m s sigs, psm_db = d\<rparr> =
     (\<lparr>psm_machine = enabled m s sigs, psm_db = d'\<rparr>, OK ()) \<and> stored B d' (enabled m s sigs)"
proof -
  have ok: "source_ok B wf_addr wf_sig wf_asset (source_of (enabled m s sigs))"
    using assms by (intro enabled_ok) (simp_all add: sigs_ok_def)
  show ?thesis
    using stored_step [OF assms(1) ok, of "if st_IsFinal s then OpEnableFinal else OpEnableUpdate"]
      enable_staged [OF assms(6), of s m] assms(5)
    by (cases "st_IsFinal s") simp_all
qed

lemma stage_discard:
  assumes "stored B d (staged m s sigs)" "source_ok B wf_addr wf_sig wf_asset (source_of m)" "ready m"
    "state_ok B wf_addr wf_asset s" "sigs_ok sigs"
  shows "\<exists>d'. pm_DiscardUpdate B \<lparr>psm_machine = staged m s sigs, psm_db = d\<rparr> = (\<lparr>psm_machine = m, psm_db = d'\<rparr>, OK ())"
proof -
  have ok: "source_ok B wf_addr wf_sig wf_asset (source_of (staged m s sigs))"
    using assms(2,4,5) by (intro staged_ok) (simp_all add: sigs_ok_def)
  have m: "m = (staged m s sigs)\<lparr>m_phase := Acting, m_stagingTX := zeroTransaction\<rparr>"
    using assms(3) by (simp add: staged_def ready_def)
  obtain ps parent where p: "persisted B d (source_of (staged m s sigs)) ps parent"
    using assms(1) by (auto simp: stored_def)
  then show ?thesis
    unfolding pm_DiscardUpdate_def
    using pm_staged_stale [where m = "\<lparr>psm_machine = staged m s sigs, psm_db = d\<rparr>" and peers = ps and parent = parent
        and m' = m and r = "DiscardUpdate (staged m s sigs)" and ph = Acting and t = zeroTransaction] ok m assms(2) Discard_staged [OF assms(3)]
    by fastforce
qed

lemma enableNotify_upd:
  assumes "stored B d (staged m s sigs)" "source_ok B wf_addr wf_sig wf_asset (source_of m)"
    "state_ok B wf_addr wf_asset s" "sigs_ok sigs" "length sigs = length (p_Parts (m_params m))"
    "None \<notin> set sigs" "int (length sigs) = NumParts (st_Alloc s)" "m_currentTX m = m_currentTX (ch_machine ch)"
  shows "\<exists>d'. enableNotifyUpdate B c (upd c ch cl (staged m s sigs) d es) =
     (upd c (notified ch s) cl (enabled m s sigs) d' es, OK ()) \<and> stored B d' (enabled m s sigs)"
proof -
  obtain d' where d': "(if st_IsFinal s then pm_EnableFinal B else pm_EnableUpdate B)
      \<lparr>psm_machine = staged m s sigs, psm_db = d\<rparr> = (\<lparr>psm_machine = enabled m s sigs, psm_db = d'\<rparr>, OK ())"
    "stored B d' (enabled m s sigs)"
    using stage_enable [OF assms(1-7)] by blast
  have on: "on_machine c (if st_IsFinal s then pm_EnableFinal B else pm_EnableUpdate B) (upd c ch cl (staged m s sigs) d es) =
      (upd c ch cl (enabled m s sigs) d' es, OK ())"
    by (rule on_machine_upd) (rule d'(1))
  have "enableNotifyUpdate B c (upd c ch cl (staged m s sigs) d es) = (upd c (notified ch s) cl (enabled m s sigs) d' es, OK ())"
    by (simp add: enableNotifyUpdate_def call_simps on update_chan_def ch_State_def Let_def
        notified_def assms(8)) (auto simp: put_chan_def upd_def intro!: Client.equality)
  with d'(2) show ?thesis by blast
qed

text \<open>The responder's side of an accepted update.\<close>

lemma accept_side:
  fixes ch :: Channel and s :: State
  defines "m \<equiv> ch_machine ch" and "i \<equiv> m_idx (ch_machine ch)" and "j \<equiv> m_idx (ch_machine ch) XOR 1"
  assumes side: "side_ready B wf_addr wf_sig wf_asset cl c ch" "ch_parent ch = None"
    and s: "validTransition B m s j = OK ()" "state_ok B wf_addr wf_asset s" "NumParts (st_Alloc s) = 2"
    and x: "cb_Verify B (p_Parts (m_params m) ! unat j) (m_params m) s (Some x) = OK True" "wf_sig x" "x \<noteq> []"
    and y: "cb_Sign B (m_acc m) (m_params m) s = OK (Some y)"
    and req: "cu_State req = s" "cu_ActorIdx req = j" "mu_Sig req = Some x"
  defines "e \<equiv> two_env ch i (MUpdateAcc \<lparr>ua_ChannelID = ch_ID ch, ua_Version = st_Version s, ua_Sig = Some y\<rparr>)"
  assumes pub: "net_Publish N (cl_sent cl) e = OK ()"
  shows "\<exists>d'. handleUpdateAcc B N c j (UpdateProposal req) cl =
     (upd c (notified ch s) cl (enabled m s (two_sigs j (Some x) i (Some y))) d' [e], OK ()) \<and>
     stored B d' (enabled m s (two_sigs j (Some x) i (Some y)))"
proof -
  note idx = other_index [of i]
  from side have m: "cl_heap cl c = Some ch" "length (ch_peers ch) = 2" "ready m" "stored B (cl_db cl) m"
    "source_ok B wf_addr wf_sig wf_asset (source_of m)" "length (p_Parts (m_params m)) = 2" "i = 0 \<or> i = 1"
    by (simp_all add: side_ready_def Let_def m_def i_def)
  have ij: "unat i < 2" "unat j < 2" "unat j \<noteq> unat i"
    using idx m(7) index_two [OF m(7)] by (auto simp: j_def i_def)
  obtain y' where "Some y = Some y'" "wf_sig y'" "y' \<noteq> []"
    using sign_wf [OF y] by blast
  then have wy: "wf_sig y" "y \<noteq> []" by simp_all
  let ?n = "replicate 2 None :: sig list"
  have n: "sigs_ok ?n" "sigs_ok (?n[unat j := Some x])" "sigs_ok (two_sigs j (Some x) i (Some y))"
    using sigs_ok_none [of 2] x wy by (simp_all add: sigs_ok_update two_sigs_def)
  have none: "?n ! unat j = None" "?n[unat j := Some x] ! unat i = None" "None \<notin> set (two_sigs j (Some x) i (Some y))"
    using ij by (auto simp: two_sigs_def numeral_2_eq_2 less_Suc_eq)
  obtain d1 where d1: "pm_Update B \<lparr>psm_machine = m, psm_db = cl_db cl\<rparr> s j = (\<lparr>psm_machine = staged m s ?n, psm_db = d1\<rparr>, OK ())"
    "stored B d1 (staged m s ?n)"
    using stage_Update [OF m(3) s(1) m(4,5) s(2)] m(6) by auto
  obtain d2 where d2: "pm_AddSig B \<lparr>psm_machine = staged m s ?n, psm_db = d1\<rparr> j (Some x) =
      (\<lparr>psm_machine = staged m s (?n[unat j := Some x]), psm_db = d2\<rparr>, OK ())" "stored B d2 (staged m s (?n[unat j := Some x]))"
    using stage_AddSig [OF d1(2) m(5) s(2) n(1) _ _ none(1) x(2,3)] x(1) m(6) ij by auto
  obtain d3 where d3: "pm_Sig B \<lparr>psm_machine = staged m s (?n[unat j := Some x]), psm_db = d2\<rparr> =
      (\<lparr>psm_machine = staged m s (two_sigs j (Some x) i (Some y)), psm_db = d3\<rparr>, OK (Some y))"
    "stored B d3 (staged m s (two_sigs j (Some x) i (Some y)))"
    using stage_Sig [OF d2(2) m(5) s(2) n(2) _ _ none(2) wy] y m(6) ij by (auto simp: two_sigs_def i_def m_def)
  obtain d4 where d4: "enableNotifyUpdate B c (upd c ch cl (staged m s (two_sigs j (Some x) i (Some y))) d3 [e]) =
      (upd c (notified ch s) cl (enabled m s (two_sigs j (Some x) i (Some y))) d4 [e], OK ())"
    "stored B d4 (enabled m s (two_sigs j (Some x) i (Some y)))"
    using enableNotify_upd [OF d3(2) m(5) s(2) n(3) _ none(3), of ch c cl "[e]"] s(3) m(6)
    by (auto simp: m_def two_sigs_def)
  have start: "cl = upd c ch cl m (cl_db cl) []"
    using upd_self [OF m(1)] by (simp add: m_def)
  have mi: "m_idx m = i"
    by (simp add: m_def i_def)
  have acc: "acceptUpdate B N c j req (upd c ch cl (staged m s ?n) d1 []) =
      (upd c (notified ch s) cl (enabled m s (two_sigs j (Some x) i (Some y))) d4 [e], OK ())"
    using m(2,7) pub d2(1) d3(1) d4(1) side(2)
    by (simp add: acceptUpdate_def call_simps req IsSubChannel_def chan_parent_def ch_ID_def
        machine_ID_def conn_Send_upd e_def mi m_def [symmetric])
  have "handleUpdateAcc B N c j (UpdateProposal req) (upd c ch cl m (cl_db cl) []) =
      (upd c (notified ch s) cl (enabled m s (two_sigs j (Some x) i (Some y))) d4 [e], OK ())"
    using d1(1) by (simp add: handleUpdateAcc_def call_simps req acc)
  with d4(2) start show ?thesis
    by metis
qed

text \<open>The proposer's side up to the point where it waits for the answer.\<close>

lemma propose_side:
  fixes ch :: Channel and s :: State
  defines "m \<equiv> ch_machine ch" and "i \<equiv> m_idx (ch_machine ch)"
  assumes side: "side_ready B wf_addr wf_sig wf_asset cl c ch"
    and s: "validTransition B m s i = OK ()" "state_ok B wf_addr wf_asset s"
    and x: "cb_Sign B (m_acc m) (m_params m) s = OK (Some x)"
  defines "e \<equiv> two_env ch i (MUpdate \<lparr>cu_State = s, cu_ActorIdx = i, mu_Sig = Some x\<rparr>)"
    and "m' \<equiv> staged m s ((replicate 2 None)[unat i := Some x])"
  assumes pub: "net_Publish N (cl_sent cl) e = OK ()"
  shows "\<exists>d'. Channel_update B N c s cl =
       deferS (awaitUpdateRes B N c (st_Version s)) (handleUpdateError B c) (upd c ch cl m' d' [e]) \<and> stored B d' m'"
proof -
  from side have m: "cl_heap cl c = Some ch" "length (ch_peers ch) = 2" "ready m" "stored B (cl_db cl) m"
    "source_ok B wf_addr wf_sig wf_asset (source_of m)" "length (p_Parts (m_params m)) = 2" "i = 0 \<or> i = 1" "\<not> ch_closed ch"
    by (simp_all add: side_ready_def Let_def m_def i_def)
  have mi: "m_idx m = i"
    by (simp add: m_def i_def)
  let ?n = "replicate 2 None :: sig list"
  have i: "unat i < length ?n" "?n ! unat i = None" and len: "length ?n = length (p_Parts (m_params m))"
    using index_two [OF m(7)] m(6) by auto
  obtain x' where "Some x = Some x'" "wf_sig x'" "x' \<noteq> []"
    using sign_wf [OF x] by blast
  then have wx: "wf_sig x" "x \<noteq> []" by simp_all
  obtain d1 where d1: "pm_Update B \<lparr>psm_machine = m, psm_db = cl_db cl\<rparr> s i = (\<lparr>psm_machine = staged m s ?n, psm_db = d1\<rparr>, OK ())"
    "stored B d1 (staged m s ?n)"
    using stage_Update [OF m(3) s(1) m(4,5) s(2)] m(6) by auto
  obtain d2 where d2: "pm_Sig B \<lparr>psm_machine = staged m s ?n, psm_db = d1\<rparr> = (\<lparr>psm_machine = m', psm_db = d2\<rparr>, OK (Some x))"
    "stored B d2 m'"
    using stage_Sig [OF d1(2) m(5) s(2) sigs_ok_none len i wx mi [symmetric] x] by (auto simp: m'_def)
  have m': "m_idx m' = i"
    by (simp add: m'_def mi)
  have on1: "on_machine c (\<lambda>m. pm_Update B m s i) (upd c ch cl m (cl_db cl) []) = (upd c ch cl (staged m s ?n) d1 [], OK ())"
    by (rule on_machine_upd) (rule d1(1))
  have on2: "on_machine c (pm_Sig B) (upd c ch cl (staged m s ?n) d1 []) = (upd c ch cl m' d2 [], OK (Some x))"
    by (rule on_machine_upd) (rule d2(1))
  have "Channel_update B N c s (upd c ch cl m (cl_db cl) []) =
      deferS (awaitUpdateRes B N c (st_Version s)) (handleUpdateError B c) (upd c ch cl m' d2 [e])"
    using m(2,7,8) pub
    by (simp add: Channel_update_def updateGeneric_def bind_chan_upd Let_def makeChannelUpdate_def ch_Idx_def mi m'
        on1 on2 bindS_cases(1) deferS_bind msgS_simps call_base NewUpdateResRecv_def ChannelUpdate.defs msgChannelUpdate.defs conn_Send_upd e_def)
  with d2(2) upd_self [OF m(1)] show ?thesis
    by (metis m_def)
qed

text \<open>The answer arrives, the peer rejects, or nothing arrives in time.\<close>

lemma await_accept:
  fixes ch :: Channel and s :: State
  defines "m \<equiv> ch_machine ch" and "i \<equiv> m_idx (ch_machine ch)" and "j \<equiv> m_idx (ch_machine ch) XOR 1"
  assumes side: "side_ready B wf_addr wf_sig wf_asset cl c ch" "distinct (ch_peers ch)"
    and s: "state_ok B wf_addr wf_asset s" "NumParts (st_Alloc s) = 2"
    and d: "stored B d (staged m s ((replicate 2 None)[unat i := Some x]))" "wf_sig x" "x \<noteq> []"
    and y: "cb_Verify B (p_Parts (m_params m) ! unat j) (m_params m) s (Some y) = OK True" "wf_sig y" "y \<noteq> []"
    and a: "find (\<lambda>e. isUpdateRes (p_id (m_params m)) (st_Version s) (env_Msg e)) (net_Incoming N (cl_sent cl @ es)) = Some e"
      "env_Sender e = ch_peers ch ! unat j" "env_Msg e = MUpdateAcc acc" "ua_Sig acc = Some y"
  shows "\<exists>d'. deferS (awaitUpdateRes B N c (st_Version s)) (handleUpdateError B c)
       (upd c ch cl (staged m s ((replicate 2 None)[unat i := Some x])) d es) =
     (upd c (notified ch s) cl (enabled m s (two_sigs i (Some x) j (Some y))) d' es, OK ()) \<and>
     stored B d' (enabled m s (two_sigs i (Some x) j (Some y)))"
proof -
  from side have m: "length (ch_peers ch) = 2" "source_ok B wf_addr wf_sig wf_asset (source_of m)"
    "length (p_Parts (m_params m)) = 2" "i = 0 \<or> i = 1"
    by (simp_all add: side_ready_def Let_def m_def i_def)
  have j: "unat j < 2" "unat j \<noteq> unat i" "unat i < 2" "j = 0 \<or> j = 1"
    using other_index [OF m(4)] index_two [OF m(4)] by (auto simp: j_def i_def)
  let ?n = "(replicate 2 None)[unat i := Some x]"
  have n: "sigs_ok ?n" "sigs_ok (two_sigs i (Some x) j (Some y))"
    using sigs_ok_none [of 2] d(2,3) y(2,3) by (simp_all add: sigs_ok_update two_sigs_def)
  have none: "length ?n = length (p_Parts (m_params m))" "unat j < length ?n" "?n ! unat j = None"
    "None \<notin> set (two_sigs i (Some x) j (Some y))"
    using j m(3) by (auto simp: two_sigs_def numeral_2_eq_2 less_Suc_eq)
  obtain d1 where d1: "pm_AddSig B \<lparr>psm_machine = staged m s ?n, psm_db = d\<rparr> j (Some y) =
      (\<lparr>psm_machine = staged m s (two_sigs i (Some x) j (Some y)), psm_db = d1\<rparr>, OK ())"
    "stored B d1 (staged m s (two_sigs i (Some x) j (Some y)))"
    using stage_AddSig [OF d(1) m(2) s(1) n(1) none(1-3) y(2,3,1)] by (auto simp: two_sigs_def)
  obtain d2 where d2: "enableNotifyUpdate B c (upd c ch cl (staged m s (two_sigs i (Some x) j (Some y))) d1 es) =
      (upd c (notified ch s) cl (enabled m s (two_sigs i (Some x) j (Some y))) d2 es, OK ())"
    "stored B d2 (enabled m s (two_sigs i (Some x) j (Some y)))"
    using enableNotify_upd [OF d1(2) m(2) s(1) n(2) _ none(4), of ch c cl es] s(2) m(3)
    by (auto simp: m_def two_sigs_def)
  have idx: "IndexOfAddr (ch_peers ch) (env_Sender e) = int (unat j)"
    using side(2) m(1) j(1) a(2) by (simp add: IndexOfAddr_nth)
  have recv: "recv_Next N c (st_Version s) (upd c ch cl (staged m s ?n) d es) =
      (upd c ch cl (staged m s ?n) d es, OK (Some (j, MUpdateAcc acc)))"
    using j(4) by (auto simp: recv_Next_upd a(1,3) idx Let_def)
  have "awaitUpdateRes B N c (st_Version s) (upd c ch cl (staged m s ?n) d es) =
      (upd c (notified ch s) cl (enabled m s (two_sigs i (Some x) j (Some y))) d2 es, OK ())"
    using d1(1) d2(1) by (simp add: awaitUpdateRes_def call_simps recv a(4))
  then show ?thesis
    using d2(2) by (auto simp: call_simps)
qed

lemma await_failed:
  fixes ch :: Channel and s :: State and N :: Net and es :: "Envelope list" and cl :: Client
  defines "m \<equiv> ch_machine ch" and "i \<equiv> m_idx (ch_machine ch)"
  assumes side: "side_ready B wf_addr wf_sig wf_asset cl c ch" "distinct (ch_peers ch)"
    and s: "state_ok B wf_addr wf_asset s"
    and d: "stored B d (staged m s ((replicate 2 None)[unat i := Some x]))" "wf_sig x" "x \<noteq> []"
  defines "answer \<equiv> find (\<lambda>e. isUpdateRes (p_id (m_params m)) (st_Version s) (env_Msg e)) (net_Incoming N (cl_sent cl @ es))"
  shows
    "answer = None \<Longrightarrow> \<exists>d'. deferS (awaitUpdateRes B N c (st_Version s)) (handleUpdateError B c)
       (upd c ch cl (staged m s ((replicate 2 None)[unat i := Some x])) d es) =
       (upd c ch cl m d' es, Err (ErrWithMessage ''context closed'' RequestTimedOutError))"
    "answer = Some e \<Longrightarrow> env_Sender e \<in> set (ch_peers ch) \<Longrightarrow> env_Msg e = MUpdateRej rej \<Longrightarrow>
     \<exists>d'. deferS (awaitUpdateRes B N c (st_Version s)) (handleUpdateError B c)
       (upd c ch cl (staged m s ((replicate 2 None)[unat i := Some x])) d es) =
       (upd c ch cl m d' es, Err (PeerRejectedError ''channel update'' (ur_Reason rej)))"
proof -
  from side have m: "ready m" "source_ok B wf_addr wf_sig wf_asset (source_of m)"
    by (simp_all add: side_ready_def Let_def m_def)
  let ?cl = "upd c ch cl (staged m s ((replicate 2 None)[unat i := Some x])) d es"
  have "sigs_ok ((replicate 2 None)[unat i := Some x])"
    using sigs_ok_none [of 2] d(2,3) by (simp add: sigs_ok_update)
  then obtain d' where d': "pm_DiscardUpdate B \<lparr>psm_machine = staged m s ((replicate 2 None)[unat i := Some x]), psm_db = d\<rparr> =
      (\<lparr>psm_machine = m, psm_db = d'\<rparr>, OK ())"
    using stage_discard [OF d(1) m(2,1) s] by blast
  have on: "on_machine c (pm_DiscardUpdate B) ?cl = (upd c ch cl m d' es, OK ())"
    by (rule on_machine_upd) (rule d')
  have discard: "deferS (awaitUpdateRes B N c (st_Version s)) (handleUpdateError B c) ?cl = (upd c ch cl m d' es, Err err)"
    if "awaitUpdateRes B N c (st_Version s) ?cl = (?cl, Err err)" for err
    using that on by (simp add: call_simps handleUpdateError_def)
  show "\<exists>d'. deferS (awaitUpdateRes B N c (st_Version s)) (handleUpdateError B c) ?cl =
       (upd c ch cl m d' es, Err (ErrWithMessage ''context closed'' RequestTimedOutError))" if "answer = None"
    using discard that unfolding answer_def by (auto simp: awaitUpdateRes_def call_simps recv_Next_upd)
  show "\<exists>d'. deferS (awaitUpdateRes B N c (st_Version s)) (handleUpdateError B c) ?cl =
       (upd c ch cl m d' es, Err (PeerRejectedError ''channel update'' (ur_Reason rej)))"
    if "answer = Some e" "env_Sender e \<in> set (ch_peers ch)" "env_Msg e = MUpdateRej rej"
    using discard that IndexOfAddr_nonneg_iff [of "ch_peers ch" "env_Sender e"] unfolding answer_def
    by (auto simp: awaitUpdateRes_def call_simps recv_Next_upd Let_def)
qed

end

section \<open>Two clients\<close>

text \<open>The messages of a list that are addressed to \<open>a\<close>, and those that a call has published.\<close>

definition deliver :: "address \<Rightarrow> Envelope list \<Rightarrow> Envelope list" where
  "deliver a es = filter (\<lambda>e. env_Recipient e = a) es"

definition sent_by :: "Client \<Rightarrow> Client \<Rightarrow> Envelope list" where
  "sent_by cl cl' = drop (length (cl_sent cl)) (cl_sent cl')"

text \<open>A network that takes every message and delivers none, and one that delivers to \<open>cl\<close> what \<open>peer\<close>
  answers to the messages of \<open>cl\<close>.\<close>

definition silent :: Net where
  "silent = \<lparr>net_Publish = (\<lambda>_ _. OK ()), net_Incoming = (\<lambda>_. []), net_Cached = (\<lambda>_. 0)\<rparr>"

definition linked :: "'b channel_backend_scheme \<Rightarrow> Handlers \<Rightarrow> Client \<Rightarrow> Client \<Rightarrow> Net" where
  "linked B H cl peer = silent\<lparr>net_Incoming := (\<lambda>sent. deliver (cl_address cl)
     (sent_by peer (fst (Handle B silent H (deliver (cl_address peer) (drop (length (cl_sent cl)) sent)) peer))))\<rparr>"

definition machine_at :: "Client \<Rightarrow> cref \<Rightarrow> StateMachine option" where
  "machine_at cl c = map_option ch_machine (cl_heap cl c)"

text \<open>The channel \<open>ch\<close> of \<open>cl\<close> and the channel \<open>ch'\<close> of \<open>peer\<close> are the two ends of a ledger channel
  whose last transaction both have.\<close>

definition paired ::
    "'b channel_backend_scheme \<Rightarrow> (address \<Rightarrow> bool) \<Rightarrow> (bytes \<Rightarrow> bool) \<Rightarrow> (asset \<Rightarrow> bool) \<Rightarrow>
     Client \<Rightarrow> cref \<Rightarrow> Channel \<Rightarrow> Client \<Rightarrow> cref \<Rightarrow> Channel \<Rightarrow> bool" where
  "paired B wf_addr wf_sig wf_asset cl c ch peer c' ch' \<longleftrightarrow>
     side_ready B wf_addr wf_sig wf_asset cl c ch \<and> side_ready B wf_addr wf_sig wf_asset peer c' ch' \<and>
     ch_parent ch' = None \<and> ch_fundings ch' = [] \<and> ch_withdrawals ch' = [] \<and>
     ch_peers ch' = ch_peers ch \<and> distinct (ch_peers ch) \<and>
     m_params (ch_machine ch') = m_params (ch_machine ch) \<and> sm_app (ch_machine ch') = sm_app (ch_machine ch) \<and>
     m_currentTX (ch_machine ch') = m_currentTX (ch_machine ch) \<and>
     ch_Idx ch' = ch_Idx ch XOR 1 \<and>
     cl_address cl = ch_peers ch ! unat (ch_Idx ch) \<and> cl_address peer = ch_peers ch ! unat (ch_Idx ch') \<and>
     registry_Get peer (ch_ID ch') = Some c' \<and> map_option st_ID (ch_State ch) = Some (ch_ID ch)"

lemma validTransition_cong:
  assumes "m_params m' = m_params m" "m_currentTX m' = m_currentTX m" "sm_app m' = sm_app m"
  shows "validTransition B m' s i = validTransition B m s i"
  unfolding validTransition_def machine_validTransition_def machine_N_def assms ..

lemma pairedD:
  assumes "paired B wf_addr wf_sig wf_asset cl c ch peer c' ch'"
  shows "side_ready B wf_addr wf_sig wf_asset cl c ch" "side_ready B wf_addr wf_sig wf_asset peer c' ch'"
    "ch_parent ch' = None" "ch_fundings ch' = []" "ch_withdrawals ch' = []"
    "ch_peers ch' = ch_peers ch" "distinct (ch_peers ch)" "m_params (ch_machine ch') = m_params (ch_machine ch)"
    "m_idx (ch_machine ch') = m_idx (ch_machine ch) XOR 1" "m_idx (ch_machine ch) = m_idx (ch_machine ch') XOR 1"
    "cl_address cl = ch_peers ch ! unat (ch_Idx ch)" "cl_address peer = ch_peers ch ! unat (ch_Idx ch')"
    "registry_Get peer (ch_ID ch') = Some c'" "ch_ID ch' = ch_ID ch" "ch_State ch' = ch_State ch"
    "validTransition B (ch_machine ch') s i = validTransition B (ch_machine ch) s i"
proof -
  have "m_idx (ch_machine ch) = 0 \<or> m_idx (ch_machine ch) = 1"
    using assms by (simp add: paired_def side_ready_def Let_def)
  from other_index(4) [OF this] assms show "m_idx (ch_machine ch) = m_idx (ch_machine ch') XOR 1"
    by (simp add: paired_def ch_Idx_def)
qed (use assms in \<open>auto simp: paired_def ch_Idx_def ch_ID_def ch_State_def machine_ID_def intro!: validTransition_cong\<close>)

text \<open>The request that the proposer sends, and the messages that reach the other side.\<close>

definition request :: "Channel \<Rightarrow> State \<Rightarrow> sig \<Rightarrow> msgChannelUpdate" where
  "request ch s x = \<lparr>cu_State = s, cu_ActorIdx = ch_Idx ch, mu_Sig = x\<rparr>"

lemma deliver_two:
  assumes "ch_Idx ch = 0 \<or> ch_Idx ch = 1" "a = ch_peers ch ! (1 - unat (ch_Idx ch))"
  shows "deliver a [two_env ch (ch_Idx ch) msg] = [two_env ch (ch_Idx ch) msg]"
  using assms by (simp add: deliver_def two_env_def)

lemma validTwoPartyUpdate_peer:
  assumes "validTwoPartyUpdateState ch s = OK ()" "ch_State ch' = ch_State ch" "cu_State up = s" "cu_ActorIdx up = i"
  shows "validTwoPartyUpdate ch' up i = OK ()"
  using assms by (simp add: validTwoPartyUpdateState_def validTwoPartyUpdate_def makeChannelUpdate_def)

text \<open>A request that passes all checks reaches the user's handler.\<close>

lemma Handle_request:
  assumes p: "paired B wf_addr wf_sig wf_asset cl c ch peer c' ch'"
    and s: "validTransition B (ch_machine ch) s (ch_Idx ch) = OK ()" "validTwoPartyUpdateState ch s = OK ()"
    and x: "cb_Verify B (p_Parts (m_params (ch_machine ch)) ! unat (ch_Idx ch)) (m_params (ch_machine ch)) s x = OK True"
  shows "Handle B N H [two_env ch (ch_Idx ch) (MUpdate (request ch s x))] peer =
     ignoreS (HandleUpdate B N \<lparr>re_channel = c', re_pidx = ch_Idx ch, re_req = UpdateProposal (request ch s x), re_called = False\<rparr>
       (hd_update H (ch_State ch) (request ch s x))) peer"
proof -
  note P = pairedD [OF p]
  have heap: "cl_heap peer c' = Some ch'"
    using P(2) by (simp add: side_ready_def Let_def)
  have chan: "chan c' peer = (peer, OK ch')"
    by (simp add: chan_def call_simps heap)
  have idx: "ch_Idx ch' XOR 1 = ch_Idx ch" "ch_Idx ch < 2"
    using P(10) P(1) by (auto simp: ch_Idx_def side_ready_def Let_def)
  have sid: "st_ID s = ch_ID ch'"
    using s(1) P(14) by (simp add: validTransition_OK_iff machine_validTransition_OK_iff ch_ID_def machine_ID_def)
  have "unat (ch_Idx ch) < length (p_Parts (m_params (ch_machine ch')))"
    using P(1,8) by (auto simp: side_ready_def Let_def ch_Idx_def)
  then have check: "CheckUpdate B (ch_machine ch') s (ch_Idx ch) x (ch_Idx ch) = OK ()"
    using s(1) x P(8,16) by (simp add: CheckUpdate_OK_iff)
  have two: "validTwoPartyUpdate ch' (request ch s x) (ch_Idx ch) = OK ()"
    by (rule validTwoPartyUpdate_peer [OF s(2) P(15)]) (simp_all add: request_def)
  let ?user = "HandleUpdate B N \<lparr>re_channel = c', re_pidx = ch_Idx ch, re_req = UpdateProposal (request ch s x), re_called = False\<rparr>
       (hd_update H (ch_State ch) (request ch s x))"
  have "dispatch B N H (two_env ch (ch_Idx ch) (MUpdate (request ch s x))) peer =
      bindS ?user (\<lambda>_. returnS Finished) peer"
    using check two
    by (simp add: dispatch_def two_env_def Let_def handleChannelUpdate_def handleUpdateReq_def request_def call_simps sid
        P(4,5,13,15) chan idx)
  then show ?thesis
    by (cases "?user peer"; cases "snd (?user peer)")
      (auto simp: Handle_def isReqMsg_def two_env_def ignoreS_def bindS_def returnS_def)
qed

lemma two_sigs_all:
  assumes "i = 0 \<or> i = (1 :: Index)" "k < 2"
  shows "two_sigs i x (i XOR 1) y ! k = (if k = unat i then x else y)" "length (two_sigs i x (i XOR 1) y) = 2"
proof -
  have r: "replicate 2 (None :: sig) = [None, None]"
    by (simp add: numeral_2_eq_2)
  consider "k = 0" | "k = 1"
    using assms(2) by linarith
  then show "two_sigs i x (i XOR 1) y ! k = (if k = unat i then x else y)"
    using assms(1) unfolding two_sigs_def r by cases (elim disjE; simp)+
  show "length (two_sigs i x (i XOR 1) y) = 2"
    by (simp add: two_sigs_def)
qed

lemma enabled_simps [simp]:
  "m_currentTX (enabled m s sigs) = \<lparr>tx_State = Some s, tx_Sigs = sigs\<rparr>"
  "m_phase (enabled m s sigs) = (if st_IsFinal s then Final else Acting)"
  "m_params (enabled m s sigs) = m_params m"
  by (simp_all add: enabled_def)

lemma machine_at_upd [simp]: "machine_at (upd c ch cl m d es) c = Some m"
  by (simp add: machine_at_def)

lemma sent_by_upd [simp]: "sent_by cl (upd c ch cl m d es) = es"
  by (simp add: sent_by_def)

lemma deliver_request:
  assumes "paired B wf_addr wf_sig wf_asset cl c ch peer c' ch'"
  shows "deliver (cl_address peer) [two_env ch (ch_Idx ch) msg] = [two_env ch (ch_Idx ch) msg]"
    "deliver (cl_address cl) [two_env ch' (ch_Idx ch') msg] = [two_env ch' (ch_Idx ch') msg]"
proof -
  note P = pairedD [OF assms]
  have i: "m_idx (ch_machine ch) = 0 \<or> m_idx (ch_machine ch) = 1"
    using P(1) by (simp add: side_ready_def Let_def)
  show "deliver (cl_address peer) [two_env ch (ch_Idx ch) msg] = [two_env ch (ch_Idx ch) msg]"
    using deliver_two [of ch "cl_address peer"] i P(9,12) other_index(2) [OF i] by (simp add: ch_Idx_def)
  show "deliver (cl_address cl) [two_env ch' (ch_Idx ch') msg] = [two_env ch' (ch_Idx ch') msg]"
    using P(6,9-11) other_index [OF i] i by (intro deliver_two) (auto simp: ch_Idx_def)
qed

lemma linked_Incoming:
  assumes "Handle B silent H (deliver (cl_address peer) es) peer = (upd c' ch' peer m' d es', r)"
  shows "net_Incoming (linked B H cl peer) (cl_sent cl @ es) = deliver (cl_address cl) es'"
  by (simp add: linked_def assms sent_by_def)

lemma linked_Publish [simp]: "net_Publish (linked B H cl peer) es = (\<lambda>_. OK ())" "net_Publish silent es = (\<lambda>_. OK ())"
  "net_Incoming silent es = []"
  by (simp_all add: linked_def silent_def)

context client_backend
begin

text \<open>The other side of the channel: what it does with a request that its user accepts or rejects.\<close>

lemma responder_accepts:
  assumes p: "paired B wf_addr wf_sig wf_asset cl c ch peer c' ch'"
    and s: "validTransition B (ch_machine ch) s (ch_Idx ch) = OK ()" "validTwoPartyUpdateState ch s = OK ()"
      "state_ok B wf_addr wf_asset s" "NumParts (st_Alloc s) = 2"
    and x: "cb_Sign B (m_acc (ch_machine ch)) (m_params (ch_machine ch)) s = OK (Some x)"
    and y: "cb_Sign B (m_acc (ch_machine ch')) (m_params (ch_machine ch)) s = OK (Some y)"
    and u: "hd_update H (ch_State ch) (request ch s (Some x)) = UserAccept"
    and pub: "net_Publish N (cl_sent peer) = (\<lambda>_. OK ())"
  defines "sigs \<equiv> two_sigs (ch_Idx ch) (Some x) (ch_Idx ch') (Some y)"
    and "e \<equiv> two_env ch' (ch_Idx ch') (MUpdateAcc \<lparr>ua_ChannelID = ch_ID ch, ua_Version = st_Version s, ua_Sig = Some y\<rparr>)"
  shows "\<exists>d. Handle B N H [two_env ch (ch_Idx ch) (MUpdate (request ch s (Some x)))] peer =
     (upd c' (notified ch' s) peer (enabled (ch_machine ch') s sigs) d [e], OK ())"
proof -
  note P = pairedD [OF p]
  have wx: "wf_sig x" "x \<noteq> []"
    using sign_wf [OF x] by auto
  have part: "p_Parts (m_params (ch_machine ch)) ! unat (ch_Idx ch) = m_acc (ch_machine ch)"
    using P(1) by (simp add: side_ready_def Let_def ch_Idx_def)
  then have vx: "cb_Verify B (p_Parts (m_params (ch_machine ch)) ! unat (ch_Idx ch)) (m_params (ch_machine ch)) s (Some x) = OK True"
    using sign_verify [OF x validTransition_valid [OF s(1)]] by simp
  obtain d where d: "handleUpdateAcc B N c' (ch_Idx ch) (UpdateProposal (request ch s (Some x))) peer =
      (upd c' (notified ch' s) peer (enabled (ch_machine ch') s sigs) d [e], OK ())"
    using accept_side [OF P(2,3), of s x y "request ch s (Some x)" N] s vx wx y pub P(8,10,14,16)
    by (auto simp: sigs_def e_def ch_Idx_def request_def)
  show ?thesis
    using d by (auto simp: Handle_request [OF p s(1,2) vx] u HandleUpdate_def responder_Accept_def ignoreS_def)
qed

lemma responder_rejects:
  assumes p: "paired B wf_addr wf_sig wf_asset cl c ch peer c' ch'"
    and s: "validTransition B (ch_machine ch) s (ch_Idx ch) = OK ()" "validTwoPartyUpdateState ch s = OK ()"
    and x: "cb_Sign B (m_acc (ch_machine ch)) (m_params (ch_machine ch)) s = OK (Some x)"
    and u: "hd_update H (ch_State ch) (request ch s (Some x)) = UserReject reason"
    and pub: "net_Publish N (cl_sent peer) = (\<lambda>_. OK ())"
  defines "e \<equiv> two_env ch' (ch_Idx ch') (MUpdateRej \<lparr>ur_ChannelID = ch_ID ch, ur_Version = st_Version s, ur_Reason = reason\<rparr>)"
  shows "Handle B N H [two_env ch (ch_Idx ch) (MUpdate (request ch s (Some x)))] peer =
     (upd c' ch' peer (ch_machine ch') (cl_db peer) [e], OK ())"
proof -
  note P = pairedD [OF p]
  have m: "cl_heap peer c' = Some ch'" "length (ch_peers ch') = 2" "m_idx (ch_machine ch') = 0 \<or> m_idx (ch_machine ch') = 1"
    using P(2) by (simp_all add: side_ready_def Let_def)
  have "p_Parts (m_params (ch_machine ch)) ! unat (ch_Idx ch) = m_acc (ch_machine ch)"
    using P(1) by (simp add: side_ready_def Let_def ch_Idx_def)
  then have vx: "cb_Verify B (p_Parts (m_params (ch_machine ch)) ! unat (ch_Idx ch)) (m_params (ch_machine ch)) s (Some x) = OK True"
    using sign_verify [OF x validTransition_valid [OF s(1)]] by simp
  have "handleUpdateRej N c' (ch_Idx ch) (UpdateProposal (request ch s (Some x))) reason
      (upd c' ch' peer (ch_machine ch') (cl_db peer) []) =
      (upd c' ch' peer (ch_machine ch') (cl_db peer) [e], OK ())"
    using m(2,3) pub P(14)
    by (simp add: handleUpdateRej_def call_simps conn_Send_upd request_def e_def ch_ID_def machine_ID_def ch_Idx_def)
  then show ?thesis
    using upd_self [OF m(1)]
    by (simp add: Handle_request [OF p s(1,2) vx] u HandleUpdate_def responder_Reject_def ignoreS_def)
qed

text \<open>The proposer's call, up to the answer.\<close>

lemma proposer_waits:
  assumes p: "paired B wf_addr wf_sig wf_asset cl c ch peer c' ch'"
    and s: "validTransition B (ch_machine ch) s (ch_Idx ch) = OK ()" "validTwoPartyUpdateState ch s = OK ()"
      "state_ok B wf_addr wf_asset s"
    and x: "cb_Sign B (m_acc (ch_machine ch)) (m_params (ch_machine ch)) s = OK (Some x)"
    and pub: "\<And>es e. net_Publish N es e = OK ()"
  defines "m' \<equiv> staged (ch_machine ch) s ((replicate 2 None)[unat (m_idx (ch_machine ch)) := Some x])"
  shows "\<exists>d'. Channel_Update B N c s cl = deferS (awaitUpdateRes B N c (st_Version s)) (handleUpdateError B c)
       (upd c ch cl m' d' [two_env ch (ch_Idx ch) (MUpdate (request ch s (Some x)))]) \<and> stored B d' m'"
proof -
  note P = pairedD [OF p]
  have "chan c cl = (cl, OK ch)"
    using P(1) by (simp add: chan_def call_simps side_ready_def Let_def)
  then have "Channel_Update B N c s cl = Channel_update B N c s cl"
    using s(2) by (simp add: Channel_Update_def call_simps)
  moreover obtain d' where "Channel_update B N c s cl = deferS (awaitUpdateRes B N c (st_Version s)) (handleUpdateError B c)
       (upd c ch cl m' d' [two_env ch (ch_Idx ch) (MUpdate (request ch s (Some x)))])" "stored B d' m'"
    using propose_side [OF P(1), of s x N] s x pub by (auto simp: request_def ch_Idx_def m'_def)
  ultimately show ?thesis
    by auto
qed

lemma update_accepted:
  assumes p: "paired B wf_addr wf_sig wf_asset cl c ch peer c' ch'"
    and s: "validTransition B (ch_machine ch) s (ch_Idx ch) = OK ()" "validTwoPartyUpdateState ch s = OK ()"
      "state_ok B wf_addr wf_asset s" "NumParts (st_Alloc s) = 2"
    and x: "cb_Sign B (m_acc (ch_machine ch)) (m_params (ch_machine ch)) s = OK (Some x)"
    and y: "cb_Sign B (m_acc (ch_machine ch')) (m_params (ch_machine ch)) s = OK (Some y)"
    and u: "hd_update H (ch_State ch) (request ch s (Some x)) = UserAccept"
  defines "sigs \<equiv> two_sigs (ch_Idx ch) (Some x) (ch_Idx ch') (Some y)"
    and "e \<equiv> two_env ch (ch_Idx ch) (MUpdate (request ch s (Some x)))"
  shows "\<exists>d. Channel_Update B (linked B H cl peer) c s cl =
     (upd c (notified ch s) cl (enabled (ch_machine ch) s sigs) d [e], OK ())"
proof -
  note P = pairedD [OF p]
  have m: "m_idx (ch_machine ch) = 0 \<or> m_idx (ch_machine ch) = 1"
    "p_Parts (m_params (ch_machine ch')) ! unat (ch_Idx ch') = m_acc (ch_machine ch')"
    using P(1,2) by (simp_all add: side_ready_def Let_def ch_Idx_def)
  have wx: "wf_sig x" "x \<noteq> []" "wf_sig y" "y \<noteq> []"
    using sign_wf [OF x] sign_wf [OF y] by auto
  have vy: "cb_Verify B (p_Parts (m_params (ch_machine ch)) ! unat (ch_Idx ch')) (m_params (ch_machine ch)) s (Some y) = OK True"
    using sign_verify [OF y validTransition_valid [OF s(1)]] m(2) P(8) by simp
  have to: "deliver (cl_address peer) [e] = [e]"
    using deliver_two [of ch "cl_address peer"] m(1) P(9,12) other_index(2) [OF m(1)] by (simp add: e_def ch_Idx_def)
  let ?acc = "\<lparr>ua_ChannelID = ch_ID ch, ua_Version = st_Version s, ua_Sig = Some y\<rparr>"
  let ?e = "two_env ch' (ch_Idx ch') (MUpdateAcc ?acc)"
  obtain d where d: "Handle B silent H [e] peer = (upd c' (notified ch' s) peer (enabled (ch_machine ch') s sigs) d [?e], OK ())"
    using responder_accepts [OF p s x y u, of silent] by (auto simp: sigs_def e_def)
  have "deliver (cl_address cl) [?e] = [?e]"
    using P(6,10,11) other_index [of "m_idx (ch_machine ch)"] m(1) P(9)
    by (intro deliver_two) (auto simp: ch_Idx_def)
  then have inc: "net_Incoming (linked B H cl peer) (cl_sent cl @ [e]) = [?e]"
    using linked_Incoming [of B H peer "[e]"] d to by simp
  obtain d' where d': "Channel_Update B (linked B H cl peer) c s cl =
      deferS (awaitUpdateRes B (linked B H cl peer) c (st_Version s)) (handleUpdateError B c)
       (upd c ch cl (staged (ch_machine ch) s ((replicate 2 None)[unat (m_idx (ch_machine ch)) := Some x])) d' [e])"
    "stored B d' (staged (ch_machine ch) s ((replicate 2 None)[unat (m_idx (ch_machine ch)) := Some x]))"
    using proposer_waits [OF p s(1-3) x, of "linked B H cl peer"] by (auto simp: e_def)
  have find: "find (\<lambda>e. isUpdateRes (p_id (m_params (ch_machine ch))) (st_Version s) (env_Msg e))
      (net_Incoming (linked B H cl peer) (cl_sent cl @ [e])) = Some ?e"
    by (simp add: inc isUpdateRes_def two_env_def ch_ID_def machine_ID_def)
  show ?thesis
    using await_accept [OF P(1,7) s(3,4) d'(2) wx(1,2) _ wx(3,4) find, of ?acc] vy P(6,9) d'(1)
    by (auto simp: two_env_def sigs_def ch_Idx_def)
qed

lemma update_rejected:
  assumes p: "paired B wf_addr wf_sig wf_asset cl c ch peer c' ch'"
    and s: "validTransition B (ch_machine ch) s (ch_Idx ch) = OK ()" "validTwoPartyUpdateState ch s = OK ()"
      "state_ok B wf_addr wf_asset s"
    and x: "cb_Sign B (m_acc (ch_machine ch)) (m_params (ch_machine ch)) s = OK (Some x)"
    and u: "hd_update H (ch_State ch) (request ch s (Some x)) = UserReject reason"
  defines "e \<equiv> two_env ch (ch_Idx ch) (MUpdate (request ch s (Some x)))"
  shows "\<exists>d. Channel_Update B (linked B H cl peer) c s cl =
     (upd c ch cl (ch_machine ch) d [e], Err (PeerRejectedError ''channel update'' reason))"
proof -
  note P = pairedD [OF p]
  have m: "m_idx (ch_machine ch) = 0 \<or> m_idx (ch_machine ch) = 1" "length (ch_peers ch) = 2"
    using P(1) by (simp_all add: side_ready_def Let_def)
  have to: "deliver (cl_address peer) [e] = [e]"
    using deliver_two [of ch "cl_address peer"] m(1) P(9,12) other_index(2) [OF m(1)] by (simp add: e_def ch_Idx_def)
  let ?rej = "\<lparr>ur_ChannelID = ch_ID ch, ur_Version = st_Version s, ur_Reason = reason\<rparr>"
  let ?e = "two_env ch' (ch_Idx ch') (MUpdateRej ?rej)"
  have d: "Handle B silent H [e] peer = (upd c' ch' peer (ch_machine ch') (cl_db peer) [?e], OK ())"
    using responder_rejects [OF p s(1,2) x u, of silent] by (simp add: e_def)
  have "deliver (cl_address cl) [?e] = [?e]"
    using P(6,10,11) other_index [of "m_idx (ch_machine ch)"] m(1) P(9)
    by (intro deliver_two) (auto simp: ch_Idx_def)
  then have inc: "net_Incoming (linked B H cl peer) (cl_sent cl @ [e]) = [?e]"
    using linked_Incoming [of B H peer "[e]"] d to by simp
  obtain d' where d': "Channel_Update B (linked B H cl peer) c s cl =
      deferS (awaitUpdateRes B (linked B H cl peer) c (st_Version s)) (handleUpdateError B c)
       (upd c ch cl (staged (ch_machine ch) s ((replicate 2 None)[unat (m_idx (ch_machine ch)) := Some x])) d' [e])"
    "stored B d' (staged (ch_machine ch) s ((replicate 2 None)[unat (m_idx (ch_machine ch)) := Some x]))"
    using proposer_waits [OF p s x, of "linked B H cl peer"] by (auto simp: e_def)
  have "find (\<lambda>e. isUpdateRes (p_id (m_params (ch_machine ch))) (st_Version s) (env_Msg e))
      (net_Incoming (linked B H cl peer) (cl_sent cl @ [e])) = Some ?e"
    by (simp add: inc isUpdateRes_def two_env_def ch_ID_def machine_ID_def)
  moreover have "env_Sender ?e \<in> set (ch_peers ch)"
    using P(6,9) m(2) other_index(2) [OF m(1)] by (simp add: two_env_def ch_Idx_def)
  ultimately show ?thesis
    using await_failed(2) [OF P(1,7) s(3) d'(2), of "linked B H cl peer" "[e]" ?e ?rej] sign_wf [OF x] d'(1)
    by (auto simp: two_env_def)
qed

text \<open>When the acceptance is lost, the proposer gives up and the other side has the new state.\<close>

lemma acceptance_lost:
  assumes p: "paired B wf_addr wf_sig wf_asset cl c ch peer c' ch'"
    and s: "validTransition B (ch_machine ch) s (ch_Idx ch) = OK ()" "validTwoPartyUpdateState ch s = OK ()"
      "state_ok B wf_addr wf_asset s"
    and x: "cb_Sign B (m_acc (ch_machine ch)) (m_params (ch_machine ch)) s = OK (Some x)"
  shows "\<exists>d. Channel_Update B silent c s cl =
     (upd c ch cl (ch_machine ch) d [two_env ch (ch_Idx ch) (MUpdate (request ch s (Some x)))],
      Err (ErrWithMessage ''context closed'' RequestTimedOutError))"
proof -
  note P = pairedD [OF p]
  let ?e = "two_env ch (ch_Idx ch) (MUpdate (request ch s (Some x)))"
  obtain d' where d': "Channel_Update B silent c s cl =
      deferS (awaitUpdateRes B silent c (st_Version s)) (handleUpdateError B c)
       (upd c ch cl (staged (ch_machine ch) s ((replicate 2 None)[unat (m_idx (ch_machine ch)) := Some x])) d' [?e])"
    "stored B d' (staged (ch_machine ch) s ((replicate 2 None)[unat (m_idx (ch_machine ch)) := Some x]))"
    using proposer_waits [OF p s x, of silent] by auto
  show ?thesis
    using await_failed(1) [OF P(1,7) s(3) d'(2), of silent "[?e]"] sign_wf [OF x] d'(1) by auto
qed

lemma sigs_verify_two:
  assumes p: "paired B wf_addr wf_sig wf_asset cl c ch peer c' ch'"
    and x: "cb_Sign B (m_acc (ch_machine ch)) (m_params (ch_machine ch)) s = OK x"
    and y: "cb_Sign B (m_acc (ch_machine ch')) (m_params (ch_machine ch)) s = OK y"
    and v: "valid_alloc (st_Alloc s)"
  defines "sigs \<equiv> two_sigs (ch_Idx ch) x (ch_Idx ch') y"
  shows "length sigs = length (p_Parts (m_params (ch_machine ch)))"
    "i < length sigs \<Longrightarrow> cb_Verify B (p_Parts (m_params (ch_machine ch)) ! i) (m_params (ch_machine ch)) s (sigs ! i) = OK True"
proof -
  note P = pairedD [OF p]
  have m: "m_idx (ch_machine ch) = 0 \<or> m_idx (ch_machine ch) = 1" "length (p_Parts (m_params (ch_machine ch))) = 2"
    "p_Parts (m_params (ch_machine ch)) ! unat (m_idx (ch_machine ch)) = m_acc (ch_machine ch)"
    "p_Parts (m_params (ch_machine ch)) ! unat (m_idx (ch_machine ch) XOR 1) = m_acc (ch_machine ch')"
    using P(1,2,8,9) by (simp_all add: side_ready_def Let_def)
  have sigs: "sigs = two_sigs (m_idx (ch_machine ch)) x (m_idx (ch_machine ch) XOR 1) y"
    using P(9) by (simp add: sigs_def ch_Idx_def)
  show len: "length sigs = length (p_Parts (m_params (ch_machine ch)))"
    using two_sigs_all(2) [OF m(1), of 0] m(2) by (simp add: sigs)
  show "cb_Verify B (p_Parts (m_params (ch_machine ch)) ! i) (m_params (ch_machine ch)) s (sigs ! i) = OK True"
    if "i < length sigs"
  proof (cases "i = unat (m_idx (ch_machine ch))")
    case True
    with sign_verify [OF x v] m two_sigs_all(1) [OF m(1), of i] that len show ?thesis
      by (simp add: sigs)
  next
    case False
    then have "i = unat (m_idx (ch_machine ch) XOR 1)"
      using other_index(2) [OF m(1)] that len m(1,2) by auto
    with False sign_verify [OF y v] m two_sigs_all(1) [OF m(1), of i] that len show ?thesis
      by (simp add: sigs)
  qed
qed

lemma update_agreement:
  assumes p: "paired B wf_addr wf_sig wf_asset cl c ch peer c' ch'"
    and s: "validTransition B (ch_machine ch) s (ch_Idx ch) = OK ()" "validTwoPartyUpdateState ch s = OK ()"
      "state_ok B wf_addr wf_asset s" "NumParts (st_Alloc s) = 2"
    and x: "cb_Sign B (m_acc (ch_machine ch)) (m_params (ch_machine ch)) s = OK x"
    and y: "cb_Sign B (m_acc (ch_machine ch')) (m_params (ch_machine ch)) s = OK y"
    and u: "hd_update H (ch_State ch) (request ch s x) = UserAccept"
  shows "\<exists>cl1 peer1 m m' sigs. Channel_Update B (linked B H cl peer) c s cl = (cl1, OK ()) \<and>
     Handle B silent H (deliver (cl_address peer) (sent_by cl cl1)) peer = (peer1, OK ()) \<and>
     machine_at cl1 c = Some m \<and> machine_at peer1 c' = Some m' \<and>
     m_currentTX m = \<lparr>tx_State = Some s, tx_Sigs = sigs\<rparr> \<and> m_currentTX m' = m_currentTX m \<and>
     length sigs = length (p_Parts (m_params (ch_machine ch))) \<and>
     (\<forall>i < length sigs. cb_Verify B (p_Parts (m_params (ch_machine ch)) ! i) (m_params (ch_machine ch)) s (sigs ! i) = OK True) \<and>
     m_phase m = (if st_IsFinal s then Final else Acting) \<and> m_phase m' = m_phase m"
proof -
  obtain x' y' where xy: "x = Some x'" "y = Some y'"
    using sign_wf [OF x] sign_wf [OF y] by blast
  let ?sigs = "two_sigs (ch_Idx ch) x (ch_Idx ch') y"
  let ?e = "two_env ch (ch_Idx ch) (MUpdate (request ch s x))"
  obtain d where d: "Channel_Update B (linked B H cl peer) c s cl =
      (upd c (notified ch s) cl (enabled (ch_machine ch) s ?sigs) d [?e], OK ())"
    using update_accepted [OF p s x [unfolded xy] y [unfolded xy] u [unfolded xy]] by (auto simp: xy)
  obtain d' es where d': "Handle B silent H [?e] peer =
      (upd c' (notified ch' s) peer (enabled (ch_machine ch') s ?sigs) d' es, OK ())"
    using responder_accepts [OF p s x [unfolded xy] y [unfolded xy] u [unfolded xy], of silent] by (auto simp: xy)
  show ?thesis
    by (intro exI [of _ "upd c (notified ch s) cl (enabled (ch_machine ch) s ?sigs) d [?e]"]
        exI [of _ "upd c' (notified ch' s) peer (enabled (ch_machine ch') s ?sigs) d' es"]
        exI [of _ "enabled (ch_machine ch) s ?sigs"] exI [of _ "enabled (ch_machine ch') s ?sigs"] exI [of _ ?sigs])
      (simp add: d d' deliver_request(1) [OF p] sigs_verify_two [OF p x y validTransition_valid [OF s(1)]])
qed

lemma update_rejection:
  assumes p: "paired B wf_addr wf_sig wf_asset cl c ch peer c' ch'"
    and s: "validTransition B (ch_machine ch) s (ch_Idx ch) = OK ()" "validTwoPartyUpdateState ch s = OK ()"
      "state_ok B wf_addr wf_asset s"
    and x: "cb_Sign B (m_acc (ch_machine ch)) (m_params (ch_machine ch)) s = OK x"
    and u: "hd_update H (ch_State ch) (request ch s x) = UserReject reason"
  shows "\<exists>cl1 peer1. Channel_Update B (linked B H cl peer) c s cl = (cl1, Err (PeerRejectedError ''channel update'' reason)) \<and>
     Handle B silent H (deliver (cl_address peer) (sent_by cl cl1)) peer = (peer1, OK ()) \<and>
     machine_at cl1 c = Some (ch_machine ch) \<and> machine_at peer1 c' = Some (ch_machine ch')"
proof -
  obtain x' where xy: "x = Some x'"
    using sign_wf [OF x] by blast
  let ?e = "two_env ch (ch_Idx ch) (MUpdate (request ch s x))"
  obtain d where d: "Channel_Update B (linked B H cl peer) c s cl =
      (upd c ch cl (ch_machine ch) d [?e], Err (PeerRejectedError ''channel update'' reason))"
    using update_rejected [OF p s x [unfolded xy] u [unfolded xy]] by (auto simp: xy)
  from responder_rejects [OF p s(1,2) x [unfolded xy] u [unfolded xy], of silent] show ?thesis
    by (simp add: d deliver_request(1) [OF p] xy)
qed

end

section \<open>Synchronisation after a lost answer\<close>

context channel_codec
begin

lemma CloneSource_id:
  assumes "params_ok B wf_addr (src_Params s)"
    and "\<And>st. tx_State (src_StagingTX s) = Some st \<or> tx_State (src_CurrentTX s) = Some st \<Longrightarrow> state_ok B wf_addr wf_asset st"
  shows "CloneSource B s = OK s"
proof -
  have "st_Data st \<noteq> NilData" if "state_ok B wf_addr wf_asset st" for st
    using that by (auto simp: state_ok_def data_ok_def split: App.splits)
  then have "Transaction_Clone (src_StagingTX s) = OK (src_StagingTX s)" "Transaction_Clone (src_CurrentTX s) = OK (src_CurrentTX s)"
    using assms(2) by (auto simp: Transaction_Clone_OK_iff)
  moreover have "p_Nonce (src_Params s) \<noteq> None"
    using assms(1) by (auto simp: params_ok_def ValidateParameters_def res_simps split: option.splits)
  ultimately show ?thesis
    using Params_Clone_id [of "src_Params s"] assms(1) by (simp add: CloneSource_def params_ok_def)
qed

text \<open>The peer answers a synchronisation message with its current transaction.\<close>

lemma sync_answer:
  assumes "registry_Get peer i = Some c'" "cl_heap peer c' = Some ch'" "msgChannelSync_ID msg = OK i"
    "source_ok B wf_addr wf_sig wf_asset (source_of (ch_machine ch'))" "m_phase (ch_machine ch') \<noteq> Signing"
  shows "Handle B silent H [\<lparr>env_Sender = a, env_Recipient = r, env_Msg = MSync msg\<rparr>] peer =
     (peer\<lparr>cl_sent := cl_sent peer @ [\<lparr>env_Sender = cl_address peer, env_Recipient = a,
        env_Msg = MSync \<lparr>cs_Phase = m_phase (ch_machine ch'), cs_CurrentTX = m_currentTX (ch_machine ch')\<rparr>\<rparr>]\<rparr>, OK ())"
proof -
  have "CloneSource B (source_of (ch_machine ch')) = OK (source_of (ch_machine ch'))"
    using assms(4) by (intro CloneSource_id) (auto simp: source_ok_def tx_ok_def)
  moreover have "chan c' peer = (peer, OK ch')"
    using assms(2) by (simp add: chan_def call_simps)
  ultimately show ?thesis
    using assms(1,3,5)
    by (simp add: Handle_def isReqMsg_def dispatch_def handleSyncMsg_def call_simps Let_def newChannelSyncMsg_def
        pubMsg_def Publish_def silent_def)
qed

text \<open>A newer transaction that carries valid signatures is taken over.\<close>

lemma merge_newer:
  assumes "pc_Params ch = Some params" "tx_State (pc_CurrentTX ch) = Some own" "tx_State (cs_CurrentTX msg) = Some other"
    "st_ID other = p_id params" "st_Version own < st_Version other" "pc_Phase ch = Acting"
    "length (tx_Sigs (cs_CurrentTX msg)) = length (p_Parts params)"
    "\<And>i. i < length (p_Parts params) \<Longrightarrow> cb_Verify B (p_Parts params ! i) params other (tx_Sigs (cs_CurrentTX msg) ! i) = OK True"
  shows "mergeSync B ch msg = (ch\<lparr>pc_CurrentTX := cs_CurrentTX msg, pc_Phase := Acting\<rparr>, OK ())"
proof -
  have "st_Version other \<noteq> st_Version own"
    using assms(5) by auto
  moreover have "forEach (\<lambda>(part, sig).
      bindR (with_msg ''validating sig %d'' (cb_Verify B part params other sig)) (\<lambda>ok.
      err_if (\<not> ok) (ErrNew ''invalid sig %d''))) (zip (p_Parts params) (tx_Sigs (cs_CurrentTX msg))) = OK ()"
    using assms(7,8) by (auto simp: forEach_OK_iff list_all_iff set_zip)
  ultimately have "validateMessage B ch msg = OK ()"
    using assms(1-5,7) by (simp add: validateMessage_def)
  then show ?thesis
    using assms(2,3,5,6) by (simp add: mergeSync_def revisePhase_def Let_def less_Phase_def less_eq_Phase_def)
qed

text \<open>The whole exchange.\<close>

lemma sync_newer:
  assumes A: "\<not> cl_closed cl" "pc_Params ch = Some params" "pc_Phase ch = Acting" "params_ok B wf_addr params"
      "tx_State (pc_CurrentTX ch) = Some own" "state_ok B wf_addr wf_asset own" "st_ID own = p_id params"
      "tx_State (pc_StagingTX ch) = None"
    and P: "registry_Get peer (p_id params) = Some c'" "cl_heap peer c' = Some ch'" "m_params (ch_machine ch') = params"
      "source_ok B wf_addr wf_sig wf_asset (source_of (ch_machine ch'))" "m_phase (ch_machine ch') \<noteq> Signing"
      "tx_State (m_currentTX (ch_machine ch')) = Some other" "st_ID other = p_id params" "st_Version own < st_Version other"
      "length (tx_Sigs (m_currentTX (ch_machine ch'))) = length (p_Parts params)"
      "\<And>i. i < length (p_Parts params) \<Longrightarrow>
         cb_Verify B (p_Parts params ! i) params other (tx_Sigs (m_currentTX (ch_machine ch')) ! i) = OK True"
  shows "\<exists>cl'. syncChannel B (linked B H cl peer) ch (cl_address peer) cl =
     (cl', ch\<lparr>pc_CurrentTX := m_currentTX (ch_machine ch'), pc_Phase := Acting\<rparr>, OK ())"
proof -
  let ?src = "\<lparr>src_Idx = pc_Idx ch, src_Params = params, src_StagingTX = pc_StagingTX ch,
      src_CurrentTX = pc_CurrentTX ch, src_Phase = pc_Phase ch\<rparr>"
  let ?msg = "\<lparr>cs_Phase = pc_Phase ch, cs_CurrentTX = pc_CurrentTX ch\<rparr>"
  let ?e = "\<lparr>env_Sender = cl_address cl, env_Recipient = cl_address peer, env_Msg = MSync ?msg\<rparr>"
  let ?ans = "\<lparr>cs_Phase = m_phase (ch_machine ch'), cs_CurrentTX = m_currentTX (ch_machine ch')\<rparr>"
  let ?r = "\<lparr>env_Sender = cl_address peer, env_Recipient = cl_address cl, env_Msg = MSync ?ans\<rparr>"
  have src: "bindR (pc_source ch) (CloneSource B) = OK ?src"
    using A(2,4-6,8) CloneSource_id [of ?src] by (simp add: pc_source_def)
  have "msgChannelSync_ID ?msg = OK (p_id params)"
    using A(5,7) by (simp add: msgChannelSync_ID_def)
  from sync_answer [OF P(1,2) this P(4,5)]
  have "Handle B silent H [?e] peer = (peer\<lparr>cl_sent := cl_sent peer @ [?r]\<rparr>, OK ())" .
  then have inc: "net_Incoming (linked B H cl peer) (cl_sent cl @ [?e]) = [?r]"
    by (simp add: linked_def deliver_def sent_by_def)
  have sync: "isSync (p_id params) (MSync ?ans)"
    using P(6,7) by (simp add: isSync_def msgChannelSync_ID_def)
  have "mergeSync B ch ?ans = (ch\<lparr>pc_CurrentTX := m_currentTX (ch_machine ch'), pc_Phase := Acting\<rparr>, OK ())"
    using merge_newer [OF A(2,5), of ?ans] A(3) P(6-10) by simp
  with inc sync show ?thesis
    using A(1) by (simp add: syncChannel_def src pubMsg_def Publish_def newChannelSyncMsg_def)
qed

end

context client_backend
begin

lemma enabled_two_ok:
  assumes p: "paired B wf_addr wf_sig wf_asset cl c ch peer c' ch'"
    and s: "state_ok B wf_addr wf_asset s" "NumParts (st_Alloc s) = 2"
    and x: "cb_Sign B (m_acc (ch_machine ch)) (m_params (ch_machine ch)) s = OK x"
    and y: "cb_Sign B (m_acc (ch_machine ch')) (m_params (ch_machine ch)) s = OK y"
  shows "source_ok B wf_addr wf_sig wf_asset (source_of (enabled (ch_machine ch') s (two_sigs (ch_Idx ch) x (ch_Idx ch') y)))"
proof (rule enabled_ok [OF _ s(1)])
  show "source_ok B wf_addr wf_sig wf_asset (source_of (ch_machine ch'))"
    using pairedD(2) [OF p] by (simp add: side_ready_def Let_def)
  obtain x' y' where xy: "x = Some x'" "y = Some y'" "wf_sig x'" "x' \<noteq> []" "wf_sig y'" "y' \<noteq> []"
    using sign_wf [OF x] sign_wf [OF y] by blast
  then have "sigs_ok (two_sigs (ch_Idx ch) x (ch_Idx ch') y)"
    using sigs_ok_none [of 2] by (simp add: two_sigs_def sigs_ok_update)
  then show "list_all (opt_ok wf_sig) (two_sigs (ch_Idx ch) x (ch_Idx ch') y)"
    by (simp add: sigs_ok_def)
qed (simp add: s(2) two_sigs_def)

lemma lost_answer_recovery:
  assumes p: "paired B wf_addr wf_sig wf_asset cl c ch peer c' ch'" "\<not> cl_closed cl"
    and s: "validTransition B (ch_machine ch) s (ch_Idx ch) = OK ()" "validTwoPartyUpdateState ch s = OK ()"
      "state_ok B wf_addr wf_asset s" "NumParts (st_Alloc s) = 2" "st_Version s \<noteq> 0"
    and x: "cb_Sign B (m_acc (ch_machine ch)) (m_params (ch_machine ch)) s = OK x"
    and y: "cb_Sign B (m_acc (ch_machine ch')) (m_params (ch_machine ch)) s = OK y"
    and u: "hd_update H (ch_State ch) (request ch s x) = UserAccept"
  shows "\<exists>cl1 peer1 m' cl2 pch. Channel_Update B silent c s cl =
       (cl1, Err (ErrWithMessage ''context closed'' RequestTimedOutError)) \<and> machine_at cl1 c = Some (ch_machine ch) \<and>
     Handle B silent H (deliver (cl_address peer) (sent_by cl cl1)) peer = (peer1, OK ()) \<and>
     machine_at peer1 c' = Some m' \<and> tx_State (m_currentTX m') = Some s \<and>
     syncChannel B (linked B H cl1 peer1) (restored (source_of (ch_machine ch)) (ch_peers ch) None) (cl_address peer) cl1 =
       (cl2, pch, OK ()) \<and> pc_CurrentTX pch = m_currentTX m' \<and> pc_Phase pch = Acting"
proof -
  note P = pairedD [OF p(1)]
  obtain x' y' where xy: "x = Some x'" "y = Some y'"
    using sign_wf [OF x] sign_wf [OF y] by blast
  let ?sigs = "two_sigs (ch_Idx ch) x (ch_Idx ch') y"
  let ?m = "enabled (ch_machine ch') s ?sigs"
  let ?e = "two_env ch (ch_Idx ch) (MUpdate (request ch s x))"
  obtain d where d: "Channel_Update B silent c s cl =
      (upd c ch cl (ch_machine ch) d [?e], Err (ErrWithMessage ''context closed'' RequestTimedOutError))"
    using acceptance_lost [OF p(1) s(1-3) x [unfolded xy]] by (auto simp: xy)
  obtain d' es where d': "Handle B silent H [?e] peer = (upd c' (notified ch' s) peer ?m d' es, OK ())"
    using responder_accepts [OF p(1) s(1-4) x [unfolded xy] y [unfolded xy] u [unfolded xy], of silent] by (auto simp: xy)
  let ?cl = "upd c ch cl (ch_machine ch) d [?e]" and ?peer = "upd c' (notified ch' s) peer ?m d' es"
  let ?pch = "restored (source_of (ch_machine ch)) (ch_peers ch) None"
  obtain own where own: "ch_State ch = Some own" "st_ID s = ch_ID ch" "st_Version s = st_Version own + 1"
    using s(1) by (auto simp: validTransition_OK_iff machine_validTransition_OK_iff ch_State_def ch_ID_def machine_ID_def)
  have ready: "m_phase (ch_machine ch) = Acting" "m_stagingTX (ch_machine ch) = zeroTransaction"
    "source_ok B wf_addr wf_sig wf_asset (source_of (ch_machine ch))"
    using P(1) by (simp_all add: side_ready_def ready_def Let_def)
  have "st_ID own = ch_ID ch"
    using p(1) own(1) by (simp add: paired_def)
  moreover have "st_Version own < st_Version s"
    using own(3) s(5) unatSuc [of "st_Version own"] by (simp add: word_less_nat_alt add.commute)
  ultimately have "\<exists>cl2. syncChannel B (linked B H ?cl ?peer) ?pch (cl_address ?peer) ?cl =
      (cl2, ?pch\<lparr>pc_CurrentTX := m_currentTX (ch_machine ((notified ch' s)\<lparr>ch_machine := ?m\<rparr>)), pc_Phase := Acting\<rparr>, OK ())"
    using p(2) ready own P(8,13,14) enabled_two_ok [OF p(1) s(3,4) x y] sigs_verify_two [OF p(1) x y validTransition_valid [OF s(1)]]
    by (intro sync_newer [where params = "m_params (ch_machine ch)" and own = own and other = s and c' = c'])
      (auto simp: restored_def source_ok_def tx_ok_def ch_State_def ch_ID_def machine_ID_def zeroTransaction_def registry_Get_def)
  then show ?thesis
    using d d' deliver_request(1) [OF p(1)] by (fastforce simp: )
qed

end

end

