(* ===== verification/Perun_Offchain.thy ===== *)
theory Perun_Offchain
  imports Perun_Protocol
begin

text \<open>
  What funding a channel from another channel does to the parent's allocation: sub-channels
  (\<open>client/subchannel.go\<close>) and virtual channels (\<open>client/virtual_channel.go\<close>).
\<close>

unbundle bit_operations_syntax

section \<open>Sub-channels\<close>

text \<open>The loop that adds the balances cell by cell is the addition of balances.\<close>

lemma addCell_row:
  assumes "length row = length p" "a < length bals" "bals ! a = take k q @ p" "length q = k"
  shows "foldR addCell (map (\<lambda>(u, x). (a, u, x)) (enumerate k row)) bals =
     OK (bals[a := take k q @ map2 (+) p row])"
  using assms
proof (induction row p arbitrary: bals k q rule: list_induct2)
  case Nil
  then show ?case
    by auto
next
  case (Cons x row y p)
  let ?q = "q @ [y + x]" and ?bals = "bals[a := q @ (y + x) # p]"
  have "foldR addCell (map (\<lambda>(u, x). (a, u, x)) (enumerate (Suc k) row)) ?bals =
      OK (?bals[a := take (Suc k) ?q @ map2 (+) p row])"
    by (rule Cons.IH) (use Cons.prems in \<open>simp_all\<close>)
  moreover have "addCell (a, k, x) bals = OK ?bals"
    using Cons.prems by (auto simp: addCell_def index_at_def list_update_append nth_append)
  ultimately show ?case
    using Cons.prems by simp
qed

lemma addCells_from:
  assumes "list_all2 (\<lambda>r s. length r = length s) p b" "length q = k"
  shows "foldR addCell (concat (map (\<lambda>(a, row). map (\<lambda>(u, x). (a, u, x)) (enumerate 0 row)) (enumerate k b))) (q @ p) =
     OK (q @ map2 (map2 (+)) p b)"
  using assms
proof (induction p b arbitrary: q k rule: list_all2_induct)
  case (Cons r p s b)
  have "foldR addCell (map (\<lambda>(u, x). (k, u, x)) (enumerate 0 s)) (q @ r # p) = OK ((q @ r # p)[k := map2 (+) r s])"
    using addCell_row [of s r k "q @ r # p" 0 "[]"] Cons.hyps(1) Cons.prems by (auto simp: nth_append)
  with Cons.prems Cons.IH [of "q @ [map2 (+) r s]" "Suc k"] show ?case
    by (auto simp: foldR_append list_update_append)
qed simp

lemma addCells_Add:
  assumes "same_shape p b"
  shows "foldR addCell (cells b) p = Balances_Add p b"
  using addCells_from [of p b "[]" 0] assms by (simp add: cells_def Balances_Add_def operate_OK same_shape_def)

lemma findSubAlloc_new:
  "i \<notin> sa_ID ` set ss \<Longrightarrow> sa_ID s = i \<Longrightarrow> findSubAlloc i (ss @ [s]) cur = (s, True)"
  by (induction ss arbitrary: cur) auto

lemma removeFirst_new:
  "sa_ID s \<notin> sa_ID ` set ss \<Longrightarrow> removeFirst s (ss @ [s]) = OK ss"
  by (induction ss) (auto simp: is_OK_unit_iff SubAlloc_Equal_OK_iff)

lemma same_shape_trans:
  assumes "same_shape b a" "same_shape b c" "Balances_Sub b a = OK d"
  shows "same_shape d c"
proof -
  have "d = map2 (map2 (-)) b a"
    using assms(1,3) by (simp add: Balances_Sub_def operate_OK)
  with assms(1,2) show ?thesis
    by (auto simp: same_shape_def list_all2_conv_all_nth)
qed

text \<open>Funding a sub-channel and taking its outcome back: the sums of the parent stay the same all the
  way, and in the end the parent's balances are changed by what changed in the sub-channel.\<close>

lemma sub_channel_cycle:
  assumes shape: "same_shape (al_Balances (st_Alloc st)) (al_Balances alloc)"
      "same_shape (al_Balances (st_Alloc st)) (al_Balances (st_Alloc sub))"
    and new: "i \<notin> sa_ID ` set (al_Locked (st_Alloc st))" "dims_ok (st_Alloc st)"
    and sub: "al_Locked (st_Alloc sub) = []" "Balances_Sum (al_Balances (st_Alloc sub)) = Balances_Sum (al_Balances alloc)"
  shows "\<exists>st1 st2. fundUpdate i alloc st = OK st1 \<and> withdrawUpdate i (Some sub) st1 = OK st2 \<and>
     Allocation_Sum (st_Alloc st1) = Allocation_Sum (st_Alloc st) \<and>
     Allocation_Sum (st_Alloc st2) = Allocation_Sum (st_Alloc st) \<and>
     al_Locked (st_Alloc st2) = al_Locked (st_Alloc st) \<and>
     Balances_Sub (al_Balances (st_Alloc st)) (al_Balances alloc) = OK (al_Balances (st_Alloc st1)) \<and>
     Balances_Add (al_Balances (st_Alloc st1)) (al_Balances (st_Alloc sub)) = OK (al_Balances (st_Alloc st2))"
proof -
  let ?b = "al_Balances (st_Alloc st)" and ?a = "al_Balances alloc" and ?s = "al_Balances (st_Alloc sub)"
  obtain d where d: "Balances_Sub ?b ?a = OK d" "Balances_Sum d = map2 (-) (Balances_Sum ?b) (Balances_Sum ?a)"
    using Balances_Sum_Sub [OF shape(1)] by blast
  have ds: "same_shape d ?s"
    by (rule same_shape_trans [OF shape d(1)])
  obtain c where c: "Balances_Add d ?s = OK c" "Balances_Sum c = map2 (+) (Balances_Sum d) (Balances_Sum ?s)"
    using Balances_Sum_Add [OF ds] by blast
  have len: "length ?a = length ?b" "length ?s = length ?b" "length d = length ?b" "length c = length ?b"
    using list_all2_lengthD [OF shape(1) [unfolded same_shape_def]] list_all2_lengthD [OF shape(2) [unfolded same_shape_def]]
      list_all2_lengthD [OF ds [unfolded same_shape_def]] arg_cong [OF c(2), of length] by simp_all
  let ?sa = "NewSubAlloc i (Balances_Sum ?a) []"
  let ?st1 = "st\<lparr>st_Alloc := AddSubAlloc ((st_Alloc st)\<lparr>al_Balances := d\<rparr>) ?sa\<rparr>"
  let ?st2 = "st\<lparr>st_Alloc := (st_Alloc st)\<lparr>al_Balances := c\<rparr>\<rparr>"
  have f: "fundUpdate i alloc st = OK ?st1"
    by (simp add: fundUpdate_def d(1))
  have "findSubAlloc i (al_Locked (st_Alloc st) @ [?sa]) zeroSubAlloc = (?sa, True)"
    by (rule findSubAlloc_new) (simp_all add: new NewSubAlloc_def)
  moreover have "Allocation_Sum (st_Alloc sub) = OK (Balances_Sum ?a)"
    using sub by (simp add: Allocation_Sum_def)
  moreover have "removeFirst ?sa (al_Locked (st_Alloc st) @ [?sa]) = OK (al_Locked (st_Alloc st))"
    by (rule removeFirst_new) (simp add: new NewSubAlloc_def)
  ultimately have w: "withdrawUpdate i (Some sub) ?st1 = OK ?st2"
    using addCells_Add [OF ds] c(1)
    by (simp add: withdrawUpdate_def Allocation_SubAlloc_def AddSubAlloc_def RemoveSubAlloc_def)
      (simp add: BalancesEqual_def NewSubAlloc_def list.rel_eq)
  have "sum_list (d ! j) = sum_list (?b ! j) - sum_list (?a ! j)" "sum_list (c ! j) = sum_list (d ! j) + sum_list (?s ! j)"
    "sum_list (?s ! j) = sum_list (?a ! j)" if "j < length ?b" for j
    using arg_cong [OF d(2), of "\<lambda>l. l ! j"] arg_cong [OF c(2), of "\<lambda>l. l ! j"] arg_cong [OF sub(2), of "\<lambda>l. l ! j"] that len
    by simp_all
  then have "asset_total (st_Alloc ?st1) j = asset_total (st_Alloc st) j" "asset_total (st_Alloc ?st2) j = asset_total (st_Alloc st) j"
    if "j < length ?b" for j
    using that len by (simp_all add: asset_total_def AddSubAlloc_def NewSubAlloc_def)
  moreover have "dims_ok (st_Alloc ?st1)" "dims_ok (st_Alloc ?st2)"
    using new(2) len by (simp_all add: dims_ok_def AddSubAlloc_def NewSubAlloc_def)
  ultimately have "Allocation_Sum (st_Alloc ?st1) = Allocation_Sum (st_Alloc st)" "Allocation_Sum (st_Alloc ?st2) = Allocation_Sum (st_Alloc st)"
    using len by (simp_all add: Allocation_Sum_eq new(2)) (simp_all add: AddSubAlloc_def)
  with f w d(1) c(1) show ?thesis
    by (intro exI [of _ ?st1] exI [of _ ?st2] conjI) (simp_all add: AddSubAlloc_def)
qed

text \<open>The filter for the funding of a sub-channel looks at the locked funds only.\<close>

lemma funding_filter_OK_iff:
  "runFilter (FundingFilter i bals) (Some cur) cu = OK True \<longleftrightarrow>
     i \<notin> sa_ID ` set (al_Locked (st_Alloc cur)) \<and>
     (\<exists>sa. Allocation_SubAlloc (st_Alloc (cu_State cu)) i = (sa, True) \<and> sa_Bals sa = bals)"
proof (cases "Allocation_SubAlloc (st_Alloc (cu_State cu)) i")
  case (Pair sa ok)
  have "sa_ID sa = i" if ok
    using Pair that unfolding Allocation_SubAlloc_def by (auto elim: findSubAlloc_first)
  moreover have "snd (Allocation_SubAlloc (st_Alloc cur) i) \<longleftrightarrow> i \<in> sa_ID ` set (al_Locked (st_Alloc cur))"
    by (simp add: Allocation_SubAlloc_def findSubAlloc_found_iff)
  ultimately show ?thesis
    unfolding runFilter_def by (auto simp: Pair SubAlloc_Equal_OK_iff NewSubAlloc_def Let_def)
qed

text \<open>So an update that locks the right amount is accepted, whoever pays for it.\<close>

context client_backend
begin

lemma intercepted_funding:
  fixes ch' :: Channel
  defines "m \<equiv> ch_machine ch'" and "j \<equiv> m_idx (ch_machine ch') XOR 1"
  assumes side: "side_ready B wf_addr wf_sig wf_asset peer c' ch'" "ch_parent ch' = None"
      "registry_Get peer (ch_ID ch') = Some c'" "ch_fundings ch' = [(i, FundingFilter i bals)]"
    and s: "validTransition B m s j = OK ()" "state_ok B wf_addr wf_asset s" "NumParts (st_Alloc s) = 2"
    and f: "runFilter (FundingFilter i bals) (ch_State ch') \<lparr>cu_State = s, cu_ActorIdx = j, mu_Sig = Some x\<rparr> = OK True"
      "hd_awaited H Fundings i"
    and x: "cb_Verify B (p_Parts (m_params m) ! unat j) (m_params m) s (Some x) = OK True" "wf_sig x" "x \<noteq> []"
    and y: "cb_Sign B (m_acc m) (m_params m) s = OK (Some y)"
  shows "\<exists>peer1 m'. Handle B silent H [\<lparr>env_Sender = a, env_Recipient = r,
       env_Msg = MUpdate \<lparr>cu_State = s, cu_ActorIdx = j, mu_Sig = Some x\<rparr>\<rparr>] peer = (peer1, OK ()) \<and>
     machine_at peer1 c' = Some m' \<and> tx_State (m_currentTX m') = Some s"
proof -
  let ?req = "\<lparr>cu_State = s, cu_ActorIdx = j, mu_Sig = Some x\<rparr>"
  have heap: "cl_heap peer c' = Some ch'" "length (p_Parts (m_params m)) = 2" "m_idx m = 0 \<or> m_idx m = 1"
    using side(1) by (simp_all add: side_ready_def Let_def m_def)
  have chan: "chan c' peer = (peer, OK ch')"
    by (simp add: chan_def call_simps heap)
  have sid: "st_ID s = ch_ID ch'"
    using s(1) by (simp add: validTransition_OK_iff machine_validTransition_OK_iff ch_ID_def machine_ID_def m_def)
  have "unat j < length (p_Parts (m_params m))"
    using heap(2,3) other_index(2) [of "m_idx m"] by (auto simp: j_def m_def)
  then have check: "CheckUpdate B (ch_machine ch') s j (Some x) j = OK ()"
    using s(1) x by (simp add: CheckUpdate_OK_iff m_def)
  obtain d e where d: "handleUpdateAcc B silent c' j (UpdateProposal ?req) peer =
      (upd c' (notified ch' s) peer (enabled m s (two_sigs j (Some x) (m_idx m) (Some y))) d [e], OK ())"
    using accept_side [OF side(1,2), of s x y ?req silent] s x y by (auto simp: m_def j_def)
  let ?c = "upd c' (notified ch' s) peer (enabled m s (two_sigs j (Some x) (m_idx m) (Some y))) d [e]"
  have "awaitSubChannelUpdate B silent c' Fundings i
      (Some \<lparr>re_channel = c', re_pidx = j, re_req = UpdateProposal ?req, re_called = False\<rparr>) peer =
      (fst (update_chan c' (release Fundings i) ?c), OK ())"
    by (simp add: awaitSubChannelUpdate_def call_simps chan side(4) interceptors_Get_def responder_Accept_def d)
  moreover have "dispatch B silent H \<lparr>env_Sender = a, env_Recipient = r, env_Msg = MUpdate ?req\<rparr> peer =
      bindS (ignoreS (awaitSubChannelUpdate B silent c' Fundings i
      (Some \<lparr>re_channel = c', re_pidx = j, re_req = UpdateProposal ?req, re_called = False\<rparr>))) (\<lambda>_. returnS Finished) peer"
    using check f j_def
    by (simp add: dispatch_def Let_def handleChannelUpdate_def handleUpdateReq_def call_simps sid side(3,4) chan ch_Idx_def)
  ultimately have "Handle B silent H [\<lparr>env_Sender = a, env_Recipient = r, env_Msg = MUpdate ?req\<rparr>] peer =
      (fst (update_chan c' (release Fundings i) ?c), OK ())"
    by (simp add: Handle_def isReqMsg_def ignoreS_def bindS_def returnS_def)
  moreover have "machine_at (fst (update_chan c' (release Fundings i) ?c)) c' =
      Some (enabled m s (two_sigs j (Some x) (m_idx m) (Some y)))"
    by (simp add: update_chan_def call_simps put_chan_def machine_at_def release_def)
  ultimately show ?thesis
    by simp
qed

end

section \<open>Virtual channels\<close>

lemma ignoreS_cases: "snd (ignoreS c s) = OK () \<or> is_Panic (snd (ignoreS c s))"
  by (auto simp: ignoreS_def is_Panic_def split: prod.splits res.splits)

lemma is_Panic_bindS: "is_Panic (snd (c s)) \<Longrightarrow> is_Panic (snd (bindS c f s))"
  by (cases "c s"; cases "snd (c s)") (auto simp: bindS_def is_Panic_def)

text \<open>A responder that has answered panics when it is used again.\<close>

lemma answered_twice:
  "re_called r \<Longrightarrow> is_Panic (snd (acceptProposal B N r cl))"
  "re_called r \<Longrightarrow> is_Panic (snd (rejectProposal N r e cl))"
  by (simp_all add: acceptProposal_def rejectProposal_def responder_Accept_def responder_Reject_def ignoreS_def
      liftS_def is_Panic_def)

lemma after_rejection:
  assumes "\<And>cl. is_Panic (snd (k cl))"
  shows "is_Panic (snd (bindS (rejectProposal N r e) (\<lambda>_. k) cl))"
proof (cases "is_Panic (snd (rejectProposal N r e cl))")
  case False
  then obtain cl' where "rejectProposal N r e cl = (cl', OK ())"
    using ignoreS_cases [of "responder_Reject N r (str (goerr_Error e))" cl]
    by (cases "rejectProposal N r e cl") (auto simp: rejectProposal_def)
  with assms show ?thesis
    by (simp add: bindS_def)
qed (rule is_Panic_bindS)

lemma awaitAndAccept_panics:
  assumes "\<not> is_OK (snd (fundingWatcher_Await B wait prop cl)) \<or> re_called r"
  shows "is_Panic (snd (awaitAndAccept B N wait prop r cl))"
proof (cases "fundingWatcher_Await B wait prop cl")
  case (Pair cl' x)
  show ?thesis
  proof (cases x)
    case (OK u)
    with assms Pair answered_twice(1) [of r B N cl'] show ?thesis
      by (simp add: awaitAndAccept_def)
  next
    case (Err e)
    have "is_Panic (snd (bindS (rejectProposal N r e) (\<lambda>_. acceptProposal B N (r\<lparr>re_called := True\<rparr>)) cl'))"
      by (rule after_rejection) (simp add: answered_twice)
    with Pair Err show ?thesis
      by (simp add: awaitAndAccept_def)
  qed (use Pair in \<open>simp add: awaitAndAccept_def is_Panic_def\<close>)
qed

text \<open>A funding proposal that is invalid, or that no matching one joins in time, ends in a panic.\<close>

lemma funding_proposal_panics:
  assumes "validateVirtualChannelFundingProposal B ch prop \<noteq> OK () \<or> \<not> is_OK (snd (fundingWatcher_Await B wait prop cl))"
  shows "is_Panic (snd (handleVirtualChannelFundingProposal B N wait ch prop r cl))"
proof (cases "validateVirtualChannelFundingProposal B ch prop")
  case (OK u)
  with assms awaitAndAccept_panics [of B wait "prop" cl r N] show ?thesis
    by (simp add: handleVirtualChannelFundingProposal_def)
next
  case (Err e)
  have "is_Panic (snd (bindS (rejectProposal N r e) (\<lambda>_. awaitAndAccept B N wait prop (r\<lparr>re_called := True\<rparr>)) cl))"
    by (rule after_rejection) (simp add: awaitAndAccept_panics)
  with Err show ?thesis
    by (simp add: handleVirtualChannelFundingProposal_def)
qed (simp add: handleVirtualChannelFundingProposal_def liftS_def is_Panic_def)

end
