(* ===== verification/Perun_Dispute.thy ===== *)
theory Perun_Dispute
  imports Perun_Protocol
begin

text \<open>
  Disputes and settlement (\<open>client/adjudicate.go\<close>, the watcher of \<open>client/virtual_channel.go\<close>) and the
  requests and events of \<open>channel/adjudicator.go\<close>.

  A channel and the channels that it funds form a tree, which the functions of this file walk
  through by recursion.  The adjudicator, an interface to a blockchain, is a record of functions: the
  outcomes of its methods and the events of a subscription.  \<open>cl_chain\<close> keeps the requests that were
  made.  The depth of the recursion is bounded by the number of registered channels: before anything
  else every channel of the tree is locked, and a channel that is met twice cannot be locked.
\<close>

section \<open>Events and timeouts\<close>

text \<open>Times are numbers of nanoseconds.  The Ethereum backend has timeouts of its own, whose method
  \<open>IsElapsed\<close> is \<open>block\<close>.\<close>

datatype Timeout = ElapsedTimeout | TimeTimeout nat | BlockTimeout u64

primrec IsElapsed :: "nat \<Rightarrow> (u64 \<Rightarrow> bool) \<Rightarrow> Timeout \<Rightarrow> bool" where
  "IsElapsed now block ElapsedTimeout = True"
| "IsElapsed now block (TimeTimeout t) = (t > now)"
| "IsElapsed now block (BlockTimeout t) = block t"

datatype AdjudicatorEvent =
    RegisteredEvent ID Timeout u64 "State option" "sig list"
  | ProgressedEvent ID Timeout u64 "State option" Index
  | ConcludedEvent ID Timeout u64

primrec ev_ID :: "AdjudicatorEvent \<Rightarrow> ID" where
  "ev_ID (RegisteredEvent i t v s sigs) = i"
| "ev_ID (ProgressedEvent i t v s idx) = i"
| "ev_ID (ConcludedEvent i t v) = i"

primrec ev_Timeout :: "AdjudicatorEvent \<Rightarrow> Timeout" where
  "ev_Timeout (RegisteredEvent i t v s sigs) = t"
| "ev_Timeout (ProgressedEvent i t v s idx) = t"
| "ev_Timeout (ConcludedEvent i t v) = t"

primrec ev_Version :: "AdjudicatorEvent \<Rightarrow> u64" where
  "ev_Version (RegisteredEvent i t v s sigs) = v"
| "ev_Version (ProgressedEvent i t v s idx) = v"
| "ev_Version (ConcludedEvent i t v) = v"

definition NewRegisteredEvent :: "ID \<Rightarrow> Timeout \<Rightarrow> u64 \<Rightarrow> State option \<Rightarrow> sig list \<Rightarrow> AdjudicatorEvent" where
  "NewRegisteredEvent i timeout version state sigs = RegisteredEvent i timeout version state sigs"

definition NewProgressedEvent :: "ID \<Rightarrow> Timeout \<Rightarrow> State option \<Rightarrow> Index \<Rightarrow> AdjudicatorEvent res" where
  "NewProgressedEvent i timeout state idx =
     bindR (deref state) (\<lambda>s. OK (ProgressedEvent i timeout (st_Version s) state idx))"

definition NewConcludedEvent :: "ID \<Rightarrow> Timeout \<Rightarrow> u64 \<Rightarrow> AdjudicatorEvent" where
  "NewConcludedEvent i timeout version = ConcludedEvent i timeout version"

definition NewProgressReq :: "AdjudicatorReq \<Rightarrow> State \<Rightarrow> sig \<Rightarrow> ProgressReq" where
  "NewProgressReq ar state sig = AdjudicatorReq.extend ar (ProgressReq.fields state sig)"

text \<open>A map of states, by channel; a later state of the same channel replaces an earlier one.\<close>

definition StateMap_Add :: "State list \<Rightarrow> (ID \<times> State) list \<Rightarrow> (ID \<times> State) list" where
  "StateMap_Add states m = fold (\<lambda>s m. (st_ID s, s) # filter (\<lambda>(i, _). i \<noteq> st_ID s) m) states m"

text \<open>A subscription delivers events until it is closed, and then has an error status.\<close>

record Adjudicator =
  ad_Register :: "AdjudicatorReq \<Rightarrow> SignedState list \<Rightarrow> unit res"
  ad_Withdraw :: "AdjudicatorReq \<Rightarrow> (ID \<times> State) list \<Rightarrow> unit res"
  ad_Progress :: "ProgressReq \<Rightarrow> unit res"
  ad_Subscribe :: "Params \<Rightarrow> (AdjudicatorEvent list \<times> unit res) res"

definition chainCall :: "ChainCall \<Rightarrow> unit res \<Rightarrow> (Client, unit) call" where
  "chainCall req outcome cl = (cl\<lparr>cl_chain := cl_chain cl @ [req]\<rparr>, outcome)"

section \<open>The tree of channels\<close>

primrec foldS :: "('x \<Rightarrow> 'a \<Rightarrow> ('s, 'a) call) \<Rightarrow> 'x list \<Rightarrow> 'a \<Rightarrow> ('s, 'a) call" where
  "foldS f [] acc = returnS acc"
| "foldS f (x # xs) acc = bindS (f x acc) (foldS f xs)"

text \<open>\<open>f\<close> is applied to a channel and what has been collected so far.\<close>

primrec applyToSubChannelsRecursive ::
    "nat \<Rightarrow> (cref \<Rightarrow> 'a \<Rightarrow> (Client, 'a) call) \<Rightarrow> cref \<Rightarrow> 'a \<Rightarrow> (Client, 'a) call" where
  "applyToSubChannelsRecursive 0 f c acc = liftS (Panic ''stack overflow'')"
| "applyToSubChannelsRecursive (Suc n) f c acc = bindS (chan c) (\<lambda>ch.
     bindS (liftS (deref (ch_State ch))) (\<lambda>s.
     foldS (\<lambda>subAlloc acc.
       bindS (msgS ''getting sub-channel: %v'' (Client_Channel (sa_ID subAlloc))) (\<lambda>sub.
       bindS (f sub acc) (applyToSubChannelsRecursive n f sub))) (al_Locked (st_Alloc s)) acc))"

definition applyRecursive ::
    "nat \<Rightarrow> (cref \<Rightarrow> 'a \<Rightarrow> (Client, 'a) call) \<Rightarrow> cref \<Rightarrow> 'a \<Rightarrow> (Client, 'a) call" where
  "applyRecursive n f c acc = bindS (f c acc) (applyToSubChannelsRecursive n f c)"

definition depth :: "Client \<Rightarrow> nat" where
  "depth cl = Suc (Suc (length (cl_values cl)))"

text \<open>The locks are free when the walk begins; a channel that has been locked on the way cannot be
  locked again.\<close>

definition lock :: "cref \<Rightarrow> cref list \<Rightarrow> (Client, cref list) call" where
  "lock c l = liftS (if c \<in> set l then Err (ErrNew ''locking machine mutex in time: %v'') else OK (l @ [c]))"

definition tryLockRecursive :: "cref \<Rightarrow> (Client, cref list) call" where
  "tryLockRecursive c = bindS (getS (\<lambda>cl. OK (depth cl))) (\<lambda>n. applyRecursive n lock c [])"

definition setRegisteringRecursive :: "cref \<Rightarrow> (Client, unit) call" where
  "setRegisteringRecursive c = bindS (getS (\<lambda>cl. OK (depth cl))) (\<lambda>n.
     applyRecursive n (\<lambda>c _. on_machine c pm_SetRegistering) c ())"

definition setRegisteredRecursive :: "cref \<Rightarrow> (Client, unit) call" where
  "setRegisteredRecursive c = bindS (getS (\<lambda>cl. OK (depth cl))) (\<lambda>n.
     applyRecursive n (\<lambda>c _. on_machine c pm_SetRegistered) c ())"

definition addSignedState :: "cref \<Rightarrow> SignedState list \<Rightarrow> (Client, SignedState list) call" where
  "addSignedState c states = bindS (chan c) (\<lambda>ch.
     bindS (liftS (deref (ch_State ch))) (\<lambda>s.
     returnS (states @ [\<lparr>ss_Params = m_params (ch_machine ch), ss_State = s,
       ss_Sigs = tx_Sigs (m_currentTX (ch_machine ch))\<rparr>])))"

definition gatherSubChannelStates :: "cref \<Rightarrow> (Client, SignedState list) call" where
  "gatherSubChannelStates c = bindS (getS (\<lambda>cl. OK (depth cl))) (\<lambda>n.
     applyToSubChannelsRecursive n addSignedState c [])"

definition addState :: "cref \<Rightarrow> (ID \<times> State) list \<Rightarrow> (Client, (ID \<times> State) list) call" where
  "addState c states = bindS (chan c) (\<lambda>ch.
     bindS (liftS (deref (ch_State ch))) (\<lambda>s.
     returnS ((ch_ID ch, s) # filter (\<lambda>(i, _). i \<noteq> ch_ID ch) states)))"

definition subChannelStateMap :: "cref \<Rightarrow> (Client, (ID \<times> State) list) call" where
  "subChannelStateMap c = bindS (getS (\<lambda>cl. OK (depth cl))) (\<lambda>n.
     applyToSubChannelsRecursive n addState c [])"

section \<open>Registering\<close>

text \<open>The whole tree is registered from its root.\<close>

definition registerRoot :: "Adjudicator \<Rightarrow> cref \<Rightarrow> (Client, unit) call" where
  "registerRoot A c =
     bindS (msgS ''locking recursive'' (tryLockRecursive c)) (\<lambda>_.
     bindS (msgS ''setting phase `Registering` recursive'' (setRegisteringRecursive c)) (\<lambda>_.
     bindS (msgS ''gathering sub-channel states'' (gatherSubChannelStates c)) (\<lambda>subStates.
     bindS (chan c) (\<lambda>ch. let req = machine_AdjudicatorReq (ch_machine ch) in
     bindS (msgS ''calling Register'' (chainCall (CallRegister req subStates) (ad_Register A req subStates))) (\<lambda>_.
     msgS ''setting phase `Registered` recursive'' (setRegisteredRecursive c))))))"

primrec registerUp :: "nat \<Rightarrow> Adjudicator \<Rightarrow> cref \<Rightarrow> (Client, unit) call" where
  "registerUp 0 A c = liftS (Panic ''stack overflow'')"
| "registerUp (Suc n) A c = bindS (chan c) (\<lambda>ch. case ch_parent ch of
      Some p \<Rightarrow> registerUp n A p
    | None \<Rightarrow> registerRoot A c)"

text \<open>A parent is an older object than its child, so that the reference bounds the way up.\<close>

definition Channel_Register :: "Adjudicator \<Rightarrow> cref \<Rightarrow> (Client, unit) call" where
  "Channel_Register A c = registerUp (Suc c) A c"

definition ProgressBy :: "'b channel_backend_scheme \<Rightarrow> Adjudicator \<Rightarrow> cref \<Rightarrow> (State \<Rightarrow> State) \<Rightarrow> (Client, unit) call" where
  "ProgressBy B A c update = bindS (chan c) (\<lambda>ch.
     let ar = machine_AdjudicatorReq (ch_machine ch) in
     bindS (liftS (bindR (State_Clone (ch_State ch)) deref)) (\<lambda>clone.
     let state = update (clone\<lparr>st_Version := st_Version clone + 1\<rparr>) in
     bindS (msgS ''updating machine'' (on_machine c (\<lambda>m. pm_SetProgressing B m (Some state)))) (\<lambda>_.
     bindS (msgS ''signing'' (on_machine c (pm_Sig B))) (\<lambda>sig.
     let pr = NewProgressReq ar state sig in
     msgS ''progressing'' (chainCall (CallProgress pr) (ad_Progress A pr))))))"

section \<open>Settling\<close>

definition hasParticipant :: "Channel \<Rightarrow> address \<Rightarrow> bool" where
  "hasParticipant ch i \<longleftrightarrow> i \<in> set (ch_peers ch)"

text \<open>\<open>u\<close> is the update of the parent channel that arrives while the settlement of a sub-channel is
  awaited.\<close>

definition settle ::
    "'b channel_backend_scheme \<Rightarrow> Net \<Rightarrow> Adjudicator \<Rightarrow> UpdateResponder option \<Rightarrow> cref \<Rightarrow> bool \<Rightarrow> (Client, unit) call" where
  "settle B N A u c secondary = bindS (chan c) (\<lambda>ch.
     bindS (IsSubChannel ch) (\<lambda>isSub.
     case ch_parent ch of
       None \<Rightarrow>
         bindS (msgS ''creating sub-channel state map'' (subChannelStateMap c)) (\<lambda>subStates.
         let req = (machine_AdjudicatorReq (ch_machine ch))\<lparr>ar_Secondary := secondary\<rparr> in
         msgS ''calling Withdraw'' (chainCall (CallWithdraw req subStates) (ad_Withdraw A req subStates)))
     | Some p \<Rightarrow>
         bindS (liftS (hasLockedFunds ch)) (\<lambda>locked.
         if locked then liftS (Err (ErrNew ''cannot settle off-chain with locked funds''))
         else msgS ''withdrawing into parent channel''
           (if isSub then withdrawSubChannelIntoParent B N c u else withdrawVirtualChannel B N p ch))))"

definition unlessWithdrawn :: "(cref \<Rightarrow> (Client, unit) call) \<Rightarrow> cref \<Rightarrow> unit \<Rightarrow> (Client, unit) call" where
  "unlessWithdrawn f c _ = bindS (chan c) (\<lambda>ch. if m_phase (ch_machine ch) = Withdrawn then returnS () else f c)"

text \<open>The hub of a virtual channel is not one of its participants and has no account in it.\<close>

definition decrementUsage :: "cref \<Rightarrow> unit \<Rightarrow> (Client, unit) call" where
  "decrementUsage c _ = bindS (chan c) (\<lambda>ch.
     bindS (IsVirtualChannel ch) (\<lambda>virtual.
     bindS (if \<not> virtual then returnS True
            else bindS (chan_parent ch) (\<lambda>p. case p of
                None \<Rightarrow> liftS (Panic ''nil pointer dereference'')
              | Some parent \<Rightarrow> bindS (liftS (index_at (ch_peers parent) (unat (ch_Idx parent)))) (\<lambda>ourID.
                  returnS (hasParticipant ch ourID)))) (\<lambda>participant.
     let a = m_acc (ch_machine ch) in
     if participant then modifyS (\<lambda>cl. cl\<lparr>cl_usage := (cl_usage cl)(a := cl_usage cl a - 1)\<rparr>) else returnS ())))"

definition Settle ::
    "'b channel_backend_scheme \<Rightarrow> Net \<Rightarrow> Adjudicator \<Rightarrow> UpdateResponder option \<Rightarrow> cref \<Rightarrow> bool \<Rightarrow> (Client, unit) call" where
  "Settle B N A u c secondary =
     bindS (msgS ''locking recursive'' (tryLockRecursive c)) (\<lambda>_.
     bindS (getS (\<lambda>cl. OK (depth cl))) (\<lambda>n.
     bindS (msgS ''setting phase `Withdrawing` recursive''
       (applyRecursive n (unlessWithdrawn (\<lambda>c. on_machine c pm_SetWithdrawing)) c ())) (\<lambda>_.
     bindS (settle B N A u c secondary) (\<lambda>_.
     bindS (msgS ''setting phase `Withdrawn` recursive''
       (applyRecursive n (unlessWithdrawn (\<lambda>c. on_machine c (pm_SetWithdrawn B))) c ())) (\<lambda>_.
     msgS ''decrementing account usage'' (applyRecursive n decrementUsage c ()))))))"

section \<open>Watching\<close>

definition setMachinePhase :: "'b channel_backend_scheme \<Rightarrow> cref \<Rightarrow> AdjudicatorEvent \<Rightarrow> (Client, unit) call" where
  "setMachinePhase B c e = (case e of
      RegisteredEvent i t v s sigs \<Rightarrow> on_machine c pm_SetRegistered
    | ProgressedEvent i t v s idx \<Rightarrow> on_machine c (\<lambda>m. pm_SetProgressed B m s)
    | ConcludedEvent i t v \<Rightarrow> returnS ())"

text \<open>A registered state that is older than the own one is refuted by registering the own one.\<close>

definition refute :: "Adjudicator \<Rightarrow> cref \<Rightarrow> AdjudicatorEvent \<Rightarrow> (Client, unit) call" where
  "refute A c e = (case e of
      RegisteredEvent i t v s sigs \<Rightarrow> bindS (chan c) (\<lambda>ch.
        bindS (liftS (deref (ch_State ch))) (\<lambda>own.
        if v > st_Version own
        then liftS (Panic ''watch: registered: expected version less than or equal to %d, got version %d'')
        else if v < st_Version own then msgS ''registering'' (Channel_Register A c) else returnS ()))
    | _ \<Rightarrow> returnS ())"

definition watchEvent :: "'b channel_backend_scheme \<Rightarrow> Adjudicator \<Rightarrow> cref \<Rightarrow> AdjudicatorEvent \<Rightarrow> (Client, unit) call" where
  "watchEvent B A c e = bindS (msgS ''setting machine phase'' (setMachinePhase B c e)) (\<lambda>_. refute A c e)"

definition Watch :: "'b channel_backend_scheme \<Rightarrow> Adjudicator \<Rightarrow> cref \<Rightarrow> (Client, unit) call" where
  "Watch B A c = bindS (chan c) (\<lambda>ch.
     bindS (liftS (with_msg ''subscribing to adjudicator state changes'' (ad_Subscribe A (m_params (ch_machine ch))))) (\<lambda>(events, status).
     bindS (forEachS (watchEvent B A c) events) (\<lambda>_.
     liftS (with_msg ''subscription closed'' status))))"

text \<open>The hub follows the states of a virtual channel that are registered.\<close>

definition watchVirtualEvent :: "'b channel_backend_scheme \<Rightarrow> cref \<Rightarrow> AdjudicatorEvent \<Rightarrow> (Client, unit) call" where
  "watchVirtualEvent B c e = (case e of
      RegisteredEvent i t v s sigs \<Rightarrow> bindS (chan c) (\<lambda>ch.
        bindS (liftS (deref (ch_State ch))) (\<lambda>own.
        if v > st_Version own then bindS (liftS (deref s)) (\<lambda>s. ignoreS (pushVirtualUpdate B c s sigs)) else returnS ()))
    | _ \<Rightarrow> returnS ())"

definition watchVirtual :: "'b channel_backend_scheme \<Rightarrow> Adjudicator \<Rightarrow> cref \<Rightarrow> (Client, unit) call" where
  "watchVirtual B A c = bindS (chan c) (\<lambda>ch.
     bindS (liftS (with_msg ''subscribing to adjudicator state changes'' (ad_Subscribe A (m_params (ch_machine ch))))) (\<lambda>(events, status).
     bindS (forEachS (watchVirtualEvent B c) events) (\<lambda>_.
     liftS (with_msg ''subscription closed'' status))))"

section \<open>The tree is locked as a whole\<close>

lemma bindS_OK_iff: "bindS c f s = (s', OK y) \<longleftrightarrow> (\<exists>t x. c s = (t, OK x) \<and> f x t = (s', OK y))"
  by (auto simp: bindS_def split: prod.splits res.splits)

lemma msgS_OK_iff [simp]: "msgS m c s = (s', OK x) \<longleftrightarrow> c s = (s', OK x)"
  by (auto simp: msgS_def split: prod.splits)

text \<open>The walk that locks the tree only reads: the registry, and the locked funds of the current
  states.\<close>

definition subs :: "Client \<Rightarrow> cref \<Rightarrow> ID list option" where
  "subs cl c = Option.bind (cl_heap cl c) (\<lambda>ch. map_option (\<lambda>s. map sa_ID (al_Locked (st_Alloc s))) (ch_State ch))"

definition step_lock :: "nat \<Rightarrow> SubAlloc \<Rightarrow> cref list \<Rightarrow> (Client, cref list) call" where
  "step_lock n subAlloc acc =
     bindS (msgS ''getting sub-channel: %v'' (Client_Channel (sa_ID subAlloc))) (\<lambda>sub.
     bindS (lock sub acc) (applyToSubChannelsRecursive n lock sub))"

lemma applySub_lock_Suc:
  "applyToSubChannelsRecursive (Suc n) lock c acc = bindS (chan c) (\<lambda>ch.
     bindS (liftS (deref (ch_State ch))) (\<lambda>s. foldS (step_lock n) (al_Locked (st_Alloc s)) acc))"
  by (simp add: step_lock_def [abs_def])

lemma Client_Channel_OK_iff [simp]: "Client_Channel i cl = (cl', OK c) \<longleftrightarrow> cl' = cl \<and> registry_Get cl i = Some c"
  by (auto simp: Client_Channel_def getS_def split: option.splits)

lemma lock_OK_iff [simp]: "lock c l cl = (cl', OK l') \<longleftrightarrow> cl' = cl \<and> c \<notin> set l \<and> l' = l @ [c]"
  by (auto simp: lock_def liftS_def)

lemma chan_OK_iff [simp]: "chan c cl = (cl', OK ch) \<longleftrightarrow> cl' = cl \<and> cl_heap cl c = Some ch"
  by (auto simp: chan_def getS_def deref_def split: option.splits)

lemma liftS_OK_iff [simp]: "liftS r s = (s', OK x) \<longleftrightarrow> s' = s \<and> r = OK x"
  by (auto simp: liftS_def)

lemma step_lock_OK_iff:
  "step_lock n sa acc cl = (cl', OK acc') \<longleftrightarrow> (\<exists>q. registry_Get cl (sa_ID sa) = Some q \<and> q \<notin> set acc \<and>
     applyToSubChannelsRecursive n lock q (acc @ [q]) cl = (cl', OK acc'))"
  by (auto simp: step_lock_def bindS_OK_iff)

lemma deref_OK_iff: "deref x = OK y \<longleftrightarrow> x = Some y"
  by (simp add: deref_def split: option.splits)

text \<open>A channel of the tree has all its sub-channels in the tree.\<close>

definition covered :: "Client \<Rightarrow> cref list \<Rightarrow> cref \<Rightarrow> bool" where
  "covered cl l c \<longleftrightarrow> (\<exists>ids. subs cl c = Some ids \<and> (\<forall>i \<in> set ids. \<exists>q. registry_Get cl i = Some q \<and> q \<in> set l))"

lemma covered_mono: "covered cl l c \<Longrightarrow> set l \<subseteq> set l' \<Longrightarrow> covered cl l' c"
  by (fastforce simp: covered_def)

lemma applySub_lock_OK:
  assumes "applyToSubChannelsRecursive n lock c acc cl = (cl', OK acc')" "distinct acc"
  shows "cl' = cl \<and> distinct acc' \<and> (\<exists>l. acc' = acc @ l \<and> (\<forall>p \<in> set (c # l). covered cl acc' p) \<and> set l \<subseteq> snd ` set (cl_values cl))"
  using assms
proof (induction n arbitrary: c acc cl' acc')
  case (Suc n)
  obtain ch s where ch: "cl_heap cl c = Some ch" "ch_State ch = Some s"
    and fold: "foldS (step_lock n) (al_Locked (st_Alloc s)) acc cl = (cl', OK acc')"
    using Suc.prems(1) unfolding applySub_lock_Suc by (auto simp: bindS_OK_iff deref_OK_iff)
  have "cl' = cl \<and> distinct acc' \<and> (\<exists>l. acc' = acc @ l \<and> (\<forall>p \<in> set l. covered cl acc' p) \<and> set l \<subseteq> snd ` set (cl_values cl) \<and>
      (\<forall>sa \<in> set sas. \<exists>q. registry_Get cl (sa_ID sa) = Some q \<and> q \<in> set acc'))"
    if "foldS (step_lock n) sas acc cl = (cl', OK acc')" "distinct acc" for sas acc
    using that
  proof (induction sas arbitrary: acc)
    case (Cons sa sas)
    obtain cl1 acc1 where one: "step_lock n sa acc cl = (cl1, OK acc1)" "foldS (step_lock n) sas acc1 cl1 = (cl', OK acc')"
      using Cons.prems(1) by (auto simp: bindS_OK_iff)
    obtain q where q: "registry_Get cl (sa_ID sa) = Some q" "q \<notin> set acc"
      "applyToSubChannelsRecursive n lock q (acc @ [q]) cl = (cl1, OK acc1)"
      using one(1) by (auto simp: step_lock_OK_iff)
    obtain l1 where l1: "cl1 = cl" "distinct acc1" "acc1 = (acc @ [q]) @ l1" "\<forall>p \<in> set (q # l1). covered cl acc1 p"
      "set l1 \<subseteq> snd ` set (cl_values cl)"
      using Suc.IH [OF q(3)] q(2) Cons.prems(2) by auto
    obtain l2 where l2: "cl' = cl" "distinct acc'" "acc' = acc1 @ l2" "\<forall>p \<in> set l2. covered cl acc' p"
      "set l2 \<subseteq> snd ` set (cl_values cl)" "\<forall>sa \<in> set sas. \<exists>q. registry_Get cl (sa_ID sa) = Some q \<and> q \<in> set acc'"
      using Cons.IH [of acc1] one(2) l1(1,2) by auto
    have "q \<in> snd ` set (cl_values cl)"
      using q(1) by (force simp: registry_Get_def dest: map_of_SomeD)
    moreover have "covered cl acc' p" if "p \<in> set (q # l1)" for p
      using l1(4) that covered_mono [of cl acc1 p acc'] l2(3) by auto
    ultimately show ?case
      using l1 l2 q(1) by (intro conjI exI [of _ "q # l1 @ l2"]) auto
  qed (simp add: returnS_def)
  from this [OF fold Suc.prems(2)] obtain l where l: "cl' = cl" "distinct acc'" "acc' = acc @ l" "\<forall>p \<in> set l. covered cl acc' p"
    "set l \<subseteq> snd ` set (cl_values cl)" "\<forall>sa \<in> set (al_Locked (st_Alloc s)). \<exists>q. registry_Get cl (sa_ID sa) = Some q \<and> q \<in> set acc'"
    by blast
  have "covered cl acc' c"
    using l(6) ch by (auto simp: covered_def subs_def)
  with l show ?case
    by (intro conjI exI [of _ l]) auto
qed simp

text \<open>The walk ends: each step down adds a channel to the list, and no channel is added twice.\<close>

lemma bindS_no_overflow:
  assumes "snd (c s) \<noteq> Panic m" "\<And>t x. c s = (t, OK x) \<Longrightarrow> snd (f x t) \<noteq> Panic m"
  shows "snd (bindS c f s) \<noteq> Panic m"
  using assms by (cases "c s"; cases "snd (c s)") (auto simp: bindS_def)

lemma applySub_lock_ends:
  assumes "finite U" "snd ` set (cl_values cl) \<subseteq> U" "set acc \<subseteq> U" "distinct acc" "card U < n + length acc"
  shows "snd (applyToSubChannelsRecursive n lock c acc cl) \<noteq> Panic ''stack overflow''"
  using assms(3-5)
proof (induction n arbitrary: c acc)
  case 0
  then have "length acc \<le> card U"
    using card_mono [OF assms(1) "0.prems"(1)] by (simp add: distinct_card)
  with 0 show ?case by simp
next
  case (Suc n)
  have fold: "snd (foldS (step_lock n) sas acc cl) \<noteq> Panic ''stack overflow''"
    if "set acc \<subseteq> U" "distinct acc" "card U < Suc n + length acc" for sas acc
    using that
  proof (induction sas arbitrary: acc)
    case (Cons sa sas)
    have "snd (step_lock n sa acc cl) \<noteq> Panic ''stack overflow''"
      unfolding step_lock_def
    proof (intro bindS_no_overflow)
      show "snd (msgS ''getting sub-channel: %v'' (Client_Channel (sa_ID sa)) cl) \<noteq> Panic ''stack overflow''"
        by (simp add: msgS_def Client_Channel_def getS_def split: option.splits)
    next
      fix t q
      assume "msgS ''getting sub-channel: %v'' (Client_Channel (sa_ID sa)) cl = (t, OK q)"
      then have q: "t = cl" "q \<in> U"
        using assms(2) by (auto simp: registry_Get_def dest!: map_of_SomeD)
      show "snd (lock q acc t) \<noteq> Panic ''stack overflow''"
        by (simp add: lock_def liftS_def)
      fix t' acc'
      assume "lock q acc t = (t', OK acc')"
      with q Suc.IH [of acc' q] Cons.prems show "snd (applyToSubChannelsRecursive n lock q acc' t') \<noteq> Panic ''stack overflow''"
        by auto
    qed
    moreover have "snd (foldS (step_lock n) sas acc1 cl1) \<noteq> Panic ''stack overflow''"
      if one: "step_lock n sa acc cl = (cl1, OK acc1)" for cl1 acc1
    proof -
      obtain q where q: "registry_Get cl (sa_ID sa) = Some q" "q \<notin> set acc"
        "applyToSubChannelsRecursive n lock q (acc @ [q]) cl = (cl1, OK acc1)"
        using one by (auto simp: step_lock_OK_iff)
      have "q \<in> U"
        using q(1) assms(2) by (auto simp: registry_Get_def dest!: map_of_SomeD)
      moreover obtain l where "cl1 = cl" "distinct acc1" "acc1 = (acc @ [q]) @ l" "set l \<subseteq> snd ` set (cl_values cl)"
        using applySub_lock_OK [OF q(3)] q(2) Cons.prems(2) by auto
      ultimately show ?thesis
        using Cons.IH [of acc1] Cons.prems(1,3) assms(2) by auto
    qed
    ultimately show ?case
      unfolding foldS.simps by (intro bindS_no_overflow)
  qed (simp add: returnS_def)
  show ?case
    unfolding applySub_lock_Suc
    using fold [OF Suc.prems] by (intro bindS_no_overflow) (auto simp: chan_def getS_def liftS_def deref_def split: option.splits)
qed

lemma tryLockRecursive_tree:
  "snd (tryLockRecursive c cl) \<noteq> Panic ''stack overflow''"
  "tryLockRecursive c cl = (cl', OK l) \<Longrightarrow> cl' = cl \<and> distinct l \<and> hd l = c \<and> l \<noteq> [] \<and> (\<forall>p \<in> set l. covered cl l p)"
proof -
  let ?U = "insert c (snd ` set (cl_values cl))"
  have "card ?U \<le> Suc (length (cl_values cl))"
    using card_length [of "map snd (cl_values cl)"] by (simp add: card_insert_if)
  then have "snd (applyToSubChannelsRecursive (depth cl) lock c [c] cl) \<noteq> Panic ''stack overflow''"
    by (intro applySub_lock_ends [of ?U]) (auto simp: depth_def)
  then show "snd (tryLockRecursive c cl) \<noteq> Panic ''stack overflow''"
    by (simp add: tryLockRecursive_def applyRecursive_def call_simps lock_def)
  assume "tryLockRecursive c cl = (cl', OK l)"
  then have "applyToSubChannelsRecursive (depth cl) lock c [c] cl = (cl', OK l)"
    by (simp add: tryLockRecursive_def applyRecursive_def call_simps lock_def)
  from applySub_lock_OK [OF this] show "cl' = cl \<and> distinct l \<and> hd l = c \<and> l \<noteq> [] \<and> (\<forall>p \<in> set l. covered cl l p)"
    by auto
qed

section \<open>A dispute covers the tree\<close>

text \<open>Clients that agree on the registry and on the current transactions.\<close>

definition same_states :: "Client \<Rightarrow> Client \<Rightarrow> bool" where
  "same_states cl cl' \<longleftrightarrow> cl_values cl' = cl_values cl \<and>
     (\<forall>p. map_option (\<lambda>ch. (ch_State ch, machine_AdjudicatorReq (ch_machine ch), ch_parent ch)) (cl_heap cl' p) =
          map_option (\<lambda>ch. (ch_State ch, machine_AdjudicatorReq (ch_machine ch), ch_parent ch)) (cl_heap cl p))"

lemma same_states_refl [simp]: "same_states cl cl"
  by (simp add: same_states_def)

lemma same_states_trans: "same_states cl cl' \<Longrightarrow> same_states cl' cl'' \<Longrightarrow> same_states cl cl''"
  by (simp add: same_states_def)

lemma same_states_chan:
  assumes "same_states cl cl'" "cl_heap cl c = Some ch"
  obtains ch' where "cl_heap cl' c = Some ch'" "ch_State ch' = ch_State ch"
    "machine_AdjudicatorReq (ch_machine ch') = machine_AdjudicatorReq (ch_machine ch)"
proof -
  have "map_option (\<lambda>ch. (ch_State ch, machine_AdjudicatorReq (ch_machine ch), ch_parent ch)) (cl_heap cl' c) =
      map_option (\<lambda>ch. (ch_State ch, machine_AdjudicatorReq (ch_machine ch), ch_parent ch)) (cl_heap cl c)"
    using assms(1) unfolding same_states_def by blast
  with assms(2) that show thesis
    by (auto simp: map_option_case split: option.splits)
qed

text \<open>Calls that keep the states and make no request.\<close>

definition keeps :: "(Client, 'a) call \<Rightarrow> bool" where
  "keeps c \<longleftrightarrow> (\<forall>cl. same_states cl (fst (c cl)) \<and> cl_chain (fst (c cl)) = cl_chain cl)"

lemma keeps_bind [intro]:
  assumes "keeps c" "\<And>x. keeps (f x)"
  shows "keeps (bindS c f)"
  unfolding keeps_def
proof
  fix cl
  obtain t r where c: "c cl = (t, r)"
    by (cases "c cl")
  with assms(1) have "same_states cl t \<and> cl_chain t = cl_chain cl"
    by (metis keeps_def fst_conv)
  with assms(2) show "same_states cl (fst (bindS c f cl)) \<and> cl_chain (fst (bindS c f cl)) = cl_chain cl"
    by (cases r) (auto simp: bindS_def c keeps_def intro: same_states_trans)
qed

lemma keeps_base [intro, simp]: "keeps (returnS x)" "keeps (liftS r)" "keeps (getS g)" "keeps (chan c)" "keeps (Client_Channel i)"
  by (simp_all add: keeps_def returnS_def liftS_def getS_def chan_def Client_Channel_def)

lemma keeps_msg [intro]: "keeps c \<Longrightarrow> keeps (msgS m c)"
  by (simp add: keeps_def msgS_def split: prod.splits) (metis fst_conv)

lemma keeps_foldS [intro]: "(\<And>x acc. keeps (f x acc)) \<Longrightarrow> keeps (foldS f xs acc)"
  by (induction xs arbitrary: acc) auto

text \<open>A walk whose steps keep the states keeps them.\<close>

lemma keeps_applySub: "(\<And>x acc. keeps (f x acc)) \<Longrightarrow> keeps (applyToSubChannelsRecursive n f c acc)"
proof (induction n arbitrary: c acc)
  case (Suc n)
  show ?case
    unfolding applyToSubChannelsRecursive.simps
    by (intro keeps_bind keeps_base keeps_foldS keeps_msg Suc.IH Suc.prems)
qed simp

lemma keeps_applyRecursive: "(\<And>x acc. keeps (f x acc)) \<Longrightarrow> keeps (applyRecursive n f c acc)"
  unfolding applyRecursive_def by (intro keeps_bind keeps_applySub)

text \<open>Changing the phase of a channel keeps the states.\<close>

lemma pm_call_keeps:
  assumes "\<And>x m'. r = OK (x, m') \<Longrightarrow> m' = (psm_machine m)\<lparr>m_phase := m_phase m'\<rparr>"
  shows "\<exists>ph. psm_machine (fst (pm_call m r msg persist)) = (psm_machine m)\<lparr>m_phase := ph\<rparr>"
proof (cases r)
  case (OK y)
  then show ?thesis
    using assms by (cases y) (auto simp: pm_call_def split: prod.splits)
next
  case (Err e)
  then show ?thesis
    by (intro exI [of _ "m_phase (psm_machine m)"]) (simp add: pm_call_def)
next
  case (Panic s)
  then show ?thesis
    by (intro exI [of _ "m_phase (psm_machine m)"]) (simp add: pm_call_def)
qed

lemma phase_ops_keep:
  "\<exists>ph. psm_machine (fst (pm_SetRegistering m)) = (psm_machine m)\<lparr>m_phase := ph\<rparr>"
  "\<exists>ph. psm_machine (fst (pm_SetRegistered m)) = (psm_machine m)\<lparr>m_phase := ph\<rparr>"
  unfolding pm_defs by (rule pm_call_keeps; auto simp: no_result_def res_simps set_phase_OK_iffs)+

lemma keeps_on_machine:
  assumes "\<And>m. \<exists>ph. psm_machine (fst (f m)) = (psm_machine m)\<lparr>m_phase := ph\<rparr>"
  shows "keeps (on_machine c f)"
  unfolding keeps_def
proof
  fix cl
  show "same_states cl (fst (on_machine c f cl)) \<and> cl_chain (fst (on_machine c f cl)) = cl_chain cl"
  proof (cases "cl_heap cl c")
    case (Some ch)
    obtain ph where "psm_machine (fst (f \<lparr>psm_machine = ch_machine ch, psm_db = cl_db cl\<rparr>)) = (ch_machine ch)\<lparr>m_phase := ph\<rparr>"
      using assms [of "\<lparr>psm_machine = ch_machine ch, psm_db = cl_db cl\<rparr>"] by auto
    with Some show ?thesis
      by (auto simp: on_machine_def bindS_def chan_def getS_def put_chan_def same_states_def ch_State_def
          machine_AdjudicatorReq_def split: prod.splits)
  qed (simp add: on_machine_def bindS_def chan_def getS_def deref_def)
qed

lemma keeps_set_phases: "keeps (setRegisteringRecursive c)" "keeps (setRegisteredRecursive c)"
  unfolding setRegisteringRecursive_def setRegisteredRecursive_def
  by (intro keeps_bind keeps_base keeps_applyRecursive keeps_on_machine phase_ops_keep)+

text \<open>What two such clients see of the tree.\<close>

lemma same_states_subs: "same_states cl cl' \<Longrightarrow> subs cl' = subs cl"
proof
  fix p
  assume eq: "same_states cl cl'"
  show "subs cl' p = subs cl p"
  proof (cases "cl_heap cl p")
    case None
    moreover have "map_option (\<lambda>ch. (ch_State ch, machine_AdjudicatorReq (ch_machine ch), ch_parent ch)) (cl_heap cl' p) =
        map_option (\<lambda>ch. (ch_State ch, machine_AdjudicatorReq (ch_machine ch), ch_parent ch)) (cl_heap cl p)"
      using eq unfolding same_states_def by blast
    with None have "cl_heap cl' p = None"
      by simp
    ultimately show ?thesis
      by (simp add: subs_def)
  next
    case (Some ch)
    then obtain ch' where "cl_heap cl' p = Some ch'" "ch_State ch' = ch_State ch"
      using same_states_chan [OF eq Some] by blast
    with Some show ?thesis
      by (simp add: subs_def)
  qed
qed

lemma same_states_view:
  assumes "same_states cl cl'"
  shows "registry_Get cl' = registry_Get cl" "covered cl' l p = covered cl l p" "depth cl' = depth cl"
proof -
  show reg: "registry_Get cl' = registry_Get cl"
    using assms by (auto simp: fun_eq_iff same_states_def registry_Get_def)
  then show "covered cl' l p = covered cl l p"
    by (simp add: covered_def same_states_subs [OF assms])
qed (use assms in \<open>simp_all add: same_states_def depth_def\<close>)

lemma fold_lock_extends:
  assumes "foldS (step_lock n) sas acc cl = (cl', OK acc')" "distinct acc"
  shows "\<exists>l. acc' = acc @ l"
  using assms
proof (induction sas arbitrary: acc)
  case (Cons sa sas)
  obtain cl1 acc1 q where "foldS (step_lock n) sas acc1 cl1 = (cl', OK acc')" "q \<notin> set acc"
    and q: "applyToSubChannelsRecursive n lock q (acc @ [q]) cl = (cl1, OK acc1)"
    using Cons.prems(1) by (auto simp: bindS_OK_iff step_lock_OK_iff)
  with applySub_lock_OK [OF q] Cons.IH [of acc1] Cons.prems(2) show ?case
    by auto
qed (simp add: returnS_def)

text \<open>A later walk visits the channels that the locking walk has met, in the same order: \<open>J\<close> holds of
  the channels visited so far, the client and what has been collected.\<close>

lemma walk_visits:
  assumes "applyToSubChannelsRecursive n lock c acc cl = (cl', OK (acc @ l))" "distinct acc" "J vs t x"
    and J: "\<And>vs t x. J vs t x \<Longrightarrow> same_states cl t"
    and f: "\<And>p vs t x. p \<in> set l \<Longrightarrow> J vs t x \<Longrightarrow> \<exists>t' x'. f p x t = (t', OK x') \<and> J (vs @ [p]) t' x'"
  shows "\<exists>t' x'. applyToSubChannelsRecursive n f c x t = (t', OK x') \<and> J (vs @ l) t' x'"
  using assms(1-3) f
proof (induction n arbitrary: c acc cl' l vs t x)
  case (Suc n)
  let ?step = "\<lambda>subAlloc acc. bindS (msgS ''getting sub-channel: %v'' (Client_Channel (sa_ID subAlloc)))
    (\<lambda>sub. bindS (f sub acc) (applyToSubChannelsRecursive n f sub))"
  obtain ch s where ch: "cl_heap cl c = Some ch" "ch_State ch = Some s"
    and fold: "foldS (step_lock n) (al_Locked (st_Alloc s)) acc cl = (cl', OK (acc @ l))"
    using Suc.prems(1) unfolding applySub_lock_Suc by (auto simp: bindS_OK_iff deref_OK_iff)
  have "\<exists>t' x'. foldS ?step sas x t = (t', OK x') \<and> J (vs @ l) t' x'"
    if "foldS (step_lock n) sas acc cl = (cl', OK (acc @ l))" "distinct acc" "J vs t x"
      "\<And>p vs t x. p \<in> set l \<Longrightarrow> J vs t x \<Longrightarrow> \<exists>t' x'. f p x t = (t', OK x') \<and> J (vs @ [p]) t' x'" for sas acc l vs t x
    using that
  proof (induction sas arbitrary: acc l vs t x)
    case (Cons sa sas)
    obtain cl2 acc2 where one: "step_lock n sa acc cl = (cl2, OK acc2)" "foldS (step_lock n) sas acc2 cl2 = (cl', OK (acc @ l))"
      using Cons.prems(1) by (auto simp: bindS_OK_iff)
    obtain q where q: "registry_Get cl (sa_ID sa) = Some q" "q \<notin> set acc"
      "applyToSubChannelsRecursive n lock q (acc @ [q]) cl = (cl2, OK acc2)"
      using one(1) by (auto simp: step_lock_OK_iff)
    obtain l1 where l1: "cl2 = cl" "distinct acc2" "acc2 = (acc @ [q]) @ l1"
      using applySub_lock_OK [OF q(3)] q(2) Cons.prems(2) by auto
    obtain l2 where l2: "acc @ l = acc2 @ l2"
      using fold_lock_extends [of n sas acc2 cl] one(2) l1(1,2) by blast
    have l: "l = q # l1 @ l2"
      using l1(3) l2 by simp
    obtain t1 x1 where 1: "f q x t = (t1, OK x1)" "J (vs @ [q]) t1 x1"
      using Cons.prems(4) [of q vs t x] Cons.prems(3) l by auto
    obtain t2 x2 where 2: "applyToSubChannelsRecursive n f q x1 t1 = (t2, OK x2)" "J ((vs @ [q]) @ l1) t2 x2"
      using Suc.IH [of q "acc @ [q]" cl2 l1 "vs @ [q]" t1 x1] q l1 1(2) Cons.prems(2,4) unfolding l by auto
    obtain t3 x3 where 3: "foldS ?step sas x2 t2 = (t3, OK x3)" "J (((vs @ [q]) @ l1) @ l2) t3 x3"
      using Cons.IH [of acc2 l2 "(vs @ [q]) @ l1" t2 x2] one(2) l1(1,2) l2 2(2) Cons.prems(4) unfolding l by auto
    have "registry_Get t (sa_ID sa) = Some q"
      using q(1) same_states_view(1) [OF J [OF Cons.prems(3)]] by simp
    with 1(1) 2(1) 3 l show ?case
      by (auto simp: bindS_OK_iff)
  qed (simp add: returnS_def)
  from this [OF fold Suc.prems(2-4)] obtain t' x' where
    walk: "foldS ?step (al_Locked (st_Alloc s)) x t = (t', OK x')" "J (vs @ l) t' x'"
    by blast
  obtain ch1 where "cl_heap t c = Some ch1" "ch_State ch1 = Some s"
    using same_states_chan [OF J [OF Suc.prems(3)] ch(1)] ch(2) by auto
  with walk show ?case
    by (auto simp: bindS_OK_iff deref_OK_iff)
qed simp

lemma tryLock_walk:
  assumes "tryLockRecursive c cl = (cl', OK l)"
  obtains l' where "l = c # l'" "applyToSubChannelsRecursive (depth cl) lock c [c] cl = (cl', OK ([c] @ l'))"
    "\<forall>p \<in> set l. covered cl l p" "cl' = cl" "distinct l"
proof -
  have "applyToSubChannelsRecursive (depth cl) lock c [c] cl = (cl', OK l)"
    using assms by (simp add: tryLockRecursive_def applyRecursive_def call_simps lock_def)
  then show thesis
    using that tryLockRecursive_tree(2) [OF assms] by (cases l) auto
qed

lemma tree_visits:
  assumes "tryLockRecursive c cl = (cl', OK l)" "J [] t x"
    and J: "\<And>vs t x. J vs t x \<Longrightarrow> same_states cl t"
    and f: "\<And>p vs t x. p \<in> set l \<Longrightarrow> J vs t x \<Longrightarrow> \<exists>t' x'. f p x t = (t', OK x') \<and> J (vs @ [p]) t' x'"
  shows "\<exists>t' x'. applyRecursive (depth cl) f c x t = (t', OK x') \<and> J l t' x'"
proof -
  obtain l' where l: "l = c # l'" and walk: "applyToSubChannelsRecursive (depth cl) lock c [c] cl = (cl', OK ([c] @ l'))"
    using tryLock_walk [OF assms(1)] by metis
  obtain t1 x1 where 1: "f c x t = (t1, OK x1)" "J [c] t1 x1"
    using f [of c "[]" t x] assms(2) l by auto
  have "\<exists>t' x'. applyToSubChannelsRecursive (depth cl) f c x1 t1 = (t', OK x') \<and> J ([c] @ l') t' x'"
    using f l by (intro walk_visits [where J = J, OF walk _ 1(2) J]) auto
  with 1(1) l show ?thesis
    by (auto simp: applyRecursive_def bindS_OK_iff)
qed

text \<open>The signed state that a client holds of a channel.\<close>

definition signed_state :: "Client \<Rightarrow> cref \<Rightarrow> SignedState" where
  "signed_state cl c = (let m = ch_machine (the (cl_heap cl c)) in
     \<lparr>ss_Params = m_params m, ss_State = the (tx_State (m_currentTX m)), ss_Sigs = tx_Sigs (m_currentTX m)\<rparr>)"

lemma same_states_signed_state:
  assumes "same_states cl cl'" "cl_heap cl c = Some ch"
  shows "signed_state cl' c = signed_state cl c"
proof -
  obtain ch' where "cl_heap cl' c = Some ch'" "machine_AdjudicatorReq (ch_machine ch') = machine_AdjudicatorReq (ch_machine ch)"
    using same_states_chan [OF assms] by blast
  with assms(2) show ?thesis
    by (simp add: signed_state_def machine_AdjudicatorReq_def Let_def)
qed

lemma addSignedState_eq:
  assumes "covered cl l c"
  shows "addSignedState c xs cl = (cl, OK (xs @ [signed_state cl c]))"
  using assms by (auto simp: covered_def subs_def addSignedState_def signed_state_def bindS_OK_iff deref_OK_iff ch_State_def
      Let_def returnS_def bind_eq_Some_conv)

lemma gather_tree:
  assumes "tryLockRecursive c cl = (cl', OK l)" "same_states cl cl1"
  shows "gatherSubChannelStates c cl1 = (cl1, OK (map (signed_state cl) (tl l)))"
proof -
  let ?J = "\<lambda>vs t x. t = cl1 \<and> x = map (signed_state cl) vs"
  obtain l' where l: "l = c # l'" "\<forall>p \<in> set l. covered cl l p"
    and walk: "applyToSubChannelsRecursive (depth cl) lock c [c] cl = (cl', OK ([c] @ l'))"
    using tryLock_walk [OF assms(1)] by metis
  have f: "\<exists>t' x'. addSignedState p x t = (t', OK x') \<and> ?J (vs @ [p]) t' x'" if "p \<in> set l'" "?J vs t x" for p vs t x
  proof -
    have p: "covered cl l p"
      using that l by simp
    then obtain ch where "cl_heap cl p = Some ch"
      by (auto simp: covered_def subs_def bind_eq_Some_conv)
    then show ?thesis
      using addSignedState_eq [of cl1 l p] p that(2) same_states_view(2) [OF assms(2)] same_states_signed_state [OF assms(2)] by simp
  qed
  have "\<exists>t' x'. applyToSubChannelsRecursive (depth cl) addSignedState c [] cl1 = (t', OK x') \<and> ?J ([] @ l') t' x'"
    by (rule walk_visits [where J = ?J, OF walk]) (use f assms(2) in auto)
  with l(1) show ?thesis
    by (auto simp: gatherSubChannelStates_def bindS_OK_iff getS_def same_states_view(3) [OF assms(2)])
qed

lemma keepsD:
  assumes "keeps f" "f cl = (cl', r)"
  shows "same_states cl cl'" "cl_chain cl' = cl_chain cl"
  using assms unfolding keeps_def by (metis fst_conv)+

lemma tree_signed_states:
  assumes "tryLockRecursive c cl = (cl', OK l)" "same_states cl cl1" "p \<in> set l"
  shows "signed_state cl1 p = signed_state cl p"
proof -
  have "covered cl l p"
    using assms(3) tryLockRecursive_tree(2) [OF assms(1)] by blast
  then obtain ch where "cl_heap cl p = Some ch"
    by (auto simp: covered_def subs_def bind_eq_Some_conv)
  then show ?thesis
    by (rule same_states_signed_state [OF assms(2)])
qed

text \<open>Two clients that agree on the states lock the same channels.\<close>

lemma applySub_lock_same:
  assumes "applyToSubChannelsRecursive n lock c acc cl = (cl', OK acc')" "distinct acc" "same_states cl t"
  shows "applyToSubChannelsRecursive n lock c acc t = (t, OK acc')"
  using assms(1,2)
proof (induction n arbitrary: c acc cl' acc')
  case (Suc n)
  obtain ch s where ch: "cl_heap cl c = Some ch" "ch_State ch = Some s"
    and fold: "foldS (step_lock n) (al_Locked (st_Alloc s)) acc cl = (cl', OK acc')"
    using Suc.prems(1) unfolding applySub_lock_Suc by (auto simp: bindS_OK_iff deref_OK_iff)
  have "foldS (step_lock n) sas acc t = (t, OK acc')"
    if "foldS (step_lock n) sas acc cl = (cl', OK acc')" "distinct acc" for sas acc
    using that
  proof (induction sas arbitrary: acc)
    case (Cons sa sas)
    obtain cl1 acc1 q where one: "foldS (step_lock n) sas acc1 cl1 = (cl', OK acc')"
      and q: "registry_Get cl (sa_ID sa) = Some q" "q \<notin> set acc"
        "applyToSubChannelsRecursive n lock q (acc @ [q]) cl = (cl1, OK acc1)"
      using Cons.prems(1) by (auto simp: bindS_OK_iff step_lock_OK_iff)
    then have "cl1 = cl" "distinct acc1"
      using applySub_lock_OK [OF q(3)] Cons.prems(2) by auto
    then show ?case
      using Cons.IH [of acc1] one Suc.IH [OF q(3)] q(1,2) Cons.prems(2) same_states_view(1) [OF assms(3)]
      by (auto simp: bindS_OK_iff step_lock_OK_iff)
  qed (simp add: returnS_def)
  from this [OF fold Suc.prems(2)] have walk: "foldS (step_lock n) (al_Locked (st_Alloc s)) acc t = (t, OK acc')" .
  obtain ch1 where "cl_heap t c = Some ch1" "ch_State ch1 = Some s"
    using same_states_chan [OF assms(3) ch(1)] ch(2) by auto
  with walk show ?case
    unfolding applySub_lock_Suc by (simp add: bindS_OK_iff deref_OK_iff)
qed simp

lemma tryLock_same:
  assumes "tryLockRecursive c cl = (cl', OK l)" "same_states cl t"
  shows "tryLockRecursive c t = (t, OK l)"
  using assms applySub_lock_same [of "depth cl" c "[c]" cl cl' l t]
  by (simp add: tryLockRecursive_def applyRecursive_def call_simps lock_def same_states_view(3) [OF assms(2)])

text \<open>The root of a tree, the channel that has no parent.\<close>

inductive root_of :: "Client \<Rightarrow> cref \<Rightarrow> cref \<Rightarrow> bool" for cl where
  root: "cl_heap cl c = Some ch \<Longrightarrow> ch_parent ch = None \<Longrightarrow> root_of cl c c"
| child: "cl_heap cl c = Some ch \<Longrightarrow> ch_parent ch = Some p \<Longrightarrow> p < c \<Longrightarrow> root_of cl p r \<Longrightarrow> root_of cl c r"

lemma same_states_parent:
  assumes "same_states cl cl'" "cl_heap cl c = Some ch"
  obtains ch' where "cl_heap cl' c = Some ch'" "ch_parent ch' = ch_parent ch"
proof -
  have "map_option (\<lambda>ch. (ch_State ch, machine_AdjudicatorReq (ch_machine ch), ch_parent ch)) (cl_heap cl' c) =
      map_option (\<lambda>ch. (ch_State ch, machine_AdjudicatorReq (ch_machine ch), ch_parent ch)) (cl_heap cl c)"
    using assms(1) unfolding same_states_def by blast
  with assms(2) that show thesis
    by (auto simp: map_option_case split: option.splits)
qed

lemma same_states_root: "root_of cl c r \<Longrightarrow> same_states cl cl' \<Longrightarrow> root_of cl' c r"
proof (induction rule: root_of.induct)
  case (root c ch)
  then show ?case
    using same_states_parent [of cl cl' c ch] by (metis root_of.root)
next
  case (child c ch p r)
  then show ?case
    using same_states_parent [of cl cl' c ch] by (metis root_of.child)
qed

lemma registerUp_root:
  assumes "root_of cl c r" "c < n"
  shows "registerUp n A c cl = registerRoot A r cl"
  using assms
proof (induction arbitrary: n rule: root_of.induct)
  case (root c ch)
  then show ?case
    by (cases n) (simp_all add: bindS_def chan_def getS_def deref_def)
next
  case (child c ch p r)
  then show ?case
    by (cases n) (simp_all add: bindS_def chan_def getS_def deref_def)
qed

lemma Channel_Register_root: "root_of cl c r \<Longrightarrow> Channel_Register A c cl = registerRoot A r cl"
  unfolding Channel_Register_def by (rule registerUp_root) simp_all

section \<open>Refuting an outdated registration\<close>

text \<open>A channel that is past the opening can always be marked as registering or registered.\<close>

lemma PhaseChanged_OK:
  assumes "\<not> mdb_nil d"
  shows "\<exists>d'. PhaseChanged d s = (d', OK ()) \<and> \<not> mdb_nil d'"
  using assms
  by (simp add: PhaseChanged_def table_PutBytes_def db_PutBytes_def db_Put_def Phase_Encode_def Encode_def encArg_def
      Encode_value_def catE_def)

lemma set_phase_call:
  assumes "machine_at t p = Some m" "Funding \<le> m_phase m" "\<not> mdb_nil (cl_db t)"
  shows "\<exists>t'. on_machine p pm_SetRegistering t = (t', OK ()) \<and> \<not> mdb_nil (cl_db t') \<and>
      machine_at t' = (machine_at t)(p \<mapsto> setPhase m Registering)"
    "\<exists>t'. on_machine p pm_SetRegistered t = (t', OK ()) \<and> \<not> mdb_nil (cl_db t') \<and>
      machine_at t' = (machine_at t)(p \<mapsto> setPhase m Registered)"
proof -
  obtain ch where ch: "cl_heap t p = Some ch" "ch_machine ch = m"
    using assms(1) by (auto simp: machine_at_def)
  have "\<exists>d'. pm_SetRegistering \<lparr>psm_machine = m, psm_db = cl_db t\<rparr> = (\<lparr>psm_machine = setPhase m Registering, psm_db = d'\<rparr>, OK ()) \<and> \<not> mdb_nil d'"
    "\<exists>d'. pm_SetRegistered \<lparr>psm_machine = m, psm_db = cl_db t\<rparr> = (\<lparr>psm_machine = setPhase m Registered, psm_db = d'\<rparr>, OK ()) \<and> \<not> mdb_nil d'"
    using PhaseChanged_OK [OF assms(3), of "source_of (setPhase m Registering)"] assms(2)
      PhaseChanged_OK [OF assms(3), of "source_of (setPhase m Registered)"]
    by (auto simp: pm_defs pm_call_def no_result_def SetRegistering_def SetRegistered_def not_less [symmetric])
  with ch show "\<exists>t'. on_machine p pm_SetRegistering t = (t', OK ()) \<and> \<not> mdb_nil (cl_db t') \<and>
      machine_at t' = (machine_at t)(p \<mapsto> setPhase m Registering)"
    "\<exists>t'. on_machine p pm_SetRegistered t = (t', OK ()) \<and> \<not> mdb_nil (cl_db t') \<and>
      machine_at t' = (machine_at t)(p \<mapsto> setPhase m Registered)"
    by (auto simp: on_machine_def bindS_def chan_def getS_def deref_def put_chan_def machine_at_def fun_eq_iff)
qed

text \<open>The channels of \<open>l\<close> are past the opening, those of \<open>vs\<close> in phase \<open>ph\<close>.\<close>

definition opened :: "Client \<Rightarrow> cref list \<Rightarrow> bool" where
  "opened cl l \<longleftrightarrow> \<not> mdb_nil (cl_db cl) \<and> (\<forall>p \<in> set l. \<exists>m. machine_at cl p = Some m \<and> Funding \<le> m_phase m)"

definition in_phase :: "Phase \<Rightarrow> Client \<Rightarrow> cref list \<Rightarrow> bool" where
  "in_phase ph cl vs \<longleftrightarrow> (\<forall>p \<in> set vs. \<exists>m. machine_at cl p = Some m \<and> m_phase m = ph)"

lemma set_phase_opened:
  assumes "opened t l" "in_phase ph t vs" "machine_at t' = (machine_at t)(p \<mapsto> setPhase m ph)" "\<not> mdb_nil (cl_db t')"
    and "ph \<in> {Registering, Registered}"
  shows "opened t' l" "in_phase ph t' (vs @ [p])"
proof -
  have "Funding \<le> ph"
    using assms(5) by (auto simp: less_eq_Phase_def)
  then show "opened t' l"
    using assms(1,3,4) by (auto simp: opened_def setPhase_def)
  show "in_phase ph t' (vs @ [p])"
    using assms(2,3) by (auto simp: in_phase_def setPhase_def)
qed

lemma set_phases_tree:
  assumes "tryLockRecursive c cl = (cl', OK l)" "same_states cl t" "opened t l"
  shows "\<exists>t'. setRegisteringRecursive c t = (t', OK ()) \<and> same_states cl t' \<and> opened t' l"
    "\<exists>t'. setRegisteredRecursive c t = (t', OK ()) \<and> same_states cl t' \<and> opened t' l \<and> in_phase Registered t' l"
proof -
  let ?J = "\<lambda>ph vs t x. same_states cl t \<and> opened t l \<and> in_phase ph t vs"
  have step: "\<exists>t' x'. on_machine p (if ph = Registering then pm_SetRegistering else pm_SetRegistered) t = (t', OK x') \<and> ?J ph (vs @ [p]) t' x'"
    if p: "p \<in> set l" and J: "?J ph vs t x" and ph: "ph \<in> {Registering, Registered}" for ph p vs t x
  proof -
    let ?f = "on_machine p (if ph = Registering then pm_SetRegistering else pm_SetRegistered)"
    obtain m where m: "machine_at t p = Some m" "Funding \<le> m_phase m" "\<not> mdb_nil (cl_db t)"
      using p J by (auto simp: opened_def)
    obtain t' where t': "?f t = (t', OK ())" "\<not> mdb_nil (cl_db t')" "machine_at t' = (machine_at t)(p \<mapsto> setPhase m ph)"
      using set_phase_call [OF m] ph by (cases "ph = Registering") auto
    moreover have "keeps ?f"
      using phase_ops_keep by (intro keeps_on_machine) auto
    then have "same_states t t'"
      using t'(1) by (rule keepsD(1))
    ultimately show ?thesis
      using J set_phase_opened [OF _ _ t'(3,2) ph, of l vs] same_states_trans by blast
  qed
  have start: "?J ph [] t ()" for ph
    using assms(2,3) by (simp add: in_phase_def)
  have walk: "\<exists>t' x'. applyRecursive (depth cl) (\<lambda>p _. on_machine p (if ph = Registering then pm_SetRegistering else pm_SetRegistered)) c () t
      = (t', OK x') \<and> ?J ph l t' x'" if "ph \<in> {Registering, Registered}" for ph
    using that by (intro tree_visits [where J = "?J ph", OF assms(1) start]) (use step in auto)
  show "\<exists>t'. setRegisteringRecursive c t = (t', OK ()) \<and> same_states cl t' \<and> opened t' l"
    "\<exists>t'. setRegisteredRecursive c t = (t', OK ()) \<and> same_states cl t' \<and> opened t' l \<and> in_phase Registered t' l"
    using walk [of Registering] walk [of Registered]
    by (auto simp: setRegisteringRecursive_def setRegisteredRecursive_def bindS_OK_iff getS_def same_states_view(3) [OF assms(2)])
qed

text \<open>A registration is one request, with the channel and every channel below it.\<close>

lemma registerRoot_tree:
  assumes "tryLockRecursive c cl = (cl', OK (c # l))" "opened cl (c # l)" "cl_heap cl c = Some ch"
    and "ad_Register A (machine_AdjudicatorReq (ch_machine ch)) (map (signed_state cl) l) = OK ()"
  shows "\<exists>cl'. registerRoot A c cl = (cl', OK ()) \<and> in_phase Registered cl' (c # l) \<and>
    cl_chain cl' = cl_chain cl @ [CallRegister (machine_AdjudicatorReq (ch_machine ch)) (map (signed_state cl) l)]"
proof -
  let ?req = "machine_AdjudicatorReq (ch_machine ch)" and ?subs = "map (signed_state cl) l"
  have lock: "tryLockRecursive c cl = (cl, OK (c # l))"
    using assms(1) tryLockRecursive_tree(2) [OF assms(1)] by simp
  obtain t where t: "setRegisteringRecursive c cl = (t, OK ())" "same_states cl t" "opened t (c # l)"
    using set_phases_tree(1) [OF lock same_states_refl assms(2)] by blast
  obtain tch where tch: "cl_heap t c = Some tch" "machine_AdjudicatorReq (ch_machine tch) = ?req"
    using same_states_chan [OF t(2) assms(3)] by blast
  let ?u = "t\<lparr>cl_chain := cl_chain t @ [CallRegister ?req ?subs]\<rparr>"
  have "same_states cl ?u" "opened ?u (c # l)"
    using t(2,3) by (simp_all add: same_states_def opened_def machine_at_def)
  then obtain u' where u': "setRegisteredRecursive c ?u = (u', OK ())" "in_phase Registered u' (c # l)"
    using set_phases_tree(2) [OF lock] by blast
  have "registerRoot A c cl = (u', OK ())"
    using lock t(1) gather_tree [OF lock t(2)] tch u'(1) assms(4)
    by (simp add: registerRoot_def bindS_OK_iff chainCall_def Let_def)
  then show ?thesis
    using u' keepsD(2) [OF keeps_set_phases(2) u'(1)] keepsD(2) [OF keeps_set_phases(1) t(1)] by simp
qed

text \<open>An outdated registration of a channel is refuted from the root of its tree.\<close>

lemma refutation:
  assumes "root_of cl c r" "tryLockRecursive r cl = (cl, OK (r # l))" "c \<in> set (r # l)" "opened cl (r # l)"
    and ch: "cl_heap cl c = Some ch" "ch_State ch = Some own" "v < st_Version own"
    and r: "cl_heap cl r = Some rch"
      "ad_Register A (machine_AdjudicatorReq (ch_machine rch)) (map (signed_state cl) l) = OK ()"
  shows "\<exists>cl'. watchEvent B A c (RegisteredEvent i t v s sigs) cl = (cl', OK ()) \<and> in_phase Registered cl' (r # l) \<and>
    cl_chain cl' = cl_chain cl @ [CallRegister (machine_AdjudicatorReq (ch_machine rch)) (map (signed_state cl) l)]"
proof -
  obtain m where "machine_at cl c = Some m" "Funding \<le> m_phase m" "\<not> mdb_nil (cl_db cl)"
    using assms(3,4) by (auto simp: opened_def)
  from set_phase_call(2) [OF this] obtain cl1 where
    cl1: "on_machine c pm_SetRegistered cl = (cl1, OK ())" "\<not> mdb_nil (cl_db cl1)"
      "machine_at cl1 = (machine_at cl)(c \<mapsto> setPhase m Registered)"
    by blast
  note keep = keepsD [OF keeps_on_machine [OF phase_ops_keep(2)] cl1(1)]
  have op: "opened cl1 (r # l)"
    using set_phase_opened(1) [OF assms(4) _ cl1(3,2), of "[]"] by (simp add: in_phase_def)
  have lock: "tryLockRecursive r cl1 = (cl1, OK (r # l))"
    using tryLock_same [OF assms(2) keep(1)] .
  obtain rch1 where rch1: "cl_heap cl1 r = Some rch1"
    "machine_AdjudicatorReq (ch_machine rch1) = machine_AdjudicatorReq (ch_machine rch)"
    using same_states_chan [OF keep(1) r(1)] by blast
  have sts: "map (signed_state cl1) l = map (signed_state cl) l"
    using tree_signed_states [OF assms(2) keep(1)] by simp
  from registerRoot_tree [OF lock op rch1(1), of A] rch1(2) sts r(2) obtain cl' where
    cl': "registerRoot A r cl1 = (cl', OK ())" "in_phase Registered cl' (r # l)"
    "cl_chain cl' = cl_chain cl1 @ [CallRegister (machine_AdjudicatorReq (ch_machine rch)) (map (signed_state cl) l)]"
    by auto
  moreover obtain ch1 where "cl_heap cl1 c = Some ch1" "ch_State ch1 = Some own"
    using same_states_chan [OF keep(1) ch(1)] ch(2) by auto
  ultimately have "watchEvent B A c (RegisteredEvent i t v s sigs) cl = (cl', OK ())"
    using cl1(1) ch(3) Channel_Register_root [OF same_states_root [OF assms(1) keep(1)], of A]
    by (simp add: watchEvent_def setMachinePhase_def refute_def bindS_OK_iff deref_OK_iff)
  with cl'(2,3) keep(2) show ?thesis by simp
qed

end
