(* ===== verification/Perun_Settle.thy ===== *)
theory Perun_Settle
  imports Perun_Dispute
begin

text \<open>
  Settling a ledger channel with everything below it (\<open>client/adjudicate.go\<close>, \<open>Settle\<close>).

  Shown here: when the adjudicator pays out, \<open>Settle\<close> returns, and the adjudicator was asked once, with
  the current transaction of the channel and the states of all channels below; all channels of the tree
  are in phase \<open>Withdrawn\<close>, are removed from the database, and each has released its account.
\<close>

section \<open>What an operation on one channel leaves of the others\<close>

text \<open>The database changes only in the entries of the channel \<open>i\<close>.\<close>

definition db_frame :: "'m channel_backend_scheme \<Rightarrow> ID \<Rightarrow> memdb \<Rightarrow> memdb \<Rightarrow> bool" where
  "db_frame B i d d' \<longleftrightarrow> db_inv d' \<and>
     (\<forall>k. db_map d' k \<noteq> db_map d k \<longrightarrow>
        prefix (channelDB i) k \<or> (\<exists>a key. peerChannelKey B a i = OK key \<and> k = kv_PeerDB @ key))"

text \<open>A channel with this machine is stored, and listed for its peers.\<close>

definition on_disk ::
    "'m channel_backend_scheme \<Rightarrow> (address \<Rightarrow> bool) \<Rightarrow> (bytes \<Rightarrow> bool) \<Rightarrow> (asset \<Rightarrow> bool) \<Rightarrow> memdb \<Rightarrow> StateMachine \<Rightarrow> bool" where
  "on_disk B wa ws wt d m \<longleftrightarrow> source_ok B wa ws wt (source_of m) \<and>
     (\<exists>peers parent. list_all wa peers \<and> length peers < 2 ^ 16 \<and> persisted B d (source_of m) peers parent \<and>
        (\<forall>a \<in> set peers. \<forall>key. peerChannelKey B a (machine_ID m) = OK key \<longrightarrow> db_map d (kv_PeerDB @ key) \<noteq> None))"

text \<open>Nothing but the entry of the parent is stored of a channel.\<close>

definition off_disk :: "memdb \<Rightarrow> ID \<Rightarrow> bool" where
  "off_disk d i \<longleftrightarrow> (\<forall>key. key \<noteq> str ''parent'' \<longrightarrow> db_map d (channelDB i @ key) = None)"

lemma peerChannelKey_ID:
  assumes "peerChannelKey B a i = OK key" "peerChannelKey B a' j = OK key" "length i = length j"
  shows "i = j"
  using assms by (auto simp: peerChannelKey_def res_simps Encode_def encArg_def Encode_value_def catE_def)

lemma frame_channelDB:
  assumes "db_frame B i d d'" "prefix (kv_ChannelDB @ j) k" "length i = length j" "i \<noteq> j"
  shows "db_map d' k = db_map d k"
proof (rule ccontr)
  assume "db_map d' k \<noteq> db_map d k"
  with assms(1) consider "prefix (channelDB i) k" | key where "k = kv_PeerDB @ key"
    by (auto simp: db_frame_def)
  then show False
  proof cases
    case 1
    then show ?thesis
      using assms(2-4) by (auto simp: channelDB_def prefix_def)
  next
    case 2
    then show ?thesis
      using assms(2) peerTable_other [of k key] by (auto dest: append_prefixD)
  qed
qed

lemma off_disk_frame:
  assumes "db_frame B i d d'" "off_disk d j" "length i = length j" "i \<noteq> j"
  shows "off_disk d' j"
  using assms(2) frame_channelDB [OF assms(1) _ assms(3,4)] by (auto simp: off_disk_def channelDB_def)

lemma on_disk_frame:
  assumes "db_frame B i d d'" "on_disk B wa ws wt d m" "length i = 32" "i \<noteq> machine_ID m"
  shows "on_disk B wa ws wt d' m"
proof -
  obtain peers parent where m: "source_ok B wa ws wt (source_of m)" "list_all wa peers" "length peers < 2 ^ 16"
      "persisted B d (source_of m) peers parent"
      "\<And>a key. a \<in> set peers \<Longrightarrow> peerChannelKey B a (machine_ID m) = OK key \<Longrightarrow> db_map d (kv_PeerDB @ key) \<noteq> None"
    using assms(2) unfolding on_disk_def by blast
  have len: "length i = length (machine_ID m)"
    using m(1) assms(3) by (simp add: source_ok_def machine_ID_def)
  note same = frame_channelDB [OF assms(1) _ len assms(4)]
  have "prefix (kv_ChannelDB @ machine_ID m) (channelDB (machine_ID m) @ key)" for key
    by (simp add: channelDB_def)
  with same have "persisted B d' (source_of m) peers parent"
    using m(4) assms(1) unfolding persisted_def Let_def db_frame_def by (auto simp: machine_ID_def)
  moreover have "db_map d' (kv_PeerDB @ key) \<noteq> None" if a: "a \<in> set peers" "peerChannelKey B a (machine_ID m) = OK key" for a key
  proof -
    have "\<not> prefix (channelDB i) (kv_PeerDB @ key)"
      using peerTable_other [of "kv_PeerDB @ key" key] by (auto simp: channelDB_def dest: append_prefixD)
    moreover have "\<not> peerChannelKey B a' i = OK key" for a'
      using peerChannelKey_ID [OF _ a(2) len] assms(4) by blast
    ultimately have "db_map d' (kv_PeerDB @ key) = db_map d (kv_PeerDB @ key)"
      using assms(1) unfolding db_frame_def by (metis same_append_eq)
    with m(5) [OF a] show ?thesis
      by simp
  qed
  ultimately show ?thesis
    using m(1-3) unfolding on_disk_def by blast
qed

lemma PhaseChanged_frame:
  assumes "db_inv d" "PhaseChanged d s = (d', OK ())"
  shows "db_frame B (p_id (src_Params s)) d d'"
proof -
  let ?k = "channelDB (p_id (src_Params s)) @ str ''phase''"
  obtain v where "db_Put d ?k v = OK d'"
    using assms(2) by (auto simp: PhaseChanged_def table_PutBytes_def db_PutBytes_def pkey_def res_simps split: res.splits)
  with db_Put_map [OF assms(1), of ?k v] show ?thesis
    by (auto simp: db_frame_def)
qed

section \<open>The two phases of a withdrawal\<close>

context channel_codec
begin

lemma SetWithdrawing_on_disk:
  assumes "on_disk B wf_addr wf_sig wf_asset d m" "m_phase m \<in> {Final, Registered, Progressed, Withdrawing}"
  shows "\<exists>d'. pm_SetWithdrawing \<lparr>psm_machine = m, psm_db = d\<rparr> = (\<lparr>psm_machine = m\<lparr>m_phase := Withdrawing\<rparr>, psm_db = d'\<rparr>, OK ()) \<and>
     db_frame B (machine_ID m) d d' \<and> on_disk B wf_addr wf_sig wf_asset d' (m\<lparr>m_phase := Withdrawing\<rparr>)"
proof -
  let ?m = "m\<lparr>m_phase := Withdrawing\<rparr>"
  obtain peers parent where m: "source_ok B wf_addr wf_sig wf_asset (source_of m)" "list_all wf_addr peers" "length peers < 2 ^ 16"
      "persisted B d (source_of m) peers parent"
      "\<And>a key. a \<in> set peers \<Longrightarrow> peerChannelKey B a (machine_ID m) = OK key \<Longrightarrow> db_map d (kv_PeerDB @ key) \<noteq> None"
    using assms(1) unfolding on_disk_def by blast
  have ok: "source_ok B wf_addr wf_sig wf_asset (source_of ?m)"
    using m(1) by (simp add: source_ok_def)
  obtain d' where d': "PhaseChanged d (source_of ?m) = (d', OK ())" "persisted B d' (source_of ?m) peers parent"
    using PhaseChanged_persisted [OF ok m(4)] by auto
  have frame: "db_frame B (machine_ID m) d d'"
    using PhaseChanged_frame [OF _ d'(1)] m(4) by (simp add: persisted_def machine_ID_def)
  have "db_map d' (kv_PeerDB @ key) = db_map d (kv_PeerDB @ key)" for key
  proof -
    obtain v where "db_Put d (channelDB (machine_ID m) @ str ''phase'') v = OK d'"
      using d'(1) by (auto simp: PhaseChanged_def table_PutBytes_def db_PutBytes_def pkey_def res_simps machine_ID_def split: res.splits)
    with db_Put_map [of d "channelDB (machine_ID m) @ str ''phase''" v] m(4) show ?thesis
      using peerTable_other [of "channelDB (machine_ID m) @ str ''phase''" key] by (auto simp: persisted_def channelDB_def)
  qed
  with m ok d'(2) have "on_disk B wf_addr wf_sig wf_asset d' ?m"
    unfolding on_disk_def by (auto simp: machine_ID_def)
  moreover have "SetWithdrawing m = OK ?m"
    using assms(2) by (simp add: set_phase_OK_iffs)
  then have "pm_SetWithdrawing \<lparr>psm_machine = m, psm_db = d\<rparr> = (\<lparr>psm_machine = ?m, psm_db = d'\<rparr>, OK ())"
    using d'(1) by (simp add: pm_SetWithdrawing_def pm_call_def no_result_def)
  ultimately show ?thesis
    using frame by blast
qed

lemma SetWithdrawn_on_disk:
  assumes "on_disk B wf_addr wf_sig wf_asset d m" "m_phase m = Withdrawing"
  shows "\<exists>d'. pm_SetWithdrawn B \<lparr>psm_machine = m, psm_db = d\<rparr> = (\<lparr>psm_machine = m\<lparr>m_phase := Withdrawn\<rparr>, psm_db = d'\<rparr>, OK ()) \<and>
     db_frame B (machine_ID m) d d' \<and> off_disk d' (machine_ID m)"
proof -
  obtain peers parent where m: "source_ok B wf_addr wf_sig wf_asset (source_of m)" "list_all wf_addr peers" "length peers < 2 ^ 16"
      "persisted B d (source_of m) peers parent"
      "\<And>a key. a \<in> set peers \<Longrightarrow> peerChannelKey B a (machine_ID m) = OK key \<Longrightarrow> db_map d (kv_PeerDB @ key) \<noteq> None"
    using assms(1) unfolding on_disk_def by blast
  from ChannelRemoved_OK [OF m(1-4)] m(5) obtain d' where
    d': "ChannelRemoved B d (machine_ID m) = (d', OK ())" "off_disk d' (machine_ID m)" "db_frame B (machine_ID m) d d'"
    by (auto simp: off_disk_def db_frame_def machine_ID_def)
  have "SetWithdrawn m = OK (m\<lparr>m_phase := Withdrawn\<rparr>)"
    using assms(2) by (simp add: set_phase_OK_iffs)
  with d' show ?thesis
    by (simp add: pm_SetWithdrawn_def pm_call_def no_result_def)
qed

end

section \<open>The walks through the tree\<close>

text \<open>A client in which only the phases of machines and the database have changed.\<close>

definition rephase :: "(cref \<Rightarrow> Phase) \<Rightarrow> memdb \<Rightarrow> Client \<Rightarrow> Client" where
  "rephase ph d cl = cl\<lparr>cl_db := d,
     cl_heap := (\<lambda>p. map_option (\<lambda>ch. ch\<lparr>ch_machine := (ch_machine ch)\<lparr>m_phase := ph p\<rparr>\<rparr>) (cl_heap cl p))\<rparr>"

definition mach :: "Client \<Rightarrow> cref \<Rightarrow> StateMachine" where
  "mach cl p = ch_machine (the (cl_heap cl p))"

abbreviation chan_id :: "Client \<Rightarrow> cref \<Rightarrow> ID" where
  "chan_id cl p \<equiv> machine_ID (mach cl p)"

lemma rephase_simps [simp]: "cl_values (rephase ph d cl) = cl_values cl" "cl_chain (rephase ph d cl) = cl_chain cl"
  "cl_usage (rephase ph d cl) = cl_usage cl" "cl_db (rephase ph d cl) = d"
  by (simp_all add: rephase_def)

lemma rephase_heap:
  "cl_heap cl p = Some ch \<Longrightarrow> cl_heap (rephase ph d cl) p = Some (ch\<lparr>ch_machine := (ch_machine ch)\<lparr>m_phase := ph p\<rparr>\<rparr>)"
  by (simp add: rephase_def)

lemma rephase_same_states [simp]: "same_states cl (rephase ph d cl)"
  by (auto simp: same_states_def rephase_def option.map_comp comp_def ch_State_def machine_AdjudicatorReq_def)

lemma rephase_self: "rephase (\<lambda>p. m_phase (mach cl p)) (cl_db cl) cl = cl"
proof -
  have "map_option (\<lambda>ch. ch\<lparr>ch_machine := (ch_machine ch)\<lparr>m_phase := m_phase (mach cl p)\<rparr>\<rparr>) (cl_heap cl p) = cl_heap cl p" for p
    by (cases "cl_heap cl p") (simp_all add: mach_def)
  then show ?thesis
    by (simp add: rephase_def)
qed

lemma on_machine_rephase:
  assumes "cl_heap cl p = Some ch"
    and "f \<lparr>psm_machine = (ch_machine ch)\<lparr>m_phase := ph p\<rparr>, psm_db = d\<rparr> = (\<lparr>psm_machine = (ch_machine ch)\<lparr>m_phase := ph'\<rparr>, psm_db = d'\<rparr>, OK x)"
  shows "on_machine p f (rephase ph d cl) = (rephase (ph(p := ph')) d' cl, OK x)"
proof -
  have "(cl_heap (rephase ph d cl))(p := Some (ch\<lparr>ch_machine := (ch_machine ch)\<lparr>m_phase := ph'\<rparr>\<rparr>)) = cl_heap (rephase (ph(p := ph')) d' cl)"
    using assms(1) by (auto simp: rephase_def fun_eq_iff)
  then show ?thesis
    using assms by (simp add: on_machine_def bindS_def chan_def getS_def deref_def rephase_heap put_chan_def) (simp add: rephase_def)
qed

text \<open>A channel on its way to the phase \<open>Withdrawn\<close>: before, it is stored and its phase in \<open>S\<close>; afterwards it is
  not stored, unless it was withdrawn already.\<close>

definition withdrawing ::
    "'m channel_backend_scheme \<Rightarrow> (address \<Rightarrow> bool) \<Rightarrow> (bytes \<Rightarrow> bool) \<Rightarrow> (asset \<Rightarrow> bool) \<Rightarrow> Phase set \<Rightarrow> Client \<Rightarrow>
     (cref \<Rightarrow> Phase) \<Rightarrow> memdb \<Rightarrow> cref \<Rightarrow> bool" where
  "withdrawing B wa ws wt S cl ph d p \<longleftrightarrow>
     (if ph p = Withdrawn then m_phase (mach cl p) = Withdrawn \<or> off_disk d (chan_id cl p) \<and> length (chan_id cl p) = 32
      else ph p \<in> S \<and> on_disk B wa ws wt d ((mach cl p)\<lparr>m_phase := ph p\<rparr>))"

lemma withdrawing_frame:
  assumes "withdrawing B wa ws wt S cl ph d q" "db_frame B i d d'" "length i = 32" "i \<noteq> chan_id cl q" "ph' q = ph q"
  shows "withdrawing B wa ws wt S cl ph' d' q"
  using assms off_disk_frame [OF assms(2), of "chan_id cl q"] on_disk_frame [OF assms(2), of wa ws wt "(mach cl q)\<lparr>m_phase := ph q\<rparr>"]
  by (auto simp: withdrawing_def machine_ID_def split: if_splits)

lemma tree_heap:
  assumes "tryLockRecursive c cl = (cl', OK l)" "p \<in> set l"
  obtains ch where "cl_heap cl p = Some ch"
  using assms tryLockRecursive_tree(2) [OF assms(1)] that by (auto simp: covered_def subs_def bind_eq_Some_conv)

context channel_codec
begin

text \<open>One walk: every channel that is not withdrawn yet goes to the phase \<open>T\<close>.\<close>

lemma withdraw_walk:
  assumes lock: "tryLockRecursive c cl = (cl', OK l)" and ids: "inj_on (chan_id cl) (set l)"
    and all: "\<forall>p \<in> set l. withdrawing B wf_addr wf_sig wf_asset S cl ph d p"
    and f: "\<And>m d. on_disk B wf_addr wf_sig wf_asset d m \<Longrightarrow> m_phase m \<in> S \<Longrightarrow>
       \<exists>d'. f \<lparr>psm_machine = m, psm_db = d\<rparr> = (\<lparr>psm_machine = m\<lparr>m_phase := T\<rparr>, psm_db = d'\<rparr>, OK ()) \<and> db_frame B (machine_ID m) d d' \<and>
         (if T = Withdrawn then off_disk d' (machine_ID m) else on_disk B wf_addr wf_sig wf_asset d' (m\<lparr>m_phase := T\<rparr>))"
    and T: "T = Withdrawn \<or> T \<in> S"
  shows "\<exists>ph' d'. applyRecursive (depth cl) (unlessWithdrawn (\<lambda>p. on_machine p f)) c () (rephase ph d cl) = (rephase ph' d' cl, OK ()) \<and>
     (\<forall>p \<in> set l. withdrawing B wf_addr wf_sig wf_asset {T} cl ph' d' p)"
proof -
  let ?W = "withdrawing B wf_addr wf_sig wf_asset"
  let ?J = "\<lambda>vs t x. \<exists>ph d. t = rephase ph d cl \<and> set vs \<subseteq> set l \<and> (\<forall>p \<in> set l. ?W S cl ph d p) \<and> (\<forall>p \<in> set vs. ?W {T} cl ph d p)"
  have step: "\<exists>t' x'. unlessWithdrawn (\<lambda>p. on_machine p f) p x t = (t', OK x') \<and> ?J (vs @ [p]) t' x'"
    if p: "p \<in> set l" and J: "?J vs t x" for p vs t x
  proof -
    obtain ph d where t: "t = rephase ph d cl" and vs: "set vs \<subseteq> set l" and W: "\<forall>p \<in> set l. ?W S cl ph d p" "\<forall>p \<in> set vs. ?W {T} cl ph d p"
      using J by blast
    obtain ch where ch: "cl_heap cl p = Some ch"
      using tree_heap [OF lock p] .
    have call: "unlessWithdrawn (\<lambda>p. on_machine p f) p x t = (if ph p = Withdrawn then (t, OK ()) else on_machine p f t)"
      using ch by (simp add: t unlessWithdrawn_def bindS_def chan_def getS_def deref_def rephase_heap returnS_def)
    show ?thesis
    proof (cases "ph p = Withdrawn")
      case True
      then have "?W {T} cl ph d p"
        using W(1) p by (simp add: withdrawing_def)
      with True t vs W p call show ?thesis
        by auto
    next
      case False
      let ?m = "(mach cl p)\<lparr>m_phase := ph p\<rparr>"
      have m: "?m = (ch_machine ch)\<lparr>m_phase := ph p\<rparr>" "machine_ID ?m = chan_id cl p"
        using ch by (simp_all add: mach_def machine_ID_def)
      have disk: "on_disk B wf_addr wf_sig wf_asset d ?m" "m_phase ?m \<in> S"
        using W(1) p False by (auto simp: withdrawing_def)
      then have len: "length (chan_id cl p) = 32"
        by (simp add: on_disk_def source_ok_def machine_ID_def)
      obtain d' where d': "f \<lparr>psm_machine = ?m, psm_db = d\<rparr> = (\<lparr>psm_machine = ?m\<lparr>m_phase := T\<rparr>, psm_db = d'\<rparr>, OK ())"
        "db_frame B (chan_id cl p) d d'"
        "if T = Withdrawn then off_disk d' (chan_id cl p) else on_disk B wf_addr wf_sig wf_asset d' (?m\<lparr>m_phase := T\<rparr>)"
        using f [OF disk] unfolding m(2) by blast
      let ?ph = "ph(p := T)"
      have "on_machine p f t = (rephase ?ph d' cl, OK ())"
        unfolding t using d'(1) m(1) by (intro on_machine_rephase [OF ch]) simp
      moreover have Wp: "?W S' cl ?ph d' p" if "T = Withdrawn \<or> T \<in> S'" for S'
        using that d'(3) len by (auto simp: withdrawing_def)
      moreover have Wq: "?W S' cl ?ph d' q" if "?W S' cl ph d q" "q \<in> set l" "T = Withdrawn \<or> T \<in> S'" for S' q
        using withdrawing_frame [OF that(1) d'(2) len, of ?ph] inj_onD [OF ids, of p q] p Wp that(2,3) by (cases "q = p") auto
      have "\<forall>q \<in> set l. ?W S cl ?ph d' q"
        using Wq [of S] W(1) T by blast
      moreover have "\<forall>q \<in> set (vs @ [p]). ?W {T} cl ?ph d' q"
        using Wq [of "{T}"] Wp [of "{T}"] W(2) vs by auto
      ultimately show ?thesis
        using call False vs p by (intro exI [of _ "rephase ?ph d' cl"] exI [of _ "()"] conjI exI [of _ ?ph] exI [of _ d']) auto
    qed
  qed
  have "?J [] (rephase ph d cl) ()"
    using all by auto
  have "\<exists>t' x'. applyRecursive (depth cl) (unlessWithdrawn (\<lambda>p. on_machine p f)) c () (rephase ph d cl) = (t', OK x') \<and> ?J l t' x'"
    by (rule tree_visits [where J = ?J, OF lock \<open>?J [] (rephase ph d cl) ()\<close> _ step]) auto
  then show ?thesis
    by auto
qed

end

section \<open>Settling a ledger channel\<close>

text \<open>The states of the channels, as the adjudicator gets them.\<close>

definition sub_states :: "Client \<Rightarrow> cref list \<Rightarrow> (ID \<times> State) list" where
  "sub_states cl l = rev (map (\<lambda>p. (chan_id cl p, the (tx_State (m_currentTX (mach cl p))))) l)"

lemma state_map_tree:
  assumes lock: "tryLockRecursive c cl = (cl', OK (c # l))" and ids: "inj_on (chan_id cl) (set (c # l))"
  shows "subChannelStateMap c (rephase ph d cl) = (rephase ph d cl, OK (sub_states cl l))"
proof -
  let ?t = "rephase ph d cl"
  let ?add = "\<lambda>p x. (chan_id cl p, the (tx_State (m_currentTX (mach cl p)))) # filter (\<lambda>(i, _). i \<noteq> chan_id cl p) x"
  let ?J = "\<lambda>vs t x. t = ?t \<and> x = fold ?add vs []"
  have dist: "distinct (map (chan_id cl) (c # l))"
    using ids tryLockRecursive_tree(2) [OF lock] by (simp only: distinct_map)
  obtain l' where l': "c # l = c # l'" and walk: "applyToSubChannelsRecursive (depth cl) lock c [c] cl = (cl', OK ([c] @ l'))"
    using tryLock_walk [OF lock] by metis
  have f: "\<exists>t' x'. addState p x t = (t', OK x') \<and> ?J (vs @ [p]) t' x'" if p: "p \<in> set l'" and J: "?J vs t x" for p vs t x
  proof -
    have "covered cl (c # l) p"
      using p l' tryLockRecursive_tree(2) [OF lock] by auto
    then obtain ch s where "cl_heap cl p = Some ch" "ch_State ch = Some s"
      by (auto simp: covered_def subs_def bind_eq_Some_conv)
    with J show ?thesis
      by (simp add: addState_def bindS_def chan_def getS_def liftS_def deref_def returnS_def rephase_heap ch_State_def ch_ID_def mach_def
          machine_ID_def)
  qed
  have "\<exists>t' x'. applyToSubChannelsRecursive (depth cl) addState c [] ?t = (t', OK x') \<and> ?J ([] @ l') t' x'"
    by (rule walk_visits [where J = ?J, OF walk]) (use f in auto)
  moreover have "fold ?add vs x = rev (map (\<lambda>p. (chan_id cl p, the (tx_State (m_currentTX (mach cl p))))) vs) @ x"
    if "distinct (map (chan_id cl) vs)" "\<forall>p \<in> set vs. chan_id cl p \<notin> fst ` set x" for vs x
    using that
  proof (induction vs arbitrary: x)
    case (Cons p vs)
    have "filter (\<lambda>(i, _). i \<noteq> chan_id cl p) x = x"
      using Cons.prems(2) by (force intro: filter_True)
    moreover have "\<forall>q \<in> set vs. chan_id cl q \<notin> insert (chan_id cl p) (fst ` set x)"
    proof
      fix q
      assume q: "q \<in> set vs"
      have "chan_id cl p \<notin> chan_id cl ` set vs"
        using Cons.prems(1) by simp
      then have "chan_id cl q \<noteq> chan_id cl p"
        using imageI [OF q, of "chan_id cl"] by metis
      then show "chan_id cl q \<notin> insert (chan_id cl p) (fst ` set x)"
        using Cons.prems(2) q by simp
    qed
    ultimately show ?case
      using Cons.IH [of "(chan_id cl p, the (tx_State (m_currentTX (mach cl p)))) # x"] Cons.prems(1) by simp
  qed simp
  ultimately show ?thesis
    using dist l' same_states_view(3) [of cl "rephase ph d cl"]
    by (simp add: subChannelStateMap_def bindS_def getS_def sub_states_def)
qed

text \<open>Whether the client is a participant of a channel, and has an account in it: it is not in a virtual
  channel of which it is the hub.\<close>

definition participates :: "Client \<Rightarrow> cref \<Rightarrow> bool" where
  "participates cl p = (let ch = the (cl_heap cl p) in case ch_parent ch of
      None \<Rightarrow> True
    | Some q \<Rightarrow> (let par = the (cl_heap cl q) in equalParticipants ch par \<or> ch_peers par ! unat (ch_Idx par) \<in> set (ch_peers ch)))"

definition parent_ok :: "Client \<Rightarrow> cref \<Rightarrow> bool" where
  "parent_ok cl p \<longleftrightarrow> (\<exists>ch. cl_heap cl p = Some ch \<and> (case ch_parent ch of
      None \<Rightarrow> True
    | Some q \<Rightarrow> (\<exists>par. cl_heap cl q = Some par \<and> unat (ch_Idx par) < length (ch_peers par))))"

text \<open>How often an account is released.\<close>

definition released :: "Client \<Rightarrow> cref list \<Rightarrow> address \<Rightarrow> int" where
  "released cl vs a = int (length (filter (\<lambda>p. participates cl p \<and> m_acc (mach cl p) = a) vs))"

lemma decrementUsage_eq:
  assumes "parent_ok cl p"
  shows "decrementUsage p x ((rephase ph d cl)\<lparr>cl_usage := g\<rparr>) =
     ((rephase ph d cl)\<lparr>cl_usage := if participates cl p then g(m_acc (mach cl p) := g (m_acc (mach cl p)) - 1) else g\<rparr>, OK ())"
proof -
  obtain ch where ch: "cl_heap cl p = Some ch"
    using assms by (auto simp: parent_ok_def)
  note run = decrementUsage_def IsVirtualChannel_def chan_parent_def bindS_def chan_def getS_def liftS_def deref_def returnS_def modifyS_def
    rephase_heap participates_def mach_def equalParticipants_def hasParticipant_def index_at_in_range ch_Idx_def
  show ?thesis
  proof (cases "ch_parent ch")
    case None
    with ch show ?thesis
      by (simp add: run Let_def)
  next
    case (Some q)
    then obtain par where par: "cl_heap cl q = Some par" "unat (ch_Idx par) < length (ch_peers par)"
      using assms ch by (auto simp: parent_ok_def)
    with ch Some show ?thesis
      by (simp add: run Let_def)
  qed
qed

lemma decrement_tree:
  assumes lock: "tryLockRecursive c cl = (cl', OK l)" and par: "\<forall>p \<in> set l. parent_ok cl p"
  shows "applyRecursive (depth cl) decrementUsage c () (rephase ph d cl) =
     ((rephase ph d cl)\<lparr>cl_usage := \<lambda>a. cl_usage cl a - released cl l a\<rparr>, OK ())"
proof -
  let ?J = "\<lambda>vs t x. t = (rephase ph d cl)\<lparr>cl_usage := \<lambda>a. cl_usage cl a - released cl vs a\<rparr>"
  have "\<exists>t' x'. applyRecursive (depth cl) decrementUsage c () (rephase ph d cl) = (t', OK x') \<and> ?J l t' x'"
  proof (rule tree_visits [where J = ?J, OF lock])
    show "?J [] (rephase ph d cl) ()"
      by (simp add: released_def rephase_def)
    show "same_states cl t" if "?J vs t x" for vs t x
      using that rephase_same_states [of cl ph d] by (simp add: same_states_def)
    show "\<exists>t' x'. decrementUsage p x t = (t', OK x') \<and> ?J (vs @ [p]) t' x'" if "p \<in> set l" "?J vs t x" for p vs t x
      using decrementUsage_eq [where g = "\<lambda>a. cl_usage cl a - released cl vs a" and ph = ph and d = d and cl = cl and p = p and x = x] par that
      by (auto simp: released_def fun_eq_iff intro!: arg_cong [of _ _ "\<lambda>g. _\<lparr>cl_usage := g\<rparr>"])
  qed
  then show ?thesis
    by auto
qed

context channel_codec
begin

lemma Settle_ledger:
  assumes lock: "tryLockRecursive c cl = (cl, OK (c # l))" and ch: "cl_heap cl c = Some ch" "ch_parent ch = None"
    and ready: "\<forall>p \<in> set (c # l). parent_ok cl p \<and> (m_phase (mach cl p) = Withdrawn \<or>
      m_phase (mach cl p) \<in> {Final, Registered, Progressed, Withdrawing} \<and> on_disk B wf_addr wf_sig wf_asset (cl_db cl) (mach cl p))"
    and ids: "inj_on (chan_id cl) (set (c # l))"
    and req: "req = (machine_AdjudicatorReq (ch_machine ch))\<lparr>ar_Secondary := secondary\<rparr>" "ad_Withdraw A req (sub_states cl l) = OK ()"
  shows "\<exists>cl'. Settle B N A u c secondary cl = (cl', OK ()) \<and> in_phase Withdrawn cl' (c # l) \<and>
     cl_chain cl' = cl_chain cl @ [CallWithdraw req (sub_states cl l)] \<and>
     (\<forall>p \<in> set (c # l). m_phase (mach cl p) \<noteq> Withdrawn \<longrightarrow> off_disk (cl_db cl') (chan_id cl p)) \<and>
     (\<forall>a. cl_usage cl' a = cl_usage cl a - released cl (c # l) a)"
proof -
  let ?W = "withdrawing B wf_addr wf_sig wf_asset" and ?S = "{Final, Registered, Progressed, Withdrawing}"
  let ?cl = "cl\<lparr>cl_chain := cl_chain cl @ [CallWithdraw req (sub_states cl l)]\<rparr>"
  have "\<forall>p \<in> set (c # l). ?W ?S cl (\<lambda>p. m_phase (mach cl p)) (cl_db cl) p"
    using ready by (auto simp: withdrawing_def)
  from withdraw_walk [OF lock ids this, of pm_SetWithdrawing Withdrawing] obtain ph1 d1 where
    w1: "applyRecursive (depth cl) (unlessWithdrawn (\<lambda>c. on_machine c pm_SetWithdrawing)) c () cl = (rephase ph1 d1 cl, OK ())"
      "\<forall>p \<in> set (c # l). ?W {Withdrawing} cl ph1 d1 p"
    using SetWithdrawing_on_disk unfolding rephase_self by simp blast
  have settle: "settle B N A u c secondary (rephase ph1 d1 cl) = (rephase ph1 d1 ?cl, OK ())"
    using ch req state_map_tree [OF lock ids]
    by (simp add: settle_def bindS_def chan_def getS_def deref_def rephase_heap IsSubChannel_def chan_parent_def returnS_def msgS_def
        chainCall_def Let_def machine_AdjudicatorReq_def) (simp add: rephase_def)
  have same: "mach ?cl = mach cl" "?W S ?cl = ?W S cl" for S
    by (simp_all add: fun_eq_iff mach_def withdrawing_def)
  have lock': "tryLockRecursive c ?cl = (?cl, OK (c # l))" "depth ?cl = depth cl"
    by (rule tryLock_same [OF lock]) (simp_all add: same_states_def depth_def)
  from withdraw_walk [OF lock'(1), of "{Withdrawing}" ph1 d1 "pm_SetWithdrawn B" Withdrawn] w1(2) ids obtain ph2 d2 where
    w2: "applyRecursive (depth cl) (unlessWithdrawn (\<lambda>c. on_machine c (pm_SetWithdrawn B))) c () (rephase ph1 d1 ?cl) = (rephase ph2 d2 ?cl, OK ())"
      "\<forall>p \<in> set (c # l). ?W {Withdrawn} cl ph2 d2 p"
    using SetWithdrawn_on_disk unfolding same lock'(2) by simp blast
  have "parent_ok ?cl = parent_ok cl" "released ?cl = released cl"
    by (simp_all add: fun_eq_iff parent_ok_def released_def participates_def mach_def cong: option.case_cong)
  moreover from this(1) have "\<forall>p \<in> set (c # l). parent_ok ?cl p"
    using ready by simp
  ultimately have
    w3: "applyRecursive (depth cl) decrementUsage c () (rephase ph2 d2 ?cl) =
      ((rephase ph2 d2 ?cl)\<lparr>cl_usage := \<lambda>a. cl_usage cl a - released cl (c # l) a\<rparr>, OK ())"
    using decrement_tree [OF lock'(1), of ph2 d2] lock'(2) by simp
  have "Settle B N A u c secondary cl = ((rephase ph2 d2 ?cl)\<lparr>cl_usage := \<lambda>a. cl_usage cl a - released cl (c # l) a\<rparr>, OK ())"
    using lock w1(1) settle w2(1) w3 by (simp add: Settle_def bindS_def msgS_def getS_def)
  moreover have fin: "ph2 p = Withdrawn" "m_phase (mach cl p) = Withdrawn \<or> off_disk d2 (chan_id cl p)" if "p \<in> set (c # l)" for p
    using w2(2) that by (auto simp: withdrawing_def split: if_splits)
  moreover have "in_phase Withdrawn ((rephase ph2 d2 ?cl)\<lparr>cl_usage := g\<rparr>) (c # l)" for g
    unfolding in_phase_def
  proof
    fix p
    assume p: "p \<in> set (c # l)"
    obtain chp where "cl_heap cl p = Some chp"
      using tree_heap [OF lock p] .
    with fin(1) [OF p] show "\<exists>m. machine_at ((rephase ph2 d2 ?cl)\<lparr>cl_usage := g\<rparr>) p = Some m \<and> m_phase m = Withdrawn"
      by (simp add: machine_at_def rephase_def)
  qed
  ultimately show ?thesis
    by auto
qed

end

end
