(* ===== verification/Perun_Agreement.thy ===== *)
theory Perun_Agreement
  imports Perun_Protocol
begin

text \<open>
  Two clients that open a ledger channel: what the proposer's \<open>ProposeChannel\<close> and the handler of the
  other side (\<open>client/proposal.go\<close>) do together.  Each side receives what the other publishes.  When the
  proposal is valid and accepted and both funders succeed, both sides end with the same parameters and
  the same initial state with both signatures, stored in their databases: the two clients are then
  \<open>paired\<close>, as the update protocol needs it.
\<close>

section \<open>The machine of a new channel\<close>

definition fresh_machine :: "Index \<Rightarrow> Params \<Rightarrow> StateMachine" where
  "fresh_machine i params = \<lparr>m_phase = InitActing, m_acc = p_Parts params ! unat i, m_idx = i, m_params = params,
     m_stagingTX = zeroTransaction, m_currentTX = zeroTransaction, m_prevTXs = [], sm_app = p_App params\<rparr>"

definition first_staged :: "StateMachine \<Rightarrow> State \<Rightarrow> sig list \<Rightarrow> StateMachine" where
  "first_staged m s sigs = m\<lparr>m_phase := InitSigning, m_stagingTX := \<lparr>tx_State = Some s, tx_Sigs = sigs\<rparr>\<rparr>"

definition first_enabled :: "StateMachine \<Rightarrow> State \<Rightarrow> sig list \<Rightarrow> Phase \<Rightarrow> StateMachine" where
  "first_enabled m s sigs ph = m\<lparr>m_phase := ph, m_prevTXs := m_prevTXs m @ [m_currentTX m],
     m_currentTX := \<lparr>tx_State = Some s, tx_Sigs = sigs\<rparr>, m_stagingTX := zeroTransaction\<rparr>"

lemma fresh_machine_simps [simp]:
  "m_phase (fresh_machine i params) = InitActing" "m_acc (fresh_machine i params) = p_Parts params ! unat i"
  "m_idx (fresh_machine i params) = i" "m_params (fresh_machine i params) = params"
  "m_stagingTX (fresh_machine i params) = zeroTransaction" "m_currentTX (fresh_machine i params) = zeroTransaction"
  "sm_app (fresh_machine i params) = p_App params"
  by (simp_all add: fresh_machine_def)

lemma first_staged_simps [simp]:
  "m_idx (first_staged m s sigs) = m_idx m" "m_params (first_staged m s sigs) = m_params m"
  "m_acc (first_staged m s sigs) = m_acc m" "m_phase (first_staged m s sigs) = InitSigning"
  "m_stagingTX (first_staged m s sigs) = \<lparr>tx_State = Some s, tx_Sigs = sigs\<rparr>"
  "m_currentTX (first_staged m s sigs) = m_currentTX m"
  by (simp_all add: first_staged_def)

lemma first_enabled_simps [simp]:
  "m_idx (first_enabled m s sigs ph) = m_idx m" "m_params (first_enabled m s sigs ph) = m_params m"
  "m_acc (first_enabled m s sigs ph) = m_acc m" "m_phase (first_enabled m s sigs ph) = ph"
  "m_stagingTX (first_enabled m s sigs ph) = zeroTransaction" "sm_app (first_enabled m s sigs ph) = sm_app m"
  "m_currentTX (first_enabled m s sigs ph) = \<lparr>tx_State = Some s, tx_Sigs = sigs\<rparr>"
  by (simp_all add: first_enabled_def)

lemma NewStateMachine_fresh:
  assumes "IsStateApp B (p_App params)" "distinct (p_Parts params)" "unat i < length (p_Parts params)"
  shows "NewStateMachine B (p_Parts params ! unat i) params = OK (fresh_machine i params)"
  using assms by (simp add: NewStateMachine_def newMachine_def IndexOfAddr_nth Let_def fresh_machine_def machine.defs
      StateMachine.defs)

lemma Init_fresh:
  assumes "newState params a dt = OK s" "app_ValidInit B (p_App params) params s = OK ()" "length (p_Parts params) < 2 ^ 16"
  shows "Init B (fresh_machine i params) a dt =
    OK (first_staged (fresh_machine i params) s (replicate (length (p_Parts params)) None))"
proof -
  have "unat (machine_N (fresh_machine i params)) = length (p_Parts params)"
    using assms(3) by (simp add: machine_N_def unat_of_nat_u16)
  with assms show ?thesis
    by (simp add: Init_OK_iff newTransaction_def) (simp add: first_staged_def)
qed

lemma Sig_first_staged:
  assumes "unat (m_idx m) < length sigs" "sigs ! unat (m_idx m) = None"
    "cb_Sign B (m_acc m) (m_params m) s = OK sg"
  shows "Sig B (first_staged m s sigs) = OK (sg, first_staged m s (sigs[unat (m_idx m) := sg]))"
  using assms by (simp add: Sig_OK_iff signingPhases_def) (simp add: first_staged_def)

lemma AddSig_first_staged:
  assumes "unat i < length sigs" "sigs ! unat i = None" "unat i < length (p_Parts (m_params m))"
    "cb_Verify B (p_Parts (m_params m) ! unat i) (m_params m) s sg = OK True"
  shows "AddSig B (first_staged m s sigs) i sg = OK (first_staged m s (sigs[unat i := sg]))"
  using assms by (simp add: AddSig_OK_iff signingPhases_def) (simp add: first_staged_def)

lemma EnableInit_first_staged:
  assumes "None \<notin> set sigs" "\<not> st_IsFinal s"
  shows "EnableInit (first_staged m s sigs) = OK (first_enabled m s sigs Funding)"
  using assms by (auto simp: EnableInit_def enableStaged_OK_iff validPhaseTransitions_def)
    (simp add: first_staged_def first_enabled_def)

lemma SetFunded_first_enabled: "SetFunded (first_enabled m s sigs Funding) = OK (first_enabled m s sigs Acting)"
  by (simp add: set_phase_OK_iffs) (simp add: first_enabled_def)

lemma newState_simps:
  assumes "newState params a dt = OK s"
  shows "st_ID s = p_id params" "st_Version s = 0" "\<not> st_IsFinal s"
  using assms by (auto simp: newState_def res_simps)

section \<open>A proposal that both sides accept\<close>

text \<open>A valid proposal, its acceptance, and the parameters and the initial state that follow from them.\<close>

definition agreed_proposal ::
    "'b channel_backend_scheme \<Rightarrow> (address \<Rightarrow> bool) \<Rightarrow> (asset \<Rightarrow> bool) \<Rightarrow> (bytes \<Rightarrow> bytes) \<Rightarrow>
     LedgerChannelProposal \<Rightarrow> LedgerChannelProposalAcc \<Rightarrow> Params \<Rightarrow> State \<Rightarrow> bool" where
  "agreed_proposal B wf_addr wf_asset H p a params s \<longleftrightarrow>
     LedgerChannelProposal_Valid B p = OK () \<and> NumPeers p = OK 2 \<and>
     length (lp_Peers p) = 2 \<and> distinct (lp_Peers p) \<and> list_all wf_addr (lp_Peers p) \<and>
     Ledger_ProposalID H B p = OK (ba_ProposalID a) \<and>
     [lp_Participant p, la_Participant a] = map Some (p_Parts params) \<and> distinct (p_Parts params) \<and>
     (\<exists>n. calcNonce H [bp_NonceShare p, ba_NonceShare a] = OK n \<and>
        NewParamsUnsafe B (bp_ChallengeDuration p) (p_Parts params) (bp_App p) n True False = OK params) \<and>
     params_ok B wf_addr params \<and> length (p_id params) = 32 \<and> IsStateApp B (p_App params) \<and>
     (\<exists>al. bp_InitBals p = Some al \<and> newState params al (bp_InitData p) = OK s) \<and>
     app_ValidInit B (p_App params) params s = OK () \<and> state_ok B wf_addr wf_asset s \<and> NumParts (st_Alloc s) = 2"

text \<open>A client that has nothing of the new channel, and the outside world of the participant \<open>i\<close>.\<close>

definition unopened :: "Params \<Rightarrow> Client \<Rightarrow> bool" where
  "unopened params cl \<longleftrightarrow> \<not> cl_closed cl \<and> cl_cache cl = [] \<and> \<not> registry_Has cl (p_id params) \<and> db_inv (cl_db cl) \<and>
     (\<forall>k. prefix (kv_ChannelDB @ p_id params) k \<longrightarrow> db_map (cl_db cl) k = None)"

definition provides :: "OpenEnv \<Rightarrow> (bytes \<Rightarrow> bytes) \<Rightarrow> LedgerChannelProposal \<Rightarrow> Params \<Rightarrow> State \<Rightarrow> Index \<Rightarrow> bool" where
  "provides E H p params s i \<longleftrightarrow> oe_Hash E = H \<and> oe_Unlock E (p_Parts params ! unat i) = OK (p_Parts params ! unat i) \<and>
     oe_Fund E (NewFundingReq params (Some s) i (bp_FundingAgreement p)) = OK ()"

definition new_channel :: "Index \<Rightarrow> Params \<Rightarrow> address list \<Rightarrow> Channel" where
  "new_channel i params peers = \<lparr>ch_machine = fresh_machine i params, ch_peers = peers, ch_parent = None, ch_onUpdate = False,
     ch_updates = [], ch_fundings = [], ch_withdrawals = [], ch_closed = False, ch_onClose = []\<rparr>"

definition registered_client :: "ID \<Rightarrow> cref \<Rightarrow> address \<Rightarrow> Client \<Rightarrow> Client" where
  "registered_client i c part cl = cl\<lparr>cl_values := (i, c) # cl_values cl,
     cl_new := (if cl_handler cl then cl_new cl @ [c] else cl_new cl),
     cl_usage := (cl_usage cl)(part := cl_usage cl part + 1)\<rparr>"

text \<open>One side after the opening.\<close>

definition opens_with ::
    "'b channel_backend_scheme \<Rightarrow> (address \<Rightarrow> bool) \<Rightarrow> (bytes \<Rightarrow> bool) \<Rightarrow> (asset \<Rightarrow> bool) \<Rightarrow>
     Params \<Rightarrow> State \<Rightarrow> sig list \<Rightarrow> Index \<Rightarrow> address list \<Rightarrow> Client \<Rightarrow> cref \<Rightarrow> bool" where
  "opens_with B wf_addr wf_sig wf_asset params s sigs i peers cl c \<longleftrightarrow> (\<exists>ch.
     side_ready B wf_addr wf_sig wf_asset cl c ch \<and> ch_parent ch = None \<and> ch_fundings ch = [] \<and> ch_withdrawals ch = [] \<and>
     ch_peers ch = peers \<and> m_params (ch_machine ch) = params \<and> m_idx (ch_machine ch) = i \<and> sm_app (ch_machine ch) = p_App params \<and>
     m_currentTX (ch_machine ch) = \<lparr>tx_State = Some s, tx_Sigs = sigs\<rparr> \<and> registry_Get cl (p_id params) = Some c)"

text \<open>A network that takes every message and delivers those of \<open>es\<close> that are for \<open>a\<close>.\<close>

definition feed :: "address \<Rightarrow> Envelope list \<Rightarrow> Net" where
  "feed a es = silent\<lparr>net_Incoming := (\<lambda>_. deliver a es)\<rparr>"

lemma agreed_params:
  assumes "agreed_proposal B wf_addr wf_asset H p a params s"
  shows "proposedParams H B (LedgerProposal p) (LedgerAccept a) cl = (cl, OK params)" "length (p_Parts params) = 2"
proof -
  obtain x y where parts: "p_Parts params = [x, y]" "lp_Participant p = Some x" "la_Participant a = Some y"
    using assms unfolding agreed_proposal_def by (cases "p_Parts params"; cases "tl (p_Parts params)") auto
  then show "length (p_Parts params) = 2"
    by simp
  show "proposedParams H B (LedgerProposal p) (LedgerAccept a) cl = (cl, OK params)"
    using assms parts unfolding agreed_proposal_def
    by (auto simp: proposedParams_def mpcppParts_def participants_def nonceShares_def call_simps msg_Type_def
        BaseChannelProposal.defs BaseChannelProposalAcc.defs)
qed

context client_backend
begin

lemma first_staged_ok:
  assumes "source_ok B wf_addr wf_sig wf_asset (source_of m)" "state_ok B wf_addr wf_asset s" "sigs_ok sigs"
  shows "source_ok B wf_addr wf_sig wf_asset (source_of (first_staged m s sigs))"
  using assms by (simp add: source_ok_def sigs_ok_def)

lemma first_enabled_ok:
  assumes "source_ok B wf_addr wf_sig wf_asset (source_of m)" "state_ok B wf_addr wf_asset s" "sigs_ok sigs"
    "int (length sigs) = NumParts (st_Alloc s)" "phase_num ph < 256"
  shows "source_ok B wf_addr wf_sig wf_asset (source_of (first_enabled m s sigs ph))"
  using assms by (simp add: source_ok_def sigs_ok_def tx_ok_def zeroTransaction_def)

text \<open>The steps of one side, on the machine and its database.\<close>

lemma first_Init:
  assumes "newState params a dt = OK s" "app_ValidInit B (p_App params) params s = OK ()" "length (p_Parts params) < 2 ^ 16"
    and "stored B d (fresh_machine i params)" "source_ok B wf_addr wf_sig wf_asset (source_of (fresh_machine i params))"
      "state_ok B wf_addr wf_asset s"
  defines "m \<equiv> first_staged (fresh_machine i params) s (replicate (length (p_Parts params)) None)"
  shows "\<exists>d'. pm_Init B \<lparr>psm_machine = fresh_machine i params, psm_db = d\<rparr> a dt = (\<lparr>psm_machine = m, psm_db = d'\<rparr>, OK ()) \<and>
    stored B d' m"
proof -
  have "source_ok B wf_addr wf_sig wf_asset (source_of m)"
    unfolding m_def using assms(5,6) sigs_ok_none by (rule first_staged_ok)
  moreover have "exec_op B (fresh_machine i params) (OpInit a dt) = OK m"
    using Init_fresh [OF assms(1-3)] by (simp add: m_def)
  ultimately show ?thesis
    using stored_step [OF assms(4), of m "OpInit a dt"] by (simp add: zeroTransaction_def)
qed

lemma first_sigs:
  assumes "stored B d (first_staged m s sigs)" "source_ok B wf_addr wf_sig wf_asset (source_of m)"
    "state_ok B wf_addr wf_asset s" "sigs_ok sigs" "length sigs = length (p_Parts (m_params m))"
    "unat i < length sigs" "sigs ! unat i = None" "wf_sig x" "x \<noteq> []"
  defines "m' \<equiv> first_staged m s (sigs[unat i := Some x])"
  shows first_AddSig: "cb_Verify B (p_Parts (m_params m) ! unat i) (m_params m) s (Some x) = OK True \<Longrightarrow>
      \<exists>d'. pm_AddSig B \<lparr>psm_machine = first_staged m s sigs, psm_db = d\<rparr> i (Some x) =
        (\<lparr>psm_machine = m', psm_db = d'\<rparr>, OK ()) \<and> stored B d' m'"
    and first_Sig: "i = m_idx m \<Longrightarrow> cb_Sign B (m_acc m) (m_params m) s = OK (Some x) \<Longrightarrow>
      \<exists>d'. pm_Sig B \<lparr>psm_machine = first_staged m s sigs, psm_db = d\<rparr> =
        (\<lparr>psm_machine = m', psm_db = d'\<rparr>, OK (Some x)) \<and> stored B d' m'"
proof -
  have ok: "source_ok B wf_addr wf_sig wf_asset (source_of m')"
    unfolding m'_def using assms(2,3) sigs_ok_update [OF assms(4,8,9)] by (rule first_staged_ok)
  obtain ps parent where p: "persisted B d (source_of (first_staged m s sigs)) ps parent"
    using assms(1) by (auto simp: stored_def)
  show "\<exists>d'. pm_AddSig B \<lparr>psm_machine = first_staged m s sigs, psm_db = d\<rparr> i (Some x) =
        (\<lparr>psm_machine = m', psm_db = d'\<rparr>, OK ()) \<and> stored B d' m'"
    if "cb_Verify B (p_Parts (m_params m) ! unat i) (m_params m) s (Some x) = OK True"
    using pm_AddSig_persisted [of "\<lparr>psm_machine = first_staged m s sigs, psm_db = d\<rparr>" ps parent m' i "Some x"]
      p ok AddSig_first_staged [of i sigs m B s "Some x"] that assms(5-7)
    by (auto simp: m'_def stored_def)
  show "\<exists>d'. pm_Sig B \<lparr>psm_machine = first_staged m s sigs, psm_db = d\<rparr> =
        (\<lparr>psm_machine = m', psm_db = d'\<rparr>, OK (Some x)) \<and> stored B d' m'"
    if "i = m_idx m" "cb_Sign B (m_acc m) (m_params m) s = OK (Some x)"
    using pm_Sig_persisted [of "\<lparr>psm_machine = first_staged m s sigs, psm_db = d\<rparr>" ps parent m' "Some x"]
      p ok Sig_first_staged [of m sigs B s "Some x"] that assms(5-7)
    by (auto simp: m'_def stored_def)
qed

lemma first_enable:
  assumes "stored B d (first_staged m s sigs)" "source_ok B wf_addr wf_sig wf_asset (source_of m)"
    "state_ok B wf_addr wf_asset s" "sigs_ok sigs" "length sigs = length (p_Parts (m_params m))"
    "None \<notin> set sigs" "int (length sigs) = NumParts (st_Alloc s)" "\<not> st_IsFinal s"
  shows "\<exists>d'. pm_EnableInit B \<lparr>psm_machine = first_staged m s sigs, psm_db = d\<rparr> =
     (\<lparr>psm_machine = first_enabled m s sigs Funding, psm_db = d'\<rparr>, OK ()) \<and> stored B d' (first_enabled m s sigs Funding)"
  using stored_step [OF assms(1) first_enabled_ok [OF assms(2-4,7)], of Funding OpEnableInit]
    EnableInit_first_staged [OF assms(6,8), of m] assms(5) by simp

lemma first_funded:
  assumes "stored B d (first_enabled m s sigs Funding)" "source_ok B wf_addr wf_sig wf_asset (source_of m)"
    "state_ok B wf_addr wf_asset s" "sigs_ok sigs" "int (length sigs) = NumParts (st_Alloc s)"
  shows "\<exists>d'. pm_SetFunded \<lparr>psm_machine = first_enabled m s sigs Funding, psm_db = d\<rparr> =
     (\<lparr>psm_machine = first_enabled m s sigs Acting, psm_db = d'\<rparr>, OK ()) \<and> stored B d' (first_enabled m s sigs Acting)"
  using stored_step [OF assms(1) first_enabled_ok [OF assms(2-5)], of Acting OpSetFunded]
    SetFunded_first_enabled [of m s sigs] by (simp add: zeroTransaction_def)

text \<open>What one side does with its new channel, when the peer's signature arrives.\<close>

definition init_msg :: "Params \<Rightarrow> bytes \<Rightarrow> Msg" where
  "init_msg params x = MUpdateAcc \<lparr>ua_ChannelID = p_id params, ua_Version = 0, ua_Sig = Some x\<rparr>"

lemma exchange_side:
  assumes st: "stored B d (first_staged m s [None, None])" and ok: "source_ok B wf_addr wf_sig wf_asset (source_of m)"
    "state_ok B wf_addr wf_asset s" "NumParts (st_Alloc s) = 2" "\<not> st_IsFinal s"
    and m: "length (p_Parts (m_params m)) = 2" "m_idx m = 0 \<or> m_idx m = 1"
    and ch: "ch_peers ch = [a, b]" "a \<noteq> b" "\<not> ch_closed ch"
    and x: "cb_Sign B (m_acc m) (m_params m) s = OK (Some x)"
    and y: "cb_Verify B (p_Parts (m_params m) ! unat (m_idx m XOR 1)) (m_params m) s (Some y) = OK True" "wf_sig y" "y \<noteq> []"
    and N: "net_Publish N = (\<lambda>_ _. OK ())"
      "find (\<lambda>e. isUpdateRes (p_id (m_params m)) 0 (env_Msg e)) (net_Incoming N (cl_sent cl @ es @ [two_env ch (m_idx m) (init_msg (m_params m) x)])) =
        Some (two_env ch (m_idx m XOR 1) (init_msg (m_params m) y))"
  defines "sigs \<equiv> two_sigs (m_idx m) (Some x) (m_idx m XOR 1) (Some y)"
  shows "\<exists>d'. initExchangeSigsAndEnable B N c (upd c ch cl (first_staged m s [None, None]) d es) =
     (upd c ch cl (first_enabled m s sigs Funding) d' (es @ [two_env ch (m_idx m) (init_msg (m_params m) x)]), OK ()) \<and>
     stored B d' (first_enabled m s sigs Funding) \<and> sigs_ok sigs"
proof -
  note i = other_index [OF m(2)]
  have wx: "wf_sig x" "x \<noteq> []"
    using sign_wf [OF x] by auto
  have none: "sigs_ok [None, None]" "unat (m_idx m) < 2" "[None, None] ! unat (m_idx m) = None" "unat (m_idx m XOR 1) < 2"
    using sigs_ok_none [of 2] m(2) i(1) by (auto simp: numeral_2_eq_2)
  define own where "own = [None, None][unat (m_idx m) := Some x]"
  have own: "sigs_ok own" "length own = 2" "own ! unat (m_idx m XOR 1) = None" "own[unat (m_idx m XOR 1) := Some y] = sigs"
    using sigs_ok_update [OF none(1) wx] m(2) by (auto simp: own_def sigs_def two_sigs_def numeral_2_eq_2)
  have full: "sigs_ok sigs" "None \<notin> set sigs" "length sigs = 2"
    using sigs_ok_update [OF own(1) y(2,3), of "unat (m_idx m XOR 1)"] own(4) m(2)
    by (auto simp: sigs_def two_sigs_def numeral_2_eq_2)
  obtain d1 where d1: "pm_Sig B \<lparr>psm_machine = first_staged m s [None, None], psm_db = d\<rparr> =
      (\<lparr>psm_machine = first_staged m s own, psm_db = d1\<rparr>, OK (Some x))" "stored B d1 (first_staged m s own)"
    using first_Sig [OF st ok(1,2) none(1) _ _ none(3) wx refl x] m(1) none(2) by (auto simp: own_def)
  obtain d2 where d2: "pm_AddSig B \<lparr>psm_machine = first_staged m s own, psm_db = d1\<rparr> (m_idx m XOR 1) (Some y) =
      (\<lparr>psm_machine = first_staged m s sigs, psm_db = d2\<rparr>, OK ())" "stored B d2 (first_staged m s sigs)"
    using first_AddSig [OF d1(2) ok(1,2) own(1) _ _ own(3) y(2,3,1)] m(1) own(2,4) none(4) by auto
  obtain d3 where d3: "pm_EnableInit B \<lparr>psm_machine = first_staged m s sigs, psm_db = d2\<rparr> =
      (\<lparr>psm_machine = first_enabled m s sigs Funding, psm_db = d3\<rparr>, OK ())" "stored B d3 (first_enabled m s sigs Funding)"
    using first_enable [OF d2(2) ok(1,2) full(1) _ full(2) _ ok(4)] full(3) m(1) ok(3) by auto
  have idx: "IndexOfAddr (ch_peers ch) (env_Sender (two_env ch (m_idx m XOR 1) msg)) = int (unat (m_idx m XOR 1))" for msg
    using IndexOfAddr_nth [of "ch_peers ch" "unat (m_idx m XOR 1)"] ch(1,2) none(4) by (simp add: two_env_def)
  have pos: "uint (m_idx m XOR 1) \<noteq> - 1"
    using uint_ge_0 [of "m_idx m XOR 1"] by linarith
  have msg: "env_Msg (two_env ch i msg) = msg" for i msg
    by (simp add: two_env_def)
  let ?e = "two_env ch (m_idx m) (init_msg (m_params m) x)"
  have recv: "recv_Next N c 0 (upd c ch cl (first_staged m s own) d1 (es @ [?e])) =
      (upd c ch cl (first_staged m s own) d1 (es @ [?e]), OK (Some (m_idx m XOR 1, init_msg (m_params m) y)))"
    using N(2) pos by (simp add: recv_Next_upd Let_def idx msg)
  show ?thesis
    using full(1) d3(2)
    by (intro exI [of _ d3]) (simp add: initExchangeSigsAndEnable_def call_simps d1(1) d2(1) d3(1) NewUpdateResRecv_def ch(1,3)
        conn_Send_upd m(2) N(1) recv [unfolded init_msg_def] init_msg_def ch_ID_def machine_ID_def)
qed

lemma fresh_ok:
  assumes "params_ok B wf_addr params" "length (p_id params) = 32"
  shows "source_ok B wf_addr wf_sig wf_asset (source_of (fresh_machine i params))"
  using assms by (simp add: source_ok_def tx_ok_def zeroTransaction_def)

lemma cpp_side:
  assumes a: "agreed_proposal B wf_addr wf_asset H p a params s" and cl: "unopened params cl" and E: "provides E H p params s i"
    and i: "i = 0 \<or> i = 1"
    and x: "cb_Sign B (p_Parts params ! unat i) params s = OK (Some x)"
    and y: "cb_Verify B (p_Parts params ! unat (i XOR 1)) params s (Some y) = OK True" "wf_sig y" "y \<noteq> []"
  defines "ch \<equiv> new_channel i params (lp_Peers p)" and "c \<equiv> cl_next cl" and "sigs \<equiv> two_sigs i (Some x) (i XOR 1) (Some y)"
  assumes N: "net_Publish N = (\<lambda>_ _. OK ())"
      "find (\<lambda>e. isUpdateRes (p_id params) 0 (env_Msg e)) (net_Incoming N (cl_sent cl @ [two_env ch i (init_msg params x)])) =
        Some (two_env ch (i XOR 1) (init_msg params y))"
  shows "\<exists>d. completeCPP B N E (LedgerProposal p) (LedgerAccept a) i cl =
     (upd c ch (cl\<lparr>cl_next := Suc c\<rparr>) (first_enabled (fresh_machine i params) s sigs Funding) d [two_env ch i (init_msg params x)], OK c) \<and>
     stored B d (first_enabled (fresh_machine i params) s sigs Funding) \<and> sigs_ok sigs"
proof -
  let ?m = "fresh_machine i params" and ?cl = "cl\<lparr>cl_next := Suc c\<rparr>"
  note A = a [unfolded agreed_proposal_def] and n = agreed_params [OF a]
  obtain al where al: "bp_InitBals p = Some al" "newState params al (bp_InitData p) = OK s"
    using A by blast
  have i2: "unat i < 2"
    using i by auto
  have ok: "source_ok B wf_addr wf_sig wf_asset (source_of ?m)"
    using A by (intro fresh_ok) auto
  have new: "newChannel B (p_Parts params ! unat i) None (lp_Peers p) params cl = (upd c ch ?cl ?m (cl_db cl) [], OK c)"
    using NewStateMachine_fresh [of B params i] A n(2) i2 cl
    by (simp add: newChannel_def channelFromMachine_def call_simps new_ref_def unopened_def c_def ch_def new_channel_def upd_def put_chan_def)
  have "\<exists>d'. ChannelCreated B (cl_db cl) (source_of ?m) (lp_Peers p) None = (d', OK ()) \<and>
      persisted B d' (source_of ?m) (lp_Peers p) None"
    using ChannelCreated_persisted [OF ok, of "lp_Peers p" None "cl_db cl"] A cl by (fastforce simp: unopened_def)
  then obtain d1 where d1: "ChannelCreated B (cl_db cl) (source_of ?m) (lp_Peers p) None = (d1, OK ())" "stored B d1 ?m"
    by (auto simp: stored_def)
  have created: "on_db (\<lambda>d. ChannelCreated B d (source_of ?m) (lp_Peers p) None) (upd c ch ?cl ?m (cl_db cl) []) =
      (upd c ch ?cl ?m d1 [], OK ())"
    by (simp add: on_db_def d1(1)) (simp add: upd_def)
  have two: "replicate (length (p_Parts params)) (None :: sig) = [None, None]"
    by (simp add: n(2) numeral_2_eq_2)
  obtain d2 where d2: "pm_Init B \<lparr>psm_machine = ?m, psm_db = d1\<rparr> al (bp_InitData p) =
      (\<lparr>psm_machine = first_staged ?m s [None, None], psm_db = d2\<rparr>, OK ())" "stored B d2 (first_staged ?m s [None, None])"
    using first_Init [OF al(2) _ _ d1(2) ok] A n(2) unfolding two by auto
  obtain u v where uv: "lp_Peers p = [u, v]" "u \<noteq> v"
    using A by (auto simp: numeral_2_eq_2 length_Suc_conv)
  have peers: "ch_peers ch = [u, v]" "\<not> ch_closed ch"
    by (simp_all add: ch_def new_channel_def uv(1))
  obtain d3 where d3: "initExchangeSigsAndEnable B N c (upd c ch ?cl (first_staged ?m s [None, None]) d2 []) =
      (upd c ch ?cl (first_enabled ?m s sigs Funding) d3 ([] @ [two_env ch i (init_msg params x)]), OK ())"
    "stored B d3 (first_enabled ?m s sigs Funding)" "sigs_ok sigs"
    using exchange_side [OF d2(2) ok _ _ newState_simps(3) [OF al(2)] _ _ peers(1) uv(2) peers(2), of x y N ?cl "[]"] A n(2) i x y N
    by (auto simp: sigs_def)
  have "index_at (p_Parts params) (unat i) = OK (p_Parts params ! unat i)"
    using i2 n(2) by (simp add: index_at_def)
  then show ?thesis
    using d3 E cl
    by (intro exI [of _ d3]) (simp add: completeCPP_def call_simps n(1) provides_def unopened_def proposalParent_def parentID_def
        new al(1) created Channel_init_def d2(1) BaseChannelProposal.defs)
qed

text \<open>Funding and registering the channel.\<close>

lemma fund_side:
  assumes st: "stored B d (first_enabled m s sigs Funding)" and ok: "source_ok B wf_addr wf_sig wf_asset (source_of m)"
    "state_ok B wf_addr wf_asset s" "sigs_ok sigs" "int (length sigs) = NumParts (st_Alloc s)"
    and E: "oe_Fund E (NewFundingReq (m_params m) (Some s) (m_idx m) (bp_FundingAgreement p)) = OK ()"
    and reg: "\<not> registry_Has cl (p_id (m_params m))" "\<not> ch_closed ch" "unat (m_idx m) < length (p_Parts (m_params m))"
  shows "\<exists>d'. fundChannel B N E c (LedgerProposal p) (upd c ch cl (first_enabled m s sigs Funding) d es) =
     (upd c (ch\<lparr>ch_onClose := ch_onClose ch @ [p_id (m_params m)]\<rparr>)
        (registered_client (p_id (m_params m)) c (p_Parts (m_params m) ! unat (m_idx m)) cl)
        (first_enabled m s sigs Acting) d' es, OK ()) \<and> stored B d' (first_enabled m s sigs Acting)"
proof -
  let ?id = "p_id (m_params m)" and ?part = "p_Parts (m_params m) ! unat (m_idx m)"
  obtain d1 where d1: "pm_SetFunded \<lparr>psm_machine = first_enabled m s sigs Funding, psm_db = d\<rparr> =
      (\<lparr>psm_machine = first_enabled m s sigs Acting, psm_db = d1\<rparr>, OK ())" "stored B d1 (first_enabled m s sigs Acting)"
    using first_funded [OF st ok] by blast
  let ?u = "upd c ch cl (first_enabled m s sigs Acting) d1 es"
  have part: "index_at (p_Parts (m_params m)) (unat (m_idx m)) = OK ?part"
    using reg(3) by (simp add: index_at_def)
  have put: "registry_Put ?id c ?u = (?u\<lparr>cl_heap := (cl_heap ?u)(c \<mapsto> ch\<lparr>ch_machine := first_enabled m s sigs Acting,
      ch_onClose := ch_onClose ch @ [?id]\<rparr>), cl_values := (?id, c) # cl_values cl,
      cl_new := (if cl_handler cl then cl_new cl @ [c] else cl_new cl)\<rparr>, OK True)"
    using reg(1,2)
    by (simp add: registry_Put_def registry_Has_def registry_Get_def call_simps update_chan_def chan_def put_chan_def)
      (simp add: upd_def)
  have "completeFunding c (upd c ch cl (first_enabled m s sigs Funding) d es) =
     (upd c (ch\<lparr>ch_onClose := ch_onClose ch @ [?id]\<rparr>) (registered_client ?id c ?part cl) (first_enabled m s sigs Acting) d1 es, OK ())"
    by (simp add: completeFunding_def call_simps d1(1) ch_ID_def machine_ID_def ch_Idx_def put part)
      (cases cl; cases ch; simp add: upd_def registered_client_def)
  with d1(2) E show ?thesis
    by (intro exI [of _ d1]) (simp add: fundChannel_def fundLedgerChannel_def call_simps ch_State_def ch_Idx_def)
qed

text \<open>One side from the acceptance to the end.\<close>

lemma open_tail:
  assumes a: "agreed_proposal B wf_addr wf_asset H p a params s" and cl: "unopened params cl" and E: "provides E H p params s i"
    and i: "i = 0 \<or> i = 1"
    and x: "cb_Sign B (p_Parts params ! unat i) params s = OK (Some x)"
    and y: "cb_Verify B (p_Parts params ! unat (i XOR 1)) params s (Some y) = OK True" "wf_sig y" "y \<noteq> []"
    and N: "net_Publish N = (\<lambda>_ _. OK ())"
      "\<And>es. find (\<lambda>e. isUpdateRes (p_id params) 0 (env_Msg e)) (net_Incoming N es) =
        Some (two_env (new_channel i params (lp_Peers p)) (i XOR 1) (init_msg params y))"
  shows "\<exists>cl1 cl2 cl3. completeCPP B N E (LedgerProposal p) (LedgerAccept a) i cl = (cl1, OK (cl_next cl)) \<and>
     fundChannel B N E (cl_next cl) (LedgerProposal p) cl1 = (cl2, OK ()) \<and> releaseVer1Cache h cl2 = (cl3, OK ()) \<and>
     opens_with B wf_addr wf_sig wf_asset params s (two_sigs i (Some x) (i XOR 1) (Some y)) i (lp_Peers p) cl3 (cl_next cl) \<and>
     cl_address cl3 = cl_address cl \<and>
     cl_sent cl3 = cl_sent cl @ [two_env (new_channel i params (lp_Peers p)) i (init_msg params x)]"
proof -
  define c ch sigs where "c = cl_next cl" and "ch = new_channel i params (lp_Peers p)" and "sigs = two_sigs i (Some x) (i XOR 1) (Some y)"
  let ?m = "fresh_machine i params" and ?e = "two_env ch i (init_msg params x)" and ?cl = "cl\<lparr>cl_next := Suc c\<rparr>"
  note A = a [unfolded agreed_proposal_def] and n = agreed_params [OF a]
  obtain d where d: "completeCPP B N E (LedgerProposal p) (LedgerAccept a) i cl =
      (upd c ch ?cl (first_enabled ?m s sigs Funding) d [?e], OK c)" "stored B d (first_enabled ?m s sigs Funding)" "sigs_ok sigs"
    using cpp_side [OF a cl E i x y N(1,2)] unfolding c_def ch_def sigs_def by blast
  have ok: "source_ok B wf_addr wf_sig wf_asset (source_of ?m)" "state_ok B wf_addr wf_asset s" "int (length sigs) = NumParts (st_Alloc s)"
    using A fresh_ok by (auto simp: sigs_def two_sigs_def)
  have i2: "unat i < 2"
    using i by auto
  let ?ch = "ch\<lparr>ch_onClose := [p_id params]\<rparr>" and ?cl' = "registered_client (p_id params) c (p_Parts params ! unat i) ?cl"
  obtain d' where d': "fundChannel B N E c (LedgerProposal p) (upd c ch ?cl (first_enabled ?m s sigs Funding) d [?e]) =
      (upd c ?ch ?cl' (first_enabled ?m s sigs Acting) d' [?e], OK ())" "stored B d' (first_enabled ?m s sigs Acting)"
    using fund_side [OF d(2) ok(1,2) d(3) ok(3), of E p ?cl ch N c "[?e]"] E cl i2 n(2)
    by (auto simp: provides_def unopened_def registry_Has_def registry_Get_def ch_def new_channel_def)
  let ?u = "upd c ?ch ?cl' (first_enabled ?m s sigs Acting) d' [?e]"
  let ?v = "?u\<lparr>cl_enabled := cl_enabled ?u - 1, cl_cache := []\<rparr>"
  have "releaseVer1Cache h ?u = (?v, OK ())"
    using cl by (simp add: releaseVer1Cache_def call_simps unopened_def) (simp add: upd_def registered_client_def returnS_def)
  moreover have "source_ok B wf_addr wf_sig wf_asset (source_of (first_enabled ?m s sigs Acting))"
    by (intro first_enabled_ok [OF ok(1,2) d(3) ok(3)]) simp
  then have "side_ready B wf_addr wf_sig wf_asset ?v c (?ch\<lparr>ch_machine := first_enabled ?m s sigs Acting\<rparr>)"
    using A n(2) i d'(2) by (auto simp: side_ready_def ready_def ch_def new_channel_def)
  then have "opens_with B wf_addr wf_sig wf_asset params s sigs i (lp_Peers p) ?v c"
    unfolding opens_with_def
    by (intro exI [of _ "?ch\<lparr>ch_machine := first_enabled ?m s sigs Acting\<rparr>"])
      (simp add: ch_def new_channel_def registry_Get_def registered_client_def)
  moreover have "cl_address ?v = cl_address cl" "cl_sent ?v = cl_sent cl @ [?e]"
    by (simp_all add: registered_client_def)
  ultimately show ?thesis
    using d(1) d'(1) unfolding c_def ch_def sigs_def by blast
qed

text \<open>The checks of a proposal, which both sides make.\<close>

lemma valid_proposal:
  assumes "agreed_proposal B wf_addr wf_asset H p a params s" "i = 0 \<or> i = 1"
    and "lp_Peers p ! unat i = cl_address cl" "lp_Peers p ! unat (i XOR 1) = peer"
  shows "validTwoPartyProposal B (LedgerProposal p) i peer cl = (cl, OK ())"
    "prepareChannelOpening (LedgerProposal p) i cl = (cl, OK ())"
    "validChannelProposalAcc H B (LedgerProposal p) (LedgerAccept a) = OK ()"
proof -
  have "NumPeers (BaseChannelProposal.truncate p) = NumPeers p"
    by (simp add: NumPeers_def BaseChannelProposal.defs)
  with assms show "validTwoPartyProposal B (LedgerProposal p) i peer cl = (cl, OK ())"
    by (auto simp: validTwoPartyProposal_def agreed_proposal_def call_simps proposerIdx_def proposeeIdx_def)
  show "prepareChannelOpening (LedgerProposal p) i cl = (cl, OK ())"
    by (simp add: prepareChannelOpening_def proposalParent_def parentID_def call_simps)
  show "validChannelProposalAcc H B (LedgerProposal p) (LedgerAccept a) = OK ()"
    using assms(1) by (simp add: validChannelProposalAcc_def agreed_proposal_def BaseChannelProposalAcc.defs)
qed

lemma proposer_opens:
  assumes a: "agreed_proposal B wf_addr wf_asset H p a params s" and cl: "unopened params cl" and E: "provides E H p params s 0"
    and peers: "lp_Peers p = [cl_address cl, b]"
    and x: "cb_Sign B (p_Parts params ! 0) params s = OK (Some x)"
    and y: "cb_Verify B (p_Parts params ! 1) params s (Some y) = OK True" "wf_sig y" "y \<noteq> []"
    and N: "net_Publish N = (\<lambda>_ _. OK ())"
      "net_Incoming N = (\<lambda>_. [\<lparr>env_Sender = b, env_Recipient = cl_address cl, env_Msg = MLedgerProposalAcc a\<rparr>,
         \<lparr>env_Sender = b, env_Recipient = cl_address cl, env_Msg = init_msg params y\<rparr>])"
  shows "\<exists>cl1. ProposeChannel B N E h (LedgerProposal p) cl = (cl1, OK (cl_next cl)) \<and>
     opens_with B wf_addr wf_sig wf_asset params s [Some x, Some y] 0 (lp_Peers p) cl1 (cl_next cl) \<and>
     cl_address cl1 = cl_address cl \<and>
     cl_sent cl1 = cl_sent cl @ [\<lparr>env_Sender = cl_address cl, env_Recipient = b, env_Msg = MLedgerProposal p\<rparr>,
       \<lparr>env_Sender = cl_address cl, env_Recipient = b, env_Msg = init_msg params x\<rparr>]"
proof -
  let ?cl = "cl\<lparr>cl_enabled := cl_enabled cl + 1\<rparr>"
  let ?env = "\<lparr>env_Sender = cl_address cl, env_Recipient = b, env_Msg = MLedgerProposal p\<rparr>"
  let ?cl' = "?cl\<lparr>cl_sent := cl_sent cl @ [?env]\<rparr>"
  have cl': "unopened params ?cl'"
    using cl by (simp add: unopened_def registry_Has_def registry_Get_def)
  have two: "two_sigs 0 (Some x) (0 XOR 1) (Some y) = [Some x, Some y]"
    by (simp add: two_sigs_def numeral_2_eq_2)
  have find: "find (\<lambda>e. isUpdateRes (p_id params) 0 (env_Msg e)) (net_Incoming N es) =
      Some (two_env (new_channel 0 params (lp_Peers p)) (0 XOR 1) (init_msg params y))" for es
    by (simp add: N(2) peers two_env_def new_channel_def isUpdateRes_def init_msg_def)
  obtain cl1 cl2 cl3 where tail: "completeCPP B N E (LedgerProposal p) (LedgerAccept a) 0 ?cl' = (cl1, OK (cl_next cl))"
    "fundChannel B N E (cl_next cl) (LedgerProposal p) cl1 = (cl2, OK ())" "releaseVer1Cache h cl2 = (cl3, OK ())"
    "opens_with B wf_addr wf_sig wf_asset params s [Some x, Some y] 0 (lp_Peers p) cl3 (cl_next cl)" "cl_address cl3 = cl_address cl"
    "cl_sent cl3 = cl_sent ?cl' @ [two_env (new_channel 0 params (lp_Peers p)) 0 (init_msg params x)]"
    using open_tail [OF a cl' E _ _ _ y(2,3) N(1) find, of x h] x y(1) two by auto
  have id: "Ledger_ProposalID H B p = OK (ba_ProposalID a)" "oe_Hash E = H"
    using a E by (simp_all add: agreed_proposal_def provides_def)
  have "proposeTwoPartyChannel B N E (LedgerProposal p) ?cl = (cl1, OK (cl_next cl))"
    using cl tail(1) valid_proposal(3) [OF a, of 0 ?cl b] peers
    by (simp add: proposeTwoPartyChannel_def call_simps peers proposeeIdx_def index_at_def id unopened_def pubMsg_def Publish_def
        N isProposalRes_def msg_Accept_def proposerIdx_def)
  then have "ProposeChannel B N E h (LedgerProposal p) cl = (cl3, OK (cl_next cl))"
    using tail(2,3) valid_proposal [OF a, of 0 cl b] peers
    by (simp add: ProposeChannel_def call_simps index_at_def proposeeIdx_def proposerIdx_def enableVer1Cache_def finallyS_def)
  with tail(4-6) show ?thesis
    by (simp add: two_env_def new_channel_def peers)
qed

lemma proposee_opens:
  assumes a: "agreed_proposal B wf_addr wf_asset H p a params s" and cl: "unopened params cl"
    and E: "provides (hd_env Hd) H p params s 1" and u: "hd_proposal Hd (LedgerProposal p) = ProposalAccept (LedgerAccept a)"
    and peers: "lp_Peers p = [b, cl_address cl]"
    and x: "cb_Verify B (p_Parts params ! 0) params s (Some x) = OK True" "wf_sig x" "x \<noteq> []"
    and y: "cb_Sign B (p_Parts params ! 1) params s = OK (Some y)"
    and N: "net_Publish N = (\<lambda>_ _. OK ())"
      "net_Incoming N = (\<lambda>_. [\<lparr>env_Sender = b, env_Recipient = cl_address cl, env_Msg = MLedgerProposal p\<rparr>,
         \<lparr>env_Sender = b, env_Recipient = cl_address cl, env_Msg = init_msg params x\<rparr>])"
  shows "\<exists>cl1. Handle B N Hd [\<lparr>env_Sender = b, env_Recipient = cl_address cl, env_Msg = MLedgerProposal p\<rparr>] cl = (cl1, OK ()) \<and>
     opens_with B wf_addr wf_sig wf_asset params s [Some x, Some y] 1 (lp_Peers p) cl1 (cl_next cl) \<and>
     cl_address cl1 = cl_address cl \<and>
     cl_sent cl1 = cl_sent cl @ [\<lparr>env_Sender = cl_address cl, env_Recipient = b, env_Msg = MLedgerProposalAcc a\<rparr>,
       \<lparr>env_Sender = cl_address cl, env_Recipient = b, env_Msg = init_msg params y\<rparr>]"
proof -
  let ?E = "hd_env Hd" and ?h = "handleChannelUpdate B N (hd_update Hd) (hd_awaited Hd) (hd_wait Hd)"
  let ?cl = "cl\<lparr>cl_enabled := cl_enabled cl + 1\<rparr>"
  let ?env = "\<lparr>env_Sender = cl_address cl, env_Recipient = b, env_Msg = MLedgerProposalAcc a\<rparr>"
  let ?cl' = "?cl\<lparr>cl_sent := cl_sent cl @ [?env]\<rparr>"
  have cl': "unopened params ?cl'"
    using cl by (simp add: unopened_def registry_Has_def registry_Get_def)
  have two: "two_sigs 1 (Some y) (1 XOR 1) (Some x) = [Some x, Some y]"
    by (simp add: two_sigs_def numeral_2_eq_2)
  have find: "find (\<lambda>e. isUpdateRes (p_id params) 0 (env_Msg e)) (net_Incoming N es) =
      Some (two_env (new_channel 1 params (lp_Peers p)) (1 XOR 1) (init_msg params x))" for es
    by (simp add: N(2) peers two_env_def new_channel_def isUpdateRes_def init_msg_def)
  obtain cl1 cl2 cl3 where tail: "completeCPP B N ?E (LedgerProposal p) (LedgerAccept a) 1 ?cl' = (cl1, OK (cl_next cl))"
    "fundChannel B N ?E (cl_next cl) (LedgerProposal p) cl1 = (cl2, OK ())" "releaseVer1Cache ?h cl2 = (cl3, OK ())"
    "opens_with B wf_addr wf_sig wf_asset params s [Some x, Some y] 1 (lp_Peers p) cl3 (cl_next cl)" "cl_address cl3 = cl_address cl"
    "cl_sent cl3 = cl_sent ?cl' @ [two_env (new_channel 1 params (lp_Peers p)) 1 (init_msg params y)]"
    using open_tail [OF a cl' E _ _ _ x(2,3) N(1) find, of y ?h] x(1) y two by auto
  have "acceptChannelProposal B N ?E (LedgerProposal p) b (LedgerAccept a) ?cl = (cl1, OK (cl_next cl))"
    using tail(1) by (simp add: acceptChannelProposal_def call_simps pubMsg_def Publish_def N(1) proposeeIdx_def)
  then have "handleChannelProposalAcc B N ?E ?h b (LedgerProposal p) (LedgerAccept a) cl = (cl3, OK (cl_next cl))"
    using tail(2,3) valid_proposal(3) [OF a, of 1 cl b] peers E
    by (simp add: handleChannelProposalAcc_def call_simps enableVer1Cache_def finallyS_def provides_def)
  then have "handleChannelProposal B N ?E ?h (hd_proposal Hd) b (LedgerProposal p) cl = (cl3, OK ())"
    using valid_proposal [OF a, of 1 cl b] peers u
    by (simp add: handleChannelProposal_def call_simps proposeeIdx_def)
  then have "Handle B N Hd [\<lparr>env_Sender = b, env_Recipient = cl_address cl, env_Msg = MLedgerProposal p\<rparr>] cl = (cl3, OK ())"
    by (simp add: Handle_def isReqMsg_def msg_Type_def dispatch_def Let_def call_simps)
  with tail(4-6) show ?thesis
    by (simp add: two_env_def new_channel_def peers)
qed

text \<open>Both sides together.\<close>

lemma opened_paired:
  assumes "opens_with B wf_addr wf_sig wf_asset params s sigs 0 [a, b] cl c" "opens_with B wf_addr wf_sig wf_asset params s sigs 1 [a, b] peer c'"
    and "st_ID s = p_id params" "a \<noteq> b" "cl_address cl = a" "cl_address peer = b"
  shows "\<exists>ch ch'. paired B wf_addr wf_sig wf_asset cl c ch peer c' ch' \<and> m_params (ch_machine ch) = params \<and>
     m_currentTX (ch_machine ch) = \<lparr>tx_State = Some s, tx_Sigs = sigs\<rparr>"
proof -
  obtain ch where ch: "side_ready B wf_addr wf_sig wf_asset cl c ch" "ch_parent ch = None" "ch_fundings ch = []" "ch_withdrawals ch = []"
    "ch_peers ch = [a, b]" "m_params (ch_machine ch) = params" "m_idx (ch_machine ch) = 0" "sm_app (ch_machine ch) = p_App params"
    "m_currentTX (ch_machine ch) = \<lparr>tx_State = Some s, tx_Sigs = sigs\<rparr>" "registry_Get cl (p_id params) = Some c"
    using assms(1) by (auto simp: opens_with_def)
  obtain ch' where ch': "side_ready B wf_addr wf_sig wf_asset peer c' ch'" "ch_parent ch' = None" "ch_fundings ch' = []"
    "ch_withdrawals ch' = []" "ch_peers ch' = [a, b]" "m_params (ch_machine ch') = params" "m_idx (ch_machine ch') = 1"
    "sm_app (ch_machine ch') = p_App params" "m_currentTX (ch_machine ch') = \<lparr>tx_State = Some s, tx_Sigs = sigs\<rparr>"
    "registry_Get peer (p_id params) = Some c'"
    using assms(2) by (auto simp: opens_with_def)
  have "paired B wf_addr wf_sig wf_asset cl c ch peer c' ch'"
    using ch ch' assms(3-6) by (simp add: paired_def ch_Idx_def ch_ID_def ch_State_def machine_ID_def)
  with ch show ?thesis by blast
qed

lemma opening_agreement:
  assumes a: "agreed_proposal B wf_addr wf_asset H p a params s" and cl: "unopened params cl" "unopened params peer"
    and E: "provides E H p params s 0" "provides (hd_env Hd) H p params s 1"
    and u: "hd_proposal Hd (LedgerProposal p) = ProposalAccept (LedgerAccept a)"
    and peers: "lp_Peers p = [cl_address cl, cl_address peer]"
    and x: "cb_Sign B (p_Parts params ! 0) params s = OK x" and y: "cb_Sign B (p_Parts params ! 1) params s = OK y"
  shows "\<exists>cl1 peer1 c c' ch ch'. ProposeChannel B (feed (cl_address cl) (sent_by peer peer1)) E h (LedgerProposal p) cl = (cl1, OK c) \<and>
     Handle B (feed (cl_address peer) (sent_by cl cl1)) Hd (deliver (cl_address peer) (sent_by cl cl1)) peer = (peer1, OK ()) \<and>
     paired B wf_addr wf_sig wf_asset cl1 c ch peer1 c' ch' \<and> m_params (ch_machine ch) = params \<and>
     m_currentTX (ch_machine ch) = \<lparr>tx_State = Some s, tx_Sigs = [x, y]\<rparr> \<and>
     cb_Verify B (p_Parts params ! 0) params s x = OK True \<and> cb_Verify B (p_Parts params ! 1) params s y = OK True"
proof -
  obtain x' y' where xy: "x = Some x'" "wf_sig x'" "x' \<noteq> []" "y = Some y'" "wf_sig y'" "y' \<noteq> []"
    using sign_wf [OF x] sign_wf [OF y] by auto
  let ?toB = "\<lambda>m. \<lparr>env_Sender = cl_address cl, env_Recipient = cl_address peer, env_Msg = m\<rparr>"
  let ?toA = "\<lambda>m. \<lparr>env_Sender = cl_address peer, env_Recipient = cl_address cl, env_Msg = m\<rparr>"
  let ?esA = "[?toB (MLedgerProposal p), ?toB (init_msg params x')]" and ?esB = "[?toA (MLedgerProposalAcc a), ?toA (init_msg params y')]"
  have "valid_alloc (st_Alloc s)"
    using a by (simp add: agreed_proposal_def state_ok_def alloc_ok_def)
  note v = sign_verify [OF x this] sign_verify [OF y this]
  obtain cl1 where cl1: "ProposeChannel B (feed (cl_address cl) ?esB) E h (LedgerProposal p) cl = (cl1, OK (cl_next cl))"
    "opens_with B wf_addr wf_sig wf_asset params s [x, y] 0 (lp_Peers p) cl1 (cl_next cl)" "cl_address cl1 = cl_address cl"
    "cl_sent cl1 = cl_sent cl @ ?esA"
    using proposer_opens [OF a cl(1) E(1) peers _ _ xy(5,6), of x' "feed (cl_address cl) ?esB" h] x v xy
    by (auto simp: feed_def silent_def deliver_def)
  obtain peer1 where peer1: "Handle B (feed (cl_address peer) ?esA) Hd [?toB (MLedgerProposal p)] peer = (peer1, OK ())"
    "opens_with B wf_addr wf_sig wf_asset params s [x, y] 1 (lp_Peers p) peer1 (cl_next peer)" "cl_address peer1 = cl_address peer"
    "cl_sent peer1 = cl_sent peer @ ?esB"
    using proposee_opens [OF a cl(2) E(2) u peers _ xy(2,3), of y' "feed (cl_address peer) ?esA"] y v xy
    by (auto simp: feed_def silent_def deliver_def)
  have sent: "sent_by cl cl1 = ?esA" "sent_by peer peer1 = ?esB"
    using cl1(4) peer1(4) by (simp_all add: sent_by_def)
  have "Handle B N Hd (deliver (cl_address peer) ?esA) = Handle B N Hd [?toB (MLedgerProposal p)]" for N
    by (simp add: Handle_def deliver_def isReqMsg_def init_msg_def msg_Type_def)
  moreover have "\<exists>ch ch'. paired B wf_addr wf_sig wf_asset cl1 (cl_next cl) ch peer1 (cl_next peer) ch' \<and> m_params (ch_machine ch) = params \<and>
     m_currentTX (ch_machine ch) = \<lparr>tx_State = Some s, tx_Sigs = [x, y]\<rparr>"
    using opened_paired cl1(2,3) peer1(2,3) peers a newState_simps(1) unfolding agreed_proposal_def by (auto simp: peers)
  ultimately show ?thesis
    using cl1(1) peer1(1) v unfolding sent [symmetric] by metis
qed

end

end
