(* ===== verification/Perun_Scenario.thy ===== *)
theory Perun_Scenario
  imports Perun_Examples Perun_Offchain Perun_Settle Perun_Agreement
begin

text \<open>
  The contract of the update protocol holds for the simulated backend, and two concrete clients that
  share a channel: Alice's and Bob's, each with the channel in its database and in its registry.
\<close>

interpretation sim_client: client_backend "sim_backend C lk reg ua" addr64 addr64 sim_asset_ok
  for C lk reg ua
proof unfold_locales
  fix a p s sg
  assume "cb_Sign (sim_backend C lk reg ua) a p s = OK sg"
  then show "\<exists>x. sg = Some x \<and> addr64 x \<and> x \<noteq> []"
    using deserialize_serialize by (fastforce simp: sim_Sign_def SignData_def res_simps split: if_splits)
qed

lemma ex_client_backend: "client_backend ex_backend addr64 addr64 sim_asset_ok"
proof -
  have "\<exists>x. sg = Some x \<and> addr64 x \<and> x \<noteq> []" if "cb_Sign ex_backend a p s = OK sg" for a p s sg
  proof -
    from that have "sg = Some a" "addr64 a"
      by (simp_all add: ex_backend_def split: if_splits)
    moreover from this(2) have "a \<noteq> []"
      by (metis list.size(3) zero_neq_numeral)
    ultimately show ?thesis by blast
  qed
  then have "client_backend_axioms ex_backend addr64"
    unfolding client_backend_axioms_def by blast
  with ex_codec ex_signing_backend show ?thesis
    by (simp add: client_backend_def)
qed

section \<open>Two clients\<close>

definition ex_machine_bob :: StateMachine where
  "ex_machine_bob = ex_machine\<lparr>m_acc := ex_bob, m_idx := 1\<rparr>"

definition ex_db :: "StateMachine \<Rightarrow> memdb" where
  "ex_db m = fst (ChannelCreated ex_backend NewDatabase (source_of m) [ex_alice, ex_bob] None)"

definition ex_channel :: "StateMachine \<Rightarrow> Channel" where
  "ex_channel m = \<lparr>ch_machine = m, ch_peers = [ex_alice, ex_bob], ch_parent = None, ch_onUpdate = True,
     ch_updates = [], ch_fundings = [], ch_withdrawals = [], ch_closed = False, ch_onClose = []\<rparr>"

definition ex_client :: "address \<Rightarrow> StateMachine \<Rightarrow> Client" where
  "ex_client a m = \<lparr>cl_address = a, cl_db = ex_db m, cl_heap = [0 \<mapsto> ex_channel m], cl_values = [(Zero, 0)],
     cl_handler = False, cl_new = [], cl_enabled = 0, cl_cache = [], cl_sent = [], cl_usage = (\<lambda>_. 0),
     cl_next = 1, cl_closed = False, cl_fundingW = [], cl_settlementW = [], cl_chain = []\<rparr>"

definition ex_handlers :: "decision \<Rightarrow> Handlers" where
  "ex_handlers d = \<lparr>hd_env = \<lparr>oe_Hash = (\<lambda>_. Zero), oe_Unlock = OK, oe_Fund = (\<lambda>_. OK ()), oe_Intercepted = None\<rparr>,
     hd_proposal = (\<lambda>_. ProposalSilent), hd_update = (\<lambda>_ _. d), hd_awaited = (\<lambda>_ _. False), hd_wait = returnS ()\<rparr>"

lemma ex_source_ok_bob: "source_ok ex_backend addr64 addr64 sim_asset_ok (source_of ex_machine_bob)"
  using ex_source_ok(1) by (simp add: source_ok_def ex_machine_bob_def source_of_def)

lemma ex_stored:
  assumes "source_ok ex_backend addr64 addr64 sim_asset_ok (source_of m)"
  shows "stored ex_backend (ex_db m) m"
  using channel_codec.ChannelCreated_persisted [OF ex_codec assms, of "[ex_alice, ex_bob]" None NewDatabase]
  by (fastforce simp: NewDatabase_inv ex_db_def stored_def)

lemma ex_side:
  assumes "m = ex_machine \<or> m = ex_machine_bob"
  shows "side_ready ex_backend addr64 addr64 sim_asset_ok (ex_client a m) 0 (ex_channel m)"
proof -
  have ok: "source_ok ex_backend addr64 addr64 sim_asset_ok (source_of m)"
    using assms ex_source_ok(1) ex_source_ok_bob by auto
  have "ready m" "length (p_Parts (m_params m)) = 2" "m_idx m = 0 \<or> m_idx m = 1"
    "p_Parts (m_params m) ! unat (m_idx m) = m_acc m"
    using assms by (auto simp: ready_def ex_machine_def ex_machine_bob_def ex_params_def)
  with ok ex_stored [OF ok] show ?thesis
    by (simp add: side_ready_def ex_client_def ex_channel_def)
qed

lemma ex_paired:
  "paired ex_backend addr64 addr64 sim_asset_ok (ex_client ex_alice ex_machine) 0 (ex_channel ex_machine)
     (ex_client ex_bob ex_machine_bob) 0 (ex_channel ex_machine_bob)"
proof -
  have "registry_Get (ex_client ex_bob ex_machine_bob) (ch_ID (ex_channel ex_machine_bob)) = Some 0"
    by (simp add: registry_Get_def ex_client_def ch_ID_def machine_ID_def ex_channel_def ex_machine_bob_def
        ex_machine_def ex_params_def)
  then show ?thesis
    using ex_side [of ex_machine ex_alice] ex_side [of ex_machine_bob ex_bob]
    by (simp add: paired_def ex_channel_def ch_Idx_def ch_State_def ch_ID_def machine_ID_def)
      (simp add: ex_machine_bob_def ex_machine_def ex_client_def ex_tx_def ex_state_def ex_params_def)
qed

lemma ex_sums: "Allocation_Sum ex_alloc = Allocation_Sum ex_alloc2"
  by (simp add: Allocation_Sum_eq [OF valid_alloc_dims] asset_total_def)
    (simp add: ex_alloc_def ex_alloc2_def asset_total_def)

lemma ex_update:
  "validTransition ex_backend ex_machine ex_state2 0 = OK ()"
  "validTwoPartyUpdateState (ex_channel ex_machine) ex_state2 = OK ()"
  "NumParts (st_Alloc ex_state2) = 2"
proof -
  show "validTransition ex_backend ex_machine ex_state2 0 = OK ()"
    by (simp add: validTransition_OK_iff machine_validTransition_OK_iff AppShouldEqual_OK_iff machine_N_def
        ex_machine_def ex_tx_def ex_params_def)
      (simp add: ex_state_def ex_state2_def ex_sums IsNoApp_def app_ValidTransition_def)
  show "validTwoPartyUpdateState (ex_channel ex_machine) ex_state2 = OK ()"
    by (simp add: validTwoPartyUpdateState_def validTwoPartyUpdate_def makeChannelUpdate_def ch_State_def
      ex_channel_def SubAllocsAssertEqual_OK_iff ex_machine_def ex_tx_def)
     (simp add: ex_state_def ex_state2_def ex_alloc_def ex_alloc2_def)
  show "NumParts (st_Alloc ex_state2) = 2"
    by (simp add: NumParts_def ex_state2_def ex_alloc2_def)
qed

lemma ex_signs:
  "cb_Sign ex_backend (m_acc (ch_machine (ex_channel ex_machine))) p s = OK (Some ex_alice)"
  "cb_Sign ex_backend (m_acc (ch_machine (ex_channel ex_machine_bob))) p s = OK (Some ex_bob)"
  by (simp_all add: ex_backend_def ex_channel_def ex_machine_def ex_machine_bob_def)

lemma ex_channel_update:
  "validTransition ex_backend (ch_machine (ex_channel ex_machine)) ex_state2 (ch_Idx (ex_channel ex_machine)) = OK ()"
  using ex_update(1) by (simp add: ex_channel_def ch_Idx_def ex_machine_def)

section \<open>Sub-channels and virtual channels\<close>

definition ex_funding :: virtualChannelFundingProposal where
  "ex_funding = \<lparr>cu_State = ex_state2, cu_ActorIdx = 0, mu_Sig = Some ex_alice,
     vf_Initial = \<lparr>ss_Params = ex_params, ss_State = ex_state, ss_Sigs = []\<rparr>, vf_IndexMap = [0, 1]\<rparr>"

text \<open>Alice's update leaves her five coins and takes all three from Bob.\<close>

definition ex_grab :: State where
  "ex_grab = \<lparr>st_ID = Zero, st_Version = 1, st_App = NoApp, st_Alloc = \<lparr>al_Assets = [ex_asset], al_Balances = [[5, 0]],
     al_Locked = [\<lparr>sa_ID = replicate 32 7, sa_Bals = [3], sa_IndexMap = []\<rparr>]\<rparr>, st_Data = NoData, st_IsFinal = False\<rparr>"

lemma ex_grab_ok: "state_ok ex_backend addr64 sim_asset_ok ex_grab" "valid_alloc (st_Alloc ex_grab)"
  by (simp_all add: state_ok_def app_ok_def data_ok_def alloc_ok_def valid_alloc_def balances_ok_def bal_ok_def
      valid_suballoc_def suballoc_ok_def ex_grab_def max_defs)

lemma ex_grab_transition: "validTransition ex_backend ex_machine_bob ex_grab 0 = OK ()"
proof -
  have "Allocation_Sum ex_alloc = Allocation_Sum (st_Alloc ex_grab)"
    by (simp add: Allocation_Sum_eq [OF valid_alloc_dims] ex_grab_ok(2))
      (simp add: ex_alloc_def ex_grab_def asset_total_def)
  then show ?thesis
    using ex_grab_ok(2)
    by (simp add: validTransition_OK_iff machine_validTransition_OK_iff AppShouldEqual_OK_iff machine_N_def
        ex_machine_bob_def ex_machine_def ex_tx_def ex_params_def)
      (simp add: ex_state_def ex_grab_def IsNoApp_def app_ValidTransition_def)
qed

definition ex_waiting :: Channel where
  "ex_waiting = (ex_channel ex_machine_bob)\<lparr>ch_fundings := [(replicate 32 7, FundingFilter (replicate 32 7) [3])]\<rparr>"

lemma ex_waiting_side:
  "side_ready ex_backend addr64 addr64 sim_asset_ok ((ex_client ex_bob ex_machine_bob)\<lparr>cl_heap := [0 \<mapsto> ex_waiting]\<rparr>) 0 ex_waiting"
  using ex_side [of ex_machine_bob ex_bob] by (simp add: side_ready_def ex_waiting_def ex_channel_def Let_def)

section \<open>A tree of two channels\<close>

text \<open>The state \<open>ex_grab\<close> of a ledger channel funds a sub-channel.\<close>

definition ex_parent :: StateMachine where
  "ex_parent = ex_machine\<lparr>m_currentTX := \<lparr>tx_State = Some ex_grab, tx_Sigs = [Some ex_alice, Some ex_bob]\<rparr>\<rparr>"

definition ex_child :: StateMachine where
  "ex_child = ex_machine\<lparr>m_params := ex_params\<lparr>p_id := replicate 32 7, p_LedgerChannel := False\<rparr>,
     m_currentTX := \<lparr>tx_State = Some (ex_state2\<lparr>st_ID := replicate 32 7\<rparr>), tx_Sigs = [Some ex_alice, Some ex_bob]\<rparr>\<rparr>"

definition ex_tree :: Client where
  "ex_tree = (ex_client ex_alice ex_machine)\<lparr>
     cl_heap := [0 \<mapsto> ex_channel ex_parent, 1 \<mapsto> (ex_channel ex_child)\<lparr>ch_parent := Some 0\<rparr>],
     cl_values := [(Zero, 0), (replicate 32 7, 1)], cl_next := 2\<rparr>"

definition ex_adjudicator :: Adjudicator where
  "ex_adjudicator = \<lparr>ad_Register = (\<lambda>_ _. OK ()), ad_Withdraw = (\<lambda>_ _. OK ()), ad_Progress = (\<lambda>_. OK ()),
     ad_Subscribe = (\<lambda>_. OK ([], OK ()))\<rparr>"

lemma ex_tree_locked: "tryLockRecursive 0 ex_tree = (ex_tree, OK [0, 1])"
proof -
  show ?thesis
    by (simp add: tryLockRecursive_def applyRecursive_def call_simps depth_def lock_def ex_tree_def ex_client_def ex_channel_def
        ch_State_def ex_parent_def ex_child_def ex_grab_def ex_state2_def ex_alloc2_def Client_Channel_def registry_Get_def
        bindS_def chan_def getS_def deref_def liftS_def returnS_def msgS_def Zero_def)
qed

lemma ex_tree_opened: "opened ex_tree [0, 1]" "root_of ex_tree 1 0"
proof -
  have "db_inv (ex_db ex_machine)"
    using ex_stored [OF ex_source_ok(1)] by (auto simp: stored_def persisted_def)
  then show "opened ex_tree [0, 1]"
    by (simp add: opened_def ex_tree_def ex_client_def machine_at_def ex_channel_def ex_parent_def ex_child_def ex_machine_def
        db_inv_def less_eq_Phase_def)
  have "root_of ex_tree 0 0"
    by (rule root_of.root [of _ _ "ex_channel ex_parent"]) (simp_all add: ex_tree_def ex_channel_def)
  moreover have "cl_heap ex_tree 1 = Some ((ex_channel ex_child)\<lparr>ch_parent := Some 0\<rparr>)"
    "ch_parent ((ex_channel ex_child)\<lparr>ch_parent := Some 0\<rparr>) = Some 0"
    by (simp_all add: ex_tree_def)
  ultimately show "root_of ex_tree 1 0"
    using root_of.child [of ex_tree 1] by simp
qed

text \<open>A disputed channel without sub-channels.\<close>

definition ex_disputed :: StateMachine where
  "ex_disputed = ex_machine\<lparr>m_phase := Registered\<rparr>"

lemma ex_disputed_locked: "tryLockRecursive 0 (ex_client ex_alice ex_disputed) = (ex_client ex_alice ex_disputed, OK [0])"
  by (simp add: tryLockRecursive_def applyRecursive_def call_simps depth_def lock_def ex_client_def ex_channel_def ch_State_def
      ex_disputed_def ex_machine_def ex_tx_def ex_state_def ex_alloc_def bindS_def chan_def getS_def deref_def liftS_def returnS_def)

lemma ex_disputed_stored: "on_disk ex_backend addr64 addr64 sim_asset_ok (ex_db ex_disputed) ex_disputed"
proof -
  have ok: "source_ok ex_backend addr64 addr64 sim_asset_ok (source_of ex_disputed)"
    using ex_source_ok(1) by (simp add: source_ok_def ex_disputed_def)
  then obtain d where "ChannelCreated ex_backend NewDatabase (source_of ex_disputed) [ex_alice, ex_bob] None = (d, OK ())"
    "persisted ex_backend d (source_of ex_disputed) [ex_alice, ex_bob] None"
    "\<forall>a \<in> set [ex_alice, ex_bob]. \<forall>key. peerChannelKey ex_backend a (machine_ID ex_disputed) = OK key \<longrightarrow> db_map d (kv_PeerDB @ key) = Some []"
    using channel_codec.ChannelCreated_persisted [OF ex_codec ok, of "[ex_alice, ex_bob]" None NewDatabase]
    by (auto simp: NewDatabase_inv machine_ID_def)
  moreover have "addr64 ex_alice" "addr64 ex_bob"
    by (simp_all add: ex_alice_def ex_bob_def)
  ultimately show ?thesis
    using ok unfolding on_disk_def ex_db_def by (intro conjI exI [of _ "[ex_alice, ex_bob]"] exI [of _ None]) auto
qed

section \<open>Opening the channel\<close>

definition ex_hash :: "bytes \<Rightarrow> bytes" where
  "ex_hash b = replicate 31 0 @ [7]"

definition ex_proposal :: LedgerChannelProposal where
  "ex_proposal = \<lparr>bp_ChallengeDuration = 60, bp_NonceShare = replicate 32 4, bp_App = NoApp, bp_InitData = NoData,
     bp_InitBals = Some ex_alloc, bp_FundingAgreement = [[5, 3]], lp_Participant = Some ex_alice, lp_Peers = [ex_alice, ex_bob]\<rparr>"

definition ex_acceptance :: LedgerChannelProposalAcc where
  "ex_acceptance = \<lparr>ba_ProposalID = replicate 31 0 @ [7], ba_NonceShare = replicate 32 5, la_Participant = Some ex_bob\<rparr>"

definition ex_env :: OpenEnv where
  "ex_env = \<lparr>oe_Hash = ex_hash, oe_Unlock = OK, oe_Fund = (\<lambda>_. OK ()), oe_Intercepted = None\<rparr>"

definition ex_new_client :: "address \<Rightarrow> Client" where
  "ex_new_client a = (ex_client a ex_machine)\<lparr>cl_db := NewDatabase, cl_heap := Map.empty, cl_values := [], cl_next := 0\<rparr>"

lemma ex_proposal_id: "Ledger_ProposalID ex_hash ex_backend ex_proposal = OK (ba_ProposalID ex_acceptance)"
proof -
  have "base_ok ex_backend addr64 sim_asset_ok ex_proposal"
    by (simp add: base_ok_def ex_proposal_def app_ok_def data_ok_def balances_ok_def bal_ok_def max_defs)
  then obtain b where "BaseChannelProposal_Encode ex_backend ex_proposal = OK b"
    using roundtrips_OK [OF channel_codec.Base_rt [OF ex_codec]] by blast
  moreover obtain b' where "Addresses_Encode ex_backend (lp_Peers ex_proposal) = OK b'"
    by (simp add: Addresses_Encode_def ex_proposal_def ex_backend_def catE_def)
  ultimately show ?thesis
    by (simp add: Ledger_ProposalID_def hashed_def Encode_def encArg_def Encode_value_def catE_def ex_proposal_def ex_backend_def
        ex_acceptance_def ex_hash_def)
qed

lemma ex_agreed: "agreed_proposal ex_backend addr64 sim_asset_ok ex_hash ex_proposal ex_acceptance ex_params ex_state"
proof -
  have zeros: "foldl (\<lambda>a b. 256 * a + unat b) 0 (replicate n (0 :: 8 word)) = 0" for n
    by (induction n) simp_all
  have "calcNonce ex_hash [bp_NonceShare ex_proposal, ba_NonceShare ex_acceptance] = OK (Some 7)"
    by (simp add: calcNonce_def Encode_def encArg_def Encode_value_def catE_def ex_proposal_def ex_acceptance_def ex_hash_def
        NonceFromBytes_def MaxNonceLen_def be_nat_def zeros)
  moreover have "NewParamsUnsafe ex_backend 60 [ex_alice, ex_bob] NoApp (Some 7) True False = OK ex_params"
    by (simp add: NewParamsUnsafe_def ex_backend_def ex_params_def)
  moreover have "LedgerChannelProposal_Valid ex_backend ex_proposal = OK ()" "NumPeers ex_proposal = OK 2"
    by (simp_all add: LedgerChannelProposal_Valid_OK_iff BaseChannelProposal_Valid_OK_iff ex_proposal_def NumPeers_def index_at_def)
      (simp_all add: ex_alloc_def ValidateProposalParameters_def MaxNumParts_def IsStateApp_def)
  moreover have "app_ValidInit ex_backend (p_App ex_params) ex_params ex_state = OK ()" "NumParts (st_Alloc ex_state) = 2"
    "IsStateApp ex_backend NoApp" "length Zero = 32"
    by (simp_all add: app_ValidInit_def noApp_ValidInit_def IsNoData_def ex_state_def ex_params_def NumParts_def ex_alloc_def IsStateApp_def)
  ultimately show ?thesis
    unfolding agreed_proposal_def
    using ex_proposal_id ex_newState ex_params_ok by (simp add: ex_params_def ex_proposal_def ex_acceptance_def)
qed

lemma ex_unopened: "unopened ex_params (ex_new_client a)"
  by (simp add: unopened_def ex_new_client_def ex_client_def registry_Has_def registry_Get_def NewDatabase_inv)

lemma ex_provides: "provides ex_env ex_hash ex_proposal ex_params ex_state i"
  by (simp add: provides_def ex_env_def)

definition ex_accepting :: Handlers where
  "ex_accepting = (ex_handlers UserAccept)\<lparr>hd_env := ex_env, hd_proposal := \<lambda>_. ProposalAccept (LedgerAccept ex_acceptance)\<rparr>"

end
