(* ===== verification/Perun_EthWallet.thy ===== *)
theory Perun_EthWallet
  imports Perun_Sim
begin

text \<open>
  The wallets of the Ethereum backend, \<open>backend/ethereum/wallet\<close>: addresses are 20 bytes, a signature
  is 65 bytes, the last of which names one of the candidate public keys and is shifted by 27.

  Keccak-256 and the curve secp256k1 (go-ethereum's \<open>crypto\<close>) are the type \<open>secp256k1\<close> of schemes with
  the documented laws: digests have 32 bytes, addresses 20, a signature has 65 bytes, its last byte is
  0 or 1, and the signer's public key can be recovered from it.  An account is named by its address.
  go-ethereum's key store and hierarchical wallets are records of functions over their own state.
\<close>

section \<open>Cryptographic primitives\<close>

record secp_ops =
  sp_keccak256 :: "bytes \<Rightarrow> bytes"
  sp_Sign :: "bytes \<Rightarrow> account \<Rightarrow> bytes res"
  sp_SigToPub :: "bytes \<Rightarrow> bytes \<Rightarrow> bytes res"
  sp_PubkeyToAddress :: "bytes \<Rightarrow> address"

definition secp_law :: "secp_ops \<Rightarrow> bool" where
  "secp_law C \<longleftrightarrow> (\<forall>m. length (sp_keccak256 C m) = 32) \<and> (\<forall>pk. length (sp_PubkeyToAddress C pk) = 20) \<and>
     (\<forall>h a s. sp_Sign C h a = OK s \<longrightarrow> length s = 65 \<and> unat (s ! 64) < 2 \<and>
        (\<exists>pk. sp_SigToPub C h s = OK pk \<and> sp_PubkeyToAddress C pk = a))"

text \<open>A scheme with these laws, for use in examples.\<close>

definition example_secp_ops :: secp_ops where
  "example_secp_ops =
     \<lparr>sp_keccak256 = (\<lambda>m. pad_to 32 (take 32 (rev m))),
      sp_Sign = (\<lambda>h a. if length a = 20 then OK (pad_to 44 (take 44 h) @ a @ [0])
                       else Err (ErrNew ''no key for given address or file'')),
      sp_SigToPub = (\<lambda>h s. if length s = 65 \<and> take 44 s = pad_to 44 (take 44 h) \<and> s ! 64 = 0
                           then OK (take 20 (drop 44 s)) else Err (ErrNew ''recovery failed'')),
      sp_PubkeyToAddress = (\<lambda>pk. pad_to 20 (take 20 pk))\<rparr>"

lemma example_secp_law: "secp_law example_secp_ops"
proof -
  have "length (P @ a @ [0]) = 65 \<and> (P @ a @ [0]) ! 64 = 0 \<and> take 44 (P @ a @ [0]) = P \<and>
      take 20 (drop 44 (P @ a @ [0])) = a"
    if "length P = 44" "length a = 20" for P a :: bytes
    using that by (simp add: nth_append)
  from this [of "pad_to 44 (take 44 h)" for h] show ?thesis
    by (auto simp: secp_law_def example_secp_ops_def pad_to_def [of 20] split: if_splits)
qed

typedef secp256k1 = "{C. secp_law C}"
  using example_secp_law by blast

definition Keccak256 :: "secp256k1 \<Rightarrow> bytes \<Rightarrow> bytes" where
  "Keccak256 C = sp_keccak256 (Rep_secp256k1 C)"

definition crypto_Sign :: "secp256k1 \<Rightarrow> bytes \<Rightarrow> account \<Rightarrow> bytes res" where
  "crypto_Sign C = sp_Sign (Rep_secp256k1 C)"

definition SigToPub :: "secp256k1 \<Rightarrow> bytes \<Rightarrow> bytes \<Rightarrow> bytes res" where
  "SigToPub C = sp_SigToPub (Rep_secp256k1 C)"

definition PubkeyToAddress :: "secp256k1 \<Rightarrow> bytes \<Rightarrow> address" where
  "PubkeyToAddress C = sp_PubkeyToAddress (Rep_secp256k1 C)"

definition example_secp :: secp256k1 where
  "example_secp = Abs_secp256k1 example_secp_ops"

lemma Rep_example_secp: "Rep_secp256k1 example_secp = example_secp_ops"
  by (simp add: example_secp_def Abs_secp256k1_inverse example_secp_law)

lemma length_Keccak256 [simp]: "length (Keccak256 C m) = 32"
  using Rep_secp256k1 [of C] by (simp add: Keccak256_def secp_law_def)

lemma length_PubkeyToAddress [simp]: "length (PubkeyToAddress C pk) = 20"
  using Rep_secp256k1 [of C] by (simp add: PubkeyToAddress_def secp_law_def)

lemma crypto_Sign_recover:
  assumes "crypto_Sign C h a = OK s"
  shows "length s = 65" "unat (s ! 64) < 2" "\<exists>pk. SigToPub C h s = OK pk \<and> PubkeyToAddress C pk = a"
  using assms Rep_secp256k1 [of C]
  by (auto simp: crypto_Sign_def SigToPub_def PubkeyToAddress_def secp_law_def)

section \<open>Addresses\<close>

definition AddressLength :: nat where "AddressLength = 20"

definition eth_Address_Encode :: "address \<Rightarrow> bytes res" where
  "eth_Address_Encode a = OK a"

definition eth_Address_Decode :: "address decoder" where
  "eth_Address_Decode = msgD ''error decoding address'' (ReadFull AddressLength)"

definition eth_Address_Equals :: "address \<Rightarrow> address \<Rightarrow> bool" where
  "eth_Address_Equals a addr \<longleftrightarrow> a = addr"

text \<open>\<open>bytes.Compare\<close>: the lexicographic order.\<close>

fun bytes_Compare :: "bytes \<Rightarrow> bytes \<Rightarrow> int" where
  "bytes_Compare [] [] = 0"
| "bytes_Compare [] (y # ys) = -1"
| "bytes_Compare (x # xs) [] = 1"
| "bytes_Compare (x # xs) (y # ys) = (if x < y then -1 else if y < x then 1 else bytes_Compare xs ys)"

definition eth_Address_Cmp :: "address \<Rightarrow> address \<Rightarrow> int" where
  "eth_Address_Cmp a addr = bytes_Compare a addr"

text \<open>The type assertion fails for addresses of another kind.\<close>

definition AsEthAddr :: "address \<Rightarrow> bytes res" where
  "AsEthAddr a = (if length a = AddressLength then OK a else Panic ''interface conversion'')"

definition AsWalletAddr :: "bytes \<Rightarrow> address" where
  "AsWalletAddr addr = addr"

text \<open>\<open>Equals\<close> agrees with \<open>Cmp\<close>, and \<open>Cmp\<close> is antisymmetric.\<close>

lemma bytes_Compare_eq: "bytes_Compare a b = 0 \<longleftrightarrow> a = b"
  by (induction a b rule: bytes_Compare.induct) auto

lemma bytes_Compare_swap: "bytes_Compare b a = - bytes_Compare a b"
  by (induction a b rule: bytes_Compare.induct) auto

lemma eth_Address_Cmp_Equals: "eth_Address_Cmp a b = 0 \<longleftrightarrow> eth_Address_Equals a b"
  by (simp add: eth_Address_Cmp_def eth_Address_Equals_def bytes_Compare_eq)

section \<open>Signatures\<close>

definition SigLen :: nat where "SigLen = 65"

definition eth_DecodeAddress :: "address decoder" where
  "eth_DecodeAddress = eth_Address_Decode"

definition eth_DecodeSig :: "bytes decoder" where
  "eth_DecodeSig = decArg (ByteSlice_Decode SigLen)"

definition signed_message_prefix :: bytes where
  "signed_message_prefix = 0x19 # str ''Ethereum Signed Message:'' @ [0x0A] @ str ''32''"

definition PrefixedHash :: "secp256k1 \<Rightarrow> bytes \<Rightarrow> bytes" where
  "PrefixedHash C data = Keccak256 C (signed_message_prefix @ Keccak256 C data)"

text \<open>\<open>copy\<close> into a slice of 65 bytes fills up with zeros or cuts off.\<close>

definition sigCopy :: "sig \<Rightarrow> bytes" where
  "sigCopy sg = take SigLen ((case sg of None \<Rightarrow> [] | Some b \<Rightarrow> b) @ replicate SigLen 0)"

definition eth_VerifySignature :: "secp256k1 \<Rightarrow> bytes \<Rightarrow> sig \<Rightarrow> address \<Rightarrow> bool res" where
  "eth_VerifySignature C msg sg a =
     (let hash = PrefixedHash C msg; copy = sigCopy sg;
          copy = (if length copy = SigLen \<and> copy ! (SigLen - 1) \<ge> 27
                  then copy[SigLen - 1 := copy ! (SigLen - 1) - 27] else copy) in
      bindR (SigToPub C hash copy) (\<lambda>pk.
      OK (eth_Address_Equals a (PubkeyToAddress C pk))))"

text \<open>\<open>sig[64] += 27\<close>.\<close>

definition shiftV :: "bytes \<Rightarrow> sig res" where
  "shiftV sg = bindR (index_at sg 64) (\<lambda>v. OK (Some (sg[64 := v + 27])))"

definition simple_SignData :: "secp256k1 \<Rightarrow> account \<Rightarrow> bytes \<Rightarrow> sig res" where
  "simple_SignData C acc data =
     bindR (with_msg ''SignHash'' (crypto_Sign C (PrefixedHash C data) acc)) shiftV"

lemma length_sigCopy [simp]: "length (sigCopy sg) = 65"
  by (simp add: sigCopy_def SigLen_def)

lemma sigCopy_exact: "length b = 65 \<Longrightarrow> sigCopy (Some b) = b"
  by (simp add: sigCopy_def SigLen_def)

lemma shiftV_verify:
  assumes "crypto_Sign C (PrefixedHash C data) a = OK s"
  shows "\<exists>b. shiftV s = OK (Some b) \<and> length b = 65 \<and> eth_VerifySignature C data (Some b) a = OK True"
proof -
  have len: "length s = 65" and v: "unat (s ! 64) < 2"
    and rec: "\<exists>pk. SigToPub C (PrefixedHash C data) s = OK pk \<and> PubkeyToAddress C pk = a"
    using crypto_Sign_recover [OF assms] by blast+
  let ?b = "s[64 := s ! 64 + 27]"
  have "s ! 64 = 0 \<or> s ! 64 = 1"
    using v by (simp add: word_unat_eq_iff less_2_cases_iff)
  then have ge: "27 \<le> s ! 64 + 27"
    by (elim disjE) simp_all
  have "(?b)[64 := s ! 64 + 27 - 27] = s"
    using len by simp
  then have "eth_VerifySignature C data (Some ?b) a = OK True"
    using ge rec len by (auto simp: eth_VerifySignature_def Let_def sigCopy_exact SigLen_def eth_Address_Equals_def)
  then show ?thesis
    using len by (simp add: shiftV_def)
qed

lemma simple_SignData_verifies:
  assumes "simple_SignData C a data = OK sg"
  shows "\<exists>b. sg = Some b \<and> length b = 65 \<and> eth_VerifySignature C data sg a = OK True"
proof -
  from assms obtain s where s: "crypto_Sign C (PrefixedHash C data) a = OK s" "shiftV s = OK sg"
    by (auto simp: simple_SignData_def res_simps)
  with shiftV_verify [OF s(1)] show ?thesis
    by auto
qed

text \<open>Verification looks at the first 65 bytes only: whatever follows a valid signature is ignored.\<close>

lemma eth_VerifySignature_suffix:
  assumes "length b = 65"
  shows "eth_VerifySignature C msg (Some (b @ c)) a = eth_VerifySignature C msg (Some b) a"
  using assms by (simp add: eth_VerifySignature_def sigCopy_def SigLen_def)

section \<open>The simple wallet\<close>

text \<open>A private key is named by the address of its public key; the wallet is the list of addresses
  whose keys it holds.\<close>

record simple_Wallet =
  sw_accounts :: "address list"

definition simple_NewWallet :: "account list \<Rightarrow> simple_Wallet" where
  "simple_NewWallet privateKeys = \<lparr>sw_accounts = fold List.insert privateKeys []\<rparr>"

definition simple_Contains :: "simple_Wallet \<Rightarrow> address \<Rightarrow> bool" where
  "simple_Contains w addr \<longleftrightarrow> addr \<in> set (sw_accounts w)"

text \<open>\<open>key\<close> is the generated key.\<close>

definition simple_NewRandomAccount :: "account res \<Rightarrow> simple_Wallet \<Rightarrow> (account \<times> simple_Wallet) res" where
  "simple_NewRandomAccount key w = (case key of
      Err _ \<Rightarrow> Panic ''Creating account: %v''
    | Panic s \<Rightarrow> Panic s
    | OK addr \<Rightarrow> if simple_Contains w addr then Panic ''Randomly generated account already exists: %v''
        else OK (addr, w\<lparr>sw_accounts := addr # sw_accounts w\<rparr>))"

definition simple_Unlock :: "simple_Wallet \<Rightarrow> address \<Rightarrow> account res" where
  "simple_Unlock w addr =
     bindR (err_if (length addr \<noteq> AddressLength) (ErrNew ''address must be ethwallet.Address'')) (\<lambda>_.
     bindR (AsEthAddr addr) (\<lambda>a.
     if simple_Contains w a then OK a else Err (ErrNew ''account not found in wallet'')))"

text \<open>The options of a transactor: the sender and how it signs; \<open>hash\<close> and \<open>withSignature\<close> are the
  methods of go-ethereum's transactions.\<close>

record 'tx TransactOpts =
  to_From :: address
  to_Signer :: "address \<Rightarrow> 'tx \<Rightarrow> 'tx res"
  to_GasLimit :: u64
  to_Value :: int
  to_Nonce :: "int option"

definition simple_NewTransactor ::
    "secp256k1 \<Rightarrow> ('tx \<Rightarrow> bytes) \<Rightarrow> ('tx \<Rightarrow> bytes \<Rightarrow> 'tx res) \<Rightarrow> simple_Wallet \<Rightarrow> address \<Rightarrow> 'tx TransactOpts res" where
  "simple_NewTransactor C hash withSignature w account =
     bindR (simple_Unlock w (AsWalletAddr account)) (\<lambda>acc.
     OK \<lparr>to_From = account,
         to_Signer = (\<lambda>address tx.
           bindR (err_if (address \<noteq> account) (ErrNew ''not authorized to sign this account'')) (\<lambda>_.
           bindR (crypto_Sign C (hash tx) acc) (withSignature tx))),
         to_GasLimit = 0, to_Value = 0, to_Nonce = None\<rparr>)"

lemma simple_NewWallet_contains: "simple_Contains (simple_NewWallet ks) a \<longleftrightarrow> a \<in> set ks"
proof -
  have "set (fold List.insert ks acc) = set ks \<union> set acc" for acc :: "address list"
    by (induction ks arbitrary: acc) auto
  then show ?thesis
    by (simp add: simple_Contains_def simple_NewWallet_def)
qed

lemma simple_Unlock_OK_iff:
  "simple_Unlock w a = OK b \<longleftrightarrow> b = a \<and> length a = 20 \<and> simple_Contains w a"
  by (auto simp: simple_Unlock_def AsEthAddr_def AddressLength_def res_simps)

lemma simple_NewRandomAccount_unlocks:
  assumes "simple_NewRandomAccount key w = OK (a, w')" "length a = 20"
  shows "simple_Unlock w' a = OK a \<and> (\<forall>b. simple_Contains w b \<longrightarrow> simple_Contains w' b)"
  using assms by (auto simp: simple_NewRandomAccount_def simple_Unlock_OK_iff simple_Contains_def
      split: res.splits if_splits)

section \<open>The key store wallet\<close>

text \<open>The key store of go-ethereum, over states \<open>'k\<close>.\<close>

record 'k KeyStore =
  ks_Accounts :: "'k \<Rightarrow> address list"
  ks_HasAddress :: "'k \<Rightarrow> address \<Rightarrow> bool"
  ks_Update :: "address \<Rightarrow> string \<Rightarrow> string \<Rightarrow> 'k \<Rightarrow> 'k res"
  ks_NewAccount :: "string \<Rightarrow> 'k \<Rightarrow> (address \<times> 'k) res"
  ks_Find :: "'k \<Rightarrow> address \<Rightarrow> address res"
  ks_ImportECDSA :: "address \<Rightarrow> string \<Rightarrow> 'k \<Rightarrow> (address \<times> 'k) res"
  ks_Unlock :: "address \<Rightarrow> string \<Rightarrow> 'k \<Rightarrow> 'k res"
  ks_Lock :: "address \<Rightarrow> 'k \<Rightarrow> 'k res"
  ks_SignHash :: "'k \<Rightarrow> address \<Rightarrow> bytes \<Rightarrow> bytes res"

record 'k keystore_Wallet =
  kw_Ks :: "'k option"
  kw_pw :: string

definition keystore_NewWallet :: "'k KeyStore \<Rightarrow> 'k \<Rightarrow> string \<Rightarrow> 'k keystore_Wallet res" where
  "keystore_NewWallet K ks pw =
     bindR (case ks_Accounts K ks of
        [] \<Rightarrow> OK ks
      | a # _ \<Rightarrow> with_msg ''invalid password'' (ks_Update K a pw pw ks)) (\<lambda>ks.
     OK \<lparr>kw_Ks = Some ks, kw_pw = pw\<rparr>)"

definition keystore_Contains :: "'k KeyStore \<Rightarrow> 'k keystore_Wallet \<Rightarrow> address \<Rightarrow> bool res" where
  "keystore_Contains K w a = bindR (deref (kw_Ks w)) (\<lambda>ks. OK (ks_HasAddress K ks a))"

definition keystore_NewAccount :: "'k KeyStore \<Rightarrow> 'k keystore_Wallet \<Rightarrow> (account \<times> 'k keystore_Wallet) res" where
  "keystore_NewAccount K w = bindR (deref (kw_Ks w)) (\<lambda>ks.
     case bindR (ks_NewAccount K (kw_pw w) ks) (\<lambda>(acc, ks).
       bindR (ks_Unlock K acc (kw_pw w) ks) (\<lambda>ks. OK (acc, w\<lparr>kw_Ks := Some ks\<rparr>))) of
       OK r \<Rightarrow> OK r
     | Err _ \<Rightarrow> Panic ''failed to create random account''
     | Panic s \<Rightarrow> Panic s)"

definition keystore_Unlock :: "'k KeyStore \<Rightarrow> 'k keystore_Wallet \<Rightarrow> address \<Rightarrow> (account \<times> 'k keystore_Wallet) res" where
  "keystore_Unlock K w addr = bindR (AsEthAddr addr) (\<lambda>acc.
     bindR (deref (kw_Ks w)) (\<lambda>ks.
     bindR (with_msg ''unlocking %v'' (ks_Unlock K acc (kw_pw w) ks)) (\<lambda>ks.
     OK (acc, w\<lparr>kw_Ks := Some ks\<rparr>))))"

definition keystore_NewRandomAccount ::
    "'k KeyStore \<Rightarrow> account res \<Rightarrow> 'k keystore_Wallet \<Rightarrow> (account \<times> 'k keystore_Wallet) res" where
  "keystore_NewRandomAccount K key w = (case key of
      Err _ \<Rightarrow> Panic ''Creating account: %v''
    | Panic s \<Rightarrow> Panic s
    | OK addr \<Rightarrow> bindR (deref (kw_Ks w)) (\<lambda>ks.
        bindR (case ks_Find K ks addr of
            OK acc \<Rightarrow> OK (acc, ks)
          | Panic s \<Rightarrow> Panic s
          | Err _ \<Rightarrow> (case ks_ImportECDSA K addr (kw_pw w) ks of
                Err _ \<Rightarrow> Panic ''Storing private key: %v''
              | r \<Rightarrow> r)) (\<lambda>(acc, ks).
        let w = w\<lparr>kw_Ks := Some ks\<rparr> in
        case keystore_Unlock K w addr of
          OK (_, w') \<Rightarrow> OK (acc, w')
        | Err _ \<Rightarrow> OK (acc, w)
        | Panic s \<Rightarrow> Panic s)))"

text \<open>A failure to lock an account is logged; the key store is released.\<close>

definition keystore_LockAll :: "'k KeyStore \<Rightarrow> 'k keystore_Wallet \<Rightarrow> 'k keystore_Wallet res" where
  "keystore_LockAll K w = (case kw_Ks w of
      None \<Rightarrow> OK w
    | Some ks \<Rightarrow> bindR (foldR (\<lambda>acc ks. case ks_Lock K acc ks of
          OK ks' \<Rightarrow> OK ks' | Err _ \<Rightarrow> OK ks | Panic s \<Rightarrow> Panic s) (ks_Accounts K ks) ks) (\<lambda>_.
        OK (w\<lparr>kw_Ks := None\<rparr>)))"

definition keystore_SignData :: "secp256k1 \<Rightarrow> 'k KeyStore \<Rightarrow> 'k keystore_Wallet \<Rightarrow> account \<Rightarrow> bytes \<Rightarrow> sig res" where
  "keystore_SignData C K w acc data = bindR (deref (kw_Ks w)) (\<lambda>ks.
     bindR (with_msg ''SignHash'' (ks_SignHash K ks acc (PrefixedHash C data))) shiftV)"

definition keystore_NewTransactor ::
    "'k KeyStore \<Rightarrow> ('tx \<Rightarrow> bytes) \<Rightarrow> ('tx \<Rightarrow> bytes \<Rightarrow> 'tx res) \<Rightarrow> 'k \<Rightarrow> address \<Rightarrow> 'tx TransactOpts res" where
  "keystore_NewTransactor K hash withSignature ks account =
     bindR (err_if (\<not> ks_HasAddress K ks account)
       (ErrNew ''the wallet does not contain the keys for the given account'')) (\<lambda>_.
     OK \<lparr>to_From = account,
         to_Signer = (\<lambda>address tx.
           bindR (err_if (address \<noteq> account) (ErrNew ''not authorized to sign this account'')) (\<lambda>_.
           bindR (ks_SignHash K ks account (hash tx)) (withSignature tx))),
         to_GasLimit = 0, to_Value = 0, to_Nonce = None\<rparr>)"

text \<open>A key store signs with the key of the account.\<close>

lemma keystore_SignData_verifies:
  assumes "\<And>h s. ks_SignHash K ks a h = OK s \<Longrightarrow> crypto_Sign C h a = OK s"
    and "keystore_SignData C K w a data = OK sg" "kw_Ks w = Some ks"
  shows "\<exists>b. sg = Some b \<and> length b = 65 \<and> eth_VerifySignature C data sg a = OK True"
proof -
  from assms(2,3) obtain s where s: "ks_SignHash K ks a (PrefixedHash C data) = OK s" "shiftV s = OK sg"
    by (auto simp: keystore_SignData_def res_simps)
  with shiftV_verify [OF assms(1) [OF s(1)]] show ?thesis
    by auto
qed

text \<open>After \<open>LockAll\<close> the wallet is not usable: every other operation dereferences a nil pointer.\<close>

lemma keystore_LockAll_unusable:
  assumes "keystore_LockAll K w = OK w'"
  shows "is_Panic (keystore_SignData C K w' a data)" "is_Panic (keystore_Contains K w' b)"
    "is_Panic (keystore_NewAccount K w')" "keystore_LockAll K w' = OK w'"
proof -
  have "kw_Ks w' = None"
    using assms by (auto simp: keystore_LockAll_def res_simps split: option.splits)
  then show "is_Panic (keystore_SignData C K w' a data)" "is_Panic (keystore_Contains K w' b)"
    "is_Panic (keystore_NewAccount K w')" "keystore_LockAll K w' = OK w'"
    by (simp_all add: keystore_SignData_def keystore_Contains_def keystore_NewAccount_def
        keystore_LockAll_def deref_def)
qed

section \<open>The hierarchical wallet\<close>

record 'w accounts_Wallet =
  aw_Contains :: "'w \<Rightarrow> address \<Rightarrow> bool"
  aw_Derive :: "u32 list \<Rightarrow> 'w \<Rightarrow> (address \<times> 'w) res"
  aw_SignText :: "'w \<Rightarrow> address \<Rightarrow> bytes \<Rightarrow> bytes res"
  aw_ParsePath :: "string \<Rightarrow> u32 list res"
  aw_ShowPath :: "u32 list \<Rightarrow> nat \<Rightarrow> string"

record 'w hd_Wallet =
  hw_numDerivedAccs :: nat
  hw_rootDerivationPath :: "u32 list"
  hw_wallet :: 'w

definition hd_newAccount :: "'w accounts_Wallet \<Rightarrow> 'w hd_Wallet \<Rightarrow> (account \<times> 'w hd_Wallet) res" where
  "hd_newAccount W w =
     bindR (with_msg ''deriving path for new account''
       (aw_ParsePath W (aw_ShowPath W (hw_rootDerivationPath w) (hw_numDerivedAccs w)))) (\<lambda>path.
     bindR (with_msg ''deriving a new account'' (aw_Derive W path (hw_wallet w))) (\<lambda>(acc, wl).
     OK (acc, w\<lparr>hw_wallet := wl, hw_numDerivedAccs := Suc (hw_numDerivedAccs w)\<rparr>)))"

primrec hd_derive :: "'w accounts_Wallet \<Rightarrow> nat \<Rightarrow> 'w hd_Wallet \<Rightarrow> 'w hd_Wallet res" where
  "hd_derive W 0 w = OK w"
| "hd_derive W (Suc n) w = bindR (hd_newAccount W w) (\<lambda>(_, w'). hd_derive W n w')"

definition hd_deriveAccounts :: "'w accounts_Wallet \<Rightarrow> nat \<Rightarrow> 'w hd_Wallet \<Rightarrow> 'w hd_Wallet res" where
  "hd_deriveAccounts W numUsedAccs w = with_msg ''deriving keys'' (hd_derive W numUsedAccs w)"

definition hd_NewWallet :: "'w accounts_Wallet \<Rightarrow> 'w option \<Rightarrow> string \<Rightarrow> nat \<Rightarrow> 'w hd_Wallet res" where
  "hd_NewWallet W hdwallet derivationPath numUsedAccs = (case hdwallet of
      None \<Rightarrow> Err (ErrNew ''wallet must not be nil'')
    | Some wl \<Rightarrow> bindR (with_msg ''parsing derivation path'' (aw_ParsePath W derivationPath)) (\<lambda>path.
        hd_deriveAccounts W numUsedAccs
          \<lparr>hw_numDerivedAccs = 0, hw_rootDerivationPath = path, hw_wallet = wl\<rparr>))"

definition hd_Contains :: "'w accounts_Wallet \<Rightarrow> 'w hd_Wallet \<Rightarrow> address \<Rightarrow> bool" where
  "hd_Contains W w addr = aw_Contains W (hw_wallet w) addr"

definition hd_Unlock :: "'w accounts_Wallet \<Rightarrow> 'w hd_Wallet \<Rightarrow> address \<Rightarrow> account res" where
  "hd_Unlock W w addr = bindR (AsEthAddr addr) (\<lambda>acc.
     if \<not> aw_Contains W (hw_wallet w) acc then Err (ErrNew ''account not found in wallet'') else OK acc)"

definition hd_SignData :: "secp256k1 \<Rightarrow> 'w accounts_Wallet \<Rightarrow> 'w hd_Wallet \<Rightarrow> account \<Rightarrow> bytes \<Rightarrow> sig res" where
  "hd_SignData C W w acc data =
     bindR (with_msg ''SignText'' (aw_SignText W (hw_wallet w) acc (Keccak256 C data))) shiftV"

text \<open>\<open>SignText\<close> of a wallet prefixes a text of 32 bytes as \<open>PrefixedHash\<close> does.\<close>

lemma hd_SignData_verifies:
  assumes "\<And>t s. length t = 32 \<Longrightarrow> aw_SignText W (hw_wallet w) a t = OK s \<Longrightarrow>
      crypto_Sign C (Keccak256 C (signed_message_prefix @ t)) a = OK s"
    and "hd_SignData C W w a data = OK sg"
  shows "\<exists>b. sg = Some b \<and> length b = 65 \<and> eth_VerifySignature C data sg a = OK True"
proof -
  from assms(2) obtain s where s: "aw_SignText W (hw_wallet w) a (Keccak256 C data) = OK s" "shiftV s = OK sg"
    by (auto simp: hd_SignData_def res_simps)
  have "crypto_Sign C (PrefixedHash C data) a = OK s"
    using assms(1) [OF _ s(1)] by (simp add: PrefixedHash_def)
  with shiftV_verify [of C data a s] s(2) show ?thesis
    by auto
qed

lemma hd_derive_count:
  "hd_derive W n w = OK w' \<Longrightarrow> hw_numDerivedAccs w' = hw_numDerivedAccs w + n"
  by (induction n arbitrary: w) (fastforce simp: hd_newAccount_def res_simps split: prod.splits)+

text \<open>The transactor of a hierarchical wallet: \<open>hashSigner\<close> is the method \<open>SignHash\<close>, if the wallet has one.\<close>

definition hd_NewTransactor ::
    "(address \<Rightarrow> bool) \<Rightarrow> (address \<Rightarrow> bytes \<Rightarrow> bytes res) option \<Rightarrow> (address \<Rightarrow> 'tx \<Rightarrow> 'tx res) \<Rightarrow> ('tx \<Rightarrow> bytes) \<Rightarrow>
     ('tx \<Rightarrow> bytes \<Rightarrow> 'tx res) \<Rightarrow> address \<Rightarrow> 'tx TransactOpts res" where
  "hd_NewTransactor contains hashSigner signTx hash withSignature account =
     bindR (err_if (\<not> contains account) (ErrNew ''account not found in wallet'')) (\<lambda>_.
     OK \<lparr>to_From = account,
         to_Signer = (\<lambda>address tx.
           bindR (err_if (address \<noteq> account) (ErrNew ''not authorized to sign this account'')) (\<lambda>_.
           case hashSigner of
             None \<Rightarrow> signTx account tx
           | Some signHash \<Rightarrow> bindR (signHash account (hash tx)) (withSignature tx))),
         to_GasLimit = 0, to_Value = 0, to_Nonce = None\<rparr>)"

text \<open>A transactor of any of the wallets signs for its own account only.\<close>

lemma transactor_own_account:
  "simple_NewTransactor C hash ws w a = OK opts \<Longrightarrow> to_Signer opts b tx = OK tx' \<Longrightarrow> b = a \<and> to_From opts = a"
  "keystore_NewTransactor K hash ws ks a = OK opts \<Longrightarrow> to_Signer opts b tx = OK tx' \<Longrightarrow> b = a \<and> to_From opts = a"
  "hd_NewTransactor contains hs st hash ws a = OK opts \<Longrightarrow> to_Signer opts b tx = OK tx' \<Longrightarrow> b = a \<and> to_From opts = a"
  by (auto simp: simple_NewTransactor_def keystore_NewTransactor_def hd_NewTransactor_def res_simps)

end
