(* ===== verification/Perun_EthBackend.thy ===== *)
theory Perun_EthBackend
  imports Perun_EthWallet
begin

text \<open>
  \<open>backend/ethereum/channel/backend.go\<close>: parameters and states as the structures of the smart contracts,
  the channel identifier, and signatures on states.

  The structures are those of the generated bindings.  ABI encoding (go-ethereum's \<open>abi\<close>) is the record
  \<open>abi_ops\<close>.  An asset is an Ethereum address; the type assertion on an asset of another kind panics.

  The backend is an instance of \<open>channel_codec\<close> and \<open>signing_backend\<close>, so that what is shown of channels
  holds for channels on Ethereum.  A state converted to the contracts' format and back is the same state,
  but for two things: index maps are filled in, and the application is not set.
\<close>

section \<open>Structures of the contracts\<close>

record ChannelParams =
  cp_ChallengeDuration :: int
  cp_Nonce :: Nonce
  cp_Participants :: "bytes list"
  cp_App :: bytes
  cp_LedgerChannel :: bool
  cp_VirtualChannel :: bool

record ChannelSubAlloc =
  cs_ID :: ID
  cs_Balances :: "Bal list"
  cs_IndexMap :: "Index list"

record ChannelAllocation =
  ca_Assets :: "bytes list"
  ca_Balances :: Balances
  ca_Locked :: "ChannelSubAlloc list"

record ChannelState =
  es_ChannelID :: ID
  es_Version :: u64
  es_Outcome :: ChannelAllocation
  es_AppData :: bytes
  es_IsFinal :: bool

text \<open>The fields of a withdrawal authorisation and of a funding identifier are packed one by one.\<close>

record abi_ops =
  abi_PackParams :: "ChannelParams \<Rightarrow> bytes res"
  abi_PackState :: "ChannelState \<Rightarrow> bytes res"
  abi_PackFundingID :: "ID \<Rightarrow> bytes \<Rightarrow> bytes res"
  abi_PackWithdrawalAuth :: "ID \<Rightarrow> bytes \<Rightarrow> bytes \<Rightarrow> Bal \<Rightarrow> bytes res"

definition zeroAddress :: bytes where "zeroAddress = replicate 20 0"

section \<open>Conversions\<close>

definition pwToCommonAddresses :: "address list \<Rightarrow> bytes list res" where
  "pwToCommonAddresses addr = mapR AsEthAddr addr"

definition ToEthParams :: "Params \<Rightarrow> ChannelParams res" where
  "ToEthParams p =
     bindR (if p_App p \<noteq> NilApp \<and> \<not> IsNoApp (p_App p) then bindR (app_Def (p_App p)) AsEthAddr
            else OK zeroAddress) (\<lambda>app.
     bindR (pwToCommonAddresses (p_Parts p)) (\<lambda>parts.
     OK \<lparr>cp_ChallengeDuration = uint (p_ChallengeDuration p), cp_Nonce = p_Nonce p, cp_Participants = parts,
         cp_App = app, cp_LedgerChannel = p_LedgerChannel p, cp_VirtualChannel = p_VirtualChannel p\<rparr>))"

definition asEthAsset :: "asset \<Rightarrow> bytes res" where
  "asEthAsset a = (case a of
      Some (OK b) \<Rightarrow> if length b = AddressLength then OK b else Panic ''interface conversion''
    | _ \<Rightarrow> Panic ''interface conversion'')"

definition assetToCommonAddresses :: "asset list \<Rightarrow> bytes list res" where
  "assetToCommonAddresses addr = mapR asEthAsset addr"

text \<open>An empty index map stands for the identity; \<open>numParts\<close> is -1 when there are no balances.\<close>

definition ethIndexMap :: "int \<Rightarrow> Index list \<Rightarrow> Index list res" where
  "ethIndexMap numParts indexMap =
     (if length indexMap = 0
      then if numParts < 0 then Panic ''makeslice: len out of range'' else OK (map of_nat [0..<nat numParts])
      else OK indexMap)"

definition ToEthState :: "State \<Rightarrow> ChannelState res" where
  "ToEthState s =
     bindR (mapR (\<lambda>sub. bindR (ethIndexMap (NumParts (st_Alloc s)) (sa_IndexMap sub)) (\<lambda>indexMap.
       OK \<lparr>cs_ID = sa_ID sub, cs_Balances = sa_Bals sub, cs_IndexMap = indexMap\<rparr>)) (al_Locked (st_Alloc s))) (\<lambda>locked.
     bindR (assetToCommonAddresses (al_Assets (st_Alloc s))) (\<lambda>assets.
     let outcome = \<lparr>ca_Assets = assets, ca_Balances = al_Balances (st_Alloc s), ca_Locked = locked\<rparr> in
     bindR (panic_if (length (ca_Assets outcome) \<noteq> length (ca_Balances outcome) \<or>
                      length (al_Balances (st_Alloc s)) \<noteq> length (ca_Balances outcome))
       ''invalid allocation dimensions'') (\<lambda>_.
     bindR (deref (data_encoder (st_Data s))) (\<lambda>enc.
     bindR (must ''error encoding app data: %v'' enc) (\<lambda>appData.
     OK \<lparr>es_ChannelID = st_ID s, es_Version = st_Version s, es_Outcome = outcome, es_AppData = appData,
         es_IsFinal = st_IsFinal s\<rparr>)))))"

definition fromEthAssets :: "bytes list \<Rightarrow> asset list" where
  "fromEthAssets assets = map (\<lambda>a. Some (eth_Address_Encode (AsWalletAddr a))) assets"

definition FromEthState :: "'m channel_backend_scheme \<Rightarrow> App \<Rightarrow> ChannelState \<Rightarrow> State res" where
  "FromEthState B app s =
     (let locked = map (\<lambda>sub. NewSubAlloc (cs_ID sub) (cs_Balances sub) (cs_IndexMap sub)) (ca_Locked (es_Outcome s));
          alloc = \<lparr>al_Assets = fromEthAssets (ca_Assets (es_Outcome s)), al_Balances = ca_Balances (es_Outcome s),
                   al_Locked = locked\<rparr> in
      bindR (panic_if (length (al_Assets alloc) \<noteq> length (al_Balances alloc) \<or>
                       length (ca_Balances (es_Outcome s)) \<noteq> length (al_Balances alloc))
        ''invalid allocation dimensions'') (\<lambda>_.
      bindR (must ''decoding app data: %v'' (app_DecodeData B app (es_AppData s))) (\<lambda>(data, _).
      OK \<lparr>st_ID = es_ChannelID s, st_Version = es_Version s, st_App = NilApp, st_Alloc = alloc, st_Data = data,
          st_IsFinal = es_IsFinal s\<rparr>)))"

definition EncodeParams :: "abi_ops \<Rightarrow> ChannelParams \<Rightarrow> bytes res" where
  "EncodeParams A params = abi_PackParams A params"

definition EncodeState :: "abi_ops \<Rightarrow> ChannelState \<Rightarrow> bytes res" where
  "EncodeState A state = abi_PackState A state"

section \<open>The channel backend\<close>

definition eth_CalcID :: "secp256k1 \<Rightarrow> abi_ops \<Rightarrow> Params \<Rightarrow> ID res" where
  "eth_CalcID C A p = bindR (ToEthParams p) (\<lambda>params.
     bindR (must ''could not encode parameters: %v'' (EncodeParams A params)) (\<lambda>b. OK (Keccak256 C b)))"

definition HashState :: "secp256k1 \<Rightarrow> abi_ops \<Rightarrow> State \<Rightarrow> ID res" where
  "HashState C A s = bindR (ToEthState s) (\<lambda>state.
     bindR (must ''could not encode parameters: %v'' (EncodeState A state)) (\<lambda>b. OK (Keccak256 C b)))"

text \<open>\<open>signData\<close> is the method \<open>SignData\<close> of the accounts.\<close>

definition eth_Sign :: "abi_ops \<Rightarrow> (account \<Rightarrow> bytes \<Rightarrow> sig res) \<Rightarrow> account \<Rightarrow> Params \<Rightarrow> State \<Rightarrow> sig res" where
  "eth_Sign A signData acc p s =
     bindR (ToEthState s) (\<lambda>state.
     bindR (with_msg ''encoding state'' (EncodeState A state)) (\<lambda>enc.
     signData acc enc))"

definition eth_Verify :: "secp256k1 \<Rightarrow> abi_ops \<Rightarrow> address \<Rightarrow> Params \<Rightarrow> State \<Rightarrow> sig \<Rightarrow> bool res" where
  "eth_Verify C A addr p s sg =
     bindR (with_msg ''invalid state'' (Allocation_Valid (st_Alloc s))) (\<lambda>_.
     bindR (ToEthState s) (\<lambda>state.
     bindR (with_msg ''encoding state'' (EncodeState A state)) (\<lambda>enc.
     eth_VerifySignature C enc sg addr)))"

definition eth_DecodeAsset :: "asset decoder" where
  "eth_DecodeAsset = bindD eth_Address_Decode (\<lambda>a. returnD (Some (eth_Address_Encode a)))"

definition eth_backend ::
    "secp256k1 \<Rightarrow> abi_ops \<Rightarrow> (account \<Rightarrow> bytes \<Rightarrow> sig res) \<Rightarrow> appReg \<Rightarrow> (address \<Rightarrow> user_app) \<Rightarrow> channel_backend" where
  "eth_backend C A signData reg ua =
     \<lparr>wb_EncodeAddress = eth_Address_Encode, wb_DecodeAddress = eth_DecodeAddress,
      wb_DecodeSig = eth_DecodeSig, wb_VerifySignature = eth_VerifySignature C,
      ab_DecodeAsset = eth_DecodeAsset,
      cb_CalcID = eth_CalcID C A, cb_Sign = eth_Sign A signData, cb_Verify = eth_Verify C A,
      cb_registry = reg, cb_userApp = ua\<rparr>"

section \<open>The contracts of the library\<close>

abbreviation addr20 :: "bytes \<Rightarrow> bool" where
  "addr20 a \<equiv> length a = 20"

abbreviation sig65 :: "bytes \<Rightarrow> bool" where
  "sig65 s \<equiv> length s = 65"

definition eth_asset_ok :: "asset \<Rightarrow> bool" where
  "eth_asset_ok a \<longleftrightarrow> (case a of Some (OK b) \<Rightarrow> addr20 b | _ \<Rightarrow> False)"

lemma eth_asset_okE:
  assumes "eth_asset_ok a"
  obtains b where "a = Some (OK b)" "addr20 b"
  using assms by (auto simp: eth_asset_ok_def split: option.splits res.splits)

lemma asEthAsset_OK_iff: "asEthAsset a = OK b \<longleftrightarrow> a = Some (OK b) \<and> addr20 b"
  by (auto simp: asEthAsset_def AddressLength_def split: option.splits res.splits)

lemma eth_address_rt: "addr20 a \<Longrightarrow> roundtrips (eth_Address_Encode a) eth_Address_Decode a"
  unfolding eth_Address_Encode_def eth_Address_Decode_def
  by (intro roundtrips_msgD roundtrips_OK_I) (simp add: AddressLength_def)

lemma eth_sig_rt: "sig65 s \<Longrightarrow> roundtrips (OK s) eth_DecodeSig s"
  unfolding eth_DecodeSig_def decArg_def
  by (intro roundtrips_msgD roundtrips_OK_I) (simp add: ByteSlice_Decode_def SigLen_def)

lemma eth_asset_rt: "eth_asset_ok a \<Longrightarrow> roundtrips (asset_Encode a) eth_DecodeAsset a"
proof (erule eth_asset_okE)
  fix b assume b: "a = Some (OK b)" "addr20 b"
  have "roundtrips (eth_Address_Encode b) eth_DecodeAsset (Some (eth_Address_Encode b))"
    unfolding eth_DecodeAsset_def
    by (rule roundtrips_bind_last [OF eth_address_rt [OF b(2)]]) (simp add: returnD_def)
  then show "roundtrips (asset_Encode a) eth_DecodeAsset a"
    by (simp add: b(1) asset_Encode_def eth_Address_Encode_def)
qed

lemma eth_backend_simps [simp]:
  "wb_EncodeAddress (eth_backend C A sd reg ua) = eth_Address_Encode"
  "wb_DecodeAddress (eth_backend C A sd reg ua) = eth_Address_Decode"
  "wb_DecodeSig (eth_backend C A sd reg ua) = eth_DecodeSig"
  "ab_DecodeAsset (eth_backend C A sd reg ua) = eth_DecodeAsset"
  "cb_CalcID (eth_backend C A sd reg ua) = eth_CalcID C A"
  "cb_Sign (eth_backend C A sd reg ua) = eth_Sign A sd"
  "cb_Verify (eth_backend C A sd reg ua) = eth_Verify C A"
  "cb_registry (eth_backend C A sd reg ua) = reg"
  "cb_userApp (eth_backend C A sd reg ua) = ua"
  by (simp_all add: eth_backend_def eth_DecodeAddress_def)

interpretation eth_codec: channel_codec "eth_backend C A sd reg ua" addr20 sig65 eth_asset_ok
  for C A sd reg ua
  by unfold_locales (simp_all add: eth_address_rt eth_sig_rt eth_asset_rt)

lemma eth_Sign_OK_iff:
  "eth_Sign A sd a p s = OK sg \<longleftrightarrow>
     (\<exists>state enc. ToEthState s = OK state \<and> EncodeState A state = OK enc \<and> sd a enc = OK sg)"
  by (auto simp: eth_Sign_def res_simps)

lemma eth_Sign_Verify:
  assumes "\<And>a data sg. sd a data = OK sg \<Longrightarrow> eth_VerifySignature C data sg a = OK True"
    and "eth_Sign A sd a p s = OK sg" "valid_alloc (st_Alloc s)"
  shows "eth_Verify C A a p s sg = OK True"
proof -
  from assms(2) obtain state enc where "ToEthState s = OK state" "EncodeState A state = OK enc" "sd a enc = OK sg"
    by (auto simp: eth_Sign_OK_iff)
  moreover have "Allocation_Valid (st_Alloc s) = OK ()"
    using assms(3) by (simp add: Allocation_Valid_OK_iff)
  ultimately show ?thesis
    using assms(1) by (simp add: eth_Verify_def)
qed

interpretation eth_signing: signing_backend "eth_backend C A (simple_SignData C) reg ua"
  for C A reg ua
  by unfold_locales (use simple_SignData_verifies eth_Sign_Verify [of "simple_SignData C" C] in force)

text \<open>Unlike the simulated backend, \<open>Sign\<close> signs a state whose allocation is not valid; no such signature
  verifies.\<close>

lemma eth_Verify_invalid:
  "\<not> valid_alloc (st_Alloc s) \<Longrightarrow> eth_Verify C A a p s sg \<noteq> OK b"
  by (auto simp: eth_Verify_def res_simps Allocation_Valid_OK_iff)

section \<open>There and back\<close>

text \<open>What a state is for the contracts: index maps are filled in and there is no application.\<close>

definition fill_map :: "int \<Rightarrow> Index list \<Rightarrow> Index list" where
  "fill_map n m = (if m = [] then map of_nat [0..<nat n] else m)"

definition on_chain :: "State \<Rightarrow> State" where
  "on_chain s = s\<lparr>st_App := NilApp,
     st_Alloc := (st_Alloc s)\<lparr>al_Locked := map (\<lambda>sub. sub\<lparr>sa_IndexMap := fill_map (NumParts (st_Alloc s)) (sa_IndexMap sub)\<rparr>)
       (al_Locked (st_Alloc s))\<rparr>\<rparr>"

definition eth_sub :: "int \<Rightarrow> SubAlloc \<Rightarrow> ChannelSubAlloc" where
  "eth_sub n sub = \<lparr>cs_ID = sa_ID sub, cs_Balances = sa_Bals sub, cs_IndexMap = fill_map n (sa_IndexMap sub)\<rparr>"

lemma mapR_index_maps:
  assumes "0 \<le> n"
  shows "mapR (\<lambda>sub. bindR (ethIndexMap n (sa_IndexMap sub)) (\<lambda>indexMap.
       OK \<lparr>cs_ID = sa_ID sub, cs_Balances = sa_Bals sub, cs_IndexMap = indexMap\<rparr>)) ls = OK (map (eth_sub n) ls)"
  using assms by (intro mapR_total) (simp add: ethIndexMap_def eth_sub_def fill_map_def)

lemma assetToCommonAddresses_OK_iff:
  "assetToCommonAddresses as = OK bs \<longleftrightarrow> as = map (\<lambda>b. Some (OK b)) bs \<and> list_all addr20 bs"
  unfolding assetToCommonAddresses_def mapR_OK_iff asEthAsset_OK_iff
  by (auto simp: list_all2_conv_all_nth list_all_length intro!: nth_equalityI)

lemma NumParts_nonneg: "al_Balances a \<noteq> [] \<Longrightarrow> 0 \<le> NumParts a"
  by (simp add: NumParts_def)

lemma ToEthState_OK_iff:
  assumes "al_Balances (st_Alloc s) \<noteq> []"
  shows "ToEthState s = OK es \<longleftrightarrow> (\<exists>assets appData.
     al_Assets (st_Alloc s) = map (\<lambda>b. Some (OK b)) assets \<and> list_all addr20 assets \<and>
     length assets = length (al_Balances (st_Alloc s)) \<and> data_encoder (st_Data s) = Some (OK appData) \<and>
     es = \<lparr>es_ChannelID = st_ID s, es_Version = st_Version s,
           es_Outcome = \<lparr>ca_Assets = assets, ca_Balances = al_Balances (st_Alloc s),
             ca_Locked = map (eth_sub (NumParts (st_Alloc s))) (al_Locked (st_Alloc s))\<rparr>,
           es_AppData = appData, es_IsFinal = st_IsFinal s\<rparr>)"
  unfolding ToEthState_def mapR_index_maps [OF NumParts_nonneg [OF assms]]
  by (auto simp: res_simps assetToCommonAddresses_OK_iff Let_def split: res.splits)

lemma eth_assets_map:
  "list_all eth_asset_ok as \<Longrightarrow> \<exists>bs. as = map (\<lambda>b. Some (OK b)) bs \<and> list_all addr20 bs"
proof (induction as)
  case (Cons a as)
  then obtain b bs where "a = Some (OK b)" "addr20 b" "as = map (\<lambda>b. Some (OK b)) bs" "list_all addr20 bs"
    by (auto elim: eth_asset_okE)
  then show ?case
    by (intro exI [of _ "b # bs"]) simp
qed simp

text \<open>A well-formed state can be converted.\<close>

lemma ToEthState_total:
  assumes "state_ok B wf_addr eth_asset_ok s"
  shows "\<exists>es. ToEthState s = OK es"
proof -
  have a: "valid_alloc (st_Alloc s)" "list_all eth_asset_ok (al_Assets (st_Alloc s))" "data_ok B (st_App s) (st_Data s)"
    using assms by (simp_all add: state_ok_def alloc_ok_def)
  have bals: "al_Balances (st_Alloc s) \<noteq> []" "length (al_Assets (st_Alloc s)) = length (al_Balances (st_Alloc s))"
    using a(1) by (auto simp: valid_alloc_def Let_def)
  obtain assets where as: "al_Assets (st_Alloc s) = map (\<lambda>b. Some (OK b)) assets" "list_all addr20 assets"
    using eth_assets_map [OF a(2)] by blast
  obtain d where "data_encoder (st_Data s) = Some (OK d)"
    using a(3) by (cases "st_App s") (auto simp: data_ok_def data_encoder_def MockOp_Encode_def Encode_def encArg_def
        Encode_value_def catE_def)
  with as bals show ?thesis
    unfolding ToEthState_OK_iff [OF bals(1)] by (metis length_map)
qed

lemma FromEthState_ToEthState:
  assumes "ToEthState s = OK es" "al_Balances (st_Alloc s) \<noteq> []" "data_ok B app (st_Data s)"
  shows "FromEthState B app es = OK (on_chain s)"
proof -
  from assms(1) obtain assets appData where
    as: "al_Assets (st_Alloc s) = map (\<lambda>b. Some (OK b)) assets" "length assets = length (al_Balances (st_Alloc s))"
    and d: "data_encoder (st_Data s) = Some (OK appData)"
    and es: "es = \<lparr>es_ChannelID = st_ID s, es_Version = st_Version s,
           es_Outcome = \<lparr>ca_Assets = assets, ca_Balances = al_Balances (st_Alloc s),
             ca_Locked = map (eth_sub (NumParts (st_Alloc s))) (al_Locked (st_Alloc s))\<rparr>,
           es_AppData = appData, es_IsFinal = st_IsFinal s\<rparr>"
    by (auto simp: ToEthState_OK_iff [OF assms(2)])
  have "roundtrips (encArg (VEncoder (data_encoder (st_Data s)))) (app_DecodeData B app) (st_Data s)"
    by (rule rt_data [OF assms(3)])
  then have "app_DecodeData B app (appData @ []) = OK (st_Data s, [])"
    unfolding roundtrips_def by (simp add: d encArg_def Encode_value_def del: append_Nil2)
  moreover have "fromEthAssets assets = al_Assets (st_Alloc s)"
    by (simp add: as(1) fromEthAssets_def eth_Address_Encode_def AsWalletAddr_def)
  moreover have "\<lparr>sa_ID = sa_ID x, sa_Bals = sa_Bals x, sa_IndexMap = m\<rparr> = x\<lparr>sa_IndexMap := m\<rparr>" for x :: SubAlloc and m
    by (cases x) simp
  moreover have "length (al_Assets (st_Alloc s)) = length (al_Balances (st_Alloc s))"
    using as by simp
  ultimately show ?thesis
    by (auto simp: FromEthState_def es Let_def on_chain_def eth_sub_def NewSubAlloc_def comp_def
        intro!: State.equality Allocation.equality)
qed

text \<open>A channel identifier is a hash.\<close>

lemma eth_CalcID_length: "eth_CalcID C A p = OK i \<Longrightarrow> length i = 32"
  by (auto simp: eth_CalcID_def res_simps)

lemma eth_CalcID_independent: "eth_CalcID C A (p\<lparr>p_id := i\<rparr>) = eth_CalcID C A p"
  by (simp add: eth_CalcID_def ToEthParams_def)

end
