(* ===== verification/Perun_EthChain.thy ===== *)
theory Perun_EthChain
  imports Perun_EthBackend Perun_Dispute
begin

text \<open>
  The Ethereum backend's access to the blockchain: \<open>backend/ethereum/channel/{errors/errors, contractbackend,
  timeout, txtypes, asset}.go\<close> and \<open>backend/ethereum/subscription/eventsub.go\<close>.

  A node is reached through go-ethereum, whose answers are arguments.  A \<open>select\<close> statement waits for one
  of several channels: what is received, in order, is a list of items, and a loop that has used up the
  list is still waiting (\<open>None\<close>).

  Shown here: the nonces that an account obtains are strictly increasing, and none is skipped unless a
  transaction that had obtained one was not sent; the block from which events are read is never below
  the first; reading past events delivers all of them in order.
\<close>

section \<open>Calls that may wait\<close>

text \<open>A call that changes a state of type \<open>'s\<close> and has an outcome unless it waits.\<close>

type_synonym ('s, 'a) wcall = "'s \<Rightarrow> 's \<times> 'a res option"

definition liftW :: "('s, 'a) call \<Rightarrow> ('s, 'a) wcall" where
  "liftW c s = map_prod id Some (c s)"

definition waitW :: "'a res option \<Rightarrow> ('s, 'a) wcall" where
  "waitW r s = (s, r)"

abbreviation doneW :: "'a res \<Rightarrow> ('s, 'a) wcall" where
  "doneW r \<equiv> waitW (Some r)"

definition bindW :: "('s, 'a) wcall \<Rightarrow> ('a \<Rightarrow> ('s, 'b) wcall) \<Rightarrow> ('s, 'b) wcall" where
  "bindW c f s = (case c s of
      (s', Some (OK x)) \<Rightarrow> f x s'
    | (s', Some (Err e)) \<Rightarrow> (s', Some (Err e))
    | (s', Some (Panic p)) \<Rightarrow> (s', Some (Panic p))
    | (s', None) \<Rightarrow> (s', None))"

definition msgW :: "string \<Rightarrow> ('s, 'a) wcall \<Rightarrow> ('s, 'a) wcall" where
  "msgW m c s = map_prod id (map_option (with_msg m)) (c s)"

lemma bindW_OK_iff:
  "bindW c f s = (s', Some (OK y)) \<longleftrightarrow> (\<exists>s1 x. c s = (s1, Some (OK x)) \<and> f x s1 = (s', Some (OK y)))"
  by (auto simp: bindW_def split: prod.splits option.splits res.splits)

lemma waitW_iff [simp]: "waitW r s = (s', r') \<longleftrightarrow> s' = s \<and> r = r'"
  by (auto simp: waitW_def)

lemma liftW_iff [simp]: "liftW c s = (s', Some r) \<longleftrightarrow> c s = (s', r)" "liftW c s \<noteq> (s', None)"
  by (cases "c s"; simp add: liftW_def)+

lemma msgW_OK_iff [simp]: "msgW m c s = (s', Some (OK y)) \<longleftrightarrow> c s = (s', Some (OK y))"
  by (cases "c s") (auto simp: msgW_def)

section \<open>Errors\<close>

fun str_contains :: "string \<Rightarrow> string \<Rightarrow> bool" where
  "str_contains [] sub \<longleftrightarrow> sub = []"
| "str_contains (c # cs) sub \<longleftrightarrow> take (length sub) (c # cs) = sub \<or> str_contains cs sub"

definition NewTxTimedoutError :: "string \<Rightarrow> bytes \<Rightarrow> string \<Rightarrow> goerr" where
  "NewTxTimedoutError txType txID actualErrMsg = ErrWithMessage actualErrMsg (TxTimedoutError txType txID)"

definition NewChainNotReachableError :: "goerr \<Rightarrow> goerr" where
  "NewChainNotReachableError actualErr = ErrWithMessage (goerr_Error actualErr) ChainNotReachableError"

definition IsChainNotReachableError :: "goerr \<Rightarrow> bool" where
  "IsChainNotReachableError e = str_contains (goerr_Error e) ''connection refused''"

text \<open>A call's result with its error checked; a nil error stays nil.\<close>

primrec CheckIsChainNotReachableError :: "'a res \<Rightarrow> 'a res" where
  "CheckIsChainNotReachableError (OK x) = OK x"
| "CheckIsChainNotReachableError (Err e) = Err (if IsChainNotReachableError e then NewChainNotReachableError e else e)"
| "CheckIsChainNotReachableError (Panic s) = Panic s"

definition IsContextError :: "goerr \<Rightarrow> bool" where
  "IsContextError e \<longleftrightarrow> Cause e = ContextCanceled \<or> Cause e = DeadlineExceeded"

definition errTxTimedOut :: goerr where "errTxTimedOut = ErrNew ''''"

definition ErrTxFailed :: goerr where "ErrTxFailed = ErrNew ''transaction failed''"

definition IsErrTxFailed :: "goerr \<Rightarrow> bool" where
  "IsErrTxFailed e \<longleftrightarrow> Cause e = ErrTxFailed"

definition ErrInvalidContractCode :: goerr where "ErrInvalidContractCode = ErrNew ''invalid bytecode at address''"

definition IsErrInvalidContractCode :: "goerr \<Rightarrow> bool" where
  "IsErrInvalidContractCode e \<longleftrightarrow> Cause e = ErrInvalidContractCode"

datatype OnChainTxType = TxFund | TxRegister | TxProgress | TxConclude | TxConcludeFinal | TxWithdraw

primrec OnChainTxType_String :: "OnChainTxType \<Rightarrow> string" where
  "OnChainTxType_String TxFund = ''fund''"
| "OnChainTxType_String TxRegister = ''register''"
| "OnChainTxType_String TxProgress = ''progress''"
| "OnChainTxType_String TxConclude = ''conclude''"
| "OnChainTxType_String TxConcludeFinal = ''concludeFinal''"
| "OnChainTxType_String TxWithdraw = ''withdraw''"

lemma CheckChain_OK_iff [simp]: "CheckIsChainNotReachableError m = OK x \<longleftrightarrow> m = OK x"
  by (cases m) auto

lemma CheckChain_Panic_iff [simp]: "CheckIsChainNotReachableError m = Panic s \<longleftrightarrow> m = Panic s"
  by (cases m) auto

text \<open>An error is not checked twice to another effect.\<close>

lemma CheckChain_idem:
  assumes "m = Err e" "IsChainNotReachableError e"
  shows "\<exists>e'. CheckIsChainNotReachableError m = Err e' \<and> Cause e' = ChainNotReachableError"
  using assms by (simp add: NewChainNotReachableError_def)

section \<open>Block numbers\<close>

definition startBlockOffset :: u64 where "startBlockOffset = 100"

definition GasLimit :: u64 where "GasLimit = 1000000"

text \<open>\<open>header\<close> is the number of the latest block.\<close>

definition pastOffsetBlockNum :: "u64 res \<Rightarrow> u64 res" where
  "pastOffsetBlockNum header =
     bindR (with_msg ''retrieving latest block'' (CheckIsChainNotReachableError header)) (\<lambda>n.
     if n \<le> startBlockOffset then OK 1 else OK (n - startBlockOffset))"

definition NewWatchOpts :: "u64 res \<Rightarrow> u64 res" where
  "NewWatchOpts header = with_msg ''new watch opts'' (pastOffsetBlockNum header)"

definition NewFilterOpts :: "u64 res \<Rightarrow> u64 res" where
  "NewFilterOpts header = with_msg ''new filter opts'' (pastOffsetBlockNum header)"

definition calcStartBlock :: "u64 res \<Rightarrow> u64 \<Rightarrow> u64 res" where
  "calcStartBlock header pastBlocks =
     bindR (with_msg ''retrieving latest block'' (CheckIsChainNotReachableError header)) (\<lambda>n.
     if n \<le> pastBlocks then OK 1 else OK (n - pastBlocks))"

lemma calcStartBlock_bounds:
  assumes "calcStartBlock (OK n) k = OK b"
  shows "unat b = max 1 (unat n - unat k)"
proof (cases "n \<le> k")
  case True
  then show ?thesis
    using assms by (simp add: calcStartBlock_def word_le_nat_alt)
next
  case False
  then have "unat (n - k) = unat n - unat k" "unat n - unat k \<ge> 1"
    by (simp_all add: word_le_nat_alt unat_sub)
  then show ?thesis
    using assms False by (simp add: calcStartBlock_def)
qed

lemma pastOffsetBlockNum_start: "pastOffsetBlockNum h = calcStartBlock h startBlockOffset"
  by (simp add: pastOffsetBlockNum_def calcStartBlock_def)

section \<open>Nonces\<close>

record ContractBackend =
  cb_expectedNextNonce :: "address \<Rightarrow> u64 option"

definition NewContractBackend :: ContractBackend where
  "NewContractBackend = \<lparr>cb_expectedNextNonce = Map.empty\<rparr>"

text \<open>\<open>tr\<close> is the transactor of the wallet and \<open>pendingNonce\<close> the node's answer.\<close>

definition NewTransactor ::
    "(address \<Rightarrow> 'tx TransactOpts res) \<Rightarrow> (address \<Rightarrow> u64 res) \<Rightarrow> u64 \<Rightarrow> address \<Rightarrow> (ContractBackend, 'tx TransactOpts) call" where
  "NewTransactor tr pendingNonce gasLimit acc =
     bindS (getS (\<lambda>c. OK (cb_expectedNextNonce c acc))) (\<lambda>found.
     let expectedNextNonce = (case found of None \<Rightarrow> 0 | Some n \<Rightarrow> n) in
     bindS (modifyS (\<lambda>c. if found = None
       then c\<lparr>cb_expectedNextNonce := (cb_expectedNextNonce c)(acc \<mapsto> 0)\<rparr> else c)) (\<lambda>_.
     bindS (msgS ''creating transactor'' (liftS (tr acc))) (\<lambda>auth.
     bindS (msgS ''fetching nonce'' (liftS (CheckIsChainNotReachableError (pendingNonce acc)))) (\<lambda>pending.
     let nonce = (if pending < expectedNextNonce then expectedNextNonce else pending) in
     bindS (modifyS (\<lambda>c. c\<lparr>cb_expectedNextNonce := (cb_expectedNextNonce c)(acc \<mapsto> nonce + 1)\<rparr>)) (\<lambda>_.
     returnS (auth\<lparr>to_GasLimit := gasLimit, to_Nonce := Some (sint nonce)\<rparr>))))))"

text \<open>The nonce that is expected of an account.\<close>

definition expected :: "ContractBackend \<Rightarrow> address \<Rightarrow> u64" where
  "expected c a = (case cb_expectedNextNonce c a of None \<Rightarrow> 0 | Some n \<Rightarrow> n)"

lemmas call_steps = bindS_def getS_def modifyS_def returnS_def liftS_def msgS_def

lemma NewTransactor_succeeds:
  assumes "tr a = OK auth" "pn a = OK p" "n = max p (expected c a)"
  shows "\<exists>c'. NewTransactor tr pn g a c = (c', OK (auth\<lparr>to_GasLimit := g, to_Nonce := Some (sint n)\<rparr>)) \<and>
     expected c' = (expected c)(a := n + 1)"
proof -
  have "n = (if p < expected c a then expected c a else p)"
    using assms(3) by (auto simp: max_def)
  with assms(1,2) show ?thesis
    by (cases "cb_expectedNextNonce c a")
      (auto simp: NewTransactor_def call_steps Let_def expected_def fun_eq_iff)
qed

lemma NewTransactor_fails:
  assumes "\<not> is_OK (tr a) \<or> \<not> is_OK (pn a)"
  shows "\<exists>c' r. NewTransactor tr pn g a c = (c', r) \<and> \<not> is_OK r \<and> expected c' = expected c"
proof (cases "tr a")
  case (OK auth)
  with assms have "\<not> is_OK (pn a)"
    by simp
  then show ?thesis
    using OK by (cases "pn a"; cases "cb_expectedNextNonce c a")
      (auto simp: NewTransactor_def call_steps Let_def expected_def fun_eq_iff)
qed (cases "cb_expectedNextNonce c a"; auto simp: NewTransactor_def call_steps Let_def expected_def fun_eq_iff)+

lemma NewTransactor_cases:
  assumes "NewTransactor tr pn g a c = (c', r)"
  obtains (succeeds) auth p n where "tr a = OK auth" "pn a = OK p" "n = max p (expected c a)"
      "r = OK (auth\<lparr>to_GasLimit := g, to_Nonce := Some (sint n)\<rparr>)" "expected c' = (expected c)(a := n + 1)"
    | (fails) "\<not> is_OK r" "expected c' = expected c"
proof (cases "is_OK (tr a) \<and> is_OK (pn a)")
  case True
  then obtain auth p where "tr a = OK auth" "pn a = OK p"
    by (auto simp: is_OK_iff)
  with NewTransactor_succeeds [of tr a auth pn p _ c g] assms show ?thesis
    by (metis Pair_inject succeeds)
next
  case False
  with NewTransactor_fails [of tr a pn g c] assms show ?thesis
    by (metis Pair_inject fails)
qed

text \<open>A history of requests: the account, what the transactor and the node answer.  The nonces that are
  handed out, with their accounts, in order.\<close>

primrec nonces ::
    "(address \<times> (address \<Rightarrow> 'tx TransactOpts res) \<times> (address \<Rightarrow> u64 res)) list \<Rightarrow> ContractBackend \<Rightarrow> (address \<times> int) list" where
  "nonces [] c = []"
| "nonces (q # qs) c = (case NewTransactor (fst (snd q)) (snd (snd q)) GasLimit (fst q) c of
      (c', OK opts) \<Rightarrow> (case to_Nonce opts of Some n \<Rightarrow> [(fst q, n)] | None \<Rightarrow> []) @ nonces qs c'
    | (c', _) \<Rightarrow> nonces qs c')"

definition pending_below :: "nat \<Rightarrow> (address \<times> (address \<Rightarrow> 'tx TransactOpts res) \<times> (address \<Rightarrow> u64 res)) list \<Rightarrow> bool" where
  "pending_below k qs \<longleftrightarrow> (\<forall>q \<in> set qs. \<forall>a p. snd (snd q) a = OK p \<longrightarrow> unat p \<le> k)"

lemma sint_small_u64:
  assumes "unat (n :: u64) < 2 ^ 63"
  shows "sint n = uint n"
proof -
  have "int (unat n) < int (2 ^ 63)"
    using assms by (simp only: of_nat_less_iff)
  then show ?thesis
    using signed_take_bit_int_eq_self [of 63 "uint n"] uint_ge_0 [of n] by (simp add: sint_uint)
qed

lemma unat_Suc_u64: "unat (n :: u64) < 2 ^ 63 \<Longrightarrow> unat (n + 1) = Suc (unat n)"
  using unat_add_lem [of n 1] by simp

lemma nonces_bounds:
  assumes "pending_below k qs" "\<And>a. unat (expected c a) \<le> k" "k + length qs < 2 ^ 63"
  shows "(a, n) \<in> set (nonces qs c) \<Longrightarrow> int (unat (expected c a)) \<le> n"
    and "sorted_wrt (<) (map snd (filter (\<lambda>(b, _). b = a) (nonces qs c)))"
proof -
  have "(\<forall>(b, n) \<in> set (nonces qs c). int (unat (expected c b)) \<le> n) \<and>
      sorted_wrt (<) (map snd (filter (\<lambda>(b, _). b = a) (nonces qs c)))"
    using assms
  proof (induction qs arbitrary: c k)
    case (Cons q qs)
    obtain c' r where step: "NewTransactor (fst (snd q)) (snd (snd q)) GasLimit (fst q) c = (c', r)"
      by fastforce
    have tail: "pending_below k qs" "pending_below (Suc k) qs"
      using Cons.prems(1) by (auto simp: pending_below_def intro: le_SucI)
    from step show ?case
    proof (cases rule: NewTransactor_cases)
      case (succeeds auth p n)
      have "unat p \<le> k"
        using Cons.prems(1) succeeds(2) by (auto simp: pending_below_def)
      then have n: "unat n \<le> k" "unat (expected c (fst q)) \<le> unat n"
        using succeeds(3) Cons.prems(2) by (auto simp: max_def word_le_nat_alt)
      then have suc: "unat (n + 1) = Suc (unat n)" and sn: "sint n = uint n"
        using Cons.prems(3) by (auto intro!: unat_Suc_u64 sint_small_u64)
      have "unat (expected c' b) \<le> Suc k" for b
        using succeeds(5) n(1) suc Cons.prems(2) [of b] by (cases "b = fst q") auto
      with Cons.IH [OF tail(2), of c'] Cons.prems(3) have IH:
        "\<forall>(b, m) \<in> set (nonces qs c'). int (unat (expected c' b)) \<le> m"
        "sorted_wrt (<) (map snd (filter (\<lambda>(b, _). b = a) (nonces qs c')))"
        by auto
      have "int (unat (expected c b)) \<le> m" if "(b, m) \<in> set (nonces qs c')" for b m
      proof -
        have "int (unat (expected c' b)) \<le> m"
          using IH(1) that by auto
        moreover have "unat (expected c b) \<le> unat (expected c' b)"
          using succeeds(5) n(2) suc by (cases "b = fst q") auto
        ultimately show ?thesis
          by (simp add: word_le_nat_alt [symmetric] word_le_def)
      qed
      moreover have "int (unat n) < m" if "(fst q, m) \<in> set (nonces qs c')" for m
      proof -
        have "uint (n + 1) \<le> m"
          using IH(1) that succeeds(5) by auto
        then show ?thesis
          using arg_cong [OF suc, of int] by simp
      qed
      moreover have "uint (expected c (fst q)) \<le> uint n"
        using n(2) by (simp add: word_le_nat_alt [symmetric] word_le_def)
      ultimately show ?thesis
        using IH(2) by (auto simp: step succeeds(4) sn)
    next
      case fails
      then show ?thesis
        using Cons.IH [OF tail(1), of c'] Cons.prems(2,3) by (cases r) (auto simp: step)
    qed
  qed simp
  then show "(a, n) \<in> set (nonces qs c) \<Longrightarrow> int (unat (expected c a)) \<le> n"
    and "sorted_wrt (<) (map snd (filter (\<lambda>(b, _). b = a) (nonces qs c)))"
    by auto
qed

text \<open>A nonce that was handed out counts as used, whether or not its transaction is sent: when the node
  has seen no transaction with it, the next nonce leaves a gap.\<close>

lemma unsent_leaves_gap:
  assumes "tr a = OK auth" "pn a = OK p" "unat p < 2 ^ 62" "expected c a \<le> p"
    and "NewTransactor tr pn g a c = (c1, r1)" "NewTransactor tr pn g a c1 = (c2, r2)"
  shows "\<exists>o1 o2. r1 = OK o1 \<and> r2 = OK o2 \<and> to_Nonce o1 = Some (int (unat p)) \<and> to_Nonce o2 = Some (int (unat p) + 1)"
proof -
  have suc: "unat (p + 1) = Suc (unat p)"
    using assms(3) by (intro unat_Suc_u64) simp
  have "p = max p (expected c a)"
    using assms(4) by (simp add: max_def)
  from NewTransactor_succeeds [of tr a auth pn, OF assms(1,2) this, of g] assms(5)
  have 1: "r1 = OK (auth\<lparr>to_GasLimit := g, to_Nonce := Some (sint p)\<rparr>)" "expected c1 a = p + 1"
    by auto
  have "p + 1 = max p (expected c1 a)"
    using suc 1(2) by (simp add: max_def word_le_nat_alt)
  from NewTransactor_succeeds [of tr a auth pn, OF assms(1,2) this, of g] assms(6)
  have "r2 = OK (auth\<lparr>to_GasLimit := g, to_Nonce := Some (sint (p + 1))\<rparr>)"
    by auto
  moreover have "sint p = uint p" "sint (p + 1) = uint (p + 1)"
    using suc assms(3) by (auto intro!: sint_small_u64)
  moreover have "uint (p + 1) = uint p + 1"
    using arg_cong [OF suc, of int] by simp
  ultimately show ?thesis
    using 1 by simp
qed

section \<open>Confirmations\<close>

record Receipt =
  rc_Status :: u64
  rc_GasUsed :: u64

definition ReceiptStatusFailed :: u64 where "ReceiptStatusFailed = 0"

text \<open>\<open>mined\<close> is the answer of \<open>bind.WaitMined\<close>.  The reason of a failure is only logged, and no caller
  looks at the receipt of a failed transaction.\<close>

definition ConfirmTransaction :: "Receipt res \<Rightarrow> Receipt res" where
  "ConfirmTransaction mined = (case mined of
      Err e \<Rightarrow> Err (ErrWithMessage ''sending transaction''
        (if IsContextError e then errTxTimedOut
         else if IsChainNotReachableError e then NewChainNotReachableError e
         else e))
    | Panic s \<Rightarrow> Panic s
    | OK receipt \<Rightarrow> if rc_Status receipt = ReceiptStatusFailed then Err ErrTxFailed else OK receipt)"

lemma ConfirmTransaction_OK_iff: "ConfirmTransaction m = OK r \<longleftrightarrow> m = OK r \<and> rc_Status r \<noteq> 0"
  by (auto simp: ConfirmTransaction_def ReceiptStatusFailed_def split: res.splits if_splits)

text \<open>Its callers name the transaction that has timed out.\<close>

definition confirmAs :: "OnChainTxType \<Rightarrow> bytes \<Rightarrow> Receipt res \<Rightarrow> unit res" where
  "confirmAs txType txHash mined = (case ConfirmTransaction mined of
      OK _ \<Rightarrow> OK ()
    | Panic s \<Rightarrow> Panic s
    | Err e \<Rightarrow> Err (if Cause e = errTxTimedOut
        then NewTxTimedoutError (OnChainTxType_String txType) txHash (goerr_Error e) else e))"

lemma confirmAs_OK_iff: "confirmAs t h m = OK u \<longleftrightarrow> (\<exists>r. m = OK r \<and> rc_Status r \<noteq> 0)"
  by (auto simp: confirmAs_def split: res.splits) (use ConfirmTransaction_OK_iff in \<open>metis res.distinct\<close>)+

section \<open>Deployment\<close>

definition deployGasLimit :: u64 where "deployGasLimit = 6600000"

text \<open>\<open>f\<close> sends the deployment, \<open>deployed\<close> is the outcome of \<open>bind.WaitDeployed\<close>.\<close>

definition deployContract ::
    "(address \<Rightarrow> 'tx TransactOpts res) \<Rightarrow> (address \<Rightarrow> u64 res) \<Rightarrow> address \<Rightarrow> string \<Rightarrow> ('tx TransactOpts \<Rightarrow> (bytes \<times> 'tx) res) \<Rightarrow>
     ('tx \<Rightarrow> unit res) \<Rightarrow> ('tx \<Rightarrow> bytes) \<Rightarrow> (ContractBackend, bytes) call" where
  "deployContract tr pendingNonce deployer name f deployed hash =
     bindS (msgS ''creating transactor'' (NewTransactor tr pendingNonce deployGasLimit deployer)) (\<lambda>auth.
     bindS (liftS (with_msg ''creating transaction'' (CheckIsChainNotReachableError (f auth)))) (\<lambda>(addr, tx).
     bindS (liftS (with_msg (''deploying '' @ name) (case deployed tx of
         Err e \<Rightarrow> Err (if IsContextError e then NewTxTimedoutError (''deploy '' @ name) (hash tx) (goerr_Error e)
           else if IsChainNotReachableError e then NewChainNotReachableError e else e)
       | r \<Rightarrow> r))) (\<lambda>_.
     returnS addr)))"

text \<open>The generated functions that send the deployments.\<close>

record 'tx deploy_ops =
  dp_PerunToken :: "'tx TransactOpts \<Rightarrow> bytes list \<Rightarrow> int \<Rightarrow> (bytes \<times> 'tx) res"
  dp_AssetHolderETH :: "'tx TransactOpts \<Rightarrow> bytes \<Rightarrow> (bytes \<times> 'tx) res"
  dp_AssetHolderERC20 :: "'tx TransactOpts \<Rightarrow> bytes \<Rightarrow> bytes \<Rightarrow> (bytes \<times> 'tx) res"
  dp_Adjudicator :: "'tx TransactOpts \<Rightarrow> (bytes \<times> 'tx) res"
  dp_TrivialApp :: "'tx TransactOpts \<Rightarrow> (bytes \<times> 'tx) res"

definition DeployPerunToken where
  "DeployPerunToken D tr pn deployer initAccs initBals =
     deployContract tr pn deployer ''PerunToken'' (\<lambda>auth. dp_PerunToken D auth initAccs initBals)"

definition DeployETHAssetholder where
  "DeployETHAssetholder D tr pn adjudicatorAddr deployer =
     deployContract tr pn deployer ''ETHAssetHolder'' (\<lambda>auth. dp_AssetHolderETH D auth adjudicatorAddr)"

definition DeployERC20Assetholder where
  "DeployERC20Assetholder D tr pn adjudicatorAddr tokenAddr deployer =
     deployContract tr pn deployer ''ERC20AssetHolder'' (\<lambda>auth. dp_AssetHolderERC20 D auth adjudicatorAddr tokenAddr)"

definition DeployAdjudicator where
  "DeployAdjudicator D tr pn deployer = deployContract tr pn deployer ''Adjudicator'' (dp_Adjudicator D)"

definition DeployTrivialApp where
  "DeployTrivialApp D tr pn deployer = deployContract tr pn deployer ''TrivialApp'' (dp_TrivialApp D)"

text \<open>An address is returned only for a contract that was deployed.\<close>

lemma deployContract_OK:
  assumes "deployContract tr pn a name f deployed hash c = (c', OK addr)"
  shows "\<exists>opts tx. f opts = OK (addr, tx) \<and> deployed tx = OK ()"
proof -
  have u: "r = OK () \<or> (\<exists>e. r = Err e) \<or> (\<exists>s. r = Panic s)" for r :: "unit res"
    by (cases r) auto
  obtain auth tx c1 where "f auth = OK (addr, tx)"
      "(case deployed tx of Err e \<Rightarrow> Err (if IsContextError e then NewTxTimedoutError (''deploy '' @ name) (hash tx) (goerr_Error e)
           else if IsChainNotReachableError e then NewChainNotReachableError e else e) | r \<Rightarrow> r) = OK c1"
    using assms by (auto simp: deployContract_def bindS_OK_iff liftS_def returnS_def CheckChain_OK_iff)
  then show ?thesis
    using u[of "deployed tx"] by auto
qed

section \<open>Timeouts\<close>

definition NewBlockTimeout :: "u64 \<Rightarrow> Timeout" where
  "NewBlockTimeout ts = BlockTimeout ts"

text \<open>\<open>header\<close> is the timestamp of the latest block; the addition of the duration wraps around.\<close>

definition NewBlockTimeoutDuration :: "u64 res \<Rightarrow> u64 \<Rightarrow> Timeout res" where
  "NewBlockTimeoutDuration header duration =
     bindR (with_msg ''getting latest header'' (CheckIsChainNotReachableError header)) (\<lambda>time.
     OK (NewBlockTimeout (time + duration)))"

definition BlockTimeout_IsElapsed :: "u64 res \<Rightarrow> u64 \<Rightarrow> bool" where
  "BlockTimeout_IsElapsed header t = (case header of OK time \<Rightarrow> time \<ge> t | _ \<Rightarrow> False)"

datatype head_item = NewHead u64 | HeadsErr "goerr option" | HeadsCtx goerr

primrec waitHeads :: "u64 \<Rightarrow> head_item list \<Rightarrow> unit res option" where
  "waitHeads t [] = None"
| "waitHeads t (i # is) = (case i of
      NewHead time \<Rightarrow> if time \<ge> t then Some (OK ()) else waitHeads t is
    | HeadsErr (Some e) \<Rightarrow> Some (with_msg ''sub done'' (CheckIsChainNotReachableError (Err e)))
    | HeadsErr None \<Rightarrow> Some (Err (ErrNew ''sub done before timeout''))
    | HeadsCtx e \<Rightarrow> Some (Err (ErrWithMessage ''context done'' e)))"

definition BlockTimeout_Wait :: "unit res \<Rightarrow> u64 \<Rightarrow> head_item list \<Rightarrow> unit res option" where
  "BlockTimeout_Wait subscribed t is = (case CheckIsChainNotReachableError subscribed of
      OK _ \<Rightarrow> waitHeads t is
    | r \<Rightarrow> Some (with_msg ''subscribing to new heads'' r))"

text \<open>\<open>Wait\<close> returns nil only when a block at or after the timeout has been seen.\<close>

lemma waitHeads_OK:
  "waitHeads t is = Some (OK u) \<Longrightarrow> \<exists>time. NewHead time \<in> set is \<and> t \<le> time"
  by (induction "is") (auto split: head_item.splits option.splits if_splits)

lemma waitHeads_returns:
  assumes "NewHead time \<in> set is" "t \<le> time"
  shows "waitHeads t is \<noteq> None"
  using assms by (induction "is") (auto split: head_item.splits option.splits)

text \<open>A timeout that wraps around has elapsed at once.\<close>

lemma wrapped_timeout_elapsed:
  assumes "NewBlockTimeoutDuration (OK time) d = OK (BlockTimeout t)" "unat time + unat d \<ge> 2 ^ 64"
  shows "BlockTimeout_IsElapsed (OK time) t"
proof -
  have t: "t = time + d"
    using assms(1) by (simp add: NewBlockTimeoutDuration_def NewBlockTimeout_def)
  have "\<not> unat time + unat d < 2 ^ LENGTH(64)"
    using assms(2) by simp
  then have "time + d < time"
    by (metis add.commute no_olen_add_nat not_le olen_add_eqv)
  then show ?thesis
    by (simp add: BlockTimeout_IsElapsed_def t)
qed

section \<open>Validating contracts\<close>

definition hexDigit :: "nat \<Rightarrow> char" where
  "hexDigit n = ''0123456789abcdef'' ! n"

definition hex_EncodeToString :: "bytes \<Rightarrow> string" where
  "hex_EncodeToString b = concat (map (\<lambda>x. [hexDigit (unat x div 16), hexDigit (unat x mod 16)]) b)"

function strings_ReplaceAll :: "string \<Rightarrow> string \<Rightarrow> string \<Rightarrow> string" where
  "strings_ReplaceAll s old new =
     (if s = [] \<or> old = [] then s
      else if take (length old) s = old then new @ strings_ReplaceAll (drop (length old) s) old new
      else hd s # strings_ReplaceAll (tl s) old new)"
  by auto

termination strings_ReplaceAll
  by (relation "measure (\<lambda>(s, old, new). length s)") auto

declare strings_ReplaceAll.simps [simp del]

definition runtimePlaceholder :: string where
  "runtimePlaceholder = ''7f'' @ replicate 64 (CHR ''0'')"

text \<open>\<open>runtime\<close> is the compiled contract.\<close>

definition assetHolderERC20BinRuntimeFor :: "string \<Rightarrow> bytes \<Rightarrow> string" where
  "assetHolderERC20BinRuntimeFor runtime token =
     (let tokenHex = hex_EncodeToString token in
      strings_ReplaceAll runtime runtimePlaceholder
        (take (length runtimePlaceholder - length tokenHex) runtimePlaceholder @ tokenHex))"

definition validateContract :: "bytes res \<Rightarrow> string \<Rightarrow> unit res" where
  "validateContract code bytecode =
     bindR (with_msg ''fetching contract code'' (CheckIsChainNotReachableError code)) (\<lambda>code.
     err_if (hex_EncodeToString code \<noteq> bytecode) (ErrWithMessage ''incorrect contract code'' ErrInvalidContractCode))"

text \<open>\<open>bound\<close> and \<open>adjSet\<close>: binding the contract, and the adjudicator that is set in it.\<close>

definition validateAssetHolder :: "bytes res \<Rightarrow> unit res \<Rightarrow> bytes res \<Rightarrow> bytes \<Rightarrow> string \<Rightarrow> unit res" where
  "validateAssetHolder code bound adjSet adjudicatorAddr bytecode =
     bindR (with_msg ''validating asset holder'' (validateContract code bytecode)) (\<lambda>_.
     bindR (with_msg ''binding AssetHolder'' bound) (\<lambda>_.
     bindR (with_msg ''fetching adjudicator address set in asset holder contract''
       (CheckIsChainNotReachableError adjSet)) (\<lambda>addrSetInContract.
     err_if (addrSetInContract \<noteq> adjudicatorAddr) (ErrWithMessage ''incorrect adjudicator code'' ErrInvalidContractCode))))"

definition ValidateAssetHolderETH :: "bytes res \<Rightarrow> unit res \<Rightarrow> bytes res \<Rightarrow> bytes \<Rightarrow> string \<Rightarrow> unit res" where
  "ValidateAssetHolderETH code bound adjSet adjudicator runtime = validateAssetHolder code bound adjSet adjudicator runtime"

definition ValidateAssetHolderERC20 :: "bytes res \<Rightarrow> unit res \<Rightarrow> bytes res \<Rightarrow> bytes \<Rightarrow> bytes \<Rightarrow> string \<Rightarrow> unit res" where
  "ValidateAssetHolderERC20 code bound adjSet adjudicator token runtime =
     validateAssetHolder code bound adjSet adjudicator (assetHolderERC20BinRuntimeFor runtime token)"

definition ValidateAdjudicator :: "bytes res \<Rightarrow> string \<Rightarrow> unit res" where
  "ValidateAdjudicator code runtime = validateContract code runtime"

lemma hexDigit_inject: "i < 16 \<Longrightarrow> j < 16 \<Longrightarrow> hexDigit i = hexDigit j \<longleftrightarrow> i = j"
proof -
  have "distinct ''0123456789abcdef''"
    by simp
  then show "i < 16 \<Longrightarrow> j < 16 \<Longrightarrow> hexDigit i = hexDigit j \<longleftrightarrow> i = j"
    unfolding hexDigit_def by (simp add: nth_eq_iff_index_eq)
qed

lemma hex_EncodeToString_inject: "hex_EncodeToString a = hex_EncodeToString b \<longleftrightarrow> a = b"
proof (induction a arbitrary: b)
  case Nil
  then show ?case by (cases b) (simp_all add: hex_EncodeToString_def)
next
  case (Cons x a)
  have "unat x div 16 < 16" "unat y div 16 < 16" for y :: byte
    using unat_byte_bound [of x] unat_byte_bound [of y] by (simp_all add: div_less_iff_less_mult)
  then have "hexDigit (unat x div 16) = hexDigit (unat y div 16) \<and> hexDigit (unat x mod 16) = hexDigit (unat y mod 16) \<longleftrightarrow> x = y"
    for y :: byte
    by (simp add: hexDigit_inject) (metis div_mult_mod_eq word_unat_eq_iff)
  with Cons show ?case
    by (cases b) (auto simp: hex_EncodeToString_def)
qed

text \<open>A contract is accepted exactly when its code is the compiled code and its adjudicator the expected one.\<close>

lemma validateAssetHolder_OK_iff:
  "validateAssetHolder code bound adjSet adj (hex_EncodeToString b) = OK () \<longleftrightarrow>
     code = OK b \<and> bound = OK () \<and> adjSet = OK adj"
  by (auto simp: validateAssetHolder_def validateContract_def res_simps hex_EncodeToString_inject)

section \<open>Event subscriptions\<close>

text \<open>What a \<open>select\<close> statement of an event subscription receives: a log, the end of the underlying
  subscription, the end of the context, the closing of the subscription; that nothing is ready (the
  default branch); that the receiver has taken an event.\<close>

datatype 'l sub_item = SubLog 'l | SubErr "goerr option" | SubCtx goerr | SubClosed | SubDefault | SubSent

text \<open>\<open>unpack\<close> decodes a log.  The result: the events that were delivered, the outcome, what is left.\<close>

fun deliverLogs :: "('l \<Rightarrow> 'e res) \<Rightarrow> 'l list \<Rightarrow> 'l sub_item list \<Rightarrow> 'e list \<Rightarrow> ('e list \<times> unit res \<times> 'l sub_item list) option" where
  "deliverLogs unpack [] is sink = Some (sink, OK (), is)"
| "deliverLogs unpack (l # ls) is sink = (case unpack l of
      Err e \<Rightarrow> Some (sink, Err e, is)
    | Panic p \<Rightarrow> Some (sink, Panic p, is)
    | OK event \<Rightarrow> (case is of
          SubSent # is' \<Rightarrow> deliverLogs unpack ls is' (sink @ [event])
        | SubCtx e # is' \<Rightarrow> Some (sink, Err e, is')
        | SubClosed # is' \<Rightarrow> Some (sink, OK (), is')
        | _ \<Rightarrow> None))"

fun readPast2 :: "('l \<Rightarrow> 'e res) \<Rightarrow> 'l list \<Rightarrow> 'l sub_item list \<Rightarrow> ('e list \<times> unit res \<times> 'l sub_item list) option" where
  "readPast2 unpack logs (SubLog l # is) = readPast2 unpack (logs @ [l]) is"
| "readPast2 unpack logs (SubClosed # is) = Some ([], OK (), is)"
| "readPast2 unpack logs (SubCtx e # is) = Some ([], Err e, is)"
| "readPast2 unpack logs (SubDefault # is) = deliverLogs unpack logs is []"
| "readPast2 unpack logs _ = None"

fun readPast1 :: "('l \<Rightarrow> 'e res) \<Rightarrow> 'l list \<Rightarrow> 'l sub_item list \<Rightarrow> ('e list \<times> unit res \<times> 'l sub_item list) option" where
  "readPast1 unpack logs (SubLog l # is) = readPast1 unpack (logs @ [l]) is"
| "readPast1 unpack logs (SubErr (Some e) # is) = Some ([], CheckIsChainNotReachableError (Err e), is)"
| "readPast1 unpack logs (SubErr None # is) = readPast2 unpack logs is"
| "readPast1 unpack logs (SubCtx e # is) = Some ([], Err e, is)"
| "readPast1 unpack logs (SubClosed # is) = Some ([], OK (), is)"
| "readPast1 unpack logs _ = None"

definition readPast :: "('l \<Rightarrow> 'e res) \<Rightarrow> 'l sub_item list \<Rightarrow> ('e list \<times> unit res \<times> 'l sub_item list) option" where
  "readPast unpack is = readPast1 unpack [] is"

definition ReadPast :: "('l \<Rightarrow> 'e res) \<Rightarrow> 'l sub_item list \<Rightarrow> ('e list \<times> unit res) option" where
  "ReadPast unpack is = (case readPast unpack is of
      None \<Rightarrow> None | Some (sink, r, _) \<Rightarrow> Some (sink, with_msg ''reading logs'' r))"

text \<open>Future events are delivered one by one until the subscription ends.\<close>

fun readFuture :: "('l \<Rightarrow> 'e res) \<Rightarrow> 'l sub_item list \<Rightarrow> 'e list \<Rightarrow> ('e list \<times> unit res) option" where
  "readFuture unpack (SubLog l # is) sink = (case unpack l of
      Err e \<Rightarrow> Some (sink, Err e)
    | Panic p \<Rightarrow> Some (sink, Panic p)
    | OK event \<Rightarrow> (case is of
          SubSent # is' \<Rightarrow> readFuture unpack is' (sink @ [event])
        | SubCtx e # is' \<Rightarrow> Some (sink, Err e)
        | SubClosed # is' \<Rightarrow> Some (sink, OK ())
        | _ \<Rightarrow> None))"
| "readFuture unpack (SubErr None # is) sink = Some (sink, OK ())"
| "readFuture unpack (SubErr (Some e) # is) sink = Some (sink, CheckIsChainNotReachableError (Err e))"
| "readFuture unpack (SubCtx e # is) sink = Some (sink, Err e)"
| "readFuture unpack (SubClosed # is) sink = Some (sink, OK ())"
| "readFuture unpack _ sink = None"

definition EventSub_Read :: "('l \<Rightarrow> 'e res) \<Rightarrow> 'l sub_item list \<Rightarrow> ('e list \<times> unit res) option" where
  "EventSub_Read unpack is = (case readPast unpack is of
      None \<Rightarrow> None
    | Some (sink, OK _, is') \<Rightarrow> (case readFuture unpack is' sink of
          None \<Rightarrow> None | Some (sink, r) \<Rightarrow> Some (sink, with_msg ''reading logs'' r))
    | Some (sink, r, _) \<Rightarrow> Some (sink, with_msg ''reading logs'' r))"

text \<open>\<open>header\<close>, \<open>watch\<close> and \<open>filtered\<close>: the latest block, and the outcomes of the two log queries.  The
  result is the block from which both read; \<open>unsubscribed\<close> says that the first one was closed again.\<close>

definition NewEventSub :: "u64 res \<Rightarrow> unit res \<Rightarrow> unit res \<Rightarrow> u64 \<Rightarrow> u64 res \<times> bool" where
  "NewEventSub header watch filtered pastBlocks =
     (case with_msg ''calculating starting block number'' (calcStartBlock header pastBlocks) of
       OK startBlock \<Rightarrow> (case with_msg ''watching logs'' (CheckIsChainNotReachableError watch) of
           OK _ \<Rightarrow> (case with_msg ''filtering logs'' (CheckIsChainNotReachableError filtered) of
               OK _ \<Rightarrow> (OK startBlock, False)
             | Err e \<Rightarrow> (Err e, True)
             | Panic p \<Rightarrow> (Panic p, True))
         | Err e \<Rightarrow> (Err e, False)
         | Panic p \<Rightarrow> (Panic p, False))
     | r \<Rightarrow> (r, False))"

text \<open>When nothing ends it early, reading past events delivers all logs in order, each once.\<close>

lemma deliverLogs_all:
  "(\<And>l. l \<in> set ls \<Longrightarrow> unpack l = OK (f l)) \<Longrightarrow>
     deliverLogs unpack ls (replicate (length ls) SubSent @ is) sink = Some (sink @ map f ls, OK (), is)"
  by (induction ls arbitrary: sink) auto

lemma readPast2_all:
  "(\<And>l. l \<in> set logs \<union> set ls \<Longrightarrow> unpack l = OK (f l)) \<Longrightarrow>
     readPast2 unpack logs (map SubLog ls @ SubDefault # replicate (length logs + length ls) SubSent @ is) =
       Some (map f (logs @ ls), OK (), is)"
proof (induction ls arbitrary: logs)
  case Nil
  then show ?case using deliverLogs_all [of logs unpack f "is" "[]"] by simp
next
  case (Cons l ls)
  from Cons.IH [of "logs @ [l]"] Cons.prems show ?case by auto
qed

lemma readPast_all:
  assumes "\<And>l. l \<in> set ls \<union> set ls' \<Longrightarrow> unpack l = OK (f l)"
  shows "readPast unpack (map SubLog ls @ SubErr None # map SubLog ls' @ SubDefault #
      replicate (length ls + length ls') SubSent @ is) = Some (map f (ls @ ls'), OK (), is)"
proof -
  have "readPast1 unpack logs (map SubLog ls @ SubErr None # js) = readPast2 unpack (logs @ ls) js" for logs js
    by (induction ls arbitrary: logs) auto
  then show ?thesis
    using readPast2_all [of ls ls' unpack f "is"] assms by (simp add: readPast_def)
qed

text \<open>Whatever happens, the receiver gets a prefix of the decoded logs.\<close>

lemma deliverLogs_prefix:
  assumes "deliverLogs unpack ls is sink = Some (out, r, rest)"
  shows "\<exists>k evs. k \<le> length ls \<and> mapR unpack (take k ls) = OK evs \<and> out = sink @ evs"
  using assms
proof (induction unpack ls "is" sink rule: deliverLogs.induct)
  case (2 unpack l ls "is" sink)
  have stop: ?case if "out = sink"
    using that by (intro exI [of _ 0] exI [of _ "[]"]) simp
  show ?case
  proof (cases "unpack l")
    case (OK event)
    show ?thesis
    proof (cases "\<exists>is'. is = SubSent # is'")
      case True
      then obtain is' where is': "is = SubSent # is'" by blast
      obtain k evs where "k \<le> length ls" "mapR unpack (take k ls) = OK evs" "out = (sink @ [event]) @ evs"
        using "2.IH" [OF OK is'] "2.prems" OK is' by auto
      then show ?thesis
        using OK by (intro exI [of _ "Suc k"] exI [of _ "event # evs"]) simp
    next
      case False
      with OK "2.prems" stop show ?thesis
        by (auto split: list.splits sub_item.splits)
    qed
  qed (use "2.prems" stop in auto)
qed (auto intro: exI [of _ 0])

end
