(* ===== verification/Perun_EthFunder.thy ===== *)
theory Perun_EthFunder
  imports Perun_EthChain "HOL-Library.Multiset"
begin

text \<open>
  Funding channels on Ethereum: \<open>backend/ethereum/channel/{funder, depositor, eth_depositor,
  erc20_depositor}.go\<close>.

  \<open>Fund\<close> sends the own deposits, waits for their confirmation and, at the same time, for the deposits of all
  participants, asset by asset.  The deposits that are seen, and when the context ends, are lists of
  items.  The order in which the goroutines report their errors is an argument.

  Shown here: waiting for an asset ends with success exactly when every participant's deposits reach the
  agreed balance, and otherwise names exactly those that have not paid; \<open>Fund\<close> as a whole reports
  them asset by asset.
\<close>

section \<open>Funding identifiers\<close>

definition FundingIDs :: "secp256k1 \<Rightarrow> abi_ops \<Rightarrow> ID \<Rightarrow> address list \<Rightarrow> bytes list res" where
  "FundingIDs C A channelID parts = mapR (\<lambda>pID.
     bindR (AsEthAddr pID) (\<lambda>address.
     bindR (must ''error packing values: %v'' (abi_PackFundingID A channelID address)) (\<lambda>b.
     OK (Keccak256 C b)))) parts"

primrec getPartIdx_from :: "bytes \<Rightarrow> bytes list \<Rightarrow> nat \<Rightarrow> int" where
  "getPartIdx_from partID [] i = -1"
| "getPartIdx_from partID (x # xs) i = (if x = partID then int i else getPartIdx_from partID xs (Suc i))"

definition getPartIdx :: "bytes \<Rightarrow> bytes list \<Rightarrow> int" where
  "getPartIdx partID fundingIDs = getPartIdx_from partID fundingIDs 0"

definition countZeroBalances :: "Bal list \<Rightarrow> nat" where
  "countZeroBalances bals = foldl (\<lambda>n part. if part = 0 then n + 1 else n) 0 bals"

lemma getPartIdx_from_nth:
  "distinct ids \<Longrightarrow> i < length ids \<Longrightarrow> getPartIdx_from (ids ! i) ids k = int (k + i)"
proof (induction ids arbitrary: i k)
  case (Cons x xs)
  then show ?case by (cases i) auto
qed simp

lemma getPartIdx_nth: "distinct ids \<Longrightarrow> i < length ids \<Longrightarrow> getPartIdx (ids ! i) ids = int i"
  by (simp add: getPartIdx_def getPartIdx_from_nth)

lemma countZeroBalances_length: "countZeroBalances bals + length (filter (\<lambda>b. b \<noteq> 0) bals) = length bals"
proof -
  have "foldl (\<lambda>n part. if part = 0 then n + 1 else n) k bals + length (filter (\<lambda>b. b \<noteq> 0) bals) = k + length bals" for k
    by (induction bals arbitrary: k) auto
  then show ?thesis
    by (simp add: countZeroBalances_def)
qed

section \<open>Waiting for the deposits of one asset\<close>

text \<open>A deposit event, the end of the context, the end of the subscription.\<close>

datatype fund_item = Deposited bytes Bal | FundCtx | FundSubErr "goerr option"

definition timedOutPeers :: "Bal list \<Rightarrow> Index list" where
  "timedOutPeers agreement = map (\<lambda>(k, _). of_nat k) (filter (\<lambda>(_, bal). bal > 0) (enumerate 0 agreement))"

fun waitDeposits :: "bytes list \<Rightarrow> Index \<Rightarrow> int \<Rightarrow> Bal list \<Rightarrow> fund_item list \<Rightarrow> unit res option" where
  "waitDeposits ids asset N agreement [] = (if N > 0 then None else Some (OK ()))"
| "waitDeposits ids asset N agreement (i # is) =
     (if \<not> N > 0 then Some (OK ())
      else case i of
        Deposited fundingID eventAmount \<Rightarrow>
          (let idx = getPartIdx fundingID ids in
           if idx < 0 \<or> int (length agreement) \<le> idx then Some (Panic ''index out of range'')
           else let amount = agreement ! nat idx in
             if amount = 0 then waitDeposits ids asset N agreement is
             else let amount = amount - eventAmount in
               if \<not> amount > 0 then waitDeposits ids asset (N - 1) (agreement[nat idx := 0]) is
               else waitDeposits ids asset N (agreement[nat idx := amount]) is)
      | FundCtx \<Rightarrow>
          (let indices = timedOutPeers agreement in
           Some (err_if (length indices \<noteq> 0) (AssetFundingError asset indices)))
      | FundSubErr err \<Rightarrow> Some (case err of None \<Rightarrow> OK () | Some e \<Rightarrow> Err e))"

text \<open>\<open>sub\<close> is the outcome of subscribing.\<close>

definition waitForFundingConfirmation ::
    "unit res \<Rightarrow> FundingReq \<Rightarrow> Index \<Rightarrow> bytes list \<Rightarrow> fund_item list \<Rightarrow> unit res option" where
  "waitForFundingConfirmation sub req assetIndex fundingIDs is =
     (case bindR (with_msg ''subscribing to deposited event'' sub) (\<lambda>_.
             index_at (Balances_Clone (fr_Agreement req)) (unat assetIndex)) of
        OK agreement \<Rightarrow>
          (let N = int (length (p_Parts (fr_Params req))) - int (countZeroBalances agreement) in
           waitDeposits fundingIDs assetIndex N agreement is)
      | Err e \<Rightarrow> Some (Err e)
      | Panic s \<Rightarrow> Some (Panic s))"

text \<open>What was paid to a funding identifier, and who has not paid enough.\<close>

definition paid :: "(bytes \<times> Bal) list \<Rightarrow> bytes \<Rightarrow> Bal" where
  "paid ds i = sum_list (map snd (filter (\<lambda>d. fst d = i) ds))"

definition unfunded :: "bytes list \<Rightarrow> Bal list \<Rightarrow> (bytes \<times> Bal) list \<Rightarrow> Index list" where
  "unfunded ids bals ds = map of_nat (filter (\<lambda>k. paid ds (ids ! k) < bals ! k) [0..<length bals])"

definition nonzero :: "Bal list \<Rightarrow> int" where
  "nonzero bals = int (length (filter (\<lambda>b. b \<noteq> 0) bals))"

lemma paid_nonneg: "\<forall>(_, x) \<in> set ds. 0 \<le> x \<Longrightarrow> 0 \<le> paid ds i"
  unfolding paid_def by (induction ds) auto

lemma nonzero_simps [simp]: "nonzero [] = 0" "nonzero (b # bals) = (if b = 0 then 0 else 1) + nonzero bals"
  by (simp_all add: nonzero_def)

lemma nonzero_update:
  "i < length bals \<Longrightarrow> bals ! i \<noteq> 0 \<Longrightarrow>
     nonzero (bals[i := b]) = (if b = 0 then nonzero bals - 1 else nonzero bals)"
proof (induction bals arbitrary: i)
  case (Cons a bals)
  then show ?case by (cases i) auto
qed simp

lemma nonzero_pos: "0 < nonzero bals \<longleftrightarrow> (\<exists>b \<in> set bals. b \<noteq> 0)"
  by (auto simp: nonzero_def filter_empty_conv)

lemma unfunded_Nil: "unfunded ids bals [] = timedOutPeers bals"
proof -
  have "enumerate 0 bals = map (\<lambda>k. (k, bals ! k)) [0..<length bals]"
    by (rule nth_equalityI) (simp_all add: nth_enumerate_eq)
  then show ?thesis
    by (simp add: unfunded_def timedOutPeers_def paid_def filter_map comp_def)
qed

lemma nonzero_timedOut:
  assumes "\<forall>b \<in> set bals. 0 \<le> b"
  shows "0 < nonzero bals \<longleftrightarrow> timedOutPeers bals \<noteq> []"
proof -
  have "timedOutPeers bals = [] \<longleftrightarrow> (\<forall>k < length bals. \<not> 0 < bals ! k)"
    unfolding unfunded_Nil [of "[]" bals, symmetric] unfunded_def paid_def by (auto simp: filter_empty_conv)
  also have "\<dots> \<longleftrightarrow> (\<forall>b \<in> set bals. b = 0)"
    using assms unfolding all_set_conv_all_nth by (simp add: not_less) (metis order_antisym order_refl)
  finally show ?thesis
    by (auto simp: nonzero_pos)
qed

text \<open>One deposit reduces what remains to be paid.\<close>

lemma unfunded_Cons:
  assumes "distinct ids" "length bals = length ids" "i < length ids" "0 \<le> x" "\<forall>(_, y) \<in> set ds. 0 \<le> y"
  shows "unfunded ids bals ((ids ! i, x) # ds) = unfunded ids (bals[i := max 0 (bals ! i - x)]) ds"
proof -
  have "paid ((ids ! i, x) # ds) (ids ! k) < bals ! k \<longleftrightarrow>
      paid ds (ids ! k) < bals[i := max 0 (bals ! i - x)] ! k" if "k < length bals" for k
    using that assms paid_nonneg [OF assms(5), of "ids ! i"]
    by (cases "k = i") (auto simp: paid_def nth_eq_iff_index_eq)
  then show ?thesis
    by (simp add: unfunded_def) (intro arg_cong [where f = "map of_nat"] filter_cong; simp)
qed

lemma waitDeposits_paid:
  assumes "\<not> 0 < nonzero bals" "\<forall>(_, y) \<in> set ds. 0 \<le> y"
  shows "unfunded ids bals ds = []"
proof -
  have "bals ! k \<le> paid ds i" if "k < length bals" for k i
    using assms(1) nth_mem [OF that] paid_nonneg [OF assms(2), of i] by (auto simp: nonzero_pos)
  then show ?thesis
    by (fastforce simp: unfunded_def filter_empty_conv not_less)
qed

lemma waitDeposits_step:
  assumes "distinct ids" "length bals = length ids" "\<forall>b \<in> set bals. 0 \<le> b" "i < length ids" "0 \<le> x"
    and "0 < nonzero bals"
  defines "bals' \<equiv> bals[i := max 0 (bals ! i - x)]"
  shows "waitDeposits ids asset (nonzero bals) bals (Deposited (ids ! i) x # is) =
     waitDeposits ids asset (nonzero bals') bals' is"
proof -
  have i: "i < length bals" "0 \<le> bals ! i"
    using assms(2-4) by auto
  show ?thesis
  proof (cases "bals ! i = 0")
    case True
    then have "bals' = bals"
      using assms(5) by (simp add: bals'_def max_def list_update_same_conv i(1))
    then show ?thesis
      using True i(1) assms(6) by (simp add: getPartIdx_nth [OF assms(1,4)] Let_def)
  next
    case False
    then show ?thesis
      using i assms(6) nonzero_update [OF i(1) False, of 0] nonzero_update [OF i(1) False, of "bals ! i - x"]
      by (simp add: getPartIdx_nth [OF assms(1,4)] Let_def bals'_def max_def)
  qed
qed

definition own_id :: "bytes list \<Rightarrow> bytes \<times> Bal \<Rightarrow> bool" where
  "own_id ids d \<longleftrightarrow> fst d \<in> set ids \<and> 0 \<le> snd d"

abbreviation deposits :: "(bytes \<times> Bal) list \<Rightarrow> fund_item list" where
  "deposits ds \<equiv> map (\<lambda>(i, x). Deposited i x) ds"

text \<open>The context ends after the deposits \<open>ds\<close>, or never.\<close>

lemma waitDeposits_result:
  assumes "distinct ids" "length bals = length ids" "\<forall>b \<in> set bals. 0 \<le> b" "list_all (own_id ids) ds"
  shows "waitDeposits ids asset (nonzero bals) bals (deposits ds @ FundCtx # is) =
      Some (err_if (unfunded ids bals ds \<noteq> []) (AssetFundingError asset (unfunded ids bals ds)))"
    and "waitDeposits ids asset (nonzero bals) bals (deposits ds) =
      (if unfunded ids bals ds = [] then Some (OK ()) else None)"
proof -
  have "waitDeposits ids asset (nonzero bals) bals (deposits ds @ FundCtx # is) =
      Some (err_if (unfunded ids bals ds \<noteq> []) (AssetFundingError asset (unfunded ids bals ds))) \<and>
    waitDeposits ids asset (nonzero bals) bals (deposits ds) =
      (if unfunded ids bals ds = [] then Some (OK ()) else None)"
    using assms(2-4)
  proof (induction ds arbitrary: bals)
    case Nil
    have "0 < nonzero bals \<longleftrightarrow> timedOutPeers bals \<noteq> []"
      by (rule nonzero_timedOut [OF Nil.prems(2)])
    then show ?case
      by (simp add: unfunded_Nil Let_def)
  next
    case (Cons d ds)
    obtain i x where d: "d = (ids ! i, x)" "i < length ids" "0 \<le> x"
      using Cons.prems(3) by (cases d) (auto simp: own_id_def in_set_conv_nth)
    have ds: "\<forall>(_, y) \<in> set ds. 0 \<le> y" "list_all (own_id ids) ds"
      using Cons.prems(3) by (auto simp: list_all_iff own_id_def)
    let ?bals = "bals[i := max 0 (bals ! i - x)]"
    have un: "unfunded ids bals (d # ds) = unfunded ids ?bals ds"
      unfolding d(1) by (rule unfunded_Cons [OF assms(1) Cons.prems(1) d(2,3) ds(1)])
    have nonneg: "\<forall>b \<in> set ?bals. 0 \<le> b"
      using Cons.prems(2) by (auto dest!: set_update_subset_insert [THEN subsetD])
    have IH: "waitDeposits ids asset (nonzero ?bals) ?bals (deposits ds @ FundCtx # is) =
        Some (err_if (unfunded ids ?bals ds \<noteq> []) (AssetFundingError asset (unfunded ids ?bals ds)))"
      "waitDeposits ids asset (nonzero ?bals) ?bals (deposits ds) =
        (if unfunded ids ?bals ds = [] then Some (OK ()) else None)"
      using Cons.IH [OF _ nonneg ds(2)] Cons.prems(1) by simp_all
    have step: "waitDeposits ids asset (nonzero bals) bals (Deposited (ids ! i) x # is') =
        waitDeposits ids asset (nonzero ?bals) ?bals is'" if "0 < nonzero bals" for is'
      by (rule waitDeposits_step [OF assms(1) Cons.prems(1,2) d(2,3) that])
    show ?case
    proof (cases "0 < nonzero bals")
      case True
      then show ?thesis
        using IH step by (simp add: d(1) un [unfolded d(1)])
    next
      case False
      then have "unfunded ids bals (d # ds) = []"
        using ds(1) d by (intro waitDeposits_paid) auto
      with False show ?thesis
        by (simp add: d(1))
    qed
  qed
  then show "waitDeposits ids asset (nonzero bals) bals (deposits ds @ FundCtx # is) =
      Some (err_if (unfunded ids bals ds \<noteq> []) (AssetFundingError asset (unfunded ids bals ds)))"
    and "waitDeposits ids asset (nonzero bals) bals (deposits ds) =
      (if unfunded ids bals ds = [] then Some (OK ()) else None)"
    by blast+
qed

text \<open>Events that arrive twice count twice: a participant who has paid half is taken to have paid.\<close>

lemma repeated_event_counts_twice: "paid (ds @ ds) i = 2 * paid ds i"
  by (simp add: paid_def)

section \<open>The funder and its assets\<close>

datatype Depositor = ETHDepositor | ERC20Depositor bytes

primrec Depositor_NumTX :: "Depositor \<Rightarrow> u32" where
  "Depositor_NumTX ETHDepositor = 1"
| "Depositor_NumTX (ERC20Depositor token) = 2"

record Funder =
  fu_accounts :: "bytes \<Rightarrow> address option"
  fu_depositors :: "bytes \<Rightarrow> Depositor option"

definition NewFunder :: Funder where
  "NewFunder = \<lparr>fu_accounts = Map.empty, fu_depositors = Map.empty\<rparr>"

definition RegisterAsset :: "bytes \<Rightarrow> Depositor \<Rightarrow> address \<Rightarrow> Funder \<Rightarrow> Funder \<times> bool" where
  "RegisterAsset asset d acc f =
     (if fu_accounts f asset \<noteq> None then (f, False)
      else (f\<lparr>fu_accounts := (fu_accounts f)(asset \<mapsto> acc), fu_depositors := (fu_depositors f)(asset \<mapsto> d)\<rparr>, True))"

definition IsAssetRegistered :: "Funder \<Rightarrow> bytes \<Rightarrow> (Depositor option \<times> address) option" where
  "IsAssetRegistered f asset = (case fu_accounts f asset of
      Some acc \<Rightarrow> Some (fu_depositors f asset, acc)
    | None \<Rightarrow> None)"

definition NumTX :: "Funder \<Rightarrow> asset list \<Rightarrow> u32 res" where
  "NumTX f assets = foldR (\<lambda>a sum. bindR (asEthAsset a) (\<lambda>asset. case fu_depositors f asset of
      None \<Rightarrow> Err (ErrNew ''could not find Depositor for asset #%d'')
    | Some d \<Rightarrow> OK (sum + Depositor_NumTX d))) assets 0"

text \<open>Both maps have the same keys.\<close>

definition funder_inv :: "Funder \<Rightarrow> bool" where
  "funder_inv f \<longleftrightarrow> dom (fu_accounts f) = dom (fu_depositors f)"

lemma funder_inv_new: "funder_inv NewFunder"
  by (simp add: funder_inv_def NewFunder_def)

lemma RegisterAsset_inv: "funder_inv f \<Longrightarrow> RegisterAsset asset d acc f = (f', b) \<Longrightarrow> funder_inv f'"
  unfolding funder_inv_def RegisterAsset_def by (clarsimp simp: dom_fun_upd split: if_splits)

lemma RegisterAsset_registered:
  assumes "RegisterAsset asset d acc f = (f', b)"
  shows "b \<longleftrightarrow> IsAssetRegistered f asset = None"
    and "b \<Longrightarrow> IsAssetRegistered f' asset = Some (Some d, acc)"
    and "a \<noteq> asset \<or> \<not> b \<Longrightarrow> IsAssetRegistered f' a = IsAssetRegistered f a"
  using assms by (auto simp: RegisterAsset_def IsAssetRegistered_def split: if_splits option.splits)

section \<open>Deposits\<close>

record DepositReq =
  dr_Balance :: Bal
  dr_Account :: address
  dr_Asset :: bytes
  dr_FundingID :: bytes

definition NewDepositReq :: "Bal \<Rightarrow> bytes \<Rightarrow> address \<Rightarrow> bytes \<Rightarrow> DepositReq" where
  "NewDepositReq balance asset account fundingID =
     \<lparr>dr_Balance = balance, dr_Account = account, dr_Asset = asset, dr_FundingID = fundingID\<rparr>"

text \<open>What the node and the contracts answer.\<close>

record 'tx chain =
  bc_tr :: "address \<Rightarrow> 'tx TransactOpts res"
  bc_pendingNonce :: "address \<Rightarrow> u64 res"
  bc_NewAssetHolder :: "bytes \<Rightarrow> unit res"
  bc_NewERC20 :: "bytes \<Rightarrow> unit res"
  bc_Deposit :: "bytes \<Rightarrow> 'tx TransactOpts \<Rightarrow> bytes \<Rightarrow> Bal \<Rightarrow> 'tx res"
  bc_IncreaseAllowance :: "bytes \<Rightarrow> 'tx TransactOpts \<Rightarrow> bytes \<Rightarrow> Bal \<Rightarrow> 'tx res"
  bc_mined :: "'tx \<Rightarrow> Receipt res"
  bc_Hash :: "'tx \<Rightarrow> bytes"

definition ETHDepositorGasLimit :: u64 where "ETHDepositorGasLimit = 50000"

definition ERC20DepositorTXGasLimit :: u64 where "ERC20DepositorTXGasLimit = 100000"

definition ETHDepositor_Deposit :: "'tx chain \<Rightarrow> DepositReq \<Rightarrow> (ContractBackend, 'tx list) call" where
  "ETHDepositor_Deposit X req =
     bindS (liftS (with_msg ''binding AssetHolderETH contract at: %x'' (bc_NewAssetHolder X (dr_Asset req)))) (\<lambda>_.
     bindS (msgS ''creating transactor for asset: %x''
       (NewTransactor (bc_tr X) (bc_pendingNonce X) ETHDepositorGasLimit (dr_Account req))) (\<lambda>opts.
     let opts = opts\<lparr>to_Value := dr_Balance req\<rparr> in
     bindS (liftS (with_msg ''AssetHolderETH depositing'' (CheckIsChainNotReachableError
       (bc_Deposit X (dr_Asset req) opts (dr_FundingID req) (dr_Balance req))))) (\<lambda>tx.
     returnS [tx])))"

definition ERC20Depositor_Deposit :: "'tx chain \<Rightarrow> bytes \<Rightarrow> DepositReq \<Rightarrow> (ContractBackend, 'tx list) call" where
  "ERC20Depositor_Deposit X token req =
     bindS (liftS (with_msg ''binding AssetHolderERC20 contract at: %x'' (bc_NewAssetHolder X (dr_Asset req)))) (\<lambda>_.
     bindS (liftS (with_msg ''binding ERC20 contract at: %x'' (bc_NewERC20 X token))) (\<lambda>_.
     bindS (msgS ''creating transactor for asset: %x''
       (NewTransactor (bc_tr X) (bc_pendingNonce X) ERC20DepositorTXGasLimit (dr_Account req))) (\<lambda>opts.
     bindS (liftS (with_msg ''increasing allowance for asset: %x'' (CheckIsChainNotReachableError
       (bc_IncreaseAllowance X token opts (dr_Asset req) (dr_Balance req))))) (\<lambda>tx1.
     bindS (msgS ''creating transactor for asset: %x''
       (NewTransactor (bc_tr X) (bc_pendingNonce X) ERC20DepositorTXGasLimit (dr_Account req))) (\<lambda>opts.
     bindS (liftS (with_msg ''AssetHolderERC20 depositing'' (CheckIsChainNotReachableError
       (bc_Deposit X (dr_Asset req) opts (dr_FundingID req) (dr_Balance req))))) (\<lambda>tx2.
     returnS [tx1, tx2]))))))"

primrec Depositor_Deposit :: "'tx chain \<Rightarrow> Depositor \<Rightarrow> DepositReq \<Rightarrow> (ContractBackend, 'tx list) call" where
  "Depositor_Deposit X ETHDepositor req = ETHDepositor_Deposit X req"
| "Depositor_Deposit X (ERC20Depositor token) req = ERC20Depositor_Deposit X token req"

definition deposit :: "'tx chain \<Rightarrow> Funder \<Rightarrow> Bal \<Rightarrow> bytes \<Rightarrow> bytes \<Rightarrow> (ContractBackend, 'tx list) call" where
  "deposit X f bal asset fundingID = (case fu_depositors f asset of
      None \<Rightarrow> liftS (Err (ErrNew ''could not find Depositor for asset #%d''))
    | Some depositor \<Rightarrow> (case fu_accounts f asset of
          None \<Rightarrow> liftS (Err (ErrNew ''could not find account for asset #%d''))
        | Some acc \<Rightarrow> Depositor_Deposit X depositor (NewDepositReq bal asset acc fundingID)))"

text \<open>\<open>past\<close>: the outcome of subscribing, the amounts of the past deposits and the outcome of reading them.\<close>

definition checkFunded :: "unit res \<times> Bal list \<times> unit res \<Rightarrow> Bal \<Rightarrow> bool res" where
  "checkFunded past amount =
     bindR (with_msg ''subscribing to deposited event'' (fst past)) (\<lambda>_.
     let left = foldl (\<lambda>left eventAmount. left - eventAmount) amount (fst (snd past)) in
     bindR (with_msg ''filtering old Funding events for asset %d'' (snd (snd past))) (\<lambda>_. OK (\<not> left > 0)))"

definition sendFundingTx ::
    "'tx chain \<Rightarrow> Funder \<Rightarrow> (unit res \<times> Bal list \<times> unit res) \<Rightarrow> FundingReq \<Rightarrow> bytes \<Rightarrow> Index \<Rightarrow> bytes \<Rightarrow> (ContractBackend, 'tx list) call" where
  "sendFundingTx X f past req asset assetIndex fundingID =
     bindS (liftS (bindR (index_at (fr_Agreement req) (unat assetIndex)) (\<lambda>row. index_at row (unat (fr_Idx req))))) (\<lambda>bal.
     if bal \<le> 0 then returnS []
     else bindS (liftS (with_msg ''checking funded'' (checkFunded past bal))) (\<lambda>alreadyFunded.
       if alreadyFunded then returnS [] else deposit X f bal asset fundingID))"

lemma foldl_minus: "foldl (-) (a :: int) xs = a - sum_list xs"
  by (induction xs arbitrary: a) simp_all

text \<open>\<open>sendFundingTx\<close> is idempotent: nothing is sent when past deposits reach the agreed balance.\<close>

lemma sendFundingTx_idempotent:
  assumes "unat assetIndex < length (fr_Agreement req)" "unat (fr_Idx req) < length (fr_Agreement req ! unat assetIndex)"
    and "fr_Agreement req ! unat assetIndex ! unat (fr_Idx req) \<le> sum_list events" "past = (OK (), events, OK ())"
  shows "sendFundingTx X f past req asset assetIndex fundingID c = (c, OK [])"
  using assms by (simp add: sendFundingTx_def call_steps checkFunded_def foldl_minus)

text \<open>A deposit sends as many transactions as \<open>NumTX\<close> says.\<close>

lemma Deposit_NumTX:
  "Depositor_Deposit X d req c = (c', OK txs) \<Longrightarrow> length txs = unat (Depositor_NumTX d)"
  by (cases d) (auto simp: ETHDepositor_Deposit_def ERC20Depositor_Deposit_def bindS_OK_iff Let_def returnS_def)

section \<open>Funding a channel\<close>

text \<open>For every asset: the subscription to deposits and what it delivers, and the past deposits to the own
  funding identifier; the timestamp of the latest block; the order in which errors are gathered.\<close>

record fund_env =
  fe_time :: "u64 res"
  fe_sub :: "nat \<Rightarrow> unit res"
  fe_items :: "nat \<Rightarrow> fund_item list"
  fe_past :: "nat \<Rightarrow> unit res \<times> Bal list \<times> unit res"
  fe_order :: "goerr list \<Rightarrow> goerr list"

text \<open>One asset: the own deposit is sent; an error is gathered and the next asset is tried.\<close>

definition sendOrGather :: "'tx list list \<times> goerr list \<Rightarrow> 'tx list res \<Rightarrow> ('tx list list \<times> goerr list) res" where
  "sendOrGather acc sent = (case sent of
      OK tx \<Rightarrow> OK (fst acc @ [tx], snd acc)
    | Err e \<Rightarrow> OK (fst acc @ [[]], snd acc @ [ErrWithMessage ''funding asset'' e])
    | Panic s \<Rightarrow> Panic s)"

definition fundAsset ::
    "'tx chain \<Rightarrow> fund_env \<Rightarrow> Funder \<Rightarrow> FundingReq \<Rightarrow> bytes list \<Rightarrow> nat \<times> asset \<Rightarrow> 'tx list list \<times> goerr list \<Rightarrow>
     (ContractBackend, 'tx list list \<times> goerr list) call" where
  "fundAsset X E f req fundingIDs ia acc =
     bindS (liftS (asEthAsset (snd ia))) (\<lambda>asset.
     bindS (liftS (must ''Invalid AssetHolder ABI definition.'' (bc_NewAssetHolder X asset))) (\<lambda>_.
     bindS (liftS (index_at fundingIDs (unat (fr_Idx req)))) (\<lambda>fundingID c.
     map_prod id (sendOrGather acc) (sendFundingTx X f (fe_past E (fst ia)) req asset (of_nat (fst ia)) fundingID c))))"

definition fundAssets ::
    "secp256k1 \<Rightarrow> abi_ops \<Rightarrow> 'tx chain \<Rightarrow> fund_env \<Rightarrow> Funder \<Rightarrow> FundingReq \<Rightarrow>
     (ContractBackend, bytes list \<times> 'tx list list \<times> goerr list) call" where
  "fundAssets C A X E f req =
     bindS (liftS (deref (fr_State req))) (\<lambda>state.
     bindS (liftS (FundingIDs C A (p_id (fr_Params req)) (p_Parts (fr_Params req)))) (\<lambda>fundingIDs.
     bindS (foldS (fundAsset X E f req fundingIDs) (enumerate 0 (al_Assets (st_Alloc state))) ([], [])) (\<lambda>r.
     returnS (fundingIDs, r))))"

definition confirmFunding :: "'tx chain \<Rightarrow> 'tx \<Rightarrow> unit res" where
  "confirmFunding X tx = with_msg ''sending %dth funding TX for asset %d'' (confirmAs TxFund (bc_Hash X tx) (bc_mined X tx))"

definition IsAssetFundingError :: "goerr \<Rightarrow> bool" where
  "IsAssetFundingError e = (case Cause e of AssetFundingError _ _ \<Rightarrow> True | _ \<Rightarrow> False)"

definition asAssetFundingError :: "goerr \<Rightarrow> (Index \<times> Index list) res" where
  "asAssetFundingError e = (case e of AssetFundingError a ps \<Rightarrow> OK (a, ps) | _ \<Rightarrow> Panic ''interface conversion'')"

text \<open>Errors about peers that have not paid come before other errors.\<close>

definition fundingOutcome :: "goerr list \<Rightarrow> unit res" where
  "fundingOutcome errs =
     bindR (mapR asAssetFundingError (filter IsAssetFundingError errs)) (\<lambda>fundingErrs.
     if length fundingErrs \<noteq> 0 then NewFundingTimeoutError fundingErrs
     else let nonFunding = filter (\<lambda>e. \<not> IsAssetFundingError e) errs in
       err_if (nonFunding \<noteq> []) (AccumulatedError nonFunding))"

definition errors_of :: "unit res list \<Rightarrow> goerr list" where
  "errors_of rs = concat (map (\<lambda>r. case r of Err e \<Rightarrow> [e] | _ \<Rightarrow> []) rs)"

definition panics_of :: "unit res option list \<Rightarrow> string list" where
  "panics_of ws = concat (map (\<lambda>w. case w of Some (Panic s) \<Rightarrow> [s] | _ \<Rightarrow> []) ws)"

text \<open>All goroutines are awaited; a panic in one of them ends the program.\<close>

definition gatherWaits :: "(goerr list \<Rightarrow> goerr list) \<Rightarrow> goerr list \<Rightarrow> unit res option list \<Rightarrow> unit res option" where
  "gatherWaits order sendErrs waits =
     (if panics_of waits \<noteq> [] then Some (Panic (hd (panics_of waits)))
      else if None \<in> set waits then None
      else Some (fundingOutcome (order (sendErrs @ errors_of (map the waits)))))"

definition Fund ::
    "secp256k1 \<Rightarrow> abi_ops \<Rightarrow> 'tx chain \<Rightarrow> fund_env \<Rightarrow> Funder \<Rightarrow> FundingReq \<Rightarrow> (ContractBackend, unit) wcall" where
  "Fund C A X E f req =
     bindW (doneW (with_msg ''creating block timeout''
       (NewBlockTimeoutDuration (fe_time E) (p_ChallengeDuration (fr_Params req))))) (\<lambda>timeout.
     bindW (liftW (fundAssets C A X E f req)) (\<lambda>(fundingIDs, txs, sendErrs).
     bindW (doneW (forEach (confirmFunding X) (concat txs))) (\<lambda>_.
     waitW (gatherWaits (fe_order E) sendErrs (map (\<lambda>a.
       waitForFundingConfirmation (fe_sub E a) req (of_nat a) fundingIDs (fe_items E a)) [0..<length txs])))))"

section \<open>What funding returns\<close>

lemma FundingIDs_length: "FundingIDs C A i ps = OK ids \<Longrightarrow> length ids = length ps"
  by (auto simp: FundingIDs_def mapR_OK_iff dest: list_all2_lengthD)

lemma sendOrGather_length: "sendOrGather acc r = OK acc' \<Longrightarrow> length (fst acc') = Suc (length (fst acc))"
  by (auto simp: sendOrGather_def split: res.splits)

lemma fundAsset_length:
  "fundAsset X E f req ids ia acc c = (c', OK acc') \<Longrightarrow> length (fst acc') = Suc (length (fst acc))"
  by (auto simp: fundAsset_def bindS_OK_iff map_prod_def split_beta dest: sendOrGather_length)

lemma fundAssets_length:
  assumes "fundAssets C A X E f req c = (c', OK (ids, txs, errs))" "fr_State req = Some s"
  shows "length txs = length (al_Assets (st_Alloc s))" "length ids = length (p_Parts (fr_Params req))"
proof -
  have fold: "foldS (fundAsset X E f req ids) xs acc c1 = (c2, OK acc') \<Longrightarrow>
      length (fst acc') = length (fst acc) + length xs" for xs acc c1 c2 acc'
  proof (induction xs arbitrary: acc c1)
    case (Cons x xs)
    from Cons.prems obtain c3 acc1 where "fundAsset X E f req ids x acc c1 = (c3, OK acc1)"
      "foldS (fundAsset X E f req ids) xs acc1 c3 = (c2, OK acc')"
      by (auto simp: bindS_OK_iff)
    then show ?case
      using Cons.IH [of acc1 c3] fundAsset_length [of X E f req ids x acc c1] by simp
  qed (simp add: returnS_def)
  from assms obtain c2 where "FundingIDs C A (p_id (fr_Params req)) (p_Parts (fr_Params req)) = OK ids"
    "foldS (fundAsset X E f req ids) (enumerate 0 (al_Assets (st_Alloc s))) ([], []) c = (c2, OK (txs, errs))"
    by (auto simp: fundAssets_def bindS_OK_iff liftS_def returnS_def)
  then show "length txs = length (al_Assets (st_Alloc s))" "length ids = length (p_Parts (fr_Params req))"
    using fold [of "enumerate 0 (al_Assets (st_Alloc s))" "([], [])" c c2 "(txs, errs)"] FundingIDs_length by auto
qed

text \<open>An agreement: a row of non-negative balances for every asset, one for each participant.\<close>

definition agreement_ok :: "FundingReq \<Rightarrow> nat \<Rightarrow> bool" where
  "agreement_ok req n \<longleftrightarrow> length (fr_Agreement req) = n \<and> n < 2 ^ 16 \<and>
     (\<forall>row \<in> set (fr_Agreement req). length row = length (p_Parts (fr_Params req)) \<and> (\<forall>b \<in> set row. 0 \<le> b))"

text \<open>The deposits \<open>ds\<close> are seen before the context ends.\<close>

definition sees :: "fund_env \<Rightarrow> bytes list \<Rightarrow> nat \<Rightarrow> (nat \<Rightarrow> (bytes \<times> Bal) list) \<Rightarrow> bool" where
  "sees E ids n ds \<longleftrightarrow> (\<forall>a < n. fe_sub E a = OK () \<and> list_all (own_id ids) (ds a) \<and>
     (\<exists>rest. fe_items E a = deposits (ds a) @ FundCtx # rest))"

lemma wait_asset:
  assumes "agreement_ok req n" "a < n" "sees E ids n ds" "distinct ids" "length ids = length (p_Parts (fr_Params req))"
  defines "u \<equiv> unfunded ids (fr_Agreement req ! a) (ds a)"
  shows "waitForFundingConfirmation (fe_sub E a) req (of_nat a) ids (fe_items E a) =
     Some (err_if (u \<noteq> []) (AssetFundingError (of_nat a) u))"
proof -
  have a: "unat (of_nat a :: Index) = a"
    using assms(1,2) by (simp add: agreement_ok_def unat_of_nat)
  have row: "length (fr_Agreement req ! a) = length ids" "\<forall>b \<in> set (fr_Agreement req ! a). 0 \<le> b"
    using assms(1,2,5) nth_mem [of a "fr_Agreement req"] by (auto simp: agreement_ok_def)
  obtain rest where e: "fe_sub E a = OK ()" "list_all (own_id ids) (ds a)" "fe_items E a = deposits (ds a) @ FundCtx # rest"
    using assms(2,3) by (auto simp: sees_def)
  have "int (length (p_Parts (fr_Params req))) - int (countZeroBalances (fr_Agreement req ! a)) = nonzero (fr_Agreement req ! a)"
    using countZeroBalances_length [of "fr_Agreement req ! a"] row(1) assms(5) by (simp add: nonzero_def)
  then show ?thesis
    using waitDeposits_result(1) [OF assms(4) row e(2)] assms(1,2) a
    by (simp add: waitForFundingConfirmation_def e(1,3) Balances_Clone_def agreement_ok_def u_def)
qed

lemma fundingOutcome_timeouts:
  assumes "mset L = mset (map (\<lambda>(a, ps). AssetFundingError a ps) us)"
  shows "\<exists>es. mset es = mset us \<and> fundingOutcome L = err_if (es \<noteq> []) (FundingTimeoutError es)"
proof -
  define g where "g = (\<lambda>e. case e of AssetFundingError a ps \<Rightarrow> (a, ps))"
  have L: "\<exists>a ps. e = AssetFundingError a ps" if "e \<in> set L" for e
    using that assms [THEN mset_eq_setD] by auto
  then have "filter IsAssetFundingError L = L" "filter (\<lambda>e. \<not> IsAssetFundingError e) L = []"
    by (auto simp: filter_id_conv filter_empty_conv IsAssetFundingError_def split: goerr.splits) force+
  moreover have "mapR asAssetFundingError L = OK (map g L)"
    using L by (intro mapR_total) (force simp: asAssetFundingError_def g_def)
  moreover have "mset (map g L) = mset us"
  proof -
    have "mset (map g L) = image_mset g (mset (map (\<lambda>(a, ps). AssetFundingError a ps) us))"
      by (simp add: assms)
    also have "\<dots> = mset us"
      by (simp add: multiset.map_comp comp_def g_def case_prod_beta')
    finally show ?thesis .
  qed
  ultimately show ?thesis
    by (intro exI [of _ "map g L"]) (auto simp: fundingOutcome_def NewFundingTimeoutError_def Let_def)
qed

lemma errors_of_waits:
  "errors_of (map (\<lambda>a. err_if (u a \<noteq> []) (AssetFundingError (of_nat a) (u a))) xs) =
     map (\<lambda>(a, ps). AssetFundingError a ps) (filter (\<lambda>(_, ps). ps \<noteq> []) (map (\<lambda>a. (of_nat a, u a)) xs))"
  by (induction xs) (auto simp: errors_of_def err_if_def)

lemma Fund_result:
  assumes "fundAssets C A X E f req c = (c', OK (ids, txs, []))" "fr_State req = Some s"
    and "fe_time E = OK time" "\<forall>tx \<in> set (concat txs). confirmAs TxFund (bc_Hash X tx) (bc_mined X tx) = OK ()"
    and "agreement_ok req (length (al_Assets (st_Alloc s)))" "sees E ids (length (al_Assets (st_Alloc s))) ds"
    and "distinct ids" "\<And>es. mset (fe_order E es) = mset es"
  defines "us \<equiv> filter (\<lambda>(_, ps). ps \<noteq> [])
     (map (\<lambda>a. (of_nat a, unfunded ids (fr_Agreement req ! a) (ds a))) [0..<length (al_Assets (st_Alloc s))])"
  shows "\<exists>es. mset es = mset us \<and> Fund C A X E f req c = (c', Some (err_if (es \<noteq> []) (FundingTimeoutError es)))"
proof -
  note len = fundAssets_length [OF assms(1,2)]
  let ?u = "\<lambda>a. unfunded ids (fr_Agreement req ! a) (ds a)"
  let ?ws = "map (\<lambda>a. Some (err_if (?u a \<noteq> []) (AssetFundingError (of_nat a) (?u a)))) [0..<length txs]"
  have waits: "map (\<lambda>a. waitForFundingConfirmation (fe_sub E a) req (of_nat a) ids (fe_items E a)) [0..<length txs] = ?ws"
    using assms(5-7) len by (auto intro!: wait_asset)
  have "forEach (confirmFunding X) (concat txs) = OK ()"
    using assms(4) by (simp add: forEach_OK_iff confirmFunding_def)
  then have "Fund C A X E f req c = (c', gatherWaits (fe_order E) [] ?ws)"
    by (simp add: Fund_def bindW_def waitW_def liftW_def assms(1,3) NewBlockTimeoutDuration_def waits)
  moreover have "panics_of ?ws = []"
    by (auto simp: panics_of_def err_if_def)
  moreover have "errors_of (map the ?ws) = map (\<lambda>(a, ps). AssetFundingError a ps) us"
    using errors_of_waits [of ?u "[0..<length txs]"] by (simp add: us_def len(1) comp_def)
  ultimately show ?thesis
    using fundingOutcome_timeouts [of "fe_order E (map (\<lambda>(a, ps). AssetFundingError a ps) us)" us] assms(8)
    by (auto simp: gatherWaits_def)
qed

end
