(* ===== verification/Perun_EthAdjudicator.thy ===== *)
theory Perun_EthAdjudicator
  imports Perun_EthFunder
begin

text \<open>
  The adjudicator on Ethereum: \<open>backend/ethereum/channel/{adjudicator, register, conclude, withdraw}.go\<close>.

  The methods of the adjudicator and asset holder contracts are fields of the record \<open>adjudicator\<close>.  What
  is received while waiting for events is a list of items, as in \<open>Perun_EthChain\<close>.

  Shown here: \<open>ensureConcluded\<close> returns without error only after a \<open>Concluded\<close> event was seen, and returns
  when one arrives; a withdrawal returns without error only when every asset with an own balance was
  withdrawn, with an authorisation for that balance that the participant signed; the states of the
  sub-channels are passed to the contract in the order in which a tree of channels is walked through.
\<close>

section \<open>Calling the adjudicator\<close>

record AdjudicatorSignedState =
  as_Params :: ChannelParams
  as_State :: ChannelState
  as_Sigs :: "sig list"

record AssetHolderWithdrawalAuth =
  wa_ChannelID :: ID
  wa_Participant :: bytes
  wa_Receiver :: bytes
  wa_Amount :: Bal

text \<open>\<open>ea_lock\<close> is the outcome of acquiring the lock for transactions.\<close>

record 'tx adjudicator =
  ea_chain :: "'tx chain"
  ea_lock :: "unit res"
  ea_txSender :: address
  ea_Receiver :: bytes
  ea_Register :: "'tx TransactOpts \<Rightarrow> AdjudicatorSignedState \<Rightarrow> AdjudicatorSignedState list \<Rightarrow> 'tx res"
  ea_Progress :: "'tx TransactOpts \<Rightarrow> ChannelParams \<Rightarrow> ChannelState \<Rightarrow> ChannelState \<Rightarrow> int \<Rightarrow> sig \<Rightarrow> 'tx res"
  ea_Conclude :: "'tx TransactOpts \<Rightarrow> ChannelParams \<Rightarrow> ChannelState \<Rightarrow> ChannelState list \<Rightarrow> 'tx res"
  ea_ConcludeFinal :: "'tx TransactOpts \<Rightarrow> ChannelParams \<Rightarrow> ChannelState \<Rightarrow> sig list \<Rightarrow> 'tx res"
  ea_Withdraw :: "bytes \<Rightarrow> 'tx TransactOpts \<Rightarrow> AssetHolderWithdrawalAuth \<Rightarrow> sig \<Rightarrow> 'tx res"

type_synonym 'tx adjFunc = "'tx TransactOpts \<Rightarrow> ChannelParams \<Rightarrow> ChannelState \<Rightarrow> sig list \<Rightarrow> 'tx res"

definition adj_call :: "'tx adjudicator \<Rightarrow> AdjudicatorReq \<Rightarrow> 'tx adjFunc \<Rightarrow> OnChainTxType \<Rightarrow> (ContractBackend, unit) call" where
  "adj_call a req fn txType =
     bindS (liftS (ToEthParams (ar_Params req))) (\<lambda>ethParams.
     bindS (liftS (bindR (deref (tx_State (ar_Tx req))) ToEthState)) (\<lambda>ethState.
     bindS (bindS (liftS (with_msg ''context canceled while acquiring tx lock'' (ea_lock a))) (\<lambda>_.
       bindS (msgS ''creating transactor''
         (NewTransactor (bc_tr (ea_chain a)) (bc_pendingNonce (ea_chain a)) GasLimit (ea_txSender a))) (\<lambda>trans.
       liftS (with_msg ''calling adjudicator function''
         (CheckIsChainNotReachableError (fn trans ethParams ethState (tx_Sigs (ar_Tx req)))))))) (\<lambda>tx.
     liftS (with_msg ''mining transaction''
       (confirmAs txType (bc_Hash (ea_chain a) tx) (bc_mined (ea_chain a) tx))))))"

definition eth_Progress :: "'tx adjudicator \<Rightarrow> ProgressReq \<Rightarrow> (ContractBackend, unit) call" where
  "eth_Progress a req =
     bindS (liftS (ToEthState (pr_NewState req))) (\<lambda>ethNewState.
     adj_call a (AdjudicatorReq.truncate req) (\<lambda>opts params state _.
       ea_Progress a opts params state ethNewState (uint (ar_Idx req)) (pr_Sig req)) TxProgress)"

definition toEthSignedStates :: "SignedState list \<Rightarrow> AdjudicatorSignedState list res" where
  "toEthSignedStates subChannels = mapR (\<lambda>x.
     bindR (ToEthParams (ss_Params x)) (\<lambda>params.
     bindR (ToEthState (ss_State x)) (\<lambda>state.
     OK \<lparr>as_Params = params, as_State = state, as_Sigs = ss_Sigs x\<rparr>))) subChannels"

definition callRegister :: "'tx adjudicator \<Rightarrow> AdjudicatorReq \<Rightarrow> SignedState list \<Rightarrow> (ContractBackend, unit) call" where
  "callRegister a req subChannels = adj_call a req (\<lambda>opts params state sigs.
     bindR (toEthSignedStates subChannels) (\<lambda>sub.
     ea_Register a opts \<lparr>as_Params = params, as_State = state, as_Sigs = sigs\<rparr> sub)) TxRegister"

text \<open>The recursion follows the locked funds; \<open>n\<close> bounds its depth.\<close>

primrec toEthSubStates :: "nat \<Rightarrow> State \<Rightarrow> (ID \<times> State) list \<Rightarrow> ChannelState list res" where
  "toEthSubStates 0 state subStates = Panic ''stack overflow''"
| "toEthSubStates (Suc n) state subStates = foldR (\<lambda>subAlloc ethSubStates. case map_of subStates (sa_ID subAlloc) of
      None \<Rightarrow> Panic ''sub-state not found''
    | Some subState \<Rightarrow> bindR (ToEthState subState) (\<lambda>s.
        if length (al_Locked (st_Alloc subState)) > 0
        then bindR (toEthSubStates n subState subStates) (\<lambda>subSubStates. OK (ethSubStates @ [s] @ subSubStates))
        else OK (ethSubStates @ [s]))) (al_Locked (st_Alloc state)) []"

definition callConclude :: "'tx adjudicator \<Rightarrow> nat \<Rightarrow> AdjudicatorReq \<Rightarrow> (ID \<times> State) list \<Rightarrow> (ContractBackend, unit) call" where
  "callConclude a n req subStates =
     bindS (liftS (bindR (deref (tx_State (ar_Tx req))) (\<lambda>s. toEthSubStates n s subStates))) (\<lambda>ethSubStates.
     adj_call a req (\<lambda>opts params state _. ea_Conclude a opts params state ethSubStates) TxConclude)"

definition callConcludeFinal :: "'tx adjudicator \<Rightarrow> AdjudicatorReq \<Rightarrow> (ContractBackend, unit) call" where
  "callConcludeFinal a req = adj_call a req (ea_ConcludeFinal a) TxConcludeFinal"

section \<open>Concluding\<close>

definition phaseDispute :: nat where "phaseDispute = 0"
definition phaseForceExec :: nat where "phaseForceExec = 1"
definition phaseConcluded :: nat where "phaseConcluded = 2"

definition secondaryWaitBlocks :: nat where "secondaryWaitBlocks = 2"

text \<open>What is received while waiting for the other participant: a block, an update of the channel, the end
  of the context, the end of the header subscription.\<close>

datatype block_item = BlockHead | BlockUpdate nat | BlockCtx goerr | BlockErr "goerr option"

fun waitBlocks :: "nat \<Rightarrow> block_item list \<Rightarrow> bool res option" where
  "waitBlocks 0 is = Some (OK False)"
| "waitBlocks (Suc n) [] = None"
| "waitBlocks (Suc n) (BlockHead # is) = waitBlocks n is"
| "waitBlocks (Suc n) (BlockUpdate phase # is) = (if phase = phaseConcluded then Some (OK True) else waitBlocks n is)"
| "waitBlocks (Suc n) (BlockCtx e # is) = Some (Err (ErrWithMessage ''context cancelled'' e))"
| "waitBlocks (Suc n) (BlockErr None # is) = Some (OK False)"
| "waitBlocks (Suc n) (BlockErr (Some e) # is) =
     Some (with_msg ''header subscription error'' (CheckIsChainNotReachableError (Err e)))"

definition waitConcludedForNBlocks :: "unit res \<Rightarrow> block_item list \<Rightarrow> nat \<Rightarrow> bool res option" where
  "waitConcludedForNBlocks subscribed is numBlocks =
     (case with_msg ''subscribing to new blocks'' (CheckIsChainNotReachableError subscribed) of
        OK _ \<Rightarrow> waitBlocks numBlocks is
      | Err e \<Rightarrow> Some (Err e)
      | Panic s \<Rightarrow> Some (Panic s))"

text \<open>The phases of the past updates, and the outcome of reading them.\<close>

definition isConcluded :: "nat list \<times> unit res \<Rightarrow> bool res" where
  "isConcluded past =
     (if phaseConcluded \<in> set (fst past) then OK True
      else bindR (with_msg ''reading past events'' (snd past)) (\<lambda>_. OK False))"

datatype concl_item = ConclUpdate nat | ConclCtx goerr | ConclSubErr "goerr option"

primrec waitConcluded :: "concl_item list \<Rightarrow> unit res option" where
  "waitConcluded [] = None"
| "waitConcluded (i # is) = (case i of
      ConclUpdate phase \<Rightarrow> if phase = phaseConcluded then Some (OK ()) else waitConcluded is
    | ConclCtx e \<Rightarrow> Some (Err (ErrWithMessage ''context cancelled'' e))
    | ConclSubErr (Some e) \<Rightarrow> Some (Err (ErrWithMessage ''subscription error'' e))
    | ConclSubErr None \<Rightarrow> Some (Err (ErrNew ''subscription closed'')))"

record concl_env =
  ce_sub :: "unit res"
  ce_past :: "nat list \<times> unit res"
  ce_headSub :: "unit res"
  ce_blocks :: "block_item list"
  ce_items :: "concl_item list"

text \<open>A reverted transaction is not an error yet: the other participant may have concluded.\<close>

definition tolerateFailed :: "('s, unit) call \<Rightarrow> ('s, unit) call" where
  "tolerateFailed c s = (case c s of
      (s', Err e) \<Rightarrow> (s', if IsErrTxFailed e then OK () else Err e)
    | r \<Rightarrow> r)"

definition ensureConcluded ::
    "'tx adjudicator \<Rightarrow> concl_env \<Rightarrow> nat \<Rightarrow> AdjudicatorReq \<Rightarrow> (ID \<times> State) list \<Rightarrow> (ContractBackend, unit) wcall" where
  "ensureConcluded a E n req subStates =
     bindW (doneW (with_msg ''subscribing'' (ce_sub E))) (\<lambda>_.
     bindW (doneW (with_msg ''isConcluded'' (isConcluded (ce_past E)))) (\<lambda>concluded.
     if concluded then doneW (OK ()) else
     bindW (doneW (deref (tx_State (ar_Tx req)))) (\<lambda>state.
     bindW (if st_IsFinal state \<and> ar_Secondary req
            then waitW (waitConcludedForNBlocks (ce_headSub E) (ce_blocks E) secondaryWaitBlocks)
            else doneW (OK False)) (\<lambda>concluded.
     if concluded then doneW (OK ()) else
     bindW (liftW (tolerateFailed (if st_IsFinal state
              then msgS ''calling concludeFinal'' (callConcludeFinal a req)
              else msgS ''calling conclude'' (callConclude a n req subStates)))) (\<lambda>_.
     waitW (waitConcluded (ce_items E)))))))"

section \<open>Registering\<close>

definition registerFinal :: "'tx adjudicator \<Rightarrow> concl_env \<Rightarrow> nat \<Rightarrow> AdjudicatorReq \<Rightarrow> (ContractBackend, unit) wcall" where
  "registerFinal a E n req = msgW ''ensuring Concluded'' (ensureConcluded a E n req [])"

definition registerNonFinal :: "'tx adjudicator \<Rightarrow> AdjudicatorReq \<Rightarrow> SignedState list \<Rightarrow> (ContractBackend, unit) wcall" where
  "registerNonFinal a req subChannels = msgW ''calling register'' (liftW (callRegister a req subChannels))"

definition eth_Register ::
    "'tx adjudicator \<Rightarrow> concl_env \<Rightarrow> nat \<Rightarrow> AdjudicatorReq \<Rightarrow> SignedState list \<Rightarrow> (ContractBackend, unit) wcall" where
  "eth_Register a E n req subChannels =
     bindW (doneW (deref (tx_State (ar_Tx req)))) (\<lambda>state.
     if st_IsFinal state then registerFinal a E n req else registerNonFinal a req subChannels)"

section \<open>Withdrawing\<close>

definition encodeAssetHolderWithdrawalAuth :: "abi_ops \<Rightarrow> AssetHolderWithdrawalAuth \<Rightarrow> bytes res" where
  "encodeAssetHolderWithdrawalAuth A auth =
     abi_PackWithdrawalAuth A (wa_ChannelID auth) (wa_Participant auth) (wa_Receiver auth) (wa_Amount auth)"

definition newWithdrawalAuth ::
    "abi_ops \<Rightarrow> (account \<Rightarrow> bytes \<Rightarrow> sig res) \<Rightarrow> bytes \<Rightarrow> AdjudicatorReq \<Rightarrow> nat \<Rightarrow> (AssetHolderWithdrawalAuth \<times> sig) res" where
  "newWithdrawalAuth A signData receiver req assetIndex =
     bindR (AsEthAddr (ar_Acc req)) (\<lambda>participant.
     bindR (deref (tx_State (ar_Tx req))) (\<lambda>state.
     bindR (index_at (al_Balances (st_Alloc state)) assetIndex) (\<lambda>row.
     bindR (index_at row (unat (ar_Idx req))) (\<lambda>amount.
     let auth = \<lparr>wa_ChannelID = p_id (ar_Params req), wa_Participant = participant, wa_Receiver = receiver,
                 wa_Amount = amount\<rparr> in
     bindR (with_msg ''encoding withdrawal auth'' (encodeAssetHolderWithdrawalAuth A auth)) (\<lambda>enc.
     bindR (with_msg ''sign data'' (signData (ar_Acc req) enc)) (\<lambda>sig.
     OK (auth, sig)))))))"

definition callAssetWithdraw ::
    "abi_ops \<Rightarrow> (account \<Rightarrow> bytes \<Rightarrow> sig res) \<Rightarrow> 'tx adjudicator \<Rightarrow> AdjudicatorReq \<Rightarrow> nat \<Rightarrow> bytes \<Rightarrow> (ContractBackend, unit) call" where
  "callAssetWithdraw A signData a req assetIndex asset =
     bindS (liftS (with_msg ''creating withdrawal auth'' (newWithdrawalAuth A signData (ea_Receiver a) req assetIndex))) (\<lambda>(auth, sig).
     bindS (bindS (liftS (with_msg ''context canceled while acquiring tx lock'' (ea_lock a))) (\<lambda>_.
       bindS (msgS ''creating transactor for asset %d''
         (NewTransactor (bc_tr (ea_chain a)) (bc_pendingNonce (ea_chain a)) GasLimit (ea_txSender a))) (\<lambda>trans.
       liftS (with_msg ''withdrawing asset %d'' (CheckIsChainNotReachableError (ea_Withdraw a asset trans auth sig)))))) (\<lambda>tx.
     liftS (with_msg ''mining transaction''
       (confirmAs TxWithdraw (bc_Hash (ea_chain a) tx) (bc_mined (ea_chain a) tx)))))"

text \<open>What is received after the withdrawal was sent.\<close>

datatype withdraw_item = WithdrawnEvent | WithdrawCtx goerr | WithdrawSubErr "goerr option"

definition waitWithdrawn :: "withdraw_item list \<Rightarrow> unit res option" where
  "waitWithdrawn is = (case is of
      [] \<Rightarrow> None
    | WithdrawnEvent # _ \<Rightarrow> Some (OK ())
    | WithdrawCtx e # _ \<Rightarrow> Some (Err (ErrWithMessage ''context cancelled'' e))
    | WithdrawSubErr (Some e) # _ \<Rightarrow> Some (Err (ErrWithMessage ''subscription error'' e))
    | WithdrawSubErr None # _ \<Rightarrow> Some (Err (ErrNew ''subscription closed'')))"

text \<open>For every asset: the subscription, the number of past events and the outcome of reading them, and
  what is received then; \<open>wv_first\<close> says which error is the first one.\<close>

record withdraw_env =
  wv_sub :: "nat \<Rightarrow> unit res"
  wv_past :: "nat \<Rightarrow> nat \<times> unit res"
  wv_items :: "nat \<Rightarrow> withdraw_item list"
  wv_first :: "goerr list \<Rightarrow> goerr"

definition withdrawAsset ::
    "secp256k1 \<Rightarrow> abi_ops \<Rightarrow> (account \<Rightarrow> bytes \<Rightarrow> sig res) \<Rightarrow> 'tx adjudicator \<Rightarrow> withdraw_env \<Rightarrow> AdjudicatorReq \<Rightarrow>
     nat \<Rightarrow> asset \<Rightarrow> (ContractBackend, unit) wcall" where
  "withdrawAsset C A signData a E req index asset =
     bindW (doneW (asEthAsset asset)) (\<lambda>addr.
     bindW (doneW (bindR (index_at (p_Parts (ar_Params req)) (unat (ar_Idx req))) (\<lambda>part.
       FundingIDs C A (p_id (ar_Params req)) [part]))) (\<lambda>_.
     bindW (doneW (with_msg ''subscribing'' (wv_sub E index))) (\<lambda>_.
     bindW (doneW (with_msg ''reading past events'' (snd (wv_past E index)))) (\<lambda>_.
     if fst (wv_past E index) > 0 then doneW (OK ()) else
     bindW (liftW (msgS ''withdrawing assets failed'' (callAssetWithdraw A signData a req index addr))) (\<lambda>_.
     waitW (waitWithdrawn (wv_items E index)))))))"

text \<open>The goroutines of an error group: all are awaited and the first error is returned.  The transactions
  are sent one at a time; the model takes them in the order of the assets.\<close>

primrec runAll :: "('s, unit) wcall list \<Rightarrow> 's \<Rightarrow> 's \<times> unit res option list" where
  "runAll [] s = (s, [])"
| "runAll (c # cs) s = (case c s of (s', r) \<Rightarrow> (case runAll cs s' of (s'', rs) \<Rightarrow> (s'', r # rs)))"

definition errgroup_Wait :: "(goerr list \<Rightarrow> goerr) \<Rightarrow> unit res option list \<Rightarrow> unit res option" where
  "errgroup_Wait first rs =
     (if panics_of rs \<noteq> [] then Some (Panic (hd (panics_of rs)))
      else if None \<in> set rs then None
      else let errs = errors_of (map the rs) in Some (err_if (errs \<noteq> []) (first errs)))"

text \<open>The assets whose own balance is not zero.\<close>

definition ownBalance :: "State \<Rightarrow> Index \<Rightarrow> nat \<Rightarrow> Bal res" where
  "ownBalance state idx index =
     bindR (index_at (al_Balances (st_Alloc state)) index) (\<lambda>row. index_at row (unat idx))"

definition ensureWithdrawn ::
    "secp256k1 \<Rightarrow> abi_ops \<Rightarrow> (account \<Rightarrow> bytes \<Rightarrow> sig res) \<Rightarrow> 'tx adjudicator \<Rightarrow> withdraw_env \<Rightarrow> AdjudicatorReq \<Rightarrow> (ContractBackend, unit) wcall" where
  "ensureWithdrawn C A signData a E req =
     bindW (doneW (deref (tx_State (ar_Tx req)))) (\<lambda>state.
     bindW (doneW (mapR (\<lambda>(index, asset). bindR (ownBalance state (ar_Idx req) index) (\<lambda>bal. OK (index, asset, bal)))
       (enumerate 0 (al_Assets (st_Alloc state))))) (\<lambda>assets. (\<lambda>c.
     map_prod id (errgroup_Wait (wv_first E))
       (runAll (map (\<lambda>(index, asset, _). withdrawAsset C A signData a E req index asset)
         (filter (\<lambda>(_, _, bal). bal \<noteq> 0) assets)) c))))"

definition eth_Withdraw ::
    "secp256k1 \<Rightarrow> abi_ops \<Rightarrow> (account \<Rightarrow> bytes \<Rightarrow> sig res) \<Rightarrow> 'tx adjudicator \<Rightarrow> concl_env \<Rightarrow> withdraw_env \<Rightarrow> nat \<Rightarrow>
     AdjudicatorReq \<Rightarrow> (ID \<times> State) list \<Rightarrow> (ContractBackend, unit) wcall" where
  "eth_Withdraw C A signData a E W n req subStates =
     bindW (msgW ''ensure Concluded'' (ensureConcluded a E n req subStates)) (\<lambda>_.
     msgW ''ensure Withdrawn'' (ensureWithdrawn C A signData a W req))"

section \<open>Concluded means that it was seen\<close>

definition saw_concluded :: "concl_env \<Rightarrow> bool" where
  "saw_concluded E \<longleftrightarrow> phaseConcluded \<in> set (fst (ce_past E)) \<or> BlockUpdate phaseConcluded \<in> set (ce_blocks E) \<or>
     ConclUpdate phaseConcluded \<in> set (ce_items E)"

lemma waitBlocks_True: "waitBlocks n is = Some (OK True) \<Longrightarrow> BlockUpdate phaseConcluded \<in> set is"
  by (induction n "is" rule: waitBlocks.induct) (auto split: if_splits)

lemma waitConcluded_OK: "waitConcluded is = Some (OK u) \<Longrightarrow> ConclUpdate phaseConcluded \<in> set is"
  by (induction "is") (auto split: concl_item.splits option.splits if_splits)

lemma ensureConcluded_seen:
  assumes "ensureConcluded a E n req subStates c = (c', Some (OK ()))"
  shows "saw_concluded E"
  using assms
  by (auto simp: ensureConcluded_def bindW_OK_iff isConcluded_def saw_concluded_def waitConcludedForNBlocks_def
      res_simps dest!: waitBlocks_True waitConcluded_OK split: if_splits res.splits)

text \<open>When a \<open>Concluded\<close> event arrives before anything else ends the wait, \<open>ensureConcluded\<close> returns nil,
  even if the own transaction was reverted.\<close>

lemma waitConcluded_returns:
  "\<forall>p \<in> set ps. p \<noteq> phaseConcluded \<Longrightarrow> waitConcluded (map ConclUpdate ps @ ConclUpdate phaseConcluded # is) = Some (OK ())"
  by (induction ps) auto

lemma ensureConcluded_returns:
  assumes "tx_State (ar_Tx req) = Some s" "\<not> st_IsFinal s" "ce_sub E = OK ()" "snd (ce_past E) = OK ()"
    and "callConclude a n req subStates c = (c', r)" "r = OK () \<or> (\<exists>e. r = Err e \<and> IsErrTxFailed e)"
    and "ce_items E = map ConclUpdate ps @ ConclUpdate phaseConcluded # rest" "\<forall>p \<in> set ps. p \<noteq> phaseConcluded"
  shows "\<exists>c'. ensureConcluded a E n req subStates c = (c', Some (OK ()))"
proof (cases "phaseConcluded \<in> set (fst (ce_past E))")
  case True
  then show ?thesis
    by (simp add: ensureConcluded_def bindW_def waitW_def assms(3) isConcluded_def)
next
  case False
  have "tolerateFailed (msgS ''calling conclude'' (callConclude a n req subStates)) c = (c', OK ())"
    using assms(5,6) by (auto simp: tolerateFailed_def msgS_def IsErrTxFailed_def)
  with False show ?thesis
    using assms(1-4) waitConcluded_returns [OF assms(8), of rest]
    by (simp add: ensureConcluded_def bindW_def waitW_def liftW_def isConcluded_def assms(7))
qed

text \<open>The wait for the other participant counts updates in other phases as blocks: it may end before a
  block has passed.\<close>

lemma updates_count_as_blocks:
  "p \<noteq> phaseConcluded \<Longrightarrow> q \<noteq> phaseConcluded \<Longrightarrow>
     waitConcludedForNBlocks (OK ()) [BlockUpdate p, BlockUpdate q] secondaryWaitBlocks = Some (OK False)"
  by (simp add: waitConcludedForNBlocks_def secondaryWaitBlocks_def numeral_2_eq_2)

section \<open>Withdrawn means that everything was withdrawn\<close>

definition saw_withdrawn :: "withdraw_env \<Rightarrow> nat \<Rightarrow> bool" where
  "saw_withdrawn E i \<longleftrightarrow> fst (wv_past E i) > 0 \<or> WithdrawnEvent \<in> set (wv_items E i)"

lemma waitWithdrawn_OK: "waitWithdrawn is = Some (OK u) \<Longrightarrow> WithdrawnEvent \<in> set is"
  by (auto simp: waitWithdrawn_def split: list.splits withdraw_item.splits option.splits)

lemma withdrawAsset_seen:
  "withdrawAsset C A sd a E req i asset c = (c', Some (OK ())) \<Longrightarrow> saw_withdrawn E i"
  by (auto simp: withdrawAsset_def bindW_OK_iff saw_withdrawn_def dest!: waitWithdrawn_OK split: if_splits)

lemma runAll_OK:
  assumes "runAll cs s = (s', rs)" "errgroup_Wait first rs = Some (OK ())"
  shows "\<forall>c \<in> set cs. \<exists>s1 s2. c s1 = (s2, Some (OK ()))"
proof -
  have g: "panics_of rs = []" "None \<notin> set rs" "errors_of (map the rs) = []"
    using assms(2) by (auto simp: errgroup_Wait_def Let_def split: if_splits)
  have all: "r = Some (OK ())" if r: "r \<in> set rs" for r
  proof -
    obtain x where x: "r = Some x"
      using g(2) r by (cases r) auto
    moreover have "x \<noteq> Panic p" "x \<noteq> Err e" for p e
      using g(1,3) r x by (force simp: panics_of_def errors_of_def)+
    ultimately show ?thesis
      by (cases x) auto
  qed
  show ?thesis
    using assms(1) all
  proof (induction cs arbitrary: s rs)
    case (Cons c cs)
    obtain s1 r where c: "c s = (s1, r)"
      by fastforce
    obtain s2 rs' where rs': "runAll cs s1 = (s2, rs')"
      by fastforce
    have "rs = r # rs'"
      using Cons.prems(1) by (simp add: c rs')
    with Cons.prems(2) c have c': "c s = (s1, Some (OK ()))" and rs: "\<forall>r \<in> set rs'. r = Some (OK ())"
      by auto
    have "runAll cs s1 = (s', rs')"
      using Cons.prems(1) by (simp add: c rs')
    with Cons.IH [of s1 rs'] rs have "\<forall>c \<in> set cs. \<exists>s1 s2. c s1 = (s2, Some (OK ()))"
      by blast
    with c' show ?case
      by auto
  qed simp
qed

lemma ensureWithdrawn_seen:
  assumes "ensureWithdrawn C A sd a E req c = (c', Some (OK ()))" "tx_State (ar_Tx req) = Some s"
    and "i < length (al_Assets (st_Alloc s))"
  shows "\<exists>bal. ownBalance s (ar_Idx req) i = OK bal \<and> (bal \<noteq> 0 \<longrightarrow> saw_withdrawn E i)"
proof -
  let ?f = "\<lambda>(index, asset). bindR (ownBalance s (ar_Idx req) index) (\<lambda>bal. OK (index, asset, bal))"
  from assms(1,2) obtain assets where
    as: "mapR ?f (enumerate 0 (al_Assets (st_Alloc s))) = OK assets"
    and run: "map_prod id (errgroup_Wait (wv_first E)) (runAll (map (\<lambda>(index, asset, _).
        withdrawAsset C A sd a E req index asset) (filter (\<lambda>(_, _, bal). bal \<noteq> 0) assets)) c) = (c', Some (OK ()))"
    by (auto simp: ensureWithdrawn_def bindW_OK_iff)
  have len: "length assets = length (al_Assets (st_Alloc s))"
    using as by (auto simp: mapR_OK_iff dest: list_all2_lengthD)
  have "?f (enumerate 0 (al_Assets (st_Alloc s)) ! i) = OK (assets ! i)"
    using as assms(3) by (simp add: mapR_OK_iff list_all2_conv_all_nth)
  then obtain bal where bal: "ownBalance s (ar_Idx req) i = OK bal" "assets ! i = (i, al_Assets (st_Alloc s) ! i, bal)"
    using assms(3) by (auto simp: nth_enumerate_eq res_simps)
  moreover have "saw_withdrawn E i" if "bal \<noteq> 0"
  proof -
    have "(i, al_Assets (st_Alloc s) ! i, bal) \<in> set (filter (\<lambda>(_, _, bal). bal \<noteq> 0) assets)"
      using that bal(2) assms(3) len nth_mem [of i assets] by simp
    then have in_calls: "withdrawAsset C A sd a E req i (al_Assets (st_Alloc s) ! i) \<in> set (map (\<lambda>(index, asset, _).
        withdrawAsset C A sd a E req index asset) (filter (\<lambda>(_, _, bal). bal \<noteq> 0) assets))"
      unfolding set_map by (rule rev_image_eqI) simp
    obtain rs where "runAll (map (\<lambda>(index, asset, _).
        withdrawAsset C A sd a E req index asset) (filter (\<lambda>(_, _, bal). bal \<noteq> 0) assets)) c = (c', rs)"
      "errgroup_Wait (wv_first E) rs = Some (OK ())"
      using run by (auto simp: map_prod_def split: prod.splits)
    from runAll_OK [OF this] in_calls show ?thesis
      using withdrawAsset_seen by blast
  qed
  ultimately show ?thesis
    by blast
qed

text \<open>The authorisation is for the own balance, and the participant signed it.\<close>

lemma newWithdrawalAuth_signed:
  assumes "newWithdrawalAuth A (simple_SignData C) receiver req i = OK (auth, sg)"
  shows "\<exists>s. tx_State (ar_Tx req) = Some s \<and> ownBalance s (ar_Idx req) i = OK (wa_Amount auth) \<and>
     wa_Participant auth = ar_Acc req \<and> wa_ChannelID auth = p_id (ar_Params req) \<and> wa_Receiver auth = receiver \<and>
     (\<exists>enc. encodeAssetHolderWithdrawalAuth A auth = OK enc \<and> eth_VerifySignature C enc sg (ar_Acc req) = OK True)"
  using assms simple_SignData_verifies
  by (fastforce simp: newWithdrawalAuth_def ownBalance_def AsEthAddr_def res_simps Let_def split: if_splits)

section \<open>The order of sub-channels\<close>

text \<open>A channel and the channels that it funds.\<close>

datatype channel_tree = ChannelNode State "channel_tree list"

primrec root_state :: "channel_tree \<Rightarrow> State" where
  "root_state (ChannelNode s ts) = s"

primrec preorder :: "channel_tree \<Rightarrow> State list" where
  "preorder (ChannelNode s ts) = s # concat (map preorder ts)"

primrec height :: "channel_tree \<Rightarrow> nat" where
  "height (ChannelNode s ts) = Suc (foldr max (map height ts) 0)"

text \<open>A map of states holds a tree: the locked funds of each state are those of its children.\<close>

inductive holds_tree :: "(ID \<times> State) list \<Rightarrow> channel_tree \<Rightarrow> bool" for m where
  node: "map (\<lambda>l. map_of m (sa_ID l)) (al_Locked (st_Alloc s)) = map (\<lambda>t. Some (root_state t)) ts \<Longrightarrow>
     (\<And>t. t \<in> set ts \<Longrightarrow> holds_tree m t) \<Longrightarrow> holds_tree m (ChannelNode s ts)"

inductive_cases holds_treeE: "holds_tree m (ChannelNode s ts)"

lemma foldr_max_ge: "t \<in> set ts \<Longrightarrow> f t \<le> foldr max (map f ts) (0 :: nat)"
  by (induction ts) auto

lemma toEthSubStates_preorder:
  assumes "holds_tree m t" "height t \<le> n" "\<And>s. s \<in> set (preorder t) \<Longrightarrow> ToEthState s = OK (e s)"
  shows "toEthSubStates n (root_state t) m = OK (map e (tl (preorder t)))"
  using assms
proof (induction n arbitrary: t)
  case 0
  then show ?case by (cases t) simp
next
  case (Suc n)
  obtain s ts where t: "t = ChannelNode s ts"
    by (cases t)
  have sub: "map (\<lambda>l. map_of m (sa_ID l)) (al_Locked (st_Alloc s)) = map (\<lambda>t. Some (root_state t)) ts"
    and hold: "\<And>u. u \<in> set ts \<Longrightarrow> holds_tree m u"
    using Suc.prems(1) unfolding t by (auto elim: holds_treeE)
  have IH: "toEthSubStates n (root_state u) m = OK (map e (tl (preorder u)))" "ToEthState (root_state u) = OK (e (root_state u))"
    "preorder u = root_state u # tl (preorder u)" if "u \<in> set ts" for u
  proof -
    have pre: "preorder u = root_state u # tl (preorder u)"
      by (cases u) simp
    have "height u \<le> n"
      using Suc.prems(2) foldr_max_ge [OF that, of height] by (simp add: t)
    moreover have "set (preorder u) \<subseteq> set (preorder t)"
      using that by (auto simp: t)
    ultimately show "toEthSubStates n (root_state u) m = OK (map e (tl (preorder u)))"
      using Suc.IH [OF hold [OF that]] Suc.prems(3) by blast
    show "ToEthState (root_state u) = OK (e (root_state u))"
      using Suc.prems(3) \<open>set (preorder u) \<subseteq> set (preorder t)\<close> pre by (metis list.set_intros(1) subsetD)
  qed (cases u; simp)
  let ?step = "\<lambda>subAlloc ethSubStates. case map_of m (sa_ID subAlloc) of
      None \<Rightarrow> Panic ''sub-state not found''
    | Some subState \<Rightarrow> bindR (ToEthState subState) (\<lambda>s.
        if length (al_Locked (st_Alloc subState)) > 0
        then bindR (toEthSubStates n subState m) (\<lambda>subSubStates. OK (ethSubStates @ [s] @ subSubStates))
        else OK (ethSubStates @ [s]))"
  have leaf: "tl (preorder u) = []" if "u \<in> set ts" "al_Locked (st_Alloc (root_state u)) = []" for u
    using hold [OF that(1)] that(2) by (cases u) (auto elim: holds_treeE)
  have "foldR ?step ls acc = OK (acc @ map e (concat (map preorder us)))"
    if "map (\<lambda>l. map_of m (sa_ID l)) ls = map (\<lambda>t. Some (root_state t)) us" "set us \<subseteq> set ts" for ls us acc
    using that
  proof (induction us arbitrary: ls acc)
    case (Cons u us)
    then obtain l ls' where ls: "ls = l # ls'" "map_of m (sa_ID l) = Some (root_state u)"
      "map (\<lambda>l. map_of m (sa_ID l)) ls' = map (\<lambda>t. Some (root_state t)) us"
      by (cases ls) auto
    have u: "u \<in> set ts"
      using Cons.prems(2) by simp
    have "?step l acc = OK (acc @ map e (preorder u))"
    proof -
      obtain r where r: "preorder u = root_state u # r"
        using IH(3) [OF u] by blast
      show ?thesis
        using IH(1,2) [OF u] leaf [OF u] by (cases "al_Locked (st_Alloc (root_state u)) = []") (auto simp: ls(2) r)
    qed
    then show ?case
      using Cons.IH [OF ls(3)] Cons.prems(2) by (simp add: ls(1))
  qed simp
  from this [OF sub, of "[]"] show ?case
    by (simp add: t)
qed

end
