(* ===== verification/Perun_EthEvents.thy ===== *)
theory Perun_EthEvents
  imports Perun_EthAdjudicator
begin

text \<open>
  Adjudicator events on Ethereum: \<open>backend/ethereum/channel/subscription.go\<close>.

  The states of an event are taken from the call data of the transaction that has caused it; go-ethereum's
  access to transactions and the decoding of call data are the record \<open>calldata_ops\<close>.  A subscription has
  a buffer for one event, which the next event replaces if it is newer.

  Shown here: the buffer holds the newest of the events that were not taken out; an event that is not
  newer is dropped, also when it reports that the channel was concluded; the states of events have no
  application, so that a client which follows a progression crashes when it stores the state.
\<close>

section \<open>Call data\<close>

record AdjudicatorChannelUpdate =
  cu_ChannelID :: ID
  cu_Version :: u64
  cu_Phase :: nat
  cu_Timeout :: u64
  cu_TxHash :: bytes

record registerCallData =
  rd_Channel :: AdjudicatorSignedState
  rd_SubChannels :: "AdjudicatorSignedState list"

record progressCallData =
  pd_Params :: ChannelParams
  pd_StateOld :: ChannelState
  pd_State :: ChannelState
  pd_ActorIdx :: int
  pd_Sig :: bytes

record 'v calldata_ops =
  cd_TransactionByHash :: "bytes \<Rightarrow> bytes res"
  cd_IDLen :: nat
  cd_UnpackRegister :: "bytes \<Rightarrow> 'v res"
  cd_CopyRegister :: "'v \<Rightarrow> registerCallData res"
  cd_UnpackProgress :: "bytes \<Rightarrow> 'v res"
  cd_CopyProgress :: "'v \<Rightarrow> progressCallData res"

definition fetchCallData :: "'v calldata_ops \<Rightarrow> (bytes \<Rightarrow> 'v res) \<Rightarrow> ('v \<Rightarrow> 'a res) \<Rightarrow> bytes \<Rightarrow> 'a res" where
  "fetchCallData D unpack copy txHash =
     bindR (with_msg ''getting transaction'' (CheckIsChainNotReachableError (cd_TransactionByHash D txHash))) (\<lambda>txData.
     bindR (panic_if (length txData < cd_IDLen D) ''slice bounds out of range'') (\<lambda>_.
     bindR (with_msg ''unpacking'' (unpack (drop (cd_IDLen D) txData))) (\<lambda>argsI.
     with_msg ''copying into struct'' (copy argsI))))"

definition fetchRegisterCallData :: "'v calldata_ops \<Rightarrow> bytes \<Rightarrow> registerCallData res" where
  "fetchRegisterCallData D txHash =
     with_msg ''fetching call data'' (fetchCallData D (cd_UnpackRegister D) (cd_CopyRegister D) txHash)"

definition fetchProgressCallData :: "'v calldata_ops \<Rightarrow> bytes \<Rightarrow> progressCallData res" where
  "fetchProgressCallData D txHash =
     with_msg ''fetching call data'' (fetchCallData D (cd_UnpackProgress D) (cd_CopyProgress D) txHash)"

definition registerCallData_get :: "registerCallData \<Rightarrow> ID \<Rightarrow> AdjudicatorSignedState option" where
  "registerCallData_get args i =
     (if es_ChannelID (as_State (rd_Channel args)) = i then Some (rd_Channel args)
      else find (\<lambda>ch. es_ChannelID (as_State ch) = i) (rd_SubChannels args))"

section \<open>Events\<close>

definition convertEvent ::
    "'m channel_backend_scheme \<Rightarrow> 'v calldata_ops \<Rightarrow> AdjudicatorChannelUpdate \<Rightarrow> AdjudicatorEvent res" where
  "convertEvent B D e =
     (let timeout = NewBlockTimeout (cu_Timeout e) in
      if cu_Phase e = phaseDispute then
        bindR (with_msg ''fetching call data'' (fetchRegisterCallData D (cu_TxHash e))) (\<lambda>args.
        (case registerCallData_get args (cu_ChannelID e) of
           None \<Rightarrow> Err (ErrNew ''channel not found in calldata: %v'')
         | Some ch \<Rightarrow>
             bindR (if cp_App (as_Params ch) = zeroAddress then OK NoApp
                    else Resolve B (cb_registry B) (Some (AsWalletAddr (cp_App (as_Params ch))))) (\<lambda>app.
             bindR (FromEthState B app (as_State ch)) (\<lambda>state.
             OK (RegisteredEvent (cu_ChannelID e) timeout (cu_Version e) (Some state) (as_Sigs ch))))))
      else if cu_Phase e = phaseForceExec then
        bindR (with_msg ''fetching call data'' (fetchProgressCallData D (cu_TxHash e))) (\<lambda>args.
        bindR (with_msg ''resolving app'' (Resolve B (cb_registry B) (Some (AsWalletAddr (cp_App (pd_Params args)))))) (\<lambda>app.
        bindR (FromEthState B app (pd_State args)) (\<lambda>newState.
        OK (ProgressedEvent (cu_ChannelID e) timeout (cu_Version e) (Some newState) (of_int (pd_ActorIdx args))))))
      else if cu_Phase e = phaseConcluded then OK (ConcludedEvent (cu_ChannelID e) timeout (cu_Version e))
      else Panic ''unknown phase'')"

section \<open>The buffer\<close>

definition asBlockTimeout :: "Timeout \<Rightarrow> u64 res" where
  "asBlockTimeout t = (case t of BlockTimeout time \<Rightarrow> OK time | _ \<Rightarrow> Panic ''interface conversion'')"

text \<open>The event in the buffer is taken out first; a failed conversion leaves the buffer empty.\<close>

definition processNext ::
    "'m channel_backend_scheme \<Rightarrow> 'v calldata_ops \<Rightarrow> AdjudicatorChannelUpdate \<Rightarrow> (AdjudicatorEvent option, unit) call" where
  "processNext B D next buffer =
     (case (case buffer of
          Some current \<Rightarrow> bindR (asBlockTimeout (ev_Timeout current)) (\<lambda>currentTimeout.
            if ev_Version current < cu_Version next \<or> ev_Version current = cu_Version next \<and> currentTimeout < cu_Timeout next
            then convertEvent B D next else OK current)
        | None \<Rightarrow> convertEvent B D next) of
        OK e \<Rightarrow> (Some e, OK ())
      | Err e \<Rightarrow> (None, Err e)
      | Panic s \<Rightarrow> (None, Panic s))"

text \<open>A subscription: its buffer, what \<open>Next\<close> has returned, the error channel and whether it was closed
  without an error.\<close>

record RegisteredSub =
  rs_next :: "AdjudicatorEvent option"
  rs_taken :: "AdjudicatorEvent list"
  rs_closed :: bool
  rs_err :: "goerr option"

definition NewRegisteredSub :: RegisteredSub where
  "NewRegisteredSub = \<lparr>rs_next = None, rs_taken = [], rs_closed = False, rs_err = None\<rparr>"

text \<open>\<open>Next\<close> waits while the buffer is empty and returns nil when it is closed.\<close>

definition RegisteredSub_Next :: "RegisteredSub \<Rightarrow> (AdjudicatorEvent option \<times> RegisteredSub) option" where
  "RegisteredSub_Next r = (case rs_next r of
      Some e \<Rightarrow> Some (Some e, r\<lparr>rs_next := None, rs_taken := rs_taken r @ [e]\<rparr>)
    | None \<Rightarrow> if rs_closed r then Some (None, r) else None)"

text \<open>What happens, in order: an update of the channel, the end of the event subscription, a call of \<open>Next\<close>
  by the user.\<close>

datatype upd_item = UpdEvent AdjudicatorChannelUpdate | UpdSubErr "goerr option" | UpdNext

definition closeNext :: "RegisteredSub \<Rightarrow> RegisteredSub" where
  "closeNext r = r\<lparr>rs_next := None, rs_closed := True\<rparr>"

primrec updateNext :: "'m channel_backend_scheme \<Rightarrow> 'v calldata_ops \<Rightarrow> upd_item list \<Rightarrow> RegisteredSub \<Rightarrow> RegisteredSub res" where
  "updateNext B D [] r = OK r"
| "updateNext B D (i # is) r =
     (if rs_closed r then OK r
      else case i of
        UpdNext \<Rightarrow> (case RegisteredSub_Next r of Some (_, r') \<Rightarrow> updateNext B D is r' | None \<Rightarrow> updateNext B D is r)
      | UpdEvent next \<Rightarrow> (case processNext B D next (rs_next r) of
            (buffer, OK _) \<Rightarrow> updateNext B D is (r\<lparr>rs_next := buffer\<rparr>)
          | (_, Err e) \<Rightarrow> OK (closeNext (r\<lparr>rs_err := Some e\<rparr>))
          | (_, Panic s) \<Rightarrow> Panic s)
      | UpdSubErr (Some e) \<Rightarrow> OK (closeNext (r\<lparr>rs_err := Some (ErrWithMessage ''EventSub closed'' e)\<rparr>))
      | UpdSubErr None \<Rightarrow> OK (closeNext r))"

section \<open>The newest event\<close>

definition newer :: "AdjudicatorChannelUpdate \<Rightarrow> AdjudicatorChannelUpdate \<Rightarrow> bool" where
  "newer a b \<longleftrightarrow> cu_Version a < cu_Version b \<or> cu_Version a = cu_Version b \<and> cu_Timeout a < cu_Timeout b"

definition newest :: "AdjudicatorChannelUpdate \<Rightarrow> AdjudicatorChannelUpdate list \<Rightarrow> AdjudicatorChannelUpdate" where
  "newest u us = foldl (\<lambda>a b. if newer a b then b else a) u us"

lemma newer_trans: "newer a b \<Longrightarrow> \<not> newer c b \<Longrightarrow> newer a c \<or> (cu_Version c = cu_Version b \<and> cu_Timeout c = cu_Timeout b)"
  by (auto simp: newer_def)

lemma not_newer_trans: "\<not> newer b c \<Longrightarrow> \<not> newer a b \<Longrightarrow> \<not> newer a c"
  by (auto simp: newer_def)

lemma newer_asym: "newer a b \<Longrightarrow> \<not> newer b a"
  by (auto simp: newer_def)

lemma newest_in: "newest u us \<in> set (u # us)"
proof (induction us arbitrary: u)
  case (Cons x xs)
  then show ?case
    using Cons [of u] Cons [of x] by (auto simp: newest_def)
qed (simp add: newest_def)

lemma newest_max: "x \<in> set (u # us) \<Longrightarrow> \<not> newer (newest u us) x"
proof (induction us arbitrary: u x)
  case (Cons y us)
  let ?w = "if newer u y then y else u"
  have n: "newest u (y # us) = newest ?w us"
    by (simp add: newest_def)
  have "\<not> newer (newest ?w us) ?w"
    using Cons.IH [of ?w ?w] by simp
  moreover have "\<not> newer ?w u" "\<not> newer ?w y"
    by (auto dest: newer_asym simp: newer_def)
  ultimately have "\<not> newer (newest ?w us) u" "\<not> newer (newest ?w us) y"
    using not_newer_trans by blast+
  with Cons.IH [of x ?w] Cons.prems n show ?case
    by auto
qed (auto simp: newest_def newer_def)

lemma convertEvent_key:
  assumes "convertEvent B D u = OK e"
  shows "ev_Version e = cu_Version u" "ev_Timeout e = BlockTimeout (cu_Timeout u)" "ev_ID e = cu_ChannelID u"
  using assms by (auto simp: convertEvent_def Let_def res_simps NewBlockTimeout_def split: if_splits option.splits)

lemma processNext_newer:
  assumes "convertEvent B D u = OK e" "convertEvent B D v = OK e'"
  shows "processNext B D v (Some e) = (Some (if newer u v then e' else e), OK ())"
  using convertEvent_key [OF assms(1)] assms(2) by (simp add: processNext_def asBlockTimeout_def newer_def)

text \<open>While \<open>Next\<close> is not called, the buffer holds the newest event.\<close>

lemma updateNext_newest:
  assumes "\<And>x. x \<in> set (u # us) \<Longrightarrow> convertEvent B D x = OK (f x)"
  shows "updateNext B D (map UpdEvent (u # us)) NewRegisteredSub = OK (NewRegisteredSub\<lparr>rs_next := Some (f (newest u us))\<rparr>)"
proof -
  have "updateNext B D (map UpdEvent us) (r\<lparr>rs_next := Some (f u)\<rparr>) = OK (r\<lparr>rs_next := Some (f (newest u us))\<rparr>)"
    if "\<not> rs_closed r" "\<And>x. x \<in> set (u # us) \<Longrightarrow> convertEvent B D x = OK (f x)" for r u us
    using that(2)
  proof (induction us arbitrary: u)
    case (Cons x us)
    have "processNext B D x (Some (f u)) = (Some (f (if newer u x then x else u)), OK ())"
      using processNext_newer [of B D u "f u" x "f x"] Cons.prems by simp
    moreover have "updateNext B D (map UpdEvent us) (r\<lparr>rs_next := Some (f w)\<rparr>) = OK (r\<lparr>rs_next := Some (f (newest w us))\<rparr>)"
      if "w = x \<or> w = u" for w
      using that Cons.prems by (intro Cons.IH) auto
    ultimately show ?case
      using that(1) by (cases "newer u x") (simp_all add: newest_def)
  qed (simp add: newest_def)
  from this [of "NewRegisteredSub\<lparr>rs_next := None\<rparr>" u us] assms show ?thesis
    by (simp add: NewRegisteredSub_def processNext_def)
qed

text \<open>An event that is not newer is dropped, whatever it reports.\<close>

lemma not_newer_dropped:
  assumes "convertEvent B D u = OK e" "cu_Version v = cu_Version u" "cu_Timeout v = cu_Timeout u"
  shows "processNext B D v (Some e) = (Some e, OK ())"
  using convertEvent_key [OF assms(1)] assms(2,3) by (simp add: processNext_def asBlockTimeout_def)

section \<open>Clients on Ethereum\<close>

text \<open>The Ethereum backend satisfies what the client relies on, so that the protocols of the client work on it.\<close>

interpretation eth_client: client_backend "eth_backend C A (simple_SignData C) reg ua" addr20 sig65 eth_asset_ok
  for C A reg ua
proof
  show "\<exists>x. sg = Some x \<and> sig65 x \<and> x \<noteq> []"
    if "cb_Sign (eth_backend C A (simple_SignData C) reg ua) a p s = OK sg" for a p s sg
    using that simple_SignData_verifies by (fastforce simp: eth_Sign_OK_iff)
qed

text \<open>A state without an application cannot be encoded.\<close>

lemma State_Encode_NilApp:
  assumes "st_App s = NilApp" "Allocation_Encode (st_Alloc s) = OK b"
  shows "State_Encode B s = Panic ''nil pointer dereference''"
  using assms
  by (simp add: State_Encode_def Encode_def encArg_def Encode_value_def catE_def OptAppEnc_Encode_def IsNoApp_def app_Def_def)

lemma FromEthState_NilApp: "FromEthState B app es = OK s \<Longrightarrow> st_App s = NilApp"
  by (auto simp: FromEthState_def Let_def res_simps)

lemma convertEvent_NilApp:
  assumes "convertEvent B D u = OK (ProgressedEvent i t v (Some s) idx)"
  shows "st_App s = NilApp"
  using assms by (auto simp: convertEvent_def Let_def res_simps dest: FromEthState_NilApp split: if_splits option.splits)

lemma SetProgressed_NilApp:
  assumes "st_App s = NilApp" "Allocation_Encode (st_Alloc s) = OK b"
  shows "\<exists>m'. pm_SetProgressed B m (Some s) = (m', Panic ''nil pointer dereference'') \<and>
     psm_db m' = psm_db m \<and> m_phase (psm_machine m') = Progressed"
proof -
  let ?src = "source_of (forceState (psm_machine m) Progressed (Some s))"
  have tx: "tx_State (src_CurrentTX ?src) = Some s" "tx_State (m_stagingTX (forceState (psm_machine m) Progressed (Some s))) = None"
    by (simp_all add: source_of_def forceState_def addTx_def newTransaction_def zeroTransaction_def Let_def)
  have "Transaction_Encode B (src_CurrentTX ?src) = Panic ''nil pointer dereference''"
    unfolding Transaction_Encode_def tx(1) using State_Encode_NilApp [OF assms, of B]
    by (simp add: Encode_def encArg_def Encode_value_def catE_def)
  then have "Enabled B (psm_db m) ?src = (psm_db m, Panic ''nil pointer dereference'')"
    by (simp add: Enabled_def applied_def dbPutSource_def dbPutSourceField_def dbPut_def tx(2) zeroTransaction_def
        PersistedState_Encode_def Encode_def encArg_def Encode_value_def catE_def str_def)
  then show ?thesis
    by (simp add: pm_SetProgressed_def pm_call_def no_result_def SetProgressed_def forceState_def addTx_def Let_def setPhase_def)
qed

end
