(* ===== verification/Perun_EthScenario.thy ===== *)
theory Perun_EthScenario
  imports Perun_Scenario Perun_EthEvents
begin

text \<open>
  Concrete data for the Ethereum backend: two participants, a state with one asset, a packing of values
  that concatenates them, and a blockchain that accepts every transaction.
\<close>

definition ex_payer :: address where "ex_payer = replicate 20 1"

definition ex_payee :: address where "ex_payee = replicate 20 2"

definition ex_holder :: bytes where "ex_holder = replicate 20 9"

definition ex_abi :: abi_ops where
  "ex_abi = \<lparr>abi_PackParams = (\<lambda>p. OK (concat (cp_Participants p))), abi_PackState = (\<lambda>s. OK (es_ChannelID s @ [ucast (es_Version s)])),
     abi_PackFundingID = (\<lambda>i a. OK (i @ a)), abi_PackWithdrawalAuth = (\<lambda>i p r b. OK (i @ p @ r @ [of_int b]))\<rparr>"

definition ex_eth_params :: Params where
  "ex_eth_params = \<lparr>p_id = Zero, p_ChallengeDuration = 60, p_Parts = [ex_payer, ex_payee], p_App = NoApp,
     p_Nonce = Some 7, p_LedgerChannel = True, p_VirtualChannel = False\<rparr>"

definition ex_eth_alloc :: Allocation where
  "ex_eth_alloc = \<lparr>al_Assets = [Some (OK ex_holder)], al_Balances = [[5, 3]],
     al_Locked = [\<lparr>sa_ID = replicate 32 7, sa_Bals = [2], sa_IndexMap = []\<rparr>]\<rparr>"

definition ex_eth_state :: State where
  "ex_eth_state = \<lparr>st_ID = Zero, st_Version = 1, st_App = NoApp, st_Alloc = ex_eth_alloc, st_Data = NoData,
     st_IsFinal = False\<rparr>"

lemma ex_eth_state_ok: "state_ok B addr20 eth_asset_ok ex_eth_state"
  by (simp add: state_ok_def alloc_ok_def app_ok_def data_ok_def valid_alloc_def valid_suballoc_def ex_eth_state_def ex_eth_alloc_def
      eth_asset_ok_def ex_holder_def balances_ok_def bal_ok_def suballoc_ok_def)

lemma ex_eth_valid: "valid_alloc (st_Alloc ex_eth_state)"
  by (simp add: valid_alloc_def valid_suballoc_def ex_eth_state_def ex_eth_alloc_def)

lemma ex_ToEthState:
  "ToEthState ex_eth_state = OK \<lparr>es_ChannelID = Zero, es_Version = 1,
     es_Outcome = \<lparr>ca_Assets = [ex_holder], ca_Balances = [[5, 3]],
       ca_Locked = [\<lparr>cs_ID = replicate 32 7, cs_Balances = [2], cs_IndexMap = [0, 1]\<rparr>]\<rparr>,
     es_AppData = [], es_IsFinal = False\<rparr>"
  by (simp add: ToEthState_def ex_eth_state_def ex_eth_alloc_def ethIndexMap_def NumParts_def assetToCommonAddresses_def
      asEthAsset_def ex_holder_def AddressLength_def data_encoder_def upt_rec numeral_2_eq_2)

section \<open>Transactions and funding\<close>

definition ex_chain :: "bytes chain" where
  "ex_chain = \<lparr>bc_tr = (\<lambda>a. OK \<lparr>to_From = a, to_Signer = (\<lambda>_ tx. OK tx), to_GasLimit = 0, to_Value = 0, to_Nonce = None\<rparr>),
     bc_pendingNonce = (\<lambda>_. OK 4), bc_NewAssetHolder = (\<lambda>_. OK ()), bc_NewERC20 = (\<lambda>_. OK ()),
     bc_Deposit = (\<lambda>_ _ i _. OK i), bc_IncreaseAllowance = (\<lambda>_ _ i _. OK i),
     bc_mined = (\<lambda>_. OK \<lparr>rc_Status = 1, rc_GasUsed = 1\<rparr>), bc_Hash = id\<rparr>"

definition ex_funder :: Funder where
  "ex_funder = fst (RegisterAsset ex_holder ETHDepositor ex_payer NewFunder)"

definition ex_fund_req :: FundingReq where
  "ex_fund_req = NewFundingReq ex_eth_params (Some ex_eth_state) 0 [[5, 3]]"

definition ex_ids :: "bytes list" where
  "ex_ids = [ex_payer @ replicate 12 0, ex_payee @ replicate 12 0]"

text \<open>The first participant pays, the second pays a part only.\<close>

definition ex_deposits :: "nat \<Rightarrow> (bytes \<times> Bal) list" where
  "ex_deposits = (\<lambda>_. [(ex_payer @ replicate 12 0, 5), (ex_payee @ replicate 12 0, 1)])"

definition ex_fund_env :: fund_env where
  "ex_fund_env = \<lparr>fe_time = OK 100, fe_sub = (\<lambda>_. OK ()),
     fe_items = (\<lambda>_. [Deposited (ex_payer @ replicate 12 0) 5, Deposited (ex_payee @ replicate 12 0) 1, FundCtx]),
     fe_past = (\<lambda>_. (OK (), [], OK ())), fe_order = id\<rparr>"

lemma ex_FundingIDs: "FundingIDs example_secp ex_abi Zero [ex_payer, ex_payee] = OK ex_ids"
  by (simp add: FundingIDs_def AsEthAddr_def ex_payer_def ex_payee_def AddressLength_def ex_abi_def Keccak256_def
      Rep_example_secp example_secp_ops_def pad_to_def Zero_def ex_ids_def)

lemma ex_fundAssets:
  "fundAssets example_secp ex_abi ex_chain ex_fund_env ex_funder ex_fund_req NewContractBackend =
     (\<lparr>cb_expectedNextNonce = [ex_payer \<mapsto> 5]\<rparr>, OK (ex_ids, [[ex_payer @ replicate 12 0]], []))"
  by (simp add: fundAssets_def call_steps ex_fund_req_def NewFundingReq_def ex_eth_state_def ex_eth_alloc_def
      ex_eth_params_def ex_FundingIDs)
     (simp add: fundAsset_def call_steps asEthAsset_def AddressLength_def ex_holder_def ex_chain_def ex_ids_def sendFundingTx_def
      ex_fund_env_def checkFunded_def deposit_def ex_funder_def RegisterAsset_def NewFunder_def NewDepositReq_def ETHDepositor_Deposit_def
      NewTransactor_def NewContractBackend_def Let_def sendOrGather_def CheckIsChainNotReachableError_def)

section \<open>Withdrawing\<close>

definition ex_eth_adjudicator :: "bytes adjudicator" where
  "ex_eth_adjudicator = \<lparr>ea_chain = ex_chain, ea_lock = OK (), ea_txSender = ex_payer, ea_Receiver = ex_payer,
     ea_Register = (\<lambda>_ _ _. OK []), ea_Progress = (\<lambda>_ _ _ _ _ _. OK []), ea_Conclude = (\<lambda>_ _ _ _. OK []),
     ea_ConcludeFinal = (\<lambda>_ _ _ _. OK []), ea_Withdraw = (\<lambda>_ _ _ _. OK [])\<rparr>"

text \<open>The channel was concluded before; the withdrawal is reported after the transaction was sent.\<close>

definition ex_concl_env :: concl_env where
  "ex_concl_env = \<lparr>ce_sub = OK (), ce_past = ([phaseDispute, phaseConcluded], OK ()), ce_headSub = OK (), ce_blocks = [], ce_items = []\<rparr>"

definition ex_withdraw_env :: withdraw_env where
  "ex_withdraw_env = \<lparr>wv_sub = (\<lambda>_. OK ()), wv_past = (\<lambda>_. (0, OK ())), wv_items = (\<lambda>_. [WithdrawnEvent]), wv_first = hd\<rparr>"

definition ex_eth_req :: AdjudicatorReq where
  "ex_eth_req = \<lparr>ar_Params = ex_eth_params, ar_Acc = ex_payer, ar_Tx = \<lparr>tx_State = Some ex_eth_state, tx_Sigs = []\<rparr>,
     ar_Idx = 0, ar_Secondary = False\<rparr>"

lemma ex_simple_SignData: "\<exists>sg. simple_SignData example_secp ex_payer data = OK sg"
  by (auto simp: simple_SignData_def crypto_Sign_def Rep_example_secp example_secp_ops_def ex_payer_def shiftV_def nth_append)

lemma ex_withdrawn:
  "\<exists>c. eth_Withdraw example_secp ex_abi (simple_SignData example_secp) ex_eth_adjudicator ex_concl_env ex_withdraw_env 1
     ex_eth_req [] NewContractBackend = (c, Some (OK ()))"
proof -
  let ?sd = "simple_SignData example_secp"
  obtain sg where "?sd ex_payer (Zero @ ex_payer @ ex_payer @ [5]) = OK sg"
    using ex_simple_SignData by blast
  moreover have len: "length ex_payer = 20" "length ex_holder = 20"
    by (simp_all add: ex_payer_def ex_holder_def)
  ultimately have auth: "newWithdrawalAuth ex_abi ?sd ex_payer ex_eth_req 0 =
      OK (\<lparr>wa_ChannelID = Zero, wa_Participant = ex_payer, wa_Receiver = ex_payer, wa_Amount = 5\<rparr>, sg)"
    by (simp add: newWithdrawalAuth_def AsEthAddr_def AddressLength_def ex_eth_req_def ex_eth_state_def ex_eth_alloc_def
        ex_eth_params_def encodeAssetHolderWithdrawalAuth_def ex_abi_def)
  have fid: "\<exists>x. FundingIDs example_secp ex_abi Zero [ex_payer] = OK x"
    using len by (simp add: FundingIDs_def AsEthAddr_def AddressLength_def ex_abi_def)
  have "\<exists>c. withdrawAsset example_secp ex_abi ?sd ex_eth_adjudicator ex_withdraw_env ex_eth_req 0 (Some (OK ex_holder))
      NewContractBackend = (c, Some (OK ()))"
    using auth fid len
    by (auto simp: withdrawAsset_def bindW_def liftW_def waitW_def msgS_def asEthAsset_def AddressLength_def ex_eth_req_def ex_eth_params_def
        ex_withdraw_env_def callAssetWithdraw_def ex_eth_adjudicator_def ex_chain_def call_steps NewTransactor_def NewContractBackend_def
        Let_def CheckIsChainNotReachableError_def confirmAs_def ConfirmTransaction_def ReceiptStatusFailed_def waitWithdrawn_def)
  then show ?thesis
    by (auto simp: eth_Withdraw_def msgW_def bindW_def waitW_def ensureConcluded_def ex_concl_env_def isConcluded_def ensureWithdrawn_def
        ex_eth_req_def ex_eth_state_def ex_eth_alloc_def ownBalance_def errgroup_Wait_def panics_of_def errors_of_def Let_def)
qed

section \<open>Events\<close>

definition ex_eth_backend :: channel_backend where
  "ex_eth_backend = eth_backend example_secp ex_abi (simple_SignData example_secp) ex_registry (\<lambda>_. ex_userApp)"

definition outcome_state :: "u64 \<Rightarrow> ChannelState" where
  "outcome_state v = \<lparr>es_ChannelID = Zero, es_Version = v, es_Outcome = \<lparr>ca_Assets = [ex_holder], ca_Balances = [[5, 3]], ca_Locked = []\<rparr>,
     es_AppData = [], es_IsFinal = False\<rparr>"

definition ex_progress :: progressCallData where
  "ex_progress = \<lparr>pd_Params = \<lparr>cp_ChallengeDuration = 60, cp_Nonce = Some 7, cp_Participants = [ex_payer, ex_payee],
       cp_App = ex_holder, cp_LedgerChannel = True, cp_VirtualChannel = False\<rparr>,
     pd_StateOld = outcome_state 1, pd_State = outcome_state 2, pd_ActorIdx = 0, pd_Sig = []\<rparr>"

definition ex_calldata :: "progressCallData calldata_ops" where
  "ex_calldata = \<lparr>cd_TransactionByHash = (\<lambda>_. OK [1, 2, 3, 4]), cd_IDLen = 4,
     cd_UnpackRegister = (\<lambda>_. Err (ErrNew ''no registration'')), cd_CopyRegister = (\<lambda>_. Err (ErrNew ''no registration'')),
     cd_UnpackProgress = (\<lambda>_. OK ex_progress), cd_CopyProgress = OK\<rparr>"

definition ex_update :: "u64 \<Rightarrow> nat \<Rightarrow> u64 \<Rightarrow> AdjudicatorChannelUpdate" where
  "ex_update v ph t = \<lparr>cu_ChannelID = Zero, cu_Version = v, cu_Phase = ph, cu_Timeout = t, cu_TxHash = []\<rparr>"

text \<open>The state of the progression: it has no application.\<close>

definition ex_progressed :: State where
  "ex_progressed = \<lparr>st_ID = Zero, st_Version = 2, st_App = NilApp,
     st_Alloc = \<lparr>al_Assets = [Some (OK ex_holder)], al_Balances = [[5, 3]], al_Locked = []\<rparr>,
     st_Data = NoData, st_IsFinal = False\<rparr>"

lemma ex_convert_progressed:
  "convertEvent ex_eth_backend ex_calldata (ex_update 2 phaseForceExec 9) =
     OK (ProgressedEvent Zero (BlockTimeout 9) 2 (Some ex_progressed) 0)"
  by (simp add: convertEvent_def ex_update_def phaseForceExec_def phaseDispute_def NewBlockTimeout_def fetchProgressCallData_def
      fetchCallData_def ex_calldata_def CheckIsChainNotReachableError_def ex_progress_def AsWalletAddr_def ex_eth_backend_def
      Resolve_def Key_def ex_registry_def payment_Resolve_def FromEthState_def outcome_state_def Let_def fromEthAssets_def eth_Address_Encode_def
      app_DecodeData_def returnD_def ex_progressed_def)

lemma ex_convert_concluded:
  "convertEvent ex_eth_backend ex_calldata (ex_update v phaseConcluded t) = OK (ConcludedEvent Zero (BlockTimeout t) v)"
  by (simp add: convertEvent_def ex_update_def phaseForceExec_def phaseDispute_def phaseConcluded_def NewBlockTimeout_def)

lemma ex_alloc_encodes: "\<exists>b. Allocation_Encode (st_Alloc ex_progressed) = OK b"
proof -
  have "alloc_ok eth_asset_ok (st_Alloc ex_progressed)"
    by (simp add: alloc_ok_def valid_alloc_def ex_progressed_def eth_asset_ok_def ex_holder_def balances_ok_def bal_ok_def)
  from eth_codec.Allocation_rt [OF this] show ?thesis
    unfolding roundtrips_def by blast
qed

end
