(* ===== verification/Perun_Routing.thy ===== *)
theory Perun_Routing
  imports Perun_Messages "HOL-Library.Multiset"
begin

text \<open>
  The routing of messages: \<open>wire/{cache, relay, receiver, localbus}.go\<close>, the address exchange of
  \<open>wire/net/exchange_addr.go\<close> and the closers of \<open>pkg/sync/closer.go\<close>.

  A consumer is known by a number; what a relay hands to its consumers is a list of deliveries.  The
  relay with the goroutines that bring cached messages to new subscribers is a transition system
  (\<open>relay_step\<close>): it loses no message and brings none twice to the same consumer.
\<close>

section \<open>Closers\<close>

text \<open>The callbacks are numbered; \<open>co_ran\<close> are those that have been executed.\<close>

record Closer =
  co_isClosed :: bool
  co_onClosed :: "nat list"
  co_ran :: "nat list"

definition Closer_Close :: "Closer \<Rightarrow> Closer \<times> unit res" where
  "Closer_Close c = (if co_isClosed c then (c, Err (ErrNew ''Closer already closed''))
     else (c\<lparr>co_isClosed := True, co_ran := co_ran c @ co_onClosed c\<rparr>, OK ()))"

definition IsClosed :: "Closer \<Rightarrow> bool" where
  "IsClosed c = co_isClosed c"

definition OnClose :: "nat \<Rightarrow> Closer \<Rightarrow> Closer \<times> bool" where
  "OnClose handler c = (if IsClosed c then (c, False) else (c\<lparr>co_onClosed := co_onClosed c @ [handler]\<rparr>, True))"

definition OnCloseAlways :: "nat \<Rightarrow> Closer \<Rightarrow> Closer \<times> bool" where
  "OnCloseAlways handler c = (if IsClosed c then (c\<lparr>co_ran := co_ran c @ [handler]\<rparr>, False)
     else (c\<lparr>co_onClosed := co_onClosed c @ [handler]\<rparr>, True))"

section \<open>Caches\<close>

text \<open>A context is a number; \<open>done\<close> tells which contexts are done.\<close>

type_synonym Predicate = "Envelope \<Rightarrow> bool"

record Cache =
  ca_msgs :: "Envelope list"
  ca_preds :: "(nat \<times> Predicate) list"

definition emptyCache :: Cache where
  "emptyCache = \<lparr>ca_msgs = [], ca_preds = []\<rparr>"

definition Cache_Cache :: "nat \<Rightarrow> Predicate \<Rightarrow> Cache \<Rightarrow> Cache" where
  "Cache_Cache ctx p c = c\<lparr>ca_preds := ca_preds c @ [(ctx, p)]\<rparr>"

definition Cache_Put :: "(nat \<Rightarrow> bool) \<Rightarrow> Envelope \<Rightarrow> Cache \<Rightarrow> Cache \<times> bool" where
  "Cache_Put done e c =
     (let preds = filter (\<lambda>(ctx, _). \<not> done ctx) (ca_preds c); found = list_ex (\<lambda>(_, p). p e) preds
      in (c\<lparr>ca_msgs := (if found then ca_msgs c @ [e] else ca_msgs c), ca_preds := preds\<rparr>, found))"

definition Cache_Get :: "Predicate \<Rightarrow> Cache \<Rightarrow> Cache \<times> Envelope list" where
  "Cache_Get p c = (c\<lparr>ca_msgs := filter (\<lambda>m. \<not> p m) (ca_msgs c)\<rparr>, filter p (ca_msgs c))"

definition Flush :: "Cache \<Rightarrow> Cache" where
  "Flush c = \<lparr>ca_msgs = [], ca_preds = []\<rparr>"

definition Cache_Size :: "Cache \<Rightarrow> nat" where
  "Cache_Size c = length (ca_msgs c)"

section \<open>Relays\<close>

text \<open>The default handler \<open>None\<close> logs the message.\<close>

record Relay =
  rl_closed :: bool
  rl_consumers :: "(nat \<times> Predicate) list"
  rl_cache :: Cache
  rl_defaultMsgHandler :: "nat option"

datatype delivery = ToConsumer nat Envelope | ToDefault "nat option" Envelope

definition NewRelay :: Relay where
  "NewRelay = \<lparr>rl_closed = False, rl_consumers = [], rl_cache = emptyCache, rl_defaultMsgHandler = None\<rparr>"

definition Relay_Close :: "Relay \<Rightarrow> Relay \<times> unit res" where
  "Relay_Close r = (if rl_closed r then (r, Err (ErrNew ''Closer already closed''))
     else let r' = r\<lparr>rl_closed := True, rl_consumers := []\<rparr> in
       if Cache_Size (rl_cache r) \<noteq> 0
       then (r'\<lparr>rl_cache := Flush (rl_cache r)\<rparr>, Err (ErrNew ''cache was not empty (%d)''))
       else (r', OK ()))"

definition Relay_Cache :: "nat \<Rightarrow> Predicate \<Rightarrow> Relay \<Rightarrow> Relay" where
  "Relay_Cache ctx p r = (if rl_closed r then r else r\<lparr>rl_cache := Cache_Cache ctx p (rl_cache r)\<rparr>)"

text \<open>\<open>registered\<close> is the outcome of the consumer's \<open>OnClose\<close>.  A successful subscription returns the
  cached messages, which a goroutine brings to the consumer.\<close>

definition Relay_Subscribe :: "bool \<Rightarrow> nat \<Rightarrow> Predicate \<Rightarrow> Relay \<Rightarrow> Relay \<times> Envelope list res" where
  "Relay_Subscribe registered c p r =
     (if rl_closed r then (r, Err (ErrNew ''producer closed''))
      else if list_ex (\<lambda>(d, _). d = c) (rl_consumers r) then (r, Panic ''duplicate subscription'')
      else if \<not> registered then (r, Err (ErrNew ''consumer closed''))
      else case Cache_Get p (rl_cache r) of
        (cache, cached) \<Rightarrow> (r\<lparr>rl_consumers := rl_consumers r @ [(c, p)], rl_cache := cache\<rparr>, OK cached))"

text \<open>The last subscription takes the place of the deleted one.\<close>

fun replaceByLast :: "nat \<Rightarrow> (nat \<times> 'p) list \<Rightarrow> (nat \<times> 'p) list option" where
  "replaceByLast c [] = None"
| "replaceByLast c ((d, p) # subs) =
     (if d = c then Some (if subs = [] then [] else last subs # butlast subs)
      else map_option ((#) (d, p)) (replaceByLast c subs))"

definition Relay_delete :: "nat \<Rightarrow> Relay \<Rightarrow> Relay \<times> unit res" where
  "Relay_delete c r = (if rl_closed r then (r, OK ())
     else case replaceByLast c (rl_consumers r) of
       Some subs \<Rightarrow> (r\<lparr>rl_consumers := subs\<rparr>, OK ())
     | None \<Rightarrow> (r, Panic ''deleted consumer that was not subscribed''))"

definition Relay_isEmpty :: "Relay \<Rightarrow> bool" where
  "Relay_isEmpty r = (length (rl_consumers r) = 0)"

definition Relay_Put :: "(nat \<Rightarrow> bool) \<Rightarrow> Envelope \<Rightarrow> Relay \<Rightarrow> Relay \<times> delivery list" where
  "Relay_Put done e r =
     (if rl_closed r then (r, [])
      else let subs = filter (\<lambda>(_, p). p e) (rl_consumers r) in
        if subs \<noteq> [] then (r, map (\<lambda>(c, _). ToConsumer c e) subs)
        else case Cache_Put done e (rl_cache r) of
          (cache, True) \<Rightarrow> (r\<lparr>rl_cache := cache\<rparr>, [])
        | (cache, False) \<Rightarrow> (r\<lparr>rl_cache := cache\<rparr>, [ToDefault (rl_defaultMsgHandler r) e]))"

definition SetDefaultMsgHandler :: "nat option \<Rightarrow> Relay \<Rightarrow> Relay" where
  "SetDefaultMsgHandler handler r = r\<lparr>rl_defaultMsgHandler := handler\<rparr>"

section \<open>Receivers\<close>

text \<open>A \<open>select\<close> with several ready cases chooses any of them.\<close>

record Receiver =
  rv_msgs :: "Envelope list"
  rv_closed :: bool

definition receiverBufferSize :: nat where "receiverBufferSize = 16"

definition NewReceiver :: Receiver where
  "NewReceiver = \<lparr>rv_msgs = [], rv_closed = False\<rparr>"

inductive Receiver_Put :: "Envelope \<Rightarrow> Receiver \<Rightarrow> Receiver \<Rightarrow> bool" for e where
  queued: "length (rv_msgs r) < receiverBufferSize \<Longrightarrow> Receiver_Put e r (r\<lparr>rv_msgs := rv_msgs r @ [e]\<rparr>)"
| ignored: "rv_closed r \<Longrightarrow> Receiver_Put e r r"

inductive Receiver_Next :: "bool \<Rightarrow> Receiver \<Rightarrow> Receiver \<Rightarrow> Envelope res \<Rightarrow> bool" for ctxDone where
  expired: "ctxDone \<Longrightarrow> Receiver_Next ctxDone r r (Err (ErrWithMessage ''context closed'' (ErrNew ''context canceled'')))"
| closed: "rv_closed r \<Longrightarrow> Receiver_Next ctxDone r r (Err (ErrNew ''receiver closed''))"
| message: "rv_msgs r = e # es \<Longrightarrow> \<not> ctxDone \<Longrightarrow> \<not> rv_closed r \<Longrightarrow> Receiver_Next ctxDone r (r\<lparr>rv_msgs := es\<rparr>) (OK e)"

section \<open>The local bus\<close>

text \<open>A receiver without a consumer has been asked for by a publisher only.\<close>

type_synonym LocalBus = "bytes \<rightharpoonup> nat option"

definition NewLocalBus :: LocalBus where "NewLocalBus = Map.empty"

definition ensureRecv :: "bytes \<Rightarrow> LocalBus \<Rightarrow> LocalBus \<times> nat option" where
  "ensureRecv key h = (case h key of Some recv \<Rightarrow> (h, recv) | None \<Rightarrow> (h(key \<mapsto> None), None))"

text \<open>A publication waits for a subscriber until its context is done.\<close>

definition LocalBus_Publish :: "'m wallet_backend_scheme \<Rightarrow> Envelope \<Rightarrow> LocalBus \<Rightarrow> LocalBus \<times> delivery res" where
  "LocalBus_Publish B e h = (case Key B (env_Recipient e) of
      OK key \<Rightarrow> (case ensureRecv key h of
          (h', Some c) \<Rightarrow> (h', OK (ToConsumer c e))
        | (h', None) \<Rightarrow> (h', Err (ErrWithMessage ''publishing message'' (ErrNew ''context canceled''))))
    | Err x \<Rightarrow> (h, Err x)
    | Panic s \<Rightarrow> (h, Panic s))"

definition SubscribeClient :: "'m wallet_backend_scheme \<Rightarrow> nat \<Rightarrow> address \<Rightarrow> LocalBus \<Rightarrow> LocalBus \<times> unit res" where
  "SubscribeClient B c receiver h = (case Key B receiver of
      OK key \<Rightarrow> (case ensureRecv key h of
          (h', None) \<Rightarrow> (h'(key \<mapsto> Some c), OK ())
        | (h', Some _) \<Rightarrow> (h'(key \<mapsto> Some c), Panic ''close of closed channel''))
    | Err x \<Rightarrow> (h, Err x)
    | Panic s \<Rightarrow> (h, Panic s))"

definition unsubscribeClient :: "'m wallet_backend_scheme \<Rightarrow> address \<Rightarrow> LocalBus \<Rightarrow> LocalBus" where
  "unsubscribeClient B receiver h = (case Key B receiver of OK key \<Rightarrow> h(key := None) | _ \<Rightarrow> h)"

section \<open>Address exchange\<close>

text \<open>A connection: the outcome of sending, and what is received.  The result of a role is whether it
  closed the connection, and its outcome.\<close>

record Conn =
  cn_Send :: "Envelope \<Rightarrow> unit res"
  cn_Recv :: "Envelope res"

definition NewAuthenticationError :: "address \<Rightarrow> address \<Rightarrow> address \<Rightarrow> string \<Rightarrow> goerr" where
  "NewAuthenticationError sender receiver own msg = ErrWithMessage msg (AuthenticationError sender receiver own)"

definition IsAuthenticationError :: "goerr \<Rightarrow> bool" where
  "IsAuthenticationError e = (case Cause e of AuthenticationError _ _ _ \<Rightarrow> True | _ \<Rightarrow> False)"

definition ExchangeAddrsActive :: "bool \<Rightarrow> address \<Rightarrow> address \<Rightarrow> Conn \<Rightarrow> bool \<times> unit res" where
  "ExchangeAddrsActive inTime own peer conn =
     (if \<not> inTime then (True, Err (ErrWithMessage ''timeout'' (ErrNew ''context deadline exceeded'')))
      else (False,
        bindR (with_msg ''sending message''
          (cn_Send conn \<lparr>env_Sender = own, env_Recipient = peer, env_Msg = AuthResponseMsg\<rparr>)) (\<lambda>_.
        bindR (with_msg ''receiving message'' (cn_Recv conn)) (\<lambda>e.
        if env_Msg e \<noteq> AuthResponseMsg then Err (ErrNew ''expected AuthResponse wire msg, got %v'')
        else err_if (env_Recipient e \<noteq> own \<and> env_Sender e \<noteq> peer)
          (NewAuthenticationError (env_Sender e) (env_Recipient e) own ''unmatched response sender or recipient'')))))"

definition ExchangeAddrsPassive :: "bool \<Rightarrow> address \<Rightarrow> Conn \<Rightarrow> bool \<times> address res" where
  "ExchangeAddrsPassive inTime own conn =
     (if \<not> inTime then (True, Err (ErrWithMessage ''timeout'' (ErrNew ''context deadline exceeded'')))
      else let r = bindR (with_msg ''receiving auth message'' (cn_Recv conn)) (\<lambda>e.
          if env_Msg e \<noteq> AuthResponseMsg then Err (ErrNew ''expected AuthResponse wire msg, got %v'')
          else bindR (err_if (env_Recipient e \<noteq> own)
            (NewAuthenticationError (env_Sender e) (env_Recipient e) own ''unmatched response sender or recipient'')) (\<lambda>_.
          bindR (cn_Send conn \<lparr>env_Sender = own, env_Recipient = env_Sender e, env_Msg = AuthResponseMsg\<rparr>) (\<lambda>_.
          OK (env_Sender e))))
        in (case r of Err _ \<Rightarrow> True | _ \<Rightarrow> False, r))"

section \<open>A relay and its goroutines\<close>

text \<open>\<open>sy_put\<close> are the messages that the open relay was given, \<open>sy_pending\<close> the cached messages that
  goroutines still have to bring to new subscribers, \<open>sy_delivered\<close> what consumers were given.\<close>

record relay_sys =
  sy_relay :: Relay
  sy_put :: "Envelope list"
  sy_pending :: "(nat \<times> Envelope list) list"
  sy_delivered :: "(nat \<times> Envelope) list"
  sy_unhandled :: "Envelope list"
  sy_flushed :: "Envelope list"

fun consumed :: "delivery list \<Rightarrow> (nat \<times> Envelope) list" where
  "consumed [] = []"
| "consumed (ToConsumer c e # ds) = (c, e) # consumed ds"
| "consumed (ToDefault h e # ds) = consumed ds"

fun defaulted :: "delivery list \<Rightarrow> Envelope list" where
  "defaulted [] = []"
| "defaulted (ToConsumer c e # ds) = defaulted ds"
| "defaulted (ToDefault h e # ds) = e # defaulted ds"

inductive relay_step :: "relay_sys \<Rightarrow> relay_sys \<Rightarrow> bool" where
  Put: "\<not> rl_closed (sy_relay y) \<Longrightarrow> Relay_Put ctxs e (sy_relay y) = (r, ds) \<Longrightarrow>
     relay_step y (y\<lparr>sy_relay := r, sy_put := sy_put y @ [e], sy_delivered := sy_delivered y @ consumed ds,
       sy_unhandled := sy_unhandled y @ defaulted ds\<rparr>)"
| PutClosed: "rl_closed (sy_relay y) \<Longrightarrow> Relay_Put ctxs e (sy_relay y) = (r, ds) \<Longrightarrow>
     relay_step y (y\<lparr>sy_relay := r, sy_delivered := sy_delivered y @ consumed ds, sy_unhandled := sy_unhandled y @ defaulted ds\<rparr>)"
| Cache: "relay_step y (y\<lparr>sy_relay := Relay_Cache ctx p (sy_relay y)\<rparr>)"
| Subscribe: "Relay_Subscribe registered c p (sy_relay y) = (r, OK cached) \<Longrightarrow>
     relay_step y (y\<lparr>sy_relay := r, sy_pending := sy_pending y @ [(c, cached)]\<rparr>)"
| SubscribeFailed: "Relay_Subscribe registered c p (sy_relay y) = (r, Err x) \<Longrightarrow> relay_step y (y\<lparr>sy_relay := r\<rparr>)"
| Forward: "sy_pending y = ps @ (c, e # es) # qs \<Longrightarrow>
     relay_step y (y\<lparr>sy_pending := ps @ (c, es) # qs, sy_delivered := sy_delivered y @ [(c, e)]\<rparr>)"
| Delete: "Relay_delete c (sy_relay y) = (r, OK ()) \<Longrightarrow> relay_step y (y\<lparr>sy_relay := r\<rparr>)"
| SetDefault: "relay_step y (y\<lparr>sy_relay := SetDefaultMsgHandler h (sy_relay y)\<rparr>)"
| Close: "Relay_Close (sy_relay y) = (r, x) \<Longrightarrow>
     relay_step y (y\<lparr>sy_relay := r,
       sy_flushed := sy_flushed y @ (if rl_closed (sy_relay y) then [] else ca_msgs (rl_cache (sy_relay y)))\<rparr>)"

definition relay_init :: relay_sys where
  "relay_init = \<lparr>sy_relay = NewRelay, sy_put = [], sy_pending = [], sy_delivered = [], sy_unhandled = [], sy_flushed = []\<rparr>"

abbreviation relay_reach :: "relay_sys \<Rightarrow> bool" where
  "relay_reach y \<equiv> relay_step\<^sup>*\<^sup>* relay_init y"

text \<open>Where the messages are: with the relay (cached, handled by default, flushed), and with the consumers.\<close>

definition kept :: "relay_sys \<Rightarrow> Envelope multiset" where
  "kept y = mset (ca_msgs (rl_cache (sy_relay y))) + mset (sy_unhandled y) + mset (sy_flushed y)"

definition given_to :: "nat \<Rightarrow> relay_sys \<Rightarrow> Envelope multiset" where
  "given_to c y = mset (concat (map snd (filter (\<lambda>(d, _). d = c) (sy_pending y)))) +
     mset (map snd (filter (\<lambda>(d, _). d = c) (sy_delivered y)))"

definition given :: "relay_sys \<Rightarrow> Envelope multiset" where
  "given y = mset (concat (map snd (sy_pending y))) + mset (map snd (sy_delivered y))"

definition relay_inv :: "relay_sys \<Rightarrow> bool" where
  "relay_inv y \<longleftrightarrow> mset (sy_put y) \<subseteq># kept y + given y \<and> (\<forall>c. kept y + given_to c y \<subseteq># mset (sy_put y)) \<and>
     distinct (map fst (rl_consumers (sy_relay y)))"

lemma replaceByLast_mset:
  "replaceByLast c subs = Some subs' \<Longrightarrow> distinct (map fst subs) \<Longrightarrow> mset subs' = mset (filter (\<lambda>(d, _). d \<noteq> c) subs)"
proof (induction c subs arbitrary: subs' rule: replaceByLast.induct)
  case (2 c d p subs)
  show ?case
  proof (cases "d = c")
    case True
    moreover have "filter (\<lambda>(d, _). d \<noteq> c) subs = subs"
      using 2(3) True by (auto simp: filter_id_conv image_iff)
    moreover have "subs \<noteq> [] \<Longrightarrow> mset (last subs # butlast subs) = mset subs"
      by (metis append_butlast_last_id mset.simps(2) mset_append union_mset_add_mset_right add.right_neutral mset.simps(1))
    ultimately show ?thesis
      using 2(2) by (auto split: if_splits)
  qed (use 2 in auto)
qed simp

text \<open>What \<open>Put\<close> does with a message: it goes to every consumer that asked for it, or else to the cache or
  the default handler.\<close>

lemma consumed_map: "consumed (map (\<lambda>(c, _). ToConsumer c e) subs) = map (\<lambda>(c, _). (c, e)) subs"
  "defaulted (map (\<lambda>(c, _). ToConsumer c e) subs) = []"
  by (induction subs) (auto split: prod.splits)

lemma delivered_once:
  assumes "distinct (map fst subs)"
  shows "filter (\<lambda>(d, _). d = c) (map (\<lambda>(d, _). (d, e)) subs) = (if c \<in> fst ` set subs then [(c, e)] else [])"
  using assms
proof (induction subs)
  case (Cons x subs)
  then show ?case
    by (cases x; cases "fst x = c") (simp_all del: filter_empty_conv)
qed simp

lemma Relay_Put_cases:
  assumes "Relay_Put ctxs e r = (r', ds)" "\<not> rl_closed r"
  obtains (consumers) subs where "r' = r" "subs = filter (\<lambda>(_, p). p e) (rl_consumers r)" "subs \<noteq> []"
      "consumed ds = map (\<lambda>(c, _). (c, e)) subs" "defaulted ds = []"
    | (cached) "ca_msgs (rl_cache r') = ca_msgs (rl_cache r) @ [e]" "rl_consumers r' = rl_consumers r" "consumed ds = []" "defaulted ds = []"
    | (default) "ca_msgs (rl_cache r') = ca_msgs (rl_cache r)" "rl_consumers r' = rl_consumers r" "consumed ds = []" "defaulted ds = [e]"
proof (cases "filter (\<lambda>(_, p). p e) (rl_consumers r) = []")
  case True
  with assms show thesis
    using cached default by (auto simp: Relay_Put_def Cache_Put_def Let_def split: if_splits bool.splits prod.splits)
next
  case False
  with assms have "r' = r" "ds = map (\<lambda>(c, _). ToConsumer c e) (filter (\<lambda>(_, p). p e) (rl_consumers r))"
    by (auto simp: Relay_Put_def Let_def)
  with False show thesis
    using consumers [of "filter (\<lambda>(_, p). p e) (rl_consumers r)"] consumed_map by metis
qed

lemma relay_inv_put:
  assumes inv: "relay_inv y" and put: "Relay_Put ctxs e (sy_relay y) = (r, ds)" "\<not> rl_closed (sy_relay y)"
  shows "relay_inv (y\<lparr>sy_relay := r, sy_put := sy_put y @ [e], sy_delivered := sy_delivered y @ consumed ds,
       sy_unhandled := sy_unhandled y @ defaulted ds\<rparr>)"
  using put
proof (cases rule: Relay_Put_cases)
  case (consumers subs)
  obtain d p rest where subs: "subs = (d, p) # rest"
    using consumers(3) by (cases subs) auto
  have dist: "distinct (map fst subs)"
    using inv unfolding consumers(2) relay_inv_def by (auto intro: distinct_map_filter)
  have "kept y + given_to c y + (if c \<in> fst ` set subs then {#e#} else {#}) \<subseteq># mset (sy_put y) + {#e#}" for c
    using inv subset_mset.add_increasing2 [of "{#e#}" "kept y + given_to c y" "mset (sy_put y)"] by (simp add: relay_inv_def)
  moreover have "mset (sy_put y) + {#e#} \<subseteq># kept y + given y + mset (map snd (map (\<lambda>(c, _). (c, e)) subs))"
    using inv subset_mset.add_increasing2 [of "mset (map snd (map (\<lambda>(c, _). (c, e)) rest))" "mset (sy_put y)" "kept y + given y"]
    unfolding subs by (simp add: relay_inv_def add.assoc)
  moreover define y' where "y' = y\<lparr>sy_relay := r, sy_put := sy_put y @ [e], sy_delivered := sy_delivered y @ consumed ds,
       sy_unhandled := sy_unhandled y @ defaulted ds\<rparr>"
  have "given_to c y' = given_to c y + (if c \<in> fst ` set subs then {#e#} else {#})" for c
    using delivered_once [OF dist, of c e] by (simp add: y'_def given_to_def consumers(4))
  moreover have "kept y' = kept y" "given y' = given y + mset (map snd (map (\<lambda>(c, _). (c, e)) subs))"
    "mset (sy_put y') = mset (sy_put y) + {#e#}"
    by (simp_all add: y'_def kept_def given_def consumers(1,4,5))
  ultimately have "relay_inv y'"
    using inv consumers(1) unfolding relay_inv_def by (simp only: add.assoc) (simp add: y'_def)
  then show ?thesis
    by (simp add: y'_def)
next
  case cached
  then show ?thesis
    using inv by (simp add: relay_inv_def kept_def given_def given_to_def ac_simps)
next
  case default
  then show ?thesis
    using inv by (simp add: relay_inv_def kept_def given_def given_to_def ac_simps)
qed

text \<open>The other steps.\<close>

lemma Relay_Subscribe_OK:
  assumes "Relay_Subscribe registered c p r = (r', OK ms)"
  shows "ms = filter p (ca_msgs (rl_cache r))" "ca_msgs (rl_cache r') = filter (\<lambda>m. \<not> p m) (ca_msgs (rl_cache r))"
    "rl_consumers r' = rl_consumers r @ [(c, p)]" "c \<notin> fst ` set (rl_consumers r)"
  using assms by (auto simp: Relay_Subscribe_def Cache_Get_def list_ex_iff split: if_splits)

lemma relay_inv_subscribe:
  assumes inv: "relay_inv y" and sub: "Relay_Subscribe registered c p (sy_relay y) = (r, OK ms)"
  shows "relay_inv (y\<lparr>sy_relay := r, sy_pending := sy_pending y @ [(c, ms)]\<rparr>)"
proof -
  note S = Relay_Subscribe_OK [OF sub]
  let ?y = "y\<lparr>sy_relay := r, sy_pending := sy_pending y @ [(c, ms)]\<rparr>"
  have split: "mset (ca_msgs (rl_cache (sy_relay y))) = mset ms + mset (ca_msgs (rl_cache r))"
    unfolding S(1,2) by simp
  have "kept ?y + given ?y = kept y + given y"
    by (simp add: kept_def given_def split)
  moreover have "kept ?y + given_to d ?y \<subseteq># kept y + given_to d y" for d
    by (simp add: kept_def given_to_def split)
  ultimately show ?thesis
    using inv S(3,4) by (auto simp: relay_inv_def intro: subset_mset.order_trans)
qed

lemma relay_inv_step:
  assumes "relay_step y y'" "relay_inv y"
  shows "relay_inv y'"
  using assms
proof cases
  case (Put ctxs e r ds)
  then show ?thesis
    using relay_inv_put assms(2) by blast
next
  case (Subscribe registered c p r cached)
  then show ?thesis
    using relay_inv_subscribe assms(2) by blast
next
  case (Delete c r)
  show ?thesis
  proof (cases "rl_closed (sy_relay y)")
    case False
    with Delete obtain subs where subs: "replaceByLast c (rl_consumers (sy_relay y)) = Some subs" "r = (sy_relay y)\<lparr>rl_consumers := subs\<rparr>"
      by (auto simp: Relay_delete_def split: option.splits)
    have "mset subs = mset (filter (\<lambda>(d, _). d \<noteq> c) (rl_consumers (sy_relay y)))"
      using replaceByLast_mset [OF subs(1)] assms(2) by (simp add: relay_inv_def)
    then have "mset (map fst subs) = mset (map fst (filter (\<lambda>(d, _). d \<noteq> c) (rl_consumers (sy_relay y))))"
      by (metis mset_map)
    then have "distinct (map fst subs)"
      using assms(2) mset_eq_imp_distinct_iff distinct_map_filter unfolding relay_inv_def by blast
    with Delete subs(2) assms(2) show ?thesis
      by (simp add: relay_inv_def kept_def given_def given_to_def)
  qed (use Delete assms(2) in \<open>simp add: Relay_delete_def relay_inv_def kept_def given_def given_to_def\<close>)
next
  case (Close r x)
  then show ?thesis
    using assms(2) by (auto simp: Relay_Close_def Let_def Flush_def Cache_Size_def relay_inv_def kept_def given_def given_to_def
        ac_simps split: if_splits)
qed (use assms(2) in \<open>auto simp: relay_inv_def kept_def given_def given_to_def Relay_Put_def Relay_Cache_def Cache_Cache_def
    Relay_Subscribe_def Cache_Get_def SetDefaultMsgHandler_def ac_simps split: if_splits\<close>)

lemma relay_inv_reach: "relay_reach y \<Longrightarrow> relay_inv y"
proof (induction rule: rtranclp_induct)
  case base
  show ?case
    by (simp add: relay_init_def relay_inv_def kept_def given_def given_to_def NewRelay_def emptyCache_def)
qed (rule relay_inv_step)

text \<open>The order is not kept: a message that arrives after a subscription can overtake the cached ones,
  which a goroutine brings.\<close>

lemma cached_overtaken:
  "\<exists>y. relay_reach y \<and> sy_put y = [e1, e2] \<and> sy_delivered y = [(c, e2), (c, e1)]"
proof -
  let ?p = "\<lambda>_. True"
  define y1 where "y1 = relay_init\<lparr>sy_relay := Relay_Cache 0 ?p NewRelay\<rparr>"
  define y2 where "y2 = y1\<lparr>sy_relay := fst (Relay_Put (\<lambda>_. False) e1 (sy_relay y1)), sy_put := [e1]\<rparr>"
  define y3 where "y3 = y2\<lparr>sy_relay := fst (Relay_Subscribe True c ?p (sy_relay y2)), sy_pending := [(c, [e1])]\<rparr>"
  define y4 where "y4 = y3\<lparr>sy_put := [e1, e2], sy_delivered := [(c, e2)]\<rparr>"
  note ys = y1_def y2_def y3_def y4_def relay_init_def NewRelay_def emptyCache_def Relay_Cache_def Cache_Cache_def
    Relay_Put_def Cache_Put_def Relay_Subscribe_def Cache_Get_def
  have "relay_step relay_init y1"
    using relay_step.Cache [of relay_init 0 ?p] by (simp add: y1_def relay_init_def)
  moreover have "relay_step y1 y2"
    using relay_step.Put [of y1 "\<lambda>_. False" e1] by (simp add: ys)
  moreover have "relay_step y2 y3"
    using relay_step.Subscribe [of True c ?p y2] by (simp add: ys)
  moreover have "relay_step y3 y4"
    using relay_step.Put [of y3 "\<lambda>_. False" e2] by (simp add: ys)
  moreover have "relay_step y4 (y4\<lparr>sy_pending := [(c, [])], sy_delivered := [(c, e2), (c, e1)]\<rparr>)"
    using relay_step.Forward [of y4 "[]" c e1 "[]" "[]"] by (simp add: ys)
  ultimately have "relay_reach (y4\<lparr>sy_pending := [(c, [])], sy_delivered := [(c, e2), (c, e1)]\<rparr>)"
    by (meson converse_rtranclp_into_rtranclp rtranclp.rtrancl_refl)
  then show ?thesis
    by (intro exI conjI) (assumption, simp_all add: y4_def)
qed

section \<open>The dialer's check of the answer\<close>

text \<open>The answer is refused only when both its sender and its recipient are wrong.\<close>

lemma ExchangeAddrsActive_OK_iff:
  "ExchangeAddrsActive True own peer conn = (False, OK ()) \<longleftrightarrow>
     cn_Send conn \<lparr>env_Sender = own, env_Recipient = peer, env_Msg = AuthResponseMsg\<rparr> = OK () \<and>
     (\<exists>e. cn_Recv conn = OK e \<and> env_Msg e = AuthResponseMsg \<and> (env_Recipient e = own \<or> env_Sender e = peer))"
  by (auto simp: ExchangeAddrsActive_def res_simps)

end
