(* ===== verification/Perun_Concurrency.thy ===== *)
theory Perun_Concurrency
  imports Perun_Prelude "HOL-Library.Multiset"
begin

text \<open>
  The helpers for concurrent code: \<open>pkg/sync/{mutex, waitgroup, signal}.go\<close>, \<open>pkg/sync/atomic\<close>,
  \<open>pkg/context/terminates.go\<close> and the error gatherer of \<open>pkg/errors/gatherer.go\<close>.

  The methods of the primitives are atomic.  \<open>Gatherer.Add\<close> is not: its threads interleave, each at a
  point of the code (\<open>add_pc\<close>), in the transition system \<open>gather_step\<close>.
\<close>

section \<open>Atomic booleans, mutexes and wait groups\<close>

definition Bool_TrySet :: "bool \<Rightarrow> bool \<times> bool" where
  "Bool_TrySet b = (True, \<not> b)"

definition Bool_TryUnset :: "bool \<Rightarrow> bool \<times> bool" where
  "Bool_TryUnset b = (False, b)"

text \<open>A mutex is a channel with a buffer of one element; a call that blocks has no result.\<close>

definition Mutex_Lock :: "bool \<Rightarrow> bool option" where
  "Mutex_Lock locked = (if locked then None else Some True)"

definition Mutex_TryLock :: "bool \<Rightarrow> bool \<times> bool" where
  "Mutex_TryLock locked = (True, \<not> locked)"

text \<open>\<open>freed\<close>: the mutex becomes free before the context is done.\<close>

definition Mutex_TryLockCtx :: "bool option \<Rightarrow> bool \<Rightarrow> bool \<Rightarrow> bool \<times> bool" where
  "Mutex_TryLockCtx ctxDone freed locked = (case ctxDone of
      None \<Rightarrow> Mutex_TryLock locked
    | Some True \<Rightarrow> (locked, False)
    | Some False \<Rightarrow> if \<not> locked \<or> freed then (True, True) else (locked, False))"

definition Mutex_Unlock :: "bool \<Rightarrow> bool res" where
  "Mutex_Unlock locked = (if locked then OK False else Panic ''tried to unlock unlocked mutex'')"

text \<open>A wait group counts; \<open>wg_broadcasts\<close> counts how often the waiting coroutines were woken up.\<close>

record WaitGroup =
  wg_remaining :: "64 word"
  wg_broadcasts :: nat

definition WaitGroup_Add :: "64 word \<Rightarrow> WaitGroup \<Rightarrow> WaitGroup res" where
  "WaitGroup_Add n wg = (if wg_remaining wg <s - n then Panic ''WaitGroup: negative counter''
     else let wg' = wg\<lparr>wg_remaining := wg_remaining wg + n\<rparr> in
       OK (if wg_remaining wg' = 0 then wg'\<lparr>wg_broadcasts := Suc (wg_broadcasts wg')\<rparr> else wg'))"

definition WaitGroup_Done :: "WaitGroup \<Rightarrow> WaitGroup res" where
  "WaitGroup_Done wg = WaitGroup_Add (- 1) wg"

text \<open>Whether \<open>Wait\<close> returns at once.\<close>

definition WaitGroup_WaitCh :: "WaitGroup \<Rightarrow> bool" where
  "WaitGroup_WaitCh wg \<longleftrightarrow> wg_remaining wg = 0"

section \<open>Signals\<close>

text \<open>The coroutines that wait, and those that were woken up and have not returned yet.\<close>

record Signal =
  sg_waiting :: "nat list"
  sg_woken :: "nat list"

definition NewSignal :: Signal where
  "NewSignal = \<lparr>sg_waiting = [], sg_woken = []\<rparr>"

definition Signal_Wait :: "nat \<Rightarrow> Signal \<Rightarrow> Signal" where
  "Signal_Wait c s = s\<lparr>sg_waiting := sg_waiting s @ [c]\<rparr>"

definition Broadcast :: "Signal \<Rightarrow> Signal" where
  "Broadcast s = \<lparr>sg_waiting = [], sg_woken = sg_woken s @ sg_waiting s\<rparr>"

text \<open>Any of the waiting coroutines receives from the channel; without one, nothing is sent.\<close>

inductive Signal_Signal :: "Signal \<Rightarrow> Signal \<Rightarrow> bool" where
  wakes: "sg_waiting s = cs @ c # ds \<Longrightarrow> Signal_Signal s (s\<lparr>sg_waiting := cs @ ds, sg_woken := sg_woken s @ [c]\<rparr>)"
| nobody: "sg_waiting s = [] \<Longrightarrow> Signal_Signal s s"

text \<open>How a wait with a context ends, and whether the coroutine was woken up.\<close>

inductive Signal_WaitCtx :: "nat \<Rightarrow> bool \<Rightarrow> Signal \<Rightarrow> Signal \<Rightarrow> bool \<Rightarrow> bool" where
  woken: "c \<in> set (sg_woken s) \<Longrightarrow> Signal_WaitCtx c ctxDone s (s\<lparr>sg_woken := remove1 c (sg_woken s)\<rparr>) True"
| expired: "c \<in> set (sg_waiting s) \<Longrightarrow> Signal_WaitCtx c True s (s\<lparr>sg_waiting := remove1 c (sg_waiting s)\<rparr>) False"

text \<open>Nobody is woken up who does not wait, and nobody is lost.\<close>

lemma Signal_conserves:
  "Signal_Signal s s' \<Longrightarrow> mset (sg_waiting s') + mset (sg_woken s') = mset (sg_waiting s) + mset (sg_woken s)"
  "mset (sg_waiting (Broadcast s)) + mset (sg_woken (Broadcast s)) = mset (sg_waiting s) + mset (sg_woken s)"
  by (auto simp: Broadcast_def elim: Signal_Signal.cases)

text \<open>Without a context a coroutine that waits returns only after it was woken up.\<close>

lemma Signal_WaitCtx_False:
  assumes "Signal_WaitCtx c False s s' b"
  shows "b \<and> mset (sg_woken s) = add_mset c (mset (sg_woken s')) \<and> sg_waiting s' = sg_waiting s"
  using assms by cases auto

section \<open>Gathering errors\<close>

text \<open>The callbacks are numbered; \<open>g_ran\<close> are those that have been executed.\<close>

record Gatherer =
  g_errs :: "goerr list"
  g_failed :: bool
  g_onFails :: "nat list"
  g_ran :: "nat list"

definition NewGatherer :: Gatherer where
  "NewGatherer = \<lparr>g_errs = [], g_failed = False, g_onFails = [], g_ran = []\<rparr>"

definition OnFail :: "nat \<Rightarrow> Gatherer \<Rightarrow> Gatherer" where
  "OnFail fn g = g\<lparr>g_onFails := g_onFails g @ [fn]\<rparr>"

definition Gatherer_Err :: "Gatherer \<Rightarrow> goerr list option" where
  "Gatherer_Err g = (if g_errs g = [] then None else Some (g_errs g))"

text \<open>Where a thread is in \<open>Add\<close>: at the beginning with its error, before the test of the channel \<open>failed\<close>,
  before closing it, at the callbacks, at the end, or in a panic.\<close>

datatype add_pc = AddStart "goerr option" | AddTest | AddClose | AddCallbacks "nat list" | AddEnd | AddPanic

inductive add_step :: "Gatherer \<Rightarrow> add_pc \<Rightarrow> Gatherer \<Rightarrow> add_pc \<Rightarrow> bool" where
  nil: "add_step g (AddStart None) g AddEnd"
| append: "add_step g (AddStart (Some e)) (g\<lparr>g_errs := g_errs g @ [e]\<rparr>) AddTest"
| later: "g_failed g \<Longrightarrow> add_step g AddTest g AddEnd"
| first: "\<not> g_failed g \<Longrightarrow> add_step g AddTest g AddClose"
| close: "\<not> g_failed g \<Longrightarrow> add_step g AddClose (g\<lparr>g_failed := True\<rparr>) (AddCallbacks (g_onFails g))"
| closed: "g_failed g \<Longrightarrow> add_step g AddClose g AddPanic"
| callback: "add_step g (AddCallbacks (f # fs)) (g\<lparr>g_ran := g_ran g @ [f]\<rparr>) (AddCallbacks fs)"
| finished: "add_step g (AddCallbacks []) g AddEnd"

inductive_cases add_stepE: "add_step g p g' p'"

inductive gather_step :: "Gatherer \<times> add_pc list \<Rightarrow> Gatherer \<times> add_pc list \<Rightarrow> bool" where
  thread: "i < length ts \<Longrightarrow> add_step g (ts ! i) g' p \<Longrightarrow> gather_step (g, ts) (g', ts[i := p])"

section \<open>No error is lost\<close>

primrec to_add :: "add_pc \<Rightarrow> goerr list" where
  "to_add (AddStart e) = (case e of None \<Rightarrow> [] | Some x \<Rightarrow> [x])"
| "to_add AddTest = []"
| "to_add AddClose = []"
| "to_add (AddCallbacks fs) = []"
| "to_add AddEnd = []"
| "to_add AddPanic = []"

lemma concat_update:
  assumes "i < length ts"
  shows "mset (concat (map f (ts[i := p]))) + mset (f (ts ! i)) = mset (concat (map f ts)) + mset (f p)"
  using assms
proof (induction ts arbitrary: i)
  case (Cons t ts)
  then show ?case
    by (cases i) (simp_all add: ac_simps)
qed simp

definition pooled :: "Gatherer \<times> add_pc list \<Rightarrow> goerr multiset" where
  "pooled x = mset (g_errs (fst x)) + mset (concat (map to_add (snd x)))"

lemma gather_step_pooled:
  assumes "gather_step x y"
  shows "pooled y = pooled x"
  using assms
proof cases
  case (thread i ts g g' p)
  have "mset (g_errs g') + mset (to_add p) = mset (g_errs g) + mset (to_add (ts ! i))"
    using thread(4) by cases simp_all
  from arg_cong2 [OF this concat_update [OF thread(3), of to_add p], of "(+)"]
  have "pooled (g', ts[i := p]) + (mset (to_add p) + mset (to_add (ts ! i))) = pooled (g, ts) + (mset (to_add p) + mset (to_add (ts ! i)))"
    by (simp add: pooled_def ac_simps)
  with thread(1,2) show ?thesis
    by (simp only: add_right_cancel)
qed

lemma gather_pooled: "gather_step\<^sup>*\<^sup>* x y \<Longrightarrow> pooled y = pooled x"
  by (induction rule: rtranclp_induct) (simp_all add: gather_step_pooled)

text \<open>When all threads have ended, the gatherer has exactly the errors that were added.\<close>

lemma gathered_all:
  assumes "gather_step\<^sup>*\<^sup>* (NewGatherer, map AddStart es) (g, ts)" "\<forall>t \<in> set ts. t = AddEnd"
  shows "mset (g_errs g) = mset (concat (map (\<lambda>e. case e of None \<Rightarrow> [] | Some x \<Rightarrow> [x]) es))"
proof -
  have "concat (map to_add ts) = []"
    using assms(2) by (induction ts) auto
  moreover have "map to_add (map AddStart es) = map (\<lambda>e. case e of None \<Rightarrow> [] | Some x \<Rightarrow> [x]) es"
    by simp
  ultimately show ?thesis
    using gather_pooled [OF assms(1)] by (simp only: pooled_def fst_conv snd_conv) (simp add: NewGatherer_def)
qed

section \<open>Two errors at once\<close>

text \<open>Two threads that both test the channel before either closes it: the second panics.\<close>

lemma gather_race:
  "\<exists>g. gather_step\<^sup>*\<^sup>* (NewGatherer, [AddStart (Some e), AddStart (Some e')]) (g, [AddCallbacks [], AddPanic])"
proof -
  let ?g1 = "NewGatherer\<lparr>g_errs := [e]\<rparr>" and ?g2 = "NewGatherer\<lparr>g_errs := [e, e']\<rparr>"
  have s: "gather_step (g, ts) (g', ts[i := p])" if "i < length ts" "add_step g (ts ! i) g' p" for g ts g' i p
    using that by (rule gather_step.thread)
  have "gather_step (NewGatherer, [AddStart (Some e), AddStart (Some e')]) (?g1, [AddTest, AddStart (Some e')])"
    using s [of 0 "[AddStart (Some e), AddStart (Some e')]"] add_step.append [of NewGatherer e] by (simp add: NewGatherer_def)
  moreover have "gather_step (?g1, [AddTest, AddStart (Some e')]) (?g2, [AddTest, AddTest])"
    using s [of 1 "[AddTest, AddStart (Some e')]"] add_step.append [of ?g1 e'] by simp
  moreover have "gather_step (?g2, [AddTest, AddTest]) (?g2, [AddClose, AddTest])"
    using s [of 0 "[AddTest, AddTest]"] add_step.first [of ?g2] by (simp add: NewGatherer_def)
  moreover have "gather_step (?g2, [AddClose, AddTest]) (?g2, [AddClose, AddClose])"
    using s [of 1 "[AddClose, AddTest]"] add_step.first [of ?g2] by (simp add: NewGatherer_def)
  moreover have "gather_step (?g2, [AddClose, AddClose]) (?g2\<lparr>g_failed := True\<rparr>, [AddCallbacks [], AddClose])"
    using s [of 0 "[AddClose, AddClose]"] add_step.close [of ?g2] by (simp add: NewGatherer_def)
  moreover have "gather_step (?g2\<lparr>g_failed := True\<rparr>, [AddCallbacks [], AddClose]) (?g2\<lparr>g_failed := True\<rparr>, [AddCallbacks [], AddPanic])"
    using s [of 1 "[AddCallbacks [], AddClose]"] add_step.closed [of "?g2\<lparr>g_failed := True\<rparr>"] by simp
  ultimately show ?thesis
    by (meson converse_rtranclp_into_rtranclp rtranclp.rtrancl_refl)
qed

text \<open>As long as at most one thread is between the test and the end of closing, none panics; in
  particular a single thread never does.\<close>

lemma single_add_no_panic:
  assumes "gather_step\<^sup>*\<^sup>* (g, [AddStart e]) (g', ts)"
  shows "AddPanic \<notin> set ts"
proof -
  have "length (snd y) = 1 \<and> hd (snd y) \<noteq> AddPanic \<and> (hd (snd y) = AddClose \<longrightarrow> \<not> g_failed (fst y))"
    if "gather_step\<^sup>*\<^sup>* (g, [AddStart e]) y" for y
    using that
  proof (induction rule: rtranclp_induct)
    case (step y z)
    from step(2) show ?case
    proof cases
      case (thread i ts h h' p)
      moreover obtain t where "ts = [t]"
        using thread step.IH by (cases ts) auto
      ultimately show ?thesis
        using step.IH by (auto elim!: add_stepE)
    qed
  qed simp
  from this [OF assms] show ?thesis
    by (cases ts) auto
qed

section \<open>Goroutines of a gatherer\<close>

text \<open>\<open>Go\<close> starts a goroutine that adds the error \<open>e\<close> of its function; the first component are the errors of
  all functions so far.  \<open>Wait\<close> returns when all goroutines have.\<close>

inductive go_step :: "goerr option list \<times> Gatherer \<times> add_pc list \<Rightarrow> goerr option list \<times> Gatherer \<times> add_pc list \<Rightarrow> bool" where
  Go: "go_step (es, g, ts) (es @ [e], g, ts @ [AddStart e])"
| Run: "gather_step x y \<Longrightarrow> go_step (es, x) (es, y)"

definition Gatherer_Wait :: "Gatherer \<times> add_pc list \<Rightarrow> goerr list option option" where
  "Gatherer_Wait x = (if list_all (\<lambda>t. t = AddEnd) (snd x) then Some (Gatherer_Err (fst x)) else None)"

primrec some_errors :: "goerr option list \<Rightarrow> goerr list" where
  "some_errors [] = []"
| "some_errors (e # es) = (case e of None \<Rightarrow> some_errors es | Some x \<Rightarrow> x # some_errors es)"

lemma some_errors_append: "some_errors (es @ fs) = some_errors es @ some_errors fs"
  by (induction es) (auto split: option.splits)

lemma go_pooled: "go_step\<^sup>*\<^sup>* ([], NewGatherer, []) (es, x) \<Longrightarrow> pooled x = mset (some_errors es)"
proof (induction "(es, x)" arbitrary: es x rule: rtranclp_induct)
  case base
  then show ?case
    by (simp add: pooled_def NewGatherer_def)
next
  case (step y)
  from step(2) show ?case
  proof cases
    case (Go fs g ts e)
    with step(3) [of fs "(g, ts)"] show ?thesis
      by (auto simp: pooled_def some_errors_append split: option.splits)
  next
    case (Run x')
    with step(3) gather_step_pooled show ?thesis
      by simp
  qed
qed

text \<open>\<open>Wait\<close> returns all errors of the functions, and nil only if there are none.\<close>

lemma Wait_returns_all:
  assumes "go_step\<^sup>*\<^sup>* ([], NewGatherer, []) (es, g, ts)" "Gatherer_Wait (g, ts) = Some r"
  shows "mset (case r of None \<Rightarrow> [] | Some errs \<Rightarrow> errs) = mset (some_errors es)" "r = None \<longleftrightarrow> some_errors es = []"
proof -
  have "concat (map to_add ts) = []" "r = Gatherer_Err g"
    using assms(2) by (auto simp: Gatherer_Wait_def list_all_iff split: if_splits)
  then have errs: "mset (g_errs g) = mset (some_errors es)"
    using go_pooled [OF assms(1)] by (simp only: pooled_def fst_conv snd_conv) simp
  then show "mset (case r of None \<Rightarrow> [] | Some errs \<Rightarrow> errs) = mset (some_errors es)"
    by (cases "g_errs g = []") (simp_all add: \<open>r = _\<close> Gatherer_Err_def)
  show "r = None \<longleftrightarrow> some_errors es = []"
    using errs by (cases "g_errs g = []") (auto simp: \<open>r = _\<close> Gatherer_Err_def)
qed

section \<open>The accumulated error\<close>

text \<open>Decimal numbers as \<open>fmt\<close> prints them; the message is built from the messages of the errors.\<close>

fun decimal :: "nat \<Rightarrow> string" where
  "decimal n = (if n < 10 then [char_of (48 + n)] else decimal (n div 10) @ [char_of (48 + n mod 10)])"

declare decimal.simps [simp del]

definition accumulatedError_Error :: "string list \<Rightarrow> string" where
  "accumulatedError_Error msgs = ''('' @ decimal (length msgs) @ '' error'' @ (if length msgs \<noteq> 1 then ''s'' else '''') @ '')'' @
     concat (map (\<lambda>(i, msg). [char_of (10 :: nat)] @ decimal (i + 1) @ ''): '' @ msg) (enumerate 0 msgs))"

definition Causes :: "goerr option \<Rightarrow> goerr list" where
  "Causes err = (case err of
      None \<Rightarrow> []
    | Some e \<Rightarrow> (case Cause e of AccumulatedError acc \<Rightarrow> acc | _ \<Rightarrow> [e]))"

text \<open>\<open>Causes\<close> finds the gathered errors also under added messages.\<close>

lemma Causes_gathered:
  assumes "Gatherer_Err g = Some errs"
  shows "Causes (Some (foldr ErrWithMessage msgs (AccumulatedError errs))) = g_errs g"
proof -
  have "Cause (foldr ErrWithMessage msgs (AccumulatedError errs)) = AccumulatedError errs"
    by (induction msgs) simp_all
  with assms show ?thesis
    by (simp add: Causes_def Gatherer_Err_def split: if_splits)
qed

lemma accumulated_example:
  "accumulatedError_Error [''a'', ''b''] = ''(2 errors)'' @ [char_of (10 :: nat)] @ ''1): a'' @ [char_of (10 :: nat)] @ ''2): b''"
  by code_simp

section \<open>Contexts\<close>

text \<open>\<open>TerminatesCtx\<close>: whether the context is done at the beginning, whether it becomes done, whether the function
  returns, and the result; a \<open>select\<close> with both cases ready chooses any of them.\<close>

inductive TerminatesCtx :: "bool \<Rightarrow> bool \<Rightarrow> bool \<Rightarrow> bool \<Rightarrow> bool" where
  started_late: "TerminatesCtx True expires returns False"
| returned: "TerminatesCtx False expires True True"
| expired: "TerminatesCtx False True returns False"

inductive_simps TerminatesCtx_simps: "TerminatesCtx ctxDone expires returns b"

text \<open>With a timeout the call always ends, and it reports success only of a function that has returned.\<close>

definition Terminates :: "bool \<Rightarrow> bool \<Rightarrow> bool" where
  "Terminates returns b \<longleftrightarrow> TerminatesCtx False True returns b"

lemma Terminates_ends: "Terminates returns False" "Terminates returns True \<longleftrightarrow> returns"
  by (auto simp: Terminates_def TerminatesCtx_simps)

lemma TerminatesCtx_blocks_iff: "(\<nexists>b. TerminatesCtx ctxDone expires returns b) \<longleftrightarrow> \<not> ctxDone \<and> \<not> expires \<and> \<not> returns"
  by (auto simp: TerminatesCtx_simps)

end
