(* ===== verification/Perun_Network.thy ===== *)
theory Perun_Network
  imports Perun_Routing Perun_Concurrency Perun_Protocol Perun_EthBackend "HOL-Library.AList"
begin

text \<open>
  The network layer: \<open>wire/net/{ioconn, endpoint, endpoint_registry, bus}.go\<close> and the lookup table of
  \<open>wire/net/simple/dialer.go\<close>.

  An endpoint is a reference into the registry's heap of endpoints.  What a connection receives, the
  outcome of dialing and the end of a context are arguments.  An operation of the registry is a function
  of the registry; what other goroutines do while a peer is dialed is an argument as well.  How two nodes
  that dial each other at the same time agree on a connection is a transition system, with the atomic
  operations on the registry's entry as its steps.

  Shown here: both nodes keep the same connection, whatever the order of their steps; at any time there
  is at most one open connection to a peer in the registry; publishing gives up after three attempts; a
  subscriber that closes after the bus makes the program panic.
\<close>

section \<open>Connections and endpoints\<close>

text \<open>\<open>ep_io\<close> is what closing the stream returns.\<close>

record Endpoint =
  ep_Address :: address
  ep_closed :: bool
  ep_io :: "unit res"

definition newEndpoint :: "address \<Rightarrow> unit res \<Rightarrow> Endpoint" where
  "newEndpoint addr io = \<lparr>ep_Address = addr, ep_closed = False, ep_io = io\<rparr>"

definition ioConn_Close :: "Endpoint \<Rightarrow> Endpoint \<times> unit res" where
  "ioConn_Close e = (case Bool_TrySet (ep_closed e) of
      (_, False) \<Rightarrow> (e, Err (ErrNew ''already closed''))
    | (b, True) \<Rightarrow> (e\<lparr>ep_closed := b\<rparr>, ep_io e))"

text \<open>Sending and receiving over a stream; the second component is whether the stream was closed.\<close>

definition ioConn_Send :: "'m channel_backend_scheme \<Rightarrow> (bytes \<Rightarrow> unit res) \<Rightarrow> Envelope \<Rightarrow> unit res \<times> bool" where
  "ioConn_Send B stream e = (case bindR (Envelope_Encode B e) stream of
      Err x \<Rightarrow> (Err x, True)
    | r \<Rightarrow> (r, False))"

definition ioConn_Recv :: "'m channel_backend_scheme \<Rightarrow> msg_decoders \<Rightarrow> bytes \<Rightarrow> (Envelope \<times> bytes) res \<times> bool" where
  "ioConn_Recv B ds r = (case Envelope_Decode B ds r of
      Err x \<Rightarrow> (Err x, True)
    | y \<Rightarrow> (y, False))"

text \<open>The receive loop: the outcomes of \<open>Recv\<close>, in order.  It returns the envelopes given to the consumer
  and, when it has ended, its outcome.\<close>

fun recvLoop :: "Envelope res list \<Rightarrow> Envelope list \<times> unit res option" where
  "recvLoop [] = ([], None)"
| "recvLoop (OK e # rs) = (case recvLoop rs of (es, r) \<Rightarrow> (e # es, r))"
| "recvLoop (Err x # rs) = ([], Some (if Cause x = ErrEOF then OK () else Err x))"
| "recvLoop (Panic s # rs) = ([], Some (Panic s))"

section \<open>The registry\<close>

type_synonym eref = nat

text \<open>\<open>er_endpoints\<close> has an entry for each peer, whose endpoint may be nil; \<open>er_loops\<close> are the endpoints
  whose receive loops run.\<close>

record EndpointRegistry =
  er_id :: address
  er_endpoints :: "(bytes \<times> eref option) list"
  er_dialing :: "bytes list"
  er_heap :: "Endpoint list"
  er_loops :: "eref list"
  er_isClosed :: bool

definition NewEndpointRegistry :: "address \<Rightarrow> EndpointRegistry" where
  "NewEndpointRegistry i =
     \<lparr>er_id = i, er_endpoints = [], er_dialing = [], er_heap = [], er_loops = [], er_isClosed = False\<rparr>"

definition closeEndpoint :: "eref \<Rightarrow> (EndpointRegistry, unit) call" where
  "closeEndpoint e =
     bindS (getS (\<lambda>r. index_at (er_heap r) e)) (\<lambda>ep r.
     case ioConn_Close ep of (ep', x) \<Rightarrow> (r\<lparr>er_heap := (er_heap r)[e := ep']\<rparr>, x))"

text \<open>\<open>locked\<close>: whether the mutex for sending was acquired; then the sending ends, or the context does.\<close>

datatype send_item = Sent "unit res" | SendCtx goerr

definition Endpoint_Send :: "bool \<Rightarrow> send_item \<Rightarrow> eref \<Rightarrow> (EndpointRegistry, unit) call" where
  "Endpoint_Send locked i e =
     (if \<not> locked then bindS (ignoreS (closeEndpoint e)) (\<lambda>_. liftS (Err (ErrNew ''failed to lock sending mutex'')))
      else case i of
        Sent x \<Rightarrow> liftS x
      | SendCtx x \<Rightarrow> bindS (ignoreS (closeEndpoint e)) (\<lambda>_. liftS (Err (ErrWithMessage ''context canceled'' x))))"

text \<open>The entry of a key: \<open>None\<close> when there is none, \<open>Some None\<close> when its endpoint is nil.\<close>

definition entry :: "EndpointRegistry \<Rightarrow> bytes \<Rightarrow> eref option option" where
  "entry r key = map_of (er_endpoints r) key"

definition setEntry :: "bytes \<Rightarrow> eref option \<Rightarrow> EndpointRegistry \<Rightarrow> EndpointRegistry" where
  "setEntry key e r = r\<lparr>er_endpoints := AList.update key e (er_endpoints r)\<rparr>"

definition getOrCreateFullEndpoint :: "bytes \<Rightarrow> eref \<Rightarrow> (EndpointRegistry, bool) call" where
  "getOrCreateFullEndpoint key e r =
     (if entry r key = None then (setEntry key (Some e) r, OK True) else (r, OK False))"

text \<open>\<open>replace\<close> without interference of other goroutines; \<open>cmp\<close> is the order of addresses.  The result is
  the endpoint that is selected, and whether the new one was closed.\<close>

definition endpoint_replace :: "(address \<Rightarrow> address \<Rightarrow> int) \<Rightarrow> bytes \<Rightarrow> eref \<Rightarrow> bool \<Rightarrow> (EndpointRegistry, eref option \<times> bool) call" where
  "endpoint_replace cmp key new dialer =
     bindS (getS (\<lambda>r. bindR (deref (entry r key)) (\<lambda>old. bindR (index_at (er_heap r) new) (\<lambda>ep. OK (old, ep, er_id r))))) (\<lambda>(old, ep, self).
     case old of
       None \<Rightarrow> bindS (modifyS (setEntry key (Some new))) (\<lambda>_. returnS (Some new, False))
     | Some o' \<Rightarrow>
         if dialer = (cmp self (ep_Address ep) < 0)
         then bindS (ignoreS (closeEndpoint new)) (\<lambda>_. returnS (Some o', True))
         else bindS (modifyS (setEntry key (Some new))) (\<lambda>_.
              bindS (ignoreS (closeEndpoint o')) (\<lambda>_. returnS (Some new, False))))"

definition endpoint_delete :: "bytes \<Rightarrow> eref \<Rightarrow> EndpointRegistry \<Rightarrow> EndpointRegistry" where
  "endpoint_delete key e r = (if entry r key = Some (Some e) then setEntry key None r else r)"

definition addEndpoint ::
    "'m wallet_backend_scheme \<Rightarrow> (address \<Rightarrow> address \<Rightarrow> int) \<Rightarrow> address \<Rightarrow> unit res \<Rightarrow> bool \<Rightarrow> (EndpointRegistry, eref option) call" where
  "addEndpoint B cmp addr io dialer =
     bindS (getS (\<lambda>r. OK (length (er_heap r)))) (\<lambda>e.
     bindS (modifyS (\<lambda>r. r\<lparr>er_heap := er_heap r @ [newEndpoint addr io]\<rparr>)) (\<lambda>_.
     bindS (liftS (Key B addr)) (\<lambda>key.
     bindS (getOrCreateFullEndpoint key e) (\<lambda>created.
     bindS (if created then returnS (Some e, False) else endpoint_replace cmp key e dialer) (\<lambda>(e', closed).
     if closed then returnS e'
     else bindS (modifyS (\<lambda>r. r\<lparr>er_loops := er_loops r @ [e]\<rparr>)) (\<lambda>_. returnS (Some e)))))))"

text \<open>The receive loop of an endpoint has ended: the endpoint is closed and deleted from its entry.\<close>

definition endLoop :: "'m wallet_backend_scheme \<Rightarrow> eref \<Rightarrow> (EndpointRegistry, unit) call" where
  "endLoop B e =
     bindS (getS (\<lambda>r. index_at (er_heap r) e)) (\<lambda>ep.
     bindS (liftS (Key B (ep_Address ep))) (\<lambda>key.
     bindS (ignoreS (closeEndpoint e)) (\<lambda>_.
     modifyS (\<lambda>r. (endpoint_delete key e r)\<lparr>er_loops := remove1 e (er_loops r)\<rparr>))))"

definition registry_find :: "'m wallet_backend_scheme \<Rightarrow> address \<Rightarrow> EndpointRegistry \<Rightarrow> eref option res" where
  "registry_find B addr r = bindR (Key B addr) (\<lambda>key. OK (Option.bind (entry r key) id))"

definition reg_Has :: "'m wallet_backend_scheme \<Rightarrow> address \<Rightarrow> EndpointRegistry \<Rightarrow> bool res" where
  "reg_Has B addr r = bindR (Key B addr) (\<lambda>key. OK (entry r key \<noteq> None))"

definition reg_NumPeers :: "EndpointRegistry \<Rightarrow> nat" where
  "reg_NumPeers r = length (er_endpoints r)"

section \<open>Dialing and listening\<close>

text \<open>A dialer's connection with what closing it returns.  \<open>Register\<close> of the simple dialer stores the
  network address of a peer.\<close>

type_synonym Dialer = "address \<Rightarrow> (Conn \<times> unit res) res"

definition Dialer_Register :: "'m wallet_backend_scheme \<Rightarrow> address \<Rightarrow> string \<Rightarrow> (bytes \<Rightarrow> string option) \<Rightarrow> (bytes \<Rightarrow> string option) res" where
  "Dialer_Register B addr host peers = bindR (Key B addr) (\<lambda>key. OK (peers(key \<mapsto> host)))"

definition Dialer_Dial ::
    "'m wallet_backend_scheme \<Rightarrow> (string \<Rightarrow> (Conn \<times> unit res) res) \<Rightarrow> (bytes \<Rightarrow> string option) \<Rightarrow> Dialer" where
  "Dialer_Dial B dialContext peers addr =
     bindR (Key B addr) (\<lambda>key. case peers key of
       None \<Rightarrow> Err (ErrNew ''peer not found'')
     | Some host \<Rightarrow> with_msg ''failed to dial peer'' (dialContext host))"

definition getOrCreateDialingEndpoint :: "bytes \<Rightarrow> (EndpointRegistry, bool) call" where
  "getOrCreateDialingEndpoint key r =
     (if key \<in> set (er_dialing r) then (r, OK False) else (r\<lparr>er_dialing := er_dialing r @ [key]\<rparr>, OK True))"

text \<open>What ends the wait for another dial: the registry is closed, the context ends, the dial ends.\<close>

datatype dial_wait = DialRegClosed | DialCtx goerr | DialCreated "eref option"

text \<open>\<open>dl_others\<close> is what other goroutines do to the registry while the peer is dialed.\<close>

record dial_env =
  dl_wait :: dial_wait
  dl_dial :: Dialer
  dl_inTime :: bool
  dl_others :: "EndpointRegistry \<Rightarrow> EndpointRegistry"

definition authenticatedDial ::
    "'m wallet_backend_scheme \<Rightarrow> (address \<Rightarrow> address \<Rightarrow> int) \<Rightarrow> dial_env \<Rightarrow> address \<Rightarrow> bool \<Rightarrow> (EndpointRegistry, eref option) call" where
  "authenticatedDial B cmp E addr created =
     bindS (liftS (Key B addr)) (\<lambda>key.
     if \<not> created then
       (case dl_wait E of
          DialRegClosed \<Rightarrow> liftS (Err (ErrNew ''waiting for dial, registry closed''))
        | DialCtx x \<Rightarrow> liftS (Err (ErrWithMessage ''waiting for dial, context'' x))
        | DialCreated None \<Rightarrow> liftS (Err (ErrNew ''waiting for dial, dial failed''))
        | DialCreated (Some e) \<Rightarrow> returnS (Some e))
     else (\<lambda>r. map_prod (\<lambda>r. r\<lparr>er_dialing := remove1 key (er_dialing r)\<rparr>) id
       (bindS (modifyS (dl_others E)) (\<lambda>_.
        bindS (liftS (with_msg ''failed to dial'' (dl_dial E addr))) (\<lambda>(conn, io).
        bindS (getS (\<lambda>r. OK (er_id r))) (\<lambda>self.
        bindS (liftS (with_msg ''ExchangeAddrs failed'' (snd (ExchangeAddrsActive (dl_inTime E) self addr conn)))) (\<lambda>_.
        addEndpoint B cmp addr io True)))) r)))"

definition reg_Get ::
    "'m wallet_backend_scheme \<Rightarrow> (address \<Rightarrow> address \<Rightarrow> int) \<Rightarrow> dial_env \<Rightarrow> address \<Rightarrow> (EndpointRegistry, eref option) call" where
  "reg_Get B cmp E addr =
     bindS (liftS (Key B addr)) (\<lambda>key.
     bindS (getS (\<lambda>r. panic_if (addr = er_id r) ''tried to dial self'')) (\<lambda>_.
     bindS (getS (\<lambda>r. OK (entry r key))) (\<lambda>fe.
     case fe of
       Some (Some e) \<Rightarrow> returnS (Some e)
     | _ \<Rightarrow> bindS (getOrCreateDialingEndpoint key) (\<lambda>created.
         msgS ''failed to dial peer'' (authenticatedDial B cmp E addr created)))))"

definition setupConn ::
    "'m wallet_backend_scheme \<Rightarrow> (address \<Rightarrow> address \<Rightarrow> int) \<Rightarrow> bool \<Rightarrow> Conn \<Rightarrow> unit res \<Rightarrow> (EndpointRegistry, unit) call" where
  "setupConn B cmp inTime conn io =
     bindS (getS (\<lambda>r. OK (er_id r))) (\<lambda>self.
     bindS (liftS (snd (ExchangeAddrsPassive inTime self conn))) (\<lambda>peerAddr.
     if peerAddr = self then liftS (Err (ErrNew ''dialed by self''))
     else bindS (addEndpoint B cmp peerAddr io False) (\<lambda>_. returnS ())))"

text \<open>The connections that are accepted until \<open>Accept\<close> fails; the goroutines that set them up are taken in
  their order.\<close>

definition Listen ::
    "'m wallet_backend_scheme \<Rightarrow> (address \<Rightarrow> address \<Rightarrow> int) \<Rightarrow> (bool \<times> Conn \<times> unit res) list \<Rightarrow> (EndpointRegistry, unit) call" where
  "Listen B cmp accepted =
     bindS (getS (\<lambda>r. OK (er_isClosed r))) (\<lambda>closed.
     if closed then returnS ()
     else forEachS (\<lambda>(inTime, conn, io). ignoreS (setupConn B cmp inTime conn io)) accepted)"

text \<open>Closing: the first error is reported; that of the dialer comes first.\<close>

primrec closePeers :: "eref option list \<Rightarrow> goerr option \<Rightarrow> (EndpointRegistry, goerr option) call" where
  "closePeers [] err = returnS err"
| "closePeers (p # ps) err = (case p of
      None \<Rightarrow> closePeers ps err
    | Some e \<Rightarrow> (\<lambda>r. case closeEndpoint e r of
          (r', OK _) \<Rightarrow> closePeers ps err r'
        | (r', Err x) \<Rightarrow> closePeers ps (case err of None \<Rightarrow> Some (ErrWithMessage ''closing peer'' x) | _ \<Rightarrow> err) r'
        | (r', Panic s) \<Rightarrow> (r', Panic s)))"

definition reg_Close :: "unit res option \<Rightarrow> (EndpointRegistry, unit) call" where
  "reg_Close dialer =
     bindS (getS (\<lambda>r. err_if (er_isClosed r) (ErrNew ''Closer already closed''))) (\<lambda>_.
     bindS (modifyS (\<lambda>r. r\<lparr>er_isClosed := True\<rparr>)) (\<lambda>_.
     bindS (liftS (case dialer of
         Some (Err x) \<Rightarrow> OK (Some (ErrWithMessage ''closing dialer'' x))
       | Some (Panic s) \<Rightarrow> Panic s
       | _ \<Rightarrow> OK None)) (\<lambda>err.
     bindS (getS (\<lambda>r. OK (map snd (er_endpoints r)))) (\<lambda>ps.
     bindS (closePeers ps err) (\<lambda>err.
     liftS (case err of None \<Rightarrow> OK () | Some x \<Rightarrow> Err x))))))"

section \<open>The bus\<close>

text \<open>\<open>bus_recvs\<close> is \<open>None\<close> when the map is nil.\<close>

record Bus =
  bus_reg :: EndpointRegistry
  bus_recvs :: "(bytes \<Rightarrow> nat option) option"
  bus_mainClosed :: bool

definition NewBus :: "address \<Rightarrow> Bus" where
  "NewBus i = \<lparr>bus_reg = NewEndpointRegistry i, bus_recvs = Some Map.empty, bus_mainClosed = False\<rparr>"

definition bus_lookup :: "bytes \<Rightarrow> Bus \<Rightarrow> nat option" where
  "bus_lookup key b = (case bus_recvs b of None \<Rightarrow> None | Some m \<Rightarrow> m key)"

definition addSubscriber :: "'m wallet_backend_scheme \<Rightarrow> nat \<Rightarrow> address \<Rightarrow> (Bus, unit) call" where
  "addSubscriber B c addr =
     bindS (liftS (Key B addr)) (\<lambda>key.
     bindS (getS (\<lambda>b. panic_if (bus_lookup key b \<noteq> None) ''duplicate SubscribeClient'')) (\<lambda>_ b.
     case bus_recvs b of
       None \<Rightarrow> (b, Panic ''assignment to entry in nil map'')
     | Some m \<Rightarrow> (b\<lparr>bus_recvs := Some (m(key \<mapsto> c))\<rparr>, OK ())))"

definition removeSubscriber :: "'m wallet_backend_scheme \<Rightarrow> address \<Rightarrow> (Bus, unit) call" where
  "removeSubscriber B addr =
     bindS (liftS (Key B addr)) (\<lambda>key.
     bindS (getS (\<lambda>b. panic_if (bus_lookup key b = None) ''deleting nonexisting subscriber'')) (\<lambda>_.
     modifyS (\<lambda>b. b\<lparr>bus_recvs := map_option (\<lambda>m. m(key := None)) (bus_recvs b)\<rparr>)))"

text \<open>\<open>consumer\<close> is the consumer's closer; its callback \<open>cb\<close> removes the subscriber.  A consumer that is
  closed already runs the callback at once.\<close>

definition bus_SubscribeClient ::
    "'m wallet_backend_scheme \<Rightarrow> nat \<Rightarrow> nat \<Rightarrow> address \<Rightarrow> Closer \<Rightarrow> (Bus, Closer) call" where
  "bus_SubscribeClient B c cb addr consumer =
     bindS (addSubscriber B c addr) (\<lambda>_.
     case OnCloseAlways cb consumer of
       (consumer', True) \<Rightarrow> returnS consumer'
     | (consumer', False) \<Rightarrow> bindS (removeSubscriber B addr) (\<lambda>_. returnS consumer'))"

definition PublishAttempts :: nat where "PublishAttempts = 3"

text \<open>An attempt to publish: what dialing and sending return, and how the wait for the next one ends.\<close>

datatype publish_wait = PublishCtx | PublishClosed | PublishCooldown

record attempt =
  at_dial :: dial_env
  at_locked :: bool
  at_send :: send_item
  at_wait :: publish_wait

definition onReg :: "(EndpointRegistry, 'a) call \<Rightarrow> (Bus, 'a) call" where
  "onReg c b = (case c (bus_reg b) of (r, x) \<Rightarrow> (b\<lparr>bus_reg := r\<rparr>, x))"

definition publishOnce ::
    "'m wallet_backend_scheme \<Rightarrow> (address \<Rightarrow> address \<Rightarrow> int) \<Rightarrow> attempt \<Rightarrow> Envelope \<Rightarrow> (Bus, unit) call" where
  "publishOnce B cmp A e =
     bindS (onReg (reg_Get B cmp (at_dial A) (env_Recipient e))) (\<lambda>ep.
     bindS (liftS (deref ep)) (\<lambda>ep. onReg (Endpoint_Send (at_locked A) (at_send A) ep)))"

primrec publishLoop ::
    "'m wallet_backend_scheme \<Rightarrow> (address \<Rightarrow> address \<Rightarrow> int) \<Rightarrow> attempt list \<Rightarrow> Envelope \<Rightarrow> unit res \<Rightarrow> (Bus, unit) call" where
  "publishLoop B cmp [] e lastErr = liftS lastErr"
| "publishLoop B cmp (A # As) e lastErr = (\<lambda>b. case publishOnce B cmp A e b of
      (b', OK _) \<Rightarrow> (b', OK ())
    | (b', Panic s) \<Rightarrow> (b', Panic s)
    | (b', Err x) \<Rightarrow>
        if IsAuthenticationError x then (b', Err x)
        else case at_wait A of
          PublishCtx \<Rightarrow> (b', Err (ErrWithMessage ''publishing %T envelope'' x))
        | PublishClosed \<Rightarrow> (b', Err (ErrNew ''publishing %T envelope: Bus closed''))
        | PublishCooldown \<Rightarrow> publishLoop B cmp As e (Err x) b')"

definition bus_Publish ::
    "'m wallet_backend_scheme \<Rightarrow> (address \<Rightarrow> address \<Rightarrow> int) \<Rightarrow> (nat \<Rightarrow> attempt) \<Rightarrow> Envelope \<Rightarrow> (Bus, unit) call" where
  "bus_Publish B cmp As e = publishLoop B cmp (map As [0..<PublishAttempts]) e (OK ())"

definition bus_Close :: "unit res option \<Rightarrow> (Bus, unit) call" where
  "bus_Close dialer =
     bindS (getS (\<lambda>b. err_if (bus_mainClosed b) (ErrNew ''Closer already closed''))) (\<lambda>_.
     bindS (modifyS (\<lambda>b. b\<lparr>bus_mainClosed := True, bus_recvs := None\<rparr>)) (\<lambda>_.
     onReg (reg_Close dialer)))"

text \<open>The consumer that gets a received envelope; an envelope for an unknown recipient is dropped.\<close>

definition dispatchMsg :: "'m wallet_backend_scheme \<Rightarrow> Bus \<Rightarrow> Envelope \<Rightarrow> delivery list res" where
  "dispatchMsg B b e = bindR (Key B (env_Recipient e)) (\<lambda>key.
     OK (case bus_lookup key b of None \<Rightarrow> [] | Some c \<Rightarrow> [ToConsumer c e]))"

primrec dispatchMsgs :: "'m wallet_backend_scheme \<Rightarrow> Bus \<Rightarrow> Envelope list \<Rightarrow> delivery list res" where
  "dispatchMsgs B b [] = OK []"
| "dispatchMsgs B b (e # es) =
     bindR (dispatchMsg B b e) (\<lambda>ds. bindR (dispatchMsgs B b es) (\<lambda>ds'. OK (ds @ ds')))"

section \<open>One open connection for each peer\<close>

text \<open>Every open endpoint is the one in the entry of its peer; entries and receive loops refer to endpoints
  that exist.  \<open>X\<close> are endpoints that are being added.\<close>

definition entries_ok :: "'m wallet_backend_scheme \<Rightarrow> eref set \<Rightarrow> EndpointRegistry \<Rightarrow> bool" where
  "entries_ok B X r \<longleftrightarrow>
     (\<forall>e < length (er_heap r). e \<notin> X \<and> \<not> ep_closed (er_heap r ! e) \<longrightarrow>
        (\<exists>key. Key B (ep_Address (er_heap r ! e)) = OK key \<and> entry r key = Some (Some e))) \<and>
     (\<forall>key e. entry r key = Some (Some e) \<longrightarrow> e < length (er_heap r) \<and> Key B (ep_Address (er_heap r ! e)) = OK key)"

abbreviation reg_inv :: "'m wallet_backend_scheme \<Rightarrow> EndpointRegistry \<Rightarrow> bool" where
  "reg_inv B r \<equiv> entries_ok B {} r"

lemma entry_setEntry [simp]: "entry (setEntry key e r) k = (if k = key then Some e else entry r k)"
  by (simp add: entry_def setEntry_def update_conv')

lemma setEntry_simps [simp]:
  "er_heap (setEntry key e r) = er_heap r" "er_id (setEntry key e r) = er_id r"
  "er_loops (setEntry key e r) = er_loops r" "er_dialing (setEntry key e r) = er_dialing r"
  by (simp_all add: setEntry_def)

lemma entry_cong [simp]: "entry (r\<lparr>er_heap := h\<rparr>) k = entry r k" "entry (r\<lparr>er_loops := l\<rparr>) k = entry r k"
  "entry (r\<lparr>er_dialing := d\<rparr>) k = entry r k" "entry (r\<lparr>er_isClosed := b\<rparr>) k = entry r k"
  by (simp_all add: entry_def)

lemma entries_ok_cong [simp]: "entries_ok B X (r\<lparr>er_loops := l\<rparr>) = entries_ok B X r"
  "entries_ok B X (r\<lparr>er_dialing := d\<rparr>) = entries_ok B X r" "entries_ok B X (r\<lparr>er_isClosed := b\<rparr>) = entries_ok B X r"
  by (simp_all add: entries_ok_def)

text \<open>The open endpoints in the registry, by their peer.\<close>

lemma reg_inv_unique:
  assumes "reg_inv B r" "e < length (er_heap r)" "e' < length (er_heap r)"
    and "\<not> ep_closed (er_heap r ! e)" "\<not> ep_closed (er_heap r ! e')"
    and "ep_Address (er_heap r ! e) = ep_Address (er_heap r ! e')"
  shows "e = e'"
proof -
  obtain key where "Key B (ep_Address (er_heap r ! e)) = OK key" "entry r key = Some (Some e)"
    using assms(1,2,4) unfolding entries_ok_def by blast
  moreover obtain key' where "Key B (ep_Address (er_heap r ! e')) = OK key'" "entry r key' = Some (Some e')"
    using assms(1,3,5) unfolding entries_ok_def by blast
  ultimately show ?thesis
    using assms(6) by simp
qed

text \<open>Closing an endpoint marks it as closed, whatever the stream returns.\<close>

definition closed_at :: "eref \<Rightarrow> EndpointRegistry \<Rightarrow> EndpointRegistry" where
  "closed_at e r = r\<lparr>er_heap := (er_heap r)[e := (er_heap r ! e)\<lparr>ep_closed := True\<rparr>]\<rparr>"

lemma closed_at_same: "e < length (er_heap r) \<Longrightarrow> ep_closed (er_heap r ! e) \<Longrightarrow> closed_at e r = r"
  by (simp add: closed_at_def list_update_same_conv)

lemma closeEndpoint_fst: "e < length (er_heap r) \<Longrightarrow> fst (closeEndpoint e r) = closed_at e r"
  using closed_at_same [of e r]
  by (cases "ep_closed (er_heap r ! e)")
    (simp_all add: closeEndpoint_def bindS_def getS_def ioConn_Close_def Bool_TrySet_def closed_at_def index_at_in_range)

lemma ignoreS_fst: "fst (ignoreS c s) = fst (c s)"
  by (auto simp: ignoreS_def split: prod.splits res.splits)

lemma closed_at_simps [simp]: "entry (closed_at e r) k = entry r k" "length (er_heap (closed_at e r)) = length (er_heap r)"
  "er_id (closed_at e r) = er_id r"
  by (simp_all add: closed_at_def)

lemma closed_at_heap:
  assumes "e' < length (er_heap r)"
  shows "ep_Address (er_heap (closed_at e r) ! e') = ep_Address (er_heap r ! e')"
    "ep_closed (er_heap (closed_at e r) ! e') \<longleftrightarrow> e' = e \<or> ep_closed (er_heap r ! e')"
  using assms by (cases "e = e'"; simp add: closed_at_def)+

lemma entries_ok_close: "entries_ok B X r \<Longrightarrow> entries_ok B (X - {e}) (closed_at e r)"
  unfolding entries_ok_def by (auto simp: closed_at_heap)

lemma entries_ok_new:
  assumes "reg_inv B r"
  shows "entries_ok B {length (er_heap r)} (r\<lparr>er_heap := er_heap r @ [newEndpoint addr io]\<rparr>)"
  using assms unfolding entries_ok_def by (auto simp: nth_append less_Suc_eq)

text \<open>An endpoint is put into the entry of its peer; the old one, if any, is then closed.\<close>

lemma entries_ok_set:
  assumes "entries_ok B {e} r" "e < length (er_heap r)" "Key B (ep_Address (er_heap r ! e)) = OK key"
  shows "entries_ok B (case entry r key of Some (Some o') \<Rightarrow> {o'} | _ \<Rightarrow> {}) (setEntry key (Some e) r)"
    (is "entries_ok B ?X _")
proof -
  have "\<exists>k. Key B (ep_Address (er_heap r ! e')) = OK k \<and> (if k = key then Some (Some e) else entry r k) = Some (Some e')"
    if e': "e' < length (er_heap r)" "e' \<notin> ?X" "\<not> ep_closed (er_heap r ! e')" for e'
  proof (cases "e' = e")
    case False
    then obtain k where k: "Key B (ep_Address (er_heap r ! e')) = OK k" "entry r k = Some (Some e')"
      using assms(1) e' unfolding entries_ok_def by blast
    with e'(2) have "k \<noteq> key"
      by auto
    with k show ?thesis
      by auto
  qed (use assms(3) in auto)
  moreover have "e' < length (er_heap r) \<and> Key B (ep_Address (er_heap r ! e')) = OK k"
    if "(if k = key then Some (Some e) else entry r k) = Some (Some e')" for k e'
    using that assms unfolding entries_ok_def by (auto split: if_splits)
  ultimately show ?thesis
    unfolding entries_ok_def by simp
qed

lemma endpoint_replace_inv:
  assumes "entries_ok B {e} r" "e < length (er_heap r)" "Key B (ep_Address (er_heap r ! e)) = OK key"
    and "endpoint_replace cmp key e dialer r = (r', OK x)"
  shows "reg_inv B r'"
proof -
  from assms(4) obtain old where old: "entry r key = Some old"
    by (cases "entry r key") (auto simp: endpoint_replace_def bindS_def getS_def deref_def)
  note set = entries_ok_set [OF assms(1-3)]
  show ?thesis
  proof (cases old)
    case None
    with assms(2,4) old set show ?thesis
      by (simp add: endpoint_replace_def call_base bindS_def getS_def modifyS_def returnS_def index_at_in_range)
  next
    case (Some o')
    then have o: "o' < length (er_heap r)"
      using assms(1) old unfolding entries_ok_def by blast
    have "r' = closed_at e r \<or> r' = closed_at o' (setEntry key (Some e) r)"
      using assms(2,4) old Some o closeEndpoint_fst [of e r] closeEndpoint_fst [of o' "setEntry key (Some e) r"]
        ignoreS_fst [of "closeEndpoint e" r] ignoreS_fst [of "closeEndpoint o'" "setEntry key (Some e) r"]
      by (auto simp: endpoint_replace_def bindS_def getS_def modifyS_def returnS_def index_at_in_range
          split: if_splits prod.splits res.splits)
    with entries_ok_close [OF assms(1), of e] entries_ok_close [OF set, of o'] old Some show ?thesis
      by auto
  qed
qed

lemma addEndpoint_inv:
  assumes "reg_inv B r" "addEndpoint B cmp addr io dialer r = (r', OK x)"
  shows "reg_inv B r'"
proof -
  let ?e = "length (er_heap r)" and ?r = "r\<lparr>er_heap := er_heap r @ [newEndpoint addr io]\<rparr>"
  from assms(2) obtain key where key: "Key B addr = OK key"
    by (cases "Key B addr") (auto simp: addEndpoint_def bindS_def getS_def modifyS_def liftS_def)
  have new: "entries_ok B {?e} ?r" "?e < length (er_heap ?r)" "Key B (ep_Address (er_heap ?r ! ?e)) = OK key"
    using entries_ok_new [OF assms(1)] key by (simp_all add: newEndpoint_def)
  show ?thesis
  proof (cases "entry r key")
    case None
    with assms(2) key entries_ok_set [OF new] show ?thesis
      by (auto simp: addEndpoint_def bindS_def getS_def modifyS_def liftS_def returnS_def getOrCreateFullEndpoint_def)
  next
    case (Some fe)
    then have "entry ?r key \<noteq> None"
      by simp
    with assms(2) key obtain r1 y where "endpoint_replace cmp key ?e dialer ?r = (r1, OK y)" "r' = r1 \<or> r' = r1\<lparr>er_loops := er_loops r1 @ [?e]\<rparr>"
      by (auto simp: addEndpoint_def bindS_def getS_def modifyS_def liftS_def returnS_def getOrCreateFullEndpoint_def
          split: prod.splits res.splits if_splits)
    with endpoint_replace_inv [OF new this(1)] show ?thesis
      by auto
  qed
qed

lemma entries_ok_delete:
  assumes "reg_inv B r" "ep_closed (er_heap r ! e)"
  shows "reg_inv B (endpoint_delete key e r)"
proof (cases "entry r key = Some (Some e)")
  case True
  have "\<exists>k. Key B (ep_Address (er_heap r ! e')) = OK k \<and> (if k = key then Some None else entry r k) = Some (Some e')"
    if e': "e' < length (er_heap r)" "\<not> ep_closed (er_heap r ! e')" for e'
  proof -
    obtain k where k: "Key B (ep_Address (er_heap r ! e')) = OK k" "entry r k = Some (Some e')"
      using assms(1) e' unfolding entries_ok_def by blast
    with True e'(2) assms(2) have "k \<noteq> key"
      by auto
    with k show ?thesis
      by auto
  qed
  with assms(1) True show ?thesis
    unfolding entries_ok_def endpoint_delete_def by simp
qed (use assms in \<open>simp add: endpoint_delete_def\<close>)

lemma endLoop_inv:
  assumes "reg_inv B r" "endLoop B e r = (r', OK x)"
  shows "reg_inv B r'"
proof -
  from assms(2) have e: "e < length (er_heap r)"
    by (auto simp: endLoop_def bindS_def getS_def index_at_def split: if_splits)
  obtain key where key: "Key B (ep_Address (er_heap r ! e)) = OK key"
    using assms(2) e by (cases "Key B (ep_Address (er_heap r ! e))") (auto simp: endLoop_def bindS_def getS_def liftS_def index_at_in_range)
  have "r' = (endpoint_delete key e (closed_at e r))\<lparr>er_loops := remove1 e (er_loops (closed_at e r))\<rparr>"
    using assms(2) e key closeEndpoint_fst [OF e] ignoreS_fst [of "closeEndpoint e" r]
    by (auto simp: endLoop_def bindS_def getS_def liftS_def modifyS_def index_at_in_range split: prod.splits res.splits)
  moreover have "reg_inv B (endpoint_delete key e (closed_at e r))"
    using entries_ok_close [OF assms(1), of e] e by (intro entries_ok_delete) (auto simp: closed_at_heap)
  ultimately show ?thesis
    by simp
qed

text \<open>Calls that keep the invariant even when they fail.\<close>

definition reg_keeps :: "'m wallet_backend_scheme \<Rightarrow> (EndpointRegistry, 'a) call \<Rightarrow> bool" where
  "reg_keeps B c \<longleftrightarrow> (\<forall>r. reg_inv B r \<longrightarrow> reg_inv B (fst (c r)))"

lemma reg_keeps_bind: "reg_keeps B c \<Longrightarrow> (\<And>x. reg_keeps B (f x)) \<Longrightarrow> reg_keeps B (bindS c f)"
  unfolding reg_keeps_def bindS_def by (fastforce split: prod.splits res.splits)

lemma reg_keeps_base:
  "reg_keeps B (getS f)" "reg_keeps B (liftS x)" "reg_keeps B (returnS y)" "reg_keeps B c \<Longrightarrow> reg_keeps B (ignoreS c)"
  "reg_keeps B (modifyS (\<lambda>r. r\<lparr>er_isClosed := b\<rparr>))"
  by (simp_all add: reg_keeps_def getS_def liftS_def returnS_def modifyS_def ignoreS_fst)

lemma reg_keeps_close: "reg_keeps B (closeEndpoint e)"
  unfolding reg_keeps_def
proof (intro allI impI)
  fix r
  assume "reg_inv B r"
  then show "reg_inv B (fst (closeEndpoint e r))"
    using closeEndpoint_fst [of e r] entries_ok_close [of B "{}" r e]
    by (cases "e < length (er_heap r)") (simp_all add: closeEndpoint_def bindS_def getS_def index_at_def)
qed

lemma reg_keeps_Send: "reg_keeps B (Endpoint_Send locked i e)"
  unfolding Endpoint_Send_def by (auto split: send_item.splits intro!: reg_keeps_bind reg_keeps_base reg_keeps_close)

lemma reg_keeps_closePeers: "reg_keeps B (closePeers ps err)"
proof (induction ps arbitrary: err)
  case (Cons p ps)
  show ?case
  proof (cases p)
    case (Some e)
    have "reg_inv B (fst (closePeers (p # ps) err r))" if "reg_inv B r" for r
      using Cons reg_keeps_close [of B e] that Some unfolding reg_keeps_def
      by (cases "closeEndpoint e r"; cases "snd (closeEndpoint e r)") fastforce+
    then show ?thesis
      by (simp add: reg_keeps_def)
  qed (use Cons in auto)
qed (simp add: reg_keeps_base)

lemma reg_keeps_Close: "reg_keeps B (reg_Close dialer)"
  unfolding reg_Close_def by (intro reg_keeps_bind reg_keeps_base reg_keeps_closePeers)

text \<open>What happens to a registry: endpoints are added by dialing and listening, their receive loops end,
  sending closes them when it is not done in time, the registry is closed.\<close>

inductive reg_step :: "'m wallet_backend_scheme \<Rightarrow> (address \<Rightarrow> address \<Rightarrow> int) \<Rightarrow> EndpointRegistry \<Rightarrow> EndpointRegistry \<Rightarrow> bool"
  for B cmp where
  Add: "addEndpoint B cmp addr io dialer r = (r', OK x) \<Longrightarrow> reg_step B cmp r r'"
| End: "endLoop B e r = (r', OK ()) \<Longrightarrow> reg_step B cmp r r'"
| Send: "Endpoint_Send locked i e r = (r', y) \<Longrightarrow> reg_step B cmp r r'"
| Dial: "getOrCreateDialingEndpoint key r = (r', OK created) \<Longrightarrow> reg_step B cmp r r'"
| Dialed: "reg_step B cmp r (r\<lparr>er_dialing := remove1 key (er_dialing r)\<rparr>)"
| Shut: "reg_Close dialer r = (r', y) \<Longrightarrow> reg_step B cmp r r'"

lemma reg_step_inv: "reg_step B cmp r r' \<Longrightarrow> reg_inv B r \<Longrightarrow> reg_inv B r'"
proof (induction rule: reg_step.induct)
  case (Send locked i e r r' y)
  then show ?case
    using reg_keeps_Send [of B locked i e] by (metis fst_conv reg_keeps_def)
next
  case (Shut dialer r r' y)
  then show ?case
    using reg_keeps_Close [of B dialer] by (metis fst_conv reg_keeps_def)
qed (auto simp: getOrCreateDialingEndpoint_def dest: addEndpoint_inv endLoop_inv split: if_splits)

lemma reg_steps_inv: "(reg_step B cmp)\<^sup>*\<^sup>* r r' \<Longrightarrow> reg_inv B r \<Longrightarrow> reg_inv B r'"
  by (induction rule: rtranclp_induct) (auto dest: reg_step_inv)

lemma NewEndpointRegistry_inv: "reg_inv B (NewEndpointRegistry i)"
  by (simp add: entries_ok_def NewEndpointRegistry_def entry_def)

text \<open>\<open>Get\<close> and the set-up of an accepted connection are made of these steps.\<close>

lemma setupConn_steps:
  assumes "setupConn B cmp inTime conn io r = (r', OK ())"
  shows "(reg_step B cmp)\<^sup>*\<^sup>* r r'"
proof -
  from assms obtain addr x where "addEndpoint B cmp addr io False r = (r', OK x)"
    by (auto simp: setupConn_def bindS_def getS_def liftS_def returnS_def split: res.splits prod.splits if_splits)
  then show ?thesis
    by (blast intro: reg_step.Add)
qed

lemma reg_Get_steps:
  assumes "reg_Get B cmp E addr r = (r', OK x)" "\<And>r. (reg_step B cmp)\<^sup>*\<^sup>* r (dl_others E r)"
  shows "(reg_step B cmp)\<^sup>*\<^sup>* r r'"
proof -
  have dial: "(reg_step B cmp)\<^sup>*\<^sup>* r1 r'"
    if "msgS m (authenticatedDial B cmp E addr created) r1 = (r', OK x)" for m r1 created
  proof (cases created)
    case False
    with that show ?thesis
      by (auto simp: msgS_def authenticatedDial_def bindS_def liftS_def returnS_def
          split: res.splits prod.splits dial_wait.splits option.splits)
  next
    case True
    with that obtain r2 io key where "addEndpoint B cmp addr io True (dl_others E r1) = (r2, OK x)"
      "r' = r2\<lparr>er_dialing := remove1 key (er_dialing r2)\<rparr>"
      by (auto simp: msgS_def authenticatedDial_def bindS_def liftS_def returnS_def modifyS_def getS_def map_prod_def res_simps
          split: res.splits prod.splits)
    then have "reg_step B cmp (dl_others E r1) r2" "reg_step B cmp r2 r'"
      using reg_step.Dialed [of B cmp r2 key] by (auto intro: reg_step.Add)
    with assms(2) [of r1] show ?thesis
      by (meson rtranclp.rtrancl_into_rtrancl)
  qed
  from assms(1) consider "r' = r" | r1 created m where "getOrCreateDialingEndpoint (case Key B addr of OK k \<Rightarrow> k) r = (r1, OK created)"
      "msgS m (authenticatedDial B cmp E addr created) r1 = (r', OK x)"
    by (auto simp: reg_Get_def bindS_def getS_def liftS_def returnS_def split: res.splits prod.splits option.splits)
  then show ?thesis
    using dial by cases (auto intro: converse_rtranclp_into_rtranclp dest: reg_step.Dial)
qed

section \<open>Two nodes that dial each other\<close>

datatype node = NodeA | NodeB

primrec other :: "node \<Rightarrow> node" where
  "other NodeA = NodeB"
| "other NodeB = NodeA"

text \<open>Where a goroutine is that adds a connection at a node: not in \<open>addEndpoint\<close> yet; before the comparison
  and swap; after it has failed; after closing the new endpoint; after installing the new endpoint and
  before closing the old one; the receive loop runs; it has ended; the new endpoint was refused, and the
  result is the endpoint found in the entry.\<close>

datatype tie_pc = TIdle | TCas | TTie | TLoad | TClose "node option" | TRun | TGone | TRefused "node option"

text \<open>Each node has dialed the other once; a connection is named by the node that has dialed it.  For each
  node: the entry of the other node, and the goroutine for each connection.  A connection may fail.\<close>

record tie_sys =
  ty_slot :: "node \<Rightarrow> node option option"
  ty_pc :: "node \<Rightarrow> node \<Rightarrow> tie_pc"
  ty_closed :: "node \<Rightarrow> bool"
  ty_failed :: "node \<Rightarrow> bool"

definition tie_init :: tie_sys where
  "tie_init = \<lparr>ty_slot = (\<lambda>_. None), ty_pc = (\<lambda>_ _. TIdle), ty_closed = (\<lambda>_. False), ty_failed = (\<lambda>_. False)\<rparr>"

definition refuses :: "(address \<Rightarrow> address \<Rightarrow> int) \<Rightarrow> (node \<Rightarrow> address) \<Rightarrow> node \<Rightarrow> node \<Rightarrow> bool" where
  "refuses cmp addr n c \<longleftrightarrow> (c = n) = (cmp (addr n) (addr (other n)) < 0)"

text \<open>A move of the goroutine that adds the connection \<open>c\<close>: \<open>refused\<close> is the outcome of the comparison, \<open>broken\<close>
  whether \<open>c\<close> is closed.  It changes the entry and closes connections.\<close>

inductive add_move :: "bool \<Rightarrow> node \<Rightarrow> bool \<Rightarrow> node option option \<Rightarrow> tie_pc \<Rightarrow> node option option \<Rightarrow> tie_pc \<Rightarrow> node set \<Rightarrow> bool"
  for refused c broken where
  Create: "add_move refused c broken None TIdle (Some (Some c)) TRun {}"
| Found: "slot \<noteq> None \<Longrightarrow> add_move refused c broken slot TIdle slot TCas {}"
| CasNil: "add_move refused c broken (Some None) TCas (Some (Some c)) TRun {}"
| CasFails: "add_move refused c broken (Some (Some d)) TCas (Some (Some d)) TTie {}"
| Refuse: "refused \<Longrightarrow> add_move refused c broken slot TTie slot TLoad {c}"
| Load: "add_move refused c broken slot TLoad slot (TRefused (Option.bind slot id)) {}"
| Swap: "\<not> refused \<Longrightarrow> add_move refused c broken slot TTie (Some (Some c)) (TClose (Option.bind slot id)) {}"
| CloseOld: "add_move refused c broken slot (TClose d) slot TRun (set_option d)"
| Ended: "broken \<Longrightarrow> add_move refused c broken slot TRun (if slot = Some (Some c) then Some None else slot) TGone {}"

inductive_cases add_moveE: "add_move refused c broken slot p slot' p' X"

inductive tie_step :: "(address \<Rightarrow> address \<Rightarrow> int) \<Rightarrow> (node \<Rightarrow> address) \<Rightarrow> tie_sys \<Rightarrow> tie_sys \<Rightarrow> bool" for cmp addr where
  Move: "add_move (refuses cmp addr n c) c (ty_closed s c) (ty_slot s n) (ty_pc s n c) slot p X \<Longrightarrow>
     tie_step cmp addr s (s\<lparr>ty_slot := (ty_slot s)(n := slot), ty_pc := (ty_pc s)(n := (ty_pc s n)(c := p)),
       ty_closed := (\<lambda>d. d \<in> X \<or> ty_closed s d)\<rparr>)"
| Fail: "tie_step cmp addr s (s\<lparr>ty_closed := (ty_closed s)(c := True), ty_failed := (ty_failed s)(c := True)\<rparr>)"

text \<open>The contract of an order of addresses, and what it is good for.\<close>

locale address_order =
  fixes cmp :: "address \<Rightarrow> address \<Rightarrow> int" and wf :: "address \<Rightarrow> bool"
  assumes cmp_antisym: "wf a \<Longrightarrow> wf b \<Longrightarrow> a \<noteq> b \<Longrightarrow> cmp a b < 0 \<longleftrightarrow> \<not> cmp b a < 0"
begin

lemma refuses_iff:
  assumes "wf (addr NodeA)" "wf (addr NodeB)" "addr NodeA \<noteq> addr NodeB" "\<not> cmp (addr k) (addr (other k)) < 0"
  shows "refuses cmp addr n c \<longleftrightarrow> c \<noteq> k"
  using assms cmp_antisym [of "addr NodeA" "addr NodeB"]
  by (cases k; cases n; cases c) (auto simp: refuses_def)

end

text \<open>What holds while the connection \<open>k\<close>, which was dialed by the greater node, has not failed: at a node
  with the given entry, where the goroutine for \<open>k\<close> is at \<open>p\<close> and the one for the other connection at \<open>q\<close>.\<close>

fun tie_local :: "node \<Rightarrow> node option option \<Rightarrow> tie_pc \<Rightarrow> tie_pc \<Rightarrow> bool" where
  "tie_local k slot p q \<longleftrightarrow>
     (case p of TClose d \<Rightarrow> d \<noteq> Some k \<and> slot = Some (Some k) | TRun \<Rightarrow> slot = Some (Some k)
      | TIdle \<Rightarrow> slot \<noteq> Some (Some k) | TCas \<Rightarrow> slot \<noteq> Some (Some k) | TTie \<Rightarrow> slot \<noteq> Some (Some k) | _ \<Rightarrow> False) \<and>
     (case q of TTie \<Rightarrow> slot = Some (Some k) | TLoad \<Rightarrow> slot = Some (Some k) | TClose d \<Rightarrow> False
      | TRefused d \<Rightarrow> d = Some k | _ \<Rightarrow> True) \<and>
     (slot = Some (Some (other k)) \<longrightarrow> q = TRun)"

definition tie_inv :: "node \<Rightarrow> tie_sys \<Rightarrow> bool" where
  "tie_inv k s \<longleftrightarrow> ty_failed s k \<or>
     \<not> ty_closed s k \<and> (\<forall>n. tie_local k (ty_slot s n) (ty_pc s n k) (ty_pc s n (other k)))"

lemma node_cases: "c = k \<or> c = other k" "other k \<noteq> k" "k \<noteq> other k"
  by (cases c; cases k; simp)+

lemma tie_local_k:
  assumes "add_move False k False slot p slot' p' X" "tie_local k slot p q"
  shows "k \<notin> X \<and> tie_local k slot' p' q"
  using assms by (cases; cases q; auto simp: node_cases bind_eq_Some_conv)

lemma tie_local_other:
  assumes "add_move True (other k) broken slot q slot' q' X" "tie_local k slot p q"
  shows "k \<notin> X \<and> tie_local k slot' p q'"
  using assms by (cases; cases p; use node_cases(1) [of "the (the slot)" k] in \<open>auto simp: node_cases\<close>)

lemma tie_step_inv:
  assumes "tie_step cmp addr s s'" "tie_inv k s" "\<And>n c. refuses cmp addr n c \<longleftrightarrow> c \<noteq> k"
  shows "tie_inv k s'"
proof (cases "ty_failed s k")
  case True
  with assms(1) show ?thesis
    by cases (auto simp: tie_inv_def)
next
  case False
  with assms(2) have open_k: "\<not> ty_closed s k"
    and local: "tie_local k (ty_slot s n) (ty_pc s n k) (ty_pc s n (other k))" for n
    by (auto simp: tie_inv_def)
  from assms(1) show ?thesis
  proof cases
    case (Move n c slot p X)
    have "k \<notin> X \<and> tie_local k slot (if c = k then p else ty_pc s n k) (if c = other k then p else ty_pc s n (other k))"
    proof (cases "c = k")
      case True
      then show ?thesis
        using tie_local_k [of k "ty_slot s n" "ty_pc s n k" slot p X] Move(2) local [of n] open_k assms(3)
        by (simp add: node_cases del: tie_local.simps)
    next
      case False
      then show ?thesis
        using tie_local_other [of k "ty_closed s c" "ty_slot s n" "ty_pc s n c" slot p X] Move(2) local [of n] assms(3)
          node_cases(1) [of c k] by (auto simp: node_cases simp del: tie_local.simps)
    qed
    then show ?thesis
      using local open_k by (auto simp: Move(1) tie_inv_def simp del: tie_local.simps)
  next
    case (Fail c)
    then show ?thesis
      using local open_k by (auto simp: tie_inv_def simp del: tie_local.simps)
  qed
qed

lemma tie_inv_init: "tie_inv k tie_init"
  by (simp add: tie_inv_def tie_init_def)

context address_order
begin

lemma tie_resolved:
  assumes "wf (addr NodeA)" "wf (addr NodeB)" "addr NodeA \<noteq> addr NodeB" "\<not> cmp (addr k) (addr (other k)) < 0"
    and "(tie_step cmp addr)\<^sup>*\<^sup>* tie_init s"
  shows "tie_inv k s"
  using assms(5)
proof (induction rule: rtranclp_induct)
  case (step s s')
  then show ?case
    using tie_step_inv [of cmp addr s s' k] refuses_iff [OF assms(1-4)] by blast
qed (rule tie_inv_init)

end

interpretation eth_order: address_order eth_Address_Cmp addr20
proof
  fix a b :: address
  assume "a \<noteq> b"
  then show "eth_Address_Cmp a b < 0 \<longleftrightarrow> \<not> eth_Address_Cmp b a < 0"
    using bytes_Compare_eq [of a b] bytes_Compare_swap [of b a] by (auto simp: eth_Address_Cmp_def)
qed

text \<open>The order of the simulated backend: the first coordinate, then the second.\<close>

definition sim_Address_Cmp :: "address \<Rightarrow> address \<Rightarrow> int" where
  "sim_Address_Cmp a addr =
     (let xCmp = sgn (int (fst (coords a)) - int (fst (coords addr)));
          yCmp = sgn (int (snd (coords a)) - int (snd (coords addr)))
      in if xCmp \<noteq> 0 then xCmp else yCmp)"

interpretation sim_order: address_order sim_Address_Cmp addr64
proof
  fix a b :: address
  assume "addr64 a" "addr64 b" "a \<noteq> b"
  then have "coords a \<noteq> coords b"
    using be_nat_inject [of "take 32 a" "take 32 b"] be_nat_inject [of "drop 32 a" "drop 32 b"]
    by (auto simp: coords_def) (metis append_take_drop_id)
  then show "sim_Address_Cmp a b < 0 \<longleftrightarrow> \<not> sim_Address_Cmp b a < 0"
    by (cases "coords a"; cases "coords b") (auto simp: sim_Address_Cmp_def Let_def sgn_if)
qed

text \<open>The state of the two nodes in which \<open>n\<close> runs the connection \<open>k\<close>, and the goroutine for the other one is
  at \<open>p\<close>; \<open>X\<close> are the closed connections.\<close>

definition tie_at :: "node \<Rightarrow> node \<Rightarrow> tie_pc \<Rightarrow> node set \<Rightarrow> tie_sys" where
  "tie_at n k p X = \<lparr>ty_slot = (\<lambda>m. if m = n then Some (Some k) else None),
     ty_pc = (\<lambda>m c. if m = n then if c = k then TRun else p else TIdle), ty_closed = (\<lambda>d. d \<in> X), ty_failed = (\<lambda>_. False)\<rparr>"

lemma tie_at_move:
  assumes "add_move (refuses cmp addr n (other k)) (other k) (other k \<in> X) (Some (Some k)) p (Some (Some k)) p' Y"
  shows "tie_step cmp addr (tie_at n k p X) (tie_at n k p' (Y \<union> X))"
proof -
  let ?s = "tie_at n k p X"
  have "?s\<lparr>ty_slot := (ty_slot ?s)(n := Some (Some k)), ty_pc := (ty_pc ?s)(n := (ty_pc ?s n)(other k := p')),
      ty_closed := (\<lambda>d. d \<in> Y \<or> ty_closed ?s d)\<rparr> = tie_at n k p' (Y \<union> X)"
    using node_cases(1) [of _ k] by (auto simp: tie_at_def fun_eq_iff node_cases(2,3))
  with tie_step.Move [of cmp addr n "other k" ?s "Some (Some k)" p' Y] assms show ?thesis
    by (simp add: tie_at_def node_cases)
qed

lemma tie_refusing:
  assumes "refuses cmp addr n (other k)"
  shows "(tie_step cmp addr)\<^sup>*\<^sup>* tie_init (tie_at n k TLoad {other k})"
proof -
  have "tie_init\<lparr>ty_slot := (ty_slot tie_init)(n := Some (Some k)), ty_pc := (ty_pc tie_init)(n := (ty_pc tie_init n)(k := TRun)),
      ty_closed := (\<lambda>d. d \<in> {} \<or> ty_closed tie_init d)\<rparr> = tie_at n k TIdle {}"
    by (auto simp: tie_at_def tie_init_def fun_eq_iff)
  then have "tie_step cmp addr tie_init (tie_at n k TIdle {})"
    using tie_step.Move [of cmp addr n k tie_init "Some (Some k)" TRun "{}"] add_move.Create [of "refuses cmp addr n k" k False]
    by (metis tie_init_def tie_sys.select_convs(1,2,3))
  moreover have "tie_step cmp addr (tie_at n k TIdle {}) (tie_at n k TCas {})"
    using tie_at_move [of cmp addr n k "{}" TIdle TCas "{}"] by (simp add: add_move.Found)
  moreover have "tie_step cmp addr (tie_at n k TCas {}) (tie_at n k TTie {})"
    using tie_at_move [of cmp addr n k "{}" TCas TTie "{}"] by (simp add: add_move.CasFails)
  moreover have "tie_step cmp addr (tie_at n k TTie {}) (tie_at n k TLoad {other k})"
    using tie_at_move [of cmp addr n k "{}" TTie TLoad "{other k}"] assms by (simp add: add_move.Refuse)
  ultimately show ?thesis
    by (meson converse_rtranclp_into_rtranclp rtranclp.rtrancl_refl)
qed

lemma tie_refused:
  assumes "refuses cmp addr n (other k)"
  shows "(tie_step cmp addr)\<^sup>*\<^sup>* tie_init (tie_at n k (TRefused (Some k)) {other k})"
  using tie_refusing [OF assms] tie_at_move [of cmp addr n k "{other k}" TLoad "TRefused (Some k)" "{}"]
    add_move.Load [of _ "other k" _ "Some (Some k)"] by (auto intro: rtranclp.rtrancl_into_rtrancl)

text \<open>When the kept connection fails at the wrong moment, adding the refused one returns nil: \<open>Get\<close> then
  returns a nil endpoint without an error, and sending to it panics.\<close>

lemma nil_endpoint_race:
  assumes "refuses cmp addr n (other k)"
  shows "\<exists>s. (tie_step cmp addr)\<^sup>*\<^sup>* tie_init s \<and> ty_pc s n (other k) = TRefused None"
proof -
  let ?s = "tie_at n k TLoad {other k}"
  let ?f = "?s\<lparr>ty_closed := (ty_closed ?s)(k := True), ty_failed := (ty_failed ?s)(k := True)\<rparr>"
  let ?e = "?f\<lparr>ty_slot := (ty_slot ?f)(n := Some None), ty_pc := (ty_pc ?f)(n := (ty_pc ?f n)(k := TGone)),
    ty_closed := (\<lambda>d. d \<in> {} \<or> ty_closed ?f d)\<rparr>"
  have "tie_step cmp addr ?s ?f"
    by (rule tie_step.Fail)
  moreover have "tie_step cmp addr ?f ?e"
    by (rule tie_step.Move) (use add_move.Ended [of True _ k "Some (Some k)"] in \<open>simp add: tie_at_def\<close>)
  moreover have "tie_step cmp addr ?e (?e\<lparr>ty_slot := (ty_slot ?e)(n := Some None),
      ty_pc := (ty_pc ?e)(n := (ty_pc ?e n)(other k := TRefused None)), ty_closed := (\<lambda>d. d \<in> {} \<or> ty_closed ?e d)\<rparr>)"
    by (rule tie_step.Move) (use add_move.Load [of _ "other k" _ "Some None"] in \<open>simp add: tie_at_def node_cases\<close>)
  ultimately have "(tie_step cmp addr)\<^sup>*\<^sup>* tie_init (?e\<lparr>ty_slot := (ty_slot ?e)(n := Some None),
      ty_pc := (ty_pc ?e)(n := (ty_pc ?e n)(other k := TRefused None)), ty_closed := (\<lambda>d. d \<in> {} \<or> ty_closed ?e d)\<rparr>)"
    using tie_refusing [OF assms] by (meson rtranclp.rtrancl_into_rtrancl)
  then show ?thesis
    by (intro exI conjI) (assumption, simp)
qed

section \<open>Publishing and closing\<close>

text \<open>A publication that is not refused and whose attempts all fail ends with the error of the third.\<close>

lemma publish_gives_up:
  assumes "\<And>i b. i < 3 \<Longrightarrow> \<exists>b' x. publishOnce B cmp (As i) e b = (b', Err x) \<and> \<not> IsAuthenticationError x"
    and "\<And>i. i < 3 \<Longrightarrow> at_wait (As i) = PublishCooldown"
  shows "\<exists>b' x. bus_Publish B cmp As e b = (b', Err x)"
proof -
  have "\<exists>b' x. publishLoop B cmp (map As is) e y b = (b', Err x)" if "is \<noteq> []" "\<forall>i \<in> set is. i < 3" for "is" y b
    using that
  proof (induction "is" arbitrary: y b)
    case (Cons i "is")
    obtain b' x where "publishOnce B cmp (As i) e b = (b', Err x)" "\<not> IsAuthenticationError x"
      using assms(1) [of i b] Cons.prems by auto
    with Cons assms(2) [of i] show ?case
      by (cases "is = []") (auto simp: liftS_def)
  qed simp
  from this [of "[0..<3]"] show ?thesis
    unfolding bus_Publish_def PublishAttempts_def by (simp del: publishLoop.simps)
qed

text \<open>It returns nil only after one of the attempts has sent the envelope.\<close>

lemma publish_sent:
  assumes "bus_Publish B cmp As e b = (b', OK ())"
  shows "\<exists>i < 3. \<exists>b1. publishOnce B cmp (As i) e b1 = (b', OK ())"
proof -
  have "\<exists>i \<in> set is. \<exists>b1. publishOnce B cmp (As i) e b1 = (b', OK ())"
    if "publishLoop B cmp (map As is) e y b = (b', OK ())" "is \<noteq> [] \<or> y \<noteq> OK ()" for "is" y b
    using that
  proof (induction "is" arbitrary: y b)
    case (Cons i "is")
    obtain b1 r where once: "publishOnce B cmp (As i) e b = (b1, r)"
      by fastforce
    show ?case
    proof (cases r)
      case (Err x)
      with once Cons.prems(1) have "publishLoop B cmp (map As is) e (Err x) b1 = (b', OK ())"
        by (auto split: if_splits publish_wait.splits)
      with Cons.IH show ?thesis
        by auto
    qed (use once Cons.prems in auto)
  qed (auto simp: liftS_def)
  from this [of "[0..<3]" "OK ()" b] assms show ?thesis
    unfolding bus_Publish_def PublishAttempts_def by (auto simp del: publishLoop.simps)
qed

text \<open>A subscriber that closes after the bus: its callback panics.\<close>

lemma bus_closed_first:
  assumes "Key B addr = OK key" "bus_Close dialer b = (b', OK ())"
  shows "removeSubscriber B addr b' = (b', Panic ''deleting nonexisting subscriber'')"
proof -
  have "bus_recvs b' = None"
    using assms(2) by (auto simp: bus_Close_def bindS_def getS_def modifyS_def onReg_def split: res.splits prod.splits)
  then show ?thesis
    using assms(1) by (simp add: removeSubscriber_def bindS_def getS_def liftS_def bus_lookup_def panic_if_def)
qed

end
