(* ===== verification/Perun_Cache.thy ===== *)
theory Perun_Cache
  imports Perun_PSM "HOL-Library.AList"
begin

text \<open>
  Two alternatives to the key-value persister: the cache of channels and their peers,
  \<open>channel/persistence/keyvalue/cache.go\<close>, and the persister that keeps nothing,
  \<open>channel/persistence/nonpersister.go\<close>.

  Shown here: the two indices of the cache agree: a channel is listed for a peer exactly if the peer is listed
  for the channel.
\<close>

section \<open>The cache\<close>

text \<open>The maps are nil after \<open>clear\<close>; the channels of a peer are a set.\<close>

record channelCache =
  cc_peers :: "(ID \<Rightarrow> address list option) option"
  cc_peerChannels :: "(address \<Rightarrow> ID set option) option"

definition newChannelCache :: channelCache where
  "newChannelCache = \<lparr>cc_peers = Some Map.empty, cc_peerChannels = Some Map.empty\<rparr>"

definition addPeerChannel :: "address \<Rightarrow> ID \<Rightarrow> channelCache \<Rightarrow> channelCache res" where
  "addPeerChannel addr chID c = (case (cc_peers c, cc_peerChannels c) of
      (Some ps, Some pc) \<Rightarrow>
        OK \<lparr>cc_peers = Some (ps(chID \<mapsto> (case ps chID of None \<Rightarrow> [] | Some as \<Rightarrow> as) @ [addr])),
            cc_peerChannels = Some (pc(addr \<mapsto> (case pc addr of None \<Rightarrow> {chID} | Some chans \<Rightarrow> insert chID chans)))\<rparr>
    | _ \<Rightarrow> Panic ''assignment to entry in nil map'')"

definition cache_deleteChannel :: "ID \<Rightarrow> channelCache \<Rightarrow> (channelCache \<times> address list) res" where
  "cache_deleteChannel i c = (case cc_peers c of
      None \<Rightarrow> Panic ''unknown channel ID''
    | Some ps \<Rightarrow> (case ps i of
        None \<Rightarrow> Panic ''unknown channel ID''
      | Some as \<Rightarrow> OK (\<lparr>cc_peers = Some (ps(i := None)),
          cc_peerChannels = map_option (\<lambda>pc a. if a \<in> set as then map_option (\<lambda>chans. chans - {i}) (pc a) else pc a)
            (cc_peerChannels c)\<rparr>, as)))"

definition cache_clear :: "channelCache \<Rightarrow> channelCache" where
  "cache_clear c = \<lparr>cc_peers = None, cc_peerChannels = None\<rparr>"

text \<open>The peers of a channel and the channels of a peer.\<close>

definition peers_of :: "channelCache \<Rightarrow> ID \<Rightarrow> address set" where
  "peers_of c i = (case Option.bind (cc_peers c) (\<lambda>ps. ps i) of None \<Rightarrow> {} | Some as \<Rightarrow> set as)"

definition channels_of :: "channelCache \<Rightarrow> address \<Rightarrow> ID set" where
  "channels_of c a = (case Option.bind (cc_peerChannels c) (\<lambda>pc. pc a) of None \<Rightarrow> {} | Some chans \<Rightarrow> chans)"

definition cache_inv :: "channelCache \<Rightarrow> bool" where
  "cache_inv c \<longleftrightarrow> (\<forall>a i. i \<in> channels_of c a \<longleftrightarrow> a \<in> peers_of c i)"

lemma cache_inv_new: "cache_inv newChannelCache" "cache_inv (cache_clear c)"
  by (simp_all add: cache_inv_def newChannelCache_def cache_clear_def peers_of_def channels_of_def)

lemma addPeerChannel_inv:
  assumes "cache_inv c" "addPeerChannel a i c = OK c'"
  shows "cache_inv c' \<and> peers_of c' = (peers_of c)(i := insert a (peers_of c i))"
proof -
  from assms(2) obtain ps pc where c: "cc_peers c = Some ps" "cc_peerChannels c = Some pc"
    by (auto simp: addPeerChannel_def split: option.splits)
  have "peers_of c' = (peers_of c)(i := insert a (peers_of c i))" "channels_of c' = (channels_of c)(a := insert i (channels_of c a))"
    using assms(2) c by (auto simp: addPeerChannel_def peers_of_def channels_of_def fun_eq_iff split: option.splits)
  then show ?thesis
    using assms(1) by (auto simp: cache_inv_def)
qed

lemma cache_deleteChannel_inv:
  assumes "cache_inv c" "cache_deleteChannel i c = OK (c', as)"
  shows "cache_inv c' \<and> peers_of c' = (peers_of c)(i := {}) \<and> set as = peers_of c i"
proof -
  from assms(2) obtain ps where c: "cc_peers c = Some ps" "ps i = Some as"
    by (auto simp: cache_deleteChannel_def split: option.splits)
  have p: "peers_of c' = (peers_of c)(i := {})" "set as = peers_of c i"
    using assms(2) c by (auto simp: cache_deleteChannel_def peers_of_def fun_eq_iff)
  moreover have "channels_of c' a = (if a \<in> set as then channels_of c a - {i} else channels_of c a)" for a
    using assms(2) c by (cases "a \<in> set as"; cases "cc_peerChannels c"; cases "the (cc_peerChannels c) a")
      (auto simp: cache_deleteChannel_def channels_of_def)
  ultimately show ?thesis
    using assms(1) by (auto simp: cache_inv_def)
qed

section \<open>The persister that keeps nothing\<close>

definition non_ChannelCreated :: "Source \<Rightarrow> address list \<Rightarrow> ID option \<Rightarrow> unit res" where
  "non_ChannelCreated s peers parent = OK ()"

definition non_ChannelRemoved :: "ID \<Rightarrow> unit res" where
  "non_ChannelRemoved i = OK ()"

definition non_Staged :: "Source \<Rightarrow> unit res" where
  "non_Staged s = OK ()"

definition non_SigAdded :: "Source \<Rightarrow> Index \<Rightarrow> unit res" where
  "non_SigAdded s idx = OK ()"

definition non_Enabled :: "Source \<Rightarrow> unit res" where
  "non_Enabled s = OK ()"

definition non_PhaseChanged :: "Source \<Rightarrow> unit res" where
  "non_PhaseChanged s = OK ()"

definition non_Close :: "unit res" where
  "non_Close = OK ()"

definition non_ActivePeers :: "address list res" where
  "non_ActivePeers = OK []"

text \<open>The iterator has no next channel.\<close>

definition non_RestoreAll :: "pchannel list res" where
  "non_RestoreAll = OK []"

definition non_RestorePeer :: "address \<Rightarrow> pchannel list res" where
  "non_RestorePeer addr = OK []"

definition non_RestoreChannel :: "ID \<Rightarrow> pchannel res" where
  "non_RestoreChannel i = Err (ErrNew ''channel not found'')"

end
