(* ===== verification/Perun_LevelDB.thy ===== *)
theory Perun_LevelDB
  imports Perun_KV
begin

text \<open>
  The key-value store on disk, \<open>pkg/sortedkv/leveldb/{database, batch, iterator}.go\<close>.

  The library goleveldb is a parameter, a record of functions; what its documentation promises while no
  input or output fails is the locale \<open>goleveldb\<close>.  Under this contract the store is a \<open>kv_store\<close>, so that it
  cannot be told from the in-memory database, up to the text of errors.  Where the two differ is shown as well:
  a batch may delete absent keys, and the iterator has no key after the last entry.
\<close>

section \<open>The library\<close>

text \<open>A range of keys: its inclusive start and its exclusive limit, where \<open>None\<close> is nil.\<close>

type_synonym key_range = "bytes option \<times> bytes option"

text \<open>An iterator of the library: the current entry, those that follow, and the accumulated error.\<close>

record gl_cursor =
  gc_cur :: "(bytes \<times> bytes) option"
  gc_rest :: "(bytes \<times> bytes) list"
  gc_err :: "unit res"

definition gl_Next :: "gl_cursor \<Rightarrow> gl_cursor \<times> bool" where
  "gl_Next c = (case gc_rest c of
      [] \<Rightarrow> (c\<lparr>gc_cur := None\<rparr>, False)
    | e # es \<Rightarrow> (c\<lparr>gc_cur := Some e, gc_rest := es\<rparr>, True))"

record 'd leveldb_ops =
  gl_Has :: "'d \<Rightarrow> bytes \<Rightarrow> bool res"
  gl_Get :: "'d \<Rightarrow> bytes \<Rightarrow> bytes res"
  gl_Put :: "'d \<Rightarrow> bytes \<Rightarrow> bytes \<Rightarrow> 'd res"
  gl_Delete :: "'d \<Rightarrow> bytes \<Rightarrow> 'd res"
  gl_Write :: "'d \<Rightarrow> batch_op list \<Rightarrow> 'd res"
  gl_NewIterator :: "'d \<Rightarrow> key_range option \<Rightarrow> gl_cursor"
  gl_BytesPrefix :: "bytes \<Rightarrow> key_range"

section \<open>The database\<close>

definition ldb_LoadDatabase :: "(string \<Rightarrow> 'd res) \<Rightarrow> string \<Rightarrow> 'd res" where
  "ldb_LoadDatabase openFile path = with_msg ''Database.LoadDatabase(path) could not open/create file'' (openFile path)"

definition ldb_Has :: "'d leveldb_ops \<Rightarrow> 'd \<Rightarrow> bytes \<Rightarrow> bool res" where
  "ldb_Has G d key = with_msg ''Database.Has(key) error'' (gl_Has G d key)"

definition ldb_GetBytes :: "'d leveldb_ops \<Rightarrow> 'd \<Rightarrow> bytes \<Rightarrow> bytes res" where
  "ldb_GetBytes G d key = with_msg ''Database.Get(key) error'' (gl_Get G d key)"

definition ldb_Get :: "'d leveldb_ops \<Rightarrow> 'd \<Rightarrow> bytes \<Rightarrow> bytes res" where
  "ldb_Get G d key = ldb_GetBytes G d key"

definition ldb_PutBytes :: "'d leveldb_ops \<Rightarrow> 'd \<Rightarrow> bytes \<Rightarrow> bytes \<Rightarrow> 'd res" where
  "ldb_PutBytes G d key v = with_msg ''Database.Put(key, value) error'' (gl_Put G d key v)"

definition ldb_Put :: "'d leveldb_ops \<Rightarrow> 'd \<Rightarrow> bytes \<Rightarrow> bytes \<Rightarrow> 'd res" where
  "ldb_Put G d key v = ldb_PutBytes G d key v"

definition ldb_Delete :: "'d leveldb_ops \<Rightarrow> 'd \<Rightarrow> bytes \<Rightarrow> 'd res" where
  "ldb_Delete G d key =
     bindR (with_msg ''Database.Delete(key) error'' (gl_Has G d key)) (\<lambda>has.
     if \<not> has then Err (ErrNew ''Database.Delete(key) error'')
     else with_msg ''Database.Delete(key) error'' (gl_Delete G d key))"

section \<open>Batches\<close>

text \<open>A batch of the library is the list of its operations.\<close>

definition ldb_NewBatch :: "batch_op list" where
  "ldb_NewBatch = []"

definition lbatch_PutBytes :: "batch_op list \<Rightarrow> bytes \<Rightarrow> bytes \<Rightarrow> batch_op list" where
  "lbatch_PutBytes b key v = b @ [BPut key v]"

definition lbatch_Put :: "batch_op list \<Rightarrow> bytes \<Rightarrow> bytes \<Rightarrow> batch_op list" where
  "lbatch_Put b key v = lbatch_PutBytes b key v"

definition lbatch_Delete :: "batch_op list \<Rightarrow> bytes \<Rightarrow> batch_op list" where
  "lbatch_Delete b key = b @ [BDelete key]"

definition lbatch_Apply :: "'d leveldb_ops \<Rightarrow> batch_op list \<Rightarrow> 'd \<Rightarrow> 'd res" where
  "lbatch_Apply G b d = with_msg ''leveldb batch apply error'' (gl_Write G d b)"

definition lbatch_Reset :: "batch_op list \<Rightarrow> batch_op list" where
  "lbatch_Reset b = []"

section \<open>Iterators\<close>

text \<open>An iterator is \<open>None\<close> after it was closed.\<close>

type_synonym ldb_Iterator = "gl_cursor option"

definition ldb_NewIterator :: "'d leveldb_ops \<Rightarrow> 'd \<Rightarrow> ldb_Iterator" where
  "ldb_NewIterator G d = Some (gl_NewIterator G d (Some (None, None)))"

definition ldb_NewIteratorWithRange :: "'d leveldb_ops \<Rightarrow> 'd \<Rightarrow> bytes \<Rightarrow> bytes \<Rightarrow> ldb_Iterator" where
  "ldb_NewIteratorWithRange G d start end' =
     Some (gl_NewIterator G d (Some (if start = [] then None else Some start, if end' = [] then None else Some end')))"

definition ldb_NewIteratorWithPrefix :: "'d leveldb_ops \<Rightarrow> 'd \<Rightarrow> bytes \<Rightarrow> ldb_Iterator" where
  "ldb_NewIteratorWithPrefix G d p = Some (gl_NewIterator G d (if p = [] then None else Some (gl_BytesPrefix G p)))"

definition ldb_it_Next :: "ldb_Iterator \<Rightarrow> ldb_Iterator \<times> bool" where
  "ldb_it_Next i = (case i of
      None \<Rightarrow> (None, False)
    | Some c \<Rightarrow> (case gl_Next c of (c', b) \<Rightarrow> (Some c', b)))"

definition ldb_it_Key :: "ldb_Iterator \<Rightarrow> bytes res" where
  "ldb_it_Key i = (case Option.bind i gc_cur of
      None \<Rightarrow> Panic ''Iterator.Key() called on invalid iterator''
    | Some (k, v) \<Rightarrow> OK k)"

definition ldb_it_Value :: "ldb_Iterator \<Rightarrow> bytes res" where
  "ldb_it_Value i = (case Option.bind i gc_cur of
      None \<Rightarrow> Panic ''Iterator.Value() called on invalid iterator''
    | Some (k, v) \<Rightarrow> OK v)"

definition ldb_it_ValueBytes :: "ldb_Iterator \<Rightarrow> bytes res" where
  "ldb_it_ValueBytes i = ldb_it_Value i"

definition ldb_it_Close :: "ldb_Iterator \<Rightarrow> ldb_Iterator \<times> unit res" where
  "ldb_it_Close i = (case i of None \<Rightarrow> (None, OK ()) | Some c \<Rightarrow> (None, gc_err c))"

text \<open>The loop of a caller that reads all entries.\<close>

function ldb_drain :: "ldb_Iterator \<Rightarrow> (bytes \<times> bytes) list res" where
  "ldb_drain i = (case ldb_it_Next i of
      (i', False) \<Rightarrow> OK []
    | (i', True) \<Rightarrow> bindR (ldb_it_Key i') (\<lambda>k. bindR (ldb_it_Value i') (\<lambda>v. bindR (ldb_drain i') (\<lambda>kvs. OK ((k, v) # kvs)))))"
  by pat_completeness auto
termination
  by (relation "measure (\<lambda>i. case i of None \<Rightarrow> 0 | Some c \<Rightarrow> length (gc_rest c))")
    (auto simp: ldb_it_Next_def gl_Next_def split: option.splits list.splits prod.splits)

declare ldb_drain.simps [simp del]

lemma ldb_drain_eq: "ldb_drain (Some c) = OK (gc_rest c)"
proof (induction "gc_rest c" arbitrary: c)
  case Nil
  then show ?case
    by (subst ldb_drain.simps) (simp add: ldb_it_Next_def gl_Next_def)
next
  case (Cons e es)
  obtain k v where e: "e = (k, v)"
    by (cases e)
  have "ldb_drain (Some (c\<lparr>gc_cur := Some e, gc_rest := es\<rparr>)) = OK es"
    using Cons.hyps(1) [of "c\<lparr>gc_cur := Some e, gc_rest := es\<rparr>"] by simp
  with Cons.hyps(2) [symmetric] e show ?case
    by (subst ldb_drain.simps) (simp add: ldb_it_Next_def gl_Next_def ldb_it_Key_def ldb_it_Value_def)
qed

section \<open>The contract of the library\<close>

definition in_range :: "key_range option \<Rightarrow> bytes \<Rightarrow> bool" where
  "in_range r k \<longleftrightarrow> (case r of
      None \<Rightarrow> True
    | Some (lo, hi) \<Rightarrow> (case lo of None \<Rightarrow> True | Some a \<Rightarrow> a \<le> k) \<and> (case hi of None \<Rightarrow> True | Some b \<Rightarrow> k < b))"

text \<open>\<open>inv\<close> holds of an open database whose files can be read and written.\<close>

locale goleveldb =
  fixes G :: "'d leveldb_ops" and inv :: "'d \<Rightarrow> bool" and abs :: "'d \<Rightarrow> bytes \<Rightarrow> bytes option"
  assumes gl_has: "inv d \<Longrightarrow> gl_Has G d k = OK (abs d k \<noteq> None)"
    and gl_get_Some: "inv d \<Longrightarrow> abs d k = Some v \<Longrightarrow> gl_Get G d k = OK v"
    and gl_get_None: "inv d \<Longrightarrow> abs d k = None \<Longrightarrow> \<exists>e. gl_Get G d k = Err e"
    and gl_put: "inv d \<Longrightarrow> \<exists>d'. gl_Put G d k v = OK d' \<and> inv d' \<and> abs d' = (abs d)(k \<mapsto> v)"
    and gl_delete: "inv d \<Longrightarrow> \<exists>d'. gl_Delete G d k = OK d' \<and> inv d' \<and> abs d' = (abs d)(k := None)"
    and gl_write: "inv d \<Longrightarrow> \<exists>d'. gl_Write G d xs = OK d' \<and> inv d' \<and> abs d' = fold map_do xs (abs d)"
    and gl_iterator: "inv d \<Longrightarrow> \<exists>kvs. gl_NewIterator G d r = \<lparr>gc_cur = None, gc_rest = kvs, gc_err = OK ()\<rparr> \<and>
      sorted (map fst kvs) \<and> distinct (map fst kvs) \<and> set kvs = {(k, v). abs d k = Some v \<and> in_range r k}"
    and gl_prefix: "p \<noteq> [] \<Longrightarrow> in_range (Some (gl_BytesPrefix G p)) k \<longleftrightarrow> prefix p k"

sublocale goleveldb \<subseteq> kv_store "ldb_Get G" "ldb_Has G" "ldb_Put G" "ldb_Delete G" inv abs
proof unfold_locales
  show "\<exists>s'. ldb_Put G s k v = OK s' \<and> inv s' \<and> abs s' = (abs s)(k \<mapsto> v)" if "inv s" for s k v
    using gl_put [OF that, of k v] by (auto simp: ldb_Put_def ldb_PutBytes_def)
  show "\<exists>s'. ldb_Delete G s k = OK s' \<and> inv s' \<and> abs s' = (abs s)(k := None)" if "inv s" "abs s k = Some v" for s k v
    using gl_delete [OF that(1), of k] gl_has [OF that(1), of k] that(2) by (auto simp: ldb_Delete_def)
  show "\<exists>e. ldb_Get G s k = Err e" if "inv s" "abs s k = None" for s k
    using gl_get_None [OF that] by (auto simp: ldb_Get_def ldb_GetBytes_def)
qed (simp_all add: ldb_Get_def ldb_GetBytes_def ldb_Has_def ldb_Delete_def gl_has gl_get_Some)

context goleveldb
begin

text \<open>What a caller observes is what the map of entries says.\<close>

lemma ldb_run: "inv d \<Longrightarrow> kv_run (ldb_Get G) (ldb_Has G) (ldb_Put G) (ldb_Delete G) xs d = spec_run xs (abs d)"
  by (rule run_refines)

text \<open>A batch is applied as a whole, and deleting an absent key is no error.\<close>

lemma lbatch_Apply_OK: "inv d \<Longrightarrow> \<exists>d'. lbatch_Apply G b d = OK d' \<and> inv d' \<and> abs d' = fold map_do b (abs d)"
  using gl_write [of d b] by (auto simp: lbatch_Apply_def)

lemma ldb_iterates:
  assumes "inv d"
  shows "\<exists>kvs. ldb_drain (Some (gl_NewIterator G d r)) = OK kvs \<and> sorted (map fst kvs) \<and> distinct (map fst kvs) \<and>
    set kvs = {(k, v). abs d k = Some v \<and> in_range r k}"
  using gl_iterator [OF assms, of r] by (auto simp: ldb_drain_eq)

lemma ldb_prefix_iterates:
  assumes "inv d"
  shows "\<exists>kvs. ldb_drain (ldb_NewIteratorWithPrefix G d p) = OK kvs \<and> sorted (map fst kvs) \<and> distinct (map fst kvs) \<and>
    set kvs = {(k, v). abs d k = Some v \<and> prefix p k}"
proof (cases "p = []")
  case True
  then show ?thesis
    using ldb_iterates [OF assms, of None] by (simp add: ldb_NewIteratorWithPrefix_def in_range_def)
next
  case False
  then show ?thesis
    using ldb_iterates [OF assms, of "Some (gl_BytesPrefix G p)"] gl_prefix [OF False] by (simp add: ldb_NewIteratorWithPrefix_def)
qed

text \<open>Both stores enumerate the same entries.\<close>

lemma ldb_prefix_same:
  assumes "inv d" "db_inv m" "abs d = db_map m"
  shows "ldb_drain (ldb_NewIteratorWithPrefix G d p) = it_drain (NewIteratorWithPrefix m p)"
proof -
  obtain kvs where kvs: "ldb_drain (ldb_NewIteratorWithPrefix G d p) = OK kvs" "sorted (map fst kvs)" "distinct (map fst kvs)"
      "set kvs = {(k, v). abs d k = Some v \<and> prefix p k}"
    using ldb_prefix_iterates [OF assms(1)] by blast
  obtain kvs' where kvs': "it_drain (NewIteratorWithPrefix m p) = OK kvs'" "enumerates m (prefix p) kvs'"
    using NewIteratorWithPrefix_enumerates [OF assms(2)] by blast
  have same: "set kvs' = set kvs" "sorted (map fst kvs')" "distinct (map fst kvs')"
    using kvs(4) kvs'(2) assms(3) by (simp_all add: enumerates_def)
  then have "inj_on fst (set kvs \<union> set kvs')"
    using kvs(3) by (simp add: distinct_map)
  then have "kvs = kvs'"
    using kvs(2,3) same by (intro map_sorted_distinct_set_unique [of fst]) simp_all
  with kvs(1) kvs'(1) show ?thesis
    by simp
qed

end

section \<open>An instance\<close>

text \<open>The contract can be met, for example in memory.\<close>

primrec mem_do :: "batch_op \<Rightarrow> memdb \<Rightarrow> memdb" where
  "mem_do (BPut k v) d = d\<lparr>mdb_data := AList.update k v (mdb_data d)\<rparr>"
| "mem_do (BDelete k) d = d\<lparr>mdb_data := AList.delete k (mdb_data d)\<rparr>"

definition mem_ops :: "memdb leveldb_ops" where
  "mem_ops = \<lparr>gl_Has = db_Has, gl_Get = db_Get, gl_Put = db_Put, gl_Delete = (\<lambda>d k. OK (mem_do (BDelete k) d)),
     gl_Write = (\<lambda>d xs. OK (fold mem_do xs d)),
     gl_NewIterator = (\<lambda>d r. \<lparr>gc_cur = None,
       gc_rest = map (\<lambda>k. (k, the (db_map d k))) (sort (filter (in_range r) (map fst (mdb_data d)))), gc_err = OK ()\<rparr>),
     gl_BytesPrefix = (\<lambda>p. (Some p, if IncPrefix p = [] then None else Some (IncPrefix p)))\<rparr>"

lemma mem_do_map: "db_inv d \<Longrightarrow> db_inv (mem_do x d) \<and> db_map (mem_do x d) = map_do x (db_map d)"
  by (cases x) (auto simp: db_inv_def db_map_def update_conv' distinct_update AList.delete_conv' intro: AList.distinct_delete)

lemma mem_fold_map: "db_inv d \<Longrightarrow> db_inv (fold mem_do xs d) \<and> db_map (fold mem_do xs d) = fold map_do xs (db_map d)"
proof (induction xs arbitrary: d)
  case (Cons x xs)
  then show ?case
    using mem_do_map [OF Cons.prems, of x] by simp
qed simp

interpretation mem_leveldb: goleveldb mem_ops db_inv db_map
proof unfold_locales
  show "\<exists>kvs. gl_NewIterator mem_ops d r = \<lparr>gc_cur = None, gc_rest = kvs, gc_err = OK ()\<rparr> \<and>
      sorted (map fst kvs) \<and> distinct (map fst kvs) \<and> set kvs = {(k, v). db_map d k = Some v \<and> in_range r k}" if "db_inv d" for d r
  proof -
    let ?ks = "filter (in_range r) (map fst (mdb_data d))"
    let ?kvs = "map (\<lambda>k. (k, the (db_map d k))) (sort ?ks)"
    have "map fst ?kvs = sort ?ks"
      by (simp add: o_def)
    moreover have "set ?kvs = {(k, v). db_map d k = Some v \<and> in_range r k}"
      using that by (force simp: db_map_def db_inv_def dest: map_of_SomeD)
    moreover have "distinct ?ks"
      using that by (simp add: db_inv_def)
    ultimately show ?thesis
      by (simp add: mem_ops_def)
  qed
  show "in_range (Some (gl_BytesPrefix mem_ops p)) k \<longleftrightarrow> prefix p k" for p k
    using IncPrefix_range [of p k] by (simp add: mem_ops_def in_range_def)
  show "\<exists>d'. gl_Put mem_ops d k v = OK d' \<and> db_inv d' \<and> db_map d' = (db_map d)(k \<mapsto> v)" if "db_inv d" for d k v
    using db_Put_map [OF that] by (simp add: mem_ops_def)
  show "\<exists>d'. gl_Delete mem_ops d k = OK d' \<and> db_inv d' \<and> db_map d' = (db_map d)(k := None)" if "db_inv d" for d k
    using mem_do_map [OF that, of "BDelete k"] by (simp add: mem_ops_def)
  show "\<exists>d'. gl_Write mem_ops d xs = OK d' \<and> db_inv d' \<and> db_map d' = fold map_do xs (db_map d)" if "db_inv d" for d xs
    using mem_fold_map [OF that, of xs] by (simp add: mem_ops_def)
qed (simp_all add: mem_ops_def db_Has_def db_Get_def db_map_def)

section \<open>Where the stores differ\<close>

text \<open>A batch that deletes an absent key: on disk it is applied, in memory it fails.\<close>

lemma batch_delete_absent:
  assumes "goleveldb G usable content" "usable d" "content d k = None" "db_map m k = None"
  shows "\<exists>d'. lbatch_Apply G (lbatch_Delete ldb_NewBatch k) d = OK d' \<and> content d' = content d"
    "\<exists>e. batch_Apply (batch_Delete (NewBatch m) k) m = (m, Err e)"
  using goleveldb.lbatch_Apply_OK [OF assms(1,2), of "[BDelete k]"] assms(3,4)
  by (auto simp: lbatch_Delete_def ldb_NewBatch_def fun_upd_idem batch_Apply_def batch_Delete_def NewBatch_def batch_Reset_def
      db_Delete_def db_map_def)

text \<open>After the last entry: on disk, asking for the key panics; in memory it is empty.\<close>

lemma key_after_end:
  "ldb_it_Key (fst (ldb_it_Next (Some \<lparr>gc_cur = None, gc_rest = [], gc_err = OK ()\<rparr>))) = Panic ''Iterator.Key() called on invalid iterator''"
  "it_Key (snd (it_Next (NewIterator NewDatabase))) = OK []"
  by (simp_all add: ldb_it_Next_def gl_Next_def ldb_it_Key_def it_Key_def it_Next_def NewIterator_def mkIterator_def NewDatabase_def)

end
