(* ===== verification/Perun_Conn.thy ===== *)
theory Perun_Conn
  imports Perun_Handle Perun_Routing
begin

text \<open>
  The messaging of a client: \<open>client/clientconn.go\<close> and \<open>client/channelconn.go\<close> on the relays and
  receivers of \<open>Perun_Routing\<close>.

  The client's relay hands requests to one receiver and the update responses of a channel to the relay
  of the channel's connection, which hands those of a version to the receiver of the update.  Responses
  that come too early are kept: acceptances of version 0 by the client's relay while a channel is being
  opened, and all responses of a channel by the relay of its connection.  The transition system
  \<open>msg_step\<close> has these relays with their goroutines; \<open>responses_routed\<close> is what the protocols of
  \<open>Perun_Client\<close> rely on: a receiver gets exactly the responses of its channel and version.
\<close>

section \<open>The client's connection\<close>

text \<open>Consumers are numbered.  A connection that could not be made has no request receiver.\<close>

record clientConn =
  ck_Relay :: Relay
  ck_reqRecv :: "(nat \<times> Receiver) option"
  ck_sender :: address

text \<open>The deferred function closes the relay when an error is returned.\<close>

definition close_failed :: "string \<Rightarrow> goerr \<Rightarrow> Relay \<Rightarrow> Relay \<times> 'a res" where
  "close_failed msg x r = (case Relay_Close r of
      (r', OK _) \<Rightarrow> (r', Err x)
    | (r', Err _) \<Rightarrow> (r', Err (ErrWithMessage msg x))
    | (r', Panic s) \<Rightarrow> (r', Panic s))"

text \<open>\<open>subscribe\<close> is the bus with the call of \<open>SubscribeClient\<close>.\<close>

definition makeClientConn :: "('bus \<Rightarrow> 'bus \<times> unit res) \<Rightarrow> nat \<Rightarrow> address \<Rightarrow> 'bus \<Rightarrow> 'bus \<times> clientConn \<times> unit res" where
  "makeClientConn subscribe n address bus =
     (let relay = SetDefaultMsgHandler None NewRelay;
          conn = \<lparr>ck_Relay = relay, ck_reqRecv = None, ck_sender = address\<rparr> in
      case subscribe bus of
        (bus', Err x) \<Rightarrow> (case close_failed ''(error closing bus: %v)'' (ErrWithMessage ''subscribing client on bus'' x) relay of
            (r, res) \<Rightarrow> (bus', conn\<lparr>ck_Relay := r\<rparr>, res))
      | (bus', Panic s) \<Rightarrow> (bus', conn, Panic s)
      | (bus', OK _) \<Rightarrow> (let conn' = conn\<lparr>ck_reqRecv := Some (n, NewReceiver)\<rparr> in
          case Relay_Subscribe True n (\<lambda>e. isReqMsg (env_Msg e)) relay of
            (relay', OK _) \<Rightarrow> (bus', conn'\<lparr>ck_Relay := relay'\<rparr>, OK ())
          | (relay', Err x) \<Rightarrow> (case close_failed ''(error closing bus: %v)'' (ErrWithMessage ''subscribing request receiver'' x) relay' of
              (r, res) \<Rightarrow> (bus', conn'\<lparr>ck_Relay := r\<rparr>, res))
          | (relay', Panic s) \<Rightarrow> (bus', conn', Panic s)))"

inductive nextReq :: "bool \<Rightarrow> clientConn \<Rightarrow> clientConn \<Rightarrow> Envelope res \<Rightarrow> bool" for ctxDone where
  "ck_reqRecv c = Some (n, rv) \<Longrightarrow> Receiver_Next ctxDone rv rv' res \<Longrightarrow> nextReq ctxDone c (c\<lparr>ck_reqRecv := Some (n, rv')\<rparr>) res"

definition Receiver_Close :: "Receiver \<Rightarrow> Receiver \<times> unit res" where
  "Receiver_Close r = (if rv_closed r then (r, Err (ErrNew ''Closer already closed'')) else (r\<lparr>rv_closed := True\<rparr>, OK ()))"

definition clientConn_Close :: "clientConn \<Rightarrow> clientConn \<times> unit res" where
  "clientConn_Close c = (case Relay_Close (ck_Relay c) of (relay, err) \<Rightarrow>
     (case ck_reqRecv c of
        None \<Rightarrow> (c\<lparr>ck_Relay := relay\<rparr>, Panic ''nil pointer dereference'')
      | Some (n, rv) \<Rightarrow> (case Receiver_Close rv of (rv', rerr) \<Rightarrow>
          (c\<lparr>ck_Relay := relay, ck_reqRecv := Some (n, rv')\<rparr>,
           if err = OK () then with_msg ''closing proposal receiver'' rerr else err))))"

text \<open>\<open>enableVer0Cache\<close> of \<open>client/proposal.go\<close>.\<close>

definition isVer0Acc :: Predicate where
  "isVer0Acc e = (case env_Msg e of MUpdateAcc a \<Rightarrow> ua_Version a = 0 | _ \<Rightarrow> False)"

definition enableVer0Cache :: "nat \<Rightarrow> Relay \<Rightarrow> Relay" where
  "enableVer0Cache ctx r = Relay_Cache ctx isVer0Acc r"

section \<open>The connection of a channel\<close>

text \<open>The publisher is the client's connection.  Context 0 is the background context.\<close>

record channelConn =
  cc_r :: Relay
  cc_peers :: "address list"
  cc_idx :: Index

definition isChannelRes :: "ID \<Rightarrow> Predicate" where
  "isChannelRes i e = (case env_Msg e of MUpdateAcc a \<Rightarrow> ua_ChannelID a = i | MUpdateRej r \<Rightarrow> ur_ChannelID r = i | _ \<Rightarrow> False)"

definition isVersionRes :: "u64 \<Rightarrow> Predicate" where
  "isVersionRes v e = (case env_Msg e of MUpdateAcc a \<Rightarrow> ua_Version a = v | MUpdateRej r \<Rightarrow> ur_Version r = v | _ \<Rightarrow> False)"

text \<open>The result has the cached messages, which a goroutine brings to the new relay.\<close>

definition newChannelConn :: "nat \<Rightarrow> ID \<Rightarrow> address list \<Rightarrow> Index \<Rightarrow> Relay \<Rightarrow> Relay \<times> (channelConn \<times> Envelope list) res" where
  "newChannelConn n i peers idx sub =
     (let relay = Relay_Cache 0 (\<lambda>_. True) NewRelay in
      case Relay_Subscribe True n (isChannelRes i) sub of
        (sub', OK cached) \<Rightarrow> (sub', OK (\<lparr>cc_r = relay, cc_peers = peers, cc_idx = idx\<rparr>, cached))
      | (sub', Err x) \<Rightarrow> (sub', snd (close_failed ''(error closing relay: %v)'' (ErrWithMessage ''subscribing relay'' x) relay))
      | (sub', Panic s) \<Rightarrow> (sub', Panic s))"

definition cc_sender :: "channelConn \<Rightarrow> address res" where
  "cc_sender c = index_at (cc_peers c) (unat (cc_idx c))"

definition channelConn_Close :: "channelConn \<Rightarrow> channelConn \<times> unit res" where
  "channelConn_Close c = (case Relay_Close (cc_r c) of (r, res) \<Rightarrow> (c\<lparr>cc_r := r\<rparr>, res))"

record channelMsgRecv =
  mr_Receiver :: Receiver
  mr_peers :: "address list"

definition conn_NewUpdateResRecv :: "nat \<Rightarrow> u64 \<Rightarrow> channelConn \<Rightarrow> channelConn \<times> (channelMsgRecv \<times> Envelope list) res" where
  "conn_NewUpdateResRecv n version c = (case Relay_Subscribe True n (isVersionRes version) (cc_r c) of
      (r, OK cached) \<Rightarrow> (c\<lparr>cc_r := r\<rparr>, OK (\<lparr>mr_Receiver = NewReceiver, mr_peers = cc_peers c\<rparr>, cached))
    | (r, Err x) \<Rightarrow> (c\<lparr>cc_r := r\<rparr>, Err (ErrWithMessage ''subscribing update response receiver'' x))
    | (r, Panic s) \<Rightarrow> (c\<lparr>cc_r := r\<rparr>, Panic s))"

inductive channelMsgRecv_Next :: "bool \<Rightarrow> channelMsgRecv \<Rightarrow> channelMsgRecv \<Rightarrow> (Index \<times> Msg) res \<Rightarrow> bool" for ctxDone where
  "Receiver_Next ctxDone (mr_Receiver r) rv res \<Longrightarrow>
   channelMsgRecv_Next ctxDone r (r\<lparr>mr_Receiver := rv\<rparr>) (bindR res (\<lambda>env.
     let idx = IndexOfAddr (mr_peers r) (env_Sender env) in
     if idx = -1 then Err (ErrNew ''channel connection received message from unexpected peer %v'')
     else OK (of_int idx, env_Msg env)))"

section \<open>The relays of a client with their goroutines\<close>

text \<open>\<open>ms_pending\<close> are the calls of \<open>Put\<close> that a relay or one of its goroutines has still to make,
  \<open>ms_inbox\<close> what a receiver has been given.  \<open>ms_chans\<close> are the connections of channels, with the
  identifier that their subscriptions hold, \<open>ms_vers\<close> the receivers of update responses, with their
  connection and version, and \<open>ms_ver0\<close> the contexts of channel openings.  \<open>ms_arrived\<close> are the expected responses: those for an open connection, and
  the acceptances of version 0 that arrive during the opening of a channel.\<close>

record msg_sys =
  ms_relay :: Relay
  ms_chans :: "nat \<rightharpoonup> ID \<times> channelConn"
  ms_vers :: "nat \<rightharpoonup> nat \<times> u64"
  ms_pending :: "(nat \<times> Envelope list) list"
  ms_inbox :: "nat \<Rightarrow> Envelope list"
  ms_done :: "nat \<Rightarrow> bool"
  ms_ver0 :: "nat list"
  ms_next :: nat
  ms_arrived :: "Envelope list"

definition expects :: "msg_sys \<Rightarrow> Envelope \<Rightarrow> bool" where
  "expects y e \<longleftrightarrow> (\<exists>c i cc. ms_chans y c = Some (i, cc) \<and> \<not> rl_closed (cc_r cc) \<and> isChannelRes i e) \<or>
     isVer0Acc e \<and> (\<exists>ctx \<in> set (ms_ver0 y). \<not> ms_done y ctx)"

definition calls :: "delivery list \<Rightarrow> (nat \<times> Envelope list) list" where
  "calls ds = map (\<lambda>(c, e). (c, [e])) (consumed ds)"

text \<open>\<open>Put\<close> of the consumer with the number \<open>c\<close>: the relay of a connection, or a receiver.\<close>

definition consumer_Put :: "nat \<Rightarrow> Envelope \<Rightarrow> msg_sys \<Rightarrow> msg_sys" where
  "consumer_Put c e y = (case ms_chans y c of
      None \<Rightarrow> y\<lparr>ms_inbox := (ms_inbox y)(c := ms_inbox y c @ [e])\<rparr>
    | Some (i, cc) \<Rightarrow> (case Relay_Put (ms_done y) e (cc_r cc) of (r, ds) \<Rightarrow>
        y\<lparr>ms_chans := (ms_chans y)(c \<mapsto> (i, cc\<lparr>cc_r := r\<rparr>)), ms_pending := ms_pending y @ calls ds\<rparr>))"

definition isResponse :: Predicate where
  "isResponse e = (case env_Msg e of MUpdateAcc _ \<Rightarrow> True | MUpdateRej _ \<Rightarrow> True | _ \<Rightarrow> False)"

definition ignores_responses :: "Predicate \<Rightarrow> bool" where
  "ignores_responses p \<longleftrightarrow> (\<forall>e. isResponse e \<longrightarrow> \<not> p e)"

text \<open>\<open>Subscribe\<close> is a subscription to messages other than update responses, \<open>Unsubscribe\<close> and
  \<open>EndAwait\<close> are the goroutines that a closed consumer starts to be deleted.\<close>

inductive msg_step :: "msg_sys \<Rightarrow> msg_sys \<Rightarrow> bool" where
  Arrive: "Relay_Put (ms_done y) e (ms_relay y) = (r, ds) \<Longrightarrow>
     msg_step y (y\<lparr>ms_relay := r, ms_pending := ms_pending y @ calls ds,
       ms_arrived := ms_arrived y @ (if expects y e then [e] else [])\<rparr>)"
| Call: "ms_pending y = ps @ (c, e # es) # qs \<Longrightarrow> msg_step y (consumer_Put c e (y\<lparr>ms_pending := ps @ (c, es) # qs\<rparr>))"
| OpenChannel: "msg_step y (y\<lparr>ms_relay := enableVer0Cache ctx (ms_relay y), ms_ver0 := ctx # ms_ver0 y\<rparr>)"
| Expire: "ctx \<noteq> 0 \<Longrightarrow> msg_step y (y\<lparr>ms_done := (ms_done y)(ctx := True)\<rparr>)"
| Connect: "newChannelConn (ms_next y) i peers idx (ms_relay y) = (r, OK (cc, cached)) \<Longrightarrow>
     msg_step y (y\<lparr>ms_relay := r, ms_chans := (ms_chans y)(ms_next y \<mapsto> (i, cc)), ms_next := Suc (ms_next y),
       ms_pending := ms_pending y @ [(ms_next y, cached)]\<rparr>)"
| Await: "ms_chans y c = Some (i, cc) \<Longrightarrow> conn_NewUpdateResRecv (ms_next y) v cc = (cc', OK (rv, cached)) \<Longrightarrow>
     msg_step y (y\<lparr>ms_vers := (ms_vers y)(ms_next y \<mapsto> (c, v)), ms_next := Suc (ms_next y),
       ms_chans := (ms_chans y)(c \<mapsto> (i, cc')), ms_pending := ms_pending y @ [(ms_next y, cached)]\<rparr>)"
| Subscribe: "ignores_responses p \<Longrightarrow> Relay_Subscribe True (ms_next y) p (ms_relay y) = (r, OK cached) \<Longrightarrow>
     msg_step y (y\<lparr>ms_relay := r, ms_pending := ms_pending y @ [(ms_next y, cached)], ms_next := Suc (ms_next y)\<rparr>)"
| CloseConn: "ms_chans y c = Some (i, cc) \<Longrightarrow> channelConn_Close cc = (cc', res) \<Longrightarrow>
     msg_step y (y\<lparr>ms_chans := (ms_chans y)(c \<mapsto> (i, cc'))\<rparr>)"
| Unsubscribe: "(\<forall>i cc. ms_chans y n = Some (i, cc) \<longrightarrow> rl_closed (cc_r cc)) \<Longrightarrow> Relay_delete n (ms_relay y) = (r, OK ()) \<Longrightarrow>
     msg_step y (y\<lparr>ms_relay := r\<rparr>)"
| EndAwait: "ms_chans y c = Some (i, cc) \<Longrightarrow> Relay_delete n (cc_r cc) = (r, OK ()) \<Longrightarrow>
     msg_step y (y\<lparr>ms_chans := (ms_chans y)(c \<mapsto> (i, cc\<lparr>cc_r := r\<rparr>))\<rparr>)"

text \<open>A new client: consumer 0 is the receiver of requests.\<close>

definition msg_init :: msg_sys where
  "msg_init = \<lparr>ms_relay = ck_Relay (fst (snd (makeClientConn (\<lambda>bus. (bus, OK ())) 0 [] ()))), ms_chans = Map.empty, ms_vers = Map.empty,
     ms_pending = [], ms_inbox = (\<lambda>_. []), ms_done = (\<lambda>_. False), ms_ver0 = [], ms_next = 1, ms_arrived = []\<rparr>"

definition msg_reach :: "msg_sys \<Rightarrow> bool" where
  "msg_reach = msg_step\<^sup>*\<^sup>* msg_init"

section \<open>Calls on an open relay\<close>

lemma Relay_Put_open:
  assumes "Relay_Put ctxs e r = (r', ds)" "\<not> rl_closed r"
  shows "consumed ds = map (\<lambda>(c, _). (c, e)) (filter (\<lambda>(_, p). p e) (rl_consumers r))"
    and "rl_consumers r' = rl_consumers r" "\<not> rl_closed r'"
    and "ca_msgs (rl_cache r') = ca_msgs (rl_cache r) @ (if filter (\<lambda>(_, p). p e) (rl_consumers r) = [] \<and>
      (\<exists>(ctx, p) \<in> set (ca_preds (rl_cache r)). \<not> ctxs ctx \<and> p e) then [e] else [])"
    and "set (ca_preds (rl_cache r')) \<subseteq> set (ca_preds (rl_cache r))"
    and "(ctx, p) \<in> set (ca_preds (rl_cache r)) \<Longrightarrow> \<not> ctxs ctx \<Longrightarrow> (ctx, p) \<in> set (ca_preds (rl_cache r'))"
proof -
  let ?subs = "filter (\<lambda>(_, p). p e) (rl_consumers r)"
  have r: "(r' = r \<and> ds = map (\<lambda>(c, _). ToConsumer c e) ?subs) \<and> ?subs \<noteq> [] \<or>
      ?subs = [] \<and> consumed ds = [] \<and> r' = r\<lparr>rl_cache := fst (Cache_Put ctxs e (rl_cache r))\<rparr>"
    using assms by (auto simp: Relay_Put_def Let_def split: prod.splits bool.splits if_splits)
  then show "consumed ds = map (\<lambda>(c, _). (c, e)) ?subs" "rl_consumers r' = rl_consumers r" "\<not> rl_closed r'"
    using assms(2) by (auto simp: consumed_map)
  show "ca_msgs (rl_cache r') = ca_msgs (rl_cache r) @ (if ?subs = [] \<and>
      (\<exists>(ctx, p) \<in> set (ca_preds (rl_cache r)). \<not> ctxs ctx \<and> p e) then [e] else [])"
    using r by (auto simp: Cache_Put_def Let_def list_ex_iff) blast+
  show "set (ca_preds (rl_cache r')) \<subseteq> set (ca_preds (rl_cache r))"
    and "(ctx, p) \<in> set (ca_preds (rl_cache r)) \<Longrightarrow> \<not> ctxs ctx \<Longrightarrow> (ctx, p) \<in> set (ca_preds (rl_cache r'))"
    using r by (auto simp: Cache_Put_def Let_def)
qed

lemma Relay_Put_closed: "rl_closed r \<Longrightarrow> Relay_Put ctxs e r = (r, [])"
  by (simp add: Relay_Put_def)

lemma Relay_Subscribe_open:
  assumes "Relay_Subscribe True n p r = (r', OK ms)"
  shows "\<not> rl_closed r" "\<not> rl_closed r'" "ca_preds (rl_cache r') = ca_preds (rl_cache r)"
  using assms by (auto simp: Relay_Subscribe_def Cache_Get_def split: if_splits)

lemma Relay_delete_open:
  assumes "Relay_delete n r = (r', OK ())" "\<not> rl_closed r" "distinct (map fst (rl_consumers r))"
  shows "mset (rl_consumers r') = mset (filter (\<lambda>(d, _). d \<noteq> n) (rl_consumers r))"
    and "set (rl_consumers r') = {(d, p) \<in> set (rl_consumers r). d \<noteq> n}" "distinct (map fst (rl_consumers r'))"
    and "\<not> rl_closed r'" "rl_cache r' = rl_cache r"
proof -
  obtain subs where subs: "replaceByLast n (rl_consumers r) = Some subs" "r' = r\<lparr>rl_consumers := subs\<rparr>"
    using assms(1,2) by (auto simp: Relay_delete_def split: option.splits)
  then show ms: "mset (rl_consumers r') = mset (filter (\<lambda>(d, _). d \<noteq> n) (rl_consumers r))"
    using replaceByLast_mset assms(3) by simp
  show "set (rl_consumers r') = {(d, p) \<in> set (rl_consumers r). d \<noteq> n}"
    using mset_eq_setD [OF ms] by auto
  have "mset (map fst (rl_consumers r')) = mset (map fst (filter (\<lambda>(d, _). d \<noteq> n) (rl_consumers r)))"
    using ms by (metis mset_map)
  then show "distinct (map fst (rl_consumers r'))"
    using assms(3) mset_eq_imp_distinct_iff distinct_map_filter by blast
  show "\<not> rl_closed r'" "rl_cache r' = rl_cache r"
    using subs(2) assms(2) by simp_all
qed

lemma Relay_delete_closed: "Relay_delete n r = (r', x) \<Longrightarrow> rl_closed r \<Longrightarrow> r' = r"
  by (simp add: Relay_delete_def)

text \<open>The predicates of the subscriptions.\<close>

lemma response_predicates:
  "isUpdateRes i v (env_Msg e) \<longleftrightarrow> isChannelRes i e \<and> isVersionRes v e"
  "isChannelRes i e \<Longrightarrow> isResponse e"
  "isChannelRes i e \<Longrightarrow> isChannelRes j e \<Longrightarrow> i = j"
  "isVersionRes v e \<Longrightarrow> isVersionRes w e \<Longrightarrow> v = w"
  "isResponse e \<Longrightarrow> \<not> isReqMsg (env_Msg e)"
  by (auto simp: isUpdateRes_def isChannelRes_def isVersionRes_def isResponse_def isReqMsg_def split: Msg.splits)

text \<open>A connection to the bus receives the requests.\<close>

lemma makeClientConn_OK:
  assumes "subscribe bus = (bus', OK ())"
  shows "makeClientConn subscribe n address bus = (bus', \<lparr>ck_Relay = NewRelay\<lparr>rl_consumers := [(n, \<lambda>e. isReqMsg (env_Msg e))]\<rparr>,
     ck_reqRecv = Some (n, NewReceiver), ck_sender = address\<rparr>, OK ())"
  using assms by (simp add: makeClientConn_def SetDefaultMsgHandler_def NewRelay_def emptyCache_def Relay_Subscribe_def Cache_Get_def Let_def)

text \<open>A connection that the bus refuses is closed.\<close>

lemma makeClientConn_Err:
  assumes "subscribe bus = (bus', Err x)"
  shows "\<exists>c. makeClientConn subscribe n address bus = (bus', c, Err (ErrWithMessage ''subscribing client on bus'' x)) \<and>
     rl_closed (ck_Relay c) \<and> snd (clientConn_Close c) = Panic ''nil pointer dereference''"
  using assms by (simp add: makeClientConn_def close_failed_def SetDefaultMsgHandler_def NewRelay_def emptyCache_def Relay_Close_def
      Cache_Size_def clientConn_Close_def Let_def)

section \<open>Well-formedness\<close>

text \<open>The messages that a consumer is given.\<close>

definition conn_ID :: "msg_sys \<Rightarrow> nat \<rightharpoonup> ID" where
  "conn_ID y n = map_option fst (ms_chans y n)"

definition allowed :: "msg_sys \<Rightarrow> nat \<Rightarrow> Envelope \<Rightarrow> bool" where
  "allowed y n e \<longleftrightarrow> (\<forall>i. conn_ID y n = Some i \<longrightarrow> isChannelRes i e) \<and>
     (\<forall>c v i. ms_vers y n = Some (c, v) \<longrightarrow> conn_ID y c = Some i \<longrightarrow> isChannelRes i e \<and> isVersionRes v e)"

definition conn_ok :: "(nat \<rightharpoonup> nat \<times> u64) \<Rightarrow> nat \<Rightarrow> ID \<Rightarrow> channelConn \<Rightarrow> bool" where
  "conn_ok vers c i cc \<longleftrightarrow> (\<not> rl_closed (cc_r cc) \<longrightarrow> (0, \<lambda>_. True) \<in> set (ca_preds (rl_cache (cc_r cc)))) \<and>
     distinct (map fst (rl_consumers (cc_r cc))) \<and>
     (\<forall>n p. (n, p) \<in> set (rl_consumers (cc_r cc)) \<longrightarrow> (\<exists>v. vers n = Some (c, v) \<and> p = isVersionRes v)) \<and>
     (\<forall>e \<in> set (ca_msgs (rl_cache (cc_r cc))). isChannelRes i e)"

definition relay_ok :: "msg_sys \<Rightarrow> bool" where
  "relay_ok y \<longleftrightarrow> \<not> rl_closed (ms_relay y) \<and> distinct (map fst (rl_consumers (ms_relay y))) \<and>
     (\<forall>n p. (n, p) \<in> set (rl_consumers (ms_relay y)) \<longrightarrow> n < ms_next y \<and> ms_vers y n = None \<and>
       (\<forall>i. conn_ID y n = Some i \<longrightarrow> p = isChannelRes i) \<and>
       (conn_ID y n = None \<longrightarrow> ignores_responses p)) \<and>
     (\<forall>ctx p. (ctx, p) \<in> set (ca_preds (rl_cache (ms_relay y))) \<longrightarrow> p = isVer0Acc \<and> ctx \<in> set (ms_ver0 y)) \<and>
     (\<forall>ctx \<in> set (ms_ver0 y). \<not> ms_done y ctx \<longrightarrow> (ctx, isVer0Acc) \<in> set (ca_preds (rl_cache (ms_relay y))))"

definition pending_ok :: "msg_sys \<Rightarrow> (nat \<times> Envelope list) list \<Rightarrow> bool" where
  "pending_ok y ps \<longleftrightarrow> (\<forall>(n, es) \<in> set ps. n < ms_next y \<and> (\<forall>e \<in> set es. allowed y n e))"

lemma pending_ok_simps [simp]:
  "pending_ok y []"
  "pending_ok y ((n, es) # ps) \<longleftrightarrow> n < ms_next y \<and> (\<forall>e \<in> set es. allowed y n e) \<and> pending_ok y ps"
  "pending_ok y (ps @ qs) \<longleftrightarrow> pending_ok y ps \<and> pending_ok y qs"
  by (auto simp: pending_ok_def)

definition msg_wf :: "msg_sys \<Rightarrow> bool" where
  "msg_wf y \<longleftrightarrow> relay_ok y \<and> \<not> ms_done y 0 \<and>
     (\<forall>c i cc. ms_chans y c = Some (i, cc) \<longrightarrow> c < ms_next y \<and> conn_ok (ms_vers y) c i cc \<and>
       (\<not> rl_closed (cc_r cc) \<longrightarrow> c \<in> fst ` set (rl_consumers (ms_relay y)))) \<and>
     (\<forall>n c v. ms_vers y n = Some (c, v) \<longrightarrow> n < ms_next y \<and> ms_chans y n = None \<and> ms_chans y c \<noteq> None) \<and>
     pending_ok y (ms_pending y) \<and>
     (\<forall>n. \<forall>e \<in> set (ms_inbox y n). n < ms_next y \<and> allowed y n e)"

lemma msg_wfD:
  assumes "msg_wf y"
  shows "relay_ok y" "\<not> ms_done y 0"
    and "ms_chans y c = Some (i, cc) \<Longrightarrow> c < ms_next y" "ms_chans y c = Some (i, cc) \<Longrightarrow> conn_ok (ms_vers y) c i cc"
    and "ms_chans y c = Some (i, cc) \<Longrightarrow> \<not> rl_closed (cc_r cc) \<Longrightarrow> c \<in> fst ` set (rl_consumers (ms_relay y))"
    and "ms_vers y n = Some (c, v) \<Longrightarrow> n < ms_next y" "ms_vers y n = Some (c, v) \<Longrightarrow> ms_chans y n = None"
    and "ms_vers y n = Some (c, v) \<Longrightarrow> ms_chans y c \<noteq> None"
    and "pending_ok y (ms_pending y)" "(n, es) \<in> set (ms_pending y) \<Longrightarrow> n < ms_next y"
    and "e \<in> set (ms_inbox y n) \<Longrightarrow> n < ms_next y" "e \<in> set (ms_inbox y n) \<Longrightarrow> allowed y n e"
  using assms unfolding msg_wf_def pending_ok_def by blast+

lemma relay_okD:
  assumes "relay_ok y"
  shows "\<not> rl_closed (ms_relay y)" "distinct (map fst (rl_consumers (ms_relay y)))"
    and "(n, p) \<in> set (rl_consumers (ms_relay y)) \<Longrightarrow> n < ms_next y"
    and "(n, p) \<in> set (rl_consumers (ms_relay y)) \<Longrightarrow> conn_ID y n = Some i \<Longrightarrow> p = isChannelRes i"
    and "(n, p) \<in> set (rl_consumers (ms_relay y)) \<Longrightarrow> conn_ID y n = None \<Longrightarrow> ignores_responses p"
    and "(ctx, p) \<in> set (ca_preds (rl_cache (ms_relay y))) \<Longrightarrow> p = isVer0Acc \<and> ctx \<in> set (ms_ver0 y)"
    and "ctx \<in> set (ms_ver0 y) \<Longrightarrow> \<not> ms_done y ctx \<Longrightarrow> (ctx, isVer0Acc) \<in> set (ca_preds (rl_cache (ms_relay y)))"
    and "(n, p) \<in> set (rl_consumers (ms_relay y)) \<Longrightarrow> ms_vers y n = None"
  using assms unfolding relay_ok_def by metis+

lemma msg_wf_fresh:
  assumes "msg_wf y" "ms_next y \<le> n"
  shows "ms_chans y n = None" "ms_vers y n = None" "ms_vers y m \<noteq> Some (n, v)" "n \<notin> fst ` set (ms_pending y)" "ms_inbox y n = []"
    "n \<notin> fst ` set (rl_consumers (ms_relay y))" "ms_chans y c = Some (i, cc) \<Longrightarrow> n \<notin> fst ` set (rl_consumers (cc_r cc))"
proof -
  note D = msg_wfD [OF assms(1)]
  show 1: "ms_chans y n = None"
    using D(3) [of n] assms(2) by (cases "ms_chans y n") force+
  show 2: "ms_vers y n = None"
    using D(6) [of n] assms(2) by (cases "ms_vers y n") force+
  show "ms_vers y m \<noteq> Some (n, v)"
    using D(8) [of m n v] 1 by blast
  show "n \<notin> fst ` set (ms_pending y)" "n \<notin> fst ` set (rl_consumers (ms_relay y))"
    using D(10) relay_okD(3) [OF D(1)] assms(2) by (force dest: leD)+
  show "ms_inbox y n = []"
    using D(11) [of _ n] assms(2) by (cases "ms_inbox y n") (auto dest: leD)
  show "ms_chans y c = Some (i, cc) \<Longrightarrow> n \<notin> fst ` set (rl_consumers (cc_r cc))"
    using D(4) [of c i cc] 2 by (fastforce simp: conn_ok_def)
qed

text \<open>The ways in which a step changes the system.\<close>

lemma conn_ID_simps [simp]:
  "conn_ID (y\<lparr>ms_arrived := a\<rparr>) = conn_ID y" "conn_ID (y\<lparr>ms_relay := r\<rparr>) = conn_ID y" "conn_ID (y\<lparr>ms_pending := ps\<rparr>) = conn_ID y"
  "conn_ID (y\<lparr>ms_inbox := b\<rparr>) = conn_ID y" "conn_ID (y\<lparr>ms_next := k\<rparr>) = conn_ID y" "conn_ID (y\<lparr>ms_done := d\<rparr>) = conn_ID y"
  "conn_ID (y\<lparr>ms_ver0 := l\<rparr>) = conn_ID y" "conn_ID (y\<lparr>ms_vers := m\<rparr>) = conn_ID y"
  "conn_ID (y\<lparr>ms_chans := (ms_chans y)(c \<mapsto> (i, cc))\<rparr>) = (conn_ID y)(c \<mapsto> i)"
  "conn_ID (y\<lparr>ms_relay := r, ms_chans := (ms_chans y)(c \<mapsto> (i, cc))\<rparr>) = (conn_ID y)(c \<mapsto> i)"
  by (simp_all add: conn_ID_def fun_eq_iff)

lemma conn_ID_iff [simp]: "conn_ID y c = None \<longleftrightarrow> ms_chans y c = None"
  by (simp add: conn_ID_def)

lemma conn_ID_Some: "ms_chans y c = Some (i, cc) \<Longrightarrow> conn_ID y c = Some i"
  by (simp add: conn_ID_def)

lemma msg_wf_simps [simp]:
  "msg_wf (y\<lparr>ms_arrived := a\<rparr>) = msg_wf y"
  "allowed (y\<lparr>ms_arrived := a\<rparr>) = allowed y" "allowed (y\<lparr>ms_relay := r\<rparr>) = allowed y" "allowed (y\<lparr>ms_pending := ps\<rparr>) = allowed y"
  "allowed (y\<lparr>ms_inbox := b\<rparr>) = allowed y" "allowed (y\<lparr>ms_next := k\<rparr>) = allowed y" "allowed (y\<lparr>ms_done := d\<rparr>) = allowed y"
  "allowed (y\<lparr>ms_ver0 := l\<rparr>) = allowed y"
  "pending_ok (y\<lparr>ms_pending := ps\<rparr>) = pending_ok y" "pending_ok (y\<lparr>ms_inbox := b\<rparr>) = pending_ok y"
  "pending_ok (y\<lparr>ms_relay := r\<rparr>) = pending_ok y" "pending_ok (y\<lparr>ms_done := d\<rparr>) = pending_ok y"
  by (simp_all add: msg_wf_def relay_ok_def pending_ok_def allowed_def fun_eq_iff)

lemma same_conn:
  assumes "ms_chans y c = Some (i, cc)"
  shows "conn_ID (y\<lparr>ms_chans := (ms_chans y)(c \<mapsto> (i, cc'))\<rparr>) = conn_ID y"
    and "allowed (y\<lparr>ms_chans := (ms_chans y)(c \<mapsto> (i, cc'))\<rparr>) = allowed y"
proof -
  show "conn_ID (y\<lparr>ms_chans := (ms_chans y)(c \<mapsto> (i, cc'))\<rparr>) = conn_ID y"
    using assms by (simp add: conn_ID_def fun_eq_iff)
  then show "allowed (y\<lparr>ms_chans := (ms_chans y)(c \<mapsto> (i, cc'))\<rparr>) = allowed y"
    by (simp add: allowed_def fun_eq_iff)
qed

lemma wf_conn:
  assumes "msg_wf y" "ms_chans y c = Some (i, cc)" "conn_ok (ms_vers y) c i cc'" "rl_closed (cc_r cc) \<Longrightarrow> rl_closed (cc_r cc')"
  shows "msg_wf (y\<lparr>ms_chans := (ms_chans y)(c \<mapsto> (i, cc'))\<rparr>)"
proof -
  note D = msg_wfD [OF assms(1)]
  let ?y = "y\<lparr>ms_chans := (ms_chans y)(c \<mapsto> (i, cc'))\<rparr>"
  have "relay_ok ?y"
    using D(1) unfolding relay_ok_def same_conn [OF assms(2)] by simp
  moreover have "c \<in> fst ` set (rl_consumers (ms_relay y))" if "\<not> rl_closed (cc_r cc')"
    using D(5) [OF assms(2)] assms(4) that by blast
  ultimately show ?thesis
    using D(2-12) assms(2,3) unfolding msg_wf_def pending_ok_def same_conn [OF assms(2)] by (auto split: if_splits)
qed

lemma wf_pending:
  assumes "msg_wf y" "pending_ok y ps"
  shows "msg_wf (y\<lparr>ms_pending := ps\<rparr>)"
  using assms unfolding msg_wf_def relay_ok_def pending_ok_def by auto

lemma wf_relay:
  assumes "msg_wf y" "relay_ok (y\<lparr>ms_relay := r, ms_ver0 := l\<rparr>)"
    and "\<And>c i cc. ms_chans y c = Some (i, cc) \<Longrightarrow> \<not> rl_closed (cc_r cc) \<Longrightarrow> c \<in> fst ` set (rl_consumers r)"
  shows "msg_wf (y\<lparr>ms_relay := r, ms_ver0 := l\<rparr>)"
  using assms unfolding msg_wf_def pending_ok_def by auto

lemmas wf_relay_same = wf_relay [where l = "ms_ver0 y" and y = y for y, simplified]

lemma wf_recv:
  assumes "msg_wf y" "ms_chans y c = Some (i, cc)"
  shows "msg_wf (y\<lparr>ms_vers := (ms_vers y)(ms_next y \<mapsto> (c, v)), ms_next := Suc (ms_next y)\<rparr>)"
proof -
  note D = msg_wfD [OF assms(1)] and F = msg_wf_fresh [OF assms(1), of "ms_next y", simplified]
  let ?y = "y\<lparr>ms_vers := (ms_vers y)(ms_next y \<mapsto> (c, v)), ms_next := Suc (ms_next y)\<rparr>"
  have "relay_ok ?y"
    using D(1) unfolding relay_ok_def by (auto simp: less_Suc_eq)
  moreover have "allowed ?y n e = allowed y n e" if "n < ms_next y" for n e
    using that by (auto simp: allowed_def)
  moreover have "conn_ok (ms_vers ?y) d j cd" if "conn_ok (ms_vers y) d j cd" for d j cd
    using that F(2) unfolding conn_ok_def by fastforce
  ultimately show ?thesis
    using D F(1) assms(2) unfolding msg_wf_def pending_ok_def by (auto simp: less_Suc_eq)
qed

lemma wf_new_conn:
  assumes "msg_wf y" "conn_ok (ms_vers y) (ms_next y) i cc"
    and "relay_ok (y\<lparr>ms_relay := r, ms_chans := (ms_chans y)(ms_next y \<mapsto> (i, cc)), ms_next := Suc (ms_next y)\<rparr>)"
    and "fst ` set (rl_consumers r) = insert (ms_next y) (fst ` set (rl_consumers (ms_relay y)))"
  shows "msg_wf (y\<lparr>ms_relay := r, ms_chans := (ms_chans y)(ms_next y \<mapsto> (i, cc)), ms_next := Suc (ms_next y)\<rparr>)"
proof -
  note D = msg_wfD [OF assms(1)] and F = msg_wf_fresh [OF assms(1), of "ms_next y", simplified]
  let ?y = "y\<lparr>ms_relay := r, ms_chans := (ms_chans y)(ms_next y \<mapsto> (i, cc)), ms_next := Suc (ms_next y)\<rparr>"
  have "allowed ?y n e = allowed y n e" if "n < ms_next y" for n e
    using that F(3) by (auto simp: allowed_def)
  then show ?thesis
    using D F(2) assms(2-4) unfolding msg_wf_def pending_ok_def by (auto simp: less_Suc_eq)
qed

lemma newChannelConn_OK:
  assumes "newChannelConn n i peers idx sub = (r, OK (cc, ms))"
  shows "Relay_Subscribe True n (isChannelRes i) sub = (r, OK ms)"
    "cc = \<lparr>cc_r = Relay_Cache 0 (\<lambda>_. True) NewRelay, cc_peers = peers, cc_idx = idx\<rparr>"
  using assms by (auto simp: newChannelConn_def Let_def close_failed_def Relay_Close_def Relay_Cache_def NewRelay_def
      split: prod.splits res.splits if_splits)

lemma NewRelay_conn_ok: "conn_ok vers c i \<lparr>cc_r = Relay_Cache 0 (\<lambda>_. True) NewRelay, cc_peers = peers, cc_idx = idx\<rparr>"
  by (simp add: conn_ok_def Relay_Cache_def Cache_Cache_def NewRelay_def emptyCache_def)

lemma conn_ok_Put:
  assumes "conn_ok vers c i cc" "Relay_Put ctxs e (cc_r cc) = (r, ds)" "isChannelRes i e" "\<not> ctxs 0"
  shows "conn_ok vers c i (cc\<lparr>cc_r := r\<rparr>)"
proof (cases "rl_closed (cc_r cc)")
  case True
  with assms(1,2) show ?thesis
    by (auto simp: Relay_Put_closed conn_ok_def)
next
  case False
  note P = Relay_Put_open [OF assms(2) False]
  show ?thesis
    using assms(1,3,4) False P(6) [of 0 "\<lambda>_. True"] unfolding conn_ok_def by (auto simp: P(2,4))
qed

lemma conn_ok_Close: "conn_ok vers c i cc \<Longrightarrow> channelConn_Close cc = (cc', x) \<Longrightarrow> conn_ok vers c i cc'"
  by (auto simp: conn_ok_def channelConn_Close_def Relay_Close_def Flush_def Let_def split: if_splits prod.splits)

lemma conn_ok_delete:
  assumes "conn_ok vers c i cc" "Relay_delete n (cc_r cc) = (r, OK ())"
  shows "conn_ok vers c i (cc\<lparr>cc_r := r\<rparr>)"
proof (cases "rl_closed (cc_r cc)")
  case False
  have "distinct (map fst (rl_consumers (cc_r cc)))"
    using assms(1) by (simp add: conn_ok_def)
  note P = Relay_delete_open [OF assms(2) False this]
  show ?thesis
    using assms(1) False P(3,4) unfolding conn_ok_def by (simp add: P(2,5))
next
  case True
  then have "r = cc_r cc"
    using Relay_delete_closed [OF assms(2)] by blast
  with assms(1) show ?thesis
    by (simp add: conn_ok_def)
qed

lemma conn_ok_recv:
  assumes "conn_ok vers c i cc" "conn_NewUpdateResRecv n v cc = (cc', OK (rv, ms))" "vers n = Some (c, v)"
  shows "conn_ok vers c i cc'" "\<not> rl_closed (cc_r cc)" "\<not> rl_closed (cc_r cc')"
    "ms = filter (isVersionRes v) (ca_msgs (rl_cache (cc_r cc)))"
    "ca_msgs (rl_cache (cc_r cc')) = filter (\<lambda>e. \<not> isVersionRes v e) (ca_msgs (rl_cache (cc_r cc)))"
    "rl_consumers (cc_r cc') = rl_consumers (cc_r cc) @ [(n, isVersionRes v)]"
proof -
  obtain r where r: "Relay_Subscribe True n (isVersionRes v) (cc_r cc) = (r, OK ms)" "cc' = cc\<lparr>cc_r := r\<rparr>"
    using assms(2) by (auto simp: conn_NewUpdateResRecv_def split: prod.splits res.splits)
  note S = Relay_Subscribe_OK [OF r(1)] Relay_Subscribe_open [OF r(1)]
  show "conn_ok vers c i cc'"
    using assms(1,3) S unfolding conn_ok_def r(2) by auto
  show "\<not> rl_closed (cc_r cc)" "\<not> rl_closed (cc_r cc')" "ms = filter (isVersionRes v) (ca_msgs (rl_cache (cc_r cc)))"
    "ca_msgs (rl_cache (cc_r cc')) = filter (\<lambda>e. \<not> isVersionRes v e) (ca_msgs (rl_cache (cc_r cc)))"
    "rl_consumers (cc_r cc') = rl_consumers (cc_r cc) @ [(n, isVersionRes v)]"
    using S r(2) by simp_all
qed

lemma calls_open:
  assumes "Relay_Put ctxs e r = (r', ds)" "\<not> rl_closed r"
  shows "calls ds = map (\<lambda>(c, _). (c, [e])) (filter (\<lambda>(_, p). p e) (rl_consumers r))"
  using Relay_Put_open(1) [OF assms] by (simp add: calls_def case_prod_beta comp_def)

lemma wf_Arrive:
  assumes "msg_wf y" "Relay_Put (ms_done y) e (ms_relay y) = (r, ds)"
  shows "msg_wf (y\<lparr>ms_relay := r, ms_pending := ms_pending y @ calls ds\<rparr>)"
proof -
  note D = msg_wfD [OF assms(1)] and R = relay_okD [OF msg_wfD(1) [OF assms(1)]]
  note P = Relay_Put_open [OF assms(2) R(1)]
  have "relay_ok (y\<lparr>ms_relay := r\<rparr>)"
    using D(1) P(3) P(5) P(6) unfolding relay_ok_def by (auto simp: P(2))
  then have wf: "msg_wf (y\<lparr>ms_relay := r\<rparr>)"
    by (intro wf_relay_same [OF assms(1)]) (use D(5) P(2) in simp_all)
  have sub: "n < ms_next y \<and> allowed y n e" if "(n, p) \<in> set (rl_consumers (ms_relay y))" "p e" for n p
    using R(3,4,8) [OF that(1)] that(2) by (auto simp: allowed_def)
  then have "pending_ok (y\<lparr>ms_relay := r\<rparr>) (ms_pending y @ calls ds)"
    using D(9) by (auto simp: pending_ok_def calls_open [OF assms(2) R(1)])
  from wf_pending [OF wf this] show ?thesis
    by simp
qed

lemma wf_Call:
  assumes "msg_wf y" "ms_pending y = ps @ (c, e # es) # qs"
  shows "msg_wf (consumer_Put c e (y\<lparr>ms_pending := ps @ (c, es) # qs\<rparr>))"
proof -
  note D = msg_wfD [OF assms(1)]
  have wf: "msg_wf (y\<lparr>ms_pending := ps @ (c, es) # qs\<rparr>)"
    using assms(1) by (rule wf_pending) (use D(9) assms(2) in simp)
  have e: "c < ms_next y" "allowed y c e"
    using D(9) assms(2) by simp_all
  show ?thesis
  proof (cases "ms_chans y c")
    case None
    then show ?thesis
      using wf e D(11,12) unfolding consumer_Put_def msg_wf_def relay_ok_def by auto
  next
    case (Some z)
    then obtain i cc where z: "ms_chans y c = Some (i, cc)" by (cases z) auto
    obtain r ds where put: "Relay_Put (ms_done y) e (cc_r cc) = (r, ds)" by force
    have i: "isChannelRes i e"
      using e(2) z by (auto simp: allowed_def conn_ID_def)
    have "rl_closed (cc_r cc) \<Longrightarrow> rl_closed r"
      using put by (auto simp: Relay_Put_closed)
    then have wf': "msg_wf (y\<lparr>ms_pending := ps @ (c, es) # qs, ms_chans := (ms_chans y)(c \<mapsto> (i, cc\<lparr>cc_r := r\<rparr>))\<rparr>)"
      using wf_conn [OF wf, of c i cc "cc\<lparr>cc_r := r\<rparr>"] z conn_ok_Put [OF D(4) [OF z] put i D(2)] by simp
    have "pending_ok y (calls ds)"
    proof (cases "rl_closed (cc_r cc)")
      case True
      then show ?thesis
        using put by (auto simp: Relay_Put_closed calls_def)
    next
      case False
      show ?thesis
        using D(4) [OF z] D(6,7) z i unfolding conn_ok_def pending_ok_def calls_open [OF put False]
        by (fastforce simp: allowed_def conn_ID_def)
    qed
    then have "pending_ok y (ps @ (c, es) # qs @ calls ds)"
      using D(9) assms(2) by simp
    moreover have "pending_ok (y\<lparr>ms_pending := ps @ (c, es) # qs, ms_chans := (ms_chans y)(c \<mapsto> (i, cc\<lparr>cc_r := r\<rparr>))\<rparr>) = pending_ok y"
      using same_conn(2) [of "y\<lparr>ms_pending := ps @ (c, es) # qs\<rparr>" c i cc] z by (simp add: pending_ok_def fun_eq_iff)
    ultimately have "pending_ok (y\<lparr>ms_pending := ps @ (c, es) # qs, ms_chans := (ms_chans y)(c \<mapsto> (i, cc\<lparr>cc_r := r\<rparr>))\<rparr>)
        (ps @ (c, es) # qs @ calls ds)"
      by simp
    from wf_pending [OF wf' this] show ?thesis
      by (simp add: consumer_Put_def z put)
  qed
qed

lemma wf_Connect:
  assumes "msg_wf y" "newChannelConn (ms_next y) i peers idx (ms_relay y) = (r, OK (cc, ms))"
  shows "msg_wf (y\<lparr>ms_relay := r, ms_chans := (ms_chans y)(ms_next y \<mapsto> (i, cc)), ms_next := Suc (ms_next y),
       ms_pending := ms_pending y @ [(ms_next y, ms)]\<rparr>)"
proof -
  note D = msg_wfD [OF assms(1)] and R = relay_okD [OF msg_wfD(1) [OF assms(1)]]
    and F = msg_wf_fresh [OF assms(1), of "ms_next y", simplified]
  note new = newChannelConn_OK [OF assms(2)]
  note S = Relay_Subscribe_OK [OF new(1)] Relay_Subscribe_open [OF new(1)]
  let ?y = "y\<lparr>ms_relay := r, ms_chans := (ms_chans y)(ms_next y \<mapsto> (i, cc)), ms_next := Suc (ms_next y)\<rparr>"
  have "relay_ok ?y"
    using D(1) S(4,6) F(2) unfolding relay_ok_def by (auto simp: S(3,7) less_Suc_eq)
  then have wf: "msg_wf ?y"
    by (intro wf_new_conn [OF assms(1)]) (use NewRelay_conn_ok S(3) in \<open>simp_all add: new(2)\<close>)
  have "pending_ok ?y (ms_pending y @ [(ms_next y, ms)])"
    using msg_wfD(9) [OF wf] F(2) by (auto simp: S(1) allowed_def)
  from wf_pending [OF wf this] show ?thesis
    by simp
qed

lemma wf_Await:
  assumes "msg_wf y" "ms_chans y c = Some (i, cc)" "conn_NewUpdateResRecv (ms_next y) v cc = (cc', OK (rv, ms))"
  shows "msg_wf (y\<lparr>ms_vers := (ms_vers y)(ms_next y \<mapsto> (c, v)), ms_next := Suc (ms_next y),
       ms_chans := (ms_chans y)(c \<mapsto> (i, cc')), ms_pending := ms_pending y @ [(ms_next y, ms)]\<rparr>)"
proof -
  note D = msg_wfD [OF assms(1)] and F = msg_wf_fresh [OF assms(1), of "ms_next y", simplified]
  let ?y = "y\<lparr>ms_vers := (ms_vers y)(ms_next y \<mapsto> (c, v)), ms_next := Suc (ms_next y)\<rparr>"
  have wf: "msg_wf ?y"
    using assms(1,2) by (rule wf_recv)
  have c: "ms_chans ?y c = Some (i, cc)"
    using assms(2) by simp
  note K = conn_ok_recv [OF msg_wfD(4) [OF wf c] assms(3)]
  have wf': "msg_wf (?y\<lparr>ms_chans := (ms_chans ?y)(c \<mapsto> (i, cc'))\<rparr>)"
    using wf_conn [OF wf c] K by simp
  have "\<forall>e \<in> set ms. isChannelRes i e"
    using K(4) D(4) [OF assms(2)] by (auto simp: conn_ok_def)
  then have "pending_ok (?y\<lparr>ms_chans := (ms_chans ?y)(c \<mapsto> (i, cc'))\<rparr>) (ms_pending y @ [(ms_next y, ms)])"
    using msg_wfD(9) [OF wf'] F(1) K(4) by (auto simp: allowed_def conn_ID_def)
  from wf_pending [OF wf' this] show ?thesis
    by simp
qed

lemma wf_Subscribe:
  assumes "msg_wf y" "ignores_responses p" "Relay_Subscribe True (ms_next y) p (ms_relay y) = (r, OK ms)"
  shows "msg_wf (y\<lparr>ms_relay := r, ms_pending := ms_pending y @ [(ms_next y, ms)], ms_next := Suc (ms_next y)\<rparr>)"
proof -
  note D = msg_wfD [OF assms(1)] and F = msg_wf_fresh [OF assms(1), of "ms_next y", simplified]
  note S = Relay_Subscribe_OK [OF assms(3)] Relay_Subscribe_open [OF assms(3)]
  let ?y = "y\<lparr>ms_relay := r, ms_pending := ms_pending y @ [(ms_next y, ms)], ms_next := Suc (ms_next y)\<rparr>"
  have "relay_ok ?y"
    using D(1) S(4,6) F(1,2) assms(2) unfolding relay_ok_def by (auto simp: S(3,7) less_Suc_eq conn_ID_def)
  moreover have "allowed y (ms_next y) e" for e
    using F(1,2) by (simp add: allowed_def conn_ID_def)
  ultimately show ?thesis
    using D S(3) unfolding msg_wf_def pending_ok_def by (auto simp: less_Suc_eq)
qed

lemma wf_Unsubscribe:
  assumes "msg_wf y" "\<forall>i cc. ms_chans y n = Some (i, cc) \<longrightarrow> rl_closed (cc_r cc)" "Relay_delete n (ms_relay y) = (r, OK ())"
  shows "msg_wf (y\<lparr>ms_relay := r\<rparr>)"
proof (rule wf_relay_same [OF assms(1)])
  note D = msg_wfD [OF assms(1)] and R = relay_okD [OF msg_wfD(1) [OF assms(1)]]
  note P = Relay_delete_open [OF assms(3) R(1,2)]
  show "relay_ok (y\<lparr>ms_relay := r\<rparr>)"
    using D(1) P(3,4) unfolding relay_ok_def by (auto simp: P(2,5))
  show "c \<in> fst ` set (rl_consumers r)" if "ms_chans y c = Some (i, cc)" "\<not> rl_closed (cc_r cc)" for c i cc
    using D(5) [OF that] assms(2) that unfolding P(2) by force
qed

lemma msg_wf_step:
  assumes "msg_step y y'" "msg_wf y"
  shows "msg_wf y'"
  using assms
proof cases
  case (Arrive e r ds)
  then show ?thesis
    using wf_Arrive [OF assms(2)] by simp
next
  case (OpenChannel ctx)
  note D = msg_wfD [OF assms(2)]
  have r: "enableVer0Cache ctx (ms_relay y) = (ms_relay y)\<lparr>rl_cache := Cache_Cache ctx isVer0Acc (rl_cache (ms_relay y))\<rparr>"
    using relay_okD(1) [OF D(1)] by (simp add: enableVer0Cache_def Relay_Cache_def)
  have "relay_ok (y\<lparr>ms_relay := enableVer0Cache ctx (ms_relay y), ms_ver0 := ctx # ms_ver0 y\<rparr>)"
    using D(1) unfolding relay_ok_def r by (auto simp: Cache_Cache_def)
  then show ?thesis
    unfolding OpenChannel by (rule wf_relay [OF assms(2)]) (use D(5) in \<open>simp add: r\<close>)
next
  case (Expire ctx)
  then show ?thesis
    using assms(2) unfolding msg_wf_def relay_ok_def by auto
next
  case (CloseConn c i cc cc' res)
  then show ?thesis
    using wf_conn [OF assms(2) CloseConn(2) conn_ok_Close [OF msg_wfD(4) [OF assms(2) CloseConn(2)] CloseConn(3)]]
    by (auto simp: channelConn_Close_def Relay_Close_def Let_def split: if_splits)
next
  case (EndAwait c i cc n r)
  then have "rl_closed (cc_r cc) \<Longrightarrow> rl_closed r"
    using Relay_delete_closed by blast
  then show ?thesis
    using wf_conn [OF assms(2) EndAwait(2) conn_ok_delete [OF msg_wfD(4) [OF assms(2) EndAwait(2)] EndAwait(3)]] EndAwait(1) by simp
qed (use wf_Call wf_Connect wf_Await wf_Subscribe wf_Unsubscribe assms(2) in \<open>simp_all\<close>)

lemma msg_wf_reach: "msg_reach y \<Longrightarrow> msg_wf y"
  unfolding msg_reach_def
proof (induction rule: rtranclp_induct)
  case base
  show ?case
    by (auto simp: msg_wf_def relay_ok_def msg_init_def makeClientConn_OK NewRelay_def emptyCache_def ignores_responses_def
        response_predicates(5) conn_ID_def)
qed (rule msg_wf_step)

section \<open>Where the responses are\<close>

text \<open>The messages under way to a consumer.\<close>

primrec flight :: "(nat \<times> Envelope list) list \<Rightarrow> nat \<Rightarrow> Envelope multiset" where
  "flight [] n = {#}"
| "flight (p # ps) n = (if fst p = n then mset (snd p) else {#}) + flight ps n"

lemma flight_append [simp]: "flight (ps @ qs) n = flight ps n + flight qs n"
  by (induction ps) (simp_all add: add.assoc)

lemma flight_absent: "n \<notin> fst ` set ps \<Longrightarrow> flight ps n = {#}"
  by (induction ps) auto

lemma set_flight: "e \<in># flight ps n \<longleftrightarrow> (\<exists>es. (n, es) \<in> set ps \<and> e \<in> set es)"
  by (induction ps) auto

abbreviation only :: "ID \<Rightarrow> u64 \<Rightarrow> Envelope multiset \<Rightarrow> Envelope multiset" where
  "only i v \<equiv> filter_mset (\<lambda>e. isUpdateRes i v (env_Msg e))"

lemma only_calls:
  assumes "\<not> isUpdateRes i v (env_Msg e)" "Relay_Put ctxs e r = (r', ds)"
  shows "only i v (flight (calls ds) n) = {#}"
proof -
  have "calls ds = map (\<lambda>(c, _). (c, [e])) (if rl_closed r then [] else filter (\<lambda>(_, p). p e) (rl_consumers r))"
    using assms(2) calls_open [OF assms(2)] by (auto simp: Relay_Put_closed calls_def)
  then show ?thesis
    using assms(1) by (auto simp: set_flight)
qed

text \<open>Before a connection exists the expected responses are in the client's cache, then on the way to
  the connection or in its cache, and from the subscription of the only receiver of their version on the
  way to the receiver or there.\<close>

definition sole_conn :: "msg_sys \<Rightarrow> ID \<Rightarrow> nat \<Rightarrow> bool" where
  "sole_conn y i c \<longleftrightarrow> (\<forall>d. conn_ID y d = Some i \<longleftrightarrow> d = c)"

definition sole_recv :: "msg_sys \<Rightarrow> nat \<Rightarrow> u64 \<Rightarrow> nat \<Rightarrow> bool" where
  "sole_recv y c v n \<longleftrightarrow> (\<forall>m. ms_vers y m = Some (c, v) \<longleftrightarrow> m = n)"

definition routed :: "ID \<Rightarrow> u64 \<Rightarrow> msg_sys \<Rightarrow> bool" where
  "routed i v y \<longleftrightarrow>
     ((\<forall>c. conn_ID y c \<noteq> Some i) \<longrightarrow> only i v (mset (ms_arrived y)) = only i v (mset (ca_msgs (rl_cache (ms_relay y))))) \<and>
     (\<forall>c cc. ms_chans y c = Some (i, cc) \<longrightarrow> \<not> rl_closed (cc_r cc) \<longrightarrow> sole_conn y i c \<longrightarrow>
       only i v (mset (ca_msgs (rl_cache (ms_relay y)))) = {#} \<and>
       ((\<forall>n. ms_vers y n \<noteq> Some (c, v)) \<longrightarrow>
         only i v (mset (ms_arrived y)) = only i v (flight (ms_pending y) c) + only i v (mset (ca_msgs (rl_cache (cc_r cc))))) \<and>
       (\<forall>n. sole_recv y c v n \<longrightarrow> n \<in> fst ` set (rl_consumers (cc_r cc)) \<longrightarrow>
         only i v (mset (ca_msgs (rl_cache (cc_r cc)))) = {#} \<and>
         only i v (mset (ms_arrived y)) =
           only i v (flight (ms_pending y) c) + only i v (flight (ms_pending y) n) + only i v (mset (ms_inbox y n))))"

lemma distinct_singleton: "distinct xs \<Longrightarrow> set xs = {x} \<Longrightarrow> xs = [x]"
  by (cases xs) (auto simp: subset_singleton_iff)

text \<open>Who gets a response from the client's relay, and from the relay of a connection.\<close>

lemma client_subs:
  assumes "msg_wf y" "isChannelRes i e"
  shows "(\<forall>c. conn_ID y c \<noteq> Some i) \<Longrightarrow> filter (\<lambda>(_, p). p e) (rl_consumers (ms_relay y)) = []"
    and "ms_chans y c = Some (i, cc) \<Longrightarrow> \<not> rl_closed (cc_r cc) \<Longrightarrow> sole_conn y i c \<Longrightarrow>
      filter (\<lambda>(_, p). p e) (rl_consumers (ms_relay y)) = [(c, isChannelRes i)]"
proof -
  note D = msg_wfD [OF assms(1)] and R = relay_okD [OF msg_wfD(1) [OF assms(1)]]
  have sub: "conn_ID y n = Some i \<and> p = isChannelRes i" if n: "(n, p) \<in> set (rl_consumers (ms_relay y))" "p e" for n p
  proof (cases "conn_ID y n")
    case None
    then show ?thesis
      using R(5) [OF n(1)] n(2) response_predicates(2) [OF assms(2)] by (auto simp: ignores_responses_def)
  next
    case (Some j)
    then show ?thesis
      using R(4) [OF n(1) Some] n(2) response_predicates(3) [OF assms(2), of j] by simp
  qed
  then show "(\<forall>c. conn_ID y c \<noteq> Some i) \<Longrightarrow> filter (\<lambda>(_, p). p e) (rl_consumers (ms_relay y)) = []"
    by (auto simp: filter_empty_conv)
  assume c: "ms_chans y c = Some (i, cc)" "\<not> rl_closed (cc_r cc)" "sole_conn y i c"
  obtain p where "(c, p) \<in> set (rl_consumers (ms_relay y))"
    using D(5) [OF c(1,2)] by auto
  then have mem: "(c, isChannelRes i) \<in> set (rl_consumers (ms_relay y))"
    using R(4) conn_ID_Some [OF c(1)] by metis
  have "x \<in> set (filter (\<lambda>(_, p). p e) (rl_consumers (ms_relay y))) \<longleftrightarrow> x = (c, isChannelRes i)" for x
    using sub [of "fst x" "snd x"] c(3) assms(2) mem by (cases x) (auto simp: sole_conn_def)
  then have "set (filter (\<lambda>(_, p). p e) (rl_consumers (ms_relay y))) = {(c, isChannelRes i)}"
    by blast
  moreover have "distinct (filter (\<lambda>(_, p). p e) (rl_consumers (ms_relay y)))"
    using R(2) by (simp add: distinct_map)
  ultimately show "filter (\<lambda>(_, p). p e) (rl_consumers (ms_relay y)) = [(c, isChannelRes i)]"
    by (rule distinct_singleton [rotated])
qed

lemma conn_subs:
  assumes "conn_ok (ms_vers y) c i cc" "isVersionRes v e"
  shows "(\<forall>n. ms_vers y n \<noteq> Some (c, v)) \<Longrightarrow> filter (\<lambda>(_, p). p e) (rl_consumers (cc_r cc)) = []"
    and "sole_recv y c v n \<Longrightarrow> n \<in> fst ` set (rl_consumers (cc_r cc)) \<Longrightarrow>
      filter (\<lambda>(_, p). p e) (rl_consumers (cc_r cc)) = [(n, isVersionRes v)]"
proof -
  have sub: "ms_vers y n = Some (c, v) \<and> p = isVersionRes v" if n: "(n, p) \<in> set (rl_consumers (cc_r cc))" "p e" for n p
  proof -
    obtain w where "ms_vers y n = Some (c, w)" "p = isVersionRes w"
      using assms(1) n(1) unfolding conn_ok_def by blast
    with n(2) response_predicates(4) [OF assms(2), of w] show ?thesis
      by simp
  qed
  then show "(\<forall>n. ms_vers y n \<noteq> Some (c, v)) \<Longrightarrow> filter (\<lambda>(_, p). p e) (rl_consumers (cc_r cc)) = []"
    by (auto simp: filter_empty_conv)
  assume n: "sole_recv y c v n" "n \<in> fst ` set (rl_consumers (cc_r cc))"
  then obtain p where p: "(n, p) \<in> set (rl_consumers (cc_r cc))"
    by auto
  with assms(1) n(1) have "p = isVersionRes v"
    unfolding conn_ok_def sole_recv_def by force
  with p have "x \<in> set (filter (\<lambda>(_, p). p e) (rl_consumers (cc_r cc))) \<longleftrightarrow> x = (n, isVersionRes v)" for x
    using sub [of "fst x" "snd x"] n(1) assms(2) by (cases x) (auto simp: sole_recv_def)
  then have "set (filter (\<lambda>(_, p). p e) (rl_consumers (cc_r cc))) = {(n, isVersionRes v)}"
    by blast
  moreover have "distinct (filter (\<lambda>(_, p). p e) (rl_consumers (cc_r cc)))"
    using assms(1) by (simp add: conn_ok_def distinct_map)
  ultimately show "filter (\<lambda>(_, p). p e) (rl_consumers (cc_r cc)) = [(n, isVersionRes v)]"
    by (rule distinct_singleton [rotated])
qed

lemma routedI:
  assumes "(\<forall>c. conn_ID y c \<noteq> Some i) \<Longrightarrow> only i v (mset (ms_arrived y)) = only i v (mset (ca_msgs (rl_cache (ms_relay y))))"
    and "\<And>c cc. ms_chans y c = Some (i, cc) \<Longrightarrow> \<not> rl_closed (cc_r cc) \<Longrightarrow> sole_conn y i c \<Longrightarrow>
      only i v (mset (ca_msgs (rl_cache (ms_relay y)))) = {#}"
    and "\<And>c cc. ms_chans y c = Some (i, cc) \<Longrightarrow> \<not> rl_closed (cc_r cc) \<Longrightarrow> sole_conn y i c \<Longrightarrow> \<forall>n. ms_vers y n \<noteq> Some (c, v) \<Longrightarrow>
      only i v (mset (ms_arrived y)) = only i v (flight (ms_pending y) c) + only i v (mset (ca_msgs (rl_cache (cc_r cc))))"
    and "\<And>c cc n. ms_chans y c = Some (i, cc) \<Longrightarrow> \<not> rl_closed (cc_r cc) \<Longrightarrow> sole_conn y i c \<Longrightarrow> sole_recv y c v n \<Longrightarrow>
      n \<in> fst ` set (rl_consumers (cc_r cc)) \<Longrightarrow> only i v (mset (ca_msgs (rl_cache (cc_r cc)))) = {#} \<and>
      only i v (mset (ms_arrived y)) =
        only i v (flight (ms_pending y) c) + only i v (flight (ms_pending y) n) + only i v (mset (ms_inbox y n))"
  shows "routed i v y"
  using assms unfolding routed_def by blast

lemma routedD:
  assumes "routed i v y"
  shows "(\<forall>c. conn_ID y c \<noteq> Some i) \<Longrightarrow> only i v (mset (ms_arrived y)) = only i v (mset (ca_msgs (rl_cache (ms_relay y))))"
    and "ms_chans y c = Some (i, cc) \<Longrightarrow> \<not> rl_closed (cc_r cc) \<Longrightarrow> sole_conn y i c \<Longrightarrow>
      only i v (mset (ca_msgs (rl_cache (ms_relay y)))) = {#}"
    and "ms_chans y c = Some (i, cc) \<Longrightarrow> \<not> rl_closed (cc_r cc) \<Longrightarrow> sole_conn y i c \<Longrightarrow> \<forall>n. ms_vers y n \<noteq> Some (c, v) \<Longrightarrow>
      only i v (mset (ms_arrived y)) = only i v (flight (ms_pending y) c) + only i v (mset (ca_msgs (rl_cache (cc_r cc))))"
    and "ms_chans y c = Some (i, cc) \<Longrightarrow> \<not> rl_closed (cc_r cc) \<Longrightarrow> sole_conn y i c \<Longrightarrow> sole_recv y c v n \<Longrightarrow>
      n \<in> fst ` set (rl_consumers (cc_r cc)) \<Longrightarrow> only i v (mset (ca_msgs (rl_cache (cc_r cc)))) = {#} \<and>
      only i v (mset (ms_arrived y)) =
        only i v (flight (ms_pending y) c) + only i v (flight (ms_pending y) n) + only i v (mset (ms_inbox y n))"
  using assms unfolding routed_def by blast+

lemma sole_simps [simp]:
  "sole_conn (y\<lparr>ms_relay := r\<rparr>) = sole_conn y" "sole_conn (y\<lparr>ms_pending := ps\<rparr>) = sole_conn y"
  "sole_conn (y\<lparr>ms_arrived := a\<rparr>) = sole_conn y" "sole_conn (y\<lparr>ms_inbox := b\<rparr>) = sole_conn y"
  "sole_conn (y\<lparr>ms_done := d\<rparr>) = sole_conn y" "sole_conn (y\<lparr>ms_ver0 := l\<rparr>) = sole_conn y" "sole_conn (y\<lparr>ms_next := k\<rparr>) = sole_conn y"
  "sole_recv (y\<lparr>ms_relay := r\<rparr>) = sole_recv y" "sole_recv (y\<lparr>ms_pending := ps\<rparr>) = sole_recv y"
  "sole_recv (y\<lparr>ms_arrived := a\<rparr>) = sole_recv y" "sole_recv (y\<lparr>ms_inbox := b\<rparr>) = sole_recv y"
  "sole_recv (y\<lparr>ms_done := d\<rparr>) = sole_recv y" "sole_recv (y\<lparr>ms_ver0 := l\<rparr>) = sole_recv y" "sole_recv (y\<lparr>ms_next := k\<rparr>) = sole_recv y"
  "sole_recv (y\<lparr>ms_chans := m\<rparr>) = sole_recv y"
  by (simp_all add: sole_conn_def sole_recv_def fun_eq_iff)

lemma expects_conn: "ms_chans y c = Some (i, cc) \<Longrightarrow> \<not> rl_closed (cc_r cc) \<Longrightarrow> isChannelRes i e \<Longrightarrow> expects y e"
  unfolding expects_def by blast

lemma routed_Arrive:
  assumes wf: "msg_wf y" and inv: "routed i v y" and put: "Relay_Put (ms_done y) e (ms_relay y) = (r, ds)"
  shows "routed i v (y\<lparr>ms_relay := r, ms_pending := ms_pending y @ calls ds,
       ms_arrived := ms_arrived y @ (if expects y e then [e] else [])\<rparr>)"
proof (cases "isUpdateRes i v (env_Msg e)")
  case False
  note P = Relay_Put_open [OF put relay_okD(1) [OF msg_wfD(1) [OF wf]]]
  note I = routedD [OF inv]
  show ?thesis
    by (rule routedI) (use I in \<open>simp_all add: P(4) only_calls [OF False put] False\<close>)
next
  case True
  note R = relay_okD [OF msg_wfD(1) [OF wf]]
  note P = Relay_Put_open [OF put R(1)] and I = routedD [OF inv]
  have e: "isChannelRes i e" "isVersionRes v e"
    using True response_predicates(1) by simp_all
  note calls = calls_open [OF put R(1)] and sub = client_subs [OF wf e(1)]
  have live: "(\<exists>(ctx, p) \<in> set (ca_preds (rl_cache (ms_relay y))). \<not> ms_done y ctx \<and> p e) \<longleftrightarrow>
      isVer0Acc e \<and> (\<exists>ctx \<in> set (ms_ver0 y). \<not> ms_done y ctx)"
    using R(6,7) by fastforce
  show ?thesis
  proof (rule routedI, goal_cases)
    case 1
    then have none: "\<forall>c. conn_ID y c \<noteq> Some i"
      by simp
    then have "expects y e \<longleftrightarrow> isVer0Acc e \<and> (\<exists>ctx \<in> set (ms_ver0 y). \<not> ms_done y ctx)"
      using response_predicates(3) [OF e(1)] conn_ID_Some unfolding expects_def by blast
    with I(1) [OF none] sub(1) [OF none] live show ?case
      by (simp add: P(4))
  next
    case (2 c cc)
    with I(2) [of c cc] sub(2) [of c cc] show ?case
      by (simp add: P(4))
  next
    case (3 c cc)
    moreover from 3 have "expects y e"
      using e(1) expects_conn [of y c i cc e] by simp
    ultimately show ?case
      using I(3) [of c cc] sub(2) [of c cc] True by (simp add: calls)
  next
    case (4 c cc n)
    moreover from 4 have "expects y e"
      using e(1) expects_conn [of y c i cc e] by simp
    moreover from 4 have "n \<noteq> c"
      using msg_wfD(7) [OF wf, of n c v] by (auto simp: sole_recv_def)
    ultimately show ?case
      using I(4) [of c cc n] sub(2) [of c cc] True by (simp add: calls)
  qed
qed

lemma routed_Call:
  assumes wf: "msg_wf y" and inv: "routed i v y" and pend: "ms_pending y = ps @ (d, e # es) # qs"
  shows "routed i v (consumer_Put d e (y\<lparr>ms_pending := ps @ (d, es) # qs\<rparr>))"
proof (cases "ms_chans y d")
  case None
  then have y': "consumer_Put d e (y\<lparr>ms_pending := ps @ (d, es) # qs\<rparr>) =
      y\<lparr>ms_pending := ps @ (d, es) # qs, ms_inbox := (ms_inbox y)(d := ms_inbox y d @ [e])\<rparr>"
    by (simp add: consumer_Put_def)
  show ?thesis
    unfolding y' by (rule routedI) (use routedD [OF inv] None pend in \<open>auto simp: fun_upd_def\<close>)
next
  case (Some z)
  then obtain j cd where z: "ms_chans y d = Some (j, cd)"
    by (cases z) auto
  obtain r ds where put: "Relay_Put (ms_done y) e (cc_r cd) = (r, ds)"
    by force
  note D = msg_wfD [OF wf] and I = routedD [OF inv]
  let ?y = "y\<lparr>ms_pending := ps @ (d, es) # qs @ calls ds, ms_chans := (ms_chans y)(d \<mapsto> (j, cd\<lparr>cc_r := r\<rparr>))\<rparr>"
  have y': "consumer_Put d e (y\<lparr>ms_pending := ps @ (d, es) # qs\<rparr>) = ?y"
    by (simp add: consumer_Put_def z put)
  have id: "conn_ID ?y = conn_ID y"
    using z by (simp add: conn_ID_def fun_eq_iff)
  then have sole: "sole_conn ?y = sole_conn y"
    by (simp add: sole_conn_def fun_eq_iff)
  have e: "isChannelRes j e"
    using D(9) pend z by (auto simp: allowed_def conn_ID_def)
  have ok: "conn_ok (ms_vers y) d j cd"
    using D(4) [OF z] .
  have to: "m \<notin> fst ` set (calls ds)" if "\<And>w. ms_vers y m \<noteq> Some (d, w)" for m
  proof (cases "rl_closed (cc_r cd)")
    case True
    then show ?thesis
      using put by (auto simp: Relay_Put_closed calls_def)
  next
    case False
    show ?thesis
      using ok that unfolding calls_open [OF put False] conn_ok_def by fastforce
  qed
  have not_recv: "ms_vers y m \<noteq> Some (c, w)" if "ms_chans y m \<noteq> None" for m c w
    using D(7) [of m c w] that by auto
  have closed: "\<not> rl_closed r \<Longrightarrow> \<not> rl_closed (cc_r cd)"
    using put by (auto simp: Relay_Put_closed)
  note Put = Relay_Put_open [OF put] and calls = calls_open [OF put]
  show ?thesis
    unfolding y'
  proof (rule routedI, unfold id sole, goal_cases)
    case 1
    then show ?case
      using I(1) by simp
  next
    case (2 c cc)
    then show ?case
      using I(2) [of c cd] I(2) [of c cc] z closed by (cases "c = d") auto
  next
    case (3 c cc)
    show ?case
    proof (cases "c = d")
      case True
      with 3 have c: "j = i" "cc = cd\<lparr>cc_r := r\<rparr>" "\<not> rl_closed (cc_r cd)" "\<forall>n. ms_vers y n \<noteq> Some (d, v)" "sole_conn y i d"
        using closed by auto
      have "\<not> isVersionRes v e \<or> filter (\<lambda>(_, p). p e) (rl_consumers (cc_r cd)) = [] \<and>
          (\<exists>(ctx, p) \<in> set (ca_preds (rl_cache (cc_r cd))). \<not> ms_done y ctx \<and> p e)"
        using conn_subs(1) [OF ok, of v e] c(3,4) ok D(2) unfolding conn_ok_def by force
      then show ?thesis
        using I(3) [of d cd] z c True pend flight_absent [OF to [OF not_recv]] Put(4) [OF c(3)] e
        by (auto simp: response_predicates(1))
    next
      case False
      with 3 show ?thesis
        using I(3) [of c cc] pend flight_absent [OF to [OF not_recv], of c] by simp
    qed
  next
    case (4 c cc n)
    then have n: "ms_vers y n = Some (c, v)" "n \<noteq> d"
      using not_recv [of n c v] z by (auto simp: sole_recv_def)
    show ?case
    proof (cases "c = d")
      case True
      with 4 have c: "j = i" "cc = cd\<lparr>cc_r := r\<rparr>" "\<not> rl_closed (cc_r cd)" "sole_recv y d v n" "sole_conn y i d"
        "n \<in> fst ` set (rl_consumers (cc_r cd))"
        using closed Put(2) by auto
      have "\<not> isVersionRes v e \<or> filter (\<lambda>(_, p). p e) (rl_consumers (cc_r cd)) = [(n, isVersionRes v)]"
        using conn_subs(2) [OF ok, of v e n] c(4,6) by blast
      then show ?thesis
        using I(4) [of d cd n] z c True pend n(2) Put(4) [OF c(3)] e only_calls [of i v e, OF _ put]
          flight_absent [OF to [OF not_recv], of d]
        by (auto simp: response_predicates(1) calls [OF c(3)])
    next
      case False
      with 4 show ?thesis
        using I(4) [of c cc n] pend flight_absent [OF to [OF not_recv], of c] flight_absent [OF to, of n] n by simp
    qed
  qed
qed

lemma routed_Connect:
  assumes wf: "msg_wf y" and inv: "routed i v y" and new: "newChannelConn (ms_next y) j peers idx (ms_relay y) = (r, OK (cd, ms))"
  shows "routed i v (y\<lparr>ms_relay := r, ms_chans := (ms_chans y)(ms_next y \<mapsto> (j, cd)), ms_next := Suc (ms_next y),
       ms_pending := ms_pending y @ [(ms_next y, ms)]\<rparr>)"
proof -
  note S = Relay_Subscribe_OK [OF newChannelConn_OK(1) [OF new]] and I = routedD [OF inv]
  note F = msg_wf_fresh [OF wf, of "ms_next y", simplified]
  let ?y = "y\<lparr>ms_relay := r, ms_chans := (ms_chans y)(ms_next y \<mapsto> (j, cd)), ms_next := Suc (ms_next y),
       ms_pending := ms_pending y @ [(ms_next y, ms)]\<rparr>"
  have id: "conn_ID ?y = (conn_ID y)(ms_next y \<mapsto> j)"
    by simp
  have fresh: "flight (ms_pending y) (ms_next y) = {#}" "conn_ID y (ms_next y) = None"
    using F(1,4) flight_absent by auto
  have other: "only i v (mset (ca_msgs (rl_cache r))) = (if j = i then {#} else only i v (mset (ca_msgs (rl_cache (ms_relay y)))))"
    unfolding S(2) by (auto simp: response_predicates(1) filter_filter_mset dest: response_predicates(3) intro!: filter_mset_cong)
  have sole: "j \<noteq> i \<and> sole_conn y i c \<or> j = i \<and> c = ms_next y \<and> (\<forall>d. conn_ID y d \<noteq> Some i)" if "sole_conn ?y i c" for c
  proof -
    have upd: "((conn_ID y)(ms_next y \<mapsto> j)) d = Some i \<longleftrightarrow> d = c" for d
      using that unfolding sole_conn_def id by blast
    show ?thesis
    proof (cases "j = i")
      case True
      then show ?thesis
        using upd [of "ms_next y"] upd fresh(2) by (metis fun_upd_other option.distinct(1) fun_upd_same)
    next
      case False
      have "conn_ID y d = Some i \<longleftrightarrow> d = c" for d
        using upd [of d] False F(1) by (cases "d = ms_next y") (simp_all add: conn_ID_def)
      with False show ?thesis
        unfolding sole_conn_def by blast
    qed
  qed
  have vers: "ms_vers y n \<noteq> Some (ms_next y, w)" for n w
    using F(3) by blast
  have moved: "j = i \<Longrightarrow> only i v (mset ms) = only i v (mset (ca_msgs (rl_cache (ms_relay y))))"
    unfolding S(1) by (auto simp: response_predicates(1) filter_filter_mset intro!: filter_mset_cong)
  have empty: "ca_msgs (rl_cache (cc_r cd)) = []"
    by (simp add: newChannelConn_OK(2) [OF new] Relay_Cache_def Cache_Cache_def NewRelay_def emptyCache_def)
  show ?thesis
  proof (rule routedI, goal_cases)
    case 1
    have none: "j \<noteq> i" "\<forall>c. conn_ID y c \<noteq> Some i"
      using 1 fresh(2) unfolding id by (metis fun_upd_same, metis fun_upd_other option.distinct(1))
    with I(1) [OF none(2)] other show ?case
      by simp
  next
    case (2 c cc)
    then show ?case
      using sole [of c] other I(2) [of c cc] fresh(2) conn_ID_Some by (auto split: if_splits)
  next
    case (3 c cc)
    then show ?case
      using sole [of c] I(1) I(3) [of c cc] fresh moved empty by (auto split: if_splits)
  next
    case (4 c cc n)
    then have n: "sole_recv y c v n" "ms_vers y n = Some (c, v)"
      by (simp_all add: sole_recv_def)
    then have "n \<noteq> ms_next y"
      using F(2) by auto
    with 4 n show ?case
      using sole [of c] I(4) [of c cc n] vers [of n v] by (auto split: if_splits)
  qed
qed

lemma routed_Await:
  assumes wf: "msg_wf y" and inv: "routed i v y" and d: "ms_chans y d = Some (j, cd)"
    and new: "conn_NewUpdateResRecv (ms_next y) w cd = (cd', OK (rv, ms))"
  shows "routed i v (y\<lparr>ms_vers := (ms_vers y)(ms_next y \<mapsto> (d, w)), ms_next := Suc (ms_next y),
       ms_chans := (ms_chans y)(d \<mapsto> (j, cd')), ms_pending := ms_pending y @ [(ms_next y, ms)]\<rparr>)"
proof -
  note D = msg_wfD [OF wf] and I = routedD [OF inv] and F = msg_wf_fresh [OF wf, of "ms_next y", simplified]
  let ?v = "(ms_vers y)(ms_next y \<mapsto> (d, w))"
  let ?y = "y\<lparr>ms_vers := ?v, ms_next := Suc (ms_next y), ms_chans := (ms_chans y)(d \<mapsto> (j, cd')),
       ms_pending := ms_pending y @ [(ms_next y, ms)]\<rparr>"
  have "conn_ok ?v d j cd"
    using msg_wfD(4) [OF wf_recv [OF wf d]] d by simp
  note K = conn_ok_recv [OF this new, simplified]
  have id: "conn_ID ?y = conn_ID y"
    using d by (simp add: conn_ID_def fun_eq_iff)
  then have sole: "sole_conn ?y = sole_conn y"
    by (simp add: sole_conn_def fun_eq_iff)
  have fresh: "flight (ms_pending y) (ms_next y) = {#}" "ms_inbox y (ms_next y) = []" "d \<noteq> ms_next y"
    using F(1,4,5) d flight_absent by auto
  have cache: "w \<noteq> v \<Longrightarrow> only i v (mset (ca_msgs (rl_cache (cc_r cd')))) = only i v (mset (ca_msgs (rl_cache (cc_r cd))))"
    "only i w (mset (ca_msgs (rl_cache (cc_r cd')))) = {#}"
    unfolding K(5) by (auto simp: response_predicates(1) filter_filter_mset dest: response_predicates(4) intro!: filter_mset_cong)
  have split: "only i v (mset (ca_msgs (rl_cache (cc_r cd)))) = only i v (mset ms) + only i v (mset (ca_msgs (rl_cache (cc_r cd'))))"
    unfolding K(4,5) mset_filter filter_union_mset [symmetric] by (simp flip: multiset_partition)
  show ?thesis
  proof (rule routedI, unfold id sole, goal_cases)
    case 1
    then show ?case
      using I(1) by simp
  next
    case (2 c cc)
    then show ?case
      using I(2) [of c cd] I(2) [of c cc] d K(2) by (cases "c = d") auto
  next
    case (3 c cc)
    have none: "?v n \<noteq> Some (c, v)" for n
      using 3(4) by simp
    then have "ms_vers y n \<noteq> Some (c, v)" for n
      using F(2) none [of n] by (cases "n = ms_next y") simp_all
    moreover have "c \<noteq> ms_next y" "c = d \<Longrightarrow> w \<noteq> v"
      using 3(1) F(1) fresh(3) none [of "ms_next y"] by (auto split: if_splits)
    ultimately show ?case
      using 3(1-3) I(3) [of c cd] I(3) [of c cc] d K(2) cache(1) by (cases "c = d") auto
  next
    case (4 c cc n)
    have upd: "?v m = Some (c, v) \<longleftrightarrow> m = n" for m
      using 4 by (simp add: sole_recv_def)
    have c: "c \<noteq> ms_next y"
      using 4 F(1) fresh(3) by (auto split: if_splits)
    show ?case
    proof (cases "d = c \<and> w = v")
      case True
      then have n: "n = ms_next y"
        using upd [of "ms_next y"] by simp
      moreover have "ms_vers y m \<noteq> Some (c, v)" for m
        using upd [of m] F(2) n by (cases "m = ms_next y") auto
      ultimately show ?thesis
        using 4 True I(3) [of c cd] d K(2) cache(2) split fresh c by auto
    next
      case False
      then have n: "n \<noteq> ms_next y"
        using upd [of "ms_next y"] by auto
      then have "ms_vers y m = Some (c, v) \<longleftrightarrow> m = n" for m
        using upd [of m] F(2) by (cases "m = ms_next y") auto
      then have "sole_recv y c v n"
        by (simp add: sole_recv_def)
      moreover have "w \<noteq> v" if "c = d"
        using False that by blast
      ultimately show ?thesis
        using 4 n I(4) [of c cd n] I(4) [of c cc n] d K(2,6) cache(1) c by (cases "c = d") auto
    qed
  qed
qed

lemma same_sole:
  assumes "ms_chans y c = Some (i, cc)"
  shows "conn_ID (y\<lparr>ms_chans := (ms_chans y)(c \<mapsto> (i, cc'))\<rparr>) = conn_ID y"
    and "sole_conn (y\<lparr>ms_chans := (ms_chans y)(c \<mapsto> (i, cc'))\<rparr>) = sole_conn y"
  using same_conn(1) [OF assms, of cc'] by (simp_all add: sole_conn_def fun_eq_iff)

lemma routed_conn:
  assumes inv: "routed i v y" and d: "ms_chans y d = Some (j, cd)"
    and cd': "\<not> rl_closed (cc_r cd') \<Longrightarrow> \<not> rl_closed (cc_r cd) \<and> rl_cache (cc_r cd') = rl_cache (cc_r cd) \<and>
      fst ` set (rl_consumers (cc_r cd')) \<subseteq> fst ` set (rl_consumers (cc_r cd))"
  shows "routed i v (y\<lparr>ms_chans := (ms_chans y)(d \<mapsto> (j, cd'))\<rparr>)"
proof (rule routedI, unfold same_sole [OF d], goal_cases)
  case 1
  then show ?case
    using routedD(1) [OF inv] by simp
next
  case (2 c cc)
  then show ?case
    using routedD(2) [OF inv, of c cd] routedD(2) [OF inv, of c cc] cd' d by (cases "c = d") auto
next
  case (3 c cc)
  then show ?case
    using routedD(3) [OF inv, of c cd] routedD(3) [OF inv, of c cc] cd' d by (cases "c = d") auto
next
  case (4 c cc n)
  then show ?case
    using routedD(4) [OF inv, of c cd n] routedD(4) [OF inv, of c cc n] cd' d by (cases "c = d") auto
qed

lemma routed_step:
  assumes "msg_step y y'" "msg_wf y" "routed i v y"
  shows "routed i v y'"
  using assms
proof cases
  case (OpenChannel ctx)
  have "ca_msgs (rl_cache (enableVer0Cache ctx (ms_relay y))) = ca_msgs (rl_cache (ms_relay y))"
    by (simp add: enableVer0Cache_def Relay_Cache_def Cache_Cache_def)
  then show ?thesis
    unfolding OpenChannel by (intro routedI) (use routedD [OF assms(3)] in simp_all)
next
  case (Expire ctx)
  then show ?thesis
    unfolding Expire(1) by (intro routedI) (use routedD [OF assms(3)] in simp_all)
next
  case (Subscribe p r cached)
  note S = Relay_Subscribe_OK [OF Subscribe(3)]
  have "only i v (mset (ca_msgs (rl_cache r))) = only i v (mset (ca_msgs (rl_cache (ms_relay y))))"
    unfolding S(2) using Subscribe(2) by (auto simp: response_predicates(1) filter_filter_mset ignores_responses_def
        dest: response_predicates(2) intro!: filter_mset_cong)
  moreover have "e \<in> set cached \<Longrightarrow> \<not> isUpdateRes i v (env_Msg e)" for e
    using Subscribe(2) response_predicates(1,2) unfolding S(1) ignores_responses_def by auto
  ultimately show ?thesis
    unfolding Subscribe(1) by (intro routedI) (use routedD [OF assms(3)] in simp_all)
next
  case (CloseConn d j cd cd' res)
  have "rl_closed (cc_r cd')"
    using CloseConn(3) by (auto simp: channelConn_Close_def Relay_Close_def Let_def split: if_splits)
  then show ?thesis
    unfolding CloseConn(1) by (intro routed_conn [OF assms(3) CloseConn(2)]) blast
next
  case (Unsubscribe n r)
  have "rl_cache r = rl_cache (ms_relay y)"
    using Relay_delete_open(5) [OF Unsubscribe(3)] relay_okD(1,2) [OF msg_wfD(1) [OF assms(2)]] by blast
  then show ?thesis
    unfolding Unsubscribe(1) by (intro routedI) (use routedD [OF assms(3)] in simp_all)
next
  case (EndAwait d j cd n r)
  have "\<not> rl_closed (cc_r cd) \<and> rl_cache r = rl_cache (cc_r cd) \<and> fst ` set (rl_consumers r) \<subseteq> fst ` set (rl_consumers (cc_r cd))"
    if "\<not> rl_closed r"
    using that Relay_delete_closed [OF EndAwait(3)] Relay_delete_open(2,5) [OF EndAwait(3)] msg_wfD(4) [OF assms(2) EndAwait(2)]
    unfolding conn_ok_def by auto
  then show ?thesis
    unfolding EndAwait(1) by (intro routed_conn [OF assms(3) EndAwait(2)]) simp
qed (use routed_Arrive routed_Call routed_Connect routed_Await assms(2,3) in simp_all)

lemma routed_reach: "msg_reach y \<Longrightarrow> routed i v y"
  unfolding msg_reach_def
proof (induction rule: rtranclp_induct)
  case base
  show ?case
    by (simp add: routed_def msg_init_def makeClientConn_OK NewRelay_def emptyCache_def)
next
  case (step y z)
  then show ?case
    using routed_step msg_wf_reach unfolding msg_reach_def by blast
qed

text \<open>When no call of \<open>Put\<close> is under way, the receiver of a version has been given exactly the expected
  responses of its channel and version, each once.\<close>

lemma responses_routed:
  assumes "msg_reach y" "ms_chans y c = Some (i, cc)" "\<not> rl_closed (cc_r cc)" "sole_conn y i c"
    and "sole_recv y c v n" "n \<in> fst ` set (rl_consumers (cc_r cc))" "\<forall>(m, es) \<in> set (ms_pending y). es = []"
  shows "mset (ms_inbox y n) = mset (filter (\<lambda>e. isUpdateRes i v (env_Msg e)) (ms_arrived y))"
proof -
  have "flight (ms_pending y) m = {#}" for m
    using assms(7) by (induction "ms_pending y" rule: list.induct) (auto simp: set_flight multiset_eq_iff count_eq_zero_iff)
  then have eq: "only i v (mset (ms_arrived y)) = only i v (mset (ms_inbox y n))"
    using routedD(4) [OF routed_reach [OF assms(1)] assms(2-6)] by simp
  have "allowed y n e" if "e \<in> set (ms_inbox y n)" for e
    using msg_wfD(12) [OF msg_wf_reach [OF assms(1)] that] .
  moreover have "ms_vers y n = Some (c, v)"
    using assms(5) by (simp add: sole_recv_def)
  ultimately have "isUpdateRes i v (env_Msg e)" if "e \<in> set (ms_inbox y n)" for e
    using that conn_ID_Some [OF assms(2)] unfolding allowed_def response_predicates(1) by blast
  then have "filter (\<lambda>e. isUpdateRes i v (env_Msg e)) (ms_inbox y n) = ms_inbox y n"
    by (simp add: filter_id_conv)
  then show ?thesis
    using eq by (metis mset_filter)
qed

text \<open>A signature on the initial state that arrives before the channel exists on this side reaches the
  receiver: the client's cache and the cache of the connection keep it.\<close>

lemma early_signature:
  assumes "isVer0Acc e" "isChannelRes i e"
  obtains y cc where "msg_reach y" "ms_chans y 1 = Some (i, cc)" "\<not> rl_closed (cc_r cc)" "sole_conn y i 1" "sole_recv y 1 0 2"
    "2 \<in> fst ` set (rl_consumers (cc_r cc))" "\<forall>(m, es) \<in> set (ms_pending y). es = []" "ms_arrived y = [e]"
proof -
  have e: "isVersionRes 0 e" "\<not> isReqMsg (env_Msg e)"
    using assms by (auto simp: isVer0Acc_def isVersionRes_def isReqMsg_def split: Msg.splits)
  note ops = Relay_Put_def Cache_Put_def Relay_Subscribe_def Cache_Get_def Relay_Cache_def Cache_Cache_def NewRelay_def emptyCache_def Let_def
  define r0 where "r0 = NewRelay\<lparr>rl_consumers := [(0, \<lambda>e. isReqMsg (env_Msg e))]\<rparr>"
  define r1 where "r1 = enableVer0Cache 1 r0"
  define r2 where "r2 = r1\<lparr>rl_cache := \<lparr>ca_msgs = [e], ca_preds = [(1, isVer0Acc)]\<rparr>\<rparr>"
  define r3 where "r3 = r2\<lparr>rl_consumers := [(0, \<lambda>e. isReqMsg (env_Msg e)), (1, isChannelRes i)], rl_cache := \<lparr>ca_msgs = [], ca_preds = [(1, isVer0Acc)]\<rparr>\<rparr>"
  define c3 where "c3 = \<lparr>cc_r = Relay_Cache 0 (\<lambda>_. True) NewRelay, cc_peers = [], cc_idx = 0\<rparr>"
  define c4 where "c4 = c3\<lparr>cc_r := NewRelay\<lparr>rl_cache := \<lparr>ca_msgs = [e], ca_preds = [(0, \<lambda>_. True)]\<rparr>\<rparr>\<rparr>"
  define c5 where "c5 = c4\<lparr>cc_r := NewRelay\<lparr>rl_consumers := [(2, isVersionRes 0)], rl_cache := \<lparr>ca_msgs = [], ca_preds = [(0, \<lambda>_. True)]\<rparr>\<rparr>\<rparr>"
  define y1 where "y1 = msg_init\<lparr>ms_relay := r1, ms_ver0 := [1]\<rparr>"
  define y2 where "y2 = y1\<lparr>ms_relay := r2, ms_arrived := [e]\<rparr>"
  define y3 where "y3 = y2\<lparr>ms_relay := r3, ms_chans := [1 \<mapsto> (i, c3)], ms_next := 2, ms_pending := [(1, [e])]\<rparr>"
  define y4 where "y4 = y3\<lparr>ms_chans := [1 \<mapsto> (i, c4)], ms_pending := [(1, [])]\<rparr>"
  define y5 where "y5 = y4\<lparr>ms_vers := [2 \<mapsto> (1, 0)], ms_next := 3, ms_chans := [1 \<mapsto> (i, c5)], ms_pending := [(1, []), (2, [e])]\<rparr>"
  define y6 where "y6 = y5\<lparr>ms_pending := [(1, []), (2, [])], ms_inbox := (\<lambda>_. [])(2 := [e])\<rparr>"
  note init = msg_init_def makeClientConn_OK r0_def [symmetric]
  have "msg_step msg_init y1"
    using msg_step.OpenChannel [of msg_init 1] by (simp add: y1_def init r1_def)
  moreover have "msg_step y1 y2"
    using msg_step.Arrive [of y1 e r2 "[]"] assms e(2)
    by (simp add: y1_def y2_def init ops r2_def r1_def r0_def enableVer0Cache_def expects_def calls_def)
  moreover have "msg_step y2 y3"
    using msg_step.Connect [of y2 i "[]" 0 r3 c3 "[e]"] assms(2)
    by (simp add: y1_def y2_def y3_def init newChannelConn_def c3_def r3_def r2_def r1_def r0_def enableVer0Cache_def ops numeral_2_eq_2)
  moreover have "msg_step y3 y4"
    using msg_step.Call [of y3 "[]" 1 e "[]" "[]"]
    by (simp add: y1_def y2_def y3_def y4_def c3_def c4_def consumer_Put_def calls_def ops init)
  moreover have "msg_step y4 y5"
    using msg_step.Await [of y4 1 i c4 0 c5 _ "[e]"] e(1)
    by (simp add: y1_def y2_def y3_def y4_def y5_def c4_def c5_def conn_NewUpdateResRecv_def ops init eval_nat_numeral)
  moreover have "msg_step y5 y6"
    using msg_step.Call [of y5 "[(1, [])]" 2 e "[]" "[]"]
    by (simp add: y1_def y2_def y3_def y4_def y5_def y6_def consumer_Put_def init)
  ultimately have "msg_reach y6"
    unfolding msg_reach_def by (meson converse_rtranclp_into_rtranclp rtranclp.rtrancl_refl)
  moreover have "ms_chans y6 = [1 \<mapsto> (i, c5)]" "ms_vers y6 = [2 \<mapsto> (1, 0)]" "ms_pending y6 = [(1, []), (2, [])]" "ms_arrived y6 = [e]"
    by (simp_all add: y2_def y3_def y4_def y5_def y6_def y1_def init)
  ultimately show thesis
    by (intro that [of y6 c5]) (simp_all add: c5_def sole_conn_def sole_recv_def conn_ID_def NewRelay_def)
qed

section \<open>Overlapping calls of \<open>Put\<close>\<close>

text \<open>\<open>Relay.Put\<close> holds only the read lock when it puts a message into the cache, so that calls overlap:
  the goroutine that brings the cached messages to the relay of a connection and the goroutine of the bus
  do.  A thread reads the messages of the cache and then writes them back with its own.\<close>

datatype put_pc = PutCalled | PutRead "Envelope list" | PutReturned

record put_sys =
  pu_msgs :: "Envelope list"
  pu_pc :: "nat \<Rightarrow> put_pc"

inductive put_step :: "(nat \<Rightarrow> Envelope) \<Rightarrow> put_sys \<Rightarrow> put_sys \<Rightarrow> bool" for E where
  Read: "pu_pc y t = PutCalled \<Longrightarrow> put_step E y (y\<lparr>pu_pc := (pu_pc y)(t := PutRead (pu_msgs y))\<rparr>)"
| Write: "pu_pc y t = PutRead ms \<Longrightarrow> put_step E y (y\<lparr>pu_msgs := ms @ [E t], pu_pc := (pu_pc y)(t := PutReturned)\<rparr>)"

lemma overlapping_puts_lose_message:
  "\<exists>y. (put_step E)\<^sup>*\<^sup>* \<lparr>pu_msgs = [], pu_pc = (\<lambda>_. PutCalled)\<rparr> y \<and> pu_pc y 0 = PutReturned \<and> pu_pc y 1 = PutReturned \<and> pu_msgs y = [E 1]"
proof -
  define y1 where "y1 = \<lparr>pu_msgs = [], pu_pc = (\<lambda>_. PutCalled)(0 := PutRead [])\<rparr>"
  define y2 where "y2 = \<lparr>pu_msgs = [], pu_pc = (\<lambda>_. PutCalled)(0 := PutRead [], 1 := PutRead [])\<rparr>"
  define y3 where "y3 = \<lparr>pu_msgs = [E 0], pu_pc = (\<lambda>_. PutCalled)(0 := PutReturned, 1 := PutRead [])\<rparr>"
  define y4 where "y4 = \<lparr>pu_msgs = [E 1], pu_pc = (\<lambda>_. PutCalled)(0 := PutReturned, 1 := PutReturned)\<rparr>"
  have "put_step E \<lparr>pu_msgs = [], pu_pc = (\<lambda>_. PutCalled)\<rparr> y1"
    using put_step.Read [of "\<lparr>pu_msgs = [], pu_pc = (\<lambda>_. PutCalled)\<rparr>" 0 E] by (simp add: y1_def)
  moreover have "put_step E y1 y2"
    using put_step.Read [of y1 1 E] by (simp add: y1_def y2_def)
  moreover have "put_step E y2 y3"
    using put_step.Write [of y2 0 "[]" E] by (simp add: y2_def y3_def fun_upd_twist)
  moreover have "put_step E y3 y4"
    using put_step.Write [of y3 1 "[]" E] by (simp add: y3_def y4_def)
  ultimately have "(put_step E)\<^sup>*\<^sup>* \<lparr>pu_msgs = [], pu_pc = (\<lambda>_. PutCalled)\<rparr> y4"
    by (meson converse_rtranclp_into_rtranclp rtranclp.rtrancl_refl)
  then show ?thesis
    by (intro exI [of _ y4]) (simp add: y4_def)
qed

end
