(* ===== verification/Spec2Isabelle.thy ===== *)
theory Spec2Isabelle
  imports Perun_EthScenario Perun_Network Perun_Cache Perun_LevelDB Perun_Conn
begin

text \<open>
  \<^bold>\<open>go-perun: state channels\<close>

  go-perun lets two or more participants exchange assets off a blockchain.  They agree on a channel
  with fixed parameters, fund it, and then sign successive states, each of which distributes the
  channel's funds; the last state that all have signed can be settled on the blockchain.  This
  library models the core of the program, package by package, and proves what makes it correct.

  \<^bold>\<open>The parts of the program and the theories that model them\<close>

  \<^item> \<open>Perun_Prelude\<close>: bytes, identifiers, phases (\<open>channel/machine.go\<close>), Go errors, the outcome \<open>'a res\<close>
    of a call (\<open>OK\<close>, \<open>Err\<close>, \<open>Panic\<close>), loops over slices, decoders, the contract \<open>serializer\<close> of a
    serialisable type.
  \<^item> \<open>Perun_IO\<close>: \<open>pkg/io\<close> (encoding of integers, booleans, strings, big integers, byte arrays, and
    sequences of values) and \<open>pkg/math/big\<close> (sums).
  \<^item> \<open>Perun_Wallet\<close>: \<open>wallet\<close> (addresses, address keys, signatures, sparse signature lists).  The
    backend is a record of functions; what the package relies on is the locale \<open>wallet_codec\<close>.
  \<^item> \<open>Perun_Allocation\<close>: \<open>channel/allocation.go\<close>.
  \<^item> \<open>Perun_Channel\<close>: \<open>channel/{app, noapp, mock_app, appregistry, state, params, transaction, errors,
    backend}.go\<close> and the resolver of \<open>apps/payment\<close>; the locale \<open>channel_codec\<close>.
  \<^item> \<open>Perun_Machine\<close>: \<open>channel/{machine, statemachine, actionmachine}.go\<close>, \<open>apps/payment/app.go\<close>.  A
    machine is a record; a method is a function that returns the machine after the call.
  \<^item> \<open>Perun_Reach\<close>: the methods of a state machine as labelled steps, the reachable machines
    (\<open>reach\<close>, an inductive predicate) and their invariant; the locale \<open>signing_backend\<close>.
  \<^item> \<open>Perun_Sim\<close>: \<open>backend/sim\<close> (addresses, accounts, signatures, channel identifiers, wallet).  It
    interprets \<open>channel_codec\<close> and \<open>signing_backend\<close>.
  \<^item> \<open>Perun_KV\<close>: \<open>pkg/sortedkv\<close> with the in-memory database, batches, iterators, tables; the locale
    \<open>kv_store\<close>, interpreted by the database and by tables.
  \<^item> \<open>Perun_LevelDB\<close>: \<open>pkg/sortedkv/leveldb\<close>, the store on disk, over goleveldb as a record of functions; under
    the locale \<open>goleveldb\<close> it is a \<open>kv_store\<close> as well.
  \<^item> \<open>Perun_Persist\<close>, \<open>Perun_Restore\<close>: \<open>channel/persistence/keyvalue\<close>, the persister and the restorer,
    and the proof that one reads what the other wrote.
  \<^item> \<open>Perun_PSM\<close>: \<open>channel/persistence/{persistence, statemachine}.go\<close>, the persisting machine.
  \<^item> \<open>Perun_Messages\<close>: \<open>client/{proposalmsgs, proposalopts, updatemsgs, syncmsgs, serialize}.go\<close> and
    \<open>wire/{msg, controlmsgs}.go\<close>, the messages with their checks and encodings, and the registry of
    their decoders.
  \<^item> \<open>Perun_Client\<close>: \<open>client/{client, channel, channelconn, chanregistry, clientconn, update,
    updateinterception}.go\<close>.  A client is a record with a heap of channel controllers; a call is a
    function of the client that returns the changed client and an outcome.
  \<^item> \<open>Perun_Virtual\<close>: \<open>client/{subchannel, virtual_channel, virtual_channel_settlement,
    virtual_channel_util}.go\<close>, and the handler of updates, which these protocols intercept.
  \<^item> \<open>Perun_Opening\<close>: \<open>client/proposal.go\<close>, \<open>channel/funder.go\<close>.
  \<^item> \<open>Perun_Sync\<close>: \<open>client/{sync, restore}.go\<close>.
  \<^item> \<open>Perun_Handle\<close>: the client's dispatcher (\<open>Handle\<close>), creation and closing.
  \<^item> \<open>Perun_Dispute\<close>: \<open>client/adjudicate.go\<close> and the events and requests of \<open>channel/adjudicator.go\<close>;
    \<open>Perun_Settle\<close>: what settling a tree of channels does to each of them and to the database.
  \<^item> \<open>Perun_Protocol\<close>, \<open>Perun_Agreement\<close>, \<open>Perun_Offchain\<close>: two clients together; the locale
    \<open>client_backend\<close>, which extends \<open>channel_codec\<close> and \<open>signing_backend\<close>.
  \<^item> \<open>Perun_Routing\<close>: \<open>wire/{cache, relay, receiver, localbus}.go\<close>, \<open>wire/net/exchange_addr.go\<close> and
    \<open>pkg/sync/closer.go\<close>; a relay together with its goroutines is an inductive step relation.
  \<^item> \<open>Perun_Conn\<close>: \<open>client/{clientconn, channelconn}.go\<close>, the relays of a client and its channels with their
    receivers and goroutines as one transition system, and calls of \<open>Relay.Put\<close> that overlap.
  \<^item> \<open>Perun_Concurrency\<close>: \<open>pkg/sync/{mutex, waitgroup, signal}.go\<close>, \<open>pkg/sync/atomic\<close> and \<open>pkg/errors/gatherer.go\<close>.
  \<^item> \<open>Perun_Network\<close>: \<open>wire/net/{ioconn, endpoint, endpoint_registry, bus}.go\<close> and the lookup table of
    \<open>wire/net/simple/dialer.go\<close>.  The registry is a record with a heap of endpoints, and what happens to it a
    step relation; two nodes that dial each other are a transition system whose steps are the atomic operations
    on their entries.  The locale \<open>address_order\<close> is interpreted by the orders of both backends.
  \<^item> \<open>Perun_Cache\<close>: \<open>channel/persistence/keyvalue/cache.go\<close> and \<open>channel/persistence/nonpersister.go\<close>.
  \<^item> \<open>Perun_EthWallet\<close>: \<open>backend/ethereum/wallet\<close> with the simple, key store and hierarchical wallets.
  \<^item> \<open>Perun_EthBackend\<close>: \<open>backend/ethereum/channel/backend.go\<close>, the conversion to the structures of the
    contracts; it interprets \<open>channel_codec\<close> and \<open>signing_backend\<close> with the Ethereum backend.
  \<^item> \<open>Perun_EthChain\<close>: \<open>backend/ethereum/channel/{contractbackend, deploy, timeout, txtypes, asset}.go\<close>, its errors,
    and \<open>backend/ethereum/subscription\<close>.
  \<^item> \<open>Perun_EthFunder\<close>: \<open>backend/ethereum/channel/{funder, depositor, eth_depositor, erc20_depositor}.go\<close>.
  \<^item> \<open>Perun_EthAdjudicator\<close>: \<open>backend/ethereum/channel/{adjudicator, register, conclude, withdraw}.go\<close>.
  \<^item> \<open>Perun_EthEvents\<close>: \<open>backend/ethereum/channel/subscription.go\<close>; it interprets \<open>client_backend\<close>, so that the
    theorems on clients hold on Ethereum.
  \<^item> \<open>Perun_Examples\<close>, \<open>Perun_Scenario\<close>, \<open>Perun_EthScenario\<close>: concrete data for the witnesses; the second
    interprets \<open>client_backend\<close> with the simulated backend.

  \<^bold>\<open>How code is modelled\<close>

  A struct is a record, an enumeration or an interface with known implementations a datatype, a Go
  map a map or an association list, a \<open>uint16\<close>, \<open>uint64\<close>, \<open>int32\<close> a word.  Balances are Go big integers,
  here \<open>int\<close>.  A method that changes its receiver returns the changed receiver; a method that fails
  before it changes anything returns only the error.  An index out of range, a nil dereference and
  an explicit panic are the outcome \<open>Panic\<close>.  Error values keep their type and the format string of
  their message, not the formatted arguments.  Encoders produce byte lists and decoders consume a
  prefix of a byte list: an encoder that fails has no output in the model, and a failing stream is
  not modelled.  Locks are left out: each method is atomic.

  A protocol of the client is one call: its part of the network, the record \<open>Net\<close>, says for the
  messages sent so far what publishing returns and which messages have arrived; the decisions of the
  user are arguments.  Two clients are put together by delivering to each what the other has sent.
  A pointer to a channel controller is a reference into the client's heap.  Goroutines that a handler
  starts are calls that run after it.

  A loop around a \<open>select\<close> is a function of the list of what it receives: messages, errors, the end of
  the context.  On Ethereum a call may wait for ever; its outcome is then \<open>None\<close> (the type \<open>wcall\<close>).  What
  the node and the contracts answer is an argument.  Where goroutines report to a common collector, the
  order of the reports is an argument as well; for the relay and the gatherer, whose goroutines share
  state, every interleaving is covered by a step relation.

  Three recursions of the client carry a bound, since the code has none.  \<open>reconstructChannel\<close> follows
  the parents of a stored channel: the number of stored channels is enough whenever the chain of
  parents ends, and if it does not, no bound is.  The walks through the tree of sub-channels are
  bounded by the number of registered channels: before anything else the tree is locked, and a
  channel that is met twice cannot be locked.  \<open>Register\<close> goes up to the root, where each parent is
  an older object than its child.  On Ethereum, \<open>toEthSubStates\<close> walks through a tree of channels; the
  height of the tree is a bound on its depth (\<open>toEthSubStates_preorder\<close>).  All other loops are structural
  or have a measure.

  What is not in the repository is a parameter: the wallet and channel backends and the applications
  of users are records of functions (\<open>wallet_backend\<close>, \<open>channel_backend\<close>, \<open>user_app\<close>).  For the
  simulated backend, elliptic curve signatures and SHA-256 of the Go library are a type \<open>ecdsa\<close> of
  schemes in which signatures verify and digests have 32 bytes; for Ethereum, Keccak-256 and secp256k1
  are the type \<open>secp256k1\<close>, ABI encoding and the contracts are records of functions.

  \<^bold>\<open>What the theorems show\<close>

  \<^item> Safety of the machine: reachable machines hold only fully signed transactions; accepted states
    form a history with versions 0, 1, 2 and so on and constant sums; every operation keeps the
    invariant; exact conditions for updates, signatures, enabling and payments; phase changes.
  \<^item> Persistence: the database follows the machine, stored channels are restored, the machine is
    recovered; where the code falls short of this (signatures of a discarded transaction, the entry
    of the parent) the theorems say what happens instead.
  \<^item> Allocations: validity, sums, locked funds, balances.
  \<^item> Encodings: round trips for states, transactions, parameters, signature lists and big integers;
    the encoding that is signed determines the state; what is decoded is well-formed.
  \<^item> Copies, simulated backend and wallet; key-value stores, where the store on disk and the one in memory
    cannot be told apart.
  \<^item> Clients: opening a ledger channel and updating it, from the agreement of the users to the same
    fully signed and stored transaction on both sides; a rejected update changes nothing; a lost
    acceptance is made up for by synchronisation; an outdated registration is refuted with the whole
    tree of channels; settling pays out and removes the whole tree; funding and settling a sub-channel keeps the funds; restoring ends; every message
    survives the wire.  Two theorems say where the code falls short: a hub panics when a proposal to
    fund a virtual channel finds no match, and the funding of a sub-channel is accepted whoever pays.
  \<^item> Routing and helpers: a relay loses no message and repeats none; the receiver of an update gets exactly
    the responses of its channel and version, also those that come early; what the dialer accepts; two
    concurrent errors can make the gatherer panic.  The calls of a relay are single steps here;
    \<open>overlapping_puts_lose_message\<close> shows what two calls of \<open>Put\<close> that overlap can do to its cache.
  \<^item> Network: two nodes that dial each other keep the same connection in every interleaving; there is at most
    one open connection to a peer; a subscriber that closes after the bus panics.
  \<^item> Ethereum: funding returns, and names exactly those who have not paid; a withdrawal is complete when it
    returns; nonces increase; the buffer of a subscription holds the newest event; signatures verify; states
    survive the conversion, but without their application, so that a client which follows a progression
    panics.

  The methods \<open>ForceUpdate\<close> and \<open>SetProgressed\<close> install a state without checks; they are modelled but
  are no steps of \<open>reach\<close>.

  \<^bold>\<open>What is not modelled\<close>

  Interleavings inside one protocol run of the client and the mutexes that order them, contexts and
  timeouts as times (a wait that is not answered returns an error or does not return), and logging.
  Sockets, listeners, goleveldb, the generated contract bindings and go-ethereum are third-party code or calls
  of it: what they answer is an argument.  The helpers for tests are left out.
\<close>

section \<open>Safety of the channel machine\<close>









text \<open>C30. \<open>Update\<close> stages a state exactly when the machine is acting, the actor exists, the state has
  the channel's identifier and application, the current state is not final, the version is the next
  one, the allocation is valid and keeps the sums, and the application accepts the transition.\<close>

theorem update_accepts:
  "Update B m s actor = OK m' \<longleftrightarrow>
     m_phase m = Acting \<and> actor < machine_N m \<and>
     st_ID s = p_id (m_params m) \<and> AppShouldEqual (p_App (m_params m)) (st_App s) = OK () \<and>
     (\<exists>cur. tx_State (m_currentTX m) = Some cur \<and> \<not> st_IsFinal cur \<and> st_Version s = st_Version cur + 1 \<and>
        valid_alloc (st_Alloc s) \<and> Allocation_Sum (st_Alloc cur) = Allocation_Sum (st_Alloc s) \<and>
        app_ValidTransition B (sm_app m) (m_params m) cur s actor = OK ()) \<and>
     m' = m\<lparr>m_phase := Signing, m_stagingTX := newTransaction m (Some s)\<rparr>"
  by (auto simp: Update_OK_iff validTransition_OK_iff machine_validTransition_OK_iff)

text \<open>C31. A signature is added exactly when the machine is in a signing phase, the slot of the
  participant exists and is empty, and the signature verifies for that participant on the staged
  state; nothing but the slot changes.\<close>

theorem add_sig_accepts:
  "AddSig B m idx sig = OK m' \<longleftrightarrow>
     m_phase m \<in> {InitSigning, Signing, Progressing} \<and> unat idx < length (tx_Sigs (m_stagingTX m)) \<and>
     tx_Sigs (m_stagingTX m) ! unat idx = None \<and> unat idx < length (p_Parts (m_params m)) \<and>
     (\<exists>s. tx_State (m_stagingTX m) = Some s \<and>
          cb_Verify B (p_Parts (m_params m) ! unat idx) (m_params m) s sig = OK True) \<and>
     m' = m\<lparr>m_stagingTX := (m_stagingTX m)\<lparr>tx_Sigs := (tx_Sigs (m_stagingTX m))[unat idx := sig]\<rparr>\<rparr>"
  by (auto simp: AddSig_OK_iff signingPhases_def)

text \<open>C32. Enabling a staged transaction needs the expected phase, a staged state that is final
  exactly when the target is the final phase, and all signatures; the staged transaction becomes the
  current one and the old one is kept.\<close>

theorem enable_staged_accepts:
  "enableStaged m tr = OK m' \<longleftrightarrow>
     m_phase m = fst tr \<and> tr \<in> set validPhaseTransitions \<and>
     (\<exists>s. tx_State (m_stagingTX m) = Some s \<and> st_IsFinal s = (snd tr = Final)) \<and>
     None \<notin> set (tx_Sigs (m_stagingTX m)) \<and>
     m' = m\<lparr>m_phase := snd tr, m_prevTXs := m_prevTXs m @ [m_currentTX m],
            m_currentTX := m_stagingTX m, m_stagingTX := zeroTransaction\<rparr>"
  by (rule enableStaged_OK_iff)

text \<open>C34. The payment application accepts a transition between balances of the same shape exactly when
  the actor's balances do not grow and nobody else's shrink.\<close>

theorem payment_transition:
  assumes "same_shape (al_Balances (st_Alloc from)) (al_Balances (st_Alloc to))"
  shows "payment_ValidTransition from to actor = OK u \<longleftrightarrow> st_Data to = NoData \<and>
     (\<forall>i < length (al_Balances (st_Alloc from)). \<forall>j < length (al_Balances (st_Alloc from) ! i).
        let old = al_Balances (st_Alloc from) ! i ! j; new = al_Balances (st_Alloc to) ! i ! j
        in if unat actor = j then new \<le> old else old \<le> new)"
  using assms by (rule payment_ValidTransition_OK_iff)

theorem payment_transition_witness:
  "payment_ValidTransition ex_state ex_state2 0 = OK () \<and> payment_ValidTransition ex_state ex_state2 1 \<noteq> OK ()"
proof -
  have "same_shape (al_Balances (st_Alloc ex_state)) (al_Balances (st_Alloc ex_state2))"
    by (simp add: same_shape_def ex_defs)
  from payment_transition [OF this] show ?thesis
    by (auto simp: ex_defs All_less_Suc)
qed

section \<open>Persistence\<close>



text \<open>C5. A stored channel can be recovered: restoring it from the database and building a machine from
  it gives the machine back, without its past transactions and with the signatures of the staging
  transaction padded by nil.\<close>

theorem persisted_machine_recovered:
  assumes "channel_codec B wf_addr wf_sig wf_asset" "source_ok B wf_addr wf_sig wf_asset (source_of m)"
    and "list_all wf_addr peers" "length peers < 2 ^ 16"
      "case parent of None \<Rightarrow> True | Some j \<Rightarrow> length j = 32"
    and "persisted B d (source_of m) peers parent"
    and "machine_inv B acc p m" "IsStateApp B (p_App p)" "m_idx m = of_int (IndexOfAddr (p_Parts p) acc)"
  shows "bindR (RestoreChannel B d (p_id p)) (\<lambda>c. bindR (pc_source c) (RestoreStateMachine B acc)) =
     OK (m\<lparr>m_prevTXs := [], m_stagingTX :=
       \<lparr>tx_State = tx_State (m_stagingTX m), tx_Sigs = padSigs (length (p_Parts p)) (m_stagingTX m)\<rparr>\<rparr>)"
  using channel_codec.persisted_RestoreChannel [OF assms(1-6)] restore_machine [OF assms(7-9)] assms(7)
  by (simp add: machine_inv_def)

theorem persisted_machine_recovered_witness:
  "\<exists>d. ChannelCreated ex_backend NewDatabase (source_of ex_machine) [ex_bob] None = (d, OK ()) \<and>
     bindR (RestoreChannel ex_backend d Zero) (\<lambda>c. bindR (pc_source c) (RestoreStateMachine ex_backend ex_alice)) =
     OK (ex_machine\<lparr>m_prevTXs := [], m_stagingTX := \<lparr>tx_State = None, tx_Sigs = [None, None]\<rparr>\<rparr>)"
proof -
  obtain d where d: "ChannelCreated ex_backend NewDatabase (source_of ex_machine) [ex_bob] None = (d, OK ())"
    "persisted ex_backend d (source_of ex_machine) [ex_bob] None"
    using ex_created [OF ex_source_ok(1)] by blast
  have inv: "machine_inv ex_backend ex_alice ex_params ex_machine"
    using signing_backend.reach_inv [OF ex_signing_backend ex_reach ex_small] .
  have "IsStateApp ex_backend (p_App ex_params)" "m_idx ex_machine = of_int (IndexOfAddr (p_Parts ex_params) ex_alice)"
    by (simp_all add: ex_machine_def ex_params_def IndexOfAddr_def IsStateApp_def)
  from persisted_machine_recovered [OF ex_codec ex_source_ok(1) _ _ _ d(2) inv this] d(1)
  show ?thesis
    by (simp add: ex_pad) (simp add: ex_params_def ex_machine_def zeroTransaction_def)
qed

text \<open>C6. A channel that is created in the database can be read back: \<open>ChannelCreated\<close> succeeds on a
  database that holds nothing of the channel, leaves the entries of other channels alone, and
  \<open>RestoreChannel\<close> then returns the index, parameters, transactions, phase, peers and parent.\<close>

theorem created_channel_restored:
  assumes "channel_codec B wf_addr wf_sig wf_asset" "source_ok B wf_addr wf_sig wf_asset s"
    and "list_all wf_addr peers" "length peers < 2 ^ 16"
      "case parent of None \<Rightarrow> True | Some j \<Rightarrow> length j = 32"
    and "db_inv d" "\<And>k. prefix (kv_ChannelDB @ p_id (src_Params s)) k \<Longrightarrow> db_map d k = None"
  shows "\<exists>d'. ChannelCreated B d s peers parent = (d', OK ()) \<and>
     RestoreChannel B d' (p_id (src_Params s)) = OK (restored s peers parent) \<and>
     (\<forall>k. prefix kv_ChannelDB k \<and> \<not> prefix (channelDB (p_id (src_Params s))) k \<longrightarrow> db_map d' k = db_map d k)"
proof -
  from channel_codec.ChannelCreated_persisted [OF assms] obtain d' where
    d': "ChannelCreated B d s peers parent = (d', OK ())" "persisted B d' s peers parent"
      "\<forall>k. prefix kv_ChannelDB k \<and> \<not> prefix (channelDB (p_id (src_Params s))) k \<longrightarrow> db_map d' k = db_map d k"
    by blast
  with channel_codec.persisted_RestoreChannel [OF assms(1-5) d'(2)] show ?thesis
    by blast
qed

theorem created_channel_restored_witness:
  "\<exists>d'. ChannelCreated ex_backend NewDatabase (source_of ex_signed) [ex_bob] (Some Zero) = (d', OK ()) \<and>
     RestoreChannel ex_backend d' Zero = OK (restored (source_of ex_signed) [ex_bob] (Some Zero))"
  using created_channel_restored [OF ex_codec ex_source_ok(3), of "[ex_bob]" "Some Zero" NewDatabase]
  by (auto simp: NewDatabase_inv ex_signed_def ex_machine_def ex_params_def)

text \<open>C40. Staging a new state, or discarding the staged one, does not touch the signatures in the
  database: a channel restored afterwards has the new staging state together with the signatures of
  the transaction that was staged before.\<close>

theorem staging_keeps_stored_signatures:
  assumes "channel_codec B wf_addr wf_sig wf_asset" "list_all wf_addr peers" "length peers < 2 ^ 16"
      "case parent of None \<Rightarrow> True | Some j \<Rightarrow> length j = 32"
    and "persisted B (psm_db m) (source_of (psm_machine m)) peers parent"
    and "source_ok B wf_addr wf_sig wf_asset (source_of (psm_machine m))"
      "source_ok B wf_addr wf_sig wf_asset (source_of m')"
    and "exec_op B (psm_machine m) x = OK m'" "staging_op x"
  shows "\<exists>d' c. pm_exec B m x = (\<lparr>psm_machine = m', psm_db = d'\<rparr>, OK ()) \<and>
     RestoreChannel B d' (p_id (m_params m')) = OK c \<and>
     tx_State (pc_StagingTX c) = tx_State (m_stagingTX m') \<and>
     tx_Sigs (pc_StagingTX c) = padSigs (length (p_Parts (m_params m'))) (m_stagingTX (psm_machine m))"
proof -
  let ?s = "(source_of m')\<lparr>src_StagingTX :=
    \<lparr>tx_State = tx_State (m_stagingTX m'), tx_Sigs = tx_Sigs (m_stagingTX (psm_machine m))\<rparr>\<rparr>"
  have "m' = (psm_machine m)\<lparr>m_phase := m_phase m', m_stagingTX := m_stagingTX m'\<rparr>"
    using exec_op_frame(2) [OF assms(8,9)] by blast
  from channel_codec.pm_staged_stale [OF assms(1,5-8) this] obtain d' where
    "pm_exec B m x = (\<lparr>psm_machine = m', psm_db = d'\<rparr>, OK ())" "persisted B d' ?s peers parent"
    "source_ok B wf_addr wf_sig wf_asset ?s"
    unfolding pm_exec_eq(2) [OF assms(9)] by blast
  with channel_codec.persisted_RestoreChannel [OF assms(1) _ assms(2-4), of ?s d'] show ?thesis
    by (auto simp: restored_def padSigs_def)
qed

theorem staging_keeps_stored_signatures_witness:
  "\<exists>d d' c. pm_exec ex_backend \<lparr>psm_machine = ex_signed, psm_db = d\<rparr> OpDiscardUpdate =
       (\<lparr>psm_machine = ex_machine, psm_db = d'\<rparr>, OK ()) \<and>
     RestoreChannel ex_backend d' Zero = OK c \<and> tx_State (pc_StagingTX c) = None \<and>
     tx_Sigs (pc_StagingTX c) = [Some ex_alice, None]"
proof -
  obtain d where d: "persisted ex_backend d (source_of ex_signed) [ex_bob] None"
    using ex_created [OF ex_source_ok(3)] by blast
  have "exec_op ex_backend ex_signed OpDiscardUpdate = OK ex_machine"
    by (simp add: DiscardUpdate_OK_iff ex_signed_def ex_machine_def)
  with staging_keeps_stored_signatures [OF ex_codec, where m = "\<lparr>psm_machine = ex_signed, psm_db = d\<rparr>"
      and m' = ex_machine and peers = "[ex_bob]" and parent = None and x = OpDiscardUpdate]
    d ex_source_ok
  show ?thesis
    by (auto simp: ex_pad zeroTransaction_def ex_machine_def simp del: pm_exec.simps) (auto simp: ex_params_def)
qed

text \<open>Removing a channel deletes its entries except the one of its parent, which stays in the
  database.\<close>

theorem removed_channel_leaves_parent:
  assumes "channel_codec B wf_addr wf_sig wf_asset" "source_ok B wf_addr wf_sig wf_asset s"
    and "list_all wf_addr peers" "length peers < 2 ^ 16"
    and "persisted B d s peers parent"
    and "\<And>a key. a \<in> set peers \<Longrightarrow> peerChannelKey B a (p_id (src_Params s)) = OK key \<Longrightarrow>
      db_map d (kv_PeerDB @ key) \<noteq> None"
  shows "\<exists>d' v. ChannelRemoved B d (p_id (src_Params s)) = (d', OK ()) \<and>
     table_map (channelDB (p_id (src_Params s))) d' = [str ''parent'' \<mapsto> v]"
proof -
  let ?p = "channelDB (p_id (src_Params s))"
  obtain v where "db_map d (?p @ str ''parent'') = Some v"
    using assms(5) unfolding persisted_def Let_def chanKeys_def by auto
  with channel_codec.ChannelRemoved_OK [OF assms] show ?thesis
    by (fastforce simp: table_map_def pkey_def fun_eq_iff)
qed

theorem removed_channel_leaves_parent_witness:
  "\<exists>d d' v. persisted ex_backend d (source_of ex_machine) [ex_bob] None \<and>
     ChannelRemoved ex_backend d Zero = (d', OK ()) \<and> table_map (channelDB Zero) d' = [str ''parent'' \<mapsto> v]"
proof -
  obtain d where d: "persisted ex_backend d (source_of ex_machine) [ex_bob] None"
    "\<forall>a \<in> set [ex_bob]. \<forall>key. peerChannelKey ex_backend a (p_id (src_Params (source_of ex_machine))) = OK key \<longrightarrow>
        db_map d (kv_PeerDB @ key) = Some []"
    using ex_created [OF ex_source_ok(1)] by blast
  have "p_id (src_Params (source_of ex_machine)) = Zero"
    by (simp add: ex_machine_def ex_params_def)
  with removed_channel_leaves_parent [OF ex_codec ex_source_ok(1) _ _ d(1)] d show ?thesis
    by auto
qed

section \<open>Allocations\<close>

text \<open>\<open>Allocation.Valid\<close> accepts exactly the valid allocations: at least one asset and one
  participant, numbers within the limits, as many rows of balances as assets and rows of equal
  length, no negative balance, and sub-allocations with one non-negative balance per asset.\<close>

theorem allocation_valid_iff:
  "Allocation_Valid a = OK u \<longleftrightarrow>
     0 < length (al_Assets a) \<and> length (al_Assets a) \<le> 1024 \<and> length (al_Locked a) \<le> 1024 \<and>
     length (al_Balances a) = length (al_Assets a) \<and>
     0 < length (al_Balances a ! 0) \<and> length (al_Balances a ! 0) \<le> 1024 \<and>
     list_all (\<lambda>row. length row = length (al_Balances a ! 0) \<and> list_all (\<lambda>b. 0 \<le> b) row) (al_Balances a) \<and>
     list_all (\<lambda>l. length (sa_Bals l) = length (al_Assets a) \<and> list_all (\<lambda>b. 0 \<le> b) (sa_Bals l)) (al_Locked a)"
  unfolding Allocation_Valid_OK_iff valid_alloc_def valid_suballoc_def Let_def list_all_iff by auto

section \<open>Encodings\<close>

text \<open>A well-formed state can be encoded, and decoding gives it back.\<close>

theorem state_roundtrip:
  assumes "channel_codec B wf_addr wf_sig wf_asset" "state_ok B wf_addr wf_asset s"
  shows "\<exists>bs. State_Encode B s = OK bs \<and> State_Decode B (bs @ rest) = OK (s, rest)"
  using channel_codec.State_rt [OF assms] by (auto simp: roundtrips_def)

theorem state_roundtrip_witness:
  "\<exists>bs. State_Encode ex_backend ex_state = OK bs \<and> State_Decode ex_backend (bs @ [1]) = OK (ex_state, [1])"
  by (rule state_roundtrip [OF ex_codec ex_state_ok])



text \<open>C35. What a decoder accepts is well-formed: a decoded state has an identifier of 32 bytes and a valid
  allocation, and decoded parameters pass the validation and carry the identifier that the backend
  computes for them.\<close>

theorem decoded_well_formed:
  "(State_Decode B r = OK (s, rest) \<longrightarrow> length (st_ID s) = 32 \<and> valid_alloc (st_Alloc s)) \<and>
   (Params_Decode B r = OK (p, rest) \<longrightarrow>
     ValidateParameters B (p_ChallengeDuration p) (length (p_Parts p)) (p_App p) (p_Nonce p) = OK () \<and>
     cb_CalcID B (p\<lparr>p_id := Zero\<rparr>) = OK (p_id p))"
  using State_Decode_wf Params_Decode_wf by blast

theorem decoded_well_formed_witness:
  "\<exists>bs. State_Decode ex_backend bs = OK (ex_state, []) \<and> length (st_ID ex_state) = 32 \<and> valid_alloc (st_Alloc ex_state)"
proof -
  obtain bs where "State_Decode ex_backend (bs @ []) = OK (ex_state, [])"
    using channel_codec.State_rt [OF ex_codec ex_state_ok] unfolding roundtrips_def by blast
  with decoded_well_formed [of ex_backend "bs @ []" ex_state "[]"] show ?thesis
    by blast
qed

text \<open>Big integers are encoded exactly when they are non-negative and have at most 128 bytes, and
  then decode to themselves.\<close>

theorem big_int_roundtrip:
  "(is_OK (BigInt_Encode (Some i)) \<longleftrightarrow> 0 \<le> i \<and> i < 256 ^ 128) \<and>
   (\<forall>bs. BigInt_Encode (Some i) = OK bs \<longrightarrow> BigInt_Decode (bs @ rest) = OK (i, rest))"
  using BigInt_Encode_OK_iff [of i] bigint_codec.dec_enc [of i _ rest] by (auto simp: is_OK_iff)

theorem big_int_roundtrip_witness:
  "BigInt_Encode (Some 5) = OK [1, 5] \<and> BigInt_Decode ([1, 5] @ [9]) = OK (5, [9])"
proof -
  have "be_bytes 5 = [5]"
    by (simp add: be_bytes.simps)
  then have "BigInt_Encode (Some 5) = OK [1, 5]"
    by (simp add: BigInt_Encode_OK_iff)
  with big_int_roundtrip [of 5 "[9]"] show ?thesis
    by simp
qed

section \<open>Copies, registry, backend\<close>

text \<open>Cloning a machine gives an equal machine: parameters and transactions are copied without loss.\<close>

theorem machine_clone_equal:
  assumes "channel_codec B wf_addr wf_sig wf_asset" "list_all wf_addr (p_Parts (m_params m))"
    and "p_Nonce (m_params m) \<noteq> None"
    and "\<forall>t \<in> set (m_prevTXs m @ [m_stagingTX m, m_currentTX m]). \<forall>s. tx_State t = Some s \<longrightarrow> st_Data s \<noteq> NilData"
  shows "machine_Clone B m = OK m"
proof -
  have "mapR Transaction_Clone (m_prevTXs m) = OK (map (\<lambda>t. t) (m_prevTXs m))"
    using assms(4) by (intro mapR_total) (simp add: Transaction_Clone_OK_iff)
  moreover have "Transaction_Clone (m_stagingTX m) = OK (m_stagingTX m)"
    "Transaction_Clone (m_currentTX m) = OK (m_currentTX m)"
    using assms(4) by (simp_all add: Transaction_Clone_OK_iff)
  ultimately show ?thesis
    using channel_codec.Params_Clone_id [OF assms(1-3)] by (simp add: machine_Clone_def)
qed

theorem machine_clone_equal_witness: "machine_Clone ex_backend ex_signing = OK ex_signing"
  by (rule machine_clone_equal [OF ex_codec]) (auto simp: ex_defs zeroTransaction_def)

section \<open>Key-value stores\<close>

text \<open>Applying a batch to a database in which the keys to delete exist has the effect of the
  buffered writes and deletions in the order in which they were buffered.\<close>

theorem batch_applies_in_order:
  assumes "db_inv d" "\<And>k. k \<in> set (b_deletes (fold batch_do xs batch_Reset)) \<Longrightarrow> db_map d k \<noteq> None"
  shows "\<exists>d'. batch_Apply (fold batch_do xs batch_Reset) d = (d', OK ()) \<and>
     db_map d' = fold map_do xs (db_map d)"
  using batch_Apply_OK [OF assms(1), of "fold batch_do xs batch_Reset"] assms(2)
    batch_effect_fold [OF batch_inv_Reset, of xs "db_map d"] by auto

theorem batch_applies_in_order_witness:
  "\<exists>d'. batch_Apply (fold batch_do [BPut [1] [5], BDelete [1], BPut [1] [7]] batch_Reset) NewDatabase = (d', OK ()) \<and>
     db_map d' = [[1] \<mapsto> [7]]"
proof -
  have "\<exists>d'. batch_Apply (fold batch_do [BPut [1] [5], BDelete [1], BPut [1] [7]] batch_Reset) NewDatabase = (d', OK ()) \<and>
     db_map d' = fold map_do [BPut [1] [5], BDelete [1], BPut [1] [7]] (db_map NewDatabase)"
    by (rule batch_applies_in_order)
      (simp_all add: NewDatabase_inv batch_Reset_def batch_Put_def batch_Delete_def)
  then show ?thesis
    by (auto simp: NewDatabase_inv fun_eq_iff)
qed



section \<open>Clients\<close>

unbundle bit_operations_syntax

text \<open>C7. A ledger channel that both sides agree to open: when the proposal is valid, the other user accepts
  it and both funders succeed, then \<open>ProposeChannel\<close> and the handler of the proposal return, each side
  having received what the other sent.  Both then hold the ends of the same channel: the same
  parameters, the agreed initial state with both signatures, which verify, and everything that the
  update protocol needs.\<close>

theorem channel_opened:
  assumes "client_backend B wf_addr wf_sig wf_asset" "agreed_proposal B wf_addr wf_asset H p a params s"
    and "unopened params cl" "unopened params peer" "provides E H p params s 0" "provides (hd_env Hd) H p params s 1"
    and "hd_proposal Hd (LedgerProposal p) = ProposalAccept (LedgerAccept a)" "lp_Peers p = [cl_address cl, cl_address peer]"
    and "cb_Sign B (p_Parts params ! 0) params s = OK x" "cb_Sign B (p_Parts params ! 1) params s = OK y"
  shows "\<exists>cl1 peer1 c c' ch ch'. ProposeChannel B (feed (cl_address cl) (sent_by peer peer1)) E h (LedgerProposal p) cl = (cl1, OK c) \<and>
     Handle B (feed (cl_address peer) (sent_by cl cl1)) Hd (deliver (cl_address peer) (sent_by cl cl1)) peer = (peer1, OK ()) \<and>
     paired B wf_addr wf_sig wf_asset cl1 c ch peer1 c' ch' \<and> m_params (ch_machine ch) = params \<and>
     m_currentTX (ch_machine ch) = \<lparr>tx_State = Some s, tx_Sigs = [x, y]\<rparr> \<and>
     cb_Verify B (p_Parts params ! 0) params s x = OK True \<and> cb_Verify B (p_Parts params ! 1) params s y = OK True"
  using assms by (rule client_backend.opening_agreement)

theorem channel_opened_witness:
  "\<exists>cl1 peer1 c c' ch ch'. ProposeChannel ex_backend (feed ex_alice (sent_by (ex_new_client ex_bob) peer1)) ex_env
       (\<lambda>_ _. returnS Finished) (LedgerProposal ex_proposal) (ex_new_client ex_alice) = (cl1, OK c) \<and>
     Handle ex_backend (feed ex_bob (sent_by (ex_new_client ex_alice) cl1)) ex_accepting
       (deliver ex_bob (sent_by (ex_new_client ex_alice) cl1)) (ex_new_client ex_bob) = (peer1, OK ()) \<and>
     paired ex_backend addr64 addr64 sim_asset_ok cl1 c ch peer1 c' ch' \<and>
     m_currentTX (ch_machine ch) = \<lparr>tx_State = Some ex_state, tx_Sigs = [Some ex_alice, Some ex_bob]\<rparr>"
proof -
  have addr: "cl_address (ex_new_client a) = a" for a
    by (simp add: ex_new_client_def ex_client_def)
  have "hd_proposal ex_accepting (LedgerProposal ex_proposal) = ProposalAccept (LedgerAccept ex_acceptance)"
    "provides (hd_env ex_accepting) ex_hash ex_proposal ex_params ex_state 1"
    "lp_Peers ex_proposal = [cl_address (ex_new_client ex_alice), cl_address (ex_new_client ex_bob)]"
    "cb_Sign ex_backend (p_Parts ex_params ! 0) ex_params ex_state = OK (Some ex_alice)"
    "cb_Sign ex_backend (p_Parts ex_params ! 1) ex_params ex_state = OK (Some ex_bob)"
    using ex_provides [of 1] by (simp_all add: ex_accepting_def ex_proposal_def addr ex_backend_def ex_params_def)
  from channel_opened [OF ex_client_backend ex_agreed ex_unopened ex_unopened ex_provides this(2,1,3-5), of "\<lambda>_ _. returnS Finished"]
  show ?thesis
    unfolding addr by metis
qed

text \<open>C8. An update that the other side accepts: when two clients hold the ends of a channel, the
  proposer's state is a valid successor and the other user accepts it, then \<open>Update\<close> returns, and
  both sides have the same current transaction: the new state with both signatures, which verify.\<close>

theorem update_agreed:
  assumes "client_backend B wf_addr wf_sig wf_asset" "paired B wf_addr wf_sig wf_asset cl c ch peer c' ch'"
    and "validTransition B (ch_machine ch) s (ch_Idx ch) = OK ()" "validTwoPartyUpdateState ch s = OK ()"
    and "state_ok B wf_addr wf_asset s" "NumParts (st_Alloc s) = 2"
    and "cb_Sign B (m_acc (ch_machine ch)) (m_params (ch_machine ch)) s = OK x"
    and "cb_Sign B (m_acc (ch_machine ch')) (m_params (ch_machine ch)) s = OK y"
    and "hd_update H (ch_State ch) (request ch s x) = UserAccept"
  shows "\<exists>cl1 peer1 m m' sigs. Channel_Update B (linked B H cl peer) c s cl = (cl1, OK ()) \<and>
     Handle B silent H (deliver (cl_address peer) (sent_by cl cl1)) peer = (peer1, OK ()) \<and>
     machine_at cl1 c = Some m \<and> machine_at peer1 c' = Some m' \<and>
     m_currentTX m = \<lparr>tx_State = Some s, tx_Sigs = sigs\<rparr> \<and> m_currentTX m' = m_currentTX m \<and>
     length sigs = length (p_Parts (m_params (ch_machine ch))) \<and>
     (\<forall>i < length sigs. cb_Verify B (p_Parts (m_params (ch_machine ch)) ! i) (m_params (ch_machine ch)) s (sigs ! i) = OK True) \<and>
     m_phase m = (if st_IsFinal s then Final else Acting) \<and> m_phase m' = m_phase m"
  using assms by (rule client_backend.update_agreement)

theorem update_agreed_witness:
  "\<exists>cl1 peer1 m m'. Channel_Update ex_backend
       (linked ex_backend (ex_handlers UserAccept) (ex_client ex_alice ex_machine) (ex_client ex_bob ex_machine_bob))
       0 ex_state2 (ex_client ex_alice ex_machine) = (cl1, OK ()) \<and>
     Handle ex_backend silent (ex_handlers UserAccept) (deliver ex_bob (sent_by (ex_client ex_alice ex_machine) cl1))
       (ex_client ex_bob ex_machine_bob) = (peer1, OK ()) \<and>
     machine_at cl1 0 = Some m \<and> machine_at peer1 0 = Some m' \<and>
     tx_State (m_currentTX m) = Some ex_state2 \<and> m_currentTX m' = m_currentTX m"
proof -
  have "hd_update (ex_handlers UserAccept) (ch_State (ex_channel ex_machine)) r = UserAccept" for r
    by (simp add: ex_handlers_def)
  from update_agreed [OF ex_client_backend ex_paired ex_channel_update ex_update(2) ex_state2_ok ex_update(3) ex_signs this]
  show ?thesis
    by (fastforce simp: ex_client_def)
qed

text \<open>C10. An update that the other user rejects fails at the proposer with the reason, and leaves
  both channel machines as they were.\<close>

theorem update_rejected_unchanged:
  assumes "client_backend B wf_addr wf_sig wf_asset" "paired B wf_addr wf_sig wf_asset cl c ch peer c' ch'"
    and "validTransition B (ch_machine ch) s (ch_Idx ch) = OK ()" "validTwoPartyUpdateState ch s = OK ()"
    and "state_ok B wf_addr wf_asset s"
    and "cb_Sign B (m_acc (ch_machine ch)) (m_params (ch_machine ch)) s = OK x"
    and "hd_update H (ch_State ch) (request ch s x) = UserReject reason"
  shows "\<exists>cl1 peer1. Channel_Update B (linked B H cl peer) c s cl = (cl1, Err (PeerRejectedError ''channel update'' reason)) \<and>
     Handle B silent H (deliver (cl_address peer) (sent_by cl cl1)) peer = (peer1, OK ()) \<and>
     machine_at cl1 c = Some (ch_machine ch) \<and> machine_at peer1 c' = Some (ch_machine ch')"
  using assms by (rule client_backend.update_rejection)

theorem update_rejected_unchanged_witness:
  "\<exists>cl1. Channel_Update ex_backend
       (linked ex_backend (ex_handlers (UserReject [7])) (ex_client ex_alice ex_machine) (ex_client ex_bob ex_machine_bob))
       0 ex_state2 (ex_client ex_alice ex_machine) = (cl1, Err (PeerRejectedError ''channel update'' [7])) \<and>
     machine_at cl1 0 = Some ex_machine"
proof -
  have "hd_update (ex_handlers (UserReject [7])) (ch_State (ex_channel ex_machine)) r = UserReject [7]" for r
    by (simp add: ex_handlers_def)
  from update_rejected_unchanged [OF ex_client_backend ex_paired ex_channel_update ex_update(2) ex_state2_ok ex_signs(1) this]
  show ?thesis
    by (fastforce simp: ex_channel_def)
qed

text \<open>C9. A lost acceptance: the proposer times out and keeps its state, while the other side has the
  new one.  Synchronising the proposer's stored channel with the peer then brings the missed
  transaction; the channel is in the acting phase afterwards, also when that transaction is final.\<close>

theorem lost_acceptance_synchronised:
  assumes "client_backend B wf_addr wf_sig wf_asset" "paired B wf_addr wf_sig wf_asset cl c ch peer c' ch'" "\<not> cl_closed cl"
    and "validTransition B (ch_machine ch) s (ch_Idx ch) = OK ()" "validTwoPartyUpdateState ch s = OK ()"
    and "state_ok B wf_addr wf_asset s" "NumParts (st_Alloc s) = 2" "st_Version s \<noteq> 0"
    and "cb_Sign B (m_acc (ch_machine ch)) (m_params (ch_machine ch)) s = OK x"
    and "cb_Sign B (m_acc (ch_machine ch')) (m_params (ch_machine ch)) s = OK y"
    and "hd_update H (ch_State ch) (request ch s x) = UserAccept"
  shows "\<exists>cl1 peer1 m' cl2 pch. Channel_Update B silent c s cl =
       (cl1, Err (ErrWithMessage ''context closed'' RequestTimedOutError)) \<and> machine_at cl1 c = Some (ch_machine ch) \<and>
     Handle B silent H (deliver (cl_address peer) (sent_by cl cl1)) peer = (peer1, OK ()) \<and>
     machine_at peer1 c' = Some m' \<and> tx_State (m_currentTX m') = Some s \<and>
     syncChannel B (linked B H cl1 peer1) (restored (source_of (ch_machine ch)) (ch_peers ch) None) (cl_address peer) cl1 =
       (cl2, pch, OK ()) \<and> pc_CurrentTX pch = m_currentTX m' \<and> pc_Phase pch = Acting"
  using assms by (rule client_backend.lost_answer_recovery)

theorem lost_acceptance_synchronised_witness:
  "\<exists>cl1 peer1 cl2 pch. Channel_Update ex_backend silent 0 ex_state2 (ex_client ex_alice ex_machine) =
       (cl1, Err (ErrWithMessage ''context closed'' RequestTimedOutError)) \<and>
     Handle ex_backend silent (ex_handlers UserAccept) (deliver ex_bob (sent_by (ex_client ex_alice ex_machine) cl1))
       (ex_client ex_bob ex_machine_bob) = (peer1, OK ()) \<and>
     syncChannel ex_backend (linked ex_backend (ex_handlers UserAccept) cl1 peer1)
       (restored (source_of ex_machine) [ex_alice, ex_bob] None) ex_bob cl1 = (cl2, pch, OK ()) \<and>
     tx_State (pc_CurrentTX pch) = Some ex_state2"
proof -
  have "hd_update (ex_handlers UserAccept) (ch_State (ex_channel ex_machine)) r = UserAccept" for r
    by (simp add: ex_handlers_def)
  moreover have "\<not> cl_closed (ex_client ex_alice ex_machine)" "st_Version ex_state2 \<noteq> 0"
    by (simp_all add: ex_client_def ex_state2_def)
  ultimately show ?thesis
    using lost_acceptance_synchronised [OF ex_client_backend ex_paired _ ex_channel_update ex_update(2) ex_state2_ok
        ex_update(3) _ ex_signs, of "ex_handlers UserAccept"]
    by (fastforce simp: ex_client_def ex_channel_def)
qed

text \<open>C16. Every message of the protocols survives the wire: the initialisation registers a decoder for
  each message type without a conflict, and decoding an encoded envelope gives it back.\<close>

theorem envelope_roundtrip:
  assumes "channel_codec B wf_addr wf_sig wf_asset" "wf_addr (env_Sender e)" "wf_addr (env_Recipient e)"
    and "msg_ok B wf_addr wf_sig wf_asset (env_Msg e)"
  shows "\<exists>ds bs. init_registry B = OK ds \<and> Envelope_Encode B e = OK bs \<and>
     Envelope_Decode B ds (bs @ rest) = OK (e, rest)"
  using channel_codec.Envelope_rt [OF assms refl] by (auto simp: init_registry_eq roundtrips_def)

theorem envelope_roundtrip_witness:
  "\<exists>ds bs. init_registry ex_backend = OK ds \<and>
     Envelope_Encode ex_backend (two_env (ex_channel ex_machine) 0 (MUpdate (request (ex_channel ex_machine) ex_state2 (Some ex_alice)))) = OK bs \<and>
     Envelope_Decode ex_backend ds (bs @ [1]) =
       OK (two_env (ex_channel ex_machine) 0 (MUpdate (request (ex_channel ex_machine) ex_state2 (Some ex_alice))), [1])"
  by (rule envelope_roundtrip [OF ex_codec])
    (simp_all add: two_env_def ex_channel_def request_def update_ok_def some_ok_def)

text \<open>C15. A sub-channel from its funding to its settlement: \<open>fundUpdate\<close> moves its initial balances out
  of the parent's, \<open>withdrawUpdate\<close> adds its final balances.  The sums of the parent stay the same in
  both steps, and the locked funds are in the end what they were.\<close>

theorem sub_channel_conserves_funds:
  assumes "same_shape (al_Balances (st_Alloc st)) (al_Balances alloc)"
    and "same_shape (al_Balances (st_Alloc st)) (al_Balances (st_Alloc sub))"
    and "i \<notin> sa_ID ` set (al_Locked (st_Alloc st))" "valid_alloc (st_Alloc st)"
    and "al_Locked (st_Alloc sub) = []" "Balances_Sum (al_Balances (st_Alloc sub)) = Balances_Sum (al_Balances alloc)"
  shows "\<exists>st1 st2. fundUpdate i alloc st = OK st1 \<and> withdrawUpdate i (Some sub) st1 = OK st2 \<and>
     Allocation_Sum (st_Alloc st1) = Allocation_Sum (st_Alloc st) \<and>
     Allocation_Sum (st_Alloc st2) = Allocation_Sum (st_Alloc st) \<and>
     al_Locked (st_Alloc st2) = al_Locked (st_Alloc st) \<and>
     Balances_Sub (al_Balances (st_Alloc st)) (al_Balances alloc) = OK (al_Balances (st_Alloc st1)) \<and>
     Balances_Add (al_Balances (st_Alloc st1)) (al_Balances (st_Alloc sub)) = OK (al_Balances (st_Alloc st2))"
  using sub_channel_cycle [OF assms(1-3) valid_alloc_dims [OF assms(4)] assms(5,6)] .

theorem sub_channel_conserves_funds_witness:
  "\<exists>st1 st2. fundUpdate [9] (ex_alloc\<lparr>al_Balances := [[2, 1]]\<rparr>) ex_state = OK st1 \<and>
     withdrawUpdate [9] (Some (ex_state\<lparr>st_Alloc := ex_alloc\<lparr>al_Balances := [[0, 3]]\<rparr>\<rparr>)) st1 = OK st2 \<and>
     Allocation_Sum (st_Alloc st2) = Allocation_Sum ex_alloc"
proof -
  have "st_Alloc ex_state = ex_alloc"
    by (simp add: ex_state_def)
  then show ?thesis
    using sub_channel_conserves_funds [of ex_state "ex_alloc\<lparr>al_Balances := [[2, 1]]\<rparr>"
        "ex_state\<lparr>st_Alloc := ex_alloc\<lparr>al_Balances := [[0, 3]]\<rparr>\<rparr>" "[9]"]
    by (auto simp: same_shape_def) (auto simp: ex_alloc_def)
qed



text \<open>C19. A proposal to fund a virtual channel that is invalid, or that no matching proposal joins in
  time, makes the hub panic: the handler goes on after the rejection and answers a second time.\<close>

theorem unmatched_funding_proposal_panics:
  assumes "validateVirtualChannelFundingProposal B ch prop \<noteq> OK () \<or> \<not> is_OK (snd (fundingWatcher_Await B wait prop cl))"
  shows "is_Panic (snd (handleVirtualChannelFundingProposal B N wait ch prop r cl))"
  using assms by (rule funding_proposal_panics)

theorem unmatched_funding_proposal_panics_witness:
  "is_Panic (snd (handleVirtualChannelFundingProposal ex_backend silent (liftS (Err (ErrNew ''context deadline exceeded'')))
     (ex_channel ex_machine) ex_funding
     \<lparr>re_channel = 0, re_pidx = 0, re_req = FundingProposal ex_funding, re_called = False\<rparr> (ex_client ex_bob ex_machine_bob)))"
  by (rule unmatched_funding_proposal_panics, rule disjI2)
    (simp add: fundingWatcher_Await_def Await_def call_simps new_ref_def ex_client_def)

text \<open>C20. While the funding of a sub-channel is awaited, an update of the parent channel is accepted
  without asking the user as soon as it locks the expected amounts for the sub-channel.  Nothing is
  required of the participants' balances: the update may take the funds from any of them.\<close>

theorem sub_channel_funding_split_unchecked:
  assumes "client_backend B wf_addr wf_sig wf_asset" "side_ready B wf_addr wf_sig wf_asset peer c ch" "ch_parent ch = None"
    and "registry_Get peer (ch_ID ch) = Some c" "ch_fundings ch = [(i, FundingFilter i bals)]" "hd_awaited H Fundings i"
    and "validTransition B (ch_machine ch) s (m_idx (ch_machine ch) XOR 1) = OK ()"
    and "state_ok B wf_addr wf_asset s" "NumParts (st_Alloc s) = 2"
    and "ch_State ch = Some cur" "i \<notin> sa_ID ` set (al_Locked (st_Alloc cur))"
    and "Allocation_SubAlloc (st_Alloc s) i = (sa, True)" "sa_Bals sa = bals"
    and "cb_Verify B (p_Parts (m_params (ch_machine ch)) ! unat (m_idx (ch_machine ch) XOR 1)) (m_params (ch_machine ch)) s (Some x) = OK True"
      "wf_sig x" "x \<noteq> []"
    and "cb_Sign B (m_acc (ch_machine ch)) (m_params (ch_machine ch)) s = OK (Some y)"
  shows "\<exists>peer1 m'. Handle B silent H [\<lparr>env_Sender = a, env_Recipient = r, env_Msg = MUpdate
       \<lparr>cu_State = s, cu_ActorIdx = m_idx (ch_machine ch) XOR 1, mu_Sig = Some x\<rparr>\<rparr>] peer = (peer1, OK ()) \<and>
     machine_at peer1 c = Some m' \<and> tx_State (m_currentTX m') = Some s"
proof -
  have "runFilter (FundingFilter i bals) (ch_State ch)
      \<lparr>cu_State = s, cu_ActorIdx = m_idx (ch_machine ch) XOR 1, mu_Sig = Some x\<rparr> = OK True"
    using assms(10-13) by (simp add: funding_filter_OK_iff)
  with assms(1-9,14-17) show ?thesis
    by (intro client_backend.intercepted_funding)
qed

theorem sub_channel_funding_split_unchecked_witness:
  "\<exists>peer1 m'. Handle ex_backend silent ((ex_handlers UserSilent)\<lparr>hd_awaited := \<lambda>_ _. True\<rparr>)
       [\<lparr>env_Sender = ex_alice, env_Recipient = ex_bob,
         env_Msg = MUpdate \<lparr>cu_State = ex_grab, cu_ActorIdx = 0, mu_Sig = Some ex_alice\<rparr>\<rparr>]
       ((ex_client ex_bob ex_machine_bob)\<lparr>cl_heap := [0 \<mapsto> ex_waiting]\<rparr>) = (peer1, OK ()) \<and>
     machine_at peer1 0 = Some m' \<and> tx_State (m_currentTX m') = Some ex_grab"
proof -
  let ?peer = "(ex_client ex_bob ex_machine_bob)\<lparr>cl_heap := [0 \<mapsto> ex_waiting]\<rparr>"
  let ?H = "(ex_handlers UserSilent)\<lparr>hd_awaited := \<lambda>_ _. True\<rparr>"
  have m: "ch_machine ex_waiting = ex_machine_bob" "m_idx ex_machine_bob XOR 1 = 0" "m_params ex_machine_bob = ex_params"
    "m_acc ex_machine_bob = ex_bob" "ch_State ex_waiting = Some ex_state"
    by (simp_all add: ex_waiting_def ex_channel_def ex_machine_bob_def ex_machine_def ex_tx_def ch_State_def)
  have "registry_Get ?peer (ch_ID ex_waiting) = Some 0"
    by (simp add: registry_Get_def ex_client_def ch_ID_def machine_ID_def m ex_params_def)
  moreover have "NumParts (st_Alloc ex_grab) = 2" "replicate 32 7 \<notin> sa_ID ` set (al_Locked (st_Alloc ex_state))"
    "Allocation_SubAlloc (st_Alloc ex_grab) (replicate 32 7) = (\<lparr>sa_ID = replicate 32 7, sa_Bals = [3], sa_IndexMap = []\<rparr>, True)"
    by (simp_all add: NumParts_def ex_grab_def ex_state_def ex_alloc_def Allocation_SubAlloc_def)
  moreover have "cb_Verify ex_backend (p_Parts ex_params ! unat (0 :: Index)) ex_params ex_grab (Some ex_alice) = OK True"
    "cb_Sign ex_backend ex_bob ex_params ex_grab = OK (Some ex_bob)" "ex_alice \<noteq> []"
    by (simp_all add: ex_backend_def ex_params_def ex_alice_def)
  moreover have "ch_parent ex_waiting = None" "ch_fundings ex_waiting = [(replicate 32 7, FundingFilter (replicate 32 7) [3])]"
    "hd_awaited ?H Fundings (replicate 32 7)"
    by (simp_all add: ex_waiting_def ex_channel_def)
  ultimately show ?thesis
    using sub_channel_funding_split_unchecked [OF ex_client_backend ex_waiting_side, of "replicate 32 7" "[3]" ?H ex_grab ex_state
        "\<lparr>sa_ID = replicate 32 7, sa_Bals = [3], sa_IndexMap = []\<rparr>" ex_alice ex_bob ex_alice ex_bob]
      ex_grab_ok(1) ex_grab_transition by (simp only: m) simp
qed

text \<open>C11. An outdated registration is refuted: when the adjudicator reports an older state of a channel,
  the watcher registers, in one request, the current signed states of the whole tree of channels that
  the channel belongs to, from the root.  No channel of the tree is missing from the request, and all
  of them are in phase \<open>Registered\<close> afterwards.\<close>

theorem outdated_registration_refuted:
  assumes "root_of cl c r" "tryLockRecursive r cl = (cl, OK (r # l))" "c \<in> set (r # l)" "opened cl (r # l)"
    and "cl_heap cl c = Some ch" "ch_State ch = Some own" "v < st_Version own" "cl_heap cl r = Some rch"
    and "ad_Register A (machine_AdjudicatorReq (ch_machine rch)) (map (signed_state cl) l) = OK ()"
  shows "\<exists>cl'. watchEvent B A c (RegisteredEvent i t v s sigs) cl = (cl', OK ()) \<and> in_phase Registered cl' (r # l) \<and>
     cl_chain cl' = cl_chain cl @ [CallRegister (machine_AdjudicatorReq (ch_machine rch)) (map (signed_state cl) l)] \<and>
     distinct (r # l) \<and> (\<forall>p \<in> set (r # l). covered cl (r # l) p)"
  using refutation [OF assms] tryLockRecursive_tree(2) [OF assms(2)] by blast

theorem outdated_registration_refuted_witness:
  "\<exists>cl'. watchEvent ex_backend ex_adjudicator 1 (RegisteredEvent (replicate 32 7) (TimeTimeout 5) 0 None []) ex_tree = (cl', OK ()) \<and>
     in_phase Registered cl' [0, 1] \<and>
     cl_chain cl' = [CallRegister (machine_AdjudicatorReq ex_parent) [signed_state ex_tree 1]]"
proof -
  have "cl_heap ex_tree 1 = Some ((ex_channel ex_child)\<lparr>ch_parent := Some 0\<rparr>)" "cl_heap ex_tree 0 = Some (ex_channel ex_parent)"
    "ch_State ((ex_channel ex_child)\<lparr>ch_parent := Some 0\<rparr>) = Some (ex_state2\<lparr>st_ID := replicate 32 7\<rparr>)"
    "0 < st_Version (ex_state2\<lparr>st_ID := replicate 32 7\<rparr>)" "cl_chain ex_tree = []"
    by (simp_all add: ex_tree_def ex_client_def ex_channel_def ex_child_def ch_State_def ex_state2_def)
  from outdated_registration_refuted [OF ex_tree_opened(2) ex_tree_locked _ ex_tree_opened(1) this(1,3,4,2), of ex_adjudicator] this(5)
  show ?thesis
    by (fastforce simp: ex_adjudicator_def ex_channel_def)
qed



section \<open>Routing and helpers\<close>

text \<open>C21. A relay loses no message and brings none twice to the same consumer, however its calls, each a
  single step, and the goroutines that bring cached messages to new subscribers interleave: every message that was put
  into the open relay is cached, was handed to the default handler, was flushed when the relay was
  closed, or was given to a consumer (or is on the way to one); and no consumer has more copies of a
  message than were put, together with those that the relay kept.\<close>

theorem relay_conserves_messages:
  assumes "relay_reach y"
  shows "mset (sy_put y) \<subseteq># kept y + given y \<and> (\<forall>c. kept y + given_to c y \<subseteq># mset (sy_put y))"
  using relay_inv_reach [OF assms] by (simp add: relay_inv_def)

theorem relay_conserves_messages_witness:
  "\<exists>y. sy_put y = [two_env (ex_channel ex_machine) 0 (PingMsg 1), two_env (ex_channel ex_machine) 0 (PingMsg 2)] \<and>
     mset (sy_put y) \<subseteq># kept y + given y \<and> (\<forall>c. kept y + given_to c y \<subseteq># mset (sy_put y))"
proof -
  obtain y where "relay_reach y" "sy_put y = [two_env (ex_channel ex_machine) 0 (PingMsg 1), two_env (ex_channel ex_machine) 0 (PingMsg 2)]"
    using cached_overtaken [of "two_env (ex_channel ex_machine) 0 (PingMsg 1)" "two_env (ex_channel ex_machine) 0 (PingMsg 2)" 3] by blast
  with relay_conserves_messages [of y] show ?thesis
    by blast
qed



text \<open>C29. The dialer accepts an answer exactly when its message could be sent and an authentication
  response arrives whose recipient is the dialer or whose sender is the dialed peer: an answer in the
  name of another sender passes as long as it is addressed to the dialer.\<close>

theorem dialer_accepts:
  "ExchangeAddrsActive True own peer conn = (False, OK ()) \<longleftrightarrow>
     cn_Send conn \<lparr>env_Sender = own, env_Recipient = peer, env_Msg = AuthResponseMsg\<rparr> = OK () \<and>
     (\<exists>e. cn_Recv conn = OK e \<and> env_Msg e = AuthResponseMsg \<and> (env_Recipient e = own \<or> env_Sender e = peer))"
  by (rule ExchangeAddrsActive_OK_iff)

text \<open>C28. Two goroutines that report an error at the same time can make the gatherer panic: both find that
  the channel \<open>failed\<close> is open, and both close it.\<close>

theorem concurrent_errors_panic:
  "\<exists>g. gather_step\<^sup>*\<^sup>* (NewGatherer, [AddStart (Some e), AddStart (Some e')]) (g, [AddCallbacks [], AddPanic])"
  by (rule gather_race)

section \<open>The network\<close>

text \<open>C23. Two nodes dial each other at the same time.  However the operations on their registries interleave,
  and whatever happens to the other connection: while the connection \<open>k\<close> that the node with the greater
  address has dialed does not fail, it is not closed; once a node has taken it over, it stays in the
  node's entry; and where the other connection is refused, the result is \<open>k\<close>.\<close>

theorem tie_resolution_agrees:
  assumes "address_order cmp wf_addr" "wf_addr (addr NodeA)" "wf_addr (addr NodeB)" "addr NodeA \<noteq> addr NodeB"
    and "\<not> cmp (addr k) (addr (other k)) < 0" "(tie_step cmp addr)\<^sup>*\<^sup>* tie_init s" "\<not> ty_failed s k"
  shows "\<not> ty_closed s k \<and> (\<forall>n. ty_pc s n k \<in> {TIdle, TCas, TTie} \<or> ty_slot s n = Some (Some k)) \<and>
     (\<forall>n x. ty_pc s n (other k) = TRefused x \<longrightarrow> x = Some k)"
proof -
  have inv: "\<not> ty_closed s k" "tie_local k (ty_slot s n) (ty_pc s n k) (ty_pc s n (other k))" for n
    using address_order.tie_resolved [OF assms(1-6)] assms(7) by (auto simp: tie_inv_def)
  have "ty_pc s n k \<in> {TIdle, TCas, TTie} \<or> ty_slot s n = Some (Some k)" for n
    using inv(2) [of n] by (cases "ty_pc s n k") auto
  moreover have "x = Some k" if "ty_pc s n (other k) = TRefused x" for n x
    using inv(2) [of n] that by auto
  ultimately show ?thesis
    using inv(1) by blast
qed

theorem tie_resolution_agrees_witness:
  "\<exists>s. (tie_step eth_Address_Cmp (case_node ex_payer ex_payee))\<^sup>*\<^sup>* tie_init s \<and>
     ty_pc s NodeA NodeA = TRefused (Some NodeB) \<and> \<not> ty_closed s NodeB \<and> ty_slot s NodeA = Some (Some NodeB)"
proof -
  let ?addr = "case_node ex_payer ex_payee" and ?s = "tie_at NodeA NodeB (TRefused (Some NodeB)) {NodeA}"
  have cmp: "eth_Address_Cmp ex_payer ex_payee < 0" "\<not> eth_Address_Cmp ex_payee ex_payer < 0"
    by (simp_all add: eth_Address_Cmp_def ex_payer_def ex_payee_def numeral_eq_Suc)
  then have s: "(tie_step eth_Address_Cmp ?addr)\<^sup>*\<^sup>* tie_init ?s"
    using tie_refused [of eth_Address_Cmp ?addr NodeA NodeB] by (simp add: refuses_def)
  have "ex_payer \<noteq> ex_payee" "addr20 ex_payer" "addr20 ex_payee"
    by (simp_all add: ex_payer_def ex_payee_def)
  with tie_resolution_agrees [OF eth_order.address_order_axioms, of ?addr NodeB ?s] cmp s
  have "\<not> ty_closed ?s NodeB \<and> (\<forall>n. ty_pc ?s n NodeB \<in> {TIdle, TCas, TTie} \<or> ty_slot ?s n = Some (Some NodeB))"
    by (simp add: tie_at_def)
  with s show ?thesis
    by (intro exI [of _ ?s]) (auto simp: tie_at_def)
qed



text \<open>C25. A client that subscribes to the bus and is closed after the bus: its callback, which it runs when it
  closes, panics.\<close>

theorem bus_closed_first_panics:
  assumes "bus_SubscribeClient B c cb addr consumer b = (b1, OK consumer')" "\<not> IsClosed consumer" "bus_Close dialer b1 = (b2, OK ())"
  shows "cb \<in> set (co_ran (fst (Closer_Close consumer'))) \<and> removeSubscriber B addr b2 = (b2, Panic ''deleting nonexisting subscriber'')"
proof
  from assms(1) obtain key where "Key B addr = OK key"
    by (cases "Key B addr") (auto simp: bus_SubscribeClient_def addSubscriber_def call_steps)
  then show "removeSubscriber B addr b2 = (b2, Panic ''deleting nonexisting subscriber'')"
    using assms(3) by (rule bus_closed_first)
  have "consumer' = consumer\<lparr>co_onClosed := co_onClosed consumer @ [cb]\<rparr>"
    using assms(1,2) by (auto simp: bus_SubscribeClient_def call_steps OnCloseAlways_def split: res.splits prod.splits)
  with assms(2) show "cb \<in> set (co_ran (fst (Closer_Close consumer')))"
    by (simp add: Closer_Close_def IsClosed_def)
qed

theorem bus_closed_first_panics_witness:
  "\<exists>b1 b2. bus_SubscribeClient ex_eth_backend 0 0 ex_payee \<lparr>co_isClosed = False, co_onClosed = [], co_ran = []\<rparr> (NewBus ex_payer) =
       (b1, OK \<lparr>co_isClosed = False, co_onClosed = [0], co_ran = []\<rparr>) \<and> bus_Close None b1 = (b2, OK ()) \<and>
     removeSubscriber ex_eth_backend ex_payee b2 = (b2, Panic ''deleting nonexisting subscriber'')"
proof -
  let ?closer = "\<lparr>co_isClosed = False, co_onClosed = [], co_ran = []\<rparr>"
  obtain b1 where b1: "bus_SubscribeClient ex_eth_backend 0 0 ex_payee ?closer (NewBus ex_payer) =
       (b1, OK \<lparr>co_isClosed = False, co_onClosed = [0], co_ran = []\<rparr>)" "bus_mainClosed b1 = False" "bus_reg b1 = NewEndpointRegistry ex_payer"
    by (simp add: bus_SubscribeClient_def addSubscriber_def call_steps NewBus_def Key_def ex_eth_backend_def eth_backend_def
        eth_Address_Encode_def bus_lookup_def panic_if_def OnCloseAlways_def IsClosed_def)
  moreover obtain b2 where "bus_Close None b1 = (b2, OK ())"
    using b1(2,3) by (simp add: bus_Close_def call_steps err_if_def onReg_def reg_Close_def NewEndpointRegistry_def)
  ultimately show ?thesis
    using bus_closed_first_panics [of ex_eth_backend 0 0 ex_payee ?closer "NewBus ex_payer" b1 _ None b2] by (auto simp: IsClosed_def)
qed

section \<open>The Ethereum backend\<close>



text \<open>C37. A signature that an account of the simple Ethereum wallet creates on a valid state has 65 bytes
  and verifies for that account's address; no signature verifies on an invalid state.\<close>

theorem eth_signature_verifies:
  assumes "eth_Sign A (simple_SignData C) a p s = OK sg"
  shows "(\<exists>b. sg = Some b \<and> length b = 65) \<and>
     (if valid_alloc (st_Alloc s) then eth_Verify C A a p s sg = OK True else \<forall>sg' b. eth_Verify C A a p s sg' \<noteq> OK b)"
proof -
  have v: "\<And>a data sg. simple_SignData C a data = OK sg \<Longrightarrow> eth_VerifySignature C data sg a = OK True"
    using simple_SignData_verifies by blast
  from assms show ?thesis
    using eth_Sign_Verify [OF v assms] eth_Verify_invalid simple_SignData_verifies by (fastforce simp: eth_Sign_OK_iff)
qed

theorem eth_signature_verifies_witness:
  "\<exists>sg. eth_Sign ex_abi (simple_SignData example_secp) ex_payer ex_eth_params ex_eth_state = OK sg \<and>
     eth_Verify example_secp ex_abi ex_payer ex_eth_params ex_eth_state sg = OK True"
proof -
  obtain sg where "eth_Sign ex_abi (simple_SignData example_secp) ex_payer ex_eth_params ex_eth_state = OK sg"
    using ex_simple_SignData by (auto simp: eth_Sign_OK_iff ex_ToEthState EncodeState_def ex_abi_def)
  with eth_signature_verifies [OF this] ex_eth_valid show ?thesis
    by auto
qed

text \<open>C36. A well-formed state can be converted to the format of the contracts, and converting it back with
  the decoder of its application gives the state with the index maps filled in; the application itself
  is lost.\<close>

theorem eth_state_roundtrip:
  assumes "state_ok B wf_addr eth_asset_ok s"
  shows "\<exists>es. ToEthState s = OK es \<and> FromEthState B (st_App s) es =
     OK (s\<lparr>st_App := NilApp, st_Alloc := (st_Alloc s)\<lparr>al_Locked := map (\<lambda>sub. sub\<lparr>sa_IndexMap :=
       if sa_IndexMap sub = [] then map of_nat [0..<length (al_Balances (st_Alloc s) ! 0)] else sa_IndexMap sub\<rparr>)
       (al_Locked (st_Alloc s))\<rparr>\<rparr>)"
proof -
  have "valid_alloc (st_Alloc s)" "data_ok B (st_App s) (st_Data s)"
    using assms by (simp_all add: state_ok_def alloc_ok_def)
  moreover from this(1) have "al_Balances (st_Alloc s) \<noteq> []"
    by (auto simp: valid_alloc_def Let_def)
  ultimately show ?thesis
    using ToEthState_total [OF assms] FromEthState_ToEthState [of s _ B "st_App s"]
    by (auto simp: on_chain_def fill_map_def NumParts_def)
qed

theorem eth_state_roundtrip_witness:
  "\<exists>es. ToEthState ex_eth_state = OK es \<and> FromEthState ex_eth_backend NoApp es =
     OK (ex_eth_state\<lparr>st_App := NilApp, st_Alloc := ex_eth_alloc\<lparr>al_Locked :=
       [\<lparr>sa_ID = replicate 32 7, sa_Bals = [2], sa_IndexMap = [0, 1]\<rparr>]\<rparr>\<rparr>)"
proof -
  have "st_Alloc ex_eth_state = ex_eth_alloc" "st_App ex_eth_state = NoApp"
    by (simp_all add: ex_eth_state_def)
  with eth_state_roundtrip [OF ex_eth_state_ok] show ?thesis
    by (simp add: ex_eth_alloc_def upt_rec numeral_2_eq_2)
qed



text \<open>C17. A client that follows a progression on Ethereum crashes: the state of the event has no
  application, so that storing it dereferences a nil pointer.  The machine has already taken the state
  over and is in phase \<open>Progressed\<close>, and the database still has the old one.\<close>

theorem progressed_event_panics:
  assumes "convertEvent B D u = OK (ProgressedEvent i t v (Some s) idx)" "Allocation_Encode (st_Alloc s) = OK b"
    and "cl_heap cl c = Some ch"
  shows "\<exists>cl' m. watchEvent B A c (ProgressedEvent i t v (Some s) idx) cl = (cl', Panic ''nil pointer dereference'') \<and>
     cl_db cl' = cl_db cl \<and> machine_at cl' c = Some m \<and> m_phase m = Progressed"
proof -
  from SetProgressed_NilApp [OF convertEvent_NilApp [OF assms(1)] assms(2), of B "\<lparr>psm_machine = ch_machine ch, psm_db = cl_db cl\<rparr>"]
  obtain m' where "pm_SetProgressed B \<lparr>psm_machine = ch_machine ch, psm_db = cl_db cl\<rparr> (Some s) = (m', Panic ''nil pointer dereference'')"
    "psm_db m' = cl_db cl" "m_phase (psm_machine m') = Progressed"
    by auto
  with assms(3) show ?thesis
    by (simp add: watchEvent_def setMachinePhase_def on_machine_def chan_def call_steps put_chan_def machine_at_def)
qed

theorem progressed_event_panics_witness:
  "\<exists>cl'. convertEvent ex_eth_backend ex_calldata (ex_update 2 phaseForceExec 9) =
       OK (ProgressedEvent Zero (BlockTimeout 9) 2 (Some ex_progressed) 0) \<and>
     watchEvent ex_eth_backend ex_adjudicator 0 (ProgressedEvent Zero (BlockTimeout 9) 2 (Some ex_progressed) 0)
       (ex_client ex_bob ex_machine_bob) = (cl', Panic ''nil pointer dereference'')"
proof -
  obtain b where "Allocation_Encode (st_Alloc ex_progressed) = OK b"
    using ex_alloc_encodes by blast
  moreover have "cl_heap (ex_client ex_bob ex_machine_bob) 0 = Some (ex_channel ex_machine_bob)"
    by (simp add: ex_client_def)
  ultimately show ?thesis
    using progressed_event_panics [OF ex_convert_progressed] ex_convert_progressed by blast
qed

text \<open>C14. \<open>Withdraw\<close> returns without error only after the channel was seen to be concluded and, for every
  asset in which the participant has a balance, the withdrawal was seen.\<close>

theorem eth_withdraw_complete:
  assumes "eth_Withdraw C A sd a E W n req subStates c = (c', Some (OK ()))" "tx_State (ar_Tx req) = Some s"
    and "i < length (al_Assets (st_Alloc s))"
  shows "saw_concluded E \<and> (\<exists>bal. ownBalance s (ar_Idx req) i = OK bal \<and> (bal \<noteq> 0 \<longrightarrow> saw_withdrawn W i))"
proof -
  from assms(1) obtain c1 where "ensureConcluded a E n req subStates c = (c1, Some (OK ()))"
    "ensureWithdrawn C A sd a W req c1 = (c', Some (OK ()))"
    by (auto simp: eth_Withdraw_def bindW_OK_iff msgW_def map_prod_def res_simps split: prod.splits)
  with ensureConcluded_seen ensureWithdrawn_seen [OF _ assms(2,3)] show ?thesis
    by blast
qed

theorem eth_withdraw_complete_witness:
  "\<exists>bal. ownBalance ex_eth_state 0 0 = OK bal \<and> (bal \<noteq> 0 \<longrightarrow> saw_withdrawn ex_withdraw_env 0)"
proof -
  obtain c where "eth_Withdraw example_secp ex_abi (simple_SignData example_secp) ex_eth_adjudicator ex_concl_env
      ex_withdraw_env 1 ex_eth_req [] NewContractBackend = (c, Some (OK ()))"
    using ex_withdrawn by blast
  from eth_withdraw_complete [OF this, of ex_eth_state 0] show ?thesis
    by (simp add: ex_eth_req_def) (simp add: ex_eth_state_def ex_eth_alloc_def)
qed

text \<open>C27. The subscription to adjudicator events keeps, while no event is taken out, the newest one: none
  of the events that arrived has a higher version, or the same version and a later timeout.\<close>

theorem newest_event_kept:
  assumes "\<And>x. x \<in> set (u # us) \<Longrightarrow> convertEvent B D x = OK (f x)"
  shows "\<exists>w \<in> set (u # us). updateNext B D (map UpdEvent (u # us)) NewRegisteredSub = OK (NewRegisteredSub\<lparr>rs_next := Some (f w)\<rparr>) \<and>
     ev_Version (f w) = cu_Version w \<and>
     (\<forall>x \<in> set (u # us). cu_Version x < cu_Version w \<or> cu_Version x = cu_Version w \<and> cu_Timeout x \<le> cu_Timeout w)"
proof (rule bexI [OF _ newest_in])
  have "cu_Version x < cu_Version (newest u us) \<or> cu_Version x = cu_Version (newest u us) \<and> cu_Timeout x \<le> cu_Timeout (newest u us)"
    if "x \<in> set (u # us)" for x
    using newest_max [OF that] by (auto simp: newer_def)
  with updateNext_newest [OF assms] convertEvent_key(1) [OF assms [OF newest_in]]
  show "updateNext B D (map UpdEvent (u # us)) NewRegisteredSub = OK (NewRegisteredSub\<lparr>rs_next := Some (f (newest u us))\<rparr>) \<and>
     ev_Version (f (newest u us)) = cu_Version (newest u us) \<and>
     (\<forall>x \<in> set (u # us). cu_Version x < cu_Version (newest u us) \<or>
        cu_Version x = cu_Version (newest u us) \<and> cu_Timeout x \<le> cu_Timeout (newest u us))"
    by blast
qed

theorem newest_event_kept_witness:
  "\<exists>w \<in> {ex_update 3 phaseConcluded 8, ex_update 1 phaseConcluded 9}.
     updateNext ex_eth_backend ex_calldata [UpdEvent (ex_update 3 phaseConcluded 8), UpdEvent (ex_update 1 phaseConcluded 9)] NewRegisteredSub =
       OK (NewRegisteredSub\<lparr>rs_next := Some (ConcludedEvent Zero (BlockTimeout (cu_Timeout w)) (cu_Version w))\<rparr>) \<and> cu_Version w = 3"
proof -
  let ?f = "\<lambda>w. ConcludedEvent Zero (BlockTimeout (cu_Timeout w)) (cu_Version w)"
  have "convertEvent ex_eth_backend ex_calldata x = OK (?f x)"
    if "x \<in> set (ex_update 3 phaseConcluded 8 # [ex_update 1 phaseConcluded 9])" for x
    using that ex_convert_concluded by (auto simp: ex_update_def)
  from newest_event_kept [of "ex_update 3 phaseConcluded 8" "[ex_update 1 phaseConcluded 9]" ex_eth_backend ex_calldata ?f, OF this] show ?thesis
    by (fastforce simp: ex_update_def)
qed

end
